(* ===== verification/PyState.thy ===== *)
theory PyState
  imports Prelude
begin

text \<open>
  Methods of Python objects as state transformers.  A method takes the object's state and gives a result
  or an exception \<^emph>\<open>and\<close> the state it leaves behind: what a method changed before it raised stays changed,
  which matters wherever a caller catches the exception and goes on.  The theory has sequencing, loops,
  \<^verbatim>\<open>try\<close>, and the rules by which an invariant of the state is carried through a method.
\<close>

section \<open>Sequencing, loops and handlers\<close>

type_synonym ('s, 'a) pymethod = "'s \<Rightarrow> 'a res \<times> 's"

definition returnS :: "'a \<Rightarrow> ('s, 'a) pymethod" where
  "returnS x s = (Inr x, s)"

definition raiseS :: "py_error \<Rightarrow> ('s, 'a) pymethod" where
  "raiseS e s = (Inl e, s)"

definition liftS :: "'a res \<Rightarrow> ('s, 'a) pymethod" where
  "liftS r s = (r, s)"

definition getS :: "('s \<Rightarrow> 'a) \<Rightarrow> ('s, 'a) pymethod" where
  "getS f s = (Inr (f s), s)"

definition setS :: "('s \<Rightarrow> 's) \<Rightarrow> ('s, unit) pymethod" where
  "setS f s = (Inr (), f s)"

definition bindS :: "('s, 'a) pymethod \<Rightarrow> ('a \<Rightarrow> ('s, 'b) pymethod) \<Rightarrow> ('s, 'b) pymethod" where
  "bindS m f s = (case m s of (Inl e, s') \<Rightarrow> (Inl e, s') | (Inr x, s') \<Rightarrow> f x s')"

definition thenS :: "('s, 'a) pymethod \<Rightarrow> ('s, 'b) pymethod \<Rightarrow> ('s, 'b) pymethod" where
  "thenS m n = bindS m (\<lambda>_. n)"

definition whenS :: "bool \<Rightarrow> ('s, unit) pymethod \<Rightarrow> ('s, unit) pymethod" where
  "whenS b m = (if b then m else returnS ())"

text \<open>\<^verbatim>\<open>try: m except: h\<close>, for a handler that looks at the exception.\<close>

definition tryS :: "('s, 'a) pymethod \<Rightarrow> (py_error \<Rightarrow> ('s, 'a) pymethod) \<Rightarrow> ('s, 'a) pymethod" where
  "tryS m h s = (case m s of (Inl e, s') \<Rightarrow> h e s' | (Inr x, s') \<Rightarrow> (Inr x, s'))"

text \<open>\<^verbatim>\<open>for x in xs: f(x)\<close>, and the loop that carries a local variable along.\<close>

fun forS :: "('a \<Rightarrow> ('s, unit) pymethod) \<Rightarrow> 'a list \<Rightarrow> ('s, unit) pymethod" where
  "forS f [] = returnS ()"
| "forS f (x # xs) = thenS (f x) (forS f xs)"

fun foldS :: "('a \<Rightarrow> 'b \<Rightarrow> ('s, 'b) pymethod) \<Rightarrow> 'a list \<Rightarrow> 'b \<Rightarrow> ('s, 'b) pymethod" where
  "foldS f [] y = returnS y"
| "foldS f (x # xs) y = bindS (f x y) (foldS f xs)"

named_theorems state_simps \<open>evaluation of methods at a state\<close>

lemma returnS_at [simp, state_simps]: "returnS x s = (Inr x, s)"
  by (simp add: returnS_def)

lemma raiseS_at [simp, state_simps]: "raiseS e s = (Inl e, s)"
  by (simp add: raiseS_def)

lemma liftS_at [simp, state_simps]: "liftS r s = (r, s)"
  by (simp add: liftS_def)

lemma getS_at [simp, state_simps]: "getS f s = (Inr (f s), s)"
  by (simp add: getS_def)

lemma setS_at [simp, state_simps]: "setS f s = (Inr (), f s)"
  by (simp add: setS_def)

lemma whenS_at [simp, state_simps]: "whenS b m s = (if b then m s else (Inr (), s))"
  by (simp add: whenS_def)

lemma bindS_Inr [state_simps]: "m s = (Inr x, s') \<Longrightarrow> bindS m f s = f x s'"
  by (simp add: bindS_def)

lemma bindS_Inl [state_simps]: "m s = (Inl e, s') \<Longrightarrow> bindS m f s = (Inl e, s')"
  by (simp add: bindS_def)

lemma thenS_Inr [state_simps]: "m s = (Inr x, s') \<Longrightarrow> thenS m n s = n s'"
  by (simp add: thenS_def bindS_def)

lemma thenS_Inl [state_simps]: "m s = (Inl e, s') \<Longrightarrow> thenS m n s = (Inl e, s')"
  by (simp add: thenS_def bindS_def)

lemma bindS_basic [simp]:
  "bindS (returnS x) f = f x"
  "bindS (raiseS e) f = raiseS e"
  "bindS (liftS (Inr x)) f = f x"
  "bindS (liftS (Inl e)) f = raiseS e"
  "bindS (getS g) f s = f (g s) s"
  "bindS (setS h) f' s = f' () (h s)"
  by (auto simp: bindS_def fun_eq_iff)

lemma thenS_basic [simp]:
  "thenS (returnS x) n = n"
  "thenS (raiseS e) n = raiseS e"
  "thenS (setS h) n s = n (h s)"
  by (auto simp: thenS_def bindS_def fun_eq_iff)

lemma bindS_Inr_iff:
  "bindS m f s = (Inr y, t) \<longleftrightarrow> (\<exists>x s'. m s = (Inr x, s') \<and> f x s' = (Inr y, t))"
  by (auto simp: bindS_def split: prod.splits sum.splits)

lemma thenS_Inr_iff:
  "thenS m n s = (Inr y, t) \<longleftrightarrow> (\<exists>x s'. m s = (Inr x, s') \<and> n s' = (Inr y, t))"
  by (simp add: thenS_def bindS_Inr_iff)

lemma forS_append: "forS f (xs @ ys) = thenS (forS f xs) (forS f ys)"
  by (induction xs) (auto simp: thenS_def bindS_def fun_eq_iff split: prod.splits sum.splits)

text \<open>A loop whose body never raises is a fold over the state.\<close>

lemma forS_fold:
  "(\<And>x s. x \<in> set xs \<Longrightarrow> f x s = (Inr (), g x s)) \<Longrightarrow> forS f xs s = (Inr (), fold g xs s)"
  by (induction xs arbitrary: s) (auto simp: thenS_Inr)

section \<open>Invariants of the state\<close>

definition keeps :: "('s \<Rightarrow> bool) \<Rightarrow> ('s, 'a) pymethod \<Rightarrow> bool" where
  "keeps P m \<longleftrightarrow> (\<forall>s. P s \<longrightarrow> P (snd (m s)))"

named_theorems keeps_intros \<open>rules that carry an invariant through a method\<close>

lemma keepsI [intro?]: "(\<And>s. P s \<Longrightarrow> P (snd (m s))) \<Longrightarrow> keeps P m"
  by (simp add: keeps_def)

lemma keepsD: "keeps P m \<Longrightarrow> P s \<Longrightarrow> P (snd (m s))"
  by (simp add: keeps_def)

lemma keeps_pure [keeps_intros]:
  "keeps P (returnS x)" "keeps P (raiseS e)" "keeps P (liftS r)" "keeps P (getS f)"
  by (simp_all add: keeps_def)

lemma keeps_setS [keeps_intros]: "(\<And>s. P s \<Longrightarrow> P (f s)) \<Longrightarrow> keeps P (setS f)"
  by (simp add: keeps_def)

lemma keeps_bindS [keeps_intros]: "keeps P m \<Longrightarrow> (\<And>x. keeps P (f x)) \<Longrightarrow> keeps P (bindS m f)"
  by (auto simp: keeps_def bindS_def split: prod.splits sum.splits)

lemma keeps_thenS [keeps_intros]: "keeps P m \<Longrightarrow> keeps P n \<Longrightarrow> keeps P (thenS m n)"
  by (simp add: thenS_def keeps_bindS)

lemma keeps_whenS [keeps_intros]: "(b \<Longrightarrow> keeps P m) \<Longrightarrow> keeps P (whenS b m)"
  by (simp add: whenS_def keeps_pure)

lemma keeps_if [keeps_intros]: "(b \<Longrightarrow> keeps P m) \<Longrightarrow> (\<not> b \<Longrightarrow> keeps P n) \<Longrightarrow> keeps P (if b then m else n)"
  by simp

lemma keeps_tryS [keeps_intros]: "keeps P m \<Longrightarrow> (\<And>e. keeps P (h e)) \<Longrightarrow> keeps P (tryS m h)"
  by (auto simp: keeps_def tryS_def split: prod.splits sum.splits)

lemma keeps_forS [keeps_intros]: "(\<And>x. x \<in> set xs \<Longrightarrow> keeps P (f x)) \<Longrightarrow> keeps P (forS f xs)"
  by (induction xs) (auto intro: keeps_intros)

lemma keeps_foldS [keeps_intros]:
  "(\<And>x y. x \<in> set xs \<Longrightarrow> keeps P (f x y)) \<Longrightarrow> keeps P (foldS f xs y)"
  by (induction xs arbitrary: y) (auto intro: keeps_intros)

lemma keeps_get:
  "(\<And>s. P s \<Longrightarrow> keeps P (g (f s))) \<Longrightarrow> keeps P (bindS (getS f) g)"
  by (auto simp: keeps_def)

lemma keeps_lift: "(\<And>x. r = Inr x \<Longrightarrow> keeps P (g x)) \<Longrightarrow> keeps P (bindS (liftS r) g)"
  by (cases r) (auto intro: keeps_pure)

lemma keeps_option [keeps_intros]:
  "(x = None \<Longrightarrow> keeps P m) \<Longrightarrow> (\<And>y. x = Some y \<Longrightarrow> keeps P (f y)) \<Longrightarrow> keeps P (case x of None \<Rightarrow> m | Some y \<Rightarrow> f y)"
  by (cases x) auto

lemma bindS_keeps: "P (snd (m s)) \<Longrightarrow> (\<And>x. keeps P (f x)) \<Longrightarrow> P (snd (bindS m f s))"
  by (auto simp: keeps_def bindS_def split: prod.splits sum.splits)

text \<open>A bind whose first part establishes something about its result that the second part needs.\<close>

lemma keeps_bind_post:
  assumes "\<And>s. P s \<Longrightarrow> P (snd (m s)) \<and> (\<forall>x. fst (m s) = Inr x \<longrightarrow> Q x (snd (m s)))"
    and "\<And>x. keeps (\<lambda>s. P s \<and> Q x s) (f x)"
  shows "keeps P (bindS m f)"
proof
  fix s
  assume "P s"
  then show "P (snd (bindS m f s))"
    using assms(1) [of s] keepsD [OF assms(2)] by (cases "m s"; cases "fst (m s)") (auto simp: bindS_def)
qed

end
