(* ===== verification/PyText.thy ===== *)
theory PyText
  imports Prelude
begin

text \<open>
  Python text as LO-PHI uses it: \<^verbatim>\<open>str\<close> and \<^verbatim>\<open>int\<close> on decimal numbers, \<^verbatim>\<open>split\<close> on one
  character, \<^verbatim>\<open>join\<close> and \<^verbatim>\<open>strip\<close>, with the round trips between them.
\<close>

section \<open>Decimal numbers\<close>

definition digit_char :: "nat \<Rightarrow> char" where
  "digit_char d = char_of (48 + d)"

fun nat_str :: "nat \<Rightarrow> string" where
  "nat_str n = (if n < 10 then [digit_char n] else nat_str (n div 10) @ [digit_char (n mod 10)])"

declare nat_str.simps [simp del]

definition is_digit :: "char \<Rightarrow> bool" where
  "is_digit c \<longleftrightarrow> 48 \<le> (of_char c :: nat) \<and> (of_char c :: nat) \<le> 57"

definition digit_val :: "char \<Rightarrow> nat" where
  "digit_val c = of_char c - 48"

text \<open>\<^verbatim>\<open>s.isdigit()\<close>: not empty and nothing but digits.\<close>

definition isdigit :: "string \<Rightarrow> bool" where
  "isdigit s \<longleftrightarrow> s \<noteq> [] \<and> list_all is_digit s"

fun digits_val :: "nat \<Rightarrow> string \<Rightarrow> nat" where
  "digits_val acc [] = acc"
| "digits_val acc (c # cs) = digits_val (10 * acc + digit_val c) cs"

definition is_space :: "char \<Rightarrow> bool" where
  "is_space c \<longleftrightarrow> (of_char c :: nat) \<in> {9, 10, 11, 12, 13, 32}"

definition strip :: "string \<Rightarrow> string" where
  "strip s = rev (dropWhile is_space (rev (dropWhile is_space s)))"

text \<open>\<^verbatim>\<open>int(s)\<close>: an optional sign and digits, with white space around them.\<close>

definition py_int :: "string \<Rightarrow> int res" where
  "py_int s =
     (case strip s of
        [] \<Rightarrow> Inl ValueError
      | c # cs \<Rightarrow>
          if c = CHR ''-'' then if isdigit cs then Inr (- int (digits_val 0 cs)) else Inl ValueError
          else if c = CHR ''+'' then if isdigit cs then Inr (int (digits_val 0 cs)) else Inl ValueError
          else if isdigit (c # cs) then Inr (int (digits_val 0 (c # cs))) else Inl ValueError)"

lemma of_char_digit [simp]: "d < 10 \<Longrightarrow> (of_char (digit_char d) :: nat) = 48 + d"
  by (simp add: digit_char_def)

lemma is_digit_char [simp]: "d < 10 \<Longrightarrow> is_digit (digit_char d)"
  by (simp add: is_digit_def)

lemma digit_val_char [simp]: "d < 10 \<Longrightarrow> digit_val (digit_char d) = d"
  by (simp add: digit_val_def)

lemma digits_val_append: "digits_val acc (xs @ ys) = digits_val (digits_val acc xs) ys"
  by (induction xs arbitrary: acc) auto

lemma isdigit_nat_str: "isdigit (nat_str n)"
proof (induction n rule: nat_str.induct)
  case (1 n)
  then show ?case by (subst nat_str.simps) (auto simp: isdigit_def)
qed

lemma dot_not_digit: "isdigit x \<Longrightarrow> CHR ''.'' \<notin> set x"
  by (auto simp: isdigit_def list_all_iff is_digit_def)

lemma digits_val_nat_str: "digits_val 0 (nat_str n) = n"
proof (induction n rule: nat_str.induct)
  case (1 n)
  then show ?case by (subst nat_str.simps) (auto simp: digits_val_append)
qed

lemma digit_not_space: "is_digit c \<Longrightarrow> \<not> is_space c"
  by (auto simp: is_digit_def is_space_def)

lemma strip_digits: "list_all is_digit s \<Longrightarrow> strip s = s"
proof -
  assume "list_all is_digit s"
  then have "\<forall>c \<in> set s. \<not> is_space c" by (auto simp: list_all_iff digit_not_space)
  then have "dropWhile is_space s = s" "dropWhile is_space (rev s) = rev s"
    by (metis dropWhile_eq_self_iff hd_in_set, metis dropWhile_eq_self_iff hd_in_set set_rev)
  then show ?thesis by (simp add: strip_def)
qed

lemma py_int_nat_str: "py_int (nat_str n) = Inr (int n)"
proof -
  have d: "isdigit (nat_str n)" by (rule isdigit_nat_str)
  then obtain c cs where c: "nat_str n = c # cs" "is_digit c" by (cases "nat_str n") (auto simp: isdigit_def)
  have "strip (nat_str n) = c # cs" using d c by (simp add: isdigit_def strip_digits)
  moreover from c(2) have "c \<noteq> CHR ''-''" "c \<noteq> CHR ''+''" by (auto simp: is_digit_def)
  ultimately show ?thesis using d c digits_val_nat_str [of n] by (simp add: py_int_def)
qed

definition int_str :: "int \<Rightarrow> string" where
  "int_str i = (if i < 0 then CHR ''-'' # nat_str (nat (- i)) else nat_str (nat i))"

text \<open>\<^verbatim>\<open>s.upper()\<close>, which changes the ASCII letters of a byte string.\<close>

definition upper_char :: "char \<Rightarrow> char" where
  "upper_char c = (if 97 \<le> (of_char c :: nat) \<and> (of_char c :: nat) \<le> 122 then char_of (of_char c - 32 :: nat) else c)"

definition upper :: "string \<Rightarrow> string" where
  "upper s = map upper_char s"

definition lower_char :: "char \<Rightarrow> char" where
  "lower_char c = (if 65 \<le> (of_char c :: nat) \<and> (of_char c :: nat) \<le> 90 then char_of (of_char c + 32 :: nat) else c)"

definition lower :: "string \<Rightarrow> string" where
  "lower s = map lower_char s"

text \<open>\<^verbatim>\<open>'%02X' % b\<close>.\<close>

definition hex_char :: "nat \<Rightarrow> char" where
  "hex_char d = (if d < 10 then digit_char d else char_of (55 + d))"

definition hex_byte :: "byte \<Rightarrow> string" where
  "hex_byte b = [hex_char (unat b div 16), hex_char (unat b mod 16)]"

text \<open>The value of a hexadecimal digit.\<close>

definition hex_val :: "char \<Rightarrow> nat option" where
  "hex_val c =
     (let n = (of_char c :: nat) in
      if 48 \<le> n \<and> n \<le> 57 then Some (n - 48)
      else if 97 \<le> n \<and> n \<le> 102 then Some (n - 87)
      else if 65 \<le> n \<and> n \<le> 70 then Some (n - 55)
      else None)"

section \<open>Splitting and joining\<close>

fun split_on :: "char \<Rightarrow> string \<Rightarrow> string list" where
  "split_on c [] = [[]]"
| "split_on c (x # xs) =
     (if x = c then [] # split_on c xs
      else case split_on c xs of [] \<Rightarrow> [[x]] | y # ys \<Rightarrow> (x # y) # ys)"

fun join_with :: "char \<Rightarrow> string list \<Rightarrow> string" where
  "join_with c [] = []"
| "join_with c [x] = x"
| "join_with c (x # y # ys) = x @ c # join_with c (y # ys)"

lemma split_on_not_Nil [simp]: "split_on c s \<noteq> []"
  by (cases s) (auto split: list.splits)

lemma split_on_plain: "c \<notin> set s \<Longrightarrow> split_on c s = [s]"
  by (induction s) auto

lemma split_on_first: "c \<notin> set x \<Longrightarrow> split_on c (x @ c # ys) = x # split_on c ys"
  by (induction x) auto

lemma split_join: "xs \<noteq> [] \<Longrightarrow> \<forall>x \<in> set xs. c \<notin> set x \<Longrightarrow> split_on c (join_with c xs) = xs"
proof (induction c xs rule: join_with.induct)
  case (3 c x y ys)
  then show ?case by (simp add: split_on_first)
qed (auto simp: split_on_plain)

lemma join_split: "join_with c (split_on c s) = s"
proof (induction s)
  case (Cons a s)
  obtain y ys where y: "split_on c s = y # ys" by (cases "split_on c s") auto
  with Cons show ?case by (cases ys) auto
qed simp

text \<open>\<^verbatim>\<open>s.split(c, n)\<close>: at most \<open>n\<close> cuts.\<close>

fun split_max :: "nat \<Rightarrow> char \<Rightarrow> string \<Rightarrow> string list" where
  "split_max 0 c s = [s]"
| "split_max (Suc n) c s =
     (if c \<in> set s then takeWhile (\<lambda>x. x \<noteq> c) s # split_max n c (tl (dropWhile (\<lambda>x. x \<noteq> c) s)) else [s])"

lemma split_max_first: "c \<notin> set x \<Longrightarrow> split_max (Suc n) c (x @ c # ys) = x # split_max n c ys"
proof -
  assume "c \<notin> set x"
  then have "takeWhile (\<lambda>x. x \<noteq> c) (x @ c # ys) = x" "dropWhile (\<lambda>x. x \<noteq> c) (x @ c # ys) = c # ys"
    by (induction x) auto
  then show ?thesis by simp
qed

lemma split_max_not_Nil [simp]: "split_max n c s \<noteq> []"
  by (cases n) auto

lemma length_split_max_le: "p \<in> set (split_max n c s) \<Longrightarrow> length p \<le> length s"
proof (induction n arbitrary: s)
  case (Suc n)
  let ?rest = "tl (dropWhile (\<lambda>x. x \<noteq> c) s)"
  have rest: "length ?rest \<le> length s" using length_dropWhile_le [of "\<lambda>x. x \<noteq> c" s] by simp
  have "p = s \<or> p = takeWhile (\<lambda>x. x \<noteq> c) s \<or> p \<in> set (split_max n c ?rest)"
    using Suc.prems by (auto split: if_splits)
  then show ?case using Suc.IH [of ?rest] rest length_takeWhile_le [of "\<lambda>x. x \<noteq> c" s] by fastforce
qed simp

lemma length_split_max: "p \<in> set (tl (split_max n c s)) \<Longrightarrow> length p < length s"
proof (induction n)
  case (Suc n)
  let ?rest = "tl (dropWhile (\<lambda>x. x \<noteq> c) s)"
  have p: "p \<in> set (split_max n c ?rest)" "s \<noteq> []" using Suc.prems by (auto split: if_splits)
  have "length ?rest < length s" using p(2) length_dropWhile_le [of "\<lambda>x. x \<noteq> c" s]
    by (cases s) (auto split: if_splits simp: less_Suc_eq_le)
  then show ?case using length_split_max_le [OF p(1)] by simp
qed simp

text \<open>Text as the bytes of a packet.\<close>

definition ascii :: "string \<Rightarrow> bytes" where
  "ascii s = map (\<lambda>c. word_of_nat (of_char c)) s"

definition text_of :: "bytes \<Rightarrow> string" where
  "text_of bs = map (\<lambda>b. char_of (unat b)) bs"

lemma text_of_ascii [simp]: "text_of (ascii s) = s"
proof -
  have "char_of (unat (word_of_nat (of_char c) :: byte)) = c" for c :: char
    by (simp add: unat_of_nat)
  then show ?thesis by (simp add: text_of_def ascii_def map_idI)
qed

lemma text_of_append [simp]: "text_of (a @ b) = text_of a @ text_of b"
  by (simp add: text_of_def)

lemma length_ascii [simp]: "length (ascii s) = length s"
  by (simp add: ascii_def)

section \<open>Paths\<close>

text \<open>\<^verbatim>\<open>os.path.join(a, b)\<close> on a POSIX system.\<close>

definition path_join :: "string \<Rightarrow> string \<Rightarrow> string" where
  "path_join a b =
     (if b \<noteq> [] \<and> hd b = CHR ''/'' then b
      else if a = [] \<or> last a = CHR ''/'' then a @ b
      else a @ ''/'' @ b)"

definition starts_with :: "string \<Rightarrow> string \<Rightarrow> bool" where
  "starts_with p s \<longleftrightarrow> take (length p) s = p"

text \<open>\<^verbatim>\<open>s.replace(old, new)\<close> for a text \<^verbatim>\<open>old\<close> that is not empty.\<close>

function replace_all :: "string \<Rightarrow> string \<Rightarrow> string \<Rightarrow> string" where
  "replace_all old new s =
     (case s of
        [] \<Rightarrow> []
      | c # cs \<Rightarrow> if old \<noteq> [] \<and> starts_with old s then new @ replace_all old new (drop (length old) s)
                  else c # replace_all old new cs)"
  by pat_completeness auto
termination by (relation "measure (\<lambda>(old, new, s). length s)") auto

declare replace_all.simps [simp del]

text \<open>\<^verbatim>\<open>os.path.normpath\<close>: empty and dot components are dropped, and a component before two dots.\<close>

fun norm_comps :: "bool \<Rightarrow> string list \<Rightarrow> string list \<Rightarrow> string list" where
  "norm_comps absolute [] new = new"
| "norm_comps absolute (c # comps) new =
     (if c = [] \<or> c = ''.'' then norm_comps absolute comps new
      else if c \<noteq> ''..'' \<or> (\<not> absolute \<and> new = []) \<or> (new \<noteq> [] \<and> last new = ''..'')
      then norm_comps absolute comps (new @ [c])
      else norm_comps absolute comps (butlast new))"

definition normpath :: "string \<Rightarrow> string" where
  "normpath path =
     (let slashes = (if starts_with ''//'' path \<and> \<not> starts_with ''///'' path then ''//''
                     else if starts_with ''/'' path then ''/'' else []);
          p = slashes @ join_with CHR ''/'' (norm_comps (slashes \<noteq> []) (split_on CHR ''/'' path) [])
      in if p = [] then ''.'' else p)"

text \<open>\<^verbatim>\<open>os.path.dirname\<close> and \<^verbatim>\<open>os.path.relpath\<close>.\<close>

definition dirname :: "string \<Rightarrow> string" where
  "dirname path =
     (let head = rev (dropWhile (\<lambda>c. c \<noteq> CHR ''/'') (rev path)) in
      if list_all (\<lambda>c. c = CHR ''/'') head then head else rev (dropWhile (\<lambda>c. c = CHR ''/'') (rev head)))"

fun common_prefix :: "'a list \<Rightarrow> 'a list \<Rightarrow> nat" where
  "common_prefix (x # xs) (y # ys) = (if x = y then Suc (common_prefix xs ys) else 0)"
| "common_prefix _ _ = 0"

definition path_parts :: "string \<Rightarrow> string \<Rightarrow> string list" where
  "path_parts cwd path = filter (\<lambda>c. c \<noteq> []) (split_on CHR ''/'' (normpath (path_join cwd path)))"

definition relpath :: "string \<Rightarrow> string \<Rightarrow> string \<Rightarrow> string" where
  "relpath cwd path start =
     (let start_list = path_parts cwd start; path_list = path_parts cwd path;
          i = common_prefix start_list path_list;
          rel = replicate (length start_list - i) ''..'' @ drop i path_list
      in if rel = [] then ''.'' else join_with CHR ''/'' rel)"

end
