(* ===== verification/NtfsVolume.thy ===== *)
theory NtfsVolume
  imports PyState PyText "HOL-Library.AList"
begin

text \<open>
  The bookkeeping of one NTFS volume, \<^verbatim>\<open>disk/filesystem_reconstructor.py\<close>: which sector belongs to which
  file (inode), which path an inode has, and which sectors hold a record of the master file table.  What
  the code asks of the Sleuthkit and of \<^verbatim>\<open>analyzemft\<close> is one argument, the record \<open>tsk\<close>.
\<close>

section \<open>What the Sleuthkit provides\<close>

record run =
  run_addr :: int
  run_len :: int

record attribute =
  attr_type :: int
  attr_runs :: "run list"

record meta =
  flags :: int
  meta_size :: int
  uid :: int
  gid :: int
  mtime :: int
  mtime_nano :: int
  atime :: int
  atime_nano :: int
  ctime :: int
  ctime_nano :: int
  crtime :: int
  crtime_nano :: int
  content_len :: int
  seq :: int

record tsk_file =
  file_name :: "string option"
  file_attrs :: "attribute list"
  file_meta :: meta

text \<open>An entry of a directory: its name, the inode if it has one, whether it is a directory, its entries.\<close>

datatype dir_entry = Entry string "int option" bool "dir_entry list"

text \<open>An opened file system, and the record that \<^verbatim>\<open>mft.parse_record\<close> makes of 1024 bytes.\<close>

record file_system =
  open_meta :: "int \<Rightarrow> tsk_file res"
  last_inum :: int
  root_inum :: int
  root_dir :: "dir_entry list"
  block_count :: int
  block_size :: int
  mft_content :: bytes

record fn_attribute =
  par_ref :: int
  fn_name :: string
  nspace :: int

record tsk =
  FS_Info :: "bytes \<Rightarrow> int \<Rightarrow> file_system res"
  NTFS_DATA :: int
  FLAG_ALLOC :: int
  FLAG_UNALLOC :: int
  FLAG_USED :: int
  FLAG_UNUSED :: int
  FLAG_COMP :: int
  FLAG_ORPHAN :: int
  parse_record :: "bytes \<Rightarrow> fn_attribute list res"
  dict_order :: "int list \<Rightarrow> int list"

section \<open>The state of a volume\<close>

datatype fs_error =
    datarun_out_of_bounds int int int
  | datarun_collision string int string int int

record volume =
  SECTOR_SIZE :: int
  VOLUME_OFFSET :: int
  IMG :: bytes
  error_log :: "fs_error list"
  FILE_SYSTEM :: file_system
  fs_sector_to_inode :: "int \<rightharpoonup> int"
  fs_inode_to_path :: "int \<rightharpoonup> string"
  fs_inode_to_sector_resident :: "int \<rightharpoonup> int"
  mft_raw :: "bytes option"
  old_mft_raw :: "bytes option option"
  ROOT_INUM :: int
  LAST_INUM :: int
  BLOCK_COUNT :: int
  BLOCK_SIZE :: int
  MFT_OFFSET :: int

type_synonym 'a vmethod = "(volume, 'a) pymethod"

definition MFT_ENTRY_SIZE :: int where
  "MFT_ENTRY_SIZE = 1024"

section \<open>Blocks and sectors\<close>

text \<open>\<^verbatim>\<open>range(a, b)\<close> is \<open>[a..b - 1]\<close>, which is empty if \<open>b \<le> a\<close>.\<close>

definition block_to_sectors :: "volume \<Rightarrow> int \<Rightarrow> int list res" where
  "block_to_sectors v block =
     (if \<not> SECTOR_SIZE v \<le> BLOCK_SIZE v then Inl AssertionError
      else if SECTOR_SIZE v = 0 then Inl ZeroDivisionError
      else let vol_byte_offset = block * BLOCK_SIZE v;
               abs_byte_offset = VOLUME_OFFSET v * SECTOR_SIZE v + vol_byte_offset;
               start_sector = abs_byte_offset div SECTOR_SIZE v
           in Inr [start_sector..start_sector + BLOCK_SIZE v div SECTOR_SIZE v - 1])"

definition sector_to_block :: "volume \<Rightarrow> int \<Rightarrow> int res" where
  "sector_to_block v sector =
     (if BLOCK_SIZE v = 0 then Inl ZeroDivisionError
      else let vs_byte_offset = (sector - VOLUME_OFFSET v) * SECTOR_SIZE v
           in Inr (vs_byte_offset div BLOCK_SIZE v))"

text \<open>\<^verbatim>\<open>_mft_dataruns\<close>: the (length, address) pairs of the data runs of record 0, by address.\<close>

definition mft_dataruns :: "tsk \<Rightarrow> volume \<Rightarrow> (int \<times> int) list res" where
  "mft_dataruns T v =
     bindE (open_meta (FILE_SYSTEM v) 0) (\<lambda>f.
       Inr (sort_key snd (concat (map (\<lambda>a. if attr_type a = NTFS_DATA T
                                          then map (\<lambda>r. (run_len r, run_addr r)) (attr_runs a) else [])
                                     (file_attrs f)))))"

text \<open>
  \<^verbatim>\<open>_mft_record_to_sectors\<close>: the sectors of a record; a record behind the last run has none.  The two
  sectors noted as resident are the first of this record and the first behind it.
\<close>

fun record_loop :: "(int \<times> int) list \<Rightarrow> int \<Rightarrow> int \<Rightarrow> int list vmethod" where
  "record_loop [] record_no bytes_left = returnS []"
| "record_loop ((num_blocks, lba) # runs) record_no bytes_left =
     bindS (getS id) (\<lambda>v.
       if bytes_left < num_blocks * BLOCK_SIZE v then
         if BLOCK_SIZE v = 0 then raiseS ZeroDivisionError else
         bindS (liftS (block_to_sectors v (lba + bytes_left div BLOCK_SIZE v))) (\<lambda>sectors.
         bindS (liftS (index_at sectors 0)) (\<lambda>first.
         let byte_offset_into_block = bytes_left mod BLOCK_SIZE v;
             sector_start = first + byte_offset_into_block div SECTOR_SIZE v
         in thenS (whenS (fs_sector_to_inode v sector_start = Some 0)
                     (setS (\<lambda>v. v\<lparr>fs_inode_to_sector_resident := (fs_inode_to_sector_resident v)
                        (sector_start \<mapsto> record_no, sector_start + 1024 div SECTOR_SIZE v \<mapsto> record_no)\<rparr>)))
              (returnS [sector_start..sector_start + 1024 div SECTOR_SIZE v - 1])))
       else record_loop runs record_no (bytes_left - num_blocks * BLOCK_SIZE v))"

definition mft_record_to_sectors :: "tsk \<Rightarrow> int \<Rightarrow> int list vmethod" where
  "mft_record_to_sectors T record_no =
     bindS (getS (mft_dataruns T)) (\<lambda>r. bindS (liftS r) (\<lambda>mft_blocks.
       record_loop mft_blocks record_no (record_no * 1024)))"

text \<open>
  \<^verbatim>\<open>_get_records_from_sectors\<close>: the records that a list of sectors touches.  The end of a run counts as
  part of it (\<^verbatim>\<open><=\<close>).
\<close>

definition note_record :: "volume \<Rightarrow> int \<Rightarrow> int \<Rightarrow> int \<Rightarrow> int \<Rightarrow> int list \<Rightarrow> int list" where
  "note_record v inode_start sector_start sector_end sector inodes =
     (if sector_start \<le> sector \<and> sector \<le> sector_end then
        let record_num = inode_start + ((sector - sector_start) * SECTOR_SIZE v) div MFT_ENTRY_SIZE
        in if record_num \<in> set inodes then inodes else inodes @ [record_num]
      else inodes)"

fun records_loop :: "volume \<Rightarrow> int list \<Rightarrow> (int \<times> int) list \<Rightarrow> int \<Rightarrow> int list \<Rightarrow> int list res" where
  "records_loop v sectors [] inode_start inodes = Inr inodes"
| "records_loop v sectors ((num_blocks, block_addr) # runs) inode_start inodes =
     bindE (block_to_sectors v block_addr) (\<lambda>ss.
     bindE (index_at ss 0) (\<lambda>sector_start.
       let sector_end = sector_start + (num_blocks * BLOCK_SIZE v) div SECTOR_SIZE v
       in records_loop v sectors runs
            (inode_start + ((sector_end - sector_start) * SECTOR_SIZE v) div MFT_ENTRY_SIZE)
            (fold (note_record v inode_start sector_start sector_end) sectors inodes)))"

definition get_records_from_sectors :: "tsk \<Rightarrow> volume \<Rightarrow> int list \<Rightarrow> int list res" where
  "get_records_from_sectors T v sectors =
     bindE (mft_dataruns T v) (\<lambda>runs. records_loop v sectors runs 0 [])"

section \<open>Runs of files\<close>

definition out_of_bounds :: "volume \<Rightarrow> int \<Rightarrow> int \<Rightarrow> bool" where
  "out_of_bounds v addr len \<longleftrightarrow>
     (len < 0 \<or> len > BLOCK_COUNT v) \<or> (addr < 0 \<or> addr + len > BLOCK_COUNT v)"

text \<open>
  One sector of \<^verbatim>\<open>_add_run\<close>.  A collision between two files is logged and the sector stays with the first,
  unless one of them is unnamed or a metafile; a path of one character has no second one to look at.
\<close>

definition path_or_empty :: "volume \<Rightarrow> int \<Rightarrow> string" where
  "path_or_empty v inode = (case fs_inode_to_path v inode of None \<Rightarrow> [] | Some p \<Rightarrow> p)"

definition plain_name :: "string \<Rightarrow> bool res" where
  "plain_name f = (if f = [] then Inr False else bindE (index_at f 1) (\<lambda>c. Inr (c \<noteq> CHR ''$'')))"

definition add_sector :: "int \<Rightarrow> int \<Rightarrow> int \<Rightarrow> unit vmethod" where
  "add_sector inode_num block sector =
     bindS (getS id) (\<lambda>v.
       let claim = setS (\<lambda>v. v\<lparr>fs_sector_to_inode := (fs_sector_to_inode v)(sector \<mapsto> inode_num)\<rparr>) in
       case fs_sector_to_inode v sector of
         None \<Rightarrow> claim
       | Some inode2 \<Rightarrow>
           let f1_name = path_or_empty v inode_num; f2_name = path_or_empty v inode2 in
           if inode_num = inode2 then claim
           else bindS (liftS (plain_name f1_name)) (\<lambda>p1.
             if \<not> p1 then claim
             else bindS (liftS (plain_name f2_name)) (\<lambda>p2.
               if \<not> p2 then claim
               else setS (\<lambda>v. v\<lparr>error_log := error_log v @
                      [datarun_collision f1_name inode_num f2_name inode2 block]\<rparr>))))"

text \<open>The two nested loops over the blocks of a run and the sectors of a block.\<close>

definition for_sectors :: "int \<Rightarrow> int \<Rightarrow> (int \<Rightarrow> int \<Rightarrow> unit vmethod) \<Rightarrow> unit vmethod" where
  "for_sectors addr len body =
     forS (\<lambda>i. bindS (getS (\<lambda>v. block_to_sectors v (addr + i))) (\<lambda>r. bindS (liftS r)
                 (forS (body (addr + i))))) [0..len - 1]"

definition add_run :: "int \<Rightarrow> int \<Rightarrow> int \<Rightarrow> unit vmethod" where
  "add_run inode_num block_addr len =
     bindS (getS id) (\<lambda>v.
       if out_of_bounds v block_addr len then
         setS (\<lambda>v. v\<lparr>error_log := error_log v @ [datarun_out_of_bounds inode_num len block_addr]\<rparr>)
       else for_sectors block_addr len (add_sector inode_num))"

definition remove_sector :: "int \<Rightarrow> int \<Rightarrow> unit vmethod" where
  "remove_sector block sector =
     setS (\<lambda>v. v\<lparr>fs_sector_to_inode := (fs_sector_to_inode v)(sector := None)\<rparr>)"

definition remove_run :: "int \<Rightarrow> int \<Rightarrow> int \<Rightarrow> unit vmethod" where
  "remove_run inode_num addr len =
     bindS (getS id) (\<lambda>v.
       if out_of_bounds v addr len then
         setS (\<lambda>v. v\<lparr>error_log := error_log v @ [datarun_out_of_bounds inode_num len addr]\<rparr>)
       else for_sectors addr len remove_sector)"

section \<open>Loading file entries\<close>

definition all_runs :: "tsk_file \<Rightarrow> run list" where
  "all_runs f = concat (map attr_runs (file_attrs f))"

definition open_file :: "int \<Rightarrow> tsk_file vmethod" where
  "open_file inode_num = bindS (getS (\<lambda>v. open_meta (FILE_SYSTEM v) inode_num)) liftS"

definition clean_file_entry :: "int \<Rightarrow> unit vmethod" where
  "clean_file_entry inode_num =
     bindS (open_file inode_num) (\<lambda>f.
       forS (\<lambda>r. remove_run inode_num (run_addr r) (run_len r)) (all_runs f))"

definition load_file_entry :: "tsk \<Rightarrow> int \<Rightarrow> unit vmethod" where
  "load_file_entry T inode_num =
     thenS (mft_record_to_sectors T inode_num)
       (bindS (open_file inode_num) (\<lambda>f.
          forS (\<lambda>r. whenS (run_addr r \<noteq> 0 \<or> file_name f = Some ''$Boot'')
                      (add_run inode_num (run_addr r) (run_len r))) (all_runs f)))"

text \<open>\<^verbatim>\<open>_print_mft\<close> prints the table, and claims the runs once more while it does so.\<close>

definition print_entry :: "int \<Rightarrow> unit vmethod" where
  "print_entry inode_num =
     bindS (open_file inode_num) (\<lambda>f.
       forS (\<lambda>r. whenS (run_addr r \<noteq> 0 \<or> file_name f = Some ''$Boot'')
                   (add_run inode_num (run_addr r) (run_len r))) (all_runs f))"

definition reload_file_entry :: "tsk \<Rightarrow> int \<Rightarrow> unit vmethod" where
  "reload_file_entry T inode_num = thenS (clean_file_entry inode_num) (load_file_entry T inode_num)"

section \<open>Paths\<close>

fun parse_paths :: "dir_entry list \<Rightarrow> string \<Rightarrow> (int \<rightharpoonup> string) \<Rightarrow> (int \<rightharpoonup> string)" where
  "parse_paths [] parent_path m = m"
| "parse_paths (Entry filename inode is_dir entries # es) parent_path m =
     (if filename = ''.'' \<or> filename = ''..'' then parse_paths es parent_path m
      else let abs_filename = path_join parent_path filename in
        case inode of
          None \<Rightarrow> parse_paths es parent_path m
        | Some i \<Rightarrow>
            let m1 = m(i \<mapsto> abs_filename) in
            parse_paths es parent_path (if is_dir then parse_paths entries abs_filename m1 else m1))"

definition parse_root :: "unit vmethod" where
  "parse_root =
     setS (\<lambda>v. v\<lparr>fs_inode_to_path := parse_paths (root_dir (FILE_SYSTEM v)) ''/''
                  ((fs_inode_to_path v)(ROOT_INUM v \<mapsto> ''/''))\<rparr>)"

definition load_file_system :: "tsk \<Rightarrow> unit vmethod" where
  "load_file_system T =
     thenS parse_root (bindS (getS (\<lambda>v. last_inum (FILE_SYSTEM v))) (\<lambda>last.
       forS (load_file_entry T) [0..last]))"

definition print_mft :: "unit vmethod" where
  "print_mft =
     thenS parse_root (bindS (getS (\<lambda>v. last_inum (FILE_SYSTEM v))) (\<lambda>last. forS print_entry [0..last]))"

text \<open>
  \<^verbatim>\<open>SEV_NTFS_Sparse.__init__\<close>: the first block of the master file table is the smallest address of its data
  runs, and without one the address \<^verbatim>\<open>None\<close> is multiplied.  If the file system cannot be opened, the constructor
  returns early and leaves an object without tables, here \<open>None\<close>.
\<close>

definition open_volume :: "tsk \<Rightarrow> int \<Rightarrow> int \<Rightarrow> bytes \<Rightarrow> file_system \<Rightarrow> volume res" where
  "open_volume T sector_size start img fs =
     (let v = \<lparr>SECTOR_SIZE = sector_size, VOLUME_OFFSET = start, IMG = img, error_log = [],
               FILE_SYSTEM = fs, fs_sector_to_inode = Map.empty, fs_inode_to_path = Map.empty,
               fs_inode_to_sector_resident = Map.empty, mft_raw = None, old_mft_raw = None,
               ROOT_INUM = root_inum fs, LAST_INUM = last_inum fs, BLOCK_COUNT = block_count fs,
               BLOCK_SIZE = block_size fs, MFT_OFFSET = 0\<rparr>
      in bindE (mft_dataruns T v) (\<lambda>runs.
         if runs = [] then Inl (if sector_size \<le> block_size fs then TypeError else AssertionError) else
         bindE (block_to_sectors v (snd (hd runs))) (\<lambda>ss.
         bindE (index_at ss 0) (\<lambda>first.
         case load_file_system T (v\<lparr>MFT_OFFSET := first\<rparr>) of (Inl e, _) \<Rightarrow> Inl e | (Inr _, v1) \<Rightarrow> Inr v1))))"

definition volume_init :: "tsk \<Rightarrow> int \<Rightarrow> int \<Rightarrow> bytes \<Rightarrow> volume option res" where
  "volume_init T sector_size start img =
     (case FS_Info T img (sector_size * start) of
        Inl IOError \<Rightarrow> Inr None
      | Inl e \<Rightarrow> Inl e
      | Inr fs \<Rightarrow> bindE (open_volume T sector_size start img fs) (\<lambda>v. Inr (Some v)))"

end
