(* ===== verification/FsImage.thy ===== *)
theory FsImage
  imports Prelude
begin

text \<open>
  The two disk images that the Sleuthkit reads from and that writes of the observed machine are applied to:
  \<^verbatim>\<open>Shadow_Img_Info\<close> of \<^verbatim>\<open>disk/filesystems/__init__.py\<close> keeps written sectors in memory, \<^verbatim>\<open>Write_Img_Info\<close> of
  \<^verbatim>\<open>disk/filesystem_reconstructor.py\<close> writes them to the file.  Both provide the interface \<open>disk_image\<close>.
\<close>

section \<open>Files\<close>

definition file_read :: "nat \<Rightarrow> nat \<Rightarrow> bytes \<Rightarrow> bytes" where
  "file_read off len fd = take len (drop off fd)"

text \<open>\<^verbatim>\<open>seek\<close> and \<^verbatim>\<open>write\<close>: a gap behind the end of the file is filled with zeros.\<close>

definition file_write :: "nat \<Rightarrow> bytes \<Rightarrow> bytes \<Rightarrow> bytes" where
  "file_write off d fd = take off (fd @ replicate (off - length fd) 0) @ d @ drop (off + length d) fd"

lemma file_write_inside:
  "off + length d \<le> length fd \<Longrightarrow> file_write off d fd = take off fd @ d @ drop (off + length d) fd"
  by (simp add: file_write_def)

lemma length_file_write [simp]: "off + length d \<le> length fd \<Longrightarrow> length (file_write off d fd) = length fd"
  by (simp add: file_write_inside)

lemma nth_file_write:
  "off + length d \<le> length fd \<Longrightarrow> p < length fd \<Longrightarrow>
     file_write off d fd ! p = (if off \<le> p \<and> p < off + length d then d ! (p - off) else fd ! p)"
  by (auto simp: file_write_inside nth_append add.commute)

section \<open>Images that write through\<close>

record write_img =
  w_SECTOR_SIZE :: nat
  w_fd :: bytes

definition write_img_read :: "nat \<Rightarrow> nat \<Rightarrow> write_img \<Rightarrow> bytes res" where
  "write_img_read off len w = Inr (file_read off len (w_fd w))"

definition write_img_write :: "nat \<Rightarrow> nat \<Rightarrow> bytes \<Rightarrow> write_img \<Rightarrow> write_img" where
  "write_img_write sector sector_count data w = w\<lparr>w_fd := file_write (sector * w_SECTOR_SIZE w) data (w_fd w)\<rparr>"

section \<open>Shadow images\<close>

record shadow_img =
  s_SECTOR_SIZE :: nat
  s_fd :: bytes
  s_CACHE :: "nat \<rightharpoonup> bytes"

definition read_sector :: "shadow_img \<Rightarrow> nat \<Rightarrow> nat \<Rightarrow> nat \<Rightarrow> bytes" where
  "read_sector s sector offset_into_sector len =
     (case s_CACHE s sector of
        Some d \<Rightarrow> slice offset_into_sector (offset_into_sector + len) d
      | None \<Rightarrow> file_read (sector * s_SECTOR_SIZE s + offset_into_sector) len (s_fd s))"

text \<open>The loop of \<^verbatim>\<open>read\<close>, which takes at most the rest of one sector in a turn.\<close>

function shadow_read :: "nat \<Rightarrow> nat \<Rightarrow> shadow_img \<Rightarrow> bytes res" where
  "shadow_read off len s =
     (if len = 0 then Inr []
      else if s_SECTOR_SIZE s = 0 then Inl ZeroDivisionError
      else let sector = off div s_SECTOR_SIZE s;
               offset_into_sector = off mod s_SECTOR_SIZE s;
               l = min len (s_SECTOR_SIZE s - offset_into_sector)
           in bindE (shadow_read (off + l) (len - l) s) (\<lambda>rest.
                Inr (read_sector s sector offset_into_sector l @ rest)))"
  by pat_completeness auto
termination
  by (relation "measure (\<lambda>(off, len, s). len)") auto

declare shadow_read.simps [simp del]

definition shadow_write :: "nat \<Rightarrow> nat \<Rightarrow> bytes \<Rightarrow> shadow_img \<Rightarrow> shadow_img" where
  "shadow_write sector sector_count data s =
     fold (\<lambda>i s. s\<lparr>s_CACHE := (s_CACHE s)(sector + i \<mapsto> slice (i * s_SECTOR_SIZE s) ((i + 1) * s_SECTOR_SIZE s) data)\<rparr>)
       [0..<sector_count] s"

section \<open>What an image promises\<close>

text \<open>
  An image stands for the content of a disk.  A write of whole sectors inside the disk changes the content at
  these sectors, and a read inside the disk returns the content.
\<close>

locale disk_image =
  fixes size_of :: "'img \<Rightarrow> nat"
    and content :: "'img \<Rightarrow> bytes"
    and valid :: "'img \<Rightarrow> bool"
    and read_img :: "nat \<Rightarrow> nat \<Rightarrow> 'img \<Rightarrow> bytes res"
    and write_img :: "nat \<Rightarrow> nat \<Rightarrow> bytes \<Rightarrow> 'img \<Rightarrow> 'img"
  assumes read_content: "valid m \<Longrightarrow> off + len \<le> length (content m) \<Longrightarrow> read_img off len m = Inr (file_read off len (content m))"
    and write_content: "valid m \<Longrightarrow> length d = n * size_of m \<Longrightarrow> (sector + n) * size_of m \<le> length (content m) \<Longrightarrow>
      content (write_img sector n d m) = file_write (sector * size_of m) d (content m)"
    and write_valid: "valid m \<Longrightarrow> length d = n * size_of m \<Longrightarrow> (sector + n) * size_of m \<le> length (content m) \<Longrightarrow>
      valid (write_img sector n d m)"
    and write_size: "size_of (write_img sector n d m) = size_of m"
begin

definition good_write :: "nat \<Rightarrow> nat \<Rightarrow> nat \<times> nat \<times> bytes \<Rightarrow> bool" where
  "good_write k len w \<longleftrightarrow> (case w of (sector, n, d) \<Rightarrow> length d = n * k \<and> (sector + n) * k \<le> len)"

definition writes :: "(nat \<times> nat \<times> bytes) list \<Rightarrow> 'img \<Rightarrow> 'img" where
  "writes ws m = fold (\<lambda>(sector, n, d). write_img sector n d) ws m"

lemma writes_content:
  "valid m \<Longrightarrow> \<forall>w \<in> set ws. good_write (size_of m) (length (content m)) w \<Longrightarrow>
     valid (writes ws m) \<and> size_of (writes ws m) = size_of m \<and>
     content (writes ws m) = fold (\<lambda>(sector, n, d). file_write (sector * size_of m) d) ws (content m)"
proof (induction ws arbitrary: m)
  case (Cons w ws)
  obtain sector n d where w: "w = (sector, n, d)" by (cases w) auto
  then have g: "length d = n * size_of m" "(sector + n) * size_of m \<le> length (content m)"
    using Cons.prems(2) by (auto simp: good_write_def)
  have "sector * size_of m + length d \<le> length (content m)" using g by (simp add: distrib_right)
  then have "length (content (write_img sector n d m)) = length (content m)"
    using write_content [OF Cons.prems(1) g] by simp
  then show ?case using Cons.IH [of "write_img sector n d m"] Cons.prems write_content [OF Cons.prems(1) g]
      write_valid [OF Cons.prems(1) g] write_size w by (simp add: writes_def)
qed (simp add: writes_def)

lemma length_writes:
  "\<forall>w \<in> set ws. good_write k (length fd) w \<Longrightarrow>
     length (fold (\<lambda>(sector, n, d). file_write (sector * k) d) ws fd) = length fd"
proof (induction ws arbitrary: fd)
  case (Cons w ws)
  obtain sector n d where w: "w = (sector, n, d)" by (cases w) auto
  then have "sector * k + length d \<le> length fd" using Cons.prems by (auto simp: good_write_def distrib_right)
  then show ?case using Cons w by simp
qed simp

lemma read_after_writes:
  assumes "valid m" and "\<forall>w \<in> set ws. good_write (size_of m) (length (content m)) w" and "off + len \<le> length (content m)"
  shows "read_img off len (writes ws m) =
    Inr (file_read off len (fold (\<lambda>(sector, n, d). file_write (sector * size_of m) d) ws (content m)))"
  using writes_content [OF assms(1,2)] length_writes [OF assms(2)] assms(3) by (simp add: read_content)

end

interpretation write_through: disk_image w_SECTOR_SIZE w_fd "\<lambda>w. True" write_img_read write_img_write
  by unfold_locales (simp_all add: write_img_read_def write_img_write_def)

text \<open>The content of a shadow image: the file, with the cached sectors laid over it.\<close>

definition shadow_content :: "shadow_img \<Rightarrow> bytes" where
  "shadow_content s = map (\<lambda>p. case s_CACHE s (p div s_SECTOR_SIZE s) of
       None \<Rightarrow> s_fd s ! p | Some d \<Rightarrow> d ! (p mod s_SECTOR_SIZE s)) [0..<length (s_fd s)]"

definition shadow_valid :: "shadow_img \<Rightarrow> bool" where
  "shadow_valid s \<longleftrightarrow> 0 < s_SECTOR_SIZE s \<and> (\<forall>sector d. s_CACHE s sector = Some d \<longrightarrow> length d = s_SECTOR_SIZE s)"

lemma length_shadow_content [simp]: "length (shadow_content s) = length (s_fd s)"
  by (simp add: shadow_content_def)

lemma nth_shadow_content:
  "p < length (s_fd s) \<Longrightarrow> shadow_content s ! p =
     (case s_CACHE s (p div s_SECTOR_SIZE s) of None \<Rightarrow> s_fd s ! p | Some d \<Rightarrow> d ! (p mod s_SECTOR_SIZE s))"
  by (auto simp: shadow_content_def split: option.split)

lemma read_sector_content:
  assumes "shadow_valid s" and "l \<le> s_SECTOR_SIZE s - off mod s_SECTOR_SIZE s" and "off + l \<le> length (s_fd s)"
  shows "read_sector s (off div s_SECTOR_SIZE s) (off mod s_SECTOR_SIZE s) l = file_read off l (shadow_content s)"
proof (rule nth_equalityI)
  let ?k = "s_SECTOR_SIZE s"
  have k: "0 < ?k" using assms(1) by (simp add: shadow_valid_def)
  show len: "length (read_sector s (off div ?k) (off mod ?k) l) = length (file_read off l (shadow_content s))"
    using assms k by (auto simp: read_sector_def file_read_def shadow_valid_def split: option.splits)
  fix i assume "i < length (read_sector s (off div ?k) (off mod ?k) l)"
  then have i: "i < l" using len assms(3) by (simp add: file_read_def)
  have lt: "off mod ?k + i < ?k" using i assms(2) by simp
  have e: "off + i = (off mod ?k + i) + off div ?k * ?k" by simp
  have d: "(off + i) div ?k = off div ?k"
    by (subst e, simp only: div_mult_self1 [OF k [THEN less_imp_neq, symmetric]] div_less [OF lt] add_0_right)
  have m: "(off + i) mod ?k = off mod ?k + i" by (subst e, simp only: mod_mult_self1 mod_less [OF lt])
  show "read_sector s (off div ?k) (off mod ?k) l ! i = file_read off l (shadow_content s) ! i"
  proof (cases "s_CACHE s (off div ?k)")
    case None
    then show ?thesis using i assms(3) d m by (simp add: read_sector_def file_read_def shadow_content_def)
  next
    case (Some c)
    then have "length c = ?k" using assms(1) by (simp add: shadow_valid_def)
    then show ?thesis using Some i assms(2,3) d m lt
      by (simp add: read_sector_def file_read_def shadow_content_def slice_def)
  qed
qed

lemma shadow_read_content:
  "shadow_valid s \<Longrightarrow> off + len \<le> length (s_fd s) \<Longrightarrow> shadow_read off len s = Inr (file_read off len (shadow_content s))"
proof (induction off len s rule: shadow_read.induct)
  case (1 off len s)
  let ?k = "s_SECTOR_SIZE s" and ?l = "min len (s_SECTOR_SIZE s - off mod s_SECTOR_SIZE s)"
  show ?case
  proof (cases "len = 0")
    case True
    then show ?thesis by (simp add: shadow_read.simps file_read_def)
  next
    case False
    have k: "0 < ?k" using 1(2) by (simp add: shadow_valid_def)
    have rest: "shadow_read (off + ?l) (len - ?l) s = Inr (file_read (off + ?l) (len - ?l) (shadow_content s))"
      using 1 False k by simp
    have "read_sector s (off div ?k) (off mod ?k) ?l = file_read off ?l (shadow_content s)"
      using 1(2,3) by (intro read_sector_content) auto
    moreover have "file_read off ?l c @ file_read (off + ?l) (len - ?l) c = file_read off len c" for c
      using take_add [of ?l "len - ?l" "drop off c"] by (simp add: file_read_def add.commute)
    ultimately show ?thesis using False k rest by (subst shadow_read.simps) (simp add: Let_def)
  qed
qed

lemma shadow_write_at:
  "shadow_write sector n data s = s\<lparr>s_CACHE := (\<lambda>p. if sector \<le> p \<and> p < sector + n
     then Some (slice ((p - sector) * s_SECTOR_SIZE s) ((p - sector + 1) * s_SECTOR_SIZE s) data) else s_CACHE s p)\<rparr>"
proof (induction n)
  case 0
  then show ?case by (cases s) (auto simp: shadow_write_def fun_eq_iff)
next
  case (Suc n)
  then show ?case by (auto simp: shadow_write_def fun_eq_iff)
qed

lemma shadow_write_content:
  assumes "shadow_valid s" and "length d = n * s_SECTOR_SIZE s" and "(sector + n) * s_SECTOR_SIZE s \<le> length (s_fd s)"
  shows "shadow_content (shadow_write sector n d s) = file_write (sector * s_SECTOR_SIZE s) d (shadow_content s)"
proof (rule nth_equalityI)
  let ?k = "s_SECTOR_SIZE s"
  have k: "0 < ?k" using assms(1) by (simp add: shadow_valid_def)
  have off: "sector * ?k + length d \<le> length (s_fd s)" using assms(2,3) by (simp add: distrib_right)
  show "length (shadow_content (shadow_write sector n d s)) = length (file_write (sector * ?k) d (shadow_content s))"
    using off by (simp add: shadow_write_at)
  fix p assume "p < length (shadow_content (shadow_write sector n d s))"
  then have p: "p < length (s_fd s)" by (simp add: shadow_write_at)
  have inside: "sector \<le> p div ?k \<and> p div ?k < sector + n \<longleftrightarrow> sector * ?k \<le> p \<and> p < sector * ?k + length d"
    using k assms(2) by (simp add: less_eq_div_iff_mult_less_eq div_less_iff_less_mult distrib_right)
  have "slice ((p div ?k - sector) * ?k) ((p div ?k - sector + 1) * ?k) d ! (p mod ?k) = d ! (p - sector * ?k)"
    if "sector * ?k \<le> p" "p < sector * ?k + length d"
  proof -
    have e: "(p div ?k - sector) * ?k + p mod ?k = p - sector * ?k"
      by (metis add.commute diff_mult_distrib div_mult_mod_eq inside that Nat.add_diff_assoc2 mult_le_mono1)
    then have "(p div ?k - sector) * ?k + p mod ?k < length d" using that by simp
    then show ?thesis using k e by (simp add: slice_def)
  qed
  note slice_nth = this
  have new: "shadow_content (shadow_write sector n d s) ! p =
    (if sector \<le> p div ?k \<and> p div ?k < sector + n
     then slice ((p div ?k - sector) * ?k) ((p div ?k - sector + 1) * ?k) d ! (p mod ?k) else shadow_content s ! p)"
    using p by (auto simp: shadow_write_at nth_shadow_content split: option.split)
  show "shadow_content (shadow_write sector n d s) ! p = file_write (sector * ?k) d (shadow_content s) ! p"
    unfolding new inside using p off slice_nth by (simp add: nth_file_write)
qed

interpretation shadow: disk_image s_SECTOR_SIZE shadow_content shadow_valid shadow_read shadow_write
proof
  show "shadow_valid (shadow_write sector n d m)"
    if "shadow_valid m" "length d = n * s_SECTOR_SIZE m" "(sector + n) * s_SECTOR_SIZE m \<le> length (shadow_content m)"
    for m d n sector
  proof -
    have "s_SECTOR_SIZE m \<le> n * s_SECTOR_SIZE m - (p - sector) * s_SECTOR_SIZE m" if "sector \<le> p" "p < sector + n" for p
    proof -
      have "p - sector + 1 \<le> n" using that by simp
      then have "(p - sector + 1) * s_SECTOR_SIZE m \<le> n * s_SECTOR_SIZE m" by (rule mult_le_mono1)
      then show ?thesis by (simp add: distrib_right)
    qed
    then show ?thesis using that by (auto simp: shadow_valid_def shadow_write_at min_def)
  qed
qed (auto simp: shadow_read_content shadow_write_content, simp add: shadow_write_at)

section \<open>The two images agree\<close>

text \<open>
  C12. After the same writes of whole sectors inside the disk, the image that keeps them in memory and the one
  that writes them to the file answer every read inside the disk alike, however the read is aligned.
\<close>

theorem shadow_equals_write_through:
  assumes "0 < k" and "\<forall>(sector, n, d) \<in> set ws. length d = n * k \<and> (sector + n) * k \<le> length fd"
    and "off + len \<le> length fd"
  shows "shadow_read off len (fold (\<lambda>(sector, n, d). shadow_write sector n d) ws
           \<lparr>s_SECTOR_SIZE = k, s_fd = fd, s_CACHE = Map.empty\<rparr>) =
         write_img_read off len (fold (\<lambda>(sector, n, d). write_img_write sector n d) ws \<lparr>w_SECTOR_SIZE = k, w_fd = fd\<rparr>)"
proof -
  let ?s = "\<lparr>s_SECTOR_SIZE = k, s_fd = fd, s_CACHE = Map.empty\<rparr>" and ?w = "\<lparr>w_SECTOR_SIZE = k, w_fd = fd\<rparr>"
  have c: "shadow_content ?s = fd" by (simp add: shadow_content_def map_nth)
  have "shadow_read off len (shadow.writes ws ?s) =
    Inr (file_read off len (fold (\<lambda>(sector, n, d). file_write (sector * s_SECTOR_SIZE ?s) d) ws (shadow_content ?s)))"
    using assms c by (intro shadow.read_after_writes) (auto simp: shadow_valid_def shadow.good_write_def)
  moreover have "write_img_read off len (write_through.writes ws ?w) =
    Inr (file_read off len (fold (\<lambda>(sector, n, d). file_write (sector * w_SECTOR_SIZE ?w) d) ws (w_fd ?w)))"
    using assms by (intro write_through.read_after_writes) (auto simp: write_through.good_write_def)
  ultimately show ?thesis using c by (simp add: shadow.writes_def write_through.writes_def)
qed

theorem shadow_equals_write_through_witness:
  "shadow_read 1 4 (shadow_write 1 1 [8, 9] \<lparr>s_SECTOR_SIZE = 2, s_fd = [1, 2, 3, 4, 5, 6], s_CACHE = Map.empty\<rparr>) = Inr [2, 8, 9, 5]"
  using shadow_equals_write_through [of 2 "[(1, 1, [8, 9])]" "[1, 2, 3, 4, 5, 6]" 1 4]
  by (simp add: write_img_read_def write_img_write_def file_read_def file_write_def)

end
