(* ===== verification/NtfsAccess.thy ===== *)
theory NtfsAccess
  imports NtfsVolume FsImage
begin

unbundle bit_operations_syntax

text \<open>
  Reads and writes of sectors as operations on files, \<^verbatim>\<open>SEV_NTFS_Sparse.get_access\<close>: a write that touches the
  master file table is applied to the image first, the file system is opened again, and the difference of the
  records is reported; then every sector is reported with the file it belongs to.
\<close>

section \<open>Paths from raw records\<close>

definition note_path :: "int \<Rightarrow> string \<Rightarrow> string option vmethod" where
  "note_path inode p = thenS (setS (\<lambda>v. v\<lparr>fs_inode_to_path := (fs_inode_to_path v)(inode \<mapsto> p)\<rparr>)) (returnS (Some p))"

text \<open>Of several names the code looks at the first and the last; the last one in a long name space wins.\<close>

definition record_name :: "fn_attribute list \<Rightarrow> string option" where
  "record_name fns =
     (case fns of
        [] \<Rightarrow> None
      | [f] \<Rightarrow> Some (fn_name f)
      | _ \<Rightarrow> let long = (\<lambda>f. nspace f = 1 \<or> nspace f = 3) in
             if long (last fns) then Some (fn_name (last fns))
             else if long (hd fns) then Some (fn_name (hd fns))
             else Some (fn_name (last fns)))"

text \<open>
  \<^verbatim>\<open>_get_path\<close> follows the parents of a record.  The number is what is left of Python's recursion limit:
  a cycle of parents ends with it.
\<close>

fun get_path :: "tsk \<Rightarrow> nat \<Rightarrow> bytes option \<Rightarrow> int \<Rightarrow> string option vmethod" where
  "get_path T 0 raw_mft inode = raiseS RuntimeError"
| "get_path T (Suc depth) None inode = returnS None"
| "get_path T (Suc depth) (Some raw) inode =
     (let raw_mft_record = slice (nat (inode * 1024)) (nat ((inode + 1) * 1024)) raw in
      if length raw_mft_record < 4 then returnS None
      else if length raw_mft_record \<noteq> 1024 then note_path inode ''NoFNRecord''
      else bindS (liftS (parse_record T raw_mft_record)) (\<lambda>fns.
        case record_name fns of
          None \<Rightarrow> note_path inode ''NoFNRecord''
        | Some filename \<Rightarrow>
            let parent = par_ref (hd fns) in
            if parent = 5 then note_path inode (path_join ''/'' filename)
            else if parent = inode then note_path inode (''ORPHAN/'' @ filename)
            else bindS (get_path T depth (Some raw) parent) (\<lambda>parentpath.
              case parentpath of
                Some p \<Rightarrow> note_path inode (path_join p filename)
              | None \<Rightarrow> if filename \<noteq> [] \<and> hd filename = CHR ''/'' then note_path inode filename
                         else raiseS AttributeError)))"

definition RECURSION_LIMIT :: nat where
  "RECURSION_LIMIT = 1000"

section \<open>Differences of metadata\<close>

datatype mval = MStr "string option" | MInt int

record sem_data =
  sd_inode :: int
  sd_filename :: "string option"
  sd_meta :: "(string \<times> mval) list"
  sd_changes :: "(string \<times> mval \<times> mval) list"
  sd_extra :: "(string \<times> mval) list"

definition meta_values :: "tsk \<Rightarrow> string option \<Rightarrow> meta \<Rightarrow> (string \<times> mval) list" where
  "meta_values T filename m =
     [(''filename'', MStr filename), (''flags'', MInt (flags m)),
      (''flag_alloc'', MInt (flags m AND FLAG_ALLOC T)),
      (''flag_comp'', MInt (drop_bit 4 (flags m AND FLAG_COMP T))),
      (''flag_orphan'', MInt (drop_bit 5 (flags m AND FLAG_ORPHAN T))),
      (''flag_unalloc'', MInt (drop_bit 1 (flags m AND FLAG_UNALLOC T))),
      (''flag_unused'', MInt (drop_bit 3 (flags m AND FLAG_UNUSED T))),
      (''flag_used'', MInt (drop_bit 2 (flags m AND FLAG_USED T))),
      (''size'', MInt (meta_size m)), (''uid'', MInt (uid m)), (''gid'', MInt (gid m)),
      (''mtime'', MInt (mtime m)), (''mtime_nano'', MInt (mtime_nano m)),
      (''atime'', MInt (atime m)), (''atime_nano'', MInt (atime_nano m)),
      (''ctime'', MInt (ctime m)), (''ctime_nano'', MInt (ctime_nano m)),
      (''crtime'', MInt (crtime m)), (''crtime_nano'', MInt (crtime_nano m)),
      (''content_len'', MInt (content_len m)), (''seq'', MInt (seq m))]"

text \<open>The loop over the keys: a value that changed is listed with its new and its old value.\<close>

definition changed_values :: "(string \<times> mval) list \<Rightarrow> (string \<times> mval) list \<Rightarrow> (string \<times> mval \<times> mval) list" where
  "changed_values new old =
     concat (map (\<lambda>(k, n). case map_of old k of
        None \<Rightarrow> []
      | Some p \<Rightarrow> if n \<noteq> p \<and> p \<noteq> MStr None then [(k, n, p)] else []) new)"

definition diff_metadata :: "tsk \<Rightarrow> tsk_file option \<Rightarrow> tsk_file \<Rightarrow> int \<Rightarrow> sem_data vmethod" where
  "diff_metadata T old_file new_file inode =
     bindS (bindS (getS mft_raw) (\<lambda>raw. get_path T RECURSION_LIMIT raw inode)) (\<lambda>mft_filename.
       let semantic_data_new = meta_values T mft_filename (file_meta new_file);
           semantic_data = \<lparr>sd_inode = inode, sd_filename = mft_filename, sd_meta = semantic_data_new,
                            sd_changes = [], sd_extra = []\<rparr>
       in case old_file of
            Some old \<Rightarrow>
              bindS (getS old_mft_raw) (\<lambda>old_raw.
                case old_raw of
                  None \<Rightarrow> raiseS AttributeError
                | Some raw \<Rightarrow>
                    bindS (get_path T RECURSION_LIMIT raw inode) (\<lambda>old_mft_filename.
                      returnS (semantic_data\<lparr>sd_changes :=
                        changed_values semantic_data_new (meta_values T old_mft_filename (file_meta old))\<rparr>)))
          | None \<Rightarrow> returnS (semantic_data\<lparr>sd_extra := semantic_data_new\<rparr>))"

section \<open>Operations on files\<close>

datatype inode_ref = Inode int | InodeText string

record fs_operation =
  op_sector :: int
  op :: string
  op_type :: string
  op_inode :: inode_ref
  op_filename :: string
  raw_data :: bytes
  semantic_data :: "sem_data list"

definition fs_op :: "int \<Rightarrow> string \<Rightarrow> string \<Rightarrow> inode_ref \<Rightarrow> string \<Rightarrow> bytes \<Rightarrow> sem_data list \<Rightarrow> fs_operation" where
  "fs_op sector opr opt inode filename raw sem =
     \<lparr>op_sector = sector, op = opr, op_type = opt, op_inode = inode, op_filename = filename,
      raw_data = raw, semantic_data = sem\<rparr>"

definition sector_data :: "volume \<Rightarrow> bytes \<Rightarrow> int \<Rightarrow> bytes" where
  "sector_data v data i = slice (nat (i * SECTOR_SIZE v)) (nat ((i + 1) * SECTOR_SIZE v)) data"

definition path_or_unknown :: "volume \<Rightarrow> int \<Rightarrow> string" where
  "path_or_unknown v inode = (case fs_inode_to_path v inode of None \<Rightarrow> ''unknown'' | Some p \<Rightarrow> p)"

text \<open>The name of the file whose record a sector of the master file table holds, if that is known.\<close>

definition resident_path :: "volume \<Rightarrow> int \<Rightarrow> string option" where
  "resident_path v sector = Option.bind (fs_inode_to_sector_resident v sector) (fs_inode_to_path v)"

definition read_operation :: "volume \<Rightarrow> int \<Rightarrow> bytes \<Rightarrow> int \<Rightarrow> fs_operation" where
  "read_operation v sector data i =
     (let raw = sector_data v data i in
      case fs_sector_to_inode v (sector + i) of
        None \<Rightarrow> fs_op (sector + i) ''READ'' ''[UNKNOWN READ]'' (InodeText ''unknown'') ''unknown'' raw []
      | Some inode \<Rightarrow>
          let filename = path_or_unknown v inode in
          if sector + i = 1 then fs_op (sector + i) ''READ'' ''[MBR READ]'' (Inode inode) filename raw []
          else if inode = 0 then
            fs_op (sector + i) ''READ'' ''[MFT READ]'' (Inode inode)
              (case resident_path v (sector + i) of
                 None \<Rightarrow> filename | Some res \<Rightarrow> filename @ ''entry for '' @ res) raw []
          else fs_op (sector + i) ''READ'' ''[CONTENT READ]'' (Inode inode) filename raw [])"

section \<open>Writes\<close>

text \<open>The records that a write touches, opened before it is applied; one that cannot be opened is left out.\<close>

definition open_entries :: "int list \<Rightarrow> (int \<times> tsk_file option) list vmethod" where
  "open_entries inodes =
     foldS (\<lambda>inode upd. tryS (bindS (open_file inode) (\<lambda>f. returnS (AList.update inode (Some f) upd)))
                           (\<lambda>e. returnS upd)) inodes []"

definition update_file_system :: "tsk \<Rightarrow> int \<Rightarrow> bytes \<Rightarrow> unit vmethod" where
  "update_file_system T sector data =
     thenS (setS (\<lambda>v. v\<lparr>IMG := file_write (nat (sector * SECTOR_SIZE v)) data (IMG v)\<rparr>))
       (bindS (getS (\<lambda>v. FS_Info T (IMG v) (SECTOR_SIZE v * VOLUME_OFFSET v))) (\<lambda>r.
        bindS (liftS r) (\<lambda>fs. setS (\<lambda>v. v\<lparr>FILE_SYSTEM := fs\<rparr>))))"

definition apply_write :: "tsk \<Rightarrow> int \<Rightarrow> bytes \<Rightarrow> unit vmethod" where
  "apply_write T sector data =
     thenS (setS (\<lambda>v. v\<lparr>old_mft_raw := Some (mft_raw v)\<rparr>))
       (thenS (update_file_system T sector data)
         (thenS (open_file 0) (setS (\<lambda>v. v\<lparr>mft_raw := Some (mft_content (FILE_SYSTEM v))\<rparr>))))"

definition load_new_entries :: "tsk \<Rightarrow> (int \<times> tsk_file option) list \<Rightarrow> (int \<times> tsk_file option) list vmethod" where
  "load_new_entries T upd =
     bindS (getS id) (\<lambda>v.
       let last = last_inum (FILE_SYSTEM v) in
       thenS (whenS (LAST_INUM v < last) parse_root)
         (bindS (foldS (\<lambda>n u. thenS (setS (\<lambda>v. v\<lparr>LAST_INUM := n\<rparr>))
                               (thenS (load_file_entry T n) (returnS (AList.update n None u))))
                       [LAST_INUM v + 1..last] upd) (\<lambda>u.
          thenS (setS (\<lambda>v. v\<lparr>LAST_INUM := last_inum (FILE_SYSTEM v)\<rparr>)) (returnS u))))"

definition note_new_records :: "int list \<Rightarrow> (int \<times> tsk_file option) list \<Rightarrow> (int \<times> tsk_file option) list" where
  "note_new_records inodes upd =
     fold (\<lambda>i u. if i \<in> fst ` set u then u else AList.update i None u) inodes upd"

text \<open>
  The loop over the touched records: each is loaded again, and its flags tell a creation or a deletion.  It
  ends at the first record that was not known before.
\<close>

definition first_sector_op :: "tsk \<Rightarrow> int \<Rightarrow> string \<Rightarrow> fs_operation vmethod" where
  "first_sector_op T record_no opt =
     bindS (mft_record_to_sectors T record_no) (\<lambda>sectors.
     bindS (getS id) (\<lambda>v.
     bindS (liftS (index_at sectors 0)) (\<lambda>first.
       returnS (fs_op first ''WRITE'' opt (Inode record_no) (path_or_unknown v record_no) [] []))))"

fun report_changes ::
  "tsk \<Rightarrow> (int \<times> tsk_file option) list \<Rightarrow> int list \<Rightarrow> fs_operation list \<Rightarrow> fs_operation list vmethod" where
  "report_changes T upd [] ops = returnS ops"
| "report_changes T upd (record_no # rs) ops =
     thenS (reload_file_entry T record_no)
       (bindS (open_file record_no) (\<lambda>new_f.
          case map_of upd record_no of
            Some (Some old_f) \<Rightarrow>
              let old_flags = flags (file_meta old_f); new_flags = flags (file_meta new_f) in
              if old_flags AND FLAG_ALLOC T = 0 \<and> new_flags AND FLAG_ALLOC T \<noteq> 0 then
                bindS (first_sector_op T record_no ''[FILE CREATED]'') (\<lambda>o1. report_changes T upd rs (ops @ [o1]))
              else if old_flags AND FLAG_UNALLOC T = 0 \<and> new_flags AND FLAG_UNALLOC T \<noteq> 0 then
                bindS (first_sector_op T record_no ''[FILE DELETED]'') (\<lambda>o1. report_changes T upd rs (ops @ [o1]))
              else report_changes T upd rs ops
          | _ \<Rightarrow> returnS ops))"

definition write_name :: "int \<Rightarrow> string vmethod" where
  "write_name inode =
     bindS (getS (\<lambda>v. fs_inode_to_path v inode)) (\<lambda>p. case p of
        Some filename \<Rightarrow> returnS filename
      | None \<Rightarrow> bindS (open_file inode) (\<lambda>f. returnS (case file_name f of None \<Rightarrow> ''unknown'' | Some n \<Rightarrow> n)))"

definition diff_entries :: "tsk \<Rightarrow> (int \<times> tsk_file option) list \<Rightarrow> sem_data list vmethod" where
  "diff_entries T upd =
     foldS (\<lambda>record_no ds. bindS (open_file record_no) (\<lambda>new_f.
              bindS (diff_metadata T (Option.bind (map_of upd record_no) id) new_f record_no) (\<lambda>d.
                returnS (ds @ [d])))) (dict_order T (map fst upd)) []"

definition write_operation ::
  "tsk \<Rightarrow> (int \<times> tsk_file option) list \<Rightarrow> int \<Rightarrow> bytes \<Rightarrow> int \<Rightarrow> fs_operation vmethod" where
  "write_operation T upd sector data i =
     bindS (getS id) (\<lambda>v.
       let raw = sector_data v data i in
       case fs_sector_to_inode v (sector + i) of
         None \<Rightarrow> returnS (fs_op (sector + i) ''WRITE'' ''[UNKNOWN WRITE]'' (InodeText ''[unknown inode]'')
                            ''unknown'' raw [])
       | Some inode \<Rightarrow>
           bindS (write_name inode) (\<lambda>filename.
             if inode = 0 then
               bindS (diff_entries T upd) (\<lambda>sem.
               bindS (getS (\<lambda>v. resident_path v (sector + i))) (\<lambda>res.
                 returnS (fs_op (sector + i) ''WRITE'' ''[MFT WRITE]'' (Inode inode)
                   (case res of None \<Rightarrow> filename | Some r \<Rightarrow> filename @ '' entry for '' @ r) raw sem)))
             else returnS (fs_op (sector + i) ''WRITE''
                    (if sector + i = 1 \<or> sector + i = 0 then ''[MBR WRITE]'' else ''[CONTENT WRITE]'')
                    (Inode inode) filename raw [])))"

definition write_access :: "tsk \<Rightarrow> int \<Rightarrow> int \<Rightarrow> bytes \<Rightarrow> fs_operation list vmethod" where
  "write_access T sector sector_count data =
     bindS (getS (\<lambda>v. get_records_from_sectors T v [sector..sector + sector_count - 1])) (\<lambda>r.
     bindS (liftS r) (\<lambda>inodes.
     bindS (open_entries inodes) (\<lambda>upd.
     thenS (setS (\<lambda>v. v\<lparr>LAST_INUM := last_inum (FILE_SYSTEM v)\<rparr>))
     (thenS (whenS (upd \<noteq> []) (apply_write T sector data))
     (bindS (load_new_entries T upd) (\<lambda>upd2.
      bindS (getS (\<lambda>v. get_records_from_sectors T v [sector..sector + sector_count - 1])) (\<lambda>r2.
      bindS (liftS r2) (\<lambda>new_inodes.
      let upd3 = note_new_records new_inodes upd2 in
      bindS (report_changes T upd3 (dict_order T (map fst upd3)) []) (\<lambda>ops.
      foldS (\<lambda>i ops. bindS (write_operation T upd3 sector data i) (\<lambda>o1. returnS (ops @ [o1])))
        [0..sector_count - 1] ops))))))))) "

definition DIRECTION_WRITE :: nat where
  "DIRECTION_WRITE = 1"

definition get_access :: "tsk \<Rightarrow> int \<Rightarrow> int \<Rightarrow> nat \<Rightarrow> bytes \<Rightarrow> fs_operation list vmethod" where
  "get_access T sector sector_count direction data =
     (if direction = DIRECTION_WRITE then write_access T sector sector_count data
      else bindS (getS id) (\<lambda>v. returnS (map (read_operation v sector data) [0..sector_count - 1])))"

end
