(* ===== verification/NtfsLemmas.thy ===== *)
theory NtfsLemmas
  imports NtfsAccess
begin

text \<open>
  Lemmas on the tables of an NTFS volume: sectors of blocks and of runs, what adding and removing a run does to
  the table of sectors, and the invariant that the table only mentions sectors of the volume.
\<close>

section \<open>Geometry\<close>

definition geometry :: "volume \<Rightarrow> bool" where
  "geometry v \<longleftrightarrow> 0 < SECTOR_SIZE v \<and> SECTOR_SIZE v \<le> BLOCK_SIZE v \<and> SECTOR_SIZE v dvd BLOCK_SIZE v"

definition spb :: "volume \<Rightarrow> int" where
  "spb v = BLOCK_SIZE v div SECTOR_SIZE v"

lemma geometry_block_size: "geometry v \<Longrightarrow> BLOCK_SIZE v = spb v * SECTOR_SIZE v"
  by (auto simp: geometry_def spb_def)

lemma geometry_pos: "geometry v \<Longrightarrow> 0 < SECTOR_SIZE v" "geometry v \<Longrightarrow> 0 < BLOCK_SIZE v"
  by (auto simp: geometry_def)

lemma spb_pos: "geometry v \<Longrightarrow> 0 < spb v"
  by (simp add: geometry_def spb_def pos_imp_zdiv_pos_iff)

lemma block_to_sectors_ok:
  assumes "geometry v"
  shows "block_to_sectors v b = Inr [VOLUME_OFFSET v + b * spb v..VOLUME_OFFSET v + b * spb v + spb v - 1]"
proof -
  have "(VOLUME_OFFSET v * SECTOR_SIZE v + b * BLOCK_SIZE v) = (VOLUME_OFFSET v + b * spb v) * SECTOR_SIZE v"
    by (simp add: geometry_block_size [OF assms] algebra_simps)
  then have "(VOLUME_OFFSET v * SECTOR_SIZE v + b * BLOCK_SIZE v) div SECTOR_SIZE v = VOLUME_OFFSET v + b * spb v"
    using geometry_pos [OF assms] by simp
  then show ?thesis using assms by (simp add: block_to_sectors_def geometry_def spb_def Let_def)
qed

lemma first_sector_ok:
  "geometry v \<Longrightarrow> index_at [VOLUME_OFFSET v + b * spb v..VOLUME_OFFSET v + b * spb v + spb v - 1] 0 =
     Inr (VOLUME_OFFSET v + b * spb v)"
  using spb_pos [of v] by (simp add: index_at_def upto_rec1)

text \<open>The sectors of the blocks from \<open>a\<close> up to \<open>a + n\<close>.\<close>

definition span :: "volume \<Rightarrow> int \<Rightarrow> int \<Rightarrow> int set" where
  "span v a n = {VOLUME_OFFSET v + a * spb v..<VOLUME_OFFSET v + (a + n) * spb v}"

lemma sectors_of_blocks:
  assumes "geometry v" and "0 \<le> n"
  shows "(\<Union>i\<in>{0..n - 1}. set [VOLUME_OFFSET v + (a + i) * spb v..VOLUME_OFFSET v + (a + i) * spb v + spb v - 1])
      = span v a n"
proof (rule set_eqI, rule iffI)
  have k: "0 < spb v" using assms(1) by (rule spb_pos)
  fix s
  assume "s \<in> span v a n"
  then have s: "a * spb v \<le> s - VOLUME_OFFSET v" "s - VOLUME_OFFSET v < (a + n) * spb v" by (auto simp: span_def)
  define q where "q = (s - VOLUME_OFFSET v) div spb v"
  have m: "s - VOLUME_OFFSET v = q * spb v + (s - VOLUME_OFFSET v) mod spb v" by (simp add: q_def)
  have b: "0 \<le> (s - VOLUME_OFFSET v) mod spb v" "(s - VOLUME_OFFSET v) mod spb v < spb v" using k by auto
  have "a * spb v < (q + 1) * spb v" using s(1) m b by (simp add: algebra_simps)
  then have "a < q + 1" using k by (simp add: mult_less_cancel_right)
  moreover have "q * spb v < (a + n) * spb v" using s(2) m b by linarith
  then have "q < a + n" using k by (simp add: mult_less_cancel_right)
  ultimately have "q - a \<in> {0..n - 1}" by auto
  moreover have "s \<in> set [VOLUME_OFFSET v + (a + (q - a)) * spb v..VOLUME_OFFSET v + (a + (q - a)) * spb v + spb v - 1]"
    using m b by simp
  ultimately show "s \<in> (\<Union>i\<in>{0..n - 1}. set [VOLUME_OFFSET v + (a + i) * spb v..VOLUME_OFFSET v + (a + i) * spb v + spb v - 1])"
    by blast
next
  have k: "0 < spb v" using assms(1) by (rule spb_pos)
  fix s
  assume "s \<in> (\<Union>i\<in>{0..n - 1}. set [VOLUME_OFFSET v + (a + i) * spb v..VOLUME_OFFSET v + (a + i) * spb v + spb v - 1])"
  then obtain i where i: "0 \<le> i" "i \<le> n - 1" and
    s: "VOLUME_OFFSET v + (a + i) * spb v \<le> s" "s < VOLUME_OFFSET v + (a + i) * spb v + spb v" by auto
  have "a * spb v \<le> (a + i) * spb v" using i k by (simp add: mult_right_mono)
  moreover have "(a + i + 1) * spb v \<le> (a + n) * spb v" using i k by (intro mult_right_mono) auto
  ultimately show "s \<in> span v a n" using s by (simp add: span_def algebra_simps)
qed

text \<open>A sector belongs to the block whose sectors contain it.\<close>

lemma sector_to_block_ok:
  assumes "geometry v" and "VOLUME_OFFSET v + b * spb v \<le> s" and "s < VOLUME_OFFSET v + (b + 1) * spb v"
  shows "sector_to_block v s = Inr b"
proof -
  have k: "0 < spb v" and S: "0 < SECTOR_SIZE v" using assms(1) by (auto simp: spb_pos geometry_pos)
  have "(s - VOLUME_OFFSET v) * SECTOR_SIZE v div BLOCK_SIZE v = (s - VOLUME_OFFSET v) div spb v"
    using S by (simp add: geometry_block_size [OF assms(1)])
  also have "\<dots> = b" using assms(2,3) k
    by (intro int_div_pos_eq [of _ _ _ "s - VOLUME_OFFSET v - b * spb v"]) (auto simp: algebra_simps)
  finally show ?thesis using geometry_pos [OF assms(1)] by (simp add: sector_to_block_def)
qed

section \<open>Runs\<close>

text \<open>What stays the same while tables are filled.\<close>

definition same_disk :: "volume \<Rightarrow> volume \<Rightarrow> bool" where
  "same_disk v w \<longleftrightarrow> SECTOR_SIZE w = SECTOR_SIZE v \<and> VOLUME_OFFSET w = VOLUME_OFFSET v \<and>
     BLOCK_COUNT w = BLOCK_COUNT v \<and> BLOCK_SIZE w = BLOCK_SIZE v \<and> FILE_SYSTEM w = FILE_SYSTEM v"

lemma same_disk_refl [simp]: "same_disk v v"
  by (simp add: same_disk_def)

lemma same_disk_trans: "same_disk u v \<Longrightarrow> same_disk v w \<Longrightarrow> same_disk u w"
  by (simp add: same_disk_def)

lemma same_disk_eqs:
  assumes "same_disk v w"
  shows "geometry w = geometry v" "spb w = spb v" "span w = span v" "out_of_bounds w = out_of_bounds v"
    "block_to_sectors w = block_to_sectors v"
  using assms by (auto simp: same_disk_def geometry_def spb_def span_def out_of_bounds_def
      block_to_sectors_def fun_eq_iff Let_def)

text \<open>A body that assigns to the table of sectors, with nothing else, makes the loop a fold.\<close>

lemma for_sectors_fold:
  assumes g: "geometry v" and n: "0 \<le> n"
    and body: "\<And>b s w. s \<in> span v a n \<Longrightarrow> P w \<Longrightarrow> same_disk v w \<Longrightarrow>
      \<exists>w'. body b s w = (Inr (), w') \<and> P w' \<and> same_disk v w' \<and> fs_sector_to_inode w' = (fs_sector_to_inode w)(s := x)"
    and P: "P v"
  shows "\<exists>w. for_sectors a n body v = (Inr (), w) \<and> P w \<and> same_disk v w \<and>
    fs_sector_to_inode w = (\<lambda>s. if s \<in> span v a n then x else fs_sector_to_inode v s)"
proof -
  define ss where "ss = (\<lambda>b. [VOLUME_OFFSET v + b * spb v..VOLUME_OFFSET v + b * spb v + spb v - 1])"
  let ?turn = "\<lambda>i. bindS (getS (\<lambda>v. block_to_sectors v (a + i))) (\<lambda>r. bindS (liftS r) (forS (body (a + i))))"
  have inner: "\<exists>w'. forS (body b) ss w = (Inr (), w') \<and> P w' \<and> same_disk v w' \<and>
      fs_sector_to_inode w' = (\<lambda>s. if s \<in> set ss then x else fs_sector_to_inode w s)"
    if "set ss \<subseteq> span v a n" "P w" "same_disk v w" for b ss w
    using that
  proof (induction ss arbitrary: w)
    case (Cons s ss)
    then obtain w1 where w1: "body b s w = (Inr (), w1)" "P w1" "same_disk v w1"
      "fs_sector_to_inode w1 = (fs_sector_to_inode w)(s := x)" using body [of s w b] by auto
    obtain w2 where "forS (body b) ss w1 = (Inr (), w2)" "P w2" "same_disk v w2"
      "fs_sector_to_inode w2 = (\<lambda>s. if s \<in> set ss then x else fs_sector_to_inode w1 s)"
      using Cons.IH [OF _ w1(2,3)] Cons.prems(1) by auto
    then show ?case using w1 by (intro exI [of _ w2]) (auto simp: thenS_Inr fun_eq_iff)
  qed auto
  have outer: "\<exists>w'. forS ?turn is w = (Inr (), w') \<and> P w' \<and> same_disk v w' \<and>
      fs_sector_to_inode w' = (\<lambda>s. if s \<in> (\<Union>i\<in>set is. set (ss (a + i))) then x else fs_sector_to_inode w s)"
    if "(\<Union>i\<in>set is. set (ss (a + i))) \<subseteq> span v a n" "P w" "same_disk v w" for "is" w
    using that
  proof (induction "is" arbitrary: w)
    case (Cons i "is")
    have sub: "(\<Union>i\<in>set is. set (ss (a + i))) \<subseteq> span v a n" using Cons.prems(1) by auto
    have b: "block_to_sectors w (a + i) = Inr (ss (a + i))"
      using block_to_sectors_ok [OF g] same_disk_eqs(5) [OF Cons.prems(3)] by (simp add: ss_def)
    obtain w1 where w1: "forS (body (a + i)) (ss (a + i)) w = (Inr (), w1)" "P w1" "same_disk v w1"
      "fs_sector_to_inode w1 = (\<lambda>s. if s \<in> set (ss (a + i)) then x else fs_sector_to_inode w s)"
      using inner [of "ss (a + i)" w "a + i"] Cons.prems by auto
    obtain w2 where w2: "forS ?turn is w1 = (Inr (), w2)" "P w2" "same_disk v w2"
      "fs_sector_to_inode w2 = (\<lambda>s. if s \<in> (\<Union>i\<in>set is. set (ss (a + i))) then x else fs_sector_to_inode w1 s)"
      using Cons.IH [OF sub w1(2,3)] by blast
    have "?turn i w = (Inr (), w1)" using w1(1) b by simp
    then have "forS ?turn (i # is) w = (Inr (), w2)" using w2(1) by (simp only: forS.simps thenS_Inr)
    moreover have "fs_sector_to_inode w2 =
        (\<lambda>s. if s \<in> (\<Union>i\<in>set (i # is). set (ss (a + i))) then x else fs_sector_to_inode w s)"
      using w1(4) w2(4) by auto
    ultimately show ?case using w2(2,3) by blast
  qed auto
  have "(\<Union>i\<in>set [0..n - 1]. set (ss (a + i))) = span v a n"
    using sectors_of_blocks [OF g n, of a] by (simp add: ss_def)
  then show ?thesis using outer [of "[0..n - 1]" v] P by (simp add: for_sectors_def)
qed

text \<open>Removing a run deletes its sectors, whoever they belong to.\<close>

lemma remove_run_ok:
  assumes "geometry v"
  shows "\<exists>w. remove_run inode a n v = (Inr (), w) \<and> same_disk v w \<and>
    fs_inode_to_path w = fs_inode_to_path v \<and>
    fs_sector_to_inode w = (\<lambda>s. if \<not> out_of_bounds v a n \<and> s \<in> span v a n then None else fs_sector_to_inode v s)"
proof (cases "out_of_bounds v a n")
  case True
  then show ?thesis by (auto simp: remove_run_def same_disk_def)
next
  case False
  then have n: "0 \<le> n" by (simp add: out_of_bounds_def)
  have "\<exists>w. for_sectors a n remove_sector v = (Inr (), w) \<and> fs_inode_to_path w = fs_inode_to_path v \<and>
      same_disk v w \<and> fs_sector_to_inode w = (\<lambda>s. if s \<in> span v a n then None else fs_sector_to_inode v s)"
    by (rule for_sectors_fold [OF assms n]) (auto simp: remove_sector_def same_disk_def)
  then show ?thesis using False by (auto simp: remove_run_def)
qed

text \<open>Adding a run claims its sectors, if no other file has one of them.\<close>

lemma add_run_ok:
  assumes "geometry v"
    and free: "\<And>s j. \<not> out_of_bounds v a n \<Longrightarrow> s \<in> span v a n \<Longrightarrow> fs_sector_to_inode v s = Some j \<Longrightarrow> j = inode"
  shows "\<exists>w. add_run inode a n v = (Inr (), w) \<and> same_disk v w \<and>
    fs_inode_to_path w = fs_inode_to_path v \<and>
    fs_sector_to_inode w =
      (\<lambda>s. if \<not> out_of_bounds v a n \<and> s \<in> span v a n then Some inode else fs_sector_to_inode v s)"
proof (cases "out_of_bounds v a n")
  case True
  then show ?thesis by (auto simp: add_run_def same_disk_def)
next
  case False
  then have n: "0 \<le> n" by (simp add: out_of_bounds_def)
  let ?P = "\<lambda>w. fs_inode_to_path w = fs_inode_to_path v \<and>
    (\<forall>s j. s \<in> span v a n \<longrightarrow> fs_sector_to_inode w s = Some j \<longrightarrow> j = inode)"
  have "\<exists>w. for_sectors a n (add_sector inode) v = (Inr (), w) \<and> ?P w \<and>
      same_disk v w \<and> fs_sector_to_inode w = (\<lambda>s. if s \<in> span v a n then Some inode else fs_sector_to_inode v s)"
  proof (rule for_sectors_fold [OF assms(1) n])
    show "\<exists>w'. add_sector inode b s w = (Inr (), w') \<and> ?P w' \<and> same_disk v w' \<and>
        fs_sector_to_inode w' = (fs_sector_to_inode w)(s := Some inode)"
      if "s \<in> span v a n" "?P w" "same_disk v w" for b s w
      using that by (auto simp: add_sector_def same_disk_def Let_def split: option.splits)
    show "?P v" using free [OF False] by auto
  qed
  then show ?thesis using False by (auto simp: add_run_def)
qed

section \<open>Loading a file system\<close>

text \<open>The sectors that a file's entry claims: its runs inside the volume, sparse ones left out.\<close>

definition real_run :: "volume \<Rightarrow> tsk_file \<Rightarrow> run \<Rightarrow> bool" where
  "real_run v f r \<longleftrightarrow> (run_addr r \<noteq> 0 \<or> file_name f = Some ''$Boot'') \<and> \<not> out_of_bounds v (run_addr r) (run_len r)"

definition claimed :: "volume \<Rightarrow> tsk_file \<Rightarrow> int set" where
  "claimed v f = (\<Union>r\<in>{r \<in> set (all_runs f). real_run v f r}. span v (run_addr r) (run_len r))"

lemma same_disk_claimed: "same_disk v w \<Longrightarrow> claimed w = claimed v"
  by (auto simp: claimed_def real_run_def same_disk_eqs fun_eq_iff)

lemma add_runs_ok:
  assumes "geometry v" and "set rs \<subseteq> set (all_runs f)"
    and "\<And>s j. s \<in> claimed v f \<Longrightarrow> fs_sector_to_inode v s = Some j \<Longrightarrow> j = inode"
  shows "\<exists>w. forS (\<lambda>r. whenS (run_addr r \<noteq> 0 \<or> file_name f = Some ''$Boot'')
                  (add_run inode (run_addr r) (run_len r))) rs v = (Inr (), w) \<and>
    same_disk v w \<and> fs_inode_to_path w = fs_inode_to_path v \<and>
    fs_sector_to_inode w = (\<lambda>s. if s \<in> (\<Union>r\<in>{r \<in> set rs. real_run v f r}. span v (run_addr r) (run_len r))
                               then Some inode else fs_sector_to_inode v s)"
  using assms
proof (induction rs arbitrary: v)
  case (Cons r rs)
  let ?turn = "\<lambda>r. whenS (run_addr r \<noteq> 0 \<or> file_name f = Some ''$Boot'') (add_run inode (run_addr r) (run_len r))"
  have "\<exists>w. ?turn r v = (Inr (), w) \<and> same_disk v w \<and> fs_inode_to_path w = fs_inode_to_path v \<and>
      fs_sector_to_inode w = (\<lambda>s. if real_run v f r \<and> s \<in> span v (run_addr r) (run_len r)
                                 then Some inode else fs_sector_to_inode v s)"
  proof (cases "run_addr r \<noteq> 0 \<or> file_name f = Some ''$Boot''")
    case True
    have "\<exists>w. add_run inode (run_addr r) (run_len r) v = (Inr (), w) \<and> same_disk v w \<and>
      fs_inode_to_path w = fs_inode_to_path v \<and> fs_sector_to_inode w =
      (\<lambda>s. if \<not> out_of_bounds v (run_addr r) (run_len r) \<and> s \<in> span v (run_addr r) (run_len r)
           then Some inode else fs_sector_to_inode v s)"
    proof (rule add_run_ok [OF Cons.prems(1)])
      fix s j assume "\<not> out_of_bounds v (run_addr r) (run_len r)" "s \<in> span v (run_addr r) (run_len r)"
        "fs_sector_to_inode v s = Some j"
      moreover from this True Cons.prems(2) have "s \<in> claimed v f" by (auto simp: claimed_def real_run_def)
      ultimately show "j = inode" using Cons.prems(3) by blast
    qed
    then show ?thesis using True by (auto simp: real_run_def)
  qed (auto simp: real_run_def)
  then obtain w where w: "?turn r v = (Inr (), w)" "same_disk v w" "fs_inode_to_path w = fs_inode_to_path v"
    "fs_sector_to_inode w = (\<lambda>s. if real_run v f r \<and> s \<in> span v (run_addr r) (run_len r)
       then Some inode else fs_sector_to_inode v s)" by blast
  have same: "geometry w" "claimed w = claimed v" "span w = span v" "real_run w = real_run v"
    using w(2) Cons.prems(1) by (auto simp: same_disk_eqs same_disk_claimed real_run_def fun_eq_iff)
  have "\<exists>u. forS ?turn rs w = (Inr (), u) \<and> same_disk w u \<and> fs_inode_to_path u = fs_inode_to_path w \<and>
    fs_sector_to_inode u = (\<lambda>s. if s \<in> (\<Union>r\<in>{r \<in> set rs. real_run w f r}. span w (run_addr r) (run_len r))
                               then Some inode else fs_sector_to_inode w s)"
    using Cons.prems(2,3) same w(4) by (intro Cons.IH) (auto split: if_splits)
  then obtain u where u: "forS ?turn rs w = (Inr (), u)" "same_disk w u" "fs_inode_to_path u = fs_inode_to_path w"
    "fs_sector_to_inode u = (\<lambda>s. if s \<in> (\<Union>r\<in>{r \<in> set rs. real_run w f r}. span w (run_addr r) (run_len r))
                               then Some inode else fs_sector_to_inode w s)" by blast
  have "forS ?turn (r # rs) v = (Inr (), u)" using w(1) u(1) by (simp only: forS.simps thenS_Inr)
  moreover have "fs_sector_to_inode u = (\<lambda>s. if s \<in> (\<Union>r\<in>{r' \<in> set (r # rs). real_run v f r'}. span v (run_addr r) (run_len r))
      then Some inode else fs_sector_to_inode v s)"
    unfolding u(4) w(4) same by (rule ext) auto
  moreover have "fs_inode_to_path u = fs_inode_to_path v" using u(3) w(3) by simp
  ultimately show ?case using same_disk_trans [OF w(2) u(2)] by blast
qed auto

text \<open>Looking a record up in the master file table never raises and leaves the tables alone.\<close>

lemma record_loop_ok:
  assumes "geometry v"
  shows "\<exists>ss w. record_loop runs r left v = (Inr ss, w) \<and> same_disk v w \<and>
    fs_sector_to_inode w = fs_sector_to_inode v \<and> fs_inode_to_path w = fs_inode_to_path v"
  using assms
proof (induction runs arbitrary: left)
  case (Cons run runs)
  obtain num lba where run: "run = (num, lba)" by (cases run)
  show ?case
  proof (cases "left < num * BLOCK_SIZE v")
    case True
    then show ?thesis using run Cons.prems geometry_pos [OF Cons.prems]
      by (auto simp: block_to_sectors_ok first_sector_ok Let_def thenS_def bindS_def same_disk_def)
  next
    case False
    then show ?thesis using run Cons by simp
  qed
qed auto

lemma mft_record_to_sectors_ok:
  assumes "geometry v" and "mft_dataruns T v = Inr runs"
  shows "\<exists>ss w. mft_record_to_sectors T r v = (Inr ss, w) \<and> same_disk v w \<and>
    fs_sector_to_inode w = fs_sector_to_inode v \<and> fs_inode_to_path w = fs_inode_to_path v"
  using record_loop_ok [OF assms(1), of runs r "r * 1024"] assms(2) by (simp add: mft_record_to_sectors_def)

lemma mft_dataruns_same: "same_disk v w \<Longrightarrow> mft_dataruns T w = mft_dataruns T v"
  by (simp add: mft_dataruns_def same_disk_def)

lemma load_file_entry_ok:
  assumes "geometry v" and "mft_dataruns T v = Inr runs" and "open_meta (FILE_SYSTEM v) inode = Inr f"
    and "\<And>s j. s \<in> claimed v f \<Longrightarrow> fs_sector_to_inode v s = Some j \<Longrightarrow> j = inode"
  shows "\<exists>w. load_file_entry T inode v = (Inr (), w) \<and> same_disk v w \<and> fs_inode_to_path w = fs_inode_to_path v \<and>
    fs_sector_to_inode w = (\<lambda>s. if s \<in> claimed v f then Some inode else fs_sector_to_inode v s)"
proof -
  obtain ss u where u: "mft_record_to_sectors T inode v = (Inr ss, u)" "same_disk v u"
    "fs_sector_to_inode u = fs_sector_to_inode v" "fs_inode_to_path u = fs_inode_to_path v"
    using mft_record_to_sectors_ok [OF assms(1,2)] by blast
  have o: "open_file inode u = (Inr f, u)" using assms(3) u(2) by (simp add: open_file_def same_disk_def)
  have same: "geometry u" "claimed u = claimed v" "real_run u = real_run v" "span u = span v"
    using u(2) assms(1) by (auto simp: same_disk_eqs same_disk_claimed real_run_def fun_eq_iff)
  obtain w where "forS (\<lambda>r. whenS (run_addr r \<noteq> 0 \<or> file_name f = Some ''$Boot'')
                  (add_run inode (run_addr r) (run_len r))) (all_runs f) u = (Inr (), w)"
    "same_disk u w" "fs_inode_to_path w = fs_inode_to_path u"
    "fs_sector_to_inode w = (\<lambda>s. if s \<in> claimed v f then Some inode else fs_sector_to_inode v s)"
    using add_runs_ok [OF same(1) order_refl, of f inode] assms(4)
    unfolding u(3) same claimed_def by blast
  then show ?thesis using u o same_disk_trans [OF u(2)]
    by (simp add: load_file_entry_def thenS_Inr bindS_Inr)
qed

lemma load_entries_ok:
  assumes "geometry v" and "mft_dataruns T v = Inr runs"
    and "\<And>i. i \<in> set inodes \<Longrightarrow> open_meta (FILE_SYSTEM v) i = Inr (files i)"
    and "\<And>i j. i \<in> set inodes \<Longrightarrow> j \<in> set inodes \<union> loaded \<Longrightarrow> i \<noteq> j \<Longrightarrow> claimed v (files i) \<inter> claimed v (files j) = {}"
    and "\<And>s i. fs_sector_to_inode v s = Some i \<longleftrightarrow> i \<in> loaded \<and> s \<in> claimed v (files i)"
  shows "\<exists>w. forS (load_file_entry T) inodes v = (Inr (), w) \<and> same_disk v w \<and> fs_inode_to_path w = fs_inode_to_path v \<and>
    (\<forall>s i. fs_sector_to_inode w s = Some i \<longleftrightarrow> i \<in> set inodes \<union> loaded \<and> s \<in> claimed v (files i))"
  using assms
proof (induction inodes arbitrary: v loaded)
  case (Cons i inodes)
  have free: "j = i" if "s \<in> claimed v (files i)" "fs_sector_to_inode v s = Some j" for s j
  proof (rule ccontr)
    assume "j \<noteq> i"
    then have "claimed v (files i) \<inter> claimed v (files j) = {}" using Cons.prems(4) [of i j] Cons.prems(5) that(2) by auto
    then show False using that Cons.prems(5) by blast
  qed
  have om: "open_meta (FILE_SYSTEM v) i = Inr (files i)" using Cons.prems(3) by simp
  obtain w where w: "load_file_entry T i v = (Inr (), w)" "same_disk v w" "fs_inode_to_path w = fs_inode_to_path v"
    "fs_sector_to_inode w = (\<lambda>s. if s \<in> claimed v (files i) then Some i else fs_sector_to_inode v s)"
    using load_file_entry_ok [OF Cons.prems(1,2) om] free by blast
  have same: "geometry w" "claimed w = claimed v" "FILE_SYSTEM w = FILE_SYSTEM v" "mft_dataruns T w = Inr runs"
    using Cons.prems(1,2) w(2) same_disk_eqs(1) [OF w(2)] same_disk_claimed [OF w(2)] mft_dataruns_same [OF w(2)]
    by (simp_all add: same_disk_def)
  have table: "fs_sector_to_inode w s = Some j \<longleftrightarrow> j \<in> insert i loaded \<and> s \<in> claimed v (files j)" for s j
    using Cons.prems(4) [of i j] Cons.prems(5) [of s] w(4) by auto
  obtain u where u: "forS (load_file_entry T) inodes w = (Inr (), u)" "same_disk w u" "fs_inode_to_path u = fs_inode_to_path w"
    "\<forall>s j. fs_sector_to_inode u s = Some j \<longleftrightarrow> j \<in> set inodes \<union> insert i loaded \<and> s \<in> claimed w (files j)"
    using Cons.IH [of w "insert i loaded"] same table Cons.prems(3,4) by auto
  have "forS (load_file_entry T) (i # inodes) v = (Inr (), u)" using w(1) u(1) by (simp only: forS.simps thenS_Inr)
  then show ?case using u w(3) same_disk_trans [OF w(2) u(2)] same(2) by auto
qed auto

section \<open>Sectors of records\<close>

text \<open>The runs of a master file table in the order of the disk, as it is loaded and as it grows.\<close>

fun mft_runs_ok :: "int \<Rightarrow> (int \<times> int) list \<Rightarrow> bool" where
  "mft_runs_ok bs [] \<longleftrightarrow> True"
| "mft_runs_ok bs ((n, a) # runs) \<longleftrightarrow> 0 < n \<and> (n * bs) mod 1024 = 0 \<and>
     (\<forall>(m, b) \<in> set runs. a + n \<le> b) \<and> mft_runs_ok bs runs"

text \<open>The first sector of the record at byte \<open>left\<close> of the table.\<close>

fun record_start :: "volume \<Rightarrow> (int \<times> int) list \<Rightarrow> int \<Rightarrow> int option" where
  "record_start v [] left = None"
| "record_start v ((n, a) # runs) left =
     (if left < n * BLOCK_SIZE v then Some (VOLUME_OFFSET v + a * spb v + left div SECTOR_SIZE v)
      else record_start v runs (left - n * BLOCK_SIZE v))"

definition record_sectors :: "volume \<Rightarrow> int \<Rightarrow> int list" where
  "record_sectors v st = [st..st + 1024 div SECTOR_SIZE v - 1]"

lemma block_split:
  assumes "geometry v"
  shows "(left div BLOCK_SIZE v) * spb v + (left mod BLOCK_SIZE v) div SECTOR_SIZE v = left div SECTOR_SIZE v"
proof -
  have "left div SECTOR_SIZE v = ((left div BLOCK_SIZE v * spb v) * SECTOR_SIZE v + left mod BLOCK_SIZE v) div SECTOR_SIZE v"
    using geometry_block_size [OF assms] by (metis div_mult_mod_eq mult.assoc)
  then show ?thesis using geometry_pos [OF assms] by simp
qed

lemma record_loop_sectors:
  assumes "geometry v"
  shows "fst (record_loop runs r left v) =
    Inr (case record_start v runs left of None \<Rightarrow> [] | Some st \<Rightarrow> record_sectors v st)"
proof (induction runs arbitrary: left)
  case (Cons run runs)
  obtain num lba where run: "run = (num, lba)" by (cases run)
  have e: "VOLUME_OFFSET v + (lba + left div BLOCK_SIZE v) * spb v + left mod BLOCK_SIZE v div SECTOR_SIZE v =
    VOLUME_OFFSET v + lba * spb v + left div SECTOR_SIZE v"
    using block_split [OF assms, of left] by (simp add: algebra_simps)
  show ?case using run Cons assms geometry_pos [OF assms]
    by (auto simp: e block_to_sectors_ok first_sector_ok Let_def thenS_def bindS_def record_sectors_def)
qed auto

lemma record_start_lower:
  assumes "geometry v" and "mft_runs_ok (BLOCK_SIZE v) runs" and "\<forall>(m, b) \<in> set runs. c \<le> b"
    and "0 \<le> left" and "record_start v runs left = Some st"
  shows "VOLUME_OFFSET v + c * spb v \<le> st"
  using assms(2-)
proof (induction runs arbitrary: left c)
  case (Cons run runs)
  obtain n a where run: "run = (n, a)" by (cases run)
  have ca: "c * spb v \<le> a * spb v" using Cons.prems(2) run spb_pos [OF assms(1)] by (simp add: mult_right_mono)
  show ?case
  proof (cases "left < n * BLOCK_SIZE v")
    case True
    have "0 \<le> left div SECTOR_SIZE v" using Cons.prems(3) geometry_pos [OF assms(1)] by (simp add: pos_imp_zdiv_nonneg_iff)
    then show ?thesis using True Cons.prems(4) run ca by auto
  next
    case False
    then have "VOLUME_OFFSET v + (a + n) * spb v \<le> st"
      using Cons.prems run by (intro Cons.IH [of "a + n" "left - n * BLOCK_SIZE v"]) auto
    moreover have "0 \<le> n * spb v" using Cons.prems(1) run spb_pos [OF assms(1)] by simp
    ultimately show ?thesis using ca by (simp add: distrib_right)
  qed
qed auto

lemma record_start_first:
  assumes "geometry v" and "mft_runs_ok (BLOCK_SIZE v) runs" and "\<forall>(m, b) \<in> set runs. c \<le> b"
    and "0 \<le> left" and "record_start v runs left = Some (VOLUME_OFFSET v + c * spb v)"
  shows "left < SECTOR_SIZE v"
proof (cases runs)
  case Nil
  then show ?thesis using assms(5) by simp
next
  case (Cons run rest)
  obtain n a where run: "run = (n, a)" by (cases run)
  have k: "0 < spb v" and S: "0 < SECTOR_SIZE v" using assms(1) by (auto simp: spb_pos geometry_pos)
  have ca: "c * spb v \<le> a * spb v" using assms(3) Cons run k by (simp add: mult_right_mono)
  have "left < n * BLOCK_SIZE v"
  proof (rule ccontr)
    assume "\<not> left < n * BLOCK_SIZE v"
    then have "VOLUME_OFFSET v + (a + n) * spb v \<le> VOLUME_OFFSET v + c * spb v"
      using assms Cons run by (intro record_start_lower [of v rest "a + n" "left - n * BLOCK_SIZE v"]) auto
    moreover have "0 < n * spb v" using assms(2) Cons run k by simp
    ultimately show False using ca by (simp add: distrib_right)
  qed
  then have "left div SECTOR_SIZE v \<le> 0" using assms(5) Cons run ca by simp
  moreover have "SECTOR_SIZE v \<le> left \<Longrightarrow> 1 \<le> left div SECTOR_SIZE v"
    using zdiv_mono1 [of "SECTOR_SIZE v" left "SECTOR_SIZE v"] S by simp
  ultimately show ?thesis by linarith
qed

lemma note_record_outside:
  "\<forall>s \<in> set ss. \<not> (st \<le> s \<and> s \<le> en) \<Longrightarrow> fold (note_record v start st en) ss inodes = inodes"
  by (induction ss) (auto simp: note_record_def)

lemma note_record_only:
  assumes "\<And>s. s \<in> set ss \<Longrightarrow> st \<le> s \<Longrightarrow> s \<le> en \<Longrightarrow> start + ((s - st) * SECTOR_SIZE v) div 1024 = r"
    and "inodes = [] \<or> inodes = [r]"
  shows "fold (note_record v start st en) ss inodes = [r] \<or>
    (fold (note_record v start st en) ss inodes = inodes \<and> (\<forall>s \<in> set ss. \<not> (st \<le> s \<and> s \<le> en)))"
  using assms
proof (induction ss arbitrary: inodes)
  case (Cons s ss)
  have "note_record v start st en s inodes = (if st \<le> s \<and> s \<le> en then [r] else inodes)"
    using Cons.prems by (auto simp: note_record_def MFT_ENTRY_SIZE_def)
  then show ?case using Cons.IH [of "note_record v start st en s inodes"] Cons.prems by auto
qed auto

lemma records_loop_cons:
  assumes "geometry v"
  shows "records_loop v ss ((n, a) # runs) start inodes = records_loop v ss runs (start + (n * BLOCK_SIZE v) div 1024)
    (fold (note_record v start (VOLUME_OFFSET v + a * spb v) (VOLUME_OFFSET v + (a + n) * spb v)) ss inodes)"
proof -
  have "(n * BLOCK_SIZE v) div SECTOR_SIZE v = n * spb v"
    using geometry_block_size [OF assms] geometry_pos [OF assms] by (metis mult.assoc nonzero_mult_div_cancel_right less_irrefl)
  moreover have "n * spb v * SECTOR_SIZE v = n * BLOCK_SIZE v" using geometry_block_size [OF assms] by simp
  moreover have "VOLUME_OFFSET v + (a + n) * spb v = VOLUME_OFFSET v + a * spb v + n * spb v" by (simp add: distrib_right)
  ultimately show ?thesis
    by (simp only: records_loop.simps block_to_sectors_ok [OF assms] first_sector_ok [OF assms] bindE_simps Let_def
        MFT_ENTRY_SIZE_def add_diff_cancel_left')
qed

lemma records_loop_outside:
  assumes "geometry v" and "\<And>n a s. (n, a) \<in> set runs \<Longrightarrow> s \<in> set ss \<Longrightarrow> s < VOLUME_OFFSET v + a * spb v"
  shows "records_loop v ss runs start inodes = Inr inodes"
  using assms(2)
proof (induction runs arbitrary: start)
  case (Cons run runs)
  obtain n a where run: "run = (n, a)" by (cases run)
  have "fold (note_record v start (VOLUME_OFFSET v + a * spb v) (VOLUME_OFFSET v + (a + n) * spb v)) ss inodes = inodes"
    using Cons.prems [of n a] run by (intro note_record_outside) force
  then show ?case using Cons run by (simp only: run records_loop_cons [OF assms(1)]) auto
qed auto

text \<open>The sectors of a record lead back to this record alone.\<close>

lemma records_loop_exact:
  assumes g: "geometry v" and S: "SECTOR_SIZE v dvd 1024"
    and "mft_runs_ok (BLOCK_SIZE v) runs" and "start \<le> r" and "inodes = [] \<or> inodes = [r]"
    and "record_start v runs ((r - start) * 1024) = Some st"
  shows "records_loop v (record_sectors v st) runs start inodes = Inr [r]"
  using assms(3-)
proof (induction runs arbitrary: start inodes)
  case (Cons run runs)
  obtain n a where run: "run = (n, a)" by (cases run)
  have k: "0 < spb v" and S0: "0 < SECTOR_SIZE v" using g by (auto simp: spb_pos geometry_pos)
  obtain q where q: "1024 = SECTOR_SIZE v * q" using S unfolding dvd_def by blast
  have q1: "1024 div SECTOR_SIZE v = q" unfolding q using S0 by simp
  let ?left = "(r - start) * 1024" and ?ss = "record_sectors v st"
  let ?st = "VOLUME_OFFSET v + a * spb v" and ?en = "VOLUME_OFFSET v + (a + n) * spb v"
  have len: "n * BLOCK_SIZE v = (n * BLOCK_SIZE v) div 1024 * 1024" using Cons.prems(1) run by auto
  show ?case
  proof (cases "?left < n * BLOCK_SIZE v")
    case True
    have ldiv: "?left div SECTOR_SIZE v = (r - start) * q"
      unfolding q using S0 by (simp add: mult.left_commute [of _ "SECTOR_SIZE v"])
    have st: "st = ?st + (r - start) * q" using Cons.prems(4) run True ldiv by simp
    have num: "start + ((s - ?st) * SECTOR_SIZE v) div 1024 = r" if "s \<in> set ?ss" for s
    proof -
      from that obtain j where j: "s = st + j" "0 \<le> j" "j < q"
        by (auto simp: record_sectors_def q1 intro: that [of "s - st"])
      have "(s - ?st) * SECTOR_SIZE v = (r - start) * 1024 + j * SECTOR_SIZE v"
        unfolding q j(1) st by (simp add: algebra_simps)
      moreover have "0 \<le> j * SECTOR_SIZE v" "j * SECTOR_SIZE v < 1024"
        using j S0 unfolding q by (auto simp: mult.commute)
      ultimately show ?thesis by simp
    qed
    have "(r - start) * q + q \<le> n * spb v"
    proof -
      have "(r - start) * 1024 < (n * BLOCK_SIZE v) div 1024 * 1024" using True len by simp
      then have "r - start + 1 \<le> (n * BLOCK_SIZE v) div 1024" by simp
      then have "(r - start + 1) * 1024 \<le> (n * BLOCK_SIZE v) div 1024 * 1024" by (rule mult_right_mono) simp
      then have "(r - start + 1) * 1024 \<le> n * BLOCK_SIZE v" using len by metis
      then have "((r - start + 1) * q) * SECTOR_SIZE v \<le> (n * spb v) * SECTOR_SIZE v"
        unfolding geometry_block_size [OF g] q by (simp add: algebra_simps)
      then have "(r - start + 1) * q \<le> n * spb v" using S0 by (simp only: mult_le_cancel_right)
      then show ?thesis by (simp add: distrib_right)
    qed
    then have below: "s < ?en" if "s \<in> set ?ss" for s using that st by (auto simp: record_sectors_def q1 distrib_right)
    have qpos: "0 < q" using zero_less_mult_pos [of "SECTOR_SIZE v" q] q S0 by simp
    then have mem: "st \<in> set ?ss" by (simp add: record_sectors_def q1)
    moreover have "?st \<le> st" using st Cons.prems(2) qpos by simp
    ultimately have "fold (note_record v start ?st ?en) ?ss inodes = [r]"
      using note_record_only [of ?ss ?st ?en start v r inodes] num Cons.prems(3) below [OF mem] by fastforce
    moreover have "records_loop v ?ss runs (start + (n * BLOCK_SIZE v) div 1024) [r] = Inr [r]"
    proof (rule records_loop_outside [OF g])
      fix m b s assume "(m, b) \<in> set runs" "s \<in> set ?ss"
      then have "(a + n) * spb v \<le> b * spb v" using Cons.prems(1) run k by (auto intro: mult_right_mono)
      then show "s < VOLUME_OFFSET v + b * spb v" using below [OF \<open>s \<in> set ?ss\<close>] by simp
    qed
    ultimately show ?thesis by (simp only: run records_loop_cons [OF g])
  next
    case False
    define start' where "start' = start + (n * BLOCK_SIZE v) div 1024"
    have left': "(r - start') * 1024 = ?left - n * BLOCK_SIZE v" using len by (simp add: start'_def algebra_simps)
    have later: "record_start v runs ((r - start') * 1024) = Some st"
      using Cons.prems(4) False unfolding run left' by (simp only: record_start.simps if_False)
    have ok: "mft_runs_ok (BLOCK_SIZE v) runs" "\<forall>(m, b) \<in> set runs. a + n \<le> b" using Cons.prems(1) run by auto
    have "0 \<le> (r - start') * 1024" unfolding left' using False by (simp only: not_less diff_ge_0_iff_ge)
    then have le: "start' \<le> r" by (simp add: zero_le_mult_iff)
    have "fold (note_record v start ?st ?en) ?ss inodes \<in> {[], [r]}"
    proof -
      have low: "?en \<le> st" by (rule record_start_lower [OF g ok _ later]) (use le in simp)
      have "start + ((s - ?st) * SECTOR_SIZE v) div 1024 = r" if "s \<in> set ?ss" "?st \<le> s" "s \<le> ?en" for s
      proof -
        have s: "s = ?en" "st = ?en" using that low by (auto simp: record_sectors_def)
        then have "(r - start') * 1024 < SECTOR_SIZE v" using record_start_first [OF g ok] le later by simp
        moreover have "SECTOR_SIZE v \<le> 1024" using S by (simp add: zdvd_imp_le)
        ultimately have "r = start'" using le by simp
        moreover have "(s - ?st) * SECTOR_SIZE v = n * BLOCK_SIZE v"
          using s geometry_block_size [OF g] by (simp add: algebra_simps)
        ultimately show ?thesis by (simp add: start'_def)
      qed
      then show ?thesis using note_record_only [of ?ss ?st ?en start v r inodes] Cons.prems(3) by blast
    qed
    then have "records_loop v ?ss runs start' (fold (note_record v start ?st ?en) ?ss inodes) = Inr [r]"
      by (intro Cons.IH [OF ok(1) le _ later]) auto
    then show ?thesis by (simp only: run records_loop_cons [OF g] start'_def)
  qed
qed auto

section \<open>The table of sectors stays inside the volume\<close>

text \<open>The shape of the volume \<open>c\<close>, and a table that only mentions its sectors.\<close>

definition table_inv :: "volume \<Rightarrow> volume \<Rightarrow> bool" where
  "table_inv c v \<longleftrightarrow> SECTOR_SIZE v = SECTOR_SIZE c \<and> VOLUME_OFFSET v = VOLUME_OFFSET c \<and>
     BLOCK_COUNT v = BLOCK_COUNT c \<and> BLOCK_SIZE v = BLOCK_SIZE c \<and>
     dom (fs_sector_to_inode v) \<subseteq> span c 0 (BLOCK_COUNT c)"

lemma table_inv_shape:
  assumes "table_inv c v"
  shows "block_to_sectors v = block_to_sectors c" "out_of_bounds v = out_of_bounds c"
  using assms by (auto simp: table_inv_def block_to_sectors_def out_of_bounds_def fun_eq_iff Let_def)

lemma span_inside:
  assumes "geometry c" and "0 \<le> a" and "a + n \<le> m"
  shows "span c a n \<subseteq> span c 0 m"
proof -
  have "0 < spb c" using assms(1) by (rule spb_pos)
  then have "0 \<le> a * spb c" "(a + n) * spb c \<le> m * spb c" using assms by (auto intro: mult_right_mono)
  then show ?thesis by (auto simp: span_def)
qed

lemma keeps_for_sectors:
  assumes g: "geometry c" and "0 \<le> n" and body: "\<And>b s. s \<in> span c a n \<Longrightarrow> keeps (table_inv c) (body b s)"
  shows "keeps (table_inv c) (for_sectors a n body)"
  unfolding for_sectors_def
proof (rule keeps_forS, rule keeps_get, rule keeps_lift, rule keeps_forS)
  fix i v ss s
  assume i: "i \<in> set [0..n - 1]" and v: "table_inv c v" and ss: "block_to_sectors v (a + i) = Inr ss" and s: "s \<in> set ss"
  have "s \<in> (\<Union>i\<in>{0..n - 1}. set [VOLUME_OFFSET c + (a + i) * spb c..VOLUME_OFFSET c + (a + i) * spb c + spb c - 1])"
    using i s ss by (auto simp: table_inv_shape(1) [OF v] block_to_sectors_ok [OF g])
  then show "keeps (table_inv c) (body (a + i) s)"
    unfolding sectors_of_blocks [OF g assms(2), of a] by (rule body)
qed

lemma keeps_add_sector: "s \<in> span c 0 (BLOCK_COUNT c) \<Longrightarrow> keeps (table_inv c) (add_sector inode b s)"
  unfolding add_sector_def Let_def by (intro keeps_intros) (auto simp: table_inv_def)

lemma keeps_remove_sector: "keeps (table_inv c) (remove_sector b s)"
  unfolding remove_sector_def by (rule keeps_setS) (auto simp: table_inv_def)

lemma keeps_runs [keeps_intros]:
  assumes "geometry c"
  shows "keeps (table_inv c) (add_run inode a n)" "keeps (table_inv c) (remove_run inode a n)"
proof -
  have run: "keeps (table_inv c) (if out_of_bounds v a n then setS (\<lambda>v. v\<lparr>error_log := f v\<rparr>) else for_sectors a n body)"
    if "table_inv c v" "\<And>b s. s \<in> span c 0 (BLOCK_COUNT c) \<Longrightarrow> keeps (table_inv c) (body b s)" for v f body
  proof (rule keeps_if)
    assume "\<not> out_of_bounds v a n"
    then have n: "0 \<le> n" "0 \<le> a" "a + n \<le> BLOCK_COUNT c"
      using table_inv_shape(2) [OF that(1)] by (auto simp: out_of_bounds_def)
    then show "keeps (table_inv c) (for_sectors a n body)"
      using that(2) span_inside [OF assms n(2,3)] by (intro keeps_for_sectors [OF assms]) auto
  qed (auto intro!: keeps_setS simp: table_inv_def)
  show "keeps (table_inv c) (add_run inode a n)"
    unfolding add_run_def by (rule keeps_get) (unfold id_apply, rule run, auto intro: keeps_add_sector)
  show "keeps (table_inv c) (remove_run inode a n)"
    unfolding remove_run_def by (rule keeps_get) (unfold id_apply, rule run, auto intro: keeps_remove_sector)
qed

lemma keeps_record_loop: "keeps (table_inv c) (record_loop runs r left)"
proof (induction runs r left rule: record_loop.induct)
  case (2 n a runs r left)
  show ?case unfolding record_loop.simps Let_def by (intro keeps_intros 2) (auto simp: table_inv_def)
qed (simp only: record_loop.simps keeps_intros)

lemma keeps_volume_methods [keeps_intros]:
  assumes "geometry c"
  shows "keeps (table_inv c) (open_file i)" "keeps (table_inv c) (mft_record_to_sectors T i)"
    "keeps (table_inv c) (load_file_entry T i)" "keeps (table_inv c) (reload_file_entry T i)"
    "keeps (table_inv c) parse_root"
  unfolding open_file_def mft_record_to_sectors_def load_file_entry_def reload_file_entry_def clean_file_entry_def
    parse_root_def
  by (intro keeps_intros assms keeps_record_loop; auto simp: table_inv_def)+

lemma keeps_get_path [keeps_intros]: "keeps (table_inv c) (get_path T d raw i)"
proof (induction T d raw i rule: get_path.induct)
  case (3 T d raw i)
  show ?case unfolding get_path.simps Let_def note_path_def
    by (intro keeps_intros 3) (auto simp: table_inv_def)
qed (simp_all only: get_path.simps keeps_intros)

lemma keeps_report_changes [keeps_intros]:
  assumes "geometry c"
  shows "keeps (table_inv c) (report_changes T upd rs ops)"
proof (induction rs arbitrary: ops)
  case (Cons r rs)
  show ?case unfolding report_changes.simps Let_def first_sector_op_def
    by (intro keeps_intros assms Cons)
qed (simp only: report_changes.simps keeps_intros)

lemma keeps_access:
  assumes "geometry c"
  shows "keeps (table_inv c) (get_access T sector count direction data)"
proof -
  have "keeps (table_inv c) (apply_write T sector data)"
    unfolding apply_write_def update_file_system_def by (intro keeps_intros assms) (auto simp: table_inv_def)
  moreover have "keeps (table_inv c) (load_new_entries T upd)" for upd
    unfolding load_new_entries_def Let_def by (intro keeps_intros assms) (auto simp: table_inv_def)
  moreover have diff: "keeps (table_inv c) (diff_entries T upd)" for upd
    unfolding diff_entries_def diff_metadata_def Let_def by (intro keeps_intros assms)
  moreover have "keeps (table_inv c) (write_operation T upd sector data i)" for upd i
    unfolding write_operation_def write_name_def Let_def by (intro keeps_intros diff assms)
  moreover have "keeps (table_inv c) (open_entries inodes)" for inodes
    unfolding open_entries_def by (intro keeps_intros assms)
  ultimately show ?thesis
    unfolding get_access_def write_access_def Let_def by (intro keeps_intros assms) (auto simp: table_inv_def)
qed

end
