(* ===== verification/NtfsProperties.thy ===== *)
theory NtfsProperties
  imports NtfsLemmas
begin

text \<open>
  The properties of an NTFS volume: loading a file system fills the table of sectors as its runs say, the
  sectors of a record lead back to the record, the table never mentions a sector outside the volume, reads are
  reported sector by sector, what loading an entry again does to the sectors of others, and which writes raise.
\<close>

section \<open>Lemmas\<close>

lemma parse_root_at: "\<exists>w. parse_root v = (Inr (), w) \<and> same_disk v w \<and> fs_sector_to_inode w = fs_sector_to_inode v"
  by (simp add: parse_root_def same_disk_def)

lemma open_file_at: "open_meta (FILE_SYSTEM v) i = Inr f \<Longrightarrow> open_file i v = (Inr f, v)"
  by (simp add: open_file_def)

lemma get_records_same:
  assumes "same_disk v w"
  shows "get_records_from_sectors T w ss = get_records_from_sectors T v ss"
proof -
  have "note_record w = note_record v" using assms by (auto simp: same_disk_def note_record_def fun_eq_iff)
  then have "records_loop w ss runs start inodes = records_loop v ss runs start inodes" for runs start inodes
    using assms same_disk_eqs(5) [OF assms] by (induction runs arbitrary: start inodes) (auto simp: same_disk_def)
  then show ?thesis by (simp add: get_records_from_sectors_def mft_dataruns_same [OF assms])
qed

text \<open>All sectors of the runs of a file inside the volume, sparse runs included.\<close>

definition swept :: "volume \<Rightarrow> tsk_file \<Rightarrow> int set" where
  "swept v f = (\<Union>r\<in>{r \<in> set (all_runs f). \<not> out_of_bounds v (run_addr r) (run_len r)}. span v (run_addr r) (run_len r))"

lemma claimed_swept: "claimed v f \<subseteq> swept v f"
  by (auto simp: claimed_def swept_def real_run_def)

lemma remove_runs_ok:
  assumes "geometry v"
  shows "\<exists>w. forS (\<lambda>r. remove_run inode (run_addr r) (run_len r)) rs v = (Inr (), w) \<and> same_disk v w \<and>
    fs_inode_to_path w = fs_inode_to_path v \<and>
    fs_sector_to_inode w = (\<lambda>s. if s \<in> (\<Union>r\<in>{r \<in> set rs. \<not> out_of_bounds v (run_addr r) (run_len r)}.
                                     span v (run_addr r) (run_len r)) then None else fs_sector_to_inode v s)"
  using assms
proof (induction rs arbitrary: v)
  case (Cons r rs)
  let ?turn = "\<lambda>r. remove_run inode (run_addr r) (run_len r)"
  obtain w where w: "?turn r v = (Inr (), w)" "same_disk v w" "fs_inode_to_path w = fs_inode_to_path v"
    "fs_sector_to_inode w = (\<lambda>s. if \<not> out_of_bounds v (run_addr r) (run_len r) \<and> s \<in> span v (run_addr r) (run_len r)
       then None else fs_sector_to_inode v s)" using remove_run_ok [OF Cons.prems] by blast
  note same = same_disk_eqs [OF w(2)]
  obtain u where u: "forS ?turn rs w = (Inr (), u)" "same_disk w u" "fs_inode_to_path u = fs_inode_to_path w"
    "fs_sector_to_inode u = (\<lambda>s. if s \<in> (\<Union>r\<in>{r \<in> set rs. \<not> out_of_bounds w (run_addr r) (run_len r)}.
                                     span w (run_addr r) (run_len r)) then None else fs_sector_to_inode w s)"
    using Cons.IH [of w] same(1) Cons.prems by blast
  have "forS ?turn (r # rs) v = (Inr (), u)" using w(1) u(1) by (simp only: forS.simps thenS_Inr)
  moreover have "fs_sector_to_inode u = (\<lambda>s. if s \<in> (\<Union>r\<in>{r' \<in> set (r # rs). \<not> out_of_bounds v (run_addr r') (run_len r')}.
      span v (run_addr r) (run_len r)) then None else fs_sector_to_inode v s)"
    unfolding u(4) w(4) same by (rule ext) auto
  moreover have "fs_inode_to_path u = fs_inode_to_path v" using u(3) w(3) by simp
  ultimately show ?case using same_disk_trans [OF w(2) u(2)] by blast
qed auto

lemma upto_single [simp]: "[i..i] = [i::int]"
  by (simp add: upto_rec1)

lemma concat_slices:
  "length data = n * k \<Longrightarrow> concat (map (\<lambda>i. slice (i * k) ((i + 1) * k) data) [0..<n]) = data"
proof (induction n arbitrary: data)
  case (Suc n)
  have "concat (map (\<lambda>i. slice (i * k) ((i + 1) * k) data) [0..<n]) = take (n * k) data"
  proof -
    have m: "map (\<lambda>i. slice (i * k) ((i + 1) * k) data) [0..<n] = map (\<lambda>i. slice (i * k) ((i + 1) * k) (take (n * k) data)) [0..<n]"
    proof (rule map_cong [OF refl])
      fix i assume "i \<in> set [0..<n]"
      then have "(i + 1) * k \<le> n * k" by (intro mult_right_mono) auto
      then show "slice (i * k) ((i + 1) * k) data = slice (i * k) ((i + 1) * k) (take (n * k) data)"
        using slice_append_left [of "(i + 1) * k" "take (n * k) data" "i * k" "drop (n * k) data"] Suc.prems by simp
    qed
    show ?thesis unfolding m using Suc.prems by (intro Suc.IH) simp
  qed
  moreover have "slice (n * k) ((n + 1) * k) data = drop (n * k) data" using Suc.prems by (simp add: slice_def)
  ultimately show ?case by simp
qed simp

lemma upto_nat: "[a..a + int n - 1] = map (\<lambda>i. a + int i) [0..<n]"
proof (induction n)
  case (Suc n)
  have "[a..a + int (Suc n) - 1] = [a..a + int n - 1] @ [a + int n]" using upto_rec2 [of a "a + int n"] by (simp add: algebra_simps)
  then show ?case using Suc by simp
qed simp

section \<open>Properties\<close>

text \<open>
  C11. Loading a file system whose files do not share sectors ends without an exception and fills the
  table exactly: a sector is mapped to an inode if and only if it lies in a run of that inode that is not sparse
  and is inside the volume.
\<close>

theorem load_file_system_maps_sectors:
  assumes "geometry v" and "fs_sector_to_inode v = Map.empty" and "0 \<le> last_inum (FILE_SYSTEM v)"
    and "\<And>i. 0 \<le> i \<Longrightarrow> i \<le> last_inum (FILE_SYSTEM v) \<Longrightarrow> open_meta (FILE_SYSTEM v) i = Inr (files i)"
    and "\<And>i j. 0 \<le> i \<Longrightarrow> i < j \<Longrightarrow> j \<le> last_inum (FILE_SYSTEM v) \<Longrightarrow> claimed v (files i) \<inter> claimed v (files j) = {}"
  shows "\<exists>w. load_file_system T v = (Inr (), w) \<and>
    (\<forall>s i. fs_sector_to_inode w s = Some i \<longleftrightarrow> 0 \<le> i \<and> i \<le> last_inum (FILE_SYSTEM v) \<and> s \<in> claimed v (files i))"
proof -
  obtain u where u: "parse_root v = (Inr (), u)" "same_disk v u" "fs_sector_to_inode u = fs_sector_to_inode v"
    using parse_root_at by blast
  have same: "FILE_SYSTEM u = FILE_SYSTEM v" "geometry u" "claimed u = claimed v"
    using u(2) assms(1) same_disk_eqs(1) [OF u(2)] same_disk_claimed [OF u(2)] by (auto simp: same_disk_def)
  obtain runs where runs: "mft_dataruns T u = Inr runs" using assms(3) assms(4) [of 0] same(1) by (simp add: mft_dataruns_def)
  let ?is = "[0..last_inum (FILE_SYSTEM v)]"
  have dis: "claimed u (files i) \<inter> claimed u (files j) = {}" if "i \<in> set ?is" "j \<in> set ?is \<union> {}" "i \<noteq> j" for i j
    using assms(5) [of i j] assms(5) [of j i] that same(3) by (cases "i < j") auto
  obtain w where "forS (load_file_entry T) ?is u = (Inr (), w)"
    "\<forall>s i. fs_sector_to_inode w s = Some i \<longleftrightarrow> i \<in> set ?is \<union> {} \<and> s \<in> claimed u (files i)"
    using load_entries_ok [where loaded = "{}" and files = files and inodes = ?is, OF same(2) runs _ dis] assms(2,4) u(3) same(1)
    by auto
  then show ?thesis using u(1) same by (auto simp: load_file_system_def thenS_Inr)
qed

text \<open>
  The sectors of a record of the master file table lead back to exactly this record, whatever the number
  of runs the table is spread over: looking up the sectors of record \<open>r\<close> and then the records of these
  sectors gives \<open>r\<close> alone.
\<close>

theorem record_sectors_roundtrip:
  assumes "geometry v" and "SECTOR_SIZE v dvd 1024"
    and "mft_dataruns T v = Inr runs" and "mft_runs_ok (BLOCK_SIZE v) runs" and "0 \<le> r"
    and "fst (mft_record_to_sectors T r v) = Inr ss" and "ss \<noteq> []"
  shows "get_records_from_sectors T v ss = Inr [r]"
proof -
  have "fst (record_loop runs r (r * 1024) v) = Inr ss"
    using assms(3,6) by (simp add: mft_record_to_sectors_def)
  then obtain st where "record_start v runs ((r - 0) * 1024) = Some st" "ss = record_sectors v st"
    using assms(7) by (auto simp: record_loop_sectors [OF assms(1)] split: option.splits)
  then show ?thesis using records_loop_exact [OF assms(1,2,4,5), of "[]" st] assms(3)
    by (simp add: get_records_from_sectors_def)
qed

text \<open>
  Whatever is read or written, whatever the file system on the disk says and whether the access ends with
  an exception or not, the table of sectors never mentions a sector outside the volume.
\<close>

theorem access_stays_in_volume:
  assumes "geometry v" and "\<And>s i. fs_sector_to_inode v s = Some i \<Longrightarrow>
      VOLUME_OFFSET v \<le> s \<and> s < VOLUME_OFFSET v + BLOCK_COUNT v * spb v"
    and "fs_sector_to_inode (snd (get_access T sector count direction data v)) s = Some i"
  shows "VOLUME_OFFSET v \<le> s \<and> s < VOLUME_OFFSET v + BLOCK_COUNT v * spb v"
proof -
  have "table_inv v v" using assms(2) by (auto simp: table_inv_def span_def)
  then have "table_inv v (snd (get_access T sector count direction data v))"
    by (rule keepsD [OF keeps_access [OF assms(1)]])
  then show ?thesis using assms(3) by (auto simp: table_inv_def span_def)
qed

text \<open>
  A read changes nothing and is reported with one operation for each sector, in order: together the
  operations carry the data that was read, and each one names the inode that the table has for its sector.
\<close>

theorem read_reported_by_sector:
  assumes "direction \<noteq> DIRECTION_WRITE" and "0 < SECTOR_SIZE v" and "length data = n * nat (SECTOR_SIZE v)"
  shows "\<exists>ops. get_access T sector (int n) direction data v = (Inr ops, v) \<and>
    map op_sector ops = [sector..sector + int n - 1] \<and> concat (map raw_data ops) = data \<and>
    map op_inode ops = map (\<lambda>s. case fs_sector_to_inode v s of None \<Rightarrow> InodeText ''unknown'' | Some i \<Rightarrow> Inode i)
                         [sector..sector + int n - 1]"
proof -
  define ops where "ops = map (read_operation v sector data) [0..int n - 1]"
  have list: "[0..int n - 1] = map int [0..<n]" using upto_nat [of 0 n] by simp
  have fields: "op_sector (read_operation v sector data i) = sector + i"
    "raw_data (read_operation v sector data i) = sector_data v data i"
    "op_inode (read_operation v sector data i) =
       (case fs_sector_to_inode v (sector + i) of None \<Rightarrow> InodeText ''unknown'' | Some i \<Rightarrow> Inode i)" for i
    by (auto simp: read_operation_def fs_op_def Let_def split: option.splits)
  have "concat (map (\<lambda>i. sector_data v data (int i)) [0..<n]) = data"
    using concat_slices [OF assms(3)] assms(2) by (simp add: sector_data_def nat_mult_distrib nat_add_distrib)
  then have "concat (map raw_data ops) = data"
    by (simp add: ops_def fields list comp_def)
  moreover have "get_access T sector (int n) direction data v = (Inr ops, v)"
    using assms(1) by (simp add: get_access_def ops_def)
  ultimately show ?thesis unfolding upto_nat by (intro exI [of _ ops]) (simp add: ops_def fields list comp_def)
qed

text \<open>
  Loading an entry again gives the file the sectors of its runs and takes every other sector of its
  runs away from whoever had it: a sparse run, which has address 0, thereby erases the owners of the first
  blocks of the volume.  Sectors that the file had before and that no run of it mentions now stay its own.
\<close>

theorem reload_replaces_sectors:
  assumes "geometry v" and "mft_dataruns T v = Inr runs" and "open_meta (FILE_SYSTEM v) i = Inr f"
  shows "\<exists>w. reload_file_entry T i v = (Inr (), w) \<and>
    fs_sector_to_inode w = (\<lambda>s. if s \<in> claimed v f then Some i
                               else if s \<in> swept v f then None else fs_sector_to_inode v s)"
proof -
  obtain u where u: "forS (\<lambda>r. remove_run i (run_addr r) (run_len r)) (all_runs f) v = (Inr (), u)" "same_disk v u"
    "fs_sector_to_inode u = (\<lambda>s. if s \<in> swept v f then None else fs_sector_to_inode v s)"
    using remove_runs_ok [OF assms(1), of i "all_runs f"] unfolding swept_def by blast
  have clean: "clean_file_entry i v = (Inr (), u)"
    using u(1) open_file_at [OF assms(3)] by (simp add: clean_file_entry_def bindS_Inr)
  have same: "geometry u" "claimed u = claimed v" "mft_dataruns T u = Inr runs" "open_meta (FILE_SYSTEM u) i = Inr f"
    using assms u(2) same_disk_eqs(1) [OF u(2)] same_disk_claimed [OF u(2)] mft_dataruns_same [OF u(2)]
    by (simp_all add: same_disk_def)
  have "j = i" if "s \<in> claimed u f" "fs_sector_to_inode u s = Some j" for s j
    using that claimed_swept [of v f] same(2) u(3) by (auto split: if_splits)
  then obtain w where "load_file_entry T i u = (Inr (), w)"
    "fs_sector_to_inode w = (\<lambda>s. if s \<in> claimed u f then Some i else fs_sector_to_inode u s)"
    using load_file_entry_ok [OF same(1,3,4)] by blast
  then show ?thesis using clean same(2) u(3) by (auto simp: reload_file_entry_def thenS_Inr)
qed

text \<open>
  The end of a run counts as part of the master file table.  A write to the sector directly behind the
  table is taken for one to a record that does not exist, and the exception that opening this record raises
  ends the whole access, so that the write is not reported at all.
\<close>

theorem write_behind_mft_raises:
  assumes "geometry v" and "mft_dataruns T v = Inr [(n, a)]" and "0 \<le> n"
    and "open_meta (FILE_SYSTEM v) ((n * BLOCK_SIZE v) div 1024) = Inl e"
    and "\<And>k. dict_order T [k] = [k]"
  shows "fst (get_access T (VOLUME_OFFSET v + (a + n) * spb v) 1 DIRECTION_WRITE data v) = Inl e"
proof -
  let ?s = "VOLUME_OFFSET v + (a + n) * spb v" and ?r = "(n * BLOCK_SIZE v) div 1024"
  let ?v = "v\<lparr>LAST_INUM := last_inum (FILE_SYSTEM v)\<rparr>"
  have k: "a * spb v \<le> (a + n) * spb v" using assms(3) spb_pos [OF assms(1)] by (intro mult_right_mono) auto
  have "(?s - (VOLUME_OFFSET v + a * spb v)) * SECTOR_SIZE v = n * BLOCK_SIZE v"
    using geometry_block_size [OF assms(1)] by (simp add: algebra_simps)
  then have "note_record v 0 (VOLUME_OFFSET v + a * spb v) ?s ?s [] = [?r]"
    using k by (simp add: note_record_def MFT_ENTRY_SIZE_def)
  then have "records_loop v [?s] [(n, a)] 0 [] = Inr [?r]"
    unfolding records_loop_cons [OF assms(1)] by simp
  then have recs: "get_records_from_sectors T v [?s] = Inr [?r]"
    by (simp only: get_records_from_sectors_def assms(2) bindE_simps)
  have recs2: "get_records_from_sectors T ?v [?s] = Inr [?r]"
    using recs get_records_same [of v ?v T] by (simp add: same_disk_def)
  have "open_entries [?r] v = (Inr [], v)"
    using assms(4) by (simp add: open_entries_def tryS_def bindS_def open_file_def)
  moreover have "load_new_entries T [] ?v = (Inr [], ?v)"
    by (simp add: load_new_entries_def Let_def thenS_def bindS_def)
  moreover have "report_changes T [(?r, None)] [?r] [] ?v = (Inl e, ?v)"
    using assms(4) by (simp add: reload_file_entry_def clean_file_entry_def open_file_def thenS_def bindS_def)
  ultimately show ?thesis
    using recs recs2 assms(5)
    by (simp add: get_access_def write_access_def DIRECTION_WRITE_def bindS_def thenS_def note_new_records_def Let_def)
qed

section \<open>Witnesses\<close>

text \<open>A volume of 100 blocks with the master file table in blocks 10 to 13 and one file in blocks 20 and 21.\<close>

definition demo_meta :: meta where
  "demo_meta = \<lparr>flags = 1, meta_size = 2048, uid = 0, gid = 0, mtime = 0, mtime_nano = 0, atime = 0, atime_nano = 0,
     ctime = 0, ctime_nano = 0, crtime = 0, crtime_nano = 0, content_len = 0, seq = 1\<rparr>"

definition demo_file :: "string \<Rightarrow> int \<Rightarrow> int \<Rightarrow> tsk_file" where
  "demo_file name addr len = \<lparr>file_name = Some name,
     file_attrs = [\<lparr>attr_type = 128, attr_runs = [\<lparr>run_addr = addr, run_len = len\<rparr>]\<rparr>], file_meta = demo_meta\<rparr>"

definition demo_files :: "int \<Rightarrow> tsk_file" where
  "demo_files i = (if i = 0 then demo_file ''$MFT'' 10 4 else demo_file ''a.txt'' 20 2)"

definition demo_fs :: file_system where
  "demo_fs = \<lparr>open_meta = (\<lambda>i. if 0 \<le> i \<and> i \<le> 1 then Inr (demo_files i) else Inl IOError), last_inum = 1, root_inum = 5,
     root_dir = [Entry ''a.txt'' (Some 1) False []], block_count = 100, block_size = 1024, mft_content = []\<rparr>"

definition demo_tsk :: tsk where
  "demo_tsk = \<lparr>FS_Info = (\<lambda>img off. Inr demo_fs), NTFS_DATA = 128, FLAG_ALLOC = 1, FLAG_UNALLOC = 2, FLAG_USED = 4,
     FLAG_UNUSED = 8, FLAG_COMP = 16, FLAG_ORPHAN = 32, parse_record = (\<lambda>r. Inr []), dict_order = id\<rparr>"

definition demo_volume :: volume where
  "demo_volume = \<lparr>SECTOR_SIZE = 512, VOLUME_OFFSET = 63, IMG = [], error_log = [], FILE_SYSTEM = demo_fs,
     fs_sector_to_inode = Map.empty, fs_inode_to_path = Map.empty, fs_inode_to_sector_resident = Map.empty,
     mft_raw = None, old_mft_raw = None, ROOT_INUM = 5, LAST_INUM = 1, BLOCK_COUNT = 100, BLOCK_SIZE = 1024,
     MFT_OFFSET = 83\<rparr>"

lemmas demo_defs = demo_volume_def demo_fs_def demo_tsk_def demo_files_def demo_file_def

lemma demo_fields:
  "SECTOR_SIZE demo_volume = 512" "VOLUME_OFFSET demo_volume = 63" "BLOCK_SIZE demo_volume = 1024"
  "last_inum (FILE_SYSTEM demo_volume) = 1" "fs_sector_to_inode demo_volume = Map.empty"
  "0 \<le> i \<Longrightarrow> i \<le> 1 \<Longrightarrow> open_meta (FILE_SYSTEM demo_volume) i = Inr (demo_files i)"
  by (simp_all add: demo_volume_def demo_fs_def)

lemma demo_geometry: "geometry demo_volume" "spb demo_volume = 2"
  by (simp_all add: geometry_def spb_def demo_volume_def)

lemma demo_claimed: "claimed demo_volume (demo_files i) = (if i = 0 then {83..<91} else {103..<107})"
  by (auto simp: claimed_def real_run_def all_runs_def out_of_bounds_def span_def spb_def demo_defs)

lemma demo_runs: "mft_dataruns demo_tsk demo_volume = Inr [(4, 10)]"
  by (simp add: mft_dataruns_def demo_defs)

theorem load_file_system_maps_sectors_witness:
  "\<exists>w. load_file_system demo_tsk demo_volume = (Inr (), w) \<and> fs_sector_to_inode w 90 = Some 0 \<and>
     fs_sector_to_inode w 103 = Some 1 \<and> fs_sector_to_inode w 107 \<noteq> Some 1"
proof -
  have "\<exists>w. load_file_system demo_tsk demo_volume = (Inr (), w) \<and>
    (\<forall>s i. fs_sector_to_inode w s = Some i \<longleftrightarrow>
      0 \<le> i \<and> i \<le> last_inum (FILE_SYSTEM demo_volume) \<and> s \<in> claimed demo_volume (demo_files i))"
    by (rule load_file_system_maps_sectors [OF demo_geometry(1)]) (auto simp: demo_claimed demo_fields)
  then show ?thesis by (auto simp: demo_claimed demo_fields)
qed

theorem record_sectors_roundtrip_witness:
  "get_records_from_sectors demo_tsk demo_volume [87, 88] = Inr [2]"
proof (rule record_sectors_roundtrip [OF demo_geometry(1) _ demo_runs])
  show "fst (mft_record_to_sectors demo_tsk 2 demo_volume) = Inr [87, 88]"
    by (simp add: mft_record_to_sectors_def demo_runs record_loop_sectors [OF demo_geometry(1)]
        demo_geometry demo_fields record_sectors_def upto_rec1 del: record_loop.simps)
qed (simp_all add: demo_volume_def)

theorem access_stays_in_volume_witness:
  "fs_sector_to_inode (snd (get_access demo_tsk 200 1 0 [7] (demo_volume\<lparr>fs_sector_to_inode := [200 \<mapsto> 1]\<rparr>))) 200 = Some 1 \<and>
   (63::int) \<le> 200 \<and> (200::int) < 63 + 100 * 2"
proof -
  let ?v = "demo_volume\<lparr>fs_sector_to_inode := [200 \<mapsto> 1]\<rparr>"
  have g: "geometry ?v" "spb ?v = 2" by (simp_all add: geometry_def spb_def demo_volume_def)
  have "fs_sector_to_inode (snd (get_access demo_tsk 200 1 0 [7] ?v)) 200 = Some 1"
    by (simp add: get_access_def DIRECTION_WRITE_def)
  then show ?thesis using access_stays_in_volume [OF g(1), of demo_tsk 200 1 0 "[7]" 200 1] g(2)
    by (auto simp: demo_volume_def split: if_splits)
qed

theorem read_reported_by_sector_witness:
  "\<exists>ops. get_access demo_tsk 103 1 0 (replicate 512 7) (demo_volume\<lparr>fs_sector_to_inode := [103 \<mapsto> 1]\<rparr>) =
       (Inr ops, demo_volume\<lparr>fs_sector_to_inode := [103 \<mapsto> 1]\<rparr>) \<and>
     map op_sector ops = [103] \<and> concat (map raw_data ops) = replicate 512 7 \<and> map op_inode ops = [Inode 1]"
  using read_reported_by_sector [of 0 "demo_volume\<lparr>fs_sector_to_inode := [103 \<mapsto> 1]\<rparr>" "replicate 512 7" 1 demo_tsk 103]
  by (simp add: DIRECTION_WRITE_def demo_volume_def)

text \<open>The reloaded file has one sparse run of two blocks; the four sectors at the start belonged to file 7.\<close>

theorem reload_replaces_sectors_witness:
  "\<exists>w. reload_file_entry demo_tsk 0 (demo_volume\<lparr>fs_sector_to_inode := [63 \<mapsto> 7, 200 \<mapsto> 0],
       FILE_SYSTEM := demo_fs\<lparr>open_meta := (\<lambda>i. Inr (demo_file ''sparse'' 0 2))\<rparr>\<rparr>) = (Inr (), w) \<and>
     fs_sector_to_inode w 63 = None \<and> fs_sector_to_inode w 200 = Some 0"
proof -
  let ?f = "demo_file ''sparse'' 0 2"
  let ?v = "demo_volume\<lparr>fs_sector_to_inode := [63 \<mapsto> 7, 200 \<mapsto> 0], FILE_SYSTEM := demo_fs\<lparr>open_meta := (\<lambda>i. Inr ?f)\<rparr>\<rparr>"
  have "geometry ?v" by (simp add: geometry_def demo_volume_def)
  moreover have "mft_dataruns demo_tsk ?v = Inr [(2, 0)]"
    by (simp add: mft_dataruns_def demo_defs)
  moreover have "open_meta (FILE_SYSTEM ?v) 0 = Inr ?f" by simp
  ultimately have "\<exists>w. reload_file_entry demo_tsk 0 ?v = (Inr (), w) \<and>
    fs_sector_to_inode w = (\<lambda>s. if s \<in> claimed ?v ?f then Some 0 else if s \<in> swept ?v ?f then None
                               else fs_sector_to_inode ?v s)"
    by (rule reload_replaces_sectors)
  then show ?thesis
    by (auto simp: claimed_def swept_def real_run_def all_runs_def out_of_bounds_def span_def spb_def demo_file_def demo_volume_def)
qed

theorem write_behind_mft_raises_witness:
  "fst (get_access demo_tsk 91 1 1 [7] demo_volume) = Inl IOError"
  using write_behind_mft_raises [OF demo_geometry(1) demo_runs, of IOError "[7]"]
  by (simp add: demo_geometry DIRECTION_WRITE_def) (simp add: demo_defs)

end
