(* ===== verification/SataFrames.thy ===== *)
theory SataFrames
  imports Prelude
begin

text \<open>
  SATA frames as the physical disk sensor delivers them:
  \<^verbatim>\<open>lophi_semanticgap/disk/sata.py\<close>.  The frame types, the header that
  \<^verbatim>\<open>SATAInterpreter.extract_sata_data\<close> builds for each of them, and the byte swap
  \<^verbatim>\<open>flip_endianess\<close> it applies to the payload.

  The Python header is a dictionary whose keys depend on the frame type.  Here it is one record
  over all the keys the reconstructor reads; a key the interpreter does not set for a frame type
  is 0 in the record, and no handler reads such a key.
\<close>

unbundle bit_operations_syntax

section \<open>Frame types and commands\<close>

abbreviation (input) RegisterFIS_HtoD :: nat where "RegisterFIS_HtoD \<equiv> 0x27"
abbreviation (input) RegisterFIS_DtoH :: nat where "RegisterFIS_DtoH \<equiv> 0x34"
abbreviation (input) DMAActivateFIS :: nat where "DMAActivateFIS \<equiv> 0x39"
abbreviation (input) DMASetupFIS :: nat where "DMASetupFIS \<equiv> 0x41"
abbreviation (input) DataFIS :: nat where "DataFIS \<equiv> 0x46"
abbreviation (input) BISTActivateFIS :: nat where "BISTActivateFIS \<equiv> 0x58"
abbreviation (input) PIOSetupFIS :: nat where "PIOSetupFIS \<equiv> 0x5f"
abbreviation (input) SetDeviceBitsFIS :: nat where "SetDeviceBitsFIS \<equiv> 0xa1"

text \<open>The keys of \<^verbatim>\<open>FrameType.type_lookup\<close>.\<close>

definition type_lookup :: "nat list" where
  "type_lookup = [0x27, 0x34, 0x39, 0x41, 0x46, 0x58, 0x5f, 0xa1]"

abbreviation (input) ReadFPDMAQueued :: nat where "ReadFPDMAQueued \<equiv> 0x60"
abbreviation (input) WriteFPDMAQueued :: nat where "WriteFPDMAQueued \<equiv> 0x61"
abbreviation (input) NCQQueueManagement :: nat where "NCQQueueManagement \<equiv> 0x63"

record sata_header =
  h_type :: nat
  h_direction :: nat
  h_lophi_seqn :: nat
  h_features :: nat
  h_command :: nat
  h_C :: nat
  h_pm_port :: nat
  h_lba :: nat
  h_count :: nat
  h_tag :: nat
  h_error :: nat
  h_status :: nat
  h_interrupt :: nat
  h_direction_bit :: nat
  h_dma_buf_identifier_low :: nat
  h_transfer_count :: nat
  h_status_lo :: nat
  h_proto :: nat

definition empty_header :: sata_header where
  "empty_header = \<lparr>h_type = 0, h_direction = 0, h_lophi_seqn = 0, h_features = 0, h_command = 0,
     h_C = 0, h_pm_port = 0, h_lba = 0, h_count = 0, h_tag = 0, h_error = 0, h_status = 0,
     h_interrupt = 0, h_direction_bit = 0, h_dma_buf_identifier_low = 0, h_transfer_count = 0,
     h_status_lo = 0, h_proto = 0\<rparr>"

section \<open>Header extraction\<close>

text \<open>
  \<^verbatim>\<open>struct.unpack\<close> of a network-order format, given the widths of its fields: the data
  must be exactly as long as the format.
\<close>

fun unpack_fields :: "nat list \<Rightarrow> bytes \<Rightarrow> nat list" where
  "unpack_fields [] bs = []"
| "unpack_fields (w # ws) bs = be_val (take w bs) # unpack_fields ws (drop w bs)"

definition unpack_net :: "nat list \<Rightarrow> bytes \<Rightarrow> nat list res" where
  "unpack_net ws bs = (if length bs = sum_list ws then Inr (unpack_fields ws bs) else Inl StructError)"

definition extract_header :: "nat list \<Rightarrow> bytes \<Rightarrow> (nat list \<times> bytes) res" where
  "extract_header HEADER packet =
     (let header_len = sum_list HEADER in
      bindE (unpack_net HEADER (take header_len packet)) (\<lambda>extracted.
        Inr (extracted, drop header_len packet)))"

text \<open>\<^verbatim>\<open>G.flip_endianess\<close>: every full word reversed, a trailing partial word dropped.\<close>

fun flip_endianess :: "bytes \<Rightarrow> bytes" where
  "flip_endianess (a # b # c # d # rest) = d # c # b # a # flip_endianess rest"
| "flip_endianess _ = []"

text \<open>
  The body of \<^verbatim>\<open>extract_sata_data\<close> reads two names, \<^verbatim>\<open>direction\<close> and
  \<^verbatim>\<open>lophi_seqn\<close>, whose assignments are commented out (lines 73 to 79), so Python looks them up
  in the module.  \<open>globals\<close> is that lookup; \<open>module_globals\<close> is what the module really binds.
\<close>

record globals =
  g_direction :: "nat option"
  g_lophi_seqn :: "nat option"

definition module_globals :: globals where
  "module_globals = \<lparr>g_direction = None, g_lophi_seqn = None\<rparr>"

definition name :: "'a option \<Rightarrow> 'a res" where
  "name v = (case v of None \<Rightarrow> Inl NameError | Some x \<Rightarrow> Inr x)"

definition lba_of :: "nat \<Rightarrow> nat \<Rightarrow> nat \<Rightarrow> nat \<Rightarrow> nat \<Rightarrow> nat" where
  "lba_of shift e5 e6 e8 e9 =
     (let lba1 = push_bit 16 e5 OR e6; lba2 = push_bit shift e8 OR e9 in push_bit 24 lba2 OR lba1)"

definition header_HtoD :: "nat \<Rightarrow> nat list \<Rightarrow> sata_header" where
  "header_HtoD dir e = empty_header\<lparr>h_type := RegisterFIS_HtoD,
     h_features := (e ! 0) OR push_bit 8 (e ! 7), h_command := e ! 1,
     h_C := drop_bit 7 ((e ! 2) AND 0x80), h_pm_port := (e ! 2) AND 0xf,
     h_lba := lba_of 16 (e ! 5) (e ! 6) (e ! 8) (e ! 9), h_count := e ! 12,
     h_tag := drop_bit 3 (e ! 12) AND 0x1f, h_direction := dir\<rparr>"

definition header_DtoH :: "nat \<Rightarrow> nat list \<Rightarrow> sata_header" where
  "header_DtoH dir e = empty_header\<lparr>h_type := RegisterFIS_DtoH, h_error := e ! 0, h_status := e ! 1,
     h_interrupt := drop_bit 6 ((e ! 2) AND 0x40), h_pm_port := (e ! 2) AND 0xf,
     h_lba := lba_of 16 (e ! 5) (e ! 6) (e ! 8) (e ! 9), h_count := e ! 11, h_direction := dir\<rparr>"

definition header_DMASetup :: "nat \<Rightarrow> nat list \<Rightarrow> sata_header" where
  "header_DMASetup dir e = empty_header\<lparr>h_type := DMASetupFIS,
     h_interrupt := drop_bit 6 ((e ! 2) AND 0x40),
     h_direction_bit := drop_bit 5 ((e ! 2) AND 0x20), h_direction := dir,
     h_pm_port := (e ! 2) AND 0xf, h_dma_buf_identifier_low := e ! 4,
     h_transfer_count := e ! 8\<rparr>"

definition header_PIOSetup :: "nat \<Rightarrow> nat list \<Rightarrow> sata_header" where
  "header_PIOSetup dir e = empty_header\<lparr>h_type := PIOSetupFIS, h_error := e ! 0, h_status := e ! 1,
     h_direction_bit := drop_bit 4 ((e ! 2) AND 0x10), h_direction := dir,
     h_pm_port := (e ! 2) AND 0xf,
     h_lba := lba_of 24 (e ! 5) (e ! 6) (e ! 8) (e ! 9), h_count := e ! 12,
     h_transfer_count := e ! 14\<rparr>"

definition header_SetDeviceBits :: "nat \<Rightarrow> nat list \<Rightarrow> sata_header" where
  "header_SetDeviceBits dir e = empty_header\<lparr>h_error := e ! 0, h_status_lo := (e ! 1) AND 7,
     h_interrupt := drop_bit 6 ((e ! 2) AND 0x40), h_pm_port := (e ! 2) AND 0xf,
     h_type := SetDeviceBitsFIS, h_direction := dir, h_proto := e ! 4\<rparr>"

text \<open>
  The branch of a message type: the format of its header and the dictionary built from the
  unpacked fields.  \<open>None\<close> is the \<^verbatim>\<open>else\<close> branch, an unknown type.
\<close>

definition sata_format :: "nat \<Rightarrow> (nat list \<times> (nat \<Rightarrow> nat list \<Rightarrow> sata_header)) option" where
  "sata_format message_type =
     (if message_type = 0x27 then Some ([1,1,1,1, 1,1,2, 1,1,2, 1,1,2, 4], header_HtoD)
      else if message_type = 0x34 then Some ([1,1,1,1, 1,1,2, 1,1,2, 2,2, 4], header_DtoH)
      else if message_type = 0x41 then Some ([1,1,1,1, 4,4,4,4,4,4], header_DMASetup)
      else if message_type = 0x5f then Some ([1,1,1,1, 1,1,2, 1,1,2, 1,1,2, 2,2], header_PIOSetup)
      else if message_type = 0x46 then
        Some ([1,1,1,1], \<lambda>dir e. empty_header\<lparr>h_type := DataFIS, h_direction := dir\<rparr>)
      else if message_type = 0x39 then
        Some ([2,1,1], \<lambda>dir e. empty_header\<lparr>h_pm_port := (e ! 1) AND 0xf, h_type := DMAActivateFIS,
                                             h_direction := dir\<rparr>)
      else if message_type = 0xa1 then Some ([1,1,1,1, 4], header_SetDeviceBits)
      else None)"

definition extract_sata_data :: "globals \<Rightarrow> bytes \<Rightarrow> (sata_header \<times> bytes option) option res" where
  "extract_sata_data g packet =
     (if length packet < 4 then Inr None
      else
        bindE (case sata_format (unat (packet ! 3)) of
                 None \<Rightarrow> Inr (empty_header, None)
               | Some (HEADER, build) \<Rightarrow>
                   bindE (extract_header HEADER packet) (\<lambda>(extracted, data).
                   bindE (name (g_direction g)) (\<lambda>dir.
                     Inr (build dir extracted, Some (flip_endianess data)))))
          (\<lambda>(hdr, data).
        bindE (name (g_lophi_seqn g)) (\<lambda>seqn.
          Inr (Some (hdr\<lparr>h_lophi_seqn := seqn\<rparr>, data)))))"

section \<open>Lemmas\<close>

lemma push_bit_OR:
  assumes "(b :: nat) < 2 ^ n"
  shows "push_bit n a OR b = a * 2 ^ n + b"
proof -
  from assms have "take_bit n b = b" by (simp add: take_bit_nat_eq_self)
  then have "push_bit n a AND b = 0"
    by (metis (no_types, lifting) bit_eqI bit_and_iff bit_push_bit_iff bit_take_bit_iff bit_0_eq
        bot_apply bot_bool_def not_le)
  then have "push_bit n a + b = push_bit n a OR b" by (rule disjunctive_add_eq_or)
  then show ?thesis by (simp add: push_bit_eq_mult)
qed

lemma AND_31_less [simp]: "(x :: nat) AND 31 < 32"
proof -
  have "x AND 31 = take_bit 5 x" by (simp add: take_bit_eq_mask mask_eq_exp_minus_1)
  then show ?thesis by (simp add: take_bit_eq_mod)
qed

lemma length_flip_endianess: "length (flip_endianess bs) = 4 * (length bs div 4)"
  by (induction bs rule: flip_endianess.induct) (auto simp: div_add_self1)

lemma flip_endianess_twice: "length bs mod 4 = 0 \<Longrightarrow> flip_endianess (flip_endianess bs) = bs"
  by (induction bs rule: flip_endianess.induct) auto

lemma flip_endianess_append:
  "length xs mod 4 = 0 \<Longrightarrow> flip_endianess (xs @ ys) = flip_endianess xs @ flip_endianess ys"
  by (induction xs rule: flip_endianess.induct) auto

lemma length_unpack_fields [simp]: "length (unpack_fields ws bs) = length ws"
  by (induction ws arbitrary: bs) auto

lemma nth_unpack_fields:
  "i < length ws \<Longrightarrow>
     unpack_fields ws bs ! i = be_val (take (ws ! i) (drop (sum_list (take i ws)) bs))"
proof (induction ws arbitrary: bs i)
  case (Cons w ws)
  then show ?case by (cases i) (auto simp: add.commute)
qed simp

lemma lba_of_eq:
  assumes "e5 < 256" "e6 < 65536" "e8 < 256" "e9 < 65536"
  shows "lba_of 16 e5 e6 e8 e9 = e8 * 2 ^ 40 + e9 * 2 ^ 24 + e5 * 2 ^ 16 + e6"
proof -
  have 1: "push_bit 16 e5 OR e6 = e5 * 2 ^ 16 + e6" "push_bit 16 e8 OR e9 = e8 * 2 ^ 16 + e9"
    using assms push_bit_OR [of e6 16 e5] push_bit_OR [of e9 16 e8] by simp_all
  have "e5 * 2 ^ 16 + e6 < 2 ^ 24" using assms by simp
  from push_bit_OR [OF this] show ?thesis by (simp add: lba_of_def Let_def 1)
qed

lemma be_val_single [simp]: "be_val [b] = unat b"
  by (simp add: be_val_def)

lemma be_val_append: "be_val (xs @ ys) = be_val xs * 256 ^ length ys + be_val ys"
proof -
  have le: "le_val (us @ vs) = le_val us + 256 ^ length us * le_val vs" for us vs
    by (induction us) (auto simp: algebra_simps)
  show ?thesis by (simp add: be_val_def le)
qed

lemma be_val_pair: "be_val [a, b] = unat a * 256 + unat b"
  using be_val_append [of "[a]" "[b]"] by simp

section \<open>Properties\<close>

text \<open>
  As the module stands, no frame of the physical sensor is ever decoded: a packet of fewer
  than four bytes gives \<^verbatim>\<open>None\<close>, and every other packet raises \<^verbatim>\<open>NameError\<close>, or
  \<^verbatim>\<open>struct.error\<close> when it is shorter than the header of its type.
\<close>

theorem extract_sata_data_never_decodes:
  "extract_sata_data module_globals packet =
     (if length packet < 4 then Inr None
      else case sata_format (unat (packet ! 3)) of
             None \<Rightarrow> Inl NameError
           | Some (HEADER, _) \<Rightarrow>
               if length packet < sum_list HEADER then Inl StructError else Inl NameError)"
  by (auto simp: extract_sata_data_def module_globals_def name_def extract_header_def unpack_net_def
      Let_def split: option.splits)

text \<open>
  With the two names bound, a host register frame decodes to the fields of the
  specification: the logical block address is the 48-bit number spread over bytes 9 to 11 and 5 to
  7, the sector count of a queued command is in bytes 8 and 0, and the tag is within the
  reconstructor's table.
\<close>

theorem extract_register_frame:
  assumes "20 \<le> length packet" and "unat (packet ! 3) = RegisterFIS_HtoD"
    and "g_direction g = Some dir" and "g_lophi_seqn g = Some seqn"
  shows "\<exists>h. extract_sata_data g packet = Inr (Some (h, Some (flip_endianess (drop 20 packet)))) \<and>
    h_type h = RegisterFIS_HtoD \<and> h_direction h = dir \<and> h_lophi_seqn h = seqn \<and>
    h_lba h = be_val [packet ! 9, packet ! 10, packet ! 11, packet ! 5, packet ! 6, packet ! 7] \<and>
    h_features h = be_val [packet ! 8, packet ! 0] \<and> h_command h = unat (packet ! 1) \<and>
    h_tag h < 32"
proof -
  define ws :: "nat list" where "ws = [1,1,1,1, 1,1,2, 1,1,2, 1,1,2, 4]"
  define e where "e = unpack_fields ws (take 20 packet)"
  have byte: "take 1 (drop i (take 20 packet)) = [packet ! i]" if "i < 20" for i
    using that assms(1) by (simp add: take_Suc_conv_app_nth hd_drop_conv_nth take_Suc)
  have pair: "take 2 (drop i (take 20 packet)) = [packet ! i, packet ! Suc i]" if "Suc i < 20" for i
    using that assms(1)
    by (simp add: numeral_2_eq_2 take_Suc_conv_app_nth)
  have e: "e ! 0 = unat (packet ! 0)" "e ! 1 = unat (packet ! 1)" "e ! 5 = unat (packet ! 5)"
    "e ! 6 = be_val [packet ! 6, packet ! 7]" "e ! 7 = unat (packet ! 8)"
    "e ! 8 = unat (packet ! 9)" "e ! 9 = be_val [packet ! 10, packet ! 11]"
    using byte [of 0] byte [of 1] byte [of 5] byte [of 8] byte [of 9] pair [of 6] pair [of 10]
    by (simp_all add: e_def ws_def nth_unpack_fields eval_nat_numeral)
  have bounds: "be_val [a, b] < 65536" for a b :: byte using be_val_bound [of "[a, b]"] by simp
  have feat: "unat (packet ! 0) OR push_bit 8 (unat (packet ! 8)) = be_val [packet ! 8, packet ! 0]"
    using push_bit_OR [of "unat (packet ! 0)" 8 "unat (packet ! 8)"]
    by (simp add: or.commute be_val_pair)
  have lba: "lba_of 16 (e ! 5) (e ! 6) (e ! 8) (e ! 9) =
      be_val [packet ! 9, packet ! 10, packet ! 11, packet ! 5, packet ! 6, packet ! 7]"
    unfolding e using be_val_append [of "[packet ! 9]" "[packet ! 10, packet ! 11, packet ! 5, packet ! 6, packet ! 7]"]
      be_val_append [of "[packet ! 10, packet ! 11]" "[packet ! 5, packet ! 6, packet ! 7]"]
      be_val_append [of "[packet ! 5]" "[packet ! 6, packet ! 7]"]
    by (simp add: lba_of_eq bounds)
  have "extract_sata_data g packet =
      Inr (Some ((header_HtoD dir e)\<lparr>h_lophi_seqn := seqn\<rparr>, Some (flip_endianess (drop 20 packet))))"
    using assms
    by (simp add: extract_sata_data_def sata_format_def extract_header_def unpack_net_def Let_def
        name_def e_def ws_def)
  then show ?thesis by (simp add: header_HtoD_def e e(2) [unfolded One_nat_def] feat lba [unfolded e] empty_header_def)
qed

theorem extract_register_frame_witness:
  "\<exists>h. extract_sata_data \<lparr>g_direction = Some 0, g_lophi_seqn = Some 5\<rparr>
      ([8, 0x60, 0x80, 0x27, 0x40, 1, 2, 3, 0, 0, 0, 0, 0, 0, 0, 0x18, 0, 0, 0, 0] @ [1, 2, 3, 4]) =
        Inr (Some (h, Some [4, 3, 2, 1])) \<and> h_lba h = 0x010203 \<and> h_features h = 8 \<and> h_tag h < 32"
proof -
  let ?p = "[8, 0x60, 0x80, 0x27, 0x40, 1, 2, 3, 0, 0, 0, 0, 0, 0, 0, 0x18, 0, 0, 0, 0] @ [1, 2, 3, 4] :: bytes"
  let ?g = "\<lparr>g_direction = Some 0, g_lophi_seqn = Some 5\<rparr>"
  have "20 \<le> length ?p" "unat (?p ! 3) = RegisterFIS_HtoD" "g_direction ?g = Some 0"
    "g_lophi_seqn ?g = Some 5"
    by simp_all
  from extract_register_frame [OF this] show ?thesis
    by (auto simp: be_val_def)
qed

text \<open>
  The byte swap of the payload is undone by a second swap, byte for byte, when the payload is
  a whole number of words; a trailing partial word is lost.
\<close>

theorem flip_endianess_involutive:
  "flip_endianess (flip_endianess bs) = take (4 * (length bs div 4)) bs"
proof -
  let ?n = "4 * (length bs div 4)"
  have "?n \<le> length bs" by simp
  then have mod: "length (take ?n bs) mod 4 = 0" by (simp add: min_absorb2)
  have "flip_endianess (drop ?n bs) = []"
  proof -
    have "length (drop ?n bs) < 4" by (simp add: minus_mult_div_eq_mod)
    then show ?thesis by (cases "drop ?n bs" rule: flip_endianess.cases) auto
  qed
  then have "flip_endianess bs = flip_endianess (take ?n bs)"
    using flip_endianess_append [OF mod, of "drop ?n bs"] by simp
  then show ?thesis using flip_endianess_twice [OF mod] by simp
qed

end
