(* ===== verification/SataReconstructor.thy ===== *)
theory SataReconstructor
  imports SataFrames
begin

text \<open>
  The state machine that turns the frames of a SATA link back into disk accesses:
  \<^verbatim>\<open>lophi_semanticgap/disk/sata_reconstructor.py\<close>.
\<close>

unbundle bit_operations_syntax

section \<open>State\<close>

record physical_packet =
  p_header :: sata_header
  p_data :: bytes

text \<open>
  \<^verbatim>\<open>DiskSensorPacket\<close>: the four packed fields, the raw data, and the attribute
  \<^verbatim>\<open>direction\<close> that \<^verbatim>\<open>handle_non_ncq_data_packet\<close> adds to it.
\<close>

record disk_sensor_packet =
  d_sector :: nat
  d_num_sectors :: nat
  d_disk_operation :: nat
  d_size :: nat
  d_data :: bytes
  d_direction :: "nat option"

datatype recon_state =
    DEVICE_IDLE | WAIT_FOR_REGISTER_ACK | WAIT_FOR_DMA_DATA_DEVICE | WAIT_FOR_DMA_DATA_HOST
  | WAIT_FOR_NON_NCQ_DATA

abbreviation (input) HOST_TO_DEVICE :: nat where "HOST_TO_DEVICE \<equiv> 0"
abbreviation (input) DEVICE_TO_HOST :: nat where "DEVICE_TO_HOST \<equiv> 1"

text \<open>Python lists used as stacks keep their top at the end, as in the code.\<close>

record recon =
  sector_size :: nat
  regular_register_stack :: "physical_packet list"
  regular_disk_sensor_packet :: "disk_sensor_packet option"
  ncq_register_stack :: "physical_packet list"
  ncq_dma_stack :: "physical_packet list"
  ncq_transactions_outstanding :: "physical_packet option list"
  ncq_data_outstanding :: "disk_sensor_packet option list"
  ncq_data_packets :: "physical_packet list"
  ncq_data_len :: nat
  last_packet_seqno :: "nat option"
  STATE :: recon_state
  num_errors :: nat
  total_frames :: nat

definition recon_init :: "nat \<Rightarrow> recon" where
  "recon_init ss =
     \<lparr>sector_size = ss, regular_register_stack = [], regular_disk_sensor_packet = None,
      ncq_register_stack = [], ncq_dma_stack = [],
      ncq_transactions_outstanding = replicate 32 None, ncq_data_outstanding = replicate 32 None,
      ncq_data_packets = [], ncq_data_len = 0, last_packet_seqno = None, STATE = DEVICE_IDLE,
      num_errors = 0, total_frames = 0\<rparr>"

type_synonym recon_result = "(recon \<times> disk_sensor_packet list option) res"

text \<open>The data of a frame without its checksum, \<^verbatim>\<open>sata_data[:-4]\<close>.\<close>

definition payload :: "physical_packet \<Rightarrow> bytes" where
  "payload p = take (length (p_data p) - 4) (p_data p)"

section \<open>Resets\<close>

definition reset_state :: "recon \<Rightarrow> recon" where
  "reset_state s = s\<lparr>last_packet_seqno := None, ncq_dma_stack := [],
     ncq_transactions_outstanding := replicate 32 None,
     ncq_data_outstanding := replicate 32 None,
     ncq_data_packets := [], ncq_data_len := 0, STATE := DEVICE_IDLE\<rparr>"

definition reset_ncq :: "recon \<Rightarrow> recon" where
  "reset_ncq s = s\<lparr>ncq_register_stack := [],
     ncq_transactions_outstanding := replicate 32 None,
     ncq_data_outstanding := replicate 32 None,
     ncq_dma_stack := [], ncq_data_packets := [], ncq_data_len := 0\<rparr>"

section \<open>Handlers\<close>

definition handle_set_device_bits :: "recon \<Rightarrow> physical_packet \<Rightarrow> recon_result" where
  "handle_set_device_bits s p =
     (let h = p_header p in
      if h_status_lo h AND 1 = 1 then Inr (reset_ncq s, None)
      else if h_interrupt h = 1 \<and> h_proto h = 0xffffffff then Inr (reset_ncq s, None)
      else if h_interrupt h = 1 \<and> h_proto h \<noteq> 0 then Inr (s, None)
      else Inr (s, None))"

definition new_disk_sensor_packet :: "nat \<Rightarrow> nat \<Rightarrow> nat \<Rightarrow> nat \<Rightarrow> disk_sensor_packet" where
  "new_disk_sensor_packet lba sector_count operation sz =
     \<lparr>d_sector = lba, d_num_sectors = sector_count, d_disk_operation = operation,
      d_size = sz, d_data = [], d_direction = None\<rparr>"

definition SATA_READ :: nat where "SATA_READ = 0"
definition SATA_WRITE :: nat where "SATA_WRITE = 1"

definition is_ncq_command :: "nat \<Rightarrow> bool" where
  "is_ncq_command c \<longleftrightarrow> c = ReadFPDMAQueued \<or> c = WriteFPDMAQueued"

text \<open>The packet that collects the data of a queued command.\<close>

definition ncq_request :: "nat \<Rightarrow> sata_header \<Rightarrow> disk_sensor_packet" where
  "ncq_request ss h =
     new_disk_sensor_packet (h_lba h) (h_features h)
       (if h_command h = WriteFPDMAQueued then SATA_WRITE else SATA_READ) (h_features h * ss)"

definition handle_register_HTD :: "recon \<Rightarrow> physical_packet \<Rightarrow> recon_result" where
  "handle_register_HTD s p =
     (let h = p_header p in
      if h_C h = 0 then Inr (s, None)
      else if is_ncq_command (h_command h) then
        bindE (index_at (ncq_transactions_outstanding s) (h_tag h)) (\<lambda>_.
          let s1 = s\<lparr>ncq_transactions_outstanding :=
                       (ncq_transactions_outstanding s)[h_tag h := Some p]\<rparr> in
          bindE (index_at (ncq_data_outstanding s1) (h_tag h)) (\<lambda>_.
            Inr (s1\<lparr>ncq_data_outstanding :=
                      (ncq_data_outstanding s1)[h_tag h := Some (ncq_request (sector_size s) h)]\<rparr>,
                 None)))
      else if h_command h = NCQQueueManagement then Inr (s, None)
      else
        Inr (s\<lparr>regular_register_stack := regular_register_stack s @ [p],
               regular_disk_sensor_packet :=
                 Some (new_disk_sensor_packet (h_lba h) (h_count h) (h_direction h)
                         (h_count h * sector_size s)),
               STATE := WAIT_FOR_NON_NCQ_DATA\<rparr>, None))"

definition handle_ncq_register_DTH :: "recon \<Rightarrow> physical_packet \<Rightarrow> recon_result" where
  "handle_ncq_register_DTH s p =
     Inr (if h_status (p_header p) AND 1 = 1 then reset_ncq s else s, None)"

definition handle_pio_setup :: "recon \<Rightarrow> physical_packet \<Rightarrow> recon_result" where
  "handle_pio_setup s p = Inr (s\<lparr>STATE := WAIT_FOR_NON_NCQ_DATA\<rparr>, None)"

definition handle_dma_setup :: "recon \<Rightarrow> physical_packet \<Rightarrow> recon_result" where
  "handle_dma_setup s p =
     (let s1 = s\<lparr>ncq_dma_stack := ncq_dma_stack s @ [p]\<rparr> in
      if h_direction_bit (p_header p) = HOST_TO_DEVICE
      then Inr (s1\<lparr>STATE := WAIT_FOR_DMA_DATA_HOST\<rparr>, None)
      else Inr (s1\<lparr>STATE := WAIT_FOR_DMA_DATA_DEVICE\<rparr>, None))"

text \<open>
  The end of a DMA transfer (lines 837 to 880): the queued frames are appended to the packet of
  the tag, the transfer is popped, and the packet is returned once it holds all the data the
  register frame announced.  A tag without a packet is the \<^verbatim>\<open>None.data\<close> of the code.
\<close>

definition finish_dma_transfer :: "recon \<Rightarrow> nat \<Rightarrow> recon_result" where
  "finish_dma_transfer s t =
     bindE (index_at (ncq_data_outstanding s) t) (\<lambda>slot.
       case slot of
         None \<Rightarrow> Inl AttributeError
       | Some d \<Rightarrow>
           let d1 = d\<lparr>d_data := d_data d @ concat (map payload (ncq_data_packets s))\<rparr>;
               s1 = s\<lparr>ncq_data_outstanding := (ncq_data_outstanding s)[t := Some d1],
                      ncq_data_len := 0, ncq_data_packets := [],
                      ncq_dma_stack := butlast (ncq_dma_stack s), STATE := DEVICE_IDLE\<rparr>
           in if length (d_data d1) \<ge> d_size d1
              then Inr (s1\<lparr>ncq_transactions_outstanding :=
                             (ncq_transactions_outstanding s1)[t := None],
                           ncq_data_outstanding := (ncq_data_outstanding s1)[t := None]\<rparr>,
                        Some [d1])
              else Inr (s1, None))"

definition handle_ncq_data_packet :: "recon \<Rightarrow> physical_packet \<Rightarrow> recon_result" where
  "handle_ncq_data_packet s p =
     (if ncq_dma_stack s \<noteq> [] then
        let su = p_header (last (ncq_dma_stack s));
            t = h_dma_buf_identifier_low su
        in bindE (index_at (ncq_transactions_outstanding s) t) (\<lambda>register_packet.
             case register_packet of
               None \<Rightarrow> Inr (s, None)
             | Some _ \<Rightarrow>
                 let s1 = s\<lparr>ncq_data_packets := ncq_data_packets s @ [p],
                            ncq_data_len := ncq_data_len s + length (payload p)\<rparr>
                 in if ncq_data_len s1 \<ge> h_transfer_count su
                    then finish_dma_transfer s1 t
                    else Inr (s1, None))
      else Inr (s, None))"

definition handle_non_ncq_data_packet :: "recon \<Rightarrow> physical_packet \<Rightarrow> recon_result" where
  "handle_non_ncq_data_packet s p =
     (if regular_register_stack s \<noteq> [] then
        case regular_disk_sensor_packet s of
          None \<Rightarrow> Inl AttributeError
        | Some d \<Rightarrow>
            let d1 = d\<lparr>d_data := d_data d @ payload p\<rparr>
            in if length (d_data d1) \<ge> d_size d1
               then Inr (s\<lparr>regular_disk_sensor_packet := None, STATE := DEVICE_IDLE\<rparr>,
                         Some [d1\<lparr>d_direction := Some (h_direction (p_header p))\<rparr>])
               else Inr (s\<lparr>regular_disk_sensor_packet := Some d1\<rparr>, None)
      else Inr (s, None))"

definition handle_unexpected_packet :: "recon \<Rightarrow> physical_packet \<Rightarrow> recon_result" where
  "handle_unexpected_packet s p =
     (let s1 = s\<lparr>num_errors := num_errors s + 1, STATE := DEVICE_IDLE\<rparr>;
          frame_type = h_type (p_header p)
      in if frame_type = RegisterFIS_HtoD then handle_register_HTD s1 p
         else if frame_type = DMASetupFIS then handle_dma_setup s1 p
         else Inr (s1, None))"

section \<open>Dispatch\<close>

text \<open>
  \<^verbatim>\<open>if self.last_packet_seqno:\<close> is false for \<^verbatim>\<open>None\<close> and for 0.
\<close>

definition check_seqno :: "recon \<Rightarrow> sata_header \<Rightarrow> recon" where
  "check_seqno s h =
     (case last_packet_seqno s of
        None \<Rightarrow> s\<lparr>last_packet_seqno := Some (h_lophi_seqn h)\<rparr>
      | Some l \<Rightarrow>
          if l = 0 then s\<lparr>last_packet_seqno := Some (h_lophi_seqn h)\<rparr>
          else if h_lophi_seqn h = (l + 1) mod 65536
               then s\<lparr>last_packet_seqno := Some (h_lophi_seqn h)\<rparr>
               else reset_state s)"

definition idle_frame :: "recon \<Rightarrow> physical_packet \<Rightarrow> recon_result" where
  "idle_frame s p =
     (let h = p_header p in
      if h_direction h = HOST_TO_DEVICE \<and> h_type h = RegisterFIS_HtoD then handle_register_HTD s p
      else if h_direction h = HOST_TO_DEVICE \<and> h_type h = DMASetupFIS then Inr (s, None)
      else if h_direction h = DEVICE_TO_HOST \<and> h_type h = DMASetupFIS then handle_dma_setup s p
      else Inr (s, None))"

definition register_ack_frame :: "recon \<Rightarrow> physical_packet \<Rightarrow> recon_result" where
  "register_ack_frame s p =
     (let h = p_header p in
      if h_direction h = DEVICE_TO_HOST \<and> h_type h = RegisterFIS_DtoH
      then handle_ncq_register_DTH s p
      else handle_unexpected_packet s p)"

text \<open>Both DMA states differ only in the direction the data has to come from.\<close>

definition dma_data_frame :: "nat \<Rightarrow> recon \<Rightarrow> physical_packet \<Rightarrow> recon_result" where
  "dma_data_frame dir s p =
     (let h = p_header p in
      if h_direction h = dir \<and> h_type h = DataFIS then handle_ncq_data_packet s p
      else if ncq_dma_stack s = [] then Inl IndexError
      else handle_unexpected_packet
             (s\<lparr>ncq_data_len := 0, ncq_data_packets := [],
                ncq_dma_stack := butlast (ncq_dma_stack s)\<rparr>) p)"

definition non_ncq_frame :: "recon \<Rightarrow> physical_packet \<Rightarrow> recon_result" where
  "non_ncq_frame s p =
     (if h_type (p_header p) = DataFIS then handle_non_ncq_data_packet s p
      else handle_unexpected_packet s p)"

definition state_frame :: "recon \<Rightarrow> physical_packet \<Rightarrow> recon_result" where
  "state_frame s p =
     (case STATE s of
        DEVICE_IDLE \<Rightarrow> idle_frame s p
      | WAIT_FOR_REGISTER_ACK \<Rightarrow> register_ack_frame s p
      | WAIT_FOR_DMA_DATA_DEVICE \<Rightarrow> dma_data_frame DEVICE_TO_HOST s p
      | WAIT_FOR_DMA_DATA_HOST \<Rightarrow> dma_data_frame HOST_TO_DEVICE s p
      | WAIT_FOR_NON_NCQ_DATA \<Rightarrow> non_ncq_frame s p)"

definition dispatch_frame :: "recon \<Rightarrow> physical_packet \<Rightarrow> recon_result" where
  "dispatch_frame s p =
     (let h = p_header p in
      if h_type h = DMAActivateFIS \<or> h_type h = BISTActivateFIS then Inr (s, None)
      else if h_type h = SetDeviceBitsFIS then handle_set_device_bits s p
      else if h_direction h = HOST_TO_DEVICE \<and> h_type h = RegisterFIS_HtoD
      then handle_register_HTD s p
      else if h_direction h = DEVICE_TO_HOST \<and> h_type h = RegisterFIS_DtoH
      then handle_ncq_register_DTH s p
      else if h_type h = PIOSetupFIS then handle_pio_setup s p
      else state_frame s p)"

text \<open>
  The debug messages of lines 120 to 133 look the frame type up in \<^verbatim>\<open>type_lookup\<close>, in every
  state and before anything else is done with the frame.
\<close>

definition process_packet :: "recon \<Rightarrow> physical_packet \<Rightarrow> recon_result" where
  "process_packet s p =
     (let s1 = s\<lparr>total_frames := total_frames s + 1\<rparr>; h = p_header p in
      if h_type h \<notin> set type_lookup then Inl KeyError
      else dispatch_frame (check_seqno s1 h) p)"

text \<open>
  The loop of \<^verbatim>\<open>DiskEngine.run\<close> over the frames of a physical machine: the packets handed to
  the semantic engine, in order.
\<close>

fun frame_loop ::
  "(recon \<Rightarrow> physical_packet \<Rightarrow> recon_result) \<Rightarrow> recon \<Rightarrow> physical_packet list \<Rightarrow>
     (recon \<times> disk_sensor_packet list) res" where
  "frame_loop handle s [] = Inr (s, [])"
| "frame_loop handle s (p # ps) =
     bindE (handle s p) (\<lambda>(s1, out).
     bindE (frame_loop handle s1 ps) (\<lambda>(s2, outs).
       Inr (s2, (case out of None \<Rightarrow> [] | Some ds \<Rightarrow> ds) @ outs)))"

definition recon_run :: "recon \<Rightarrow> physical_packet list \<Rightarrow> (recon \<times> disk_sensor_packet list) res" where
  "recon_run = frame_loop process_packet"

section \<open>Well-formed states\<close>

text \<open>
  Every tag has a packet exactly when it has a register frame, and that packet still waits for
  data (or is fresh); the byte counter agrees with the queued frames; queued frames belong to an
  open DMA transfer; an open regular transfer has its register frame on the stack; and the state
  that waits for a register acknowledgement is never entered.
\<close>

definition slot_ok :: "physical_packet option \<Rightarrow> disk_sensor_packet option \<Rightarrow> bool" where
  "slot_ok r d \<longleftrightarrow>
     (case d of None \<Rightarrow> r = None
      | Some x \<Rightarrow> r \<noteq> None \<and> (length (d_data x) < d_size x \<or> d_data x = []))"

definition recon_inv :: "recon \<Rightarrow> bool" where
  "recon_inv s \<longleftrightarrow>
     length (ncq_transactions_outstanding s) = 32 \<and>
     list_all2 slot_ok (ncq_transactions_outstanding s) (ncq_data_outstanding s) \<and>
     ncq_data_len s = length (concat (map payload (ncq_data_packets s))) \<and>
     (ncq_data_packets s \<noteq> [] \<longrightarrow> ncq_dma_stack s \<noteq> []) \<and>
     (regular_disk_sensor_packet s \<noteq> None \<longrightarrow> regular_register_stack s \<noteq> []) \<and>
     STATE s \<noteq> WAIT_FOR_REGISTER_ACK"

definition complete :: "disk_sensor_packet \<Rightarrow> bool" where
  "complete d \<longleftrightarrow> d_size d \<le> length (d_data d)"

definition outputs :: "disk_sensor_packet list option \<Rightarrow> disk_sensor_packet list" where
  "outputs out = (case out of None \<Rightarrow> [] | Some ds \<Rightarrow> ds)"

lemma outputs_simps [simp]: "outputs None = []" "outputs (Some ds) = ds"
  by (simp_all add: outputs_def)

lemma slot_ok_simps [simp]:
  "slot_ok None None"
  "slot_ok (Some p) (Some d) \<longleftrightarrow> length (d_data d) < d_size d \<or> d_data d = []"
  "\<not> slot_ok None (Some d)"
  "\<not> slot_ok (Some p) None"
  by (simp_all add: slot_ok_def)

lemma slots_empty [simp]: "list_all2 slot_ok (replicate n None) (replicate n None)"
  by (simp add: list_all2_conv_all_nth)

lemma slots_update:
  "list_all2 slot_ok rs ds \<Longrightarrow> slot_ok r d \<Longrightarrow> list_all2 slot_ok (rs[t := r]) (ds[t := d])"
  by (rule list_all2_update_cong)

lemma slots_update_data:
  assumes "list_all2 slot_ok rs ds" and "t < length rs" and "slot_ok (rs ! t) d"
  shows "list_all2 slot_ok rs (ds[t := d])"
  using slots_update [OF assms(1,3), of t] by simp

lemma slots_same_length: "list_all2 slot_ok rs ds \<Longrightarrow> length ds = length rs"
  by (simp add: list_all2_lengthD)

lemma slots_nth: "list_all2 slot_ok rs ds \<Longrightarrow> t < length rs \<Longrightarrow> slot_ok (rs ! t) (ds ! t)"
  by (rule list_all2_nthD)

text \<open>
  The contract every frame handler keeps: it preserves well-formed states, it hands on complete
  packets only, and it never forgets a regular register frame.
\<close>

locale frame_handler =
  fixes handle :: "recon \<Rightarrow> physical_packet \<Rightarrow> recon_result"
  assumes keeps_inv: "recon_inv s \<Longrightarrow> handle s p = Inr (s', out) \<Longrightarrow> recon_inv s'"
    and emits_complete: "handle s p = Inr (s', out) \<Longrightarrow> list_all complete (outputs out)"
    and keeps_stack: "handle s p = Inr (s', out) \<Longrightarrow>
      length (regular_register_stack s) \<le> length (regular_register_stack s')"
begin

lemma loop_keeps_inv:
  "recon_inv s \<Longrightarrow> frame_loop handle s ps = Inr (s', outs) \<Longrightarrow> recon_inv s'"
proof (induction ps arbitrary: s outs)
  case (Cons p ps)
  then show ?case using keeps_inv by (fastforce simp: res_simps)
qed simp

lemma loop_emits_complete:
  "frame_loop handle s ps = Inr (s', outs) \<Longrightarrow> list_all complete outs"
proof (induction ps arbitrary: s outs)
  case (Cons p ps)
  then show ?case using emits_complete by (fastforce simp: res_simps outputs_def)
qed simp

lemma loop_keeps_stack:
  "frame_loop handle s ps = Inr (s', outs) \<Longrightarrow>
     length (regular_register_stack s) \<le> length (regular_register_stack s')"
proof (induction ps arbitrary: s outs)
  case (Cons p ps)
  then show ?case using keeps_stack by (fastforce simp: res_simps intro: order_trans)
qed simp

end

lemma recon_inv_init [simp]: "recon_inv (recon_init ss)"
  by (simp add: recon_inv_def recon_init_def)

lemma recon_inv_reset_state [simp]: "recon_inv s \<Longrightarrow> recon_inv (reset_state s)"
  by (simp add: recon_inv_def reset_state_def)

lemma recon_inv_reset_ncq [simp]: "recon_inv s \<Longrightarrow> recon_inv (reset_ncq s)"
  by (simp add: recon_inv_def reset_ncq_def)

lemma recon_inv_check_seqno [simp]: "recon_inv s \<Longrightarrow> recon_inv (check_seqno s h)"
  by (auto simp: recon_inv_def check_seqno_def reset_state_def split: option.splits)

lemma reset_stack [simp]:
  "regular_register_stack (reset_ncq s) = regular_register_stack s"
  "regular_register_stack (reset_state s) = regular_register_stack s"
  "regular_register_stack (check_seqno s h) = regular_register_stack s"
  by (auto simp: reset_ncq_def reset_state_def check_seqno_def split: option.splits)

interpretation set_device_bits: frame_handler handle_set_device_bits
  by unfold_locales (auto simp: handle_set_device_bits_def Let_def split: if_splits)

interpretation register_HTD: frame_handler handle_register_HTD
proof
  fix s p s' out
  assume "recon_inv s" and "handle_register_HTD s p = Inr (s', out)"
  then show "recon_inv s'"
    by (auto simp: handle_register_HTD_def Let_def recon_inv_def index_at_def ncq_request_def
          new_disk_sensor_packet_def res_simps intro!: slots_update split: if_splits)
qed (auto simp: handle_register_HTD_def Let_def index_at_def res_simps split: if_splits)

interpretation register_DTH: frame_handler handle_ncq_register_DTH
  by unfold_locales (auto simp: handle_ncq_register_DTH_def split: if_splits)

interpretation pio_setup: frame_handler handle_pio_setup
  by unfold_locales (auto simp: handle_pio_setup_def recon_inv_def)

interpretation dma_setup: frame_handler handle_dma_setup
  by unfold_locales (auto simp: handle_dma_setup_def recon_inv_def Let_def split: if_splits)

lemma slots_extend:
  assumes "list_all2 slot_ok rs ds" and "t < length ds" and "ds ! t = Some d"
    and "length (d_data d') < d_size d'"
  shows "list_all2 slot_ok rs (ds[t := Some d'])"
proof -
  from assms(1,2) have len: "t < length rs" by (simp add: slots_same_length)
  from slots_nth [OF assms(1) len] assms(3) obtain r where "rs ! t = Some r"
    by (cases "rs ! t") auto
  with assms(1,4) len show ?thesis by (simp add: slots_update_data)
qed

lemma finish_dma_transfer_inv:
  assumes "recon_inv s" and "finish_dma_transfer s t = Inr (s', out)"
  shows "recon_inv s'"
  using assms
  by (auto simp: finish_dma_transfer_def Let_def recon_inv_def index_at_def res_simps not_le
        intro!: slots_update slots_extend split: if_splits option.splits)

interpretation ncq_data: frame_handler handle_ncq_data_packet
proof
  fix s p s' out
  assume inv: "recon_inv s" and h: "handle_ncq_data_packet s p = Inr (s', out)"
  let ?s1 = "s\<lparr>ncq_data_packets := ncq_data_packets s @ [p],
               ncq_data_len := ncq_data_len s + length (payload p)\<rparr>"
  from inv have inv1: "ncq_dma_stack s \<noteq> [] \<Longrightarrow> recon_inv ?s1" by (auto simp: recon_inv_def)
  from h inv inv1 finish_dma_transfer_inv [OF inv1] show "recon_inv s'"
    by (auto simp: handle_ncq_data_packet_def Let_def res_simps split: if_splits option.splits)
qed (auto simp: handle_ncq_data_packet_def finish_dma_transfer_def Let_def res_simps complete_def
      split: if_splits option.splits)

interpretation non_ncq_data: frame_handler handle_non_ncq_data_packet
  by unfold_locales
    (auto simp: handle_non_ncq_data_packet_def recon_inv_def Let_def complete_def
      split: if_splits option.splits)

interpretation unexpected: frame_handler handle_unexpected_packet
proof
  fix s p s' out
  assume inv: "recon_inv s" and h: "handle_unexpected_packet s p = Inr (s', out)"
  from inv have "recon_inv (s\<lparr>num_errors := num_errors s + 1, STATE := DEVICE_IDLE\<rparr>)"
    by (simp add: recon_inv_def)
  with h show "recon_inv s'"
    by (auto simp: handle_unexpected_packet_def Let_def split: if_splits
        dest: register_HTD.keeps_inv dma_setup.keeps_inv)
next
  fix s p s' out
  assume h: "handle_unexpected_packet s p = Inr (s', out)"
  then show "list_all complete (outputs out)"
    by (auto simp: handle_unexpected_packet_def Let_def split: if_splits
        dest: register_HTD.emits_complete dma_setup.emits_complete)
  from h show "length (regular_register_stack s) \<le> length (regular_register_stack s')"
    by (auto simp: handle_unexpected_packet_def Let_def split: if_splits
        dest: register_HTD.keeps_stack dma_setup.keeps_stack)
qed

lemmas handlers_keep_inv =
  set_device_bits.keeps_inv register_HTD.keeps_inv register_DTH.keeps_inv pio_setup.keeps_inv
  dma_setup.keeps_inv ncq_data.keeps_inv non_ncq_data.keeps_inv unexpected.keeps_inv
lemmas handlers_emit_complete =
  set_device_bits.emits_complete register_HTD.emits_complete register_DTH.emits_complete
  pio_setup.emits_complete dma_setup.emits_complete ncq_data.emits_complete
  non_ncq_data.emits_complete unexpected.emits_complete
lemmas handlers_keep_stack =
  set_device_bits.keeps_stack register_HTD.keeps_stack register_DTH.keeps_stack
  pio_setup.keeps_stack dma_setup.keeps_stack ncq_data.keeps_stack non_ncq_data.keeps_stack
  unexpected.keeps_stack
lemmas state_dispatch_defs =
  state_frame_def idle_frame_def register_ack_frame_def dma_data_frame_def non_ncq_frame_def

lemma recon_inv_drop_transfer:
  "recon_inv s \<Longrightarrow>
     recon_inv (s\<lparr>ncq_data_len := 0, ncq_data_packets := [], ncq_dma_stack := butlast st\<rparr>)"
  by (simp add: recon_inv_def)

interpretation state_dispatch: frame_handler state_frame
proof
  fix s p s' out
  assume "recon_inv s" and "state_frame s p = Inr (s', out)"
  then show "recon_inv s'"
    by (auto simp: state_dispatch_defs Let_def split: if_splits recon_state.splits
        dest: handlers_keep_inv unexpected.keeps_inv [OF recon_inv_drop_transfer])
next
  fix s p s' out
  assume h: "state_frame s p = Inr (s', out)"
  then show "list_all complete (outputs out)"
    by (auto simp: state_dispatch_defs Let_def split: if_splits recon_state.splits
        dest: handlers_emit_complete)
  from h show "length (regular_register_stack s) \<le> length (regular_register_stack s')"
    by (auto simp: state_dispatch_defs Let_def split: if_splits recon_state.splits
        dest: handlers_keep_stack)
qed

interpretation dispatch: frame_handler dispatch_frame
  by unfold_locales
    (auto simp: dispatch_frame_def Let_def split: if_splits
      dest: handlers_keep_inv handlers_emit_complete handlers_keep_stack
        state_dispatch.keeps_inv state_dispatch.emits_complete state_dispatch.keeps_stack)

lemma recon_inv_count_frame [simp]: "recon_inv (s\<lparr>total_frames := n\<rparr>) = recon_inv s"
  by (simp add: recon_inv_def)

interpretation packet: frame_handler process_packet
  by unfold_locales
    (auto simp: process_packet_def Let_def split: if_splits
      dest: dispatch.keeps_inv [rotated] dispatch.emits_complete dispatch.keeps_stack)

section \<open>When a frame raises\<close>

text \<open>
  The frames that \<^verbatim>\<open>process_packet\<close> cannot handle, read off the state after the sequence
  check: an unknown type; in a DMA state, anything but the expected data once the DMA stack has
  been emptied, or data for a tag outside the table; in the regular state, data after the packet
  was handed on.
\<close>

definition passes_by :: "sata_header \<Rightarrow> bool" where
  "passes_by h \<longleftrightarrow>
     h_type h \<in> {DMAActivateFIS, BISTActivateFIS, SetDeviceBitsFIS, PIOSetupFIS} \<or>
     h_direction h = HOST_TO_DEVICE \<and> h_type h = RegisterFIS_HtoD \<or>
     h_direction h = DEVICE_TO_HOST \<and> h_type h = RegisterFIS_DtoH"

definition dma_fault :: "nat \<Rightarrow> recon \<Rightarrow> sata_header \<Rightarrow> py_error option" where
  "dma_fault dir s h =
     (if h_direction h = dir \<and> h_type h = DataFIS then
        if ncq_dma_stack s \<noteq> [] \<and>
           32 \<le> h_dma_buf_identifier_low (p_header (last (ncq_dma_stack s)))
        then Some IndexError else None
      else if ncq_dma_stack s = [] then Some IndexError else None)"

definition fault :: "recon \<Rightarrow> physical_packet \<Rightarrow> py_error option" where
  "fault s p =
     (let h = p_header p; t = check_seqno s h in
      if h_type h \<notin> set type_lookup then Some KeyError
      else if passes_by h then None
      else case STATE t of
             WAIT_FOR_DMA_DATA_DEVICE \<Rightarrow> dma_fault DEVICE_TO_HOST t h
           | WAIT_FOR_DMA_DATA_HOST \<Rightarrow> dma_fault HOST_TO_DEVICE t h
           | WAIT_FOR_NON_NCQ_DATA \<Rightarrow>
               if h_type h = DataFIS \<and> regular_register_stack t \<noteq> [] \<and>
                  regular_disk_sensor_packet t = None
               then Some AttributeError else None
           | _ \<Rightarrow> None)"

lemma recon_inv_lengths:
  "recon_inv s \<Longrightarrow> length (ncq_transactions_outstanding s) = 32"
  "recon_inv s \<Longrightarrow> length (ncq_data_outstanding s) = 32"
  by (auto simp: recon_inv_def dest: slots_same_length)

lemma register_HTD_returns:
  "recon_inv s \<Longrightarrow> h_tag (p_header p) < 32 \<Longrightarrow> handle_register_HTD s p \<noteq> Inl e"
  by (auto simp: handle_register_HTD_def Let_def index_at_def recon_inv_lengths)

lemma unexpected_returns:
  assumes "recon_inv s" and "h_tag (p_header p) < 32"
  shows "handle_unexpected_packet s p \<noteq> Inl e"
proof -
  from assms(1) have "recon_inv (s\<lparr>num_errors := num_errors s + 1, STATE := DEVICE_IDLE\<rparr>)"
    by (simp add: recon_inv_def)
  then show ?thesis using assms(2)
    by (auto simp: handle_unexpected_packet_def handle_dma_setup_def Let_def
        dest: register_HTD_returns)
qed

lemma finish_dma_transfer_returns:
  assumes "recon_inv s" and "t < 32" and "ncq_transactions_outstanding s ! t = Some r"
  shows "finish_dma_transfer s t \<noteq> Inl e"
proof -
  from assms(1) have "list_all2 slot_ok (ncq_transactions_outstanding s) (ncq_data_outstanding s)"
    by (simp add: recon_inv_def)
  from slots_nth [OF this, of t] assms
  obtain d where "ncq_data_outstanding s ! t = Some d"
    by (cases "ncq_data_outstanding s ! t") (auto simp: recon_inv_lengths)
  then show ?thesis using assms(1,2)
    by (simp add: finish_dma_transfer_def index_at_def recon_inv_lengths Let_def)
qed

lemma ncq_data_raises:
  assumes inv: "recon_inv s"
  shows "handle_ncq_data_packet s p = Inl e \<longleftrightarrow>
    e = IndexError \<and> ncq_dma_stack s \<noteq> [] \<and>
    32 \<le> h_dma_buf_identifier_low (p_header (last (ncq_dma_stack s)))"
proof (cases "ncq_dma_stack s = []")
  case True
  then show ?thesis by (simp add: handle_ncq_data_packet_def)
next
  case False
  let ?t = "h_dma_buf_identifier_low (p_header (last (ncq_dma_stack s)))"
  let ?s1 = "s\<lparr>ncq_data_packets := ncq_data_packets s @ [p],
               ncq_data_len := ncq_data_len s + length (payload p)\<rparr>"
  from inv False have "recon_inv ?s1" by (auto simp: recon_inv_def)
  then have "?t < 32 \<Longrightarrow> ncq_transactions_outstanding s ! ?t = Some r \<Longrightarrow>
      finish_dma_transfer ?s1 ?t \<noteq> Inl e" for r
    using finish_dma_transfer_returns [of ?s1] by simp
  then show ?thesis using inv False
    by (auto simp: handle_ncq_data_packet_def Let_def index_at_def recon_inv_lengths
        split: option.splits)
qed

lemma dma_data_frame_raises:
  assumes "recon_inv s" and "h_tag (p_header p) < 32"
  shows "dma_data_frame dir s p = Inl e \<longleftrightarrow> dma_fault dir s (p_header p) = Some e"
  using unexpected_returns [OF recon_inv_drop_transfer [OF assms(1)] assms(2)] assms(1)
  by (auto simp: dma_data_frame_def dma_fault_def Let_def ncq_data_raises)

lemma non_ncq_frame_raises:
  assumes "recon_inv s" and "h_tag (p_header p) < 32"
  shows "non_ncq_frame s p = Inl e \<longleftrightarrow>
    e = AttributeError \<and> h_type (p_header p) = DataFIS \<and> regular_register_stack s \<noteq> [] \<and>
    regular_disk_sensor_packet s = None"
  using unexpected_returns [OF assms]
  by (auto simp: non_ncq_frame_def handle_non_ncq_data_packet_def Let_def split: option.splits)

lemma idle_frame_returns:
  assumes "recon_inv s" and "h_tag (p_header p) < 32"
  shows "idle_frame s p \<noteq> Inl e"
  using register_HTD_returns [OF assms]
  by (auto simp: idle_frame_def handle_dma_setup_def Let_def)

lemma passing_frame_returns:
  assumes "recon_inv s" and "h_tag (p_header p) < 32" and "passes_by (p_header p)"
  shows "dispatch_frame s p \<noteq> Inl e"
  using register_HTD_returns [OF assms(1,2)] assms(3)
  by (auto simp: dispatch_frame_def passes_by_def handle_set_device_bits_def
      handle_ncq_register_DTH_def handle_pio_setup_def Let_def)

lemma not_passing_dispatch:
  "\<not> passes_by (p_header p) \<Longrightarrow> dispatch_frame s p = state_frame s p"
  by (auto simp: dispatch_frame_def passes_by_def Let_def)

lemma check_seqno_count_frame:
  "check_seqno (s\<lparr>total_frames := n\<rparr>) h = (check_seqno s h)\<lparr>total_frames := n\<rparr>"
  by (simp add: check_seqno_def reset_state_def split: option.split)

lemma dma_fault_count_frame [simp]: "dma_fault dir (s\<lparr>total_frames := n\<rparr>) h = dma_fault dir s h"
  by (simp add: dma_fault_def)

lemma process_packet_raises:
  assumes inv: "recon_inv s" and tag: "h_tag (p_header p) < 32"
  shows "process_packet s p = Inl e \<longleftrightarrow> fault s p = Some e"
proof -
  let ?t = "(check_seqno s (p_header p))\<lparr>total_frames := total_frames s + 1\<rparr>"
  from inv have t: "recon_inv ?t" by simp
  then have "STATE ?t \<noteq> WAIT_FOR_REGISTER_ACK" by (simp add: recon_inv_def)
  then have "state_frame ?t p = Inl e \<longleftrightarrow>
    (case STATE ?t of
       WAIT_FOR_DMA_DATA_DEVICE \<Rightarrow> dma_fault DEVICE_TO_HOST ?t (p_header p) = Some e
     | WAIT_FOR_DMA_DATA_HOST \<Rightarrow> dma_fault HOST_TO_DEVICE ?t (p_header p) = Some e
     | WAIT_FOR_NON_NCQ_DATA \<Rightarrow>
         e = AttributeError \<and> h_type (p_header p) = DataFIS \<and> regular_register_stack ?t \<noteq> [] \<and>
         regular_disk_sensor_packet ?t = None
     | _ \<Rightarrow> False)"
    using dma_data_frame_raises [OF t tag] non_ncq_frame_raises [OF t tag]
      idle_frame_returns [OF t tag]
    by (simp add: state_frame_def split: recon_state.split)
  then show ?thesis using passing_frame_returns [OF t tag]
    by (auto simp: process_packet_def fault_def Let_def check_seqno_count_frame
        not_passing_dispatch split: recon_state.splits if_splits)
qed

end
