(* ===== verification/DiskEngine.thy ===== *)
theory DiskEngine
  imports NtfsProperties SataReconstructor
begin

text \<open>
  The semantic engine of a disk, \<^verbatim>\<open>SemanticEngineDisk\<close> of \<^verbatim>\<open>disk/filesystem_reconstructor.py\<close>: it finds the volume of
  a sector and asks it for the operations.  \<^verbatim>\<open>DiskEngine.parse_actions\<close> of \<^verbatim>\<open>disk/__init__.py\<close> joins operations on
  adjacent sectors and makes the rows of the report; the loop of \<^verbatim>\<open>DiskEngine.run\<close> ties them to the packets.
\<close>

section \<open>Binary search\<close>

text \<open>\<^verbatim>\<open>bisect.bisect(a, x)\<close>: the loop with its two bounds.\<close>

function bisect_loop :: "int list \<Rightarrow> int \<Rightarrow> nat \<Rightarrow> nat \<Rightarrow> nat" where
  "bisect_loop a x lo hi =
     (if lo < hi then
        let mid = (lo + hi) div 2 in
        if x < a ! mid then bisect_loop a x lo mid else bisect_loop a x (mid + 1) hi
      else lo)"
  by pat_completeness auto
termination
  by (relation "measure (\<lambda>(a, x, lo, hi). hi - lo)") auto

declare bisect_loop.simps [simp del]

definition bisect :: "int list \<Rightarrow> int \<Rightarrow> nat" where
  "bisect a x = bisect_loop a x 0 (length a)"

lemma bisect_loop_spec:
  assumes "sorted a" and "lo \<le> hi" and "hi \<le> length a"
    and "\<And>i. i < lo \<Longrightarrow> a ! i \<le> x" and "\<And>i. hi \<le> i \<Longrightarrow> i < length a \<Longrightarrow> x < a ! i"
  shows "bisect_loop a x lo hi \<le> length a \<and> (\<forall>i < length a. i < bisect_loop a x lo hi \<longleftrightarrow> a ! i \<le> x)"
  using assms
proof (induction a x lo hi rule: bisect_loop.induct)
  case (1 a x lo hi)
  define mid where "mid = (lo + hi) div 2"
  have mono: "i \<le> j \<Longrightarrow> j < length a \<Longrightarrow> a ! i \<le> a ! j" for i j using 1(3) by (simp add: sorted_nth_mono)
  show ?case
  proof (cases "lo < hi")
    case True
    then have mid: "lo \<le> mid" "mid < hi" by (auto simp: mid_def)
    have "x < a ! i" if "x < a ! mid" "mid \<le> i" "i < length a" for i using that mono [of mid i] by simp
    moreover have "a ! i \<le> x" if "\<not> x < a ! mid" "i < mid + 1" for i using that mono [of i mid] mid 1(5) by simp
    ultimately show ?thesis
      using 1(1) [OF True mid_def] 1(2) [OF True mid_def] 1(3-7) True mid
      by (subst (1 2) bisect_loop.simps) (simp add: Let_def mid_def [symmetric])
  next
    case False
    then have "lo = hi" using 1(4) by simp
    then have "bisect_loop a x lo hi = lo" by (simp add: bisect_loop.simps)
    then show ?thesis using 1(5-7) \<open>lo = hi\<close> by (auto simp: not_less) (meson leD not_le)
  qed
qed

lemma bisect_spec: "sorted a \<Longrightarrow> bisect a x \<le> length a \<and> (\<forall>i < length a. i < bisect a x \<longleftrightarrow> a ! i \<le> x)"
  unfolding bisect_def by (rule bisect_loop_spec) auto

section \<open>Volumes\<close>

text \<open>The engine of a volume: none, one whose file system could not be opened, or one with its tables.\<close>

datatype engine = NoEngine | NoFileSystem | NTFS volume

record disk_volume =
  vol_start :: int
  vol_desc :: string
  vol_to_se :: engine

text \<open>\<^verbatim>\<open>add_volume\<close>: only the two descriptions of NTFS get an engine.\<close>

definition add_volume :: "tsk \<Rightarrow> int \<Rightarrow> bytes \<Rightarrow> int \<times> string \<Rightarrow> disk_volume res" where
  "add_volume T SECTOR img vol =
     (case vol of (start, desc) \<Rightarrow>
        if desc = ''NTFS / exFAT (0x07)'' \<or> desc = ''NTFS (0x07)'' then
          bindE (volume_init T SECTOR start img) (\<lambda>v.
            Inr \<lparr>vol_start = start, vol_desc = desc,
                 vol_to_se = (case v of None \<Rightarrow> NoFileSystem | Some v1 \<Rightarrow> NTFS v1)\<rparr>)
        else Inr \<lparr>vol_start = start, vol_desc = desc, vol_to_se = NoEngine\<rparr>)"

definition disk_init :: "tsk \<Rightarrow> int \<Rightarrow> bytes \<Rightarrow> (int \<times> string) list \<Rightarrow> disk_volume list res" where
  "disk_init T SECTOR img vols = mapE (add_volume T SECTOR img) vols"

text \<open>\<^verbatim>\<open>_get_volume\<close>, as a position in the list of volumes: position -1 is the last one.\<close>

definition get_volume :: "disk_volume list \<Rightarrow> int \<Rightarrow> nat option res" where
  "get_volume VOLUMES sector =
     (let idx = bisect (map vol_start VOLUMES) sector in
      if length VOLUMES < idx then Inr None
      else if idx = 0 then (if VOLUMES = [] then Inl IndexError else Inr (Some (length VOLUMES - 1)))
      else Inr (Some (idx - 1)))"

text \<open>
  The access at the engine of the volume.  On an engine without tables the first look at one raises, which only
  a read of no sectors avoids.
\<close>

definition disk_get_access ::
  "tsk \<Rightarrow> int \<Rightarrow> int \<Rightarrow> nat \<Rightarrow> bytes \<Rightarrow> (disk_volume list, fs_operation list option) pymethod" where
  "disk_get_access T sector sector_count direction data VOLUMES =
     (case get_volume VOLUMES sector of
        Inl e \<Rightarrow> (Inl e, VOLUMES)
      | Inr None \<Rightarrow> (Inr None, VOLUMES)
      | Inr (Some i) \<Rightarrow>
          case vol_to_se (VOLUMES ! i) of
            NoEngine \<Rightarrow> (Inr None, VOLUMES)
          | NoFileSystem \<Rightarrow>
              (if direction = DIRECTION_WRITE \<or> 0 < sector_count then Inl AttributeError else Inr (Some []), VOLUMES)
          | NTFS SE \<Rightarrow>
              case get_access T sector sector_count direction data SE of
                (r, SE') \<Rightarrow> (map_sum id Some r, VOLUMES[i := (VOLUMES ! i)\<lparr>vol_to_se := NTFS SE'\<rparr>]))"

text \<open>\<^verbatim>\<open>get_error_logs\<close> asks every volume, also one without an engine; volumes of one description share an entry.\<close>

definition get_error_logs :: "disk_volume list \<Rightarrow> (string \<rightharpoonup> fs_error list option) res" where
  "get_error_logs VOLUMES =
     bindE (mapE (\<lambda>v. case vol_to_se v of
         NoEngine \<Rightarrow> Inl AttributeError
       | NoFileSystem \<Rightarrow> Inr (vol_desc v, None)
       | NTFS SE \<Rightarrow> Inr (vol_desc v, if error_log SE = [] then None else Some (error_log SE))) VOLUMES)
       (\<lambda>logs. Inr (map_of (rev logs)))"

section \<open>Joining and reporting operations\<close>

fun join_actions :: "fs_operation list \<Rightarrow> fs_operation \<Rightarrow> int \<Rightarrow> fs_operation list \<Rightarrow> fs_operation list" where
  "join_actions [] current_action last_sector actions = actions @ [current_action]"
| "join_actions (o1 # ops) current_action last_sector actions =
     (if op_inode o1 = op_inode current_action \<and> op_sector o1 = last_sector + 1 then
        join_actions ops (current_action\<lparr>raw_data := raw_data current_action @ raw_data o1\<rparr>) (last_sector + 1) actions
      else join_actions ops o1 (op_sector o1) (actions @ [current_action]))"

definition aggregate :: "fs_operation list \<Rightarrow> fs_operation list" where
  "aggregate ops = (case ops of [] \<Rightarrow> [] | o1 # rest \<Rightarrow> join_actions rest o1 (op_sector o1) [])"

text \<open>
  A row of the report: time stamp, operation, file name, sector, text.  \<open>strftime\<close> formats a local time and
  \<open>key_order\<close> is the order in which a dictionary lists its keys.
\<close>

type_synonym row = "int \<times> string \<times> string option \<times> int \<times> string"

fun value_str :: "mval \<Rightarrow> string" where
  "value_str (MInt i) = int_str i"
| "value_str (MStr None) = ''None''"
| "value_str (MStr (Some s)) = s"

definition change_text :: "(int \<Rightarrow> string) \<Rightarrow> string \<Rightarrow> mval \<Rightarrow> string" where
  "change_text strftime change v =
     (case v of MInt i \<Rightarrow> if change \<in> {''atime'', ''mtime'', ''ctime''} then strftime i else value_str v | _ \<Rightarrow> value_str v)"

definition change_rows ::
  "(int \<Rightarrow> string) \<Rightarrow> (string list \<Rightarrow> string list) \<Rightarrow> int \<Rightarrow> fs_operation \<Rightarrow> sem_data \<Rightarrow> row list" where
  "change_rows strftime key_order timestamp action sd =
     concat (map (\<lambda>change. case map_of (sd_changes sd) change of
         None \<Rightarrow> []
       | Some (new, old) \<Rightarrow>
           [(timestamp, ''['' @ upper change @ '' MODIFIED]'', sd_filename sd, op_sector action,
             change_text strftime change old @ '' -> '' @ change_text strftime change new)])
       (key_order (map fst (sd_changes sd))))"

definition action_rows ::
  "(int \<Rightarrow> string) \<Rightarrow> (string list \<Rightarrow> string list) \<Rightarrow> int \<Rightarrow> fs_operation \<Rightarrow> row list" where
  "action_rows strftime key_order timestamp action =
     (timestamp, op_type action, Some (op_filename action), op_sector action, []) #
     concat (map (change_rows strftime key_order timestamp action) (semantic_data action))"

definition parse_actions ::
  "(int \<Rightarrow> string) \<Rightarrow> (string list \<Rightarrow> string list) \<Rightarrow> int \<Rightarrow> fs_operation list option \<Rightarrow> row list option" where
  "parse_actions strftime key_order timestamp fs_operations =
     (case fs_operations of
        None \<Rightarrow> None
      | Some ops \<Rightarrow> if ops = [] then None
                    else Some (concat (map (action_rows strftime key_order timestamp) (aggregate ops))))"

section \<open>The loop over packets\<close>

text \<open>
  The body of \<^verbatim>\<open>DiskEngine.run\<close> for the packets that one frame completed: each is looked up and reported; what
  raises is logged and the next packet is handled, on the state that the exception left.
\<close>

fun report_packets ::
  "tsk \<Rightarrow> (int \<Rightarrow> string) \<Rightarrow> (string list \<Rightarrow> string list) \<Rightarrow> int \<Rightarrow> disk_sensor_packet list \<Rightarrow>
   disk_volume list \<Rightarrow> row list list \<times> disk_volume list" where
  "report_packets T strftime key_order now [] VOLUMES = ([], VOLUMES)"
| "report_packets T strftime key_order now (dsp # dsps) VOLUMES =
     (case disk_get_access T (int (d_sector dsp)) (int (d_num_sectors dsp)) (d_disk_operation dsp) (d_data dsp) VOLUMES of
        (Inl e, VOLUMES1) \<Rightarrow> report_packets T strftime key_order now dsps VOLUMES1
      | (Inr ops, VOLUMES1) \<Rightarrow>
          let (reports, VOLUMES2) = report_packets T strftime key_order now dsps VOLUMES1 in
          (case parse_actions strftime key_order now ops of
             None \<Rightarrow> (reports, VOLUMES2) | Some rows \<Rightarrow> (rows # reports, VOLUMES2)))"

text \<open>
  The frames of a physical machine: an exception of the reconstructor is not caught and ends the engine.
\<close>

fun engine_run ::
  "tsk \<Rightarrow> (int \<Rightarrow> string) \<Rightarrow> (string list \<Rightarrow> string list) \<Rightarrow> int \<Rightarrow> physical_packet list \<Rightarrow> recon \<Rightarrow> disk_volume list \<Rightarrow>
   py_error option \<times> row list list \<times> disk_volume list" where
  "engine_run T strftime key_order now [] s VOLUMES = (None, [], VOLUMES)"
| "engine_run T strftime key_order now (p # ps) s VOLUMES =
     (case process_packet s p of
        Inl e \<Rightarrow> (Some e, [], VOLUMES)
      | Inr (s1, disk_sensor_pkts) \<Rightarrow>
          let pkts = (case disk_sensor_pkts of None \<Rightarrow> [] | Some l \<Rightarrow> l);
              (r1, VOLUMES1) = report_packets T strftime key_order now pkts VOLUMES;
              (e, r2, VOLUMES2) = engine_run T strftime key_order now ps s1 VOLUMES1
          in (e, r1 @ r2, VOLUMES2))"

section \<open>Lemmas\<close>

definition joinable :: "fs_operation \<Rightarrow> fs_operation \<Rightarrow> bool" where
  "joinable o1 o2 \<longleftrightarrow> op_inode o2 = op_inode o1 \<and> op_sector o2 = op_sector o1 + 1"

definition merged :: "fs_operation list \<Rightarrow> fs_operation" where
  "merged g = (hd g)\<lparr>raw_data := concat (map raw_data g)\<rparr>"

fun grow :: "fs_operation list \<Rightarrow> fs_operation list \<Rightarrow> fs_operation list list" where
  "grow g [] = [g]"
| "grow g (o1 # ops) = (if joinable (last g) o1 then grow (g @ [o1]) ops else g # grow [o1] ops)"

lemma merged_single [simp]: "merged [o1] = o1"
  by (simp add: merged_def)

lemma grow_hd: "g \<noteq> [] \<Longrightarrow> \<exists>g' gs. grow g ops = g' # gs \<and> hd g' = hd g \<and> g' \<noteq> []"
  by (induction g ops rule: grow.induct) auto

lemma grow_spec:
  assumes "g \<noteq> []" and "successively joinable g"
  shows "concat (grow g ops) = g @ ops \<and> (\<forall>h \<in> set (grow g ops). h \<noteq> [] \<and> successively joinable h) \<and>
    successively (\<lambda>g h. \<not> joinable (last g) (hd h)) (grow g ops)"
  using assms
proof (induction g ops rule: grow.induct)
  case (2 g o1 ops)
  obtain g' gs where g': "grow [o1] ops = g' # gs" "hd g' = o1" using grow_hd [of "[o1]" ops] by auto
  show ?case
  proof (cases "joinable (last g) o1")
    case True
    then have s: "successively joinable (g @ [o1])" using 2(3,4) by (simp add: successively_append_iff)
    show ?thesis using 2(1) [OF True _ s] unfolding grow.simps if_P [OF True] by auto
  next
    case False
    have "concat (grow [o1] ops) = [o1] @ ops" "\<forall>h \<in> set (grow [o1] ops). h \<noteq> [] \<and> successively joinable h"
      "successively (\<lambda>g h. \<not> joinable (last g) (hd h)) (grow [o1] ops)" using 2(2) [OF False] by auto
    then show ?thesis unfolding grow.simps if_not_P [OF False] using 2(3,4) g' False by auto
  qed
qed auto

lemma join_actions_grow:
  assumes "g \<noteq> []" and "\<forall>o1 \<in> set g. op_inode o1 = i"
  shows "join_actions ops (merged g) (op_sector (last g)) acts = acts @ map merged (grow g ops)"
  using assms
proof (induction ops arbitrary: g acts i)
  case (Cons o1 ops)
  have "op_inode (merged g) = op_inode (last g)" using Cons.prems by (simp add: merged_def)
  moreover have "(merged g)\<lparr>raw_data := raw_data (merged g) @ raw_data o1\<rparr> = merged (g @ [o1])"
    using Cons.prems by (simp add: merged_def)
  ultimately show ?case
    using Cons.IH [of "g @ [o1]" i acts] Cons.IH [of "[o1]" "op_inode o1" "acts @ [merged g]"] Cons.prems
    by (cases "joinable (last g) o1") (auto simp: joinable_def)
qed simp

lemma aggregate_grow: "aggregate (o1 # ops) = map merged (grow [o1] ops)"
  using join_actions_grow [of "[o1]" "op_inode o1" ops "[]"] by (simp add: aggregate_def)

lemma grow_all: "successively joinable (last g # ops) \<Longrightarrow> grow g ops = [g @ ops]"
  by (induction ops arbitrary: g) (auto simp: joinable_def)

lemma aggregate_run: "successively joinable (o1 # ops) \<Longrightarrow> aggregate (o1 # ops) = [merged (o1 # ops)]"
  by (simp add: aggregate_grow grow_all)

section \<open>Properties\<close>

text \<open>
  The operations of an access are joined as far as possible and nothing is lost: the operations are cut
  into stretches of one inode and consecutive sectors, no two neighbouring stretches could be one, and each
  stretch is reported as its first operation with the data of all.
\<close>

theorem aggregate_joins_stretches:
  "\<exists>gs. concat gs = ops \<and> aggregate ops = map merged gs \<and> (\<forall>g \<in> set gs. g \<noteq> [] \<and> successively joinable g) \<and>
     successively (\<lambda>g h. \<not> joinable (last g) (hd h)) gs"
proof (cases ops)
  case Nil
  then show ?thesis by (simp add: aggregate_def)
next
  case (Cons o1 rest)
  then show ?thesis using grow_spec [of "[o1]" rest] by (intro exI [of _ "grow [o1] rest"]) (simp add: aggregate_grow)
qed

text \<open>
  For volumes in the order of the disk, a sector at or behind the first of them is looked up in the last
  volume that starts at or before it; a sector in front of all volumes is taken to the last volume of the disk.
\<close>

theorem get_volume_finds:
  assumes "sorted (map vol_start VOLUMES)" and "VOLUMES \<noteq> []"
  shows "\<exists>i < length VOLUMES. get_volume VOLUMES sector = Inr (Some i) \<and>
    (if sector < vol_start (hd VOLUMES) then i = length VOLUMES - 1
     else vol_start (VOLUMES ! i) \<le> sector \<and> (\<forall>j < length VOLUMES. i < j \<longrightarrow> sector < vol_start (VOLUMES ! j)))"
proof -
  let ?b = "bisect (map vol_start VOLUMES) sector"
  have b: "?b \<le> length VOLUMES" "\<And>i. i < length VOLUMES \<Longrightarrow> i < ?b \<longleftrightarrow> vol_start (VOLUMES ! i) \<le> sector"
    using bisect_spec [OF assms(1), of sector] by auto
  have zero: "?b = 0 \<longleftrightarrow> sector < vol_start (hd VOLUMES)"
    using b(2) [of 0] assms(2) by (auto simp: hd_conv_nth)
  show ?thesis
  proof (cases "?b = 0")
    case True
    then show ?thesis using zero assms(2) by (intro exI [of _ "length VOLUMES - 1"]) (simp add: get_volume_def)
  next
    case False
    then have "vol_start (VOLUMES ! (?b - 1)) \<le> sector" using b(1) b(2) [of "?b - 1"] by auto
    moreover have "sector < vol_start (VOLUMES ! j)" if "j < length VOLUMES" "?b - 1 < j" for j
      using b(2) [OF that(1)] that(2) by linarith
    ultimately show ?thesis using False zero b(1)
      by (intro exI [of _ "?b - 1"]) (auto simp: get_volume_def Let_def)
  qed
qed

definition demo_op :: "int \<Rightarrow> int \<Rightarrow> byte \<Rightarrow> fs_operation" where
  "demo_op sector inode b = fs_op sector ''READ'' ''[CONTENT READ]'' (Inode inode) ''/a'' [b] []"

theorem aggregate_joins_stretches_witness:
  "(\<exists>gs. concat gs = [demo_op 7 3 1, demo_op 8 3 2, demo_op 9 4 3] \<and> length gs = 2 \<and>
     successively (\<lambda>g h. \<not> joinable (last g) (hd h)) gs) \<and>
   aggregate [demo_op 7 3 1, demo_op 8 3 2, demo_op 9 4 3] =
     [(demo_op 7 3 1)\<lparr>raw_data := [1, 2]\<rparr>, demo_op 9 4 3]"
proof -
  have "aggregate [demo_op 7 3 1, demo_op 8 3 2, demo_op 9 4 3] =
     [(demo_op 7 3 1)\<lparr>raw_data := [1, 2]\<rparr>, demo_op 9 4 3]"
    by (simp add: aggregate_def demo_op_def fs_op_def)
  moreover obtain gs where gs: "concat gs = [demo_op 7 3 1, demo_op 8 3 2, demo_op 9 4 3]"
      "aggregate [demo_op 7 3 1, demo_op 8 3 2, demo_op 9 4 3] = map merged gs"
      "successively (\<lambda>g h. \<not> joinable (last g) (hd h)) gs"
    using aggregate_joins_stretches [of "[demo_op 7 3 1, demo_op 8 3 2, demo_op 9 4 3]"] by blast
  moreover have "length gs = 2" using gs(2) calculation(1) by (metis length_map length_Cons list.size(3) numeral_2_eq_2)
  ultimately show ?thesis by blast
qed

theorem get_volume_finds_witness:
  "get_volume [\<lparr>vol_start = 63, vol_desc = ''a'', vol_to_se = NoEngine\<rparr>, \<lparr>vol_start = 500, vol_desc = ''b'', vol_to_se = NoEngine\<rparr>] 499 = Inr (Some 0) \<and>
   get_volume [\<lparr>vol_start = 63, vol_desc = ''a'', vol_to_se = NoEngine\<rparr>, \<lparr>vol_start = 500, vol_desc = ''b'', vol_to_se = NoEngine\<rparr>] 0 = Inr (Some 1)"
proof -
  let ?V = "[\<lparr>vol_start = 63, vol_desc = ''a'', vol_to_se = NoEngine\<rparr>, \<lparr>vol_start = 500, vol_desc = ''b'', vol_to_se = NoEngine\<rparr>]"
  have "sorted (map vol_start ?V)" "?V \<noteq> []" by simp_all
  from get_volume_finds [OF this, of 499] get_volume_finds [OF this, of 0] show ?thesis
    by (auto simp: less_Suc_eq numeral_2_eq_2)
qed

end
