(* ===== verification/SataReordering.thy ===== *)
theory SataReordering
  imports SataReconstructor
begin

text \<open>
  What the reconstructor promises for native command queuing: an abstract specification with one
  slot per tag, in which a command opens a slot and a DMA transfer adds data to it, and the lemmas
  that the frame-by-frame state machine implements it on every undisturbed stream of frames.
\<close>

section \<open>The specification\<close>

type_synonym slots = "nat \<Rightarrow> disk_sensor_packet option"

definition add_data :: "bytes \<Rightarrow> disk_sensor_packet \<Rightarrow> disk_sensor_packet" where
  "add_data bs d = d\<lparr>d_data := d_data d @ bs\<rparr>"

definition spec_transfer :: "nat \<Rightarrow> bytes \<Rightarrow> slots \<Rightarrow> slots \<times> disk_sensor_packet list" where
  "spec_transfer t bs f =
     (case f t of
        None \<Rightarrow> (f, [])
      | Some d \<Rightarrow> let d1 = add_data bs d in
          if complete d1 then (f(t := None), [d1]) else (f(t := Some d1), []))"

text \<open>
  A command is one register frame; a transfer is a DMA setup frame and the data frames after it.
\<close>

datatype ncq_event =
    Command physical_packet
  | Transfer physical_packet "physical_packet list"

fun frames_of :: "ncq_event \<Rightarrow> physical_packet list" where
  "frames_of (Command p) = [p]"
| "frames_of (Transfer su ps) = su # ps"

abbreviation tag_of :: "physical_packet \<Rightarrow> nat" where
  "tag_of su \<equiv> h_dma_buf_identifier_low (p_header su)"

definition bytes_of :: "physical_packet list \<Rightarrow> bytes" where
  "bytes_of ps = concat (map payload ps)"

fun spec_event :: "nat \<Rightarrow> ncq_event \<Rightarrow> slots \<Rightarrow> slots \<times> disk_sensor_packet list" where
  "spec_event ss (Command p) f = (f(h_tag (p_header p) := Some (ncq_request ss (p_header p))), [])"
| "spec_event ss (Transfer su ps) f = spec_transfer (tag_of su) (bytes_of ps) f"

fun spec_run :: "nat \<Rightarrow> ncq_event list \<Rightarrow> slots \<Rightarrow> slots \<times> disk_sensor_packet list" where
  "spec_run ss [] f = (f, [])"
| "spec_run ss (e # es) f =
     (let (f1, out) = spec_event ss e f; (f2, outs) = spec_run ss es f1 in (f2, out @ outs))"

section \<open>Undisturbed streams\<close>

text \<open>The data frames of a transfer: only the last one reaches the announced byte count.\<close>

fun fills :: "nat \<Rightarrow> nat \<Rightarrow> physical_packet list \<Rightarrow> bool" where
  "fills n len [] = False"
| "fills n len (p # ps) =
     (if n \<le> len + length (payload p) then ps = [] else fills n (len + length (payload p)) ps)"

definition data_direction :: "physical_packet \<Rightarrow> nat" where
  "data_direction su =
     (if h_direction_bit (p_header su) = HOST_TO_DEVICE then HOST_TO_DEVICE else DEVICE_TO_HOST)"

definition is_data :: "nat \<Rightarrow> physical_packet \<Rightarrow> bool" where
  "is_data dir p \<longleftrightarrow> h_type (p_header p) = DataFIS \<and> h_direction (p_header p) = dir"

fun event_ok :: "slots \<Rightarrow> ncq_event \<Rightarrow> bool" where
  "event_ok f (Command p) \<longleftrightarrow>
     (let h = p_header p in
      h_type h = RegisterFIS_HtoD \<and> h_direction h = HOST_TO_DEVICE \<and> h_C h \<noteq> 0 \<and>
      is_ncq_command (h_command h) \<and> h_tag h < 32)"
| "event_ok f (Transfer su ps) \<longleftrightarrow>
     (let h = p_header su in
      h_type h = DMASetupFIS \<and> h_direction h = DEVICE_TO_HOST \<and> tag_of su < 32 \<and>
      f (tag_of su) \<noteq> None \<and> list_all (is_data (data_direction su)) ps \<and>
      fills (h_transfer_count h) 0 ps)"

fun events_ok :: "nat \<Rightarrow> slots \<Rightarrow> ncq_event list \<Rightarrow> bool" where
  "events_ok ss f [] = True"
| "events_ok ss f (e # es) = (event_ok f e \<and> events_ok ss (fst (spec_event ss e f)) es)"

text \<open>No frame is missing: the sequence numbers follow one another modulo \<open>2\<^sup>1\<^sup>6\<close>.\<close>

definition follows :: "nat option \<Rightarrow> physical_packet \<Rightarrow> bool" where
  "follows l p \<longleftrightarrow>
     (case l of None \<Rightarrow> True | Some n \<Rightarrow> h_lophi_seqn (p_header p) = (n + 1) mod 65536)"

fun in_sequence :: "nat option \<Rightarrow> physical_packet list \<Rightarrow> bool" where
  "in_sequence l [] = True"
| "in_sequence l (p # ps) = (follows l p \<and> in_sequence (Some (h_lophi_seqn (p_header p))) ps)"

fun last_seqn :: "nat option \<Rightarrow> physical_packet list \<Rightarrow> nat option" where
  "last_seqn l [] = l"
| "last_seqn l (p # ps) = last_seqn (Some (h_lophi_seqn (p_header p))) ps"

lemma in_sequence_append:
  "in_sequence l (xs @ ys) \<longleftrightarrow> in_sequence l xs \<and> in_sequence (last_seqn l xs) ys"
  by (induction xs arbitrary: l) auto

lemma last_seqn_append: "last_seqn l (xs @ ys) = last_seqn (last_seqn l xs) ys"
  by (induction xs arbitrary: l) auto

section \<open>The state machine implements the specification\<close>

definition slots_of :: "recon \<Rightarrow> slots" where
  "slots_of s t = (if t < 32 then ncq_data_outstanding s ! t else None)"

text \<open>Between events: idle, with no DMA transfer open.\<close>

definition between :: "recon \<Rightarrow> bool" where
  "between s \<longleftrightarrow>
     recon_inv s \<and> STATE s = DEVICE_IDLE \<and> ncq_dma_stack s = [] \<and> ncq_data_packets s = []"

lemma process_in_sequence:
  assumes "follows (last_packet_seqno s) p" and "h_type (p_header p) \<in> set type_lookup"
  shows "process_packet s p =
    dispatch_frame (s\<lparr>total_frames := total_frames s + 1,
                      last_packet_seqno := Some (h_lophi_seqn (p_header p))\<rparr>) p"
  using assms
  by (auto simp: process_packet_def check_seqno_def follows_def Let_def split: option.splits)

lemma frame_loop_append:
  "frame_loop h s (xs @ ys) =
     bindE (frame_loop h s xs) (\<lambda>(s1, o1). bindE (frame_loop h s1 ys) (\<lambda>(s2, o2). Inr (s2, o1 @ o2)))"
proof (induction xs arbitrary: s)
  case Nil
  show ?case by (cases "frame_loop h s ys") auto
next
  case (Cons x xs)
  show ?case
  proof (cases "h s x")
    case (Inr r)
    with Cons show ?thesis
      by (cases r, cases "frame_loop h (fst r) xs")
        (auto simp: bindE_def split: sum.splits)
  qed simp
qed

definition reaches ::
  "recon \<Rightarrow> physical_packet list \<Rightarrow> nat \<Rightarrow> nat option \<Rightarrow> slots \<times> disk_sensor_packet list \<Rightarrow> bool" where
  "reaches s ps ss l r \<longleftrightarrow>
     (\<exists>s'. recon_run s ps = Inr (s', snd r) \<and> between s' \<and> slots_of s' = fst r \<and>
           sector_size s' = ss \<and> last_packet_seqno s' = l)"

lemma command_step:
  assumes "between s" and "event_ok f (Command p)" and "follows (last_packet_seqno s) p"
  shows "reaches s [p] (sector_size s) (Some (h_lophi_seqn (p_header p)))
           (spec_event (sector_size s) (Command p) (slots_of s))"
proof -
  let ?h = "p_header p"
  let ?s' = "s\<lparr>total_frames := total_frames s + 1, last_packet_seqno := Some (h_lophi_seqn ?h),
     ncq_transactions_outstanding := (ncq_transactions_outstanding s)[h_tag ?h := Some p],
     ncq_data_outstanding :=
       (ncq_data_outstanding s)[h_tag ?h := Some (ncq_request (sector_size s) ?h)]\<rparr>"
  from assms(1) have inv: "recon_inv s" by (simp add: between_def)
  have step: "process_packet s p = Inr (?s', None)"
    using assms inv
    by (simp add: process_in_sequence type_lookup_def dispatch_frame_def handle_register_HTD_def
        Let_def index_at_def recon_inv_lengths)
  moreover have "between ?s'"
    using packet.keeps_inv [OF inv step] assms(1) by (simp add: between_def)
  moreover have "slots_of ?s' = fst (spec_event (sector_size s) (Command p) (slots_of s))"
    using assms(2) inv by (auto simp: slots_of_def fun_eq_iff recon_inv_lengths Let_def)
  ultimately show ?thesis by (simp add: reaches_def recon_run_def)
qed

text \<open>A DMA transfer is open for a tag that has a packet, and data is expected from \<open>dir\<close>.\<close>

definition transferring :: "physical_packet \<Rightarrow> recon \<Rightarrow> bool" where
  "transferring su s \<longleftrightarrow>
     recon_inv s \<and> ncq_dma_stack s = [su] \<and> tag_of su < 32 \<and>
     slots_of s (tag_of su) \<noteq> None \<and>
     STATE s = (if data_direction su = HOST_TO_DEVICE then WAIT_FOR_DMA_DATA_HOST
                else WAIT_FOR_DMA_DATA_DEVICE)"

lemma transferring_register:
  assumes "transferring su s"
  shows "\<exists>r. ncq_transactions_outstanding s ! tag_of su = Some r"
proof -
  from assms have "list_all2 slot_ok (ncq_transactions_outstanding s) (ncq_data_outstanding s)"
    and "recon_inv s" and "tag_of su < 32"
    and "slots_of s (tag_of su) \<noteq> None"
    by (auto simp: transferring_def recon_inv_def)
  then show ?thesis
    using slots_nth [of "ncq_transactions_outstanding s" "ncq_data_outstanding s" "tag_of su"]
    by (cases "ncq_transactions_outstanding s ! tag_of su")
      (auto simp: slots_of_def recon_inv_lengths)
qed

text \<open>A data frame of the open transfer is queued and counted.\<close>

definition queue_data :: "physical_packet \<Rightarrow> recon \<Rightarrow> recon" where
  "queue_data p s = s\<lparr>total_frames := total_frames s + 1,
     last_packet_seqno := Some (h_lophi_seqn (p_header p)),
     ncq_data_packets := ncq_data_packets s @ [p],
     ncq_data_len := ncq_data_len s + length (payload p)\<rparr>"

lemma transferring_queue_data: "transferring su s \<Longrightarrow> transferring su (queue_data p s)"
  by (auto simp: transferring_def queue_data_def recon_inv_def slots_of_def)

lemma data_step:
  assumes "transferring su s" and "is_data (data_direction su) p"
    and "follows (last_packet_seqno s) p"
  shows "process_packet s p =
    (if h_transfer_count (p_header su) \<le> ncq_data_len s + length (payload p)
     then finish_dma_transfer (queue_data p s) (tag_of su)
     else Inr (queue_data p s, None))"
proof -
  from transferring_register [OF assms(1)]
  obtain r where "ncq_transactions_outstanding s ! tag_of su = Some r" ..
  moreover have "data_direction su = 0 \<or> data_direction su = 1"
    by (simp add: data_direction_def)
  ultimately show ?thesis using assms
    by (auto simp: process_in_sequence type_lookup_def dispatch_frame_def state_frame_def
        dma_data_frame_def handle_ncq_data_packet_def is_data_def transferring_def queue_data_def
        Let_def index_at_def recon_inv_lengths)
qed

lemma finish_step:
  assumes tr: "transferring su s"
  shows "\<exists>s' out. finish_dma_transfer s (tag_of su) = Inr (s', out) \<and> between s' \<and>
    spec_transfer (tag_of su) (bytes_of (ncq_data_packets s)) (slots_of s) =
      (slots_of s', outputs out) \<and>
    sector_size s' = sector_size s \<and> last_packet_seqno s' = last_packet_seqno s"
proof -
  let ?t = "tag_of su"
  from tr obtain d where d: "?t < 32" "ncq_data_outstanding s ! ?t = Some d" and inv: "recon_inv s"
    by (auto simp: transferring_def slots_of_def split: if_splits)
  from d inv obtain s' out where fin: "finish_dma_transfer s ?t = Inr (s', out)"
    using transferring_register [OF tr] finish_dma_transfer_returns [of s ?t]
    by (cases "finish_dma_transfer s ?t") auto
  from finish_dma_transfer_inv [OF inv fin] have "recon_inv s'" .
  then show ?thesis using fin d tr inv
    by (auto simp: finish_dma_transfer_def spec_transfer_def between_def transferring_def
        slots_of_def add_data_def complete_def bytes_of_def index_at_def recon_inv_lengths Let_def
        fun_eq_iff split: if_splits)
qed

lemma data_phase:
  assumes "transferring su s" and "list_all (is_data (data_direction su)) ps"
    and "fills (h_transfer_count (p_header su)) (ncq_data_len s) ps"
    and "in_sequence (last_packet_seqno s) ps"
  shows "reaches s ps (sector_size s) (last_seqn (last_packet_seqno s) ps)
    (spec_transfer (tag_of su) (bytes_of (ncq_data_packets s @ ps)) (slots_of s))"
  using assms
proof (induction ps arbitrary: s)
  case (Cons p ps)
  let ?q = "queue_data p s"
  have q: "last_packet_seqno ?q = Some (h_lophi_seqn (p_header p))" "slots_of ?q = slots_of s"
    "sector_size ?q = sector_size s" "ncq_data_packets ?q = ncq_data_packets s @ [p]"
    "ncq_data_len ?q = ncq_data_len s + length (payload p)"
    by (auto simp: queue_data_def slots_of_def fun_eq_iff)
  note tq = transferring_queue_data [OF Cons.prems(1), of p]
  have step: "process_packet s p =
    (if h_transfer_count (p_header su) \<le> ncq_data_len s + length (payload p)
     then finish_dma_transfer ?q (tag_of su) else Inr (?q, None))"
    using Cons.prems by (simp add: data_step)
  show ?case
  proof (cases "h_transfer_count (p_header su) \<le> ncq_data_len s + length (payload p)")
    case True
    with Cons.prems(3) have "ps = []" by simp
    with True step finish_step [OF tq] show ?thesis
      by (auto simp: reaches_def recon_run_def q outputs_def)
  next
    case False
    with Cons.prems have "reaches ?q ps (sector_size ?q) (last_seqn (last_packet_seqno ?q) ps)
      (spec_transfer (tag_of su) (bytes_of (ncq_data_packets ?q @ ps)) (slots_of ?q))"
      by (intro Cons.IH [OF tq]) (auto simp: q)
    with False step show ?thesis
      by (auto simp: reaches_def recon_run_def q)
  qed
qed simp

lemma transfer_step:
  assumes "between s" and "event_ok (slots_of s) (Transfer su ps)"
    and "in_sequence (last_packet_seqno s) (su # ps)"
  shows "reaches s (su # ps) (sector_size s) (last_seqn (last_packet_seqno s) (su # ps))
    (spec_event (sector_size s) (Transfer su ps) (slots_of s))"
proof -
  let ?s1 = "s\<lparr>total_frames := total_frames s + 1,
    last_packet_seqno := Some (h_lophi_seqn (p_header su)), ncq_dma_stack := [su],
    STATE := (if data_direction su = HOST_TO_DEVICE then WAIT_FOR_DMA_DATA_HOST
              else WAIT_FOR_DMA_DATA_DEVICE)\<rparr>"
  have step: "process_packet s su = Inr (?s1, None)"
    using assms
    by (auto simp: process_in_sequence type_lookup_def dispatch_frame_def state_frame_def
        idle_frame_def handle_dma_setup_def between_def data_direction_def Let_def)
  have same: "slots_of ?s1 = slots_of s" by (simp add: slots_of_def fun_eq_iff)
  from assms have "transferring su ?s1"
    by (auto simp: transferring_def between_def recon_inv_def slots_of_def Let_def)
  then have "reaches ?s1 ps (sector_size ?s1) (last_seqn (last_packet_seqno ?s1) ps)
    (spec_transfer (tag_of su) (bytes_of (ncq_data_packets ?s1 @ ps)) (slots_of ?s1))"
    using assms by (intro data_phase) (auto simp: between_def recon_inv_def Let_def)
  then show ?thesis using step assms(1)
    unfolding reaches_def recon_run_def same
    by (auto simp: between_def)
qed

lemma event_step:
  assumes "between s" and "event_ok (slots_of s) e"
    and "in_sequence (last_packet_seqno s) (frames_of e)"
  shows "reaches s (frames_of e) (sector_size s) (last_seqn (last_packet_seqno s) (frames_of e))
    (spec_event (sector_size s) e (slots_of s))"
  using assms command_step transfer_step by (cases e) auto

lemma run_refines_spec:
  assumes "between s" and "events_ok (sector_size s) (slots_of s) es"
    and "in_sequence (last_packet_seqno s) (concat (map frames_of es))"
  shows "reaches s (concat (map frames_of es)) (sector_size s)
    (last_seqn (last_packet_seqno s) (concat (map frames_of es)))
    (spec_run (sector_size s) es (slots_of s))"
  using assms
proof (induction es arbitrary: s)
  case Nil
  then show ?case by (simp add: reaches_def recon_run_def)
next
  case (Cons e es)
  let ?r = "spec_event (sector_size s) e (slots_of s)"
  from Cons.prems event_step [of s e]
  obtain s1 where s1: "recon_run s (frames_of e) = Inr (s1, snd ?r)" "between s1"
    "slots_of s1 = fst ?r" "sector_size s1 = sector_size s"
    "last_packet_seqno s1 = last_seqn (last_packet_seqno s) (frames_of e)"
    by (auto simp: reaches_def in_sequence_append)
  from Cons.prems s1 have "reaches s1 (concat (map frames_of es)) (sector_size s1)
    (last_seqn (last_packet_seqno s1) (concat (map frames_of es)))
    (spec_run (sector_size s1) es (slots_of s1))"
    by (intro Cons.IH) (auto simp: in_sequence_append)
  then show ?case using s1
    by (auto simp: reaches_def recon_run_def frame_loop_append last_seqn_append Let_def
        split: prod.splits)
qed

end
