(* ===== verification/SataProperties.thy ===== *)
theory SataProperties
  imports SataReordering
begin

text \<open>
  The properties of the SATA reconstructor: the refinement to the per-tag specification, the
  reordering theorem it gives, well-formedness of every reachable state, the exact conditions
  under which a frame raises, the treatment of missing frames, and regular (unqueued) transfers.
\<close>

unbundle bit_operations_syntax

section \<open>Running the specification\<close>

lemma spec_run_append:
  "spec_run ss (xs @ ys) f =
     (let (f1, o1) = spec_run ss xs f; (f2, o2) = spec_run ss ys f1 in (f2, o1 @ o2))"
  by (induction xs arbitrary: f) (auto split: prod.splits)

lemma events_ok_append:
  "events_ok ss f (xs @ ys) \<longleftrightarrow> events_ok ss f xs \<and> events_ok ss (fst (spec_run ss xs f)) ys"
  by (induction xs arbitrary: f) (auto split: prod.splits)

abbreviation cmd_tag :: "physical_packet \<Rightarrow> nat" where
  "cmd_tag p \<equiv> h_tag (p_header p)"

text \<open>Opening a list of commands with different tags: every command finds its slot afterwards.\<close>

fun open_commands :: "nat \<Rightarrow> physical_packet list \<Rightarrow> slots \<Rightarrow> slots" where
  "open_commands ss [] f = f"
| "open_commands ss (p # ps) f =
     open_commands ss ps (f(cmd_tag p := Some (ncq_request ss (p_header p))))"

lemma spec_run_commands: "spec_run ss (map Command cs) f = (open_commands ss cs f, [])"
  by (induction cs arbitrary: f) auto

lemma open_commands_other: "t \<notin> cmd_tag ` set cs \<Longrightarrow> open_commands ss cs f t = f t"
  by (induction cs arbitrary: f) auto

lemma open_commands_slot:
  "distinct (map cmd_tag cs) \<Longrightarrow> p \<in> set cs \<Longrightarrow>
     open_commands ss cs f (cmd_tag p) = Some (ncq_request ss (p_header p))"
proof (induction cs arbitrary: f)
  case (Cons c cs)
  show ?case
  proof (cases "p = c")
    case True
    with Cons.prems show ?thesis by (simp add: open_commands_other)
  next
    case False
    with Cons show ?thesis by auto
  qed
qed simp

lemma events_ok_commands:
  "list_all (\<lambda>p. event_ok g (Command p)) cs \<Longrightarrow> events_ok ss f (map Command cs)"
  by (induction cs arbitrary: f) auto

text \<open>A command together with the transfer that satisfies it.\<close>

type_synonym served = "physical_packet \<times> physical_packet \<times> physical_packet list"

fun served_event :: "served \<Rightarrow> ncq_event" where
  "served_event (p, su, ps) = Transfer su ps"

fun served_result :: "nat \<Rightarrow> served \<Rightarrow> disk_sensor_packet" where
  "served_result ss (p, su, ps) = add_data (bytes_of ps) (ncq_request ss (p_header p))"

fun served_ok :: "nat \<Rightarrow> served \<Rightarrow> bool" where
  "served_ok ss (p, su, ps) \<longleftrightarrow>
     tag_of su = cmd_tag p \<and> h_type (p_header su) = DMASetupFIS \<and>
     h_direction (p_header su) = DEVICE_TO_HOST \<and>
     list_all (is_data (data_direction su)) ps \<and>
     fills (h_transfer_count (p_header su)) 0 ps \<and>
     complete (served_result ss (p, su, ps))"

lemma spec_run_served:
  assumes "list_all (served_ok ss) ts" and "distinct (map (cmd_tag \<circ> fst) ts)"
    and "\<And>p su ps. (p, su, ps) \<in> set ts \<Longrightarrow>
      cmd_tag p < 32 \<and> f (cmd_tag p) = Some (ncq_request ss (p_header p))"
  shows "snd (spec_run ss (map served_event ts) f) = map (served_result ss) ts \<and>
    events_ok ss f (map served_event ts)"
  using assms
proof (induction ts arbitrary: f)
  case (Cons x ts)
  obtain p su ps where x: "x = (p, su, ps)" by (cases x)
  let ?f1 = "f(cmd_tag p := None)"
  from Cons.prems(3) [of p su ps] x
  have slot: "cmd_tag p < 32" "f (cmd_tag p) = Some (ncq_request ss (p_header p))" by auto
  with Cons.prems(1) x have ev: "spec_event ss (served_event x) f = (?f1, [served_result ss x])"
    by (auto simp: spec_transfer_def Let_def)
  from Cons.prems x have "snd (spec_run ss (map served_event ts) ?f1) = map (served_result ss) ts \<and>
      events_ok ss ?f1 (map served_event ts)"
    by (intro Cons.IH) (auto simp: rev_image_eqI)
  moreover have "event_ok f (served_event x)" using Cons.prems(1) slot x by (auto simp: Let_def)
  ultimately show ?case using ev by (auto split: prod.splits)
qed simp

lemma between_init: "between (recon_init ss)"
  by (simp add: between_def) (simp add: recon_init_def)

lemma init_simps [simp]:
  "sector_size (recon_init ss) = ss" "last_packet_seqno (recon_init ss) = None"
  "STATE (recon_init ss) = DEVICE_IDLE"
  by (simp_all add: recon_init_def)

lemma slots_of_init [simp]: "slots_of (recon_init ss) = (\<lambda>_. None)"
  by (simp add: slots_of_def recon_init_def fun_eq_iff)

section \<open>Example frames\<close>

definition frame :: "nat \<Rightarrow> nat \<Rightarrow> nat \<Rightarrow> sata_header \<Rightarrow> bytes \<Rightarrow> physical_packet" where
  "frame ty dir seqn h bs =
     \<lparr>p_header = h\<lparr>h_type := ty, h_direction := dir, h_lophi_seqn := seqn\<rparr>, p_data = bs\<rparr>"

definition queued_read :: "nat \<Rightarrow> nat \<Rightarrow> nat \<Rightarrow> nat \<Rightarrow> physical_packet" where
  "queued_read seqn t lba n = frame RegisterFIS_HtoD HOST_TO_DEVICE seqn
     (empty_header\<lparr>h_C := 1, h_command := ReadFPDMAQueued, h_tag := t, h_lba := lba, h_features := n\<rparr>) []"

definition dma_read :: "nat \<Rightarrow> nat \<Rightarrow> nat \<Rightarrow> physical_packet" where
  "dma_read seqn t n = frame DMASetupFIS DEVICE_TO_HOST seqn
     (empty_header\<lparr>h_direction_bit := 1, h_dma_buf_identifier_low := t, h_transfer_count := n\<rparr>) []"

definition device_data :: "nat \<Rightarrow> bytes \<Rightarrow> physical_packet" where
  "device_data seqn bs = frame DataFIS DEVICE_TO_HOST seqn empty_header (bs @ [0, 0, 0, 0])"

definition device_error :: "nat \<Rightarrow> physical_packet" where
  "device_error seqn = frame SetDeviceBitsFIS DEVICE_TO_HOST seqn (empty_header\<lparr>h_status_lo := 1\<rparr>) []"

definition plain_read :: "nat \<Rightarrow> nat \<Rightarrow> nat \<Rightarrow> physical_packet" where
  "plain_read seqn lba n = frame RegisterFIS_HtoD HOST_TO_DEVICE seqn
     (empty_header\<lparr>h_C := 1, h_command := 0x25, h_lba := lba, h_count := n\<rparr>) []"

definition pio_setup_frame :: "nat \<Rightarrow> physical_packet" where
  "pio_setup_frame seqn = frame PIOSetupFIS DEVICE_TO_HOST seqn empty_header []"

lemmas example_defs = frame_def queued_read_def dma_read_def device_data_def device_error_def
  plain_read_def pio_setup_frame_def empty_header_def

section \<open>Queued commands\<close>

text \<open>
  C1. On a stream of queued commands and DMA transfers in which no frame is missing, and starting
  between transfers, the state machine raises nothing, hands on exactly the packets of the per-tag
  specification in the same order, and its tag table afterwards is the specification's.
\<close>

theorem recon_run_refines_spec:
  assumes "between s" and "events_ok (sector_size s) (slots_of s) es"
    and "in_sequence (last_packet_seqno s) (concat (map frames_of es))"
  shows "\<exists>s'. recon_run s (concat (map frames_of es)) =
           Inr (s', snd (spec_run (sector_size s) es (slots_of s))) \<and>
         slots_of s' = fst (spec_run (sector_size s) es (slots_of s)) \<and> between s'"
  using run_refines_spec [OF assms] by (auto simp: reaches_def)

theorem recon_run_refines_spec_witness:
  "\<exists>s'. recon_run (recon_init 2)
      (concat (map frames_of [Command (queued_read 7 3 100 1), Transfer (dma_read 8 3 2) [device_data 9 [5, 6]]])) =
    Inr (s', [\<lparr>d_sector = 100, d_num_sectors = 1, d_disk_operation = 0, d_size = 2, d_data = [5, 6],
               d_direction = None\<rparr>])"
proof -
  let ?es = "[Command (queued_read 7 3 100 1), Transfer (dma_read 8 3 2) [device_data 9 [5, 6]]]"
  have ok: "events_ok (sector_size (recon_init 2)) (slots_of (recon_init 2)) ?es"
    by (simp add: example_defs is_ncq_command_def is_data_def data_direction_def payload_def)
  have sq: "in_sequence (last_packet_seqno (recon_init 2)) (concat (map frames_of ?es))"
    by (simp add: example_defs follows_def)
  show ?thesis
    using recon_run_refines_spec [OF between_init ok sq]
    by (simp add: example_defs spec_transfer_def add_data_def complete_def bytes_of_def payload_def
        ncq_request_def new_disk_sensor_packet_def SATA_READ_def Let_def) blast
qed

lemma queued_run:
  assumes "list_all (\<lambda>p. event_ok (\<lambda>_. None) (Command p)) cs" and "distinct (map cmd_tag cs)"
    and "list_all (served_ok ss) ts" and "distinct (map (cmd_tag \<circ> fst) ts)"
    and "fst ` set ts \<subseteq> set cs"
    and "in_sequence None (cs @ concat (map (frames_of \<circ> served_event) ts))"
  shows "\<exists>s'. recon_run (recon_init ss) (cs @ concat (map (frames_of \<circ> served_event) ts)) =
           Inr (s', map (served_result ss) ts)"
proof -
  let ?f = "open_commands ss cs (\<lambda>_. None)"
  let ?es = "map Command cs @ map served_event ts"
  have frames: "concat (map frames_of ?es) = cs @ concat (map (frames_of \<circ> served_event) ts)"
    by (simp add: comp_def)
  have tags: "cmd_tag p < 32 \<and> ?f (cmd_tag p) = Some (ncq_request ss (p_header p))"
    if "(p, su, ps) \<in> set ts" for p su ps
  proof -
    from that assms(5) have "p \<in> set cs" by force
    with assms(1,2) show ?thesis by (auto simp: list_all_iff Let_def open_commands_slot)
  qed
  note served = spec_run_served [OF assms(3,4) tags]
  have "snd (spec_run ss ?es (\<lambda>_. None)) = map (served_result ss) ts"
    using served by (auto simp: spec_run_append spec_run_commands split: prod.splits)
  moreover have "events_ok ss (\<lambda>_. None) ?es"
    using served events_ok_commands [OF assms(1)] by (simp add: events_ok_append spec_run_commands)
  ultimately show ?thesis
    using run_refines_spec [OF between_init, of ss ?es] assms(6)
    unfolding frames by (auto simp: reaches_def)
qed

text \<open>
  Native command queuing is undone: after commands with different tags, the device may
  serve them in any order, and every packet handed on carries the sector, length and direction of
  its own command with exactly the bytes of its own transfer.
\<close>

theorem queued_commands_reordered:
  assumes "list_all (\<lambda>p. event_ok (\<lambda>_. None) (Command p)) cs" and "distinct (map cmd_tag cs)"
    and "list_all (served_ok ss) ts" and "distinct (map (cmd_tag \<circ> fst) ts)"
    and "fst ` set ts \<subseteq> set cs"
    and "in_sequence None (cs @ concat (map (frames_of \<circ> served_event) ts))"
  shows "\<exists>s'. recon_run (recon_init ss) (cs @ concat (map (frames_of \<circ> served_event) ts)) =
           Inr (s', map (served_result ss) ts)"
  using assms by (rule queued_run)

theorem queued_commands_reordered_witness:
  "\<exists>s'. recon_run (recon_init 2)
      [queued_read 65534 0 100 1, queued_read 65535 1 200 1,
       dma_read 0 1 2, device_data 1 [7, 8], dma_read 2 0 2, device_data 3 [5, 6]] =
    Inr (s', map (served_result 2)
      [(queued_read 65535 1 200 1, dma_read 0 1 2, [device_data 1 [7, 8]]),
       (queued_read 65534 0 100 1, dma_read 2 0 2, [device_data 3 [5, 6]])])"
proof -
  let ?a = "queued_read 65534 0 100 1" and ?b = "queued_read 65535 1 200 1"
  let ?ts = "[(?b, dma_read 0 1 2, [device_data 1 [7, 8]]), (?a, dma_read 2 0 2, [device_data 3 [5, 6]])]"
  have 1: "list_all (\<lambda>p. event_ok (\<lambda>_. None) (Command p)) [?a, ?b]"
    by (simp add: example_defs is_ncq_command_def)
  have 2: "distinct (map cmd_tag [?a, ?b])" by (simp add: example_defs)
  have 3: "list_all (served_ok 2) ?ts"
    by (simp add: example_defs is_data_def data_direction_def payload_def complete_def add_data_def
        bytes_of_def ncq_request_def new_disk_sensor_packet_def)
  have 4: "distinct (map (cmd_tag \<circ> fst) ?ts)" by (simp add: example_defs)
  have 5: "fst ` set ?ts \<subseteq> set [?a, ?b]" by simp
  have 6: "in_sequence None ([?a, ?b] @ concat (map (frames_of \<circ> served_event) ?ts))"
    by (simp add: example_defs follows_def)
  show ?thesis using queued_commands_reordered [OF 1 2 3 4 5 6] by simp
qed

section \<open>Reachable states and exceptions\<close>

lemmas run_defs = recon_run_def process_packet_def check_seqno_def dispatch_frame_def
  state_frame_def idle_frame_def dma_data_frame_def non_ncq_frame_def handle_register_HTD_def
  handle_dma_setup_def handle_ncq_data_packet_def finish_dma_transfer_def handle_pio_setup_def
  handle_set_device_bits_def handle_non_ncq_data_packet_def handle_unexpected_packet_def
  reset_ncq_def reset_state_def ncq_request_def new_disk_sensor_packet_def type_lookup_def
  is_ncq_command_def index_at_def payload_def

text \<open>
  C2. In every state the reconstructor reaches from its start, whatever the frames are, the tag
  tables agree, the byte counter counts the queued frames, and the acknowledgement state is not
  entered; and every packet handed on holds at least the bytes its command announced.
\<close>

theorem recon_run_well_formed:
  assumes "recon_run (recon_init ss) ps = Inr (s', outs)"
  shows "recon_inv s' \<and> list_all complete outs"
  using assms packet.loop_keeps_inv [OF recon_inv_init] packet.loop_emits_complete
  unfolding recon_run_def by blast

theorem recon_run_well_formed_witness:
  "\<exists>s' outs. recon_run (recon_init 2) [queued_read 7 3 100 1, dma_read 8 3 2, device_data 9 [5, 6]]
     = Inr (s', outs) \<and> recon_inv s' \<and> list_all complete outs \<and> length outs = 1"
proof -
  obtain s' outs where "recon_run (recon_init 2)
      [queued_read 7 3 100 1, dma_read 8 3 2, device_data 9 [5, 6]] = Inr (s', outs)"
    and "length outs = 1"
    by (simp add: run_defs example_defs recon_init_def Let_def)
  with recon_run_well_formed [OF this(1)] show ?thesis by blast
qed

text \<open>
  C3. In a well-formed state, a frame whose tag is in range raises exactly when \<open>fault\<close> says so,
  and with that exception: an unknown frame type, a DMA state whose stack was emptied, a DMA tag
  outside the table, or regular data after its packet was handed on.  Every other frame is
  processed.
\<close>

theorem process_packet_faults:
  assumes "recon_inv s" and "h_tag (p_header p) < 32"
  shows "process_packet s p = Inl e \<longleftrightarrow> fault s p = Some e"
  using process_packet_raises [OF assms] .

theorem process_packet_faults_witness:
  "process_packet (recon_init 512) (frame 0x99 0 1 empty_header []) = Inl KeyError"
proof -
  have "h_tag (p_header (frame 0x99 0 1 empty_header [])) < 32" by (simp add: example_defs)
  from process_packet_faults [OF recon_inv_init this, of 512 KeyError] show ?thesis
    by (simp add: fault_def type_lookup_def frame_def)
qed

text \<open>
  A missing frame (a sequence number that does not follow a last number other than 0)
  discards everything that was open: nothing is handed on, the sequence check starts afresh, and
  the only tag that can be open afterwards is one the frame itself has just opened.
\<close>

theorem gap_discards_transactions:
  assumes "last_packet_seqno s = Some l" and "l \<noteq> 0"
    and "h_lophi_seqn (p_header p) \<noteq> (l + 1) mod 65536"
    and "process_packet s p = Inr (s', out)"
  shows "out = None \<and> last_packet_seqno s' = None \<and>
    (\<forall>t. slots_of s' t = None \<or> t = h_tag (p_header p) \<and> h_type (p_header p) = RegisterFIS_HtoD)"
  using assms
  by (auto simp: process_packet_def check_seqno_def dispatch_frame_def state_frame_def idle_frame_def
      handle_set_device_bits_def handle_ncq_register_DTH_def handle_pio_setup_def
      handle_dma_setup_def handle_register_HTD_def reset_state_def reset_ncq_def slots_of_def
      index_at_def nth_list_update Let_def res_simps split: if_splits)

theorem gap_discards_transactions_witness:
  "\<exists>s' out. process_packet ((recon_init 2)\<lparr>last_packet_seqno := Some 7\<rparr>) (dma_read 9 3 2) = Inr (s', out) \<and>
     out = None \<and> last_packet_seqno s' = None"
proof -
  let ?s = "(recon_init 2)\<lparr>last_packet_seqno := Some 7\<rparr>"
  have h: "last_packet_seqno ?s = Some 7" "(7::nat) \<noteq> 0"
    "h_lophi_seqn (p_header (dma_read 9 3 2)) \<noteq> (7 + 1) mod 65536"
    by (simp_all add: example_defs)
  obtain s' out where "process_packet ?s (dma_read 9 3 2) = Inr (s', out)"
    by (simp add: run_defs example_defs recon_init_def Let_def)
  with gap_discards_transactions [OF h this] show ?thesis by blast
qed

text \<open>
  After a frame with sequence number 0 no gap is noticed: a data frame with any number at all
  completes the open transfer as if it were the next one.
\<close>

theorem gap_after_zero_unnoticed:
  assumes "transferring su s" and "last_packet_seqno s = Some 0"
    and "is_data (data_direction su) p"
    and "h_transfer_count (p_header su) \<le> ncq_data_len s + length (payload p)"
  shows "\<exists>s' out. process_packet s p = Inr (s', out) \<and>
    spec_transfer (tag_of su) (bytes_of (ncq_data_packets s @ [p])) (slots_of s) =
      (slots_of s', outputs out)"
proof -
  let ?s = "s\<lparr>last_packet_seqno := None\<rparr>"
  have tr: "transferring su ?s"
    using assms(1) by (auto simp: transferring_def recon_inv_def slots_of_def)
  have same: "process_packet s p = process_packet ?s p"
    using assms(2) by (simp add: process_packet_def check_seqno_def Let_def)
  have "process_packet ?s p = finish_dma_transfer (queue_data p ?s) (tag_of su)"
    using data_step [OF tr assms(3)] assms(4) by (simp add: follows_def)
  moreover have "slots_of (queue_data p ?s) = slots_of s"
    "ncq_data_packets (queue_data p ?s) = ncq_data_packets s @ [p]"
    by (simp_all add: queue_data_def slots_of_def fun_eq_iff)
  ultimately show ?thesis
    using finish_step [OF transferring_queue_data [OF tr, of p]] same by auto
qed

definition example_transfer :: "nat \<Rightarrow> recon" where
  "example_transfer seqn = (recon_init 2)\<lparr>
     ncq_transactions_outstanding := (replicate 32 None)[3 := Some (queued_read 9 3 100 1)],
     ncq_data_outstanding := (replicate 32 None)[3 := Some (new_disk_sensor_packet 100 1 0 2)],
     ncq_dma_stack := [dma_read seqn 3 2], last_packet_seqno := Some seqn,
     STATE := WAIT_FOR_DMA_DATA_DEVICE\<rparr>"

lemma example_transferring: "transferring (dma_read seqn 3 2) (example_transfer seqn)"
  by (simp add: transferring_def example_transfer_def recon_inv_def slots_of_def recon_init_def
      example_defs data_direction_def new_disk_sensor_packet_def slots_update)

theorem gap_after_zero_unnoticed_witness:
  "\<exists>s' out. process_packet (example_transfer 0) (device_data 4242 [5, 6]) = Inr (s', out) \<and>
     length (outputs out) = 1"
proof -
  let ?p = "device_data 4242 [5, 6]" and ?su = "dma_read 0 3 2"
  have h: "last_packet_seqno (example_transfer 0) = Some 0" "is_data (data_direction ?su) ?p"
    "h_transfer_count (p_header ?su) \<le> ncq_data_len (example_transfer 0) + length (payload ?p)"
    by (simp_all add: example_transfer_def example_defs is_data_def data_direction_def payload_def)
  obtain s' out where r: "process_packet (example_transfer 0) ?p = Inr (s', out)"
    and sp: "spec_transfer (tag_of ?su) (bytes_of (ncq_data_packets (example_transfer 0) @ [?p]))
      (slots_of (example_transfer 0)) = (slots_of s', outputs out)"
    using gap_after_zero_unnoticed [OF example_transferring h] by blast
  have "length (snd (spec_transfer (tag_of ?su) (bytes_of (ncq_data_packets (example_transfer 0) @ [?p]))
      (slots_of (example_transfer 0)))) = 1"
    by (simp add: spec_transfer_def example_transfer_def recon_init_def slots_of_def example_defs
        bytes_of_def payload_def add_data_def complete_def new_disk_sensor_packet_def)
  with sp have "length (outputs out) = 1" by simp
  with r show ?thesis by blast
qed

text \<open>
  A device error in the middle of a DMA transfer empties the DMA stack but keeps the DMA
  state, so the next frame that is neither the expected data nor handled in every state raises
  \<^verbatim>\<open>IndexError\<close> from \<^verbatim>\<open>ncq_dma_stack.pop()\<close>.
\<close>

theorem device_error_then_frame_raises:
  assumes "transferring su s" and "in_sequence (last_packet_seqno s) [e, q]"
    and "h_type (p_header e) = SetDeviceBitsFIS" and "h_status_lo (p_header e) AND 1 = 1"
    and "h_type (p_header q) \<in> set type_lookup" and "\<not> passes_by (p_header q)"
    and "\<not> is_data (data_direction su) q"
  shows "recon_run s [e, q] = Inl IndexError"
proof -
  let ?s1 = "reset_ncq (s\<lparr>total_frames := total_frames s + 1,
      last_packet_seqno := Some (h_lophi_seqn (p_header e))\<rparr>)"
  have e: "process_packet s e = Inr (?s1, None)"
    using assms(2-4)
    by (simp add: process_in_sequence type_lookup_def dispatch_frame_def handle_set_device_bits_def)
  have "last_packet_seqno ?s1 = Some (h_lophi_seqn (p_header e))" "ncq_dma_stack ?s1 = []"
    "STATE ?s1 = STATE s"
    by (simp_all add: reset_ncq_def)
  moreover have "data_direction su = 0 \<or> data_direction su = 1" by (simp add: data_direction_def)
  ultimately have "process_packet ?s1 q = Inl IndexError"
    using assms
    by (auto simp: process_in_sequence not_passing_dispatch state_frame_def dma_data_frame_def
        transferring_def is_data_def Let_def)
  with e show ?thesis by (simp add: recon_run_def)
qed

theorem device_error_then_frame_raises_witness:
  "recon_run (example_transfer 10) [device_error 11, dma_read 12 3 2] = Inl IndexError"
  by (rule device_error_then_frame_raises [OF example_transferring])
    (simp_all add: example_transfer_def example_defs follows_def type_lookup_def passes_by_def
      is_data_def)

section \<open>Regular transfers\<close>

text \<open>A register frame that opens a regular (unqueued) transfer, and the packet it opens.\<close>

definition is_regular_register :: "physical_packet \<Rightarrow> bool" where
  "is_regular_register p \<longleftrightarrow>
     (let h = p_header p in
      h_type h = RegisterFIS_HtoD \<and> h_direction h = HOST_TO_DEVICE \<and> h_C h \<noteq> 0 \<and>
      \<not> is_ncq_command (h_command h) \<and> h_command h \<noteq> NCQQueueManagement)"

definition regular_request :: "nat \<Rightarrow> sata_header \<Rightarrow> disk_sensor_packet" where
  "regular_request ss h =
     new_disk_sensor_packet (h_lba h) (h_count h) (h_direction h) (h_count h * ss)"

definition regular_open :: "disk_sensor_packet \<Rightarrow> recon \<Rightarrow> bool" where
  "regular_open d s \<longleftrightarrow>
     STATE s = WAIT_FOR_NON_NCQ_DATA \<and> regular_disk_sensor_packet s = Some d \<and>
     regular_register_stack s \<noteq> []"

lemma regular_data_step:
  assumes "regular_open d s" and "h_type (p_header p) = DataFIS"
    and "follows (last_packet_seqno s) p"
  shows "process_packet s p =
    (let s1 = s\<lparr>total_frames := total_frames s + 1,
                last_packet_seqno := Some (h_lophi_seqn (p_header p))\<rparr>;
         d1 = add_data (payload p) d
     in if complete d1
        then Inr (s1\<lparr>regular_disk_sensor_packet := None, STATE := DEVICE_IDLE\<rparr>,
                  Some [d1\<lparr>d_direction := Some (h_direction (p_header p))\<rparr>])
        else Inr (s1\<lparr>regular_disk_sensor_packet := Some d1\<rparr>, None))"
  using assms
  by (simp add: process_in_sequence type_lookup_def dispatch_frame_def state_frame_def
      non_ncq_frame_def handle_non_ncq_data_packet_def regular_open_def add_data_def complete_def
      Let_def)

lemma regular_data_phase:
  assumes "regular_open d s" and "list_all (\<lambda>p. h_type (p_header p) = DataFIS) ps"
    and "fills (d_size d) (length (d_data d)) ps" and "in_sequence (last_packet_seqno s) ps"
  shows "\<exists>s'. recon_run s ps =
      Inr (s', [(add_data (bytes_of ps) d)\<lparr>d_direction := Some (h_direction (p_header (last ps)))\<rparr>]) \<and>
    STATE s' = DEVICE_IDLE \<and> regular_disk_sensor_packet s' = None \<and>
    regular_register_stack s' = regular_register_stack s"
  using assms
proof (induction ps arbitrary: s d)
  case (Cons p ps)
  let ?d = "add_data (payload p) d"
  note step = regular_data_step [OF Cons.prems(1), of p]
  show ?case
  proof (cases "complete ?d")
    case True
    with Cons.prems(3) have "ps = []" by (simp add: complete_def add_data_def)
    with True step Cons.prems show ?thesis
      by (simp add: recon_run_def Let_def bytes_of_def)
  next
    case False
    let ?s1 = "s\<lparr>total_frames := total_frames s + 1,
        last_packet_seqno := Some (h_lophi_seqn (p_header p)), regular_disk_sensor_packet := Some ?d\<rparr>"
    from False Cons.prems have fills: "fills (d_size ?d) (length (d_data ?d)) ps"
      by (simp add: complete_def add_data_def)
    then have "ps \<noteq> []" by auto
    from False Cons.prems step have "process_packet s p = Inr (?s1, None)" by (simp add: Let_def)
    moreover have "regular_open ?d ?s1" using Cons.prems(1) by (simp add: regular_open_def)
    moreover have "add_data (bytes_of ps) ?d = add_data (bytes_of (p # ps)) d"
      by (simp add: add_data_def bytes_of_def)
    ultimately show ?thesis
      using Cons.IH [of ?d ?s1] Cons.prems fills \<open>ps \<noteq> []\<close> by (auto simp: recon_run_def)
  qed
qed simp

text \<open>
  A regular read or write, in whatever state it starts: the register frame and the data frames
  up to the announced size give exactly one packet, with the sector and count of the register frame,
  all the payload bytes in order and the direction of the last data frame, and the machine is idle
  again.  The register frame stays on the stack.
\<close>

theorem regular_transfer_delivers:
  assumes "is_regular_register r" and "list_all (\<lambda>p. h_type (p_header p) = DataFIS) ps"
    and "fills (h_count (p_header r) * sector_size s) 0 ps"
    and "in_sequence (last_packet_seqno s) (r # ps)"
  shows "\<exists>s'. recon_run s (r # ps) =
      Inr (s', [(add_data (bytes_of ps) (regular_request (sector_size s) (p_header r)))
                  \<lparr>d_direction := Some (h_direction (p_header (last ps)))\<rparr>]) \<and>
    STATE s' = DEVICE_IDLE \<and> regular_disk_sensor_packet s' = None \<and>
    regular_register_stack s' = regular_register_stack s @ [r]"
proof -
  let ?d = "regular_request (sector_size s) (p_header r)"
  let ?s1 = "s\<lparr>total_frames := total_frames s + 1,
      last_packet_seqno := Some (h_lophi_seqn (p_header r)),
      regular_register_stack := regular_register_stack s @ [r],
      regular_disk_sensor_packet := Some ?d, STATE := WAIT_FOR_NON_NCQ_DATA\<rparr>"
  have "process_packet s r = Inr (?s1, None)"
    using assms(1,4)
    by (simp add: process_in_sequence type_lookup_def dispatch_frame_def handle_register_HTD_def
        is_regular_register_def regular_request_def Let_def)
  moreover have "regular_open ?d ?s1" by (simp add: regular_open_def)
  moreover have "fills (d_size ?d) (length (d_data ?d)) ps"
    using assms(3) by (simp add: regular_request_def new_disk_sensor_packet_def)
  ultimately show ?thesis
    using regular_data_phase [of ?d ?s1 ps] assms(2,4) by (auto simp: recon_run_def)
qed

theorem regular_transfer_delivers_witness:
  "\<exists>s'. recon_run (recon_init 2) [plain_read 5 77 1, device_data 6 [1], device_data 7 [2]] =
      Inr (s', [\<lparr>d_sector = 77, d_num_sectors = 1, d_disk_operation = 0, d_size = 2, d_data = [1, 2],
                 d_direction = Some 1\<rparr>])"
proof -
  let ?r = "plain_read 5 77 1" and ?ps = "[device_data 6 [1], device_data 7 [2]]"
  have 1: "is_regular_register ?r"
    by (simp add: is_regular_register_def example_defs is_ncq_command_def)
  have 2: "list_all (\<lambda>p. h_type (p_header p) = DataFIS) ?ps" by (simp add: example_defs)
  have 3: "fills (h_count (p_header ?r) * sector_size (recon_init 2)) 0 ?ps"
    by (simp add: example_defs payload_def)
  have 4: "in_sequence (last_packet_seqno (recon_init 2)) (?r # ?ps)"
    by (simp add: example_defs follows_def)
  show ?thesis using regular_transfer_delivers [OF 1 2 3 4]
    by (auto simp: regular_request_def new_disk_sensor_packet_def add_data_def bytes_of_def
        payload_def example_defs)
qed

text \<open>
  Register frames of regular transfers are never taken off their stack again, whatever the
  frames are; and once one is there while no packet is open, a PIO setup frame followed by a data
  frame raises \<^verbatim>\<open>AttributeError\<close>.
\<close>

theorem finished_transfer_then_pio_raises:
  assumes "recon_run s ps = Inr (s', outs)" and "regular_register_stack s \<noteq> []"
    and "regular_disk_sensor_packet s' = None" and "in_sequence (last_packet_seqno s') [q, p]"
    and "h_type (p_header q) = PIOSetupFIS" and "h_type (p_header p) = DataFIS"
  shows "recon_run s (ps @ [q, p]) = Inl AttributeError"
proof -
  let ?s1 = "s'\<lparr>total_frames := total_frames s' + 1,
      last_packet_seqno := Some (h_lophi_seqn (p_header q)), STATE := WAIT_FOR_NON_NCQ_DATA\<rparr>"
  from assms(1,2) have stack: "regular_register_stack s' \<noteq> []"
    using packet.loop_keeps_stack [of s ps s' outs] by (auto simp: recon_run_def)
  have "process_packet s' q = Inr (?s1, None)"
    using assms(4,5)
    by (simp add: process_in_sequence type_lookup_def dispatch_frame_def handle_pio_setup_def)
  moreover have "process_packet ?s1 p = Inl AttributeError"
    using assms(3-6) stack
    by (simp add: process_in_sequence type_lookup_def dispatch_frame_def state_frame_def
        non_ncq_frame_def handle_non_ncq_data_packet_def)
  ultimately show ?thesis using assms(1) by (simp add: recon_run_def frame_loop_append)
qed

theorem finished_transfer_then_pio_raises_witness:
  "recon_run ((recon_init 2)\<lparr>regular_register_stack := [plain_read 5 77 1]\<rparr>)
     ([] @ [pio_setup_frame 6, device_data 7 [1, 2]]) = Inl AttributeError"
proof -
  let ?s = "(recon_init 2)\<lparr>regular_register_stack := [plain_read 5 77 1]\<rparr>"
  have "recon_run ?s [] = Inr (?s, [])" by (simp add: recon_run_def)
  then show ?thesis
    by (rule finished_transfer_then_pio_raises)
      (simp_all add: recon_init_def example_defs follows_def)
qed

end
