(* ===== verification/DiskPipeline.thy ===== *)
theory DiskPipeline
  imports DiskEngine SataProperties
begin

text \<open>
  From the frames on the SATA link to the rows of the report: the reconstructor, the volume of a sector, the
  table of sectors and the joining of operations, put together the way \<^verbatim>\<open>DiskEngine.run\<close> does it.
\<close>

section \<open>One read of a file\<close>

text \<open>A packet that reads sectors of one file of an NTFS volume, the data complete.\<close>

definition file_read_packet :: "disk_volume list \<Rightarrow> string \<Rightarrow> disk_sensor_packet \<Rightarrow> bool" where
  "file_read_packet VOLUMES path d \<longleftrightarrow>
     (\<exists>i v inode. get_volume VOLUMES (int (d_sector d)) = Inr (Some i) \<and> vol_to_se (VOLUMES ! i) = NTFS v \<and>
        d_disk_operation d \<noteq> DIRECTION_WRITE \<and> 0 < d_num_sectors d \<and> 1 < d_sector d \<and> 0 < SECTOR_SIZE v \<and>
        length (d_data d) = d_num_sectors d * nat (SECTOR_SIZE v) \<and> inode \<noteq> 0 \<and> fs_inode_to_path v inode = Some path \<and>
        (\<forall>s. int (d_sector d) \<le> s \<and> s < int (d_sector d) + int (d_num_sectors d) \<longrightarrow> fs_sector_to_inode v s = Some inode))"

lemma read_operations_joinable:
  assumes "\<And>s. sector \<le> s \<Longrightarrow> s < sector + int n \<Longrightarrow> fs_sector_to_inode v s = Some inode"
  shows "successively joinable (map (read_operation v sector data) [0..int n - 1])"
proof -
  have inode: "op_inode (read_operation v sector data i) = Inode inode" if "0 \<le> i" "i < int n" for i
    using assms [of "sector + i"] that by (simp add: read_operation_def fs_op_def Let_def)
  have sec: "op_sector (read_operation v sector data i) = sector + i" for i
    by (simp add: read_operation_def fs_op_def Let_def split: option.split)
  have "successively joinable (map (read_operation v sector data) (map int [0..<m]))" if "m \<le> n" for m
    using that
  proof (induction m)
    case (Suc m)
    show ?case
    proof (cases m)
      case (Suc k)
      have "joinable (read_operation v sector data (int k)) (read_operation v sector data (int m))"
        using inode [of "int k"] inode [of "int m"] sec Suc Suc.prems by (simp add: joinable_def)
      then show ?thesis using Suc.IH Suc.prems Suc by (simp add: successively_append_iff)
    qed simp
  qed simp
  then show ?thesis using upto_nat [of 0 n] by simp
qed

lemma file_read_access:
  assumes "file_read_packet VOLUMES path d"
  shows "\<exists>o1 ops. disk_get_access T (int (d_sector d)) (int (d_num_sectors d)) (d_disk_operation d) (d_data d) VOLUMES =
      (Inr (Some (o1 # ops)), VOLUMES) \<and> successively joinable (o1 # ops) \<and> op_type o1 = ''[CONTENT READ]'' \<and>
      op_filename o1 = path \<and> op_sector o1 = int (d_sector d) \<and> semantic_data o1 = []"
proof -
  obtain i v inode where v: "get_volume VOLUMES (int (d_sector d)) = Inr (Some i)" "vol_to_se (VOLUMES ! i) = NTFS v"
    and w: "d_disk_operation d \<noteq> DIRECTION_WRITE" and n: "0 < d_num_sectors d" "1 < d_sector d"
    and p: "inode \<noteq> 0" "fs_inode_to_path v inode = Some path"
    and t: "\<And>s. int (d_sector d) \<le> s \<Longrightarrow> s < int (d_sector d) + int (d_num_sectors d) \<Longrightarrow> fs_sector_to_inode v s = Some inode"
    using assms unfolding file_read_packet_def by blast
  let ?op = "read_operation v (int (d_sector d)) (d_data d)"
  have "[0..int (d_num_sectors d) - 1] = 0 # [1..int (d_num_sectors d) - 1]" using n by (simp add: upto_rec1)
  then have ops: "map ?op [0..int (d_num_sectors d) - 1] = ?op 0 # map ?op [1..int (d_num_sectors d) - 1]" by simp
  have "VOLUMES[i := (VOLUMES ! i)\<lparr>vol_to_se := NTFS v\<rparr>] = VOLUMES" using v(2) by (metis list_update_id disk_volume.surjective disk_volume.update_convs(3) disk_volume.select_convs(3))
  then have "disk_get_access T (int (d_sector d)) (int (d_num_sectors d)) (d_disk_operation d) (d_data d) VOLUMES =
      (Inr (Some (?op 0 # map ?op [1..int (d_num_sectors d) - 1])), VOLUMES)"
    using v w ops by (simp add: disk_get_access_def get_access_def)
  moreover have "successively joinable (?op 0 # map ?op [1..int (d_num_sectors d) - 1])"
    using read_operations_joinable [of "int (d_sector d)" "d_num_sectors d" v inode "d_data d"] t ops by simp
  moreover have "op_type (?op 0) = ''[CONTENT READ]'' \<and> op_filename (?op 0) = path \<and>
      op_sector (?op 0) = int (d_sector d) \<and> semantic_data (?op 0) = []"
    using t [of "int (d_sector d)"] n p by (simp add: read_operation_def fs_op_def Let_def path_or_unknown_def)
  ultimately show ?thesis by blast
qed

lemma file_reads_reported:
  "list_all2 (file_read_packet VOLUMES) paths ds \<Longrightarrow>
     report_packets T strftime key_order now ds VOLUMES =
       (map2 (\<lambda>p d. [(now, ''[CONTENT READ]'', Some p, int (d_sector d), [])]) paths ds, VOLUMES)"
proof (induction paths ds rule: list_all2_induct)
  case (Cons p ps d ds)
  obtain o1 ops where o1: "disk_get_access T (int (d_sector d)) (int (d_num_sectors d)) (d_disk_operation d) (d_data d) VOLUMES =
      (Inr (Some (o1 # ops)), VOLUMES)" "successively joinable (o1 # ops)" "op_type o1 = ''[CONTENT READ]''"
      "op_filename o1 = p" "op_sector o1 = int (d_sector d)" "semantic_data o1 = []"
    using file_read_access [OF Cons(1)] by blast
  have "parse_actions strftime key_order now (Some (o1 # ops)) = Some [(now, ''[CONTENT READ]'', Some p, int (d_sector d), [])]"
    using o1 aggregate_run [OF o1(2)] by (simp add: parse_actions_def action_rows_def merged_def)
  then show ?case using Cons(3) o1(1) by simp
qed simp

lemma engine_run_recon:
  "recon_run s ps = Inr (s', outs) \<Longrightarrow>
     engine_run T strftime key_order now ps s VOLUMES =
       (None, fst (report_packets T strftime key_order now outs VOLUMES), snd (report_packets T strftime key_order now outs VOLUMES))"
proof (induction ps arbitrary: s outs VOLUMES)
  case Nil
  then show ?case by (simp add: recon_run_def)
next
  case (Cons p ps)
  from Cons.prems obtain s1 out outs1 where p: "process_packet s p = Inr (s1, out)" "recon_run s1 ps = Inr (s', outs1)"
    "outs = (case out of None \<Rightarrow> [] | Some ds \<Rightarrow> ds) @ outs1"
    by (auto simp: recon_run_def res_simps)
  have "report_packets T strftime key_order now (xs @ ys) V =
    (fst (report_packets T strftime key_order now xs V) @
       fst (report_packets T strftime key_order now ys (snd (report_packets T strftime key_order now xs V))),
     snd (report_packets T strftime key_order now ys (snd (report_packets T strftime key_order now xs V))))" for xs ys V
    by (induction xs arbitrary: V) (auto split: prod.splits sum.splits option.splits)
  then show ?case using p Cons.IH [OF p(2)] by (simp add: Let_def split: prod.splits)
qed

section \<open>Properties\<close>



end
