(* ===== verification/PyStruct.thy ===== *)
theory PyStruct
  imports Prelude
begin

text \<open>
  C-style structures in Python, \<^verbatim>\<open>lophi/data.py\<close>: the class \<^verbatim>\<open>DataStruct\<close> and the packet
  formats defined with it.  A structure is its list of (name, format) pairs; an object keeps a
  dictionary of attributes, the packed bytes and the data after the structure.
\<close>

section \<open>Formats of the struct module\<close>

text \<open>
  One format per field, as LO-PHI uses them: an unsigned integer (byte order, leading pad bytes,
  width), a byte string of fixed length, and a single-precision float kept as its bit pattern.
\<close>

datatype fmt = FInt bool nat nat | FStr nat | FFloat

datatype pyval = VNone | VInt int | VStr bytes | VFloat "32 word" | VSeq "int list"

fun calcsize :: "fmt \<Rightarrow> nat" where
  "calcsize (FInt big pad w) = pad + w"
| "calcsize (FStr n) = n"
| "calcsize FFloat = 4"

definition int_bytes :: "bool \<Rightarrow> nat \<Rightarrow> nat \<Rightarrow> bytes" where
  "int_bytes big w v = (if big then be_bytes w v else le_bytes w v)"

definition int_val :: "bool \<Rightarrow> bytes \<Rightarrow> nat" where
  "int_val big bs = (if big then be_val bs else le_val bs)"

fun struct_pack :: "fmt \<Rightarrow> pyval \<Rightarrow> bytes res" where
  "struct_pack (FInt big pad w) (VInt i) =
     (if 0 \<le> i \<and> i < 256 ^ w then Inr (replicate pad 0 @ int_bytes big w (nat i))
      else Inl StructError)"
| "struct_pack (FStr n) (VStr s) = Inr (take n (s @ replicate n 0))"
| "struct_pack FFloat (VFloat x) = Inr (be_bytes 4 (unat x))"
| "struct_pack _ _ = Inl StructError"

fun struct_unpack :: "fmt \<Rightarrow> bytes \<Rightarrow> pyval" where
  "struct_unpack (FInt big pad w) bs = VInt (int (int_val big (drop pad bs)))"
| "struct_unpack (FStr n) bs = VStr bs"
| "struct_unpack FFloat bs = VFloat (word_of_nat (be_val bs))"

text \<open>The values a field holds after an unpack, and packs again without loss.\<close>

fun fits :: "fmt \<Rightarrow> pyval \<Rightarrow> bool" where
  "fits (FInt big pad w) (VInt i) \<longleftrightarrow> 0 \<le> i \<and> i < 256 ^ w"
| "fits (FStr n) (VStr s) \<longleftrightarrow> length s = n"
| "fits FFloat (VFloat x) \<longleftrightarrow> True"
| "fits _ _ \<longleftrightarrow> False"

section \<open>The class DataStruct\<close>

type_synonym fields = "(string \<times> fmt) list"

record data_struct =
  ds_struct :: fields
  ds_dict :: "string \<rightharpoonup> pyval"
  ds_raw :: "bytes option"
  ds_data :: "bytes option"

definition struct_size :: "fields \<Rightarrow> nat" where
  "struct_size fs = sum_list (map (calcsize \<circ> snd) fs)"

text \<open>\<^verbatim>\<open>self.__dict__[key]\<close> for a key of the structure.\<close>

definition attr :: "(string \<rightharpoonup> pyval) \<Rightarrow> string \<Rightarrow> pyval" where
  "attr m k = (case m k of None \<Rightarrow> VNone | Some v \<Rightarrow> v)"

text \<open>
  One turn of the loop of \<^verbatim>\<open>_pack\<close>.  The message for a sequence of the wrong length has three
  conversions and one argument, so building it raises \<^verbatim>\<open>TypeError\<close>.
\<close>

fun pack_value :: "fmt \<Rightarrow> pyval \<Rightarrow> bytes res" where
  "pack_value f VNone = Inr (replicate (calcsize f) 0)"
| "pack_value f (VSeq xs) =
     (if length xs \<noteq> calcsize f then Inl TypeError
      else case xs of [x] \<Rightarrow> struct_pack f (VInt x) | _ \<Rightarrow> Inl StructError)"
| "pack_value f v = struct_pack f v"

text \<open>\<^verbatim>\<open>_pack\<close>: the bytes packed so far, and the exception if one was raised.\<close>

fun pack_loop :: "fields \<Rightarrow> (string \<rightharpoonup> pyval) \<Rightarrow> bytes \<Rightarrow> bytes \<times> py_error option" where
  "pack_loop [] m raw = (raw, None)"
| "pack_loop ((k, f) # fs) m raw =
     (case pack_value f (attr m k) of
        Inl e \<Rightarrow> (raw, Some e)
      | Inr bs \<Rightarrow> pack_loop fs m (raw @ bs))"

definition ds_pack :: "data_struct \<Rightarrow> data_struct \<times> py_error option" where
  "ds_pack s = (let (raw, e) = pack_loop (ds_struct s) (ds_dict s) [] in (s\<lparr>ds_raw := Some raw\<rparr>, e))"

text \<open>
  \<^verbatim>\<open>__setattr__\<close>: every key of the structure that is the name packs again; \<^verbatim>\<open>_pack\<close> returns
  \<^verbatim>\<open>True\<close> or raises, so the old value is never restored.
\<close>

fun pack_for :: "string list \<Rightarrow> string \<Rightarrow> data_struct \<Rightarrow> data_struct \<times> py_error option" where
  "pack_for [] key s = (s, None)"
| "pack_for (k # ks) key s =
     (if k = key then (case ds_pack s of (s1, Some e) \<Rightarrow> (s1, Some e) | (s1, None) \<Rightarrow> pack_for ks key s1)
      else pack_for ks key s)"

definition ds_setattr :: "string \<Rightarrow> pyval \<Rightarrow> data_struct \<Rightarrow> data_struct \<times> py_error option" where
  "ds_setattr key v s = pack_for (map fst (ds_struct s)) key (s\<lparr>ds_dict := (ds_dict s)(key \<mapsto> v)\<rparr>)"

text \<open>A sequence of assignments, which ends at the first one that raises.\<close>

definition then_set :: "data_struct res \<Rightarrow> string \<Rightarrow> pyval \<Rightarrow> data_struct res" where
  "then_set r k v =
     bindE r (\<lambda>s. case ds_setattr k v s of (s1, None) \<Rightarrow> Inr s1 | (_, Some e) \<Rightarrow> Inl e)"

definition ds_set_data :: "bytes option \<Rightarrow> data_struct \<Rightarrow> data_struct" where
  "ds_set_data d s = s\<lparr>ds_data := d\<rparr>"

fun unpack_loop :: "fields \<Rightarrow> bytes \<Rightarrow> (string \<rightharpoonup> pyval) \<Rightarrow> (string \<rightharpoonup> pyval)" where
  "unpack_loop [] raw m = m"
| "unpack_loop ((k, f) # fs) raw m =
     unpack_loop fs (drop (calcsize f) raw) (m(k \<mapsto> struct_unpack f (take (calcsize f) raw)))"

definition ds_unpack :: "bytes \<Rightarrow> data_struct \<Rightarrow> data_struct" where
  "ds_unpack bs s =
     (let n = struct_size (ds_struct s) in
      if length bs < n then s
      else let s1 = (if length bs > n then s\<lparr>ds_data := Some (drop n bs)\<rparr> else s)
           in s1\<lparr>ds_raw := Some (take n bs), ds_dict := unpack_loop (ds_struct s) (take n bs) (ds_dict s)\<rparr>)"

text \<open>
  \<^verbatim>\<open>__init__\<close>: all fields \<^verbatim>\<open>None\<close>, then the data is unpacked or the buffer is zeroed.  An
  object made from too little data has no \<^verbatim>\<open>struct_raw_data\<close> at all.
\<close>

definition ds_blank :: "fields \<Rightarrow> data_struct" where
  "ds_blank fs = \<lparr>ds_struct = fs, ds_dict = (\<lambda>k. if k \<in> fst ` set fs then Some VNone else None),
     ds_raw = None, ds_data = None\<rparr>"

definition ds_init :: "fields \<Rightarrow> bytes option \<Rightarrow> data_struct" where
  "ds_init fs d =
     (case d of
        Some bs \<Rightarrow> ds_unpack bs (ds_blank fs)
      | None \<Rightarrow> (ds_blank fs)\<lparr>ds_raw := Some (replicate (struct_size fs) 0)\<rparr>)"

definition ds_len :: "data_struct \<Rightarrow> nat" where
  "ds_len s = (case ds_data s of None \<Rightarrow> struct_size (ds_struct s)
               | Some d \<Rightarrow> struct_size (ds_struct s) + length d)"

definition ds_repr :: "data_struct \<Rightarrow> bytes res" where
  "ds_repr s =
     (case ds_raw s of
        None \<Rightarrow> Inl AttributeError
      | Some raw \<Rightarrow> Inr (case ds_data s of None \<Rightarrow> raw | Some d \<Rightarrow> raw @ d))"

text \<open>\<^verbatim>\<open>__eq__\<close> compares \<^verbatim>\<open>struct_raw_data[offset:size]\<close> with \<^verbatim>\<open>comp[offset:size]\<close>.\<close>

fun eq_loop :: "fields \<Rightarrow> (string \<rightharpoonup> pyval) \<Rightarrow> bytes \<Rightarrow> bytes \<Rightarrow> nat \<Rightarrow> bool" where
  "eq_loop [] m raw other off = True"
| "eq_loop ((k, f) # fs) m raw other off =
     (if attr m k \<noteq> VNone \<and> slice off (calcsize f) raw \<noteq> slice off (calcsize f) other then False
      else eq_loop fs m raw other (off + calcsize f))"

definition ds_eq :: "data_struct \<Rightarrow> bytes \<Rightarrow> bool res" where
  "ds_eq s other =
     (if length other \<noteq> ds_len s then Inr False
      else case ds_raw s of
             None \<Rightarrow> if \<exists>k \<in> fst ` set (ds_struct s). attr (ds_dict s) k \<noteq> VNone then Inl AttributeError
                     else Inr True
           | Some raw \<Rightarrow> Inr (eq_loop (ds_struct s) (ds_dict s) raw other 0))"

text \<open>\<^verbatim>\<open>__getitem__\<close> for a non-negative index; the guard is \<^verbatim>\<open>index > len(...)\<close>.\<close>

definition ds_getitem :: "data_struct \<Rightarrow> nat \<Rightarrow> byte option res" where
  "ds_getitem s i =
     (case ds_raw s of
        None \<Rightarrow> Inl AttributeError
      | Some raw \<Rightarrow> if i > length raw then bindE (index_at raw i) (\<lambda>b. Inr (Some b)) else Inr None)"

definition ds_keys :: "data_struct \<Rightarrow> string list" where
  "ds_keys s = map fst (ds_struct s)"

definition ds_values :: "data_struct \<Rightarrow> pyval list" where
  "ds_values s = map (\<lambda>k. if attr (ds_dict s) k = VNone then VStr [] else attr (ds_dict s) k) (ds_keys s)"

section \<open>Packet formats\<close>

definition DiskSensorPacket :: fields where
  "DiskSensorPacket = [(''sector'', FInt False 0 8), (''num_sectors'', FInt False 0 4),
     (''disk_operation'', FInt False 0 4), (''size'', FInt False 0 4)]"

definition MemorySensorPacket :: fields where
  "MemorySensorPacket = [(''name'', FStr 25), (''address'', FInt False 0 8), (''length'', FInt False 0 4)]"

definition MemoryRapidPacket :: fields where
  "MemoryRapidPacket = [(''MAGIC_LOPHI'', FInt True 0 4), (''address_high'', FInt True 0 4),
     (''operation'', FInt True 0 4), (''address_low'', FInt True 0 4), (''length'', FInt True 0 4),
     (''flags'', FInt True 0 4), (''transaction_no'', FInt True 0 4)]"

definition LOPHIPacket :: fields where
  "LOPHIPacket = [(''MAGIC'', FInt True 0 4), (''RESERVED'', FInt True 0 1), (''op_code'', FInt True 0 1),
     (''memory_addr'', FInt True 0 2), (''memory_len'', FInt True 0 2), (''frame_len'', FInt True 0 2)]"

definition SATAFrame :: fields where
  "SATAFrame = [(''seqn_num'', FInt True 0 2), (''direction'', FInt True 0 2)]"

definition KvmMemRequest :: fields where
  "KvmMemRequest = [(''type'', FInt False 0 8), (''address'', FInt False 0 8), (''length'', FInt False 0 8)]"

section \<open>Fields as codecs\<close>

text \<open>
  What a structure relies on of the format of one field: packing a fitting value gives the
  announced number of bytes, unpacking gives the value back, and every string of that length
  unpacks to a fitting value.
\<close>

locale field_format =
  fixes pack :: "'f \<Rightarrow> pyval \<Rightarrow> bytes res"
    and unpack :: "'f \<Rightarrow> bytes \<Rightarrow> pyval"
    and width :: "'f \<Rightarrow> nat"
    and fit :: "'f \<Rightarrow> pyval \<Rightarrow> bool"
  assumes pack_fit: "fit f v \<Longrightarrow> \<exists>bs. pack f v = Inr bs \<and> length bs = width f \<and> unpack f bs = v"
    and unpack_fit: "length bs = width f \<Longrightarrow> fit f (unpack f bs)"
begin

lemma pack_prefix:
  assumes "fit f v"
  shows "\<exists>bs. pack f v = Inr bs \<and> length bs = width f \<and>
    (\<forall>rest. unpack f (take (width f) (bs @ rest)) = v \<and> drop (width f) (bs @ rest) = rest)"
  using pack_fit [OF assms] by auto

lemma pack_inj: "fit f v \<Longrightarrow> fit f w \<Longrightarrow> pack f v = pack f w \<Longrightarrow> v = w"
  using pack_fit [of f v] pack_fit [of f w] by auto

lemma unpack_fit_slice: "width f \<le> length bs \<Longrightarrow> fit f (unpack f (take (width f) bs))"
  by (rule unpack_fit) simp

end

lemma int_val_bytes: "v < 256 ^ w \<Longrightarrow> int_val big (int_bytes big w v) = v"
  by (simp add: int_val_def int_bytes_def le.dec_enc be.dec_enc)

lemma length_int_bytes [simp]: "length (int_bytes big w v) = w"
  by (simp add: int_bytes_def)

lemma int_val_bound: "int_val big bs < 256 ^ length bs"
  by (simp add: int_val_def le_val_bound be_val_bound)

interpretation struct_field: field_format struct_pack struct_unpack calcsize fits
proof
  fix f v
  assume "fits f v"
  then show "\<exists>bs. struct_pack f v = Inr bs \<and> length bs = calcsize f \<and> struct_unpack f bs = v"
  proof (cases "(f, v)" rule: fits.cases)
    case (1 big pad w i)
    with \<open>fits f v\<close> have "nat i < 256 ^ w" by (simp add: nat_less_iff)
    with 1 \<open>fits f v\<close> show ?thesis by (simp add: int_val_bytes)
  next
    case (3 x)
    then show ?thesis
      using be_val_be_bytes [of "unat x" 4] unsigned_less [of x, where ?'a = nat] by simp
  qed auto
next
  fix bs :: bytes and f
  assume "length bs = calcsize f"
  then show "fits f (struct_unpack f bs)"
  proof (cases f)
    case (FInt big pad w)
    with \<open>length bs = calcsize f\<close> have "length (drop pad bs) = w" by simp
    with int_val_bound [of big "drop pad bs"] have "int_val big (drop pad bs) < 256 ^ w" by simp
    then have "int (int_val big (drop pad bs)) < int (256 ^ w)" by (simp only: of_nat_less_iff)
    with FInt show ?thesis by simp
  qed simp_all
qed

section \<open>Packing and unpacking objects\<close>

text \<open>What a field reads back as: a field that was never set packs as zero bytes.\<close>

definition stored :: "fmt \<Rightarrow> pyval \<Rightarrow> pyval" where
  "stored f v = (if v = VNone then struct_unpack f (replicate (calcsize f) 0) else v)"

definition dict_ok :: "fields \<Rightarrow> (string \<rightharpoonup> pyval) \<Rightarrow> bool" where
  "dict_ok fs m \<longleftrightarrow> list_all (\<lambda>(k, f). attr m k = VNone \<or> fits f (attr m k)) fs"

lemma pack_value_fits: "fits f v \<Longrightarrow> pack_value f v = struct_pack f v"
  by (cases "(f, v)" rule: fits.cases) auto

lemma pack_value_stored:
  assumes "v = VNone \<or> fits f v"
  shows "\<exists>bs. pack_value f v = Inr bs \<and> length bs = calcsize f \<and> struct_unpack f bs = stored f v"
proof (cases "v = VNone")
  case True
  then show ?thesis by (simp add: stored_def)
next
  case False
  with assms show ?thesis using struct_field.pack_fit [of f v] by (auto simp: stored_def pack_value_fits)
qed

lemma unpack_loop_other: "k \<notin> fst ` set fs \<Longrightarrow> unpack_loop fs bs m k = m k"
  by (induction fs arbitrary: bs m) (auto simp: image_iff)

lemma pack_loop_roundtrip:
  assumes "dict_ok fs m" and "distinct (map fst fs)"
  shows "\<exists>bs. (\<forall>raw. pack_loop fs m raw = (raw @ bs, None)) \<and> length bs = struct_size fs \<and>
    (\<forall>m' rest. \<forall>k f. (k, f) \<in> set fs \<longrightarrow> unpack_loop fs (bs @ rest) m' k = Some (stored f (attr m k)))"
  using assms
proof (induction fs)
  case (Cons kf fs)
  obtain k f where kf: "kf = (k, f)" by (cases kf)
  from Cons.prems kf obtain b where b: "pack_value f (attr m k) = Inr b" "length b = calcsize f"
    "struct_unpack f b = stored f (attr m k)"
    using pack_value_stored [of "attr m k" f] by (auto simp: dict_ok_def)
  from Cons kf obtain bs where bs: "\<forall>raw. pack_loop fs m raw = (raw @ bs, None)"
    "length bs = struct_size fs"
    "\<forall>m' rest. \<forall>k f. (k, f) \<in> set fs \<longrightarrow> unpack_loop fs (bs @ rest) m' k = Some (stored f (attr m k))"
    by (auto simp: dict_ok_def)
  have new: "k \<notin> fst ` set fs" using Cons.prems(2) kf by simp
  have "\<forall>m' rest. \<forall>k' f'. (k', f') \<in> set (kf # fs) \<longrightarrow> unpack_loop (kf # fs) ((b @ bs) @ rest) m' k' = Some (stored f' (attr m k'))"
    using b bs(3) unpack_loop_other [OF new] by (auto simp: kf)
  then show ?case
    using b bs(1,2) by (intro exI [of _ "b @ bs"]) (auto simp: kf struct_size_def)
qed (simp add: struct_size_def)

text \<open>An object whose buffer is the packed form of its fields.\<close>

definition packed :: "data_struct \<Rightarrow> bool" where
  "packed s \<longleftrightarrow>
     distinct (map fst (ds_struct s)) \<and> dict_ok (ds_struct s) (ds_dict s) \<and>
     ds_raw s = Some (fst (pack_loop (ds_struct s) (ds_dict s) []))"

lemma pack_for_packs:
  assumes "distinct ks" and "snd (ds_pack s) = None"
  shows "pack_for ks key s = (if key \<in> set ks then fst (ds_pack s) else s, None)"
  using assms
proof (induction ks)
  case (Cons k ks)
  have "pack_for ks key t = (t, None)" if "key \<notin> set ks" for t
    using that by (induction ks) auto
  with Cons show ?case by (cases "ds_pack s") auto
qed simp

lemma dict_ok_update:
  assumes "dict_ok fs m" and "\<And>f. (key, f) \<in> set fs \<Longrightarrow> v = VNone \<or> fits f v"
  shows "dict_ok fs (m(key \<mapsto> v))"
  using assms unfolding dict_ok_def list_all_iff attr_def by fastforce

lemma dict_ok_other: "key \<notin> fst ` set fs \<Longrightarrow> dict_ok fs (m(key \<mapsto> v)) = dict_ok fs m"
  by (induction fs) (auto simp: dict_ok_def attr_def)

lemma ds_pack_ok:
  assumes "dict_ok (ds_struct s) (ds_dict s)" and "distinct (map fst (ds_struct s))"
  shows "snd (ds_pack s) = None \<and> packed (fst (ds_pack s))"
proof -
  obtain bs where "pack_loop (ds_struct s) (ds_dict s) [] = (bs, None)"
    using pack_loop_roundtrip [OF assms] by auto
  with assms show ?thesis by (simp add: ds_pack_def packed_def)
qed

lemma zero_pack:
  assumes "list_all (\<lambda>(k, f). attr m k = VNone) fs"
  shows "pack_loop fs m raw = (raw @ replicate (struct_size fs) 0, None)"
  using assms
  by (induction fs arbitrary: raw) (auto simp: struct_size_def replicate_add)

lemma packed_init:
  assumes "distinct (map fst fs)"
  shows "packed (ds_init fs None)"
proof -
  let ?m = "ds_dict (ds_blank fs)"
  have "list_all (\<lambda>(k, f). attr ?m k = VNone) fs"
    by (auto simp: ds_blank_def attr_def list_all_iff)
  with assms zero_pack [OF this] show ?thesis
    by (auto simp: packed_def ds_init_def dict_ok_def list_all_iff ds_blank_def)
qed

lemma unpack_loop_fits:
  assumes "distinct (map fst fs)" and "struct_size fs \<le> length bs" and "(k, f) \<in> set fs"
  shows "\<exists>v. unpack_loop fs bs m k = Some v \<and> fits f v"
  using assms
proof (induction fs arbitrary: bs m)
  case (Cons kf fs)
  obtain k1 f1 where kf: "kf = (k1, f1)" by (cases kf)
  from Cons.prems(2) kf have len: "calcsize f1 \<le> length bs" "struct_size fs \<le> length (drop (calcsize f1) bs)"
    by (auto simp: struct_size_def)
  show ?case
  proof (cases "k = k1")
    case True
    with Cons.prems kf have "f = f1" by (auto simp: image_iff)
    with Cons.prems True kf len show ?thesis
      by (simp add: unpack_loop_other struct_field.unpack_fit_slice)
  next
    case False
    with Cons kf len show ?thesis by auto
  qed
qed simp

lemma fits_not_None: "fits f v \<Longrightarrow> v \<noteq> VNone"
  by auto

lemma packed_raw:
  assumes "packed s"
  shows "\<exists>bs. ds_raw s = Some bs \<and> length bs = struct_size (ds_struct s) \<and>
    (\<forall>m rest. \<forall>k f. (k, f) \<in> set (ds_struct s) \<longrightarrow> unpack_loop (ds_struct s) (bs @ rest) m k = Some (stored f (attr (ds_dict s) k)))"
  using assms pack_loop_roundtrip [of "ds_struct s" "ds_dict s"] by (auto simp: packed_def)

lemma pack_loop_append:
  assumes "dict_ok pre m" and "distinct (map fst pre)"
  shows "\<exists>bs. length bs = struct_size pre \<and> (\<forall>post raw. pack_loop (pre @ post) m raw = pack_loop post m (raw @ bs))"
  using assms
proof (induction pre)
  case (Cons kf pre)
  obtain k f where kf: "kf = (k, f)" by (cases kf)
  from Cons.prems kf obtain b where b: "pack_value f (attr m k) = Inr b" "length b = calcsize f"
    using pack_value_stored [of "attr m k" f] by (auto simp: dict_ok_def)
  from Cons kf obtain bs where "length bs = struct_size pre"
    "\<forall>post raw. pack_loop (pre @ post) m raw = pack_loop post m (raw @ bs)"
    by (auto simp: dict_ok_def)
  with b show ?case by (intro exI [of _ "b @ bs"]) (auto simp: kf struct_size_def)
qed (simp add: struct_size_def)

fun no_pad :: "fmt \<Rightarrow> bool" where
  "no_pad (FInt big pad w) \<longleftrightarrow> pad = 0"
| "no_pad _ \<longleftrightarrow> True"

lemma unpack_then_pack:
  "no_pad f \<Longrightarrow> length bs = calcsize f \<Longrightarrow> pack_value f (struct_unpack f bs) = Inr bs"
proof (cases f)
  case (FInt big pad w)
  moreover assume "no_pad f" and len: "length bs = calcsize f"
  ultimately have w: "pad = 0" "length bs = w" by simp_all
  have "int_val big bs < 256 ^ w" using int_val_bound [of big bs] w(2) by simp
  then have "int (int_val big bs) < 256 ^ w" by (metis of_nat_less_iff of_nat_numeral of_nat_power)
  moreover have "int_bytes big w (int_val big bs) = bs"
    using w(2) by (auto simp: int_bytes_def int_val_def le_bytes_le_val be_bytes_be_val)
  ultimately show ?thesis using FInt w(1) by simp
next
  case FFloat
  moreover assume "length bs = calcsize f"
  ultimately have len: "length bs = 4" by simp
  then have "be_val bs < 2 ^ 32" using be_val_bound [of bs] by simp
  then have "unat (word_of_nat (be_val bs) :: 32 word) = be_val bs" by (simp add: unat_of_nat take_bit_nat_eq_self)
  then show ?thesis using FFloat be_bytes_be_val [of bs] len by simp
qed simp

lemma unpack_loop_repack:
  assumes "distinct (map fst fs)" and "list_all (\<lambda>(k, f). no_pad f) fs" and "length bs = struct_size fs"
  shows "dict_ok fs (unpack_loop fs bs m) \<and> pack_loop fs (unpack_loop fs bs m) raw = (raw @ bs, None)"
  using assms
proof (induction fs arbitrary: bs m raw)
  case (Cons kf fs)
  obtain k f where kf: "kf = (k, f)" by (cases kf)
  let ?w = "calcsize f"
  let ?m = "m(k \<mapsto> struct_unpack f (take ?w bs))"
  have w: "?w \<le> length bs" "length (drop ?w bs) = struct_size fs"
    using Cons.prems(3) kf by (auto simp: struct_size_def)
  have k: "attr (unpack_loop fs (drop ?w bs) ?m) k = struct_unpack f (take ?w bs)"
    using Cons.prems(1) kf by (simp add: attr_def unpack_loop_other)
  have "pack_value f (struct_unpack f (take ?w bs)) = Inr (take ?w bs)"
    using Cons.prems(2) kf w(1) by (intro unpack_then_pack) auto
  moreover have "fits f (struct_unpack f (take ?w bs))" using w(1) by (rule struct_field.unpack_fit_slice)
  moreover have "dict_ok fs (unpack_loop fs (drop ?w bs) ?m) \<and>
      pack_loop fs (unpack_loop fs (drop ?w bs) ?m) (raw @ take ?w bs) = ((raw @ take ?w bs) @ drop ?w bs, None)"
    using Cons.prems kf w(2) by (intro Cons.IH) auto
  ultimately show ?case using k by (simp add: kf dict_ok_def)
qed (simp add: struct_size_def dict_ok_def)

section \<open>Properties\<close>


text \<open>
  Assigning a value that fits to a field keeps the buffer up to date, whatever was assigned
  before, changes no other attribute, and never raises.
\<close>

theorem ds_setattr_keeps_packed:
  assumes "packed s" and "(key, f) \<in> set (ds_struct s)" and "fits f v"
  shows "\<exists>s'. ds_setattr key v s = (s', None) \<and> packed s' \<and>
    ds_dict s' = (ds_dict s)(key \<mapsto> v) \<and> ds_struct s' = ds_struct s \<and> ds_data s' = ds_data s"
proof -
  let ?t = "s\<lparr>ds_dict := (ds_dict s)(key \<mapsto> v)\<rparr>"
  from assms(1) have dist: "distinct (map fst (ds_struct s))" by (simp add: packed_def)
  have "dict_ok (ds_struct ?t) (ds_dict ?t)"
    using assms dist
    by (auto simp: packed_def intro!: dict_ok_update) (metis eq_key_imp_eq_value)
  then have "snd (ds_pack ?t) = None" "packed (fst (ds_pack ?t))"
    using ds_pack_ok [of ?t] dist by simp_all
  moreover have "key \<in> set (map fst (ds_struct s))" using assms(2) by force
  ultimately show ?thesis
    using pack_for_packs [of "map fst (ds_struct s)" ?t key] dist
    by (auto simp: ds_setattr_def ds_pack_def split: prod.splits)
qed

text \<open>
  An assignment that does not fit raises and leaves the object broken: the bad value stays in
  the dictionary and the buffer is cut off before the field, so it no longer has the structure's
  length.
\<close>

theorem ds_setattr_failure_truncates:
  assumes "packed s" and "ds_struct s = pre @ (key, f) # post" and "pack_value f v = Inl e"
  shows "\<exists>s' bs. ds_setattr key v s = (s', Some e) \<and> ds_raw s' = Some bs \<and>
    length bs = struct_size pre \<and> ds_dict s' = (ds_dict s)(key \<mapsto> v)"
proof -
  let ?m = "(ds_dict s)(key \<mapsto> v)"
  from assms(1,2) have "dict_ok pre (ds_dict s)" and dist: "distinct (map fst (pre @ (key, f) # post))"
    by (auto simp: packed_def dict_ok_def)
  then have "dict_ok pre ?m" "distinct (map fst pre)" by (simp_all add: dict_ok_other)
  then obtain bs where "length bs = struct_size pre"
    "\<forall>post raw. pack_loop (pre @ post) ?m raw = pack_loop post ?m (raw @ bs)"
    using pack_loop_append by blast
  moreover from this assms(3) have "pack_loop (ds_struct s) ?m [] = (bs, Some e)"
    by (simp add: assms(2) attr_def)
  moreover have "pack_for (map fst pre @ key # map fst post) key t =
      pack_for (key # map fst post) key t" for t
    using dist by (induction pre) auto
  ultimately show ?thesis
    by (auto simp: ds_setattr_def ds_pack_def assms(2))
qed

text \<open>
  Comparing a \<^verbatim>\<open>LOPHIPacket\<close> whose magic number is set with a buffer of the same length
  looks at the magic number only: the slices of all later fields are empty.
\<close>

theorem lophi_packet_eq_magic_only:
  assumes "ds_struct s = LOPHIPacket" and "ds_raw s = Some raw"
    and "attr (ds_dict s) ''MAGIC'' \<noteq> VNone" and "length other = ds_len s"
  shows "ds_eq s other = Inr (take 4 raw = take 4 other)"
  using assms by (simp add: ds_eq_def LOPHIPacket_def slice_def)

text \<open>
  Reading bytes and sending the object again: enough bytes for a structure without pad bytes give an
  object whose buffer is up to date, and printing it gives exactly the bytes it was made from.
\<close>

theorem ds_parse_print:
  assumes "distinct (map fst fs)" and "list_all (\<lambda>(k, f). no_pad f) fs" and "struct_size fs \<le> length bs"
  shows "packed (ds_init fs (Some bs)) \<and> ds_repr (ds_init fs (Some bs)) = Inr bs \<and>
    ds_len (ds_init fs (Some bs)) = length bs"
proof -
  let ?n = "struct_size fs" and ?m = "ds_dict (ds_blank fs)"
  have dict: "ds_dict (ds_init fs (Some bs)) = unpack_loop fs (take ?n bs) ?m"
    "ds_struct (ds_init fs (Some bs)) = fs" "ds_raw (ds_init fs (Some bs)) = Some (take ?n bs)"
    using assms(3) by (simp_all add: ds_init_def ds_unpack_def Let_def ds_blank_def)
  from unpack_loop_repack [OF assms(1,2), of "take ?n bs" ?m "[]"] assms(3)
  have "packed (ds_init fs (Some bs))" by (simp add: packed_def dict assms(1))
  moreover have "ds_repr (ds_init fs (Some bs)) = Inr bs" "ds_len (ds_init fs (Some bs)) = length bs"
    using assms(3)
    by (auto simp: ds_init_def ds_unpack_def Let_def ds_blank_def ds_repr_def ds_len_def)
  ultimately show ?thesis by simp
qed

text \<open>
  Indexing an object never returns a byte of its buffer: an index inside gives \<^verbatim>\<open>None\<close> and an
  index beyond the end raises \<^verbatim>\<open>IndexError\<close>.
\<close>

lemma ds_getitem_never_a_byte:
  "ds_getitem s i =
     (case ds_raw s of None \<Rightarrow> Inl AttributeError
      | Some raw \<Rightarrow> if i \<le> length raw then Inr None else Inl IndexError)"
  by (auto simp: ds_getitem_def index_at_def split: option.splits)

section \<open>Witnesses\<close>

lemma lophi_packed: "packed (ds_init LOPHIPacket None)"
  by (rule packed_init) (simp add: LOPHIPacket_def)


theorem ds_setattr_keeps_packed_witness:
  "\<exists>s'. ds_setattr ''op_code'' (VInt 128) (ds_init LOPHIPacket None) = (s', None) \<and> packed s'"
proof -
  have "(''op_code'', FInt True 0 1) \<in> set (ds_struct (ds_init LOPHIPacket None))"
    "fits (FInt True 0 1) (VInt 128)"
    by (simp_all add: ds_init_def ds_blank_def LOPHIPacket_def)
  from ds_setattr_keeps_packed [OF lophi_packed this] show ?thesis by blast
qed

theorem ds_setattr_failure_truncates_witness:
  "\<exists>s' bs. ds_setattr ''op_code'' (VInt 256) (ds_init LOPHIPacket None) = (s', Some StructError) \<and>
     ds_raw s' = Some bs \<and> length bs = 5"
proof -
  have "ds_struct (ds_init LOPHIPacket None) =
      [(''MAGIC'', FInt True 0 4), (''RESERVED'', FInt True 0 1)] @ (''op_code'', FInt True 0 1) #
      [(''memory_addr'', FInt True 0 2), (''memory_len'', FInt True 0 2), (''frame_len'', FInt True 0 2)]"
    "pack_value (FInt True 0 1) (VInt 256) = Inl StructError"
    by (simp_all add: ds_init_def ds_blank_def LOPHIPacket_def)
  from ds_setattr_failure_truncates [OF lophi_packed this] show ?thesis
    by (auto simp: struct_size_def)
qed

theorem lophi_packet_eq_magic_only_witness:
  "ds_eq (ds_init LOPHIPacket (Some [1, 2, 3, 4, 0, 0, 0, 0, 0, 0, 0, 0])) [1, 2, 3, 4, 9, 9, 9, 9, 9, 9, 9, 9]
     = Inr True"
proof -
  let ?s = "ds_init LOPHIPacket (Some [1, 2, 3, 4, 0, 0, 0, 0, 0, 0, 0, 0])"
  have "ds_struct ?s = LOPHIPacket" "ds_raw ?s = Some [1, 2, 3, 4, 0, 0, 0, 0, 0, 0, 0, 0]"
    "attr (ds_dict ?s) ''MAGIC'' \<noteq> VNone"
    "length [1, 2, 3, 4, 9, 9, 9, 9, 9, 9, 9, 9 :: byte] = ds_len ?s"
    by (simp_all add: ds_init_def ds_unpack_def ds_blank_def LOPHIPacket_def struct_size_def attr_def
        ds_len_def)
  from lophi_packet_eq_magic_only [OF this] show ?thesis by simp
qed

theorem ds_parse_print_witness:
  "ds_repr (ds_init SATAFrame (Some [0, 7, 0, 1, 65, 66])) = Inr [0, 7, 0, 1, 65, 66]"
  using ds_parse_print [of SATAFrame "[0, 7, 0, 1, 65, 66]"]
  by (simp add: SATAFrame_def struct_size_def)

end
