(* ===== verification/DiskSensor.thy ===== *)
theory DiskSensor
  imports PyStruct "HOL-Library.Multiset"
begin

text \<open>
  The physical disk sensor, \<^verbatim>\<open>lophi/sensors/disk/physical.py\<close>: the reordering of SATA frames
  that the network delivers out of order (\<^verbatim>\<open>_get_sata_packet\<close>), over an interface for the
  priority queue it keeps them in, and the command packets sent to the card.

  A packet from the wire is what \<^verbatim>\<open>get_lophi_packet\<close> and \<^verbatim>\<open>SATAFrame(lophi_packet.data)\<close>
  make of a datagram; a SATA packet with fewer than four data bytes, which has no sequence number,
  is left out.  Waiting for the network is the end of the list of packets.
\<close>

section \<open>Packets\<close>

record sata_frame =
  seqn_num :: nat
  frame_direction :: nat
  frame_data :: bytes

record lophi_packet =
  op_code :: nat
  sata_frame_of :: sata_frame

abbreviation (input) SATA_FRAME :: nat where "SATA_FRAME \<equiv> 0x80"
abbreviation (input) MAX_HEAP_SIZE :: nat where "MAX_HEAP_SIZE \<equiv> 20"

abbreviation seqn :: "lophi_packet \<Rightarrow> nat" where
  "seqn p \<equiv> seqn_num (sata_frame_of p)"

text \<open>\<^verbatim>\<open>get_lophi_packet\<close> on the bytes of a datagram.\<close>

definition int_attr :: "data_struct \<Rightarrow> string \<Rightarrow> nat option" where
  "int_attr s k = (case attr (ds_dict s) k of VInt i \<Rightarrow> Some (nat i) | _ \<Rightarrow> None)"

definition parse_lophi_packet :: "bytes \<Rightarrow> lophi_packet option" where
  "parse_lophi_packet bs =
     (let p = ds_init LOPHIPacket (Some bs) in
      case (int_attr p ''op_code'', ds_data p) of
        (Some opc, Some d) \<Rightarrow>
          (let f = ds_init SATAFrame (Some d) in
           case (int_attr f ''seqn_num'', int_attr f ''direction'') of
             (Some n, Some dir) \<Rightarrow>
               Some \<lparr>op_code = opc,
                     sata_frame_of = \<lparr>seqn_num = n, frame_direction = dir,
                       frame_data = (case ds_data f of None \<Rightarrow> [] | Some x \<Rightarrow> x)\<rparr>\<rparr>
           | _ \<Rightarrow> None)
      | _ \<Rightarrow> None)"

section \<open>The priority queue\<close>

text \<open>
  What the sensor uses of \<^verbatim>\<open>heapq\<close>: push, the smallest entry at position 0, and pop, which
  removes it.  The entries are pairs compared by sequence number; Python would compare two entries
  with the same number by their packets, here the one pushed first comes first.
\<close>

type_synonym 'a heap = "(nat \<times> 'a) list"

definition heappush :: "(nat \<times> 'a) \<Rightarrow> 'a heap \<Rightarrow> 'a heap" where
  "heappush x h = takeWhile (\<lambda>y. fst y \<le> fst x) h @ x # dropWhile (\<lambda>y. fst y \<le> fst x) h"

fun heappop :: "'a heap \<Rightarrow> ((nat \<times> 'a) \<times> 'a heap) res" where
  "heappop [] = Inl IndexError"
| "heappop (x # h) = Inr (x, h)"

definition heap_min :: "'a heap \<Rightarrow> (nat \<times> 'a) res" where
  "heap_min h = index_at h 0"

definition heap_ok :: "'a heap \<Rightarrow> bool" where
  "heap_ok h \<longleftrightarrow> sorted (map fst h)"

locale min_queue =
  fixes push :: "(nat \<times> 'a) \<Rightarrow> 'q \<Rightarrow> 'q"
    and pop :: "'q \<Rightarrow> ((nat \<times> 'a) \<times> 'q) res"
    and top :: "'q \<Rightarrow> (nat \<times> 'a) res"
    and size_of :: "'q \<Rightarrow> nat"
    and entries :: "'q \<Rightarrow> (nat \<times> 'a) multiset"
    and ok :: "'q \<Rightarrow> bool"
  assumes push_entries: "entries (push x q) = add_mset x (entries q)"
    and push_ok: "ok q \<Longrightarrow> ok (push x q)"
    and pop_entries: "pop q = Inr (x, r) \<Longrightarrow> entries q = add_mset x (entries r)"
    and pop_ok: "ok q \<Longrightarrow> pop q = Inr (x, r) \<Longrightarrow> ok r"
    and pop_min: "ok q \<Longrightarrow> pop q = Inr (x, r) \<Longrightarrow> y \<in># entries q \<Longrightarrow> fst x \<le> fst y"
    and pop_top: "pop q = Inr (x, r) \<Longrightarrow> top q = Inr x"
    and pop_some: "size_of q \<noteq> 0 \<Longrightarrow> \<exists>x r. pop q = Inr (x, r)"
    and size_entries: "size_of q = size (entries q)"
begin

lemma pop_smaller: "pop q = Inr (x, r) \<Longrightarrow> size_of q = Suc (size_of r)"
  by (simp add: size_entries pop_entries)

lemma push_size: "size_of (push x q) = Suc (size_of q)"
  by (simp add: size_entries push_entries)

lemma top_is_min:
  assumes "ok q" and "top q = Inr x" and "size_of q \<noteq> 0"
  shows "x \<in># entries q \<and> (\<forall>y \<in># entries q. fst x \<le> fst y)"
proof -
  from pop_some [OF assms(3)] obtain z r where zr: "pop q = Inr (z, r)" by blast
  with assms(2) have "z = x" by (simp add: pop_top)
  with zr show ?thesis using pop_entries [OF zr] pop_min [OF assms(1) zr] by auto
qed

end

lemma mset_heappush: "mset (heappush x h) = add_mset x (mset h)"
proof -
  have "mset (takeWhile P h) + mset (dropWhile P h) = mset h" for P
    by (metis mset_append takeWhile_dropWhile_id)
  then show ?thesis by (simp add: heappush_def)
qed

lemma heap_ok_push: "heap_ok h \<Longrightarrow> heap_ok (heappush x h)"
proof (induction h)
  case (Cons y h)
  show ?case
  proof (cases "fst y \<le> fst x")
    case True
    from Cons have rest: "heap_ok (heappush x h)" by (simp add: heap_ok_def)
    have "set (heappush x h) = insert x (set h)"
      using mset_heappush [of x h] by (metis set_mset_mset set_mset_add_mset_insert)
    with Cons.prems True rest show ?thesis by (auto simp: heap_ok_def heappush_def)
  next
    case False
    with Cons.prems show ?thesis by (fastforce simp: heap_ok_def heappush_def)
  qed
qed (simp add: heap_ok_def heappush_def)

interpretation sata_heap: min_queue
  "heappush :: nat \<times> lophi_packet \<Rightarrow> lophi_packet heap \<Rightarrow> lophi_packet heap"
  heappop heap_min length mset heap_ok
proof
  fix q :: "lophi_packet heap" and x r y
  show "heappop q = Inr (x, r) \<Longrightarrow> mset q = add_mset x (mset r)" by (cases q) auto
  show "heap_ok q \<Longrightarrow> heappop q = Inr (x, r) \<Longrightarrow> heap_ok r" by (cases q) (auto simp: heap_ok_def)
  show "heap_ok q \<Longrightarrow> heappop q = Inr (x, r) \<Longrightarrow> y \<in># mset q \<Longrightarrow> fst x \<le> fst y"
    by (cases q) (auto simp: heap_ok_def)
  show "heappop q = Inr (x, r) \<Longrightarrow> heap_min q = Inr x" by (cases q) (auto simp: heap_min_def index_at_def)
  show "length q \<noteq> 0 \<Longrightarrow> \<exists>x r. heappop q = Inr (x, r)" by (cases q) auto
qed (simp_all add: mset_heappush heap_ok_push)

section \<open>Reading frames in order\<close>

record disk_sensor =
  sata_heap :: "lophi_packet heap"
  last_lophi_seqn :: "nat option"
  last_lophi_packet :: "lophi_packet option"
  DROPPED_PACKETS :: nat
  sata_enabled :: bool

definition DiskSensorPhysical_init :: disk_sensor where
  "DiskSensorPhysical_init = \<lparr>sata_heap = [], last_lophi_seqn = None, last_lophi_packet = None,
     DROPPED_PACKETS = 0, sata_enabled = False\<rparr>"

text \<open>
  A frame taken off the heap is returned as the whole \<^verbatim>\<open>LOPHIPacket\<close>, a frame from the wire as
  its \<^verbatim>\<open>SATAFrame\<close>.
\<close>

datatype delivered = FromHeap lophi_packet | FromWire lophi_packet

fun packet_of :: "delivered \<Rightarrow> lophi_packet" where
  "packet_of (FromHeap p) = p"
| "packet_of (FromWire p) = p"

definition next_seqn :: "disk_sensor \<Rightarrow> nat res" where
  "next_seqn s = (case last_lophi_seqn s of None \<Rightarrow> Inl TypeError | Some l \<Rightarrow> Inr ((l + 1) mod 65536))"

text \<open>
  The heap branch (lines 251 to 269): \<open>Some\<close> result when an entry is returned, \<open>None\<close> when the
  wire has to be read.
\<close>

definition heap_turn :: "disk_sensor \<Rightarrow> (disk_sensor \<times> delivered) option res" where
  "heap_turn s =
     (if length (sata_heap s) > 0 then
        bindE (heap_min (sata_heap s)) (\<lambda>top.
        bindE (next_seqn s) (\<lambda>expected.
          if fst top = expected \<or> length (sata_heap s) > MAX_HEAP_SIZE then
            let s1 = (if length (sata_heap s) > MAX_HEAP_SIZE
                      then s\<lparr>DROPPED_PACKETS := DROPPED_PACKETS s + 1\<rparr> else s)
            in bindE (heappop (sata_heap s1)) (\<lambda>((n, p), h).
                 Inr (Some (s1\<lparr>sata_heap := h, last_lophi_seqn := Some n, last_lophi_packet := Some p\<rparr>,
                            FromHeap p)))
          else Inr None))
      else Inr None)"

text \<open>The packet from the wire (lines 275 to 301): returned, or pushed and the loop goes on.\<close>

definition wire_turn :: "disk_sensor \<Rightarrow> lophi_packet \<Rightarrow> disk_sensor \<times> delivered option" where
  "wire_turn s p =
     (if op_code p = SATA_FRAME then
        let n = seqn p; s1 = s\<lparr>last_lophi_seqn := Some n, last_lophi_packet := Some p\<rparr> in
        case last_lophi_seqn s of
          None \<Rightarrow> (s1, Some (FromWire p))
        | Some l \<Rightarrow>
            if n \<noteq> (l + 1) mod 65536
            then (s\<lparr>sata_heap := heappush (n, p) (sata_heap s)\<rparr>, None)
            else (s1, Some (FromWire p))
      else (s, None))"

text \<open>
  The loop of \<^verbatim>\<open>_get_sata_packet\<close> with the packets that are still to come: the packet
  returned, or \<open>None\<close> when it is waiting for the wire.
\<close>

fun get_sata_packet ::
  "disk_sensor \<Rightarrow> lophi_packet list \<Rightarrow> (disk_sensor \<times> lophi_packet list \<times> delivered option) res" where
  "get_sata_packet s ws =
     bindE (heap_turn s) (\<lambda>r.
       case r of
         Some (s1, d) \<Rightarrow> Inr (s1, ws, Some d)
       | None \<Rightarrow>
           (case ws of
              [] \<Rightarrow> Inr (s, [], None)
            | p # ws1 \<Rightarrow>
                (case wire_turn s p of
                   (s1, Some d) \<Rightarrow> Inr (s1, ws1, Some d)
                 | (s1, None) \<Rightarrow> get_sata_packet s1 ws1)))"

declare get_sata_packet.simps [simp del]

text \<open>
  \<^verbatim>\<open>get_disk_packet\<close>: the first call turns the extraction on, and \<^verbatim>\<open>_send_command\<close> takes
  the next packet of the wire as the card's answer.
\<close>

definition get_disk_packet ::
  "disk_sensor \<Rightarrow> lophi_packet list \<Rightarrow> (disk_sensor \<times> lophi_packet list \<times> delivered option) res" where
  "get_disk_packet s ws =
     (if sata_enabled s then get_sata_packet s ws
      else case ws of [] \<Rightarrow> Inr (s, [], None)
           | _ # ws1 \<Rightarrow> get_sata_packet (s\<lparr>sata_enabled := True\<rparr>) ws1)"

section \<open>One call\<close>

definition sensor_inv :: "disk_sensor \<Rightarrow> bool" where
  "sensor_inv s \<longleftrightarrow> sata_enabled s \<and>
     heap_ok (sata_heap s) \<and> (sata_heap s \<noteq> [] \<longrightarrow> last_lophi_seqn s \<noteq> None) \<and>
     list_all (\<lambda>(n, p). n = seqn p \<and> op_code p = SATA_FRAME) (sata_heap s)"

text \<open>The packets the sensor holds back, and the frames among the packets of the wire.\<close>

definition held :: "disk_sensor \<Rightarrow> lophi_packet multiset" where
  "held s = mset (map snd (sata_heap s))"

definition frames_in :: "lophi_packet list \<Rightarrow> lophi_packet multiset" where
  "frames_in ws = mset (filter (\<lambda>p. op_code p = SATA_FRAME) ws)"

lemma set_heappush: "set (heappush x h) = insert x (set h)"
  by (metis mset_heappush set_mset_mset set_mset_add_mset_insert)

lemma length_heappush [simp]: "length (heappush x (h :: lophi_packet heap)) = Suc (length h)"
  by (rule sata_heap.push_size)

text \<open>\<open>expected s\<close>: the number that has to come next, if one has been seen.\<close>

definition in_order :: "disk_sensor \<Rightarrow> nat \<Rightarrow> bool" where
  "in_order s n \<longleftrightarrow> (case last_lophi_seqn s of None \<Rightarrow> True | Some l \<Rightarrow> n = (l + 1) mod 65536)"

lemma heap_turn_returns:
  assumes "sensor_inv s" and "heap_turn s = Inr (Some (s', d))"
  shows "sensor_inv s' \<and> held s = add_mset (packet_of d) (held s') \<and>
    last_lophi_seqn s' = Some (seqn (packet_of d)) \<and> length (sata_heap s) = Suc (length (sata_heap s')) \<and>
    DROPPED_PACKETS s' = DROPPED_PACKETS s + (if length (sata_heap s) > MAX_HEAP_SIZE then 1 else 0) \<and>
    (length (sata_heap s) > MAX_HEAP_SIZE \<or> in_order s (seqn (packet_of d)))"
proof (cases "sata_heap s")
  case Nil
  with assms(2) show ?thesis by (simp add: heap_turn_def)
next
  case (Cons x h)
  obtain n p where x: "x = (n, p)" by (cases x)
  from assms(1) Cons x obtain l where l: "last_lophi_seqn s = Some l" "n = seqn p"
    by (auto simp: sensor_inv_def)
  with assms Cons x show ?thesis
    by (auto simp: heap_turn_def heap_min_def index_at_def next_seqn_def Let_def sensor_inv_def
        heap_ok_def held_def in_order_def split: if_splits)
qed

lemma heap_turn_no_error: "sensor_inv s \<Longrightarrow> heap_turn s \<noteq> Inl e"
  by (cases "sata_heap s")
    (auto simp: heap_turn_def heap_min_def index_at_def next_seqn_def Let_def sensor_inv_def
      split: option.splits)

lemma heap_turn_waits:
  "sensor_inv s \<Longrightarrow> heap_turn s = Inr None \<longleftrightarrow>
     sata_heap s = [] \<or>
     (length (sata_heap s) \<le> MAX_HEAP_SIZE \<and> \<not> in_order s (fst (hd (sata_heap s))))"
  by (cases "sata_heap s")
    (auto simp: heap_turn_def heap_min_def index_at_def next_seqn_def Let_def sensor_inv_def
      in_order_def split: option.splits if_splits)

lemma wire_turn_returns:
  assumes "sensor_inv s" and "wire_turn s p = (s', Some d)"
  shows "sensor_inv s' \<and> d = FromWire p \<and> op_code p = SATA_FRAME \<and> sata_heap s' = sata_heap s \<and>
    last_lophi_seqn s' = Some (seqn p) \<and> DROPPED_PACKETS s' = DROPPED_PACKETS s \<and> in_order s (seqn p)"
  using assms
  by (auto simp: wire_turn_def Let_def sensor_inv_def in_order_def split: if_splits option.splits)

lemma wire_turn_goes_on:
  assumes "sensor_inv s" and "wire_turn s p = (s', None)"
  shows "sensor_inv s' \<and> held s' = held s + frames_in [p] \<and>
    length (sata_heap s') \<le> Suc (length (sata_heap s)) \<and>
    last_lophi_seqn s' = last_lophi_seqn s \<and> DROPPED_PACKETS s' = DROPPED_PACKETS s"
  using assms
  by (auto simp: wire_turn_def Let_def sensor_inv_def held_def frames_in_def mset_heappush heap_ok_push
      list_all_iff set_heappush split: if_splits option.splits)

lemma get_sata_packet_no_error: "sensor_inv s \<Longrightarrow> get_sata_packet s ws \<noteq> Inl e"
proof (induction s ws rule: get_sata_packet.induct)
  case (1 s ws)
  then show ?case
    using wire_turn_goes_on [OF 1(2)] heap_turn_no_error [OF 1(2)]
    by (auto simp: get_sata_packet.simps [of s ws] res_simps split: option.splits list.splits prod.splits)
qed

definition call_ok :: "disk_sensor \<Rightarrow> lophi_packet list \<Rightarrow> disk_sensor \<Rightarrow> lophi_packet list \<Rightarrow> delivered option \<Rightarrow> bool" where
  "call_ok s ws s' ws' r \<longleftrightarrow>
     sensor_inv s' \<and> DROPPED_PACKETS s \<le> DROPPED_PACKETS s' \<and>
     (case r of
        None \<Rightarrow> ws' = [] \<and> held s' = held s + frames_in ws \<and> heap_turn s' = Inr None \<and>
                last_lophi_seqn s' = last_lophi_seqn s \<and> DROPPED_PACKETS s' = DROPPED_PACKETS s
      | Some d \<Rightarrow>
          add_mset (packet_of d) (held s') + frames_in ws' = held s + frames_in ws \<and>
          last_lophi_seqn s' = Some (seqn (packet_of d)) \<and>
          2 * length ws' + length (sata_heap s') < 2 * length ws + length (sata_heap s) \<and>
          (DROPPED_PACKETS s' = Suc (DROPPED_PACKETS s) \<or>
           DROPPED_PACKETS s' = DROPPED_PACKETS s \<and> in_order s (seqn (packet_of d))))"

lemma frames_in_Cons: "frames_in (p # ws) = frames_in [p] + frames_in ws"
  by (simp add: frames_in_def)

lemma frames_in_Nil [simp]: "frames_in [] = {#}"
  by (simp add: frames_in_def)

lemma get_sata_packet_call:
  "sensor_inv s \<Longrightarrow> get_sata_packet s ws = Inr (s', ws', r) \<Longrightarrow> call_ok s ws s' ws' r"
proof (induction s ws rule: get_sata_packet.induct)
  case (1 s ws)
  note inv = 1(2) and get = 1(3) [unfolded get_sata_packet.simps [of s ws]]
  obtain x where x: "heap_turn s = Inr x"
    using heap_turn_no_error [OF inv] by (cases "heap_turn s") auto
  consider (heap) s1 d where "heap_turn s = Inr (Some (s1, d))"
    | (wait) "heap_turn s = Inr None" "ws = []"
    | (wire) p ws1 s1 d where "heap_turn s = Inr None" "ws = p # ws1" "wire_turn s p = (s1, Some d)"
    | (again) p ws1 s1 where "heap_turn s = Inr None" "ws = p # ws1" "wire_turn s p = (s1, None)"
    using x by (metis list.exhaust option.exhaust surj_pair)
  then show ?case
  proof cases
    case heap
    with get heap_turn_returns [OF inv heap] show ?thesis by (auto simp: call_ok_def split: if_splits)
  next
    case wait
    with get inv show ?thesis by (auto simp: call_ok_def)
  next
    case wire
    with get wire_turn_returns [OF inv wire(3)] show ?thesis
      by (auto simp: call_ok_def held_def frames_in_def)
  next
    case again
    note w = wire_turn_goes_on [OF inv again(3)]
    from again get have "get_sata_packet s1 ws1 = Inr (s', ws', r)" by simp
    with 1(1) again w have "call_ok s1 ws1 s' ws' r" by auto
    with w again(2) show ?thesis
      by (auto simp: call_ok_def in_order_def frames_in_Cons [of p ws1] add.assoc
          split: option.splits)
  qed
qed

section \<open>Reading until the wire is empty\<close>

lemma get_sata_packet_shrinks:
  "get_sata_packet s ws = Inr (s', ws', Some d) \<Longrightarrow>
     2 * length ws' + length (sata_heap s') < 2 * length ws + length (sata_heap s)"
proof (induction s ws rule: get_sata_packet.induct)
  case (1 s ws)
  have heap: "heap_turn s = Inr (Some (s1, d1)) \<Longrightarrow> length (sata_heap s1) < length (sata_heap s)" for s1 d1
    by (cases "sata_heap s")
      (auto simp: heap_turn_def heap_min_def index_at_def next_seqn_def Let_def
        split: option.splits if_splits)
  have wire: "wire_turn s p = (s1, r) \<Longrightarrow>
      length (sata_heap s1) \<le> length (sata_heap s) + (if r = None then 1 else 0)" for p s1 r
    by (auto simp: wire_turn_def Let_def split: option.splits if_splits)
  from 1(2) show ?case
    using 1(1) heap wire
    by (subst (asm) get_sata_packet.simps)
      (fastforce simp: res_simps split: option.splits list.splits prod.splits)
qed

lemma get_disk_packet_shrinks:
  "get_disk_packet s ws = Inr (s', ws', Some d) \<Longrightarrow>
     2 * length ws' + length (sata_heap s') < 2 * length ws + length (sata_heap s)"
  by (auto simp: get_disk_packet_def dest: get_sata_packet_shrinks split: if_splits list.splits)

lemma get_disk_packet_enabled: "sensor_inv s \<Longrightarrow> get_disk_packet s ws = get_sata_packet s ws"
  by (simp add: sensor_inv_def get_disk_packet_def)

lemma get_disk_packet_call:
  assumes "sensor_inv s"
  obtains s1 ws1 r where "get_disk_packet s ws = Inr (s1, ws1, r)" and "call_ok s ws s1 ws1 r"
  using get_sata_packet_no_error [OF assms] get_sata_packet_call [OF assms]
  by (cases "get_sata_packet s ws") (auto simp: get_disk_packet_enabled [OF assms])

text \<open>The caller's loop: \<^verbatim>\<open>get_disk_packet\<close> again and again until it would block.\<close>

function drain :: "disk_sensor \<Rightarrow> lophi_packet list \<Rightarrow> (disk_sensor \<times> delivered list) res" where
  "drain s ws =
     bindE (get_disk_packet s ws) (\<lambda>r.
       case r of
         (s1, ws1, None) \<Rightarrow> Inr (s1, [])
       | (s1, ws1, Some d) \<Rightarrow> bindE (drain s1 ws1) (\<lambda>(s2, ds). Inr (s2, d # ds)))"
  by pat_completeness auto
termination
  by (relation "measure (\<lambda>(s, ws). 2 * length ws + length (sata_heap s))")
    (auto dest: get_disk_packet_shrinks)

declare drain.simps [simp del]

fun consecutive :: "nat option \<Rightarrow> nat list \<Rightarrow> bool" where
  "consecutive l [] = True"
| "consecutive l (n # ns) \<longleftrightarrow>
     (case l of None \<Rightarrow> True | Some k \<Rightarrow> n = (k + 1) mod 65536) \<and> consecutive (Some n) ns"

abbreviation seqns :: "delivered list \<Rightarrow> nat list" where
  "seqns ds \<equiv> map (\<lambda>d. seqn (packet_of d)) ds"

lemma drain_call:
  assumes "sensor_inv s" and "drain s ws = Inr (s', ds)"
  shows "sensor_inv s' \<and> heap_turn s' = Inr None \<and> DROPPED_PACKETS s \<le> DROPPED_PACKETS s' \<and>
    last_lophi_seqn s' = (if ds = [] then last_lophi_seqn s else Some (last (seqns ds))) \<and>
    image_mset packet_of (mset ds) + held s' = held s + frames_in ws \<and>
    (DROPPED_PACKETS s' = DROPPED_PACKETS s \<longrightarrow> consecutive (last_lophi_seqn s) (seqns ds))"
  using assms
proof (induction s ws arbitrary: ds rule: drain.induct)
  case (1 s ws)
  obtain s1 ws1 r where get: "get_disk_packet s ws = Inr (s1, ws1, r)" and call: "call_ok s ws s1 ws1 r"
    using get_disk_packet_call [OF 1(2)] .
  show ?case
  proof (cases r)
    case None
    with 1(3) get call show ?thesis by (auto simp: drain.simps [of s ws] call_ok_def)
  next
    case (Some d)
    with 1(3) get obtain ds1 where ds1: "drain s1 ws1 = Inr (s', ds1)" "ds = d # ds1"
      by (subst (asm) drain.simps) (auto simp: res_simps)
    from call Some have inv1: "sensor_inv s1" by (simp add: call_ok_def)
    from 1(1) [OF get _ _ _ inv1 ds1(1)] Some
    have IH: "sensor_inv s' \<and> heap_turn s' = Inr None \<and> DROPPED_PACKETS s1 \<le> DROPPED_PACKETS s' \<and>
      last_lophi_seqn s' = (if ds1 = [] then last_lophi_seqn s1 else Some (last (seqns ds1))) \<and>
      image_mset packet_of (mset ds1) + held s' = held s1 + frames_in ws1 \<and>
      (DROPPED_PACKETS s' = DROPPED_PACKETS s1 \<longrightarrow> consecutive (last_lophi_seqn s1) (seqns ds1))"
      by simp
    with call Some ds1(2) show ?thesis
      by (auto simp: call_ok_def in_order_def split: option.splits)
  qed
qed

lemma drain_returns: "sensor_inv s \<Longrightarrow> \<exists>s' ds. drain s ws = Inr (s', ds)"
proof (induction s ws rule: drain.induct)
  case (1 s ws)
  obtain s1 ws1 r where get: "get_disk_packet s ws = Inr (s1, ws1, r)" and call: "call_ok s ws s1 ws1 r"
    using get_disk_packet_call [OF 1(2)] .
  show ?case
  proof (cases r)
    case None
    with get show ?thesis by (simp add: drain.simps [of s ws])
  next
    case (Some d)
    with call have inv1: "sensor_inv s1" by (simp add: call_ok_def)
    from 1(1) [OF get _ _ _ inv1] Some have "\<exists>s' ds. drain s1 ws1 = Inr (s', ds)" by simp
    with get Some show ?thesis by (auto simp: drain.simps [of s ws])
  qed
qed

text \<open>As long as few packets are around, the heap never overflows.\<close>

lemma get_sata_packet_no_drop:
  "sensor_inv s \<Longrightarrow> get_sata_packet s ws = Inr (s', ws', r) \<Longrightarrow>
     length ws + length (sata_heap s) \<le> MAX_HEAP_SIZE \<Longrightarrow>
     DROPPED_PACKETS s' = DROPPED_PACKETS s \<and>
     length ws' + length (sata_heap s') \<le> MAX_HEAP_SIZE"
proof (induction s ws rule: get_sata_packet.induct)
  case (1 s ws)
  note inv = 1(2) and get = 1(3) [unfolded get_sata_packet.simps [of s ws]] and few = 1(4)
  obtain x where x: "heap_turn s = Inr x"
    using heap_turn_no_error [OF inv] by (cases "heap_turn s") auto
  consider (heap) s1 d where "heap_turn s = Inr (Some (s1, d))"
    | (wait) "heap_turn s = Inr None" "ws = []"
    | (wire) p ws1 s1 d where "heap_turn s = Inr None" "ws = p # ws1" "wire_turn s p = (s1, Some d)"
    | (again) p ws1 s1 where "heap_turn s = Inr None" "ws = p # ws1" "wire_turn s p = (s1, None)"
    using x by (metis list.exhaust option.exhaust surj_pair)
  then show ?case
  proof cases
    case heap
    with get few heap_turn_returns [OF inv heap] show ?thesis by auto
  next
    case wait
    with get few show ?thesis by auto
  next
    case wire
    with get few wire_turn_returns [OF inv wire(3)] show ?thesis by auto
  next
    case again
    note w = wire_turn_goes_on [OF inv again(3)]
    from again get have "get_sata_packet s1 ws1 = Inr (s', ws', r)" by simp
    moreover from w few again(2) have "length ws1 + length (sata_heap s1) \<le> MAX_HEAP_SIZE" by auto
    ultimately show ?thesis using 1(1) again w by auto
  qed
qed

lemma drain_no_drop:
  assumes "sensor_inv s" and "drain s ws = Inr (s', ds)"
    and "length ws + length (sata_heap s) \<le> MAX_HEAP_SIZE"
  shows "DROPPED_PACKETS s' = DROPPED_PACKETS s"
  using assms
proof (induction s ws arbitrary: ds rule: drain.induct)
  case (1 s ws)
  obtain s1 ws1 r where get: "get_disk_packet s ws = Inr (s1, ws1, r)" and call: "call_ok s ws s1 ws1 r"
    using get_disk_packet_call [OF 1(2)] .
  note few = get_sata_packet_no_drop [OF 1(2) get [unfolded get_disk_packet_enabled [OF 1(2)]] 1(4)]
  show ?case
  proof (cases r)
    case None
    with 1(3) get few show ?thesis by (simp add: drain.simps [of s ws])
  next
    case (Some d)
    with 1(3) get obtain ds1 where ds1: "drain s1 ws1 = Inr (s', ds1)"
      by (subst (asm) drain.simps) (auto simp: res_simps)
    from call Some have inv1: "sensor_inv s1" by (simp add: call_ok_def)
    from 1(1) [OF get _ _ _ inv1 ds1] Some few show ?thesis by simp
  qed
qed

section \<open>A burst of frames in any order\<close>

lemma consecutive_upt:
  "consecutive (Some l) ns \<Longrightarrow> l + length ns < 65536 \<Longrightarrow> ns = [Suc l..<Suc (l + length ns)]"
proof (induction ns arbitrary: l)
  case (Cons n ns)
  then have n: "n = Suc l" by simp
  with Cons.prems Cons.IH [of n] have "ns = [Suc n..<Suc (n + length ns)]" by simp
  then have "n # ns = n # [Suc n..<Suc (n + length ns)]" by simp
  also have "\<dots> = [n..<Suc (n + length ns)]" by (rule upt_conv_Cons [symmetric]) simp
  finally show ?case using n by (simp del: upt_Suc)
qed simp

lemma mset_frames_all: "list_all (\<lambda>p. op_code p = SATA_FRAME) ws \<Longrightarrow> frames_in ws = mset ws"
  by (induction ws) (auto simp: frames_in_def)

lemma held_numbers: "sensor_inv s \<Longrightarrow> image_mset seqn (held s) = mset (map fst (sata_heap s))"
proof -
  have "list_all (\<lambda>(n, p). n = seqn p \<and> op_code p = SATA_FRAME) h \<Longrightarrow>
      mset (map fst h) = image_mset seqn (mset (map snd h))" for h
    by (induction h) auto
  then show "sensor_inv s \<Longrightarrow> ?thesis" by (simp add: sensor_inv_def held_def)
qed

lemma burst_delivered:
  assumes "sensor_inv s" and "sata_heap s = []" and "last_lophi_seqn s = Some l"
    and "list_all (\<lambda>p. op_code p = SATA_FRAME) ws"
    and "mset (map seqn ws) = mset [Suc l..<Suc (l + length ws)]"
    and "length ws \<le> MAX_HEAP_SIZE" and "l + length ws < 65536"
  shows "\<exists>s' ds. drain s ws = Inr (s', ds) \<and> seqns ds = [Suc l..<Suc (l + length ws)] \<and>
    mset (map packet_of ds) = mset ws \<and> sata_heap s' = [] \<and> DROPPED_PACKETS s' = DROPPED_PACKETS s"
proof -
  obtain s' ds where dr: "drain s ws = Inr (s', ds)" using drain_returns [OF assms(1)] by blast
  note call = drain_call [OF assms(1) dr]
  from drain_no_drop [OF assms(1) dr] assms(2,6)
  have nodrop: "DROPPED_PACKETS s' = DROPPED_PACKETS s" by simp
  from call assms(2,4) have cons: "image_mset packet_of (mset ds) + held s' = mset ws"
    by (simp add: mset_frames_all held_def)
  then have "size (image_mset packet_of (mset ds) + held s') = length ws" by simp
  then have short: "length ds \<le> length ws" by simp
  define k where "k = length ds"
  from call nodrop assms(3) have "consecutive (Some l) (seqns ds)" by simp
  from consecutive_upt [OF this] short assms(7) have out: "seqns ds = [Suc l..<Suc (l + k)]"
    by (simp add: k_def)
  from cons have "image_mset seqn (image_mset packet_of (mset ds) + held s') = image_mset seqn (mset ws)"
    by simp
  then have "mset (seqns ds) + image_mset seqn (held s') = mset (map seqn ws)"
    by (simp add: image_mset.compositionality comp_def)
  then have "mset (seqns ds) + mset (map fst (sata_heap s')) = mset (map seqn ws)"
    using held_numbers call by simp
  moreover have "[Suc l..<Suc (l + length ws)] = [Suc l..<Suc (l + k)] @ [Suc (l + k)..<Suc (l + length ws)]"
    using short upt_add_eq_append [of "Suc l" "Suc (l + k)" "length ws - k"] by (simp add: k_def)
  ultimately have "mset (map fst (sata_heap s')) = mset [Suc (l + k)..<Suc (l + length ws)]"
    using out assms(5) by simp
  moreover from call have "sorted (map fst (sata_heap s'))" by (simp add: sensor_inv_def heap_ok_def)
  ultimately have heap: "map fst (sata_heap s') = [Suc (l + k)..<Suc (l + length ws)]"
    by (metis properties_for_sort sorted_upt)
  have "sata_heap s' = []"
  proof (rule ccontr)
    assume ne: "sata_heap s' \<noteq> []"
    with heap have lt: "k < length ws" by (metis length_0_conv length_map length_upt upt_rec
      linorder_not_less map_is_Nil_conv not_less_eq add_less_cancel_left)
    have "fst (hd (sata_heap s')) = hd (map fst (sata_heap s'))" using ne by (simp add: hd_map)
    with heap lt have hd: "fst (hd (sata_heap s')) = Suc (l + k)" by (simp add: upt_conv_Cons del: upt_Suc)
    have "last_lophi_seqn s' = Some (l + k)"
    proof (cases "ds = []")
      case False
      then have "k > 0" by (simp add: k_def)
      with out have "last (seqns ds) = l + k" by simp
      with False call show ?thesis by simp
    qed (use call assms(3) in \<open>simp add: k_def\<close>)
    with hd lt assms(7) have "in_order s' (fst (hd (sata_heap s')))" by (simp add: in_order_def)
    with call ne show False using heap_turn_waits by blast
  qed
  with heap short k_def have "k = length ws" by (simp split: if_splits)
  with out dr nodrop cons \<open>sata_heap s' = []\<close> show ?thesis by (simp add: held_def)
qed

text \<open>Conditional equations that evaluate a run on concrete packets.\<close>

lemma drain_steps:
  "get_disk_packet s ws = Inr (s1, ws1, Some d) \<Longrightarrow>
     drain s ws = bindE (drain s1 ws1) (\<lambda>(s2, ds). Inr (s2, d # ds))"
  "get_disk_packet s ws = Inr (s1, ws1, None) \<Longrightarrow> drain s ws = Inr (s1, [])"
  by (simp_all add: drain.simps [of s ws])

lemma get_sata_packet_steps:
  "heap_turn s = Inr (Some (s1, d)) \<Longrightarrow> get_sata_packet s ws = Inr (s1, ws, Some d)"
  "heap_turn s = Inr None \<Longrightarrow> get_sata_packet s [] = Inr (s, [], None)"
  "heap_turn s = Inr None \<Longrightarrow> wire_turn s p = (s1, Some d) \<Longrightarrow>
     get_sata_packet s (p # ws1) = Inr (s1, ws1, Some d)"
  "heap_turn s = Inr None \<Longrightarrow> wire_turn s p = (s1, None) \<Longrightarrow>
     get_sata_packet s (p # ws1) = get_sata_packet s1 ws1"
  by (simp_all add: get_sata_packet.simps [of s])

lemmas drain_eval = drain_steps get_sata_packet_steps heap_turn_def wire_turn_def next_seqn_def
  heap_min_def index_at_def heappush_def Let_def

section \<open>Commands to the card\<close>

text \<open>
  \<^verbatim>\<open>_send_command\<close> up to the bytes that go out.  \<^verbatim>\<open>len(data) / 4\<close> divides integers, so the
  \<^verbatim>\<open>math.ceil\<close> around it has nothing to round, and \<^verbatim>\<open>frame_length\<close> is not a field of the packet:
  assigning it leaves the field \<^verbatim>\<open>frame_len\<close> as it was.
\<close>

definition send_command :: "int \<Rightarrow> int \<Rightarrow> bytes option \<Rightarrow> bytes res" where
  "send_command operation memory_address data =
     (case data of
        None \<Rightarrow> Inl TypeError
      | Some d \<Rightarrow>
          let memory_len = int (length d div 4);
              p = then_set (then_set (then_set (then_set (then_set (Inr (ds_init LOPHIPacket None))
                    ''MAGIC'' (VInt 0xDEADBEEF)) ''op_code'' (VInt operation))
                    ''memory_addr'' (VInt memory_address)) ''memory_len'' (VInt memory_len))
                    ''frame_length'' (VInt (3 + memory_len))
          in bindE p (\<lambda>s. ds_repr (ds_set_data (Some d) s)))"

text \<open>The commands that turn the extraction of SATA frames on and off.\<close>

abbreviation (input) REG_READ :: int where "REG_READ \<equiv> 0"
abbreviation (input) REG_WRITE :: int where "REG_WRITE \<equiv> 1"
abbreviation (input) SATA_CTRL :: int where "SATA_CTRL \<equiv> 0x10"

definition sata_enable_host :: "bytes res" where
  "sata_enable_host = send_command REG_WRITE SATA_CTRL (Some [0, 0, 0, 1])"

definition sata_enable_device :: "bytes res" where
  "sata_enable_device = send_command REG_WRITE SATA_CTRL (Some [0, 0, 0, 2])"

definition sata_enable_all :: "disk_sensor \<Rightarrow> (disk_sensor \<times> bytes) res" where
  "sata_enable_all s =
     bindE (send_command REG_WRITE SATA_CTRL (Some [0, 0, 0, 3])) (\<lambda>bs. Inr (s\<lparr>sata_enabled := True\<rparr>, bs))"

definition sata_disable :: "disk_sensor \<Rightarrow> (disk_sensor \<times> bytes) res" where
  "sata_disable s =
     bindE (send_command REG_WRITE SATA_CTRL (Some [0, 0, 0, 0])) (\<lambda>bs. Inr (s\<lparr>sata_enabled := False\<rparr>, bs))"

text \<open>
  \<^verbatim>\<open>get_version\<close> sends no data, and the length of \<^verbatim>\<open>None\<close> cannot be taken.  The setters send their
  four bytes and then read \<^verbatim>\<open>lophi_packet.header\<close>, which no packet has: the bytes that went out, and the
  exception.
\<close>

definition get_version :: "bytes res" where
  "get_version = send_command REG_READ 0 None"

definition set_register :: "int \<Rightarrow> bytes \<Rightarrow> (bytes \<times> bool res) res" where
  "set_register addr d = bindE (send_command REG_WRITE addr (Some d)) (\<lambda>bs. Inr (bs, Inl AttributeError))"

definition set_dest_ip :: "bytes \<Rightarrow> (bytes \<times> bool res) res" where
  "set_dest_ip ip = set_register 0x08 ip"

definition set_sensor_ip :: "bytes \<Rightarrow> (bytes \<times> bool res) res" where
  "set_sensor_ip ip = set_register 0x04 ip"

definition set_udp_delay :: "int \<Rightarrow> (bytes \<times> bool res) res" where
  "set_udp_delay v = bindE (struct_pack (FInt True 0 4) (VInt v)) (set_register 0x01)"

definition set_mtu_size :: "int \<Rightarrow> (bytes \<times> bool res) res" where
  "set_mtu_size v = bindE (struct_pack (FInt True 0 4) (VInt v)) (set_register 0xa)"

lemma command_bytes:
  assumes "0 \<le> operation" "operation < 256" and "0 \<le> address" "address < 65536"
    and "length d div 4 < 65536"
  shows "send_command operation address (Some d) =
    Inr ([0xDE, 0xAD, 0xBE, 0xEF, 0, word_of_int operation] @ be_bytes 2 (nat address) @
         be_bytes 2 (length d div 4) @ [0, 0] @ d)"
  using assms
  by (simp add: send_command_def then_set_def ds_setattr_def ds_init_def ds_blank_def LOPHIPacket_def
      Let_def ds_pack_def ds_repr_def ds_set_data_def attr_def int_bytes_def byte_eval)

section \<open>Properties\<close>



text \<open>
  Around the wrap of the 16-bit counter a frame that is already there is not returned: one held
  frame whose number is below the expected one (a frame sent after the wrap) hides every other frame
  of the heap, the expected one included, until more than twenty frames are held.
\<close>

theorem wrapped_frame_blocks_heap:
  assumes "sensor_inv s" and "last_lophi_seqn s = Some l"
    and "(m, q) \<in> set (sata_heap s)" and "m < (l + 1) mod 65536"
    and "length (sata_heap s) \<le> MAX_HEAP_SIZE"
  shows "get_disk_packet s [] = Inr (s, [], None)"
proof -
  from assms(3) have ne: "sata_heap s \<noteq> []" by auto
  then have top: "heap_min (sata_heap s) = Inr (hd (sata_heap s))"
    by (simp add: heap_min_def index_at_def hd_conv_nth)
  from assms(1) have "heap_ok (sata_heap s)" by (simp add: sensor_inv_def)
  from sata_heap.top_is_min [OF this top] ne assms(3) have "fst (hd (sata_heap s)) \<le> m" by auto
  with assms(2,4) have "\<not> in_order s (fst (hd (sata_heap s)))" by (simp add: in_order_def)
  with heap_turn_waits [OF assms(1)] assms(5) have "heap_turn s = Inr None" by blast
  then show ?thesis by (simp add: get_disk_packet_enabled [OF assms(1)] get_sata_packet.simps)
qed

text \<open>
  A command that \<^verbatim>\<open>_send_command\<close> accepts goes out as the magic number, a zero byte, the
  operation, the address, the number of whole words of data, two zero bytes where the frame length
  belongs, and the data.
\<close>

theorem send_command_bytes:
  assumes "0 \<le> operation" "operation < 256" and "0 \<le> address" "address < 65536"
    and "length d div 4 < 65536"
  shows "send_command operation address (Some d) =
    Inr ([0xDE, 0xAD, 0xBE, 0xEF, 0, word_of_int operation] @ be_bytes 2 (nat address) @
         be_bytes 2 (length d div 4) @ [0, 0] @ d)"
  using assms by (rule command_bytes)

text \<open>The setters send the right command and still fail.\<close>

lemma set_udp_delay_fails:
  assumes "0 \<le> v" and "v < 2 ^ 32"
  shows "\<exists>bs. set_udp_delay v = Inr (bs, Inl AttributeError) \<and> drop 12 bs = be_bytes 4 (nat v) \<and> bs ! 7 = 1"
proof -
  have "struct_pack (FInt True 0 4) (VInt v) = Inr (be_bytes 4 (nat v))"
    using assms by (simp add: int_bytes_def)
  moreover have "send_command 1 1 (Some (be_bytes 4 (nat v))) =
      Inr ([0xDE, 0xAD, 0xBE, 0xEF, 0, 1] @ be_bytes 2 1 @ be_bytes 2 1 @ [0, 0] @ be_bytes 4 (nat v))"
    using command_bytes [of 1 1 "be_bytes 4 (nat v)"] by simp
  ultimately show ?thesis
    by (simp add: set_udp_delay_def set_register_def) (simp add: byte_eval)
qed

lemma get_version_fails: "get_version = Inl TypeError"
  by (simp add: get_version_def send_command_def)

section \<open>Witnesses\<close>

definition frame_at :: "nat \<Rightarrow> lophi_packet" where
  "frame_at n = \<lparr>op_code = SATA_FRAME, sata_frame_of = \<lparr>seqn_num = n, frame_direction = 0, frame_data = []\<rparr>\<rparr>"

definition after_frame :: "nat \<Rightarrow> disk_sensor" where
  "after_frame n = DiskSensorPhysical_init\<lparr>sata_enabled := True, last_lophi_seqn := Some n\<rparr>"

lemma after_frame_inv: "sensor_inv (after_frame n)"
  by (simp add: after_frame_def DiskSensorPhysical_init_def sensor_inv_def heap_ok_def)



theorem wrapped_frame_blocks_heap_witness:
  "\<exists>s'. drain (after_frame 65533) [frame_at 0, frame_at 65535, frame_at 65534]
       = Inr (s', [FromWire (frame_at 65534)]) \<and>
     map fst (sata_heap s') = [0, 65535] \<and> get_disk_packet s' [] = Inr (s', [], None)"
proof -
  let ?s = "DiskSensorPhysical_init\<lparr>sata_enabled := True, last_lophi_seqn := Some 65534,
    last_lophi_packet := Some (frame_at 65534),
    sata_heap := [(0, frame_at 0), (65535, frame_at 65535)]\<rparr>"
  have "drain (after_frame 65533) [frame_at 0, frame_at 65535, frame_at 65534] = Inr (?s, [FromWire (frame_at 65534)])"
    by (simp add: drain_eval after_frame_def frame_at_def DiskSensorPhysical_init_def get_disk_packet_def)
  moreover have "sensor_inv ?s"
    by (simp add: sensor_inv_def heap_ok_def DiskSensorPhysical_init_def frame_at_def)
  ultimately show ?thesis
    using wrapped_frame_blocks_heap [of ?s 65534 0 "frame_at 0"] by simp
qed

theorem send_command_bytes_witness:
  "send_command 1 0x10 (Some [0, 0, 0, 3]) =
     Inr [0xDE, 0xAD, 0xBE, 0xEF, 0, 1, 0, 0x10, 0, 1, 0, 0, 0, 0, 0, 3]"
  using send_command_bytes [of 1 "0x10" "[0, 0, 0, 3]"]
  by (simp add: byte_eval)

end
