(* ===== verification/MemorySensor.thy ===== *)
theory MemorySensor
  imports Prelude
begin

text \<open>
  The abstract memory sensor, \<^verbatim>\<open>lophi/sensors/memory/__init__.py\<close>: reads around the address
  ranges that must not be touched (\<^verbatim>\<open>read\<close>) and the temporal cache (\<^verbatim>\<open>_read_cached\<close>).

  \<^verbatim>\<open>_read_from_sensor\<close> is abstract in the class; here it is an argument of the operations, and
  the interface \<open>memory_device\<close> states what the class relies on of it.  Addresses and lengths are
  natural numbers: a difference that would be negative in Python is 0, and both give an empty read.
  The clock and the timeout are integers of one unit; a call reads the clock once.
\<close>

section \<open>State\<close>

type_synonym 's sensor_read = "nat \<Rightarrow> nat \<Rightarrow> 's \<Rightarrow> ('s \<times> bytes option) res"
type_synonym region = "nat \<times> nat"

record 's mem_sensor =
  BAD_MEM_REGIONS :: "region list"
  CACHE_TIMEOUT :: int
  cache :: "nat \<rightharpoonup> bytes"
  cache_timeouts :: "nat \<rightharpoonup> int"
  device :: 's

abbreviation (input) CACHE_CHUNK :: nat where "CACHE_CHUNK \<equiv> 7680"

section \<open>The cache\<close>

text \<open>Is the entry missing or expired?  The timeouts are indexed only for an entry that is there.\<close>

definition needs_fetch :: "int \<Rightarrow> nat \<Rightarrow> 's mem_sensor \<Rightarrow> bool res" where
  "needs_fetch now i s =
     (if cache s i = None then Inr True
      else case cache_timeouts s i of None \<Rightarrow> Inl KeyError | Some t \<Rightarrow> Inr (t \<le> now - CACHE_TIMEOUT s))"

text \<open>
  The lookup of one chunk: the sensor with the entry stored, or \<open>None\<close> in place of the entry when
  the device had no answer.
\<close>

definition fetch_chunk :: "'s sensor_read \<Rightarrow> int \<Rightarrow> nat \<Rightarrow> 's mem_sensor \<Rightarrow> ('s mem_sensor \<times> bytes option) res" where
  "fetch_chunk rfs now i s =
     bindE (needs_fetch now i s) (\<lambda>f.
       if f then
         bindE (rfs (i * CACHE_CHUNK) CACHE_CHUNK (device s)) (\<lambda>(d, r).
           case r of
             None \<Rightarrow> Inr (s\<lparr>device := d\<rparr>, None)
           | Some entry \<Rightarrow> Inr (s\<lparr>device := d, cache := (cache s)(i \<mapsto> entry),
                                cache_timeouts := (cache_timeouts s)(i \<mapsto> now)\<rparr>, Some entry))
       else Inr (s, cache s i))"

function cached_loop ::
  "'s sensor_read \<Rightarrow> int \<Rightarrow> nat \<Rightarrow> nat \<Rightarrow> bytes \<Rightarrow> 's mem_sensor \<Rightarrow> ('s mem_sensor \<times> bytes) res" where
  "cached_loop rfs now address len datas s =
     (if len > 0 then
        let cacheindex = address div CACHE_CHUNK;
            cacheoffset = address - cacheindex * CACHE_CHUNK;
            inchunk = CACHE_CHUNK - cacheoffset
        in bindE (fetch_chunk rfs now cacheindex s) (\<lambda>(s1, entry).
             case entry of
               None \<Rightarrow> Inr (s1, datas)
             | Some e \<Rightarrow>
                 cached_loop rfs now (address + inchunk) (len - inchunk)
                   (datas @ (if len > CACHE_CHUNK - cacheoffset then drop cacheoffset e
                             else slice cacheoffset (cacheoffset + len) e)) s1)
      else Inr (s, datas))"
  by pat_completeness auto
termination
proof (relation "measure (\<lambda>(_, _, _, len, _, _). len)", goal_cases)
  case (2 rfs now address len datas s x xa xb xc a b e)
  have "address - address div CACHE_CHUNK * CACHE_CHUNK < CACHE_CHUNK"
    by (simp add: minus_div_mult_eq_mod)
  with 2 show ?case by simp
qed simp

declare cached_loop.simps [simp del]

definition read_cached ::
  "'s sensor_read \<Rightarrow> int \<Rightarrow> nat \<Rightarrow> nat \<Rightarrow> 's mem_sensor \<Rightarrow> ('s mem_sensor \<times> bytes) res" where
  "read_cached rfs now address len s =
     (if CACHE_TIMEOUT s \<le> 0 then
        bindE (rfs address len (device s)) (\<lambda>(d, r).
          Inr (s\<lparr>device := d\<rparr>, case r of None \<Rightarrow> [] | Some rtn \<Rightarrow> rtn))
      else cached_loop rfs now address len [] s)"

section \<open>Reads around the bad regions\<close>

text \<open>
  The loop over the regions: the reads planned so far and the last region met, or \<open>None\<close> when the
  whole request lies in one region.
\<close>

fun plan_reads ::
  "nat \<Rightarrow> nat \<Rightarrow> region list \<Rightarrow> region list \<Rightarrow> region option \<Rightarrow> (region list \<times> region option) option" where
  "plan_reads address len [] READS last_bad = Some (READS, last_bad)"
| "plan_reads address len (bad # bads) READS last_bad =
     (if fst bad \<le> address \<and> snd bad \<ge> address + len then None
      else if fst bad \<ge> address \<and> fst bad < address + len then
        plan_reads address len bads
          (case last_bad of
             None \<Rightarrow> if address \<noteq> fst bad then READS @ [(address, fst bad)] else READS
           | Some lb \<Rightarrow> READS @ [(snd lb, fst bad)]) (Some bad)
      else if snd bad > address \<and> snd bad < address + len then
        plan_reads address len bads READS (Some bad)
      else plan_reads address len bads READS last_bad)"

fun run_reads ::
  "'s sensor_read \<Rightarrow> int \<Rightarrow> region list \<Rightarrow> region option \<Rightarrow> bytes \<Rightarrow> 's mem_sensor \<Rightarrow>
     ('s mem_sensor \<times> bytes option) res" where
  "run_reads rfs now [] last_read data s = Inr (s, Some data)"
| "run_reads rfs now (r # rs) last_read data s =
     (let data1 = data @ (case last_read of None \<Rightarrow> [] | Some l \<Rightarrow> replicate (fst r - snd l) 0)
      in bindE (read_cached rfs now (fst r) (snd r - fst r) s) (\<lambda>(s1, read_data).
           if read_data = [] then Inr (s1, None)
           else run_reads rfs now rs (Some r) (data1 @ read_data) s1))"

definition read ::
  "'s sensor_read \<Rightarrow> int \<Rightarrow> nat \<Rightarrow> nat \<Rightarrow> 's mem_sensor \<Rightarrow> ('s mem_sensor \<times> bytes option) res" where
  "read rfs now address len s =
     (case plan_reads address len (BAD_MEM_REGIONS s) [] None of
        None \<Rightarrow> Inr (s, Some (replicate len 0))
      | Some (READS, last_bad) \<Rightarrow>
          (case last_bad of
             None \<Rightarrow> bindE (read_cached rfs now address len s) (\<lambda>(s1, d). Inr (s1, Some d))
           | Some lb \<Rightarrow>
               let READS1 = (if snd lb < address + len then READS @ [(snd lb, address + len)] else READS)
               in bindE (index_at READS1 0) (\<lambda>first.
                  bindE (run_reads rfs now READS1 None
                           (if fst first > address then replicate (fst first - address) 0 else []) s)
                    (\<lambda>(s1, r).
                       Inr (s1, case r of None \<Rightarrow> None
                                | Some data \<Rightarrow> Some (data @ replicate (len - length data) 0))))))"

section \<open>The plan covers the request\<close>

definition bad_at :: "region list \<Rightarrow> nat \<Rightarrow> bool" where
  "bad_at rs i \<longleftrightarrow> (\<exists>(b, e) \<in> set rs. b \<le> i \<and> i < e)"

definition masked :: "region list \<Rightarrow> (nat \<Rightarrow> byte) \<Rightarrow> nat \<Rightarrow> byte" where
  "masked rs mem i = (if bad_at rs i then 0 else mem i)"

text \<open>Sorted regions with good memory between any two of them.\<close>

fun separated :: "region list \<Rightarrow> bool" where
  "separated [] = True"
| "separated ((b, e) # rs) \<longleftrightarrow> b < e \<and> list_all (\<lambda>(b', e'). e < b') rs \<and> separated rs"

text \<open>What a plan reads, with zeros in the gaps, and what makes it a good plan from \<open>p\<close> to \<open>c\<close>.\<close>

fun layout :: "(nat \<Rightarrow> byte) \<Rightarrow> nat \<Rightarrow> region list \<Rightarrow> bytes" where
  "layout mem p [] = []"
| "layout mem p ((s, e) # rs) = replicate (s - p) 0 @ map mem [s..<e] @ layout mem e rs"

fun good_plan :: "(nat \<Rightarrow> bool) \<Rightarrow> nat \<Rightarrow> region list \<Rightarrow> nat \<Rightarrow> bool" where
  "good_plan bad p [] c \<longleftrightarrow> p \<le> c \<and> (\<forall>i. p \<le> i \<and> i < c \<longrightarrow> bad i)"
| "good_plan bad p ((s, e) # rs) c \<longleftrightarrow>
     p \<le> s \<and> s < e \<and> (\<forall>i. p \<le> i \<and> i < s \<longrightarrow> bad i) \<and> (\<forall>i. s \<le> i \<and> i < e \<longrightarrow> \<not> bad i) \<and>
     good_plan bad e rs c"

lemma good_plan_le: "good_plan bad p rs c \<Longrightarrow> p \<le> c"
  by (induction rs arbitrary: p) force+

lemma good_plan_snoc:
  "good_plan bad p rs s \<Longrightarrow> s < e \<Longrightarrow> (\<And>i. s \<le> i \<Longrightarrow> i < e \<Longrightarrow> \<not> bad i) \<Longrightarrow> e \<le> c \<Longrightarrow>
     (\<And>i. e \<le> i \<Longrightarrow> i < c \<Longrightarrow> bad i) \<Longrightarrow> good_plan bad p (rs @ [(s, e)]) c"
  by (induction rs arbitrary: p) force+

lemma good_plan_extend:
  "good_plan bad p rs c \<Longrightarrow> c \<le> d \<Longrightarrow> (\<And>i. c \<le> i \<Longrightarrow> i < d \<Longrightarrow> bad i) \<Longrightarrow> good_plan bad p rs d"
proof (induction rs arbitrary: p)
  case Nil
  then show ?case by (auto simp: not_le [symmetric])
next
  case (Cons r rs)
  then show ?case by (cases r) simp
qed

lemma map_masked_zero:
  "(\<And>i. p \<le> i \<Longrightarrow> i < c \<Longrightarrow> bad_at rs i) \<Longrightarrow> map (masked rs mem) [p..<c] = replicate (c - p) 0"
  by (rule replicate_eqI) (auto simp: masked_def)

lemma map_masked_mem:
  "(\<And>i. s \<le> i \<Longrightarrow> i < e \<Longrightarrow> \<not> bad_at rs i) \<Longrightarrow> map (masked rs mem) [s..<e] = map mem [s..<e]"
  by (simp add: masked_def)

lemma upt_split: "p \<le> s \<Longrightarrow> s \<le> c \<Longrightarrow> [p..<c] = [p..<s] @ [s..<c :: nat]"
  using upt_add_eq_append [of p s "c - s"] by simp

lemma layout_masked:
  "good_plan (bad_at rs) p plan c \<Longrightarrow>
     length (layout mem p plan) \<le> c - p \<and>
     layout mem p plan @ replicate (c - p - length (layout mem p plan)) 0 = map (masked rs mem) [p..<c]"
proof (induction plan arbitrary: p)
  case Nil
  then show ?case by (simp add: map_masked_zero)
next
  case (Cons r plan)
  obtain s e where r: "r = (s, e)" by (cases r)
  from Cons.prems r have se: "p \<le> s" "s < e" "e \<le> c" by (auto dest: good_plan_le)
  from Cons r have IH: "length (layout mem e plan) \<le> c - e"
    "layout mem e plan @ replicate (c - e - length (layout mem e plan)) 0 = map (masked rs mem) [e..<c]"
    by auto
  have "map (masked rs mem) [p..<c]
      = map (masked rs mem) [p..<s] @ map (masked rs mem) [s..<e] @ map (masked rs mem) [e..<c]"
    using se by (simp add: upt_split [of p s c] upt_split [of s e c])
  also have "\<dots> = replicate (s - p) 0 @ map mem [s..<e] @ map (masked rs mem) [e..<c]"
    using Cons.prems r by (simp add: map_masked_zero map_masked_mem)
  finally show ?case using se IH r by simp
qed

definition reached :: "nat \<Rightarrow> nat \<Rightarrow> region option \<Rightarrow> nat" where
  "reached a z l = (case l of None \<Rightarrow> a | Some lb \<Rightarrow> min (snd lb) z)"

definition scan_state :: "(nat \<Rightarrow> bool) \<Rightarrow> nat \<Rightarrow> nat \<Rightarrow> region list \<Rightarrow> region list \<Rightarrow> region option \<Rightarrow> bool" where
  "scan_state bad a z bads READS l \<longleftrightarrow>
     good_plan bad a READS (reached a z l) \<and>
     (\<forall>i. reached a z l \<le> i \<and> i < z \<longrightarrow> bad i = bad_at bads i) \<and>
     (case l of None \<Rightarrow> READS = [] | Some lb \<Rightarrow> a < snd lb \<and> (READS = [] \<longrightarrow> snd lb < z) \<and> list_all (\<lambda>(b, e). snd lb < b) bads)"

lemma bad_at_Cons: "bad_at ((b, e) # rs) i \<longleftrightarrow> b \<le> i \<and> i < e \<or> bad_at rs i"
  by (auto simp: bad_at_def)

lemma bad_at_later: "list_all (\<lambda>(b', e'). e < b') rs \<Longrightarrow> i \<le> e \<Longrightarrow> \<not> bad_at rs i"
  by (fastforce simp: bad_at_def list_all_iff)

lemma scan_region_inside:
  assumes "scan_state bad a z ((b, e) # bads) READS l" and "separated ((b, e) # bads)"
    and "a \<le> b" and "b < z" and "\<not> (b \<le> a \<and> z \<le> e)"
  shows "scan_state bad a z bads
    (case l of None \<Rightarrow> if a \<noteq> b then READS @ [(a, b)] else READS | Some lb \<Rightarrow> READS @ [(snd lb, b)])
    (Some (b, e))"
proof -
  let ?c = "reached a z l"
  note st = assms(1)[unfolded scan_state_def]
  from st have plan: "good_plan bad a READS ?c"
    and bad: "\<And>i. ?c \<le> i \<Longrightarrow> i < z \<Longrightarrow> bad i = bad_at ((b, e) # bads) i" by auto
  have c: "?c = (case l of None \<Rightarrow> a | Some lb \<Rightarrow> snd lb)" "?c \<le> b" "l \<noteq> None \<Longrightarrow> ?c < b"
    using st assms(3,4) by (auto simp: reached_def split: option.splits)
  have later: "\<not> bad_at bads i" if "i \<le> e" for i
    using bad_at_later [OF _ that] assms(2) by simp
  have good: "\<not> bad i" if "?c \<le> i" "i < b" for i
    using bad [of i] that assms(2,4) later [of i] by (auto simp: bad_at_Cons)
  have inside: "bad i" if "b \<le> i" "i < min e z" for i
    using bad [of i] that c(2) by (auto simp: bad_at_Cons)
  have "good_plan bad a
    (case l of None \<Rightarrow> if a \<noteq> b then READS @ [(a, b)] else READS | Some lb \<Rightarrow> READS @ [(snd lb, b)])
    (min e z)"
  proof (cases "l = None \<and> a = b")
    case True
    with plan have "good_plan bad a READS b" by (simp add: reached_def)
    then have "good_plan bad a READS (min e z)"
      by (rule good_plan_extend) (use inside assms(2,4) in auto)
    with True show ?thesis by simp
  next
    case False
    then have lt: "?c < b" using c assms(3) by (auto simp: reached_def split: option.splits)
    have "good_plan bad a (READS @ [(?c, b)]) (min e z)"
      using plan lt good inside assms(2,4) by (intro good_plan_snoc) auto
    with False c(1) show ?thesis by (auto split: option.splits)
  qed
  moreover have "bad i = bad_at bads i" if "min e z \<le> i" "i < z" for i
  proof -
    from that have "e \<le> i" by auto
    with bad [of i] that c(2) assms(2) show ?thesis by (auto simp: bad_at_Cons)
  qed
  ultimately show ?thesis using assms(2-5) st
    by (auto simp: scan_state_def reached_def split: option.splits if_splits)
qed

lemma scan_region_before:
  assumes "scan_state bad a z ((b, e) # bads) READS l" and "separated ((b, e) # bads)"
    and "b < a" and "a < e" and "e < z"
  shows "scan_state bad a z bads READS (Some (b, e))"
proof -
  from assms(1,3) have l: "l = None" "READS = []"
    by (auto simp: scan_state_def split: option.splits)
  from assms(1) l have bad: "\<And>i. a \<le> i \<Longrightarrow> i < z \<Longrightarrow> bad i = bad_at ((b, e) # bads) i"
    by (auto simp: scan_state_def reached_def)
  with assms(2-5) l show ?thesis
    by (auto simp: scan_state_def reached_def bad_at_Cons)
qed

lemma scan_region_outside:
  assumes "scan_state bad a z ((b, e) # bads) READS l" and "separated ((b, e) # bads)"
    and "e \<le> a \<or> z \<le> b"
  shows "scan_state bad a z bads READS l"
  using assms by (fastforce simp: scan_state_def bad_at_Cons reached_def split: option.splits)

lemma plan_reads_good:
  assumes "separated bads" and "scan_state bad a (a + n) bads READS l" and "0 < n"
  shows "case plan_reads a n bads READS l of
      None \<Rightarrow> \<forall>i. a \<le> i \<and> i < a + n \<longrightarrow> bad i
    | Some (READS', l') \<Rightarrow> scan_state bad a (a + n) [] READS' l'"
  using assms
proof (induction bads arbitrary: READS l)
  case (Cons r bads)
  obtain b e where r: "r = (b, e)" by (cases r)
  note st = Cons.prems(2)[unfolded r] and sep = Cons.prems(1)[unfolded r]
  from sep have sep': "separated bads" by simp
  consider (whole) "b \<le> a" "a + n \<le> e" | (inside) "\<not> (b \<le> a \<and> a + n \<le> e)" "a \<le> b" "b < a + n"
    | (before) "b < a" "a < e" "e < a + n" | (outside) "b < a" "e \<le> a" | (beyond) "a + n \<le> b"
    by linarith
  then show ?case
  proof cases
    case whole
    with st have "l = None" by (auto simp: scan_state_def split: option.splits)
    with st whole have "bad i" if "a \<le> i" "i < a + n" for i
      using that by (auto simp: scan_state_def reached_def bad_at_Cons)
    with whole r show ?thesis by simp
  next
    case inside
    from Cons.IH [OF sep' scan_region_inside [OF st sep inside(2,3,1)] Cons.prems(3)] inside r
    show ?thesis by (cases l) auto
  next
    case before
    from Cons.IH [OF sep' scan_region_before [OF st sep before] Cons.prems(3)] before r
    show ?thesis by auto
  next
    case outside
    with scan_region_outside [OF st sep] Cons.IH [OF sep'] Cons.prems(3) r show ?thesis by auto
  next
    case beyond
    with scan_region_outside [OF st sep] Cons.IH [OF sep'] Cons.prems(3) r sep show ?thesis by auto
  qed
qed simp

lemma final_plan:
  assumes "scan_state bad a z [] READS (Some lb)"
  defines "READS1 \<equiv> (if snd lb < z then READS @ [(snd lb, z)] else READS)"
  shows "good_plan bad a READS1 z \<and> READS1 \<noteq> []"
proof (cases "snd lb < z")
  case True
  with assms(1) show ?thesis
    by (auto simp: READS1_def scan_state_def reached_def bad_at_def intro!: good_plan_snoc)
next
  case False
  with assms(1) show ?thesis
    by (auto simp: READS1_def scan_state_def reached_def min_absorb2)
qed

lemma chunk_part:
  assumes "off < CACHE_CHUNK"
  shows "(if n > CACHE_CHUNK - off then drop off (map mem [b..<b + CACHE_CHUNK])
          else slice off (off + n) (map mem [b..<b + CACHE_CHUNK])) =
    map mem [b + off..<min (b + off + n) (b + off + (CACHE_CHUNK - off))]"
proof (cases "n > CACHE_CHUNK - off")
  case True
  have "drop off (map mem [b..<b + CACHE_CHUNK]) = map mem [b + off..<b + CACHE_CHUNK]"
    by (simp only: drop_map drop_upt)
  with True assms show ?thesis by (simp only: if_True) simp
next
  case False
  have "slice off (off + n) (map mem [b..<b + CACHE_CHUNK]) = map mem [b + off..<b + off + n]"
    using False assms by (simp only: slice_def drop_map take_map drop_upt) (simp add: take_upt)
  with False show ?thesis by (simp only: if_False) simp
qed

lemma fetch_chunk_timeout:
  "fetch_chunk rfs now i s = Inr (s', r) \<Longrightarrow> CACHE_TIMEOUT s' = CACHE_TIMEOUT s"
  by (auto simp: fetch_chunk_def res_simps split: if_splits option.splits)

lemma cached_loop_timeout:
  "cached_loop rfs now a n datas s = Inr (s', r) \<Longrightarrow> CACHE_TIMEOUT s' = CACHE_TIMEOUT s"
proof (induction n arbitrary: a datas s rule: less_induct)
  case (less n)
  show ?case
  proof (cases "n > 0")
    case True
    let ?i = "a div CACHE_CHUNK"
    let ?in = "CACHE_CHUNK - (a - ?i * CACHE_CHUNK)"
    have "a - ?i * CACHE_CHUNK < CACHE_CHUNK" by (simp add: minus_div_mult_eq_mod)
    with True have smaller: "n - ?in < n" by simp
    from less.prems True obtain s1 entry where f: "fetch_chunk rfs now ?i s = Inr (s1, entry)"
      by (subst (asm) cached_loop.simps) (auto simp: Let_def res_simps)
    show ?thesis
    proof (cases entry)
      case None
      with less.prems True f fetch_chunk_timeout [OF f] show ?thesis
        by (subst (asm) cached_loop.simps) (simp add: Let_def)
    next
      case (Some e)
      with less.prems True f obtain d where "cached_loop rfs now (a + ?in) (n - ?in) d s1 = Inr (s', r)"
        by (subst (asm) cached_loop.simps) (simp add: Let_def split: if_splits)
      from less.IH [OF smaller this] fetch_chunk_timeout [OF f] show ?thesis by simp
    qed
  qed (use less.prems in \<open>simp add: cached_loop.simps\<close>)
qed

lemma read_cached_timeout:
  "read_cached rfs now a n s = Inr (s', r) \<Longrightarrow> CACHE_TIMEOUT s' = CACHE_TIMEOUT s"
  by (auto simp: read_cached_def res_simps dest: cached_loop_timeout split: if_splits)

section \<open>The device below\<close>

text \<open>A sensor whose device is good and whose cache holds what the memory holds.\<close>

definition sensor_ok :: "('s \<Rightarrow> bool) \<Rightarrow> (nat \<Rightarrow> byte) \<Rightarrow> 's mem_sensor \<Rightarrow> bool" where
  "sensor_ok ok mem s \<longleftrightarrow> ok (device s) \<and>
     (\<forall>i e. cache s i = Some e \<longrightarrow>
        cache_timeouts s i \<noteq> None \<and> e = map mem [i * CACHE_CHUNK..<i * CACHE_CHUNK + CACHE_CHUNK])"

text \<open>
  What the class relies on of \<^verbatim>\<open>_read_from_sensor\<close>: in a good state of the device a read of at least
  one byte below the top of memory returns these bytes of a memory that does not change, and the
  device stays good.
\<close>

locale memory_device =
  fixes rfs :: "'s sensor_read"
    and ok :: "'s \<Rightarrow> bool"
    and mem :: "nat \<Rightarrow> byte"
    and top :: nat
  assumes device_read: "ok d \<Longrightarrow> 0 < n \<Longrightarrow> a + n \<le> top \<Longrightarrow>
    \<exists>d'. rfs a n d = Inr (d', Some (map mem [a..<a + n])) \<and> ok d'"
begin

lemma fetch_chunk_ok:
  assumes "sensor_ok ok mem s" and "i * CACHE_CHUNK + CACHE_CHUNK \<le> top"
  shows "\<exists>s'. fetch_chunk rfs now i s = Inr (s', Some (map mem [i * CACHE_CHUNK..<i * CACHE_CHUNK + CACHE_CHUNK])) \<and>
    sensor_ok ok mem s' \<and> BAD_MEM_REGIONS s' = BAD_MEM_REGIONS s"
proof -
  from assms(1) have "ok (device s)" by (simp add: sensor_ok_def)
  from device_read [OF this _ assms(2)] obtain d' where
    d': "rfs (i * CACHE_CHUNK) CACHE_CHUNK (device s) =
      Inr (d', Some (map mem [i * CACHE_CHUNK..<i * CACHE_CHUNK + CACHE_CHUNK]))" "ok d'" by auto
  show ?thesis
  proof (cases "cache s i = None \<or> (\<exists>t. cache_timeouts s i = Some t \<and> t \<le> now - CACHE_TIMEOUT s)")
    case True
    with assms(1) have "needs_fetch now i s = Inr True" by (auto simp: needs_fetch_def sensor_ok_def)
    with d' assms(1) show ?thesis by (auto simp: fetch_chunk_def sensor_ok_def)
  next
    case False
    then obtain e where e: "cache s i = Some e" by auto
    with assms(1) obtain t where "cache_timeouts s i = Some t" by (auto simp: sensor_ok_def)
    with False e have "needs_fetch now i s = Inr False" by (simp add: needs_fetch_def)
    with assms(1) e show ?thesis by (auto simp: fetch_chunk_def sensor_ok_def)
  qed
qed

lemma cached_loop_ok:
  assumes "sensor_ok ok mem s" and "n = 0 \<or> a + n + CACHE_CHUNK \<le> top"
  shows "\<exists>s'. cached_loop rfs now a n datas s = Inr (s', datas @ map mem [a..<a + n]) \<and>
    sensor_ok ok mem s' \<and> BAD_MEM_REGIONS s' = BAD_MEM_REGIONS s"
  using assms
proof (induction n arbitrary: a datas s rule: less_induct)
  case (less n)
  show ?case
  proof (cases "n = 0")
    case True
    with less.prems(1) show ?thesis by (subst cached_loop.simps) simp
  next
    case False
    define i off where "i = a div CACHE_CHUNK" and "off = a - i * CACHE_CHUNK"
    have a: "a = i * CACHE_CHUNK + off" "off < CACHE_CHUNK"
      using div_mult_mod_eq [of a CACHE_CHUNK] by (auto simp: i_def off_def minus_div_mult_eq_mod)
    obtain s1 where s1: "fetch_chunk rfs now i s =
        Inr (s1, Some (map mem [i * CACHE_CHUNK..<i * CACHE_CHUNK + CACHE_CHUNK]))"
      "sensor_ok ok mem s1" "BAD_MEM_REGIONS s1 = BAD_MEM_REGIONS s"
      using fetch_chunk_ok [OF less.prems(1), of i now] less.prems(2) False a by auto
    define e where "e = map mem [i * CACHE_CHUNK..<i * CACHE_CHUNK + CACHE_CHUNK]"
    define got where "got = (if n > CACHE_CHUNK - off then drop off e else slice off (off + n) e)"
    have got: "got = map mem [a..<min (a + n) (a + (CACHE_CHUNK - off))]"
      unfolding got_def e_def a(1) by (rule chunk_part [OF a(2)])
    have step: "cached_loop rfs now a n datas s =
        cached_loop rfs now (a + (CACHE_CHUNK - off)) (n - (CACHE_CHUNK - off)) (datas @ got) s1"
      using False s1(1) by (subst cached_loop.simps)
        (simp only: Let_def i_def [symmetric] off_def [symmetric] e_def [symmetric] bindE_simps
          prod.case option.case got_def if_True zero_less_iff_neq_zero not_False_eq_True)
    have split: "[a..<a + n] = [a..<min (a + n) (a + (CACHE_CHUNK - off))]
        @ [a + (CACHE_CHUNK - off)..<a + (CACHE_CHUNK - off) + (n - (CACHE_CHUNK - off))]"
      using upt_split [of a "a + (CACHE_CHUNK - off)" "a + n"] by (cases "n > CACHE_CHUNK - off") auto
    have "n - (CACHE_CHUNK - off) < n" using False a(2) by simp
    moreover have "n - (CACHE_CHUNK - off) = 0 \<or>
        a + (CACHE_CHUNK - off) + (n - (CACHE_CHUNK - off)) + CACHE_CHUNK \<le> top"
      using less.prems(2) False by linarith
    ultimately show ?thesis
      using less.IH [OF _ s1(2), of "n - (CACHE_CHUNK - off)" "a + (CACHE_CHUNK - off)" "datas @ got"] s1(3)
      unfolding step split got by auto
  qed
qed

lemma read_cached_ok:
  assumes "sensor_ok ok mem s" and "0 < n" and "a + n + CACHE_CHUNK \<le> top"
  shows "\<exists>s'. read_cached rfs now a n s = Inr (s', map mem [a..<a + n]) \<and> sensor_ok ok mem s' \<and>
    BAD_MEM_REGIONS s' = BAD_MEM_REGIONS s"
proof (cases "CACHE_TIMEOUT s \<le> 0")
  case True
  from assms(1) have "ok (device s)" by (simp add: sensor_ok_def)
  from device_read [OF this assms(2), of a] assms(3) obtain d' where
    "rfs a n (device s) = Inr (d', Some (map mem [a..<a + n]))" "ok d'" by auto
  with True assms(1) show ?thesis by (auto simp: read_cached_def sensor_ok_def)
next
  case False
  with cached_loop_ok [OF assms(1), of n a now "[]"] assms(3) show ?thesis by (simp add: read_cached_def)
qed

lemma run_reads_ok:
  assumes "sensor_ok ok mem s" and "good_plan bad p plan c" and "c + CACHE_CHUNK \<le> top"
  shows "\<exists>s'. run_reads rfs now plan (Some (q, p)) data s = Inr (s', Some (data @ layout mem p plan)) \<and>
    sensor_ok ok mem s' \<and> BAD_MEM_REGIONS s' = BAD_MEM_REGIONS s"
  using assms
proof (induction plan arbitrary: p q data s)
  case (Cons r plan)
  obtain x y where r: "r = (x, y)" by (cases r)
  with Cons.prems have "x < y" "good_plan bad y plan c" "y \<le> c" by (auto dest: good_plan_le)
  moreover obtain s1 where "read_cached rfs now x (y - x) s = Inr (s1, map mem [x..<y])" "sensor_ok ok mem s1"
    "BAD_MEM_REGIONS s1 = BAD_MEM_REGIONS s"
    using read_cached_ok [OF Cons.prems(1), of "y - x" x now] \<open>x < y\<close> \<open>y \<le> c\<close> Cons.prems(3) by auto
  ultimately show ?case
    using Cons.prems(3) Cons.IH [of s1 y x "data @ replicate (x - p) 0 @ map mem [x..<y]"] r by (auto simp: Let_def)
qed simp

lemma run_all_reads_ok:
  assumes "sensor_ok ok mem s" and "good_plan bad a ((x, y) # plan) c" and "c + CACHE_CHUNK \<le> top"
  shows "\<exists>s'. run_reads rfs now ((x, y) # plan) None (if x > a then replicate (x - a) 0 else []) s
      = Inr (s', Some (layout mem a ((x, y) # plan))) \<and> sensor_ok ok mem s' \<and> BAD_MEM_REGIONS s' = BAD_MEM_REGIONS s"
proof -
  from assms(2) have xy: "a \<le> x" "x < y" "good_plan bad y plan c" "y \<le> c" by (auto dest: good_plan_le)
  obtain s1 where s1: "read_cached rfs now x (y - x) s = Inr (s1, map mem [x..<y])" "sensor_ok ok mem s1"
    "BAD_MEM_REGIONS s1 = BAD_MEM_REGIONS s"
    using read_cached_ok [OF assms(1), of "y - x" x now] xy(2,4) assms(3) by auto
  from run_reads_ok [OF s1(2) xy(3) assms(3), of now x "replicate (x - a) 0 @ map mem [x..<y]"] s1 xy
  show ?thesis by (auto simp: Let_def)
qed

lemma read_planned:
  assumes "sensor_ok ok mem s" and "plan_reads a n (BAD_MEM_REGIONS s) [] None = Some (READS, Some lb)"
    and "scan_state (bad_at (BAD_MEM_REGIONS s)) a (a + n) [] READS (Some lb)"
    and "a + n + CACHE_CHUNK \<le> top"
  shows "\<exists>s'. read rfs now a n s = Inr (s', Some (map (masked (BAD_MEM_REGIONS s) mem) [a..<a + n])) \<and>
    sensor_ok ok mem s' \<and> BAD_MEM_REGIONS s' = BAD_MEM_REGIONS s"
proof -
  define READS1 where "READS1 = (if snd lb < a + n then READS @ [(snd lb, a + n)] else READS)"
  from final_plan [OF assms(3)] have plan: "good_plan (bad_at (BAD_MEM_REGIONS s)) a READS1 (a + n)"
    and "READS1 \<noteq> []" by (simp_all add: READS1_def)
  then obtain x y more where R: "READS1 = (x, y) # more" by (cases READS1) auto
  then have first: "index_at READS1 0 = Inr (x, y)" by (simp add: index_at_def)
  have step: "read rfs now a n s = bindE (run_reads rfs now READS1 None
      (if x > a then replicate (x - a) 0 else []) s) (\<lambda>(s1, r).
        Inr (s1, case r of None \<Rightarrow> None | Some data \<Rightarrow> Some (data @ replicate (n - length data) 0)))"
    using assms(2) first by (simp add: read_def Let_def READS1_def [symmetric])
  from layout_masked [OF plan, of mem]
  have "layout mem a READS1 @ replicate (n - length (layout mem a READS1)) 0 =
      map (masked (BAD_MEM_REGIONS s) mem) [a..<a + n]" by simp
  moreover obtain s' where "run_reads rfs now READS1 None (if x > a then replicate (x - a) 0 else []) s
      = Inr (s', Some (layout mem a READS1))" "sensor_ok ok mem s'" "BAD_MEM_REGIONS s' = BAD_MEM_REGIONS s"
    using run_all_reads_ok [OF assms(1) plan [unfolded R] assms(4), of now] unfolding R by blast
  ultimately show ?thesis unfolding step by simp
qed

lemma read_ok:
  assumes "sensor_ok ok mem s" and "separated (BAD_MEM_REGIONS s)" and "0 < n" and "a + n + CACHE_CHUNK \<le> top"
  shows "\<exists>s'. read rfs now a n s = Inr (s', Some (map (masked (BAD_MEM_REGIONS s) mem) [a..<a + n])) \<and>
    sensor_ok ok mem s' \<and> BAD_MEM_REGIONS s' = BAD_MEM_REGIONS s"
proof -
  let ?rs = "BAD_MEM_REGIONS s" and ?z = "a + n"
  have "scan_state (bad_at ?rs) a ?z ?rs [] None" by (auto simp: scan_state_def reached_def)
  note plan = plan_reads_good [OF assms(2) this assms(3)]
  consider (whole) "plan_reads a n ?rs [] None = None"
    | (plain) READS where "plan_reads a n ?rs [] None = Some (READS, None)"
    | (planned) READS lb where "plan_reads a n ?rs [] None = Some (READS, Some lb)"
    by (metis option.exhaust surj_pair)
  then show ?thesis
  proof cases
    case whole
    with plan have "map (masked ?rs mem) [a..<?z] = replicate n 0" by (simp add: map_masked_zero)
    with whole assms(1) show ?thesis by (simp add: read_def)
  next
    case plain
    with plan have "map (masked ?rs mem) [a..<?z] = map mem [a..<?z]"
      by (intro map_masked_mem) (simp add: scan_state_def reached_def bad_at_def)
    with plain read_cached_ok [OF assms(1,3,4), of now] show ?thesis by (auto simp: read_def)
  next
    case planned
    with plan have "scan_state (bad_at ?rs) a ?z [] READS (Some lb)" by simp
    from read_planned [OF assms(1) planned this assms(4)] show ?thesis .
  qed
qed

text \<open>Two regions that touch leave an empty read between them, and the whole read fails.\<close>

lemma read_touching:
  assumes "sensor_ok ok mem s" and "BAD_MEM_REGIONS s = [(b, m), (m, e)]" and "CACHE_TIMEOUT s > 0"
    and "a < b" and "b < m" and "m < e" and "e < a + n" and "a + n + CACHE_CHUNK \<le> top"
  shows "\<exists>s'. read rfs now a n s = Inr (s', None)"
proof -
  obtain s1 where s1: "read_cached rfs now a (b - a) s = Inr (s1, map mem [a..<b])"
    using read_cached_ok [OF assms(1), of "b - a" a now] assms by auto
  from read_cached_timeout [OF s1] assms(3) have "CACHE_TIMEOUT s1 > 0" by simp
  then have "read_cached rfs now m 0 s1 = Inr (s1, [])"
    by (simp add: read_cached_def cached_loop.simps)
  with s1 assms show ?thesis by (auto simp: read_def Let_def index_at_def)
qed

end

end
