(* ===== verification/MemoryPhysical.thy ===== *)
theory MemoryPhysical
  imports PyStruct MemorySensor
begin

text \<open>
  The physical memory sensor, \<^verbatim>\<open>lophi/sensors/memory/physical.py\<close>: the read protocol with the
  card, its retries, the word alignment, and both ways of reading (one request at a time, or all
  requests first with a reader process).

  The card is an argument: a function from the datagram sent to the datagrams it sends back.  The
  socket holds the datagrams that arrived and were not read yet; closing it drops them.  Connecting
  always succeeds.  Reading from an empty socket is the socket's timeout, and with the reader process,
  which has no timeout, it blocks forever.
\<close>

section \<open>Packets\<close>

abbreviation (input) MAGIC_LOPHI :: nat where "MAGIC_LOPHI \<equiv> 0xDEADBEEF"
abbreviation (input) READ_CHUNK :: nat where "READ_CHUNK \<equiv> 7680"
abbreviation (input) READ_COMMAND :: nat where "READ_COMMAND \<equiv> 0"

record rapid_packet =
  rp_magic :: nat
  rp_operation :: nat
  rp_length :: nat
  rp_transaction_no :: nat
  rp_data :: "bytes option"

text \<open>\<^verbatim>\<open>MemoryRapidPacket(recv_data)\<close>: \<open>None\<close> when there is too little data and all fields stay \<^verbatim>\<open>None\<close>.\<close>

definition get_rapid_packet :: "bytes \<Rightarrow> rapid_packet option" where
  "get_rapid_packet bs =
     (let p = ds_init MemoryRapidPacket (Some bs); f = (\<lambda>k. attr (ds_dict p) k) in
      case (f ''MAGIC_LOPHI'', f ''operation'', f ''length'', f ''transaction_no'') of
        (VInt m, VInt opr, VInt l, VInt t) \<Rightarrow>
          Some \<lparr>rp_magic = nat m, rp_operation = nat opr, rp_length = nat l,
                rp_transaction_no = nat t, rp_data = ds_data p\<rparr>
      | _ \<Rightarrow> None)"

text \<open>The bytes of a packet, as the packet format lays them out.\<close>

definition rapid_bytes :: "nat \<Rightarrow> nat \<Rightarrow> nat \<Rightarrow> nat \<Rightarrow> bytes \<Rightarrow> bytes" where
  "rapid_bytes opr address len tno data =
     be_bytes 4 MAGIC_LOPHI @ be_bytes 4 (address div 2 ^ 32) @ be_bytes 4 opr @
     be_bytes 4 (address mod 2 ^ 32) @ be_bytes 4 len @ be_bytes 4 0 @ be_bytes 4 tno @ data"

section \<open>Sending a command\<close>

record card_state =
  transaction_no :: nat
  sock :: "bytes list"
  sent :: "bytes list"

type_synonym card = "bytes \<Rightarrow> bytes list"

definition command_packet :: "nat \<Rightarrow> nat \<Rightarrow> nat \<Rightarrow> nat \<Rightarrow> bytes res" where
  "command_packet command address len tno =
     bindE (then_set (then_set (then_set (then_set (then_set (then_set (then_set
         (Inr (ds_init MemoryRapidPacket None))
         ''MAGIC_LOPHI'' (VInt 0xDEADBEEF)) ''flags'' (VInt 0)) ''operation'' (VInt (int command)))
         ''address_high'' (VInt (int (address div 2 ^ 32)))) ''address_low'' (VInt (int (address mod 2 ^ 32))))
         ''length'' (VInt (int len))) ''transaction_no'' (VInt (int tno)))
       ds_repr"

definition send_rapid :: "card \<Rightarrow> nat \<Rightarrow> nat \<Rightarrow> nat \<Rightarrow> card_state \<Rightarrow> card_state res" where
  "send_rapid fpga command address len s =
     bindE (command_packet command address len (transaction_no s)) (\<lambda>bs.
       Inr (s\<lparr>transaction_no := (transaction_no s + 1) mod 0xffff,
              sent := sent s @ [bs], sock := sock s @ fpga bs\<rparr>))"

section \<open>The answer to a read\<close>

text \<open>
  \<^verbatim>\<open>_get_read_response\<close> from the datagrams of the socket: the datagrams left, and the data,
  \<^verbatim>\<open>None\<close>, or the exception.  The messages for a short datagram and for a missing payload cannot be
  built and raise \<^verbatim>\<open>TypeError\<close>.
\<close>

fun get_read_response :: "nat \<Rightarrow> nat \<Rightarrow> bytes \<Rightarrow> bytes list \<Rightarrow> bytes list \<times> bytes option res" where
  "get_read_response len tno data [] =
     (if length data < len then ([], Inl SocketTimeout) else ([], Inr (Some (take len data))))"
| "get_read_response len tno data (p # ps) =
     (if length data < len then
        (case get_rapid_packet p of
           None \<Rightarrow> (ps, Inl TypeError)
         | Some r \<Rightarrow>
             if rp_magic r \<noteq> MAGIC_LOPHI then (ps, Inr None)
             else if rp_transaction_no r \<noteq> tno then (ps, Inr None)
             else if rp_operation r \<noteq> READ_COMMAND + 2 then get_read_response len tno data ps
             else (case rp_data r of
                     None \<Rightarrow> (ps, Inl TypeError)
                   | Some d \<Rightarrow> get_read_response len ((tno + 1) mod 0xffff) (data @ d) ps))
      else (p # ps, Inr (Some (take len data))))"

definition first_transaction :: "bool \<Rightarrow> card_state \<Rightarrow> nat" where
  "first_transaction read_multiple s = (if read_multiple then 0 else (transaction_no s + 0xfffe) mod 0xffff)"

section \<open>Reading one request at a time\<close>

text \<open>
  The retry loop for one chunk.  An answer that is refused reopens the socket and goes around again
  without counting an attempt, so the loop need not end: \<open>None\<close> when the fuel runs out.
\<close>

fun try_read :: "card \<Rightarrow> nat \<Rightarrow> nat \<Rightarrow> nat \<Rightarrow> nat \<Rightarrow> nat \<Rightarrow> card_state \<Rightarrow> (card_state \<times> bytes res) option" where
  "try_read fpga 0 RETRIES attempt address req_len s = None"
| "try_read fpga (Suc fuel) RETRIES attempt address req_len s =
     (if attempt < RETRIES then
        (case send_rapid fpga READ_COMMAND address req_len s of
           Inl e \<Rightarrow> Some (s, Inl e)
         | Inr s1 \<Rightarrow>
             (case get_read_response req_len (first_transaction False s1) [] (sock s1) of
                (_, Inr None) \<Rightarrow> try_read fpga fuel RETRIES attempt address req_len (s1\<lparr>sock := []\<rparr>)
              | (ps, Inr (Some d)) \<Rightarrow> Some (s1\<lparr>sock := ps\<rparr>, Inr d)
              | (ps, Inl SocketTimeout) \<Rightarrow>
                  try_read fpga fuel RETRIES (attempt + 1) address req_len (s1\<lparr>sock := ps\<rparr>)
              | (ps, Inl e) \<Rightarrow> Some (s1\<lparr>sock := ps\<rparr>, Inl e)))
      else Some (s, Inl SocketTimeout))"

function read_chunks ::
  "card \<Rightarrow> nat \<Rightarrow> nat \<Rightarrow> nat \<Rightarrow> nat \<Rightarrow> nat \<Rightarrow> bytes \<Rightarrow> card_state \<Rightarrow> (card_state \<times> bytes res) option" where
  "read_chunks fpga fuel RETRIES address remaining offset data s =
     (if remaining > 0 then
        let req_len = min READ_CHUNK remaining in
        (case try_read fpga fuel RETRIES 0 (address + offset) req_len s of
           None \<Rightarrow> None
         | Some (s1, Inl e) \<Rightarrow> Some (s1, Inl e)
         | Some (s1, Inr d) \<Rightarrow>
             read_chunks fpga fuel RETRIES address (remaining - req_len) (offset + req_len) (data @ d) s1)
      else Some (s, Inr data))"
  by pat_completeness auto
termination
  by (relation "measure (\<lambda>(_, _, _, _, remaining, _, _, _). remaining)") auto

declare read_chunks.simps [simp del]

section \<open>Reading with the reader process\<close>

function send_all :: "card \<Rightarrow> nat \<Rightarrow> nat \<Rightarrow> nat \<Rightarrow> card_state \<Rightarrow> (nat \<times> card_state) res" where
  "send_all fpga address remaining offset s =
     (if remaining > 0 then
        let req_len = min READ_CHUNK remaining in
        bindE (send_rapid fpga READ_COMMAND (address + offset) req_len s) (\<lambda>s1.
          send_all fpga address (remaining - req_len) (offset + req_len) s1)
      else Inr (offset, s))"
  by pat_completeness auto
termination
  by (relation "measure (\<lambda>(_, _, remaining, _, _). remaining)") auto

declare send_all.simps [simp del]

text \<open>
  The attempts, counted down.  After a refused answer the remaining length is set back, the offset is
  not.  \<open>None\<close>: the process waits for the queue forever.
\<close>

fun threaded_read :: "card \<Rightarrow> nat \<Rightarrow> nat \<Rightarrow> nat \<Rightarrow> nat \<Rightarrow> nat \<Rightarrow> card_state \<Rightarrow> (card_state \<times> bytes res) option" where
  "threaded_read fpga 0 address len remaining offset s = Some (s, Inl SocketTimeout)"
| "threaded_read fpga (Suc attempts) address len remaining offset s =
     (case send_all fpga address remaining offset s of
        Inl e \<Rightarrow> Some (s, Inl e)
      | Inr (offset1, s1) \<Rightarrow>
          (case get_read_response len (first_transaction True s1) [] (sock s1) of
             (_, Inr None) \<Rightarrow> threaded_read fpga attempts address len len offset1 (s1\<lparr>sock := []\<rparr>)
           | (ps, Inr (Some d)) \<Rightarrow> Some (s1\<lparr>sock := ps\<rparr>, Inr d)
           | (_, Inl SocketTimeout) \<Rightarrow> None
           | (ps, Inl e) \<Rightarrow> Some (s1\<lparr>sock := ps\<rparr>, Inl e)))"

section \<open>The read with its alignment\<close>

definition adjust_addr :: "nat \<Rightarrow> nat" where "adjust_addr address = address mod 4"

definition adjust_len :: "nat \<Rightarrow> nat" where
  "adjust_len len = (if len mod 4 \<noteq> 0 then 4 - len mod 4 else 0)"

definition read_from_sensor ::
  "card \<Rightarrow> nat \<Rightarrow> bool \<Rightarrow> nat \<Rightarrow> nat \<Rightarrow> nat \<Rightarrow> card_state \<Rightarrow> (card_state \<times> bytes res) option" where
  "read_from_sensor fpga fuel use_threading RETRIES address len s =
     (let adj = adjust_addr address; address1 = address - adj; len1 = len + adj;
          adjl = adjust_len len1; len2 = len1 + adjl; s0 = s\<lparr>transaction_no := 0\<rparr>;
          r = (if use_threading then threaded_read fpga RETRIES address1 len2 len2 0 s0
               else read_chunks fpga fuel RETRIES address1 len2 0 [] s0)
      in case r of
           None \<Rightarrow> None
         | Some (s1, Inl e) \<Rightarrow> Some (s1, Inl e)
         | Some (s1, Inr rtn_data) \<Rightarrow> Some (s1, Inr (slice adj (len2 - adjl) rtn_data)))"

text \<open>As the abstract class calls it; a read that does not return has no result.\<close>

definition physical_read :: "card \<Rightarrow> nat \<Rightarrow> nat \<Rightarrow> card_state sensor_read" where
  "physical_read fpga fuel RETRIES address len s =
     (case read_from_sensor fpga fuel False RETRIES address len s of
        None \<Rightarrow> Inl (PyException ''does not return'')
      | Some (s1, Inl e) \<Rightarrow> Inl e
      | Some (s1, Inr d) \<Rightarrow> Inr (s1, Some d))"

section \<open>Writing\<close>

text \<open>
  \<^verbatim>\<open>write\<close> up to the bytes that go out.  The packet format is declared inside the method; its address
  field has seven pad bytes in front of it.
\<close>

definition MemoryWritePacket :: fields where
  "MemoryWritePacket = [(''MAGIC_LOPHI'', FInt True 0 4), (''transcation_no'', FInt True 0 2),
     (''operation'', FInt True 0 1), (''address'', FInt True 7 8), (''length'', FInt True 0 4)]"

definition write_memory :: "nat \<Rightarrow> bytes \<Rightarrow> bytes res" where
  "write_memory address data =
     bindE (then_set (Inr (ds_init MemoryWritePacket None)) ''address'' (VInt (int address))) (\<lambda>p.
     bindE (then_set (then_set (then_set (Inr (ds_set_data (Some data) p))
         ''length'' (VInt (int (length data)))) ''operation'' (VInt 2)) ''MAGIC_LOPHI'' (VInt 0xDEADBEEF))
       ds_repr)"

lemma write_memory_bytes:
  assumes "address < 2 ^ 64" and "length data < 2 ^ 32"
  shows "write_memory address data = Inr (be_bytes 4 MAGIC_LOPHI @ [0, 0, 2] @ replicate 7 0 @
    be_bytes 8 address @ be_bytes 4 (length data) @ data)"
  using assms
  by (simp add: write_memory_def then_set_def ds_setattr_def ds_init_def ds_blank_def MemoryWritePacket_def
      ds_pack_def ds_repr_def ds_set_data_def attr_def int_bytes_def struct_size_def byte_eval)

section \<open>Packet lemmas\<close>

lemma be4: "v < 2 ^ 32 \<Longrightarrow> be_val (be_bytes 4 v) = v"
  by (rule be.dec_enc) simp

lemma command_packet_bytes:
  assumes "command < 2 ^ 32" "address < 2 ^ 64" "len < 2 ^ 32" "tno < 2 ^ 32"
  shows "command_packet command address len tno = Inr (rapid_bytes command address len tno [])"
proof -
  have "address div 2 ^ 32 < 2 ^ 32" using assms(2) by (simp add: less_mult_imp_div_less)
  with assms show ?thesis
    by (simp add: command_packet_def then_set_def ds_setattr_def ds_init_def ds_blank_def
        MemoryRapidPacket_def ds_pack_def ds_repr_def attr_def int_bytes_def rapid_bytes_def struct_size_def
        nat_mod_distrib)
qed

lemma get_rapid_packet_bytes:
  assumes "opr < 2 ^ 32" "len < 2 ^ 32" "tno < 2 ^ 32"
  shows "get_rapid_packet (rapid_bytes opr address len tno data) =
    Some \<lparr>rp_magic = MAGIC_LOPHI, rp_operation = opr, rp_length = len, rp_transaction_no = tno,
          rp_data = (if data = [] then None else Some data)\<rparr>"
  using assms be4 [of MAGIC_LOPHI] be4 [of opr] be4 [of len] be4 [of tno]
  by (simp add: get_rapid_packet_def rapid_bytes_def ds_init_def ds_blank_def ds_unpack_def struct_size_def
      MemoryRapidPacket_def attr_def int_val_def Let_def)

lemma adjust_len_le: "adjust_len n \<le> 3"
  unfolding adjust_len_def by presburger

lemma round_to_word: "x mod 4 = 0 \<Longrightarrow> x \<le> 4 * y + 3 \<Longrightarrow> x \<le> 4 * (y :: nat)"
  by presburger

section \<open>A card that answers\<close>

text \<open>
  What the sensor relies on of the card: every read request for at most one chunk is answered by one
  datagram with the bytes of a memory that does not change, under the number of the request.
\<close>

locale reliable_card =
  fixes fpga :: card
    and mem :: "nat \<Rightarrow> byte"
    and fuel :: nat
    and RETRIES :: nat
  assumes answers: "address + len \<le> 2 ^ 64 \<Longrightarrow> 0 < len \<Longrightarrow> len \<le> READ_CHUNK \<Longrightarrow> tno < 0xffff \<Longrightarrow>
      fpga (rapid_bytes READ_COMMAND address len tno []) =
        [rapid_bytes 2 address len tno (map mem [address..<address + len])]"
    and enough_fuel: "0 < fuel"
    and some_retry: "0 < RETRIES"
begin

lemma send_ok:
  assumes "address + len \<le> 2 ^ 64" and "0 < len" and "len \<le> READ_CHUNK" and "transaction_no s < 0xffff"
  shows "\<exists>s1. send_rapid fpga READ_COMMAND address len s = Inr s1 \<and>
    sock s1 = sock s @ [rapid_bytes 2 address len (transaction_no s) (map mem [address..<address + len])] \<and>
    transaction_no s1 = (transaction_no s + 1) mod 0xffff"
  using assms by (simp add: send_rapid_def command_packet_bytes answers)

lemma answer_accepted:
  assumes "0 < len" and "len \<le> READ_CHUNK" and "tno < 0xffff" and "length data < want"
  shows "get_read_response want tno data (rapid_bytes 2 address len tno (map mem [address..<address + len]) # ps) =
    get_read_response want ((tno + 1) mod 0xffff) (data @ map mem [address..<address + len]) ps"
  using assms by (simp add: get_rapid_packet_bytes)

lemma response_done: "get_read_response (length data) tno data [] = ([], Inr (Some data))"
  by simp

lemma try_read_ok:
  assumes "address + len \<le> 2 ^ 64" and "0 < len" and "len \<le> READ_CHUNK"
    and "sock s = []" and "transaction_no s < 0xffff"
  shows "\<exists>s'. try_read fpga fuel RETRIES 0 address len s = Some (s', Inr (map mem [address..<address + len])) \<and>
    sock s' = [] \<and> transaction_no s' < 0xffff"
proof -
  obtain s1 where s1: "send_rapid fpga READ_COMMAND address len s = Inr s1"
    "sock s1 = [rapid_bytes 2 address len (transaction_no s) (map mem [address..<address + len])]"
    "transaction_no s1 = (transaction_no s + 1) mod 0xffff"
    using send_ok [OF assms(1-3,5)] assms(4) by auto
  have t: "first_transaction False s1 = transaction_no s"
    using assms(5) s1(3) by (cases "transaction_no s = 0xfffe") (simp_all add: first_transaction_def)
  from answer_accepted [OF assms(2,3,5), of "[]" len address "[]"] assms(2)
  have "get_read_response len (transaction_no s) [] (sock s1) = ([], Inr (Some (map mem [address..<address + len])))"
    unfolding s1(2) by simp
  with s1 t enough_fuel some_retry show ?thesis by (cases fuel) auto
qed

lemma read_chunks_ok:
  assumes "address + offset + remaining \<le> 2 ^ 64" and "sock s = []" and "transaction_no s < 0xffff"
  shows "\<exists>s'. read_chunks fpga fuel RETRIES address remaining offset data s =
      Some (s', Inr (data @ map mem [address + offset..<address + offset + remaining])) \<and> sock s' = []"
  using assms
proof (induction remaining arbitrary: offset data s rule: less_induct)
  case (less remaining)
  show ?case
  proof (cases "remaining = 0")
    case True
    with less.prems show ?thesis by (simp add: read_chunks.simps)
  next
    case False
    define r where "r = min READ_CHUNK remaining"
    with False have r: "0 < r" "r \<le> READ_CHUNK" "r \<le> remaining" by auto
    obtain s1 where s1: "try_read fpga fuel RETRIES 0 (address + offset) r s =
        Some (s1, Inr (map mem [address + offset..<address + offset + r]))" "sock s1 = []" "transaction_no s1 < 0xffff"
      using try_read_ok [of "address + offset" r s] r less.prems by auto
    have "[address + offset..<address + offset + remaining] = [address + offset..<address + offset + r]
        @ [address + (offset + r)..<address + (offset + r) + (remaining - r)]"
      using upt_split [of "address + offset" "address + offset + r" "address + offset + remaining"] r
      by (simp add: add.assoc)
    moreover obtain s' where "read_chunks fpga fuel RETRIES address (remaining - r) (offset + r)
          (data @ map mem [address + offset..<address + offset + r]) s1 =
        Some (s', Inr ((data @ map mem [address + offset..<address + offset + r]) @
          map mem [address + (offset + r)..<address + (offset + r) + (remaining - r)]))" "sock s' = []"
      using less.IH [of "remaining - r" "offset + r" s1 "data @ map mem [address + offset..<address + offset + r]"]
        r less.prems(1) s1(2,3) by auto
    ultimately show ?thesis
      using False s1(1) by (subst read_chunks.simps) (simp add: r_def [symmetric] Let_def)
  qed
qed

lemma send_all_ok:
  assumes "address + offset + remaining \<le> 2 ^ 64" and "transaction_no s < 0xffff"
  shows "\<exists>s' ps. send_all fpga address remaining offset s = Inr (offset + remaining, s') \<and> sock s' = sock s @ ps \<and>
    (\<forall>data. get_read_response (length data + remaining) (transaction_no s) data ps =
       ([], Inr (Some (data @ map mem [address + offset..<address + offset + remaining]))))"
  using assms
proof (induction remaining arbitrary: offset s rule: less_induct)
  case (less remaining)
  show ?case
  proof (cases "remaining = 0")
    case True
    with less.prems show ?thesis by (simp add: send_all.simps)
  next
    case False
    define r where "r = min READ_CHUNK remaining"
    with False have r: "0 < r" "r \<le> READ_CHUNK" "r \<le> remaining" by auto
    let ?d = "map mem [address + offset..<address + offset + r]"
    obtain s1 where s1: "send_rapid fpga READ_COMMAND (address + offset) r s = Inr s1"
      "sock s1 = sock s @ [rapid_bytes 2 (address + offset) r (transaction_no s) ?d]"
      "transaction_no s1 = (transaction_no s + 1) mod 0xffff"
      using send_ok [of "address + offset" r s] r less.prems by auto
    obtain s' ps where IH: "send_all fpga address (remaining - r) (offset + r) s1 = Inr (offset + r + (remaining - r), s')"
      "sock s' = sock s1 @ ps"
      "\<forall>data. get_read_response (length data + (remaining - r)) (transaction_no s1) data ps =
         ([], Inr (Some (data @ map mem [address + (offset + r)..<address + (offset + r) + (remaining - r)])))"
      using less.IH [of "remaining - r" "offset + r" s1] r less.prems(1) s1(3) by auto
    have split: "[address + offset..<address + offset + remaining] = [address + offset..<address + offset + r]
        @ [address + (offset + r)..<address + (offset + r) + (remaining - r)]"
      using upt_split [of "address + offset" "address + offset + r" "address + offset + remaining"] r
      by (simp add: add.assoc)
    have resp: "get_read_response (length data + remaining) (transaction_no s) data
        (rapid_bytes 2 (address + offset) r (transaction_no s) ?d # ps) =
        ([], Inr (Some (data @ map mem [address + offset..<address + offset + remaining])))" for data
      using answer_accepted [OF r(1,2) less.prems(2), of data "length data + remaining" "address + offset" ps]
        IH(3) [rule_format, of "data @ ?d"] False r s1(3) by (simp add: split)
    have "send_all fpga address remaining offset s = Inr (offset + remaining, s')"
      using False s1(1) IH(1) r by (subst send_all.simps) (simp add: r_def [symmetric] Let_def)
    with resp IH(2) s1(2) show ?thesis by auto
  qed
qed

lemma read_from_sensor_ok:
  assumes "address + len \<le> 2 ^ 64" and "sock s = []"
  shows "\<exists>s'. read_from_sensor fpga fuel use_threading RETRIES address len s =
      Some (s', Inr (map mem [address..<address + len])) \<and> sock s' = []"
proof -
  define adj where "adj = adjust_addr address"
  define adjl where "adjl = adjust_len (len + adj)"
  define A where "A = address - adj"
  define L where "L = len + adj + adjl"
  have "adj \<le> address" by (simp add: adj_def adjust_addr_def)
  then have A: "A + adj = address" by (simp add: A_def)
  have "A mod 4 = 0" by (simp add: A_def adj_def adjust_addr_def minus_mod_eq_mult_div)
  moreover have "L mod 4 = 0" unfolding L_def adjl_def adjust_len_def by presburger
  ultimately have "(A + L) mod 4 = 0" by presburger
  moreover have "A + L \<le> 4 * 2 ^ 62 + 3"
    using assms(1) A adjust_len_le [of "len + adj"] by (simp add: L_def adjl_def [symmetric])
  ultimately have fits: "A + L \<le> 2 ^ 64" using round_to_word [of "A + L" "2 ^ 62"] by simp
  let ?s = "s\<lparr>transaction_no := 0\<rparr>"
  obtain s' where s': "(if use_threading then threaded_read fpga RETRIES A L L 0 ?s
      else read_chunks fpga fuel RETRIES A L 0 [] ?s) = Some (s', Inr (map mem [A..<A + L]))" "sock s' = []"
  proof (cases use_threading)
    case True
    obtain s1 ps where all: "send_all fpga A L 0 ?s = Inr (L, s1)" "sock s1 = ps"
      "get_read_response L 0 [] ps = ([], Inr (Some (map mem [A..<A + L])))"
      using send_all_ok [of A 0 L ?s] fits assms(2) by (force dest: spec [of _ "[]"])
    with True some_retry that [of "s1\<lparr>sock := []\<rparr>"] show ?thesis
      by (cases RETRIES) (simp_all add: first_transaction_def)
  next
    case False
    with read_chunks_ok [of A 0 L ?s "[]"] fits assms(2) that show ?thesis by auto
  qed
  have "slice adj (L - adjl) (map mem [A..<A + L]) = map mem [address..<address + len]"
    using A by (simp add: slice_def L_def drop_map take_map take_upt add.assoc)
  with s' show ?thesis
    by (cases use_threading) (simp_all add: read_from_sensor_def Let_def adj_def [symmetric]
        A_def [symmetric] adjl_def [symmetric] L_def [symmetric])
qed

end

sublocale reliable_card \<subseteq> device: memory_device
  "physical_read fpga fuel RETRIES" "\<lambda>s. sock s = []" mem "2 ^ 64"
proof
  fix d :: card_state and n a :: nat
  assume "sock d = []" and "0 < n" and "a + n \<le> 2 ^ 64"
  with read_from_sensor_ok [of a n d False]
  show "\<exists>d'. physical_read fpga fuel RETRIES a n d = Inr (d', Some (map mem [a..<a + n])) \<and> sock d' = []"
    by (auto simp: physical_read_def)
qed

text \<open>
  A card with the protocol of \<^verbatim>\<open>_get_read_response\<close>: it reads the address, the length and the number out
  of the request and sends the bytes of its memory back.
\<close>

definition memory_card :: "(nat \<Rightarrow> byte) \<Rightarrow> card" where
  "memory_card mem bs =
     (let address = be_val (slice 4 8 bs) * 2 ^ 32 + be_val (slice 12 16 bs);
          len = be_val (slice 16 20 bs); tno = be_val (slice 24 28 bs)
      in [rapid_bytes 2 address len tno (map mem [address..<address + len])])"

lemma memory_card_answers:
  assumes "address < 2 ^ 64" "len < 2 ^ 32" "tno < 2 ^ 32"
  shows "memory_card mem (rapid_bytes 0 address len tno []) =
    [rapid_bytes 2 address len tno (map mem [address..<address + len])]"
proof -
  let ?bs = "rapid_bytes 0 address len tno []"
  have "address div 2 ^ 32 < 2 ^ 32" using assms(1) by (simp add: less_mult_imp_div_less)
  then have "be_val (slice 4 8 ?bs) = address div 2 ^ 32" "be_val (slice 12 16 ?bs) = address mod 2 ^ 32"
    "be_val (slice 16 20 ?bs) = len" "be_val (slice 24 28 ?bs) = tno"
    using assms be4 [of "address div 2 ^ 32"] be4 [of "address mod 2 ^ 32"] be4 [of len] be4 [of tno]
    by (simp_all add: rapid_bytes_def slice_def)
  then show ?thesis by (simp add: memory_card_def Let_def div_mult_mod_eq)
qed

interpretation memory_card: reliable_card "memory_card mem" mem 1 5 for mem
  by unfold_locales (simp_all add: memory_card_answers)

section \<open>Cards that do not answer\<close>

lemma send_silent:
  assumes "\<And>bs. fpga bs = []" and "address < 2 ^ 64" and "len < 2 ^ 32" and "transaction_no s < 0xffff"
  shows "\<exists>s1. send_rapid fpga READ_COMMAND address len s = Inr s1 \<and> sock s1 = sock s \<and>
    transaction_no s1 < 0xffff \<and> length (sent s1) = Suc (length (sent s))"
  using assms by (simp add: send_rapid_def command_packet_bytes)

lemma try_read_silent:
  assumes "\<And>bs. fpga bs = []" and "address < 2 ^ 64" and "len < 2 ^ 32" and "0 < len"
    and "sock s = []" and "transaction_no s < 0xffff" and "RETRIES - attempt < fuel"
    and "attempt \<le> RETRIES"
  shows "\<exists>s'. try_read fpga fuel RETRIES attempt address len s = Some (s', Inl SocketTimeout) \<and>
    length (sent s') = length (sent s) + (RETRIES - attempt)"
  using assms(5-)
proof (induction fuel arbitrary: attempt s)
  case (Suc fuel)
  show ?case
  proof (cases "attempt < RETRIES")
    case True
    obtain s1 where s1: "send_rapid fpga READ_COMMAND address len s = Inr s1" "sock s1 = []"
      "transaction_no s1 < 0xffff" "length (sent s1) = Suc (length (sent s))"
      using send_silent [of fpga address len s, OF assms(1-3) Suc.prems(2)] Suc.prems(1) by auto
    have "RETRIES - (attempt + 1) < fuel" using Suc.prems(3) True by arith
    with Suc.IH [of "s1\<lparr>sock := []\<rparr>" "attempt + 1"] True s1 obtain s' where
      "try_read fpga fuel RETRIES (attempt + 1) address len (s1\<lparr>sock := []\<rparr>) = Some (s', Inl SocketTimeout)"
      "length (sent s') = length (sent s) + 1 + (RETRIES - (attempt + 1))" by auto
    with True s1 assms(4) show ?thesis by auto
  qed (use Suc.prems in simp)
qed simp

lemma try_read_refused:
  assumes "\<And>bs. \<exists>p r. fpga bs = [p] \<and> get_rapid_packet p = Some r \<and> rp_magic r \<noteq> MAGIC_LOPHI"
    and "address < 2 ^ 64" and "len < 2 ^ 32" and "0 < len" and "attempt < RETRIES"
    and "sock s = []" and "transaction_no s < 0xffff"
  shows "try_read fpga fuel RETRIES attempt address len s = None"
  using assms(6,7)
proof (induction fuel arbitrary: s)
  case (Suc fuel)
  define bs where "bs = rapid_bytes READ_COMMAND address len (transaction_no s) []"
  obtain p r where p: "fpga bs = [p]" "get_rapid_packet p = Some r" "rp_magic r \<noteq> MAGIC_LOPHI"
    using assms(1) by blast
  have "send_rapid fpga READ_COMMAND address len s = Inr (s\<lparr>transaction_no := (transaction_no s + 1) mod 0xffff,
      sent := sent s @ [bs], sock := [p]\<rparr>)"
    using Suc.prems assms(2,3) p(1) by (simp add: send_rapid_def command_packet_bytes bs_def)
  with p(2,3) assms(4,5) Suc.IH show ?case by simp
qed simp

lemma send_all_next:
  assumes "0 < remaining" and "address + offset + remaining \<le> 2 ^ 64"
    and "0 < transaction_no s" and "transaction_no s + remaining < 0xffff"
  shows "\<exists>s' ps. send_all (memory_card mem) address remaining offset s = Inr (offset + remaining, s') \<and>
    sock s' = sock s @ ps \<and> transaction_no s < transaction_no s' \<and>
    transaction_no s' \<le> transaction_no s + remaining \<and>
    (\<forall>len data. length data < len \<longrightarrow> snd (get_read_response len 0 data ps) = Inr None)"
  using assms
proof (induction remaining arbitrary: offset s rule: less_induct)
  case (less remaining)
  define r where "r = min READ_CHUNK remaining"
  with less.prems have r: "0 < r" "r \<le> READ_CHUNK" "r \<le> remaining" by auto
  let ?A = "address + offset"
  let ?p = "rapid_bytes 2 ?A r (transaction_no s) (map mem [?A..<?A + r])"
  obtain s1 where s1: "send_rapid (memory_card mem) READ_COMMAND ?A r s = Inr s1" "sock s1 = sock s @ [?p]"
    "transaction_no s1 = Suc (transaction_no s)"
    using memory_card.send_ok [of ?A r s mem] r less.prems by auto
  have refused: "snd (get_read_response len 0 data (?p # ps)) = Inr None" if "length data < len" for len data ps
    using that less.prems(3,4) r by (simp add: get_rapid_packet_bytes)
  have step: "send_all (memory_card mem) address remaining offset s =
      send_all (memory_card mem) address (remaining - r) (offset + r) s1"
    using less.prems(1) s1(1) by (subst send_all.simps) (simp add: r_def [symmetric] Let_def)
  show ?case
  proof (cases "remaining = r")
    case True
    have "send_all (memory_card mem) address 0 (offset + r) s1 = Inr (offset + r, s1)"
      by (simp add: send_all.simps)
    with True step s1 refused r show ?thesis by auto
  next
    case False
    have "transaction_no s1 + (remaining - r) < 0xffff" using less.prems(4) s1(3) r by linarith
    with False less.IH [of "remaining - r" "offset + r" s1] r less.prems(2) s1(3) obtain s' ps where
      "send_all (memory_card mem) address (remaining - r) (offset + r) s1 = Inr (offset + remaining, s')"
      "sock s' = sock s1 @ ps" "transaction_no s1 < transaction_no s'"
      "transaction_no s' \<le> transaction_no s1 + (remaining - r)"
      by auto
    with step s1 refused r show ?thesis by auto
  qed
qed

lemma threaded_retry:
  assumes "0 < len" and "sock s = []" and "0 < transaction_no s"
    and "transaction_no s + attempts * len < 0xffff" and "address + offset + attempts * len \<le> 2 ^ 64"
  shows "\<exists>s'. threaded_read (memory_card mem) attempts address len len offset s = Some (s', Inl SocketTimeout)"
  using assms(2-)
proof (induction attempts arbitrary: offset s)
  case (Suc attempts)
  obtain s1 ps where s1: "send_all (memory_card mem) address len offset s = Inr (offset + len, s1)"
    "sock s1 = ps" "0 < transaction_no s1" "transaction_no s1 \<le> transaction_no s + len"
    "snd (get_read_response len 0 [] ps) = Inr None"
    using send_all_next [of len address offset s mem] assms(1) Suc.prems by force
  from s1(5) obtain qs where "get_read_response len 0 [] ps = (qs, Inr None)" by (metis prod.collapse)
  with s1 Suc.IH [of "s1\<lparr>sock := []\<rparr>" "offset + len"] Suc.prems show ?case
    by (auto simp: first_transaction_def)
qed simp

section \<open>Properties\<close>

text \<open>
  C7. A read through a sensor whose device answers, with or without the cache, returns the memory with
  zeros in place of the bad regions, whatever the regions cut out of the request, as long as they are
  sorted and do not touch; and the cache still agrees with the memory.
\<close>

theorem read_masks_bad_regions:
  assumes "memory_device rfs ok mem limit" and "sensor_ok ok mem s"
    and "separated (BAD_MEM_REGIONS s)" and "0 < n" and "a + n + CACHE_CHUNK \<le> limit"
  shows "\<exists>s'. read rfs now a n s = Inr (s', Some (map (masked (BAD_MEM_REGIONS s) mem) [a..<a + n])) \<and>
    sensor_ok ok mem s' \<and> BAD_MEM_REGIONS s' = BAD_MEM_REGIONS s"
  by (rule memory_device.read_ok [OF assms])

text \<open>
  Two bad regions that touch make every cached read across them fail: the empty read planned
  between them is taken for a timeout and \<^verbatim>\<open>None\<close> is returned, although the device answers.
\<close>

theorem touching_regions_fail:
  assumes "memory_device rfs ok mem limit" and "sensor_ok ok mem s"
    and "BAD_MEM_REGIONS s = [(b, m), (m, e)]" and "CACHE_TIMEOUT s > 0"
    and "a < b" and "b < m" and "m < e" and "e < a + n" and "a + n + CACHE_CHUNK \<le> limit"
  shows "\<exists>s'. read rfs now a n s = Inr (s', None)"
  by (rule memory_device.read_touching [OF assms])

text \<open>
  C8. With a card that answers every request, \<^verbatim>\<open>_read_from_sensor\<close> returns exactly the requested bytes,
  for every alignment and length, with the reader process and without it.
\<close>

theorem read_from_sensor_exact:
  assumes "reliable_card fpga mem fuel RETRIES" and "address + len \<le> 2 ^ 64" and "sock s = []"
  shows "\<exists>s'. read_from_sensor fpga fuel use_threading RETRIES address len s =
      Some (s', Inr (map mem [address..<address + len])) \<and> sock s' = []"
  by (rule reliable_card.read_from_sensor_ok [OF assms])

text \<open>
  A card that never answers makes an aligned read of a single chunk send the request as often as there
  are retries and then raise the timeout.
\<close>

theorem silent_card_times_out:
  assumes "\<And>bs. fpga bs = []" and "address mod 4 = 0" and "len mod 4 = 0" and "0 < len" and "len \<le> READ_CHUNK"
    and "address < 2 ^ 64" and "sock s = []" and "RETRIES < fuel"
  shows "\<exists>s'. read_from_sensor fpga fuel False RETRIES address len s = Some (s', Inl SocketTimeout) \<and>
    length (sent s') = length (sent s) + RETRIES"
proof -
  let ?s = "s\<lparr>transaction_no := 0\<rparr>"
  from try_read_silent [of fpga address len ?s RETRIES 0 fuel, OF assms(1,6)] assms
  obtain s' where "try_read fpga fuel RETRIES 0 address len ?s = Some (s', Inl SocketTimeout)"
    "length (sent s') = length (sent s) + RETRIES" by auto
  with assms(2-5) show ?thesis
    by (simp add: read_from_sensor_def Let_def adjust_addr_def adjust_len_def read_chunks.simps min_absorb2)
qed

text \<open>
  A card whose answers are refused makes the read go around forever, whatever the number of retries:
  it has not returned after any number of turns.
\<close>

theorem refused_answers_never_return:
  assumes "\<And>bs. \<exists>p r. fpga bs = [p] \<and> get_rapid_packet p = Some r \<and> rp_magic r \<noteq> MAGIC_LOPHI"
    and "0 < RETRIES" and "0 < len" and "address < 2 ^ 64" and "sock s = []"
  shows "\<forall>fuel. read_from_sensor fpga fuel False RETRIES address len s = None"
proof
  fix fuel
  let ?A = "address - adjust_addr address" and ?L = "len + adjust_addr address + adjust_len (len + adjust_addr address)"
  have "try_read fpga fuel RETRIES 0 ?A (min READ_CHUNK ?L) (s\<lparr>transaction_no := 0\<rparr>) = None"
    by (rule try_read_refused [of fpga, OF assms(1)]) (use assms(2-5) in \<open>auto simp: min_def\<close>)
  then show "read_from_sensor fpga fuel False RETRIES address len s = None"
    using assms(3) by (simp add: read_from_sensor_def Let_def read_chunks.simps)
qed

text \<open>
  With the reader process no retry can succeed: once an attempt was refused, every later attempt
  against the same working card is refused too (the transaction numbers go on while the first answer is
  expected to have number 0, and the offset is not set back), until the timeout is raised.
\<close>

theorem threaded_retry_never_succeeds:
  assumes "0 < len" and "sock s = []" and "0 < transaction_no s"
    and "transaction_no s + attempts * len < 0xffff" and "address + offset + attempts * len \<le> 2 ^ 64"
  shows "\<exists>s'. threaded_read (memory_card mem) attempts address len len offset s = Some (s', Inl SocketTimeout)"
  by (rule threaded_retry [OF assms])

section \<open>The ranges of the sensor\<close>

text \<open>The ranges that must not be touched, as the constructor lists them.\<close>

definition physical_bad_regions :: "region list" where
  "physical_bad_regions = [(0xA0000, 0x100000), (0x7fe00000, 0x80000000), (0xdbf00000, 0x100000000),
     (0x3ff00000, 0x40000000)]"

section \<open>Witnesses\<close>

definition fresh_card :: card_state where
  "fresh_card = \<lparr>transaction_no = 1, sock = [], sent = []\<rparr>"

definition fresh_sensor :: "region list \<Rightarrow> int \<Rightarrow> card_state mem_sensor" where
  "fresh_sensor bad timeout = \<lparr>BAD_MEM_REGIONS = bad, CACHE_TIMEOUT = timeout, cache = Map.empty,
     cache_timeouts = Map.empty, device = fresh_card\<rparr>"

abbreviation counting :: "nat \<Rightarrow> byte" where "counting \<equiv> of_nat"

lemma fresh_sensor_ok: "sensor_ok (\<lambda>s. sock s = []) mem (fresh_sensor bad timeout)"
  by (simp add: sensor_ok_def fresh_sensor_def fresh_card_def)

theorem read_masks_bad_regions_witness:
  "\<exists>s'. read (physical_read (memory_card counting) 1 5) 0 8 6 (fresh_sensor [(10, 12)] 3) =
     Inr (s', Some [8, 9, 0, 0, 12, 13])"
proof -
  have "[8..<8 + 6] = [8, 9, 10, 11, 12, 13 :: nat]" by (simp add: upt_rec)
  then have "map (masked [(10, 12)] counting) [8..<8 + 6] = [8, 9, 0, 0, 12, 13]"
    by (simp add: masked_def bad_at_def)
  then show ?thesis
    using read_masks_bad_regions [where a = 8 and n = 6 and now = 0,
        OF memory_card.device.memory_device_axioms [of counting] fresh_sensor_ok [of _ "[(10, 12)]" 3]]
    by (auto simp: fresh_sensor_def)
qed

theorem touching_regions_fail_witness:
  "\<exists>s'. read (physical_read (memory_card counting) 1 5) 0 8 10 (fresh_sensor [(10, 12), (12, 14)] 3) =
     Inr (s', None)"
  using touching_regions_fail [where a = 8 and n = 10 and now = 0,
      OF memory_card.device.memory_device_axioms [of counting] fresh_sensor_ok [of _ "[(10, 12), (12, 14)]" 3]]
  by (simp add: fresh_sensor_def)

theorem read_from_sensor_exact_witness:
  "\<exists>s'. read_from_sensor (memory_card counting) 1 True 5 6 3 fresh_card = Some (s', Inr [6, 7, 8])"
proof -
  have "[6..<6 + 3] = [6, 7, 8 :: nat]" by (simp add: upt_rec)
  with read_from_sensor_exact [OF memory_card.reliable_card_axioms, of 6 3 fresh_card counting True]
  show ?thesis by (auto simp: fresh_card_def)
qed

theorem silent_card_times_out_witness:
  "\<exists>s'. read_from_sensor (\<lambda>_. []) 6 False 5 8 4 fresh_card = Some (s', Inl SocketTimeout) \<and> length (sent s') = 5"
  using silent_card_times_out [of "\<lambda>_. []" 8 4 fresh_card 5 6] by (simp add: fresh_card_def)

theorem refused_answers_never_return_witness:
  "\<forall>fuel. read_from_sensor (\<lambda>_. [replicate 28 0]) fuel False 5 8 4 fresh_card = None"
proof -
  have "get_rapid_packet (replicate 28 0) =
      Some \<lparr>rp_magic = 0, rp_operation = 0, rp_length = 0, rp_transaction_no = 0, rp_data = None\<rparr>"
    by code_simp
  with refused_answers_never_return [of "\<lambda>_. [replicate 28 0]" 5 4 8 fresh_card]
  show ?thesis by (simp add: fresh_card_def)
qed

theorem threaded_retry_never_succeeds_witness:
  "\<exists>s'. threaded_read (memory_card counting) 4 0x1000 64 64 64 fresh_card = Some (s', Inl SocketTimeout)"
  using threaded_retry_never_succeeds [of 64 fresh_card 4 "0x1000" 64 counting] by (simp add: fresh_card_def)

end
