(* ===== verification/MemoryVirtual.thy ===== *)
theory MemoryVirtual
  imports PyStruct MemorySensor
begin

text \<open>
  The memory sensor for virtual machines, \<^verbatim>\<open>lophi/sensors/memory/virtual.py\<close>: the read protocol over
  the UNIX socket of the hypervisor.  The hypervisor is an argument, a function from the request to the
  pieces in which its answer arrives; a piece is what one \<^verbatim>\<open>recv\<close> can return at most.  Connecting
  always succeeds.
\<close>

section \<open>State and requests\<close>

type_synonym hypervisor = "bytes \<Rightarrow> bytes list"

record vm_socket =
  pieces :: "bytes list"
  requests :: nat

definition read_request :: "nat \<Rightarrow> nat \<Rightarrow> bytes res" where
  "read_request address read_len =
     bindE (then_set (then_set (then_set (Inr (ds_init KvmMemRequest None)) ''type'' (VInt 1))
         ''address'' (VInt (int address))) ''length'' (VInt (int read_len)))
       ds_repr"

section \<open>Receiving\<close>

text \<open>
  One turn of the loop: at most \<open>n\<close> bytes of the first piece.  \<open>Late\<close> is the timeout of the first
  \<^verbatim>\<open>recv\<close> of an attempt; after it the timeout is off and an answer that stays away blocks the caller.
\<close>

datatype received = Got bytes "bytes list" | Late | Blocked

function recv_loop :: "nat \<Rightarrow> bytes \<Rightarrow> bool \<Rightarrow> bytes list \<Rightarrow> received" where
  "recv_loop read_len rd first segs =
     (if length rd < read_len + 1 then
        (case segs of
           [] \<Rightarrow> if first then Late else Blocked
         | seg # rest \<Rightarrow>
             if seg = [] then Blocked
             else let n = read_len + 1 - length rd;
                      rd1 = rd @ take n seg;
                      rd2 = (if rd1 = [0xff] then replicate read_len 0xff @ [1] else rd1)
                  in recv_loop read_len rd2 False (if drop n seg = [] then rest else drop n seg # rest))
      else Got rd segs)"
  by pat_completeness auto
termination
  by (relation "measure (\<lambda>(_, _, _, segs). sum_list (map length segs))") (auto simp: neq_Nil_conv)

declare recv_loop.simps [simp del]

text \<open>
  The attempts: all of them are made, since nothing leaves the loop after a read that worked.  The bytes
  of the last attempt remain; \<open>None\<close> when the caller is blocked.
\<close>

fun attempts_loop :: "hypervisor \<Rightarrow> nat \<Rightarrow> bytes \<Rightarrow> nat \<Rightarrow> bytes \<Rightarrow> vm_socket \<Rightarrow> (vm_socket \<times> bytes) option" where
  "attempts_loop vm 0 req read_len rd s = Some (s, rd)"
| "attempts_loop vm (Suc k) req read_len rd s =
     (let s1 = s\<lparr>pieces := pieces s @ vm req, requests := requests s + 1\<rparr> in
      case recv_loop read_len [] True (pieces s1) of
        Got rd1 segs \<Rightarrow> attempts_loop vm k req read_len rd1 (s1\<lparr>pieces := segs\<rparr>)
      | Late \<Rightarrow> attempts_loop vm k req read_len [] (s1\<lparr>pieces := []\<rparr>)
      | Blocked \<Rightarrow> None)"

text \<open>
  \<^verbatim>\<open>_read_from_sensor\<close>.  The status is a character and is compared with the number 0, so an answer is
  never refused.
\<close>

definition virtual_read :: "hypervisor \<Rightarrow> vm_socket sensor_read" where
  "virtual_read vm address read_len s =
     bindE (read_request address read_len) (\<lambda>req.
       case attempts_loop vm 3 req read_len [] s of
         None \<Rightarrow> Inl (PyException ''does not return'')
       | Some (s1, rd) \<Rightarrow>
           if length rd \<noteq> read_len + 1 then Inr (s1, None) else Inr (s1, Some (butlast rd)))"

section \<open>Answers in pieces\<close>

lemma read_request_ok:
  assumes "address < 2 ^ 64" and "read_len < 2 ^ 64"
  shows "read_request address read_len = Inr (le_bytes 8 1 @ le_bytes 8 address @ le_bytes 8 read_len)"
  using assms
  by (simp add: read_request_def then_set_def ds_setattr_def ds_init_def ds_blank_def KvmMemRequest_def
      ds_pack_def ds_repr_def attr_def int_bytes_def struct_size_def)

lemma recv_loop_pieces:
  assumes "length rd + length (concat segs) = read_len + 1" and "\<forall>x \<in> set segs. x \<noteq> []"
    and "rd = [] \<longrightarrow> segs \<noteq> [] \<and> hd segs \<noteq> [0xff]"
  shows "recv_loop read_len rd first segs = Got (rd @ concat segs) []"
  using assms
proof (induction segs arbitrary: rd first)
  case Nil
  then show ?case by (subst recv_loop.simps) simp
next
  case (Cons x segs)
  from Cons.prems have x: "x \<noteq> []" "length x \<le> read_len + 1 - length rd" by auto
  then have more: "length rd < read_len + 1" by (cases x) auto
  have "rd @ x \<noteq> [0xff]" using Cons.prems x(1) by (cases rd) auto
  with x have "recv_loop read_len rd first (x # segs) = recv_loop read_len (rd @ x) False segs"
    using more by (subst recv_loop.simps) (simp add: Let_def)
  with Cons.IH [of "rd @ x" False] Cons.prems x(1) show ?case by simp
qed

lemma attempts_loop_answers:
  assumes "concat (vm req) = data @ [st]" and "\<forall>x \<in> set (vm req). x \<noteq> []" and "hd (vm req) \<noteq> [0xff]"
    and "pieces s = []"
  shows "attempts_loop vm (Suc k) req (length data) rd s =
    Some (s\<lparr>requests := requests s + Suc k\<rparr>, data @ [st])"
  using assms(4)
proof (induction k arbitrary: rd s)
  have ne: "vm req \<noteq> []" using assms(1) by auto
  have got: "recv_loop (length data) [] True (vm req) = Got (data @ [st]) []"
    using recv_loop_pieces [of "[]" "vm req" "length data" True] assms(1-3) ne by simp
  case 0
  with got show ?case by (simp add: Let_def)
next
  have ne: "vm req \<noteq> []" using assms(1) by auto
  have got: "recv_loop (length data) [] True (vm req) = Got (data @ [st]) []"
    using recv_loop_pieces [of "[]" "vm req" "length data" True] assms(1-3) ne by simp
  case (Suc k)
  have "attempts_loop vm (Suc (Suc k)) req (length data) rd s =
      attempts_loop vm (Suc k) req (length data) (data @ [st]) (s\<lparr>requests := requests s + 1\<rparr>)"
    using got Suc.prems by (subst attempts_loop.simps) (simp add: Let_def)
  with Suc.IH [of "s\<lparr>requests := requests s + 1\<rparr>" "data @ [st]"] Suc.prems show ?case by simp
qed

lemma virtual_read_answers:
  assumes "address < 2 ^ 64" and "read_len < 2 ^ 64"
    and "concat (vm (le_bytes 8 1 @ le_bytes 8 address @ le_bytes 8 read_len)) = data @ [st]"
    and "\<forall>x \<in> set (vm (le_bytes 8 1 @ le_bytes 8 address @ le_bytes 8 read_len)). x \<noteq> []"
    and "hd (vm (le_bytes 8 1 @ le_bytes 8 address @ le_bytes 8 read_len)) \<noteq> [0xff]"
    and "length data = read_len" and "pieces s = []"
  shows "virtual_read vm address read_len s = Inr (s\<lparr>requests := requests s + 3\<rparr>, Some data)"
proof -
  let ?req = "le_bytes 8 1 @ le_bytes 8 address @ le_bytes 8 read_len"
  from attempts_loop_answers [of vm ?req data st s 2 "[]"] assms(3-7)
  have "attempts_loop vm 3 ?req read_len [] s = Some (s\<lparr>requests := requests s + 3\<rparr>, data @ [st])" by simp
  with assms(6) show ?thesis by (simp add: virtual_read_def read_request_ok [OF assms(1,2)])
qed

text \<open>The range that must not be touched.\<close>

definition virtual_bad_regions :: "region list" where
  "virtual_bad_regions = [(0x0, 4096)]"

section \<open>A hypervisor that answers in one piece\<close>

definition memory_vm :: "(nat \<Rightarrow> byte) \<Rightarrow> hypervisor" where
  "memory_vm mem req =
     (let address = le_val (slice 8 16 req); n = le_val (slice 16 24 req)
      in [map mem [address..<address + n] @ [1]])"

lemma memory_vm_answers:
  assumes "address < 2 ^ 64" and "n < 2 ^ 64"
  shows "memory_vm mem (le_bytes 8 1 @ le_bytes 8 address @ le_bytes 8 n) =
    [map mem [address..<address + n] @ [1]]"
proof -
  have "le_val (le_bytes 8 address) = address" "le_val (le_bytes 8 n) = n"
    using assms by (auto intro!: le.dec_enc)
  then show ?thesis by (simp add: memory_vm_def slice_def)
qed

interpretation virtual: memory_device "virtual_read (memory_vm mem)" "\<lambda>s. pieces s = []" mem "2 ^ 64 - 1" for mem
proof
  fix d :: vm_socket and n a :: nat
  assume "pieces d = []" and "0 < n" and "a + n \<le> 2 ^ 64 - 1"
  then have "a < 2 ^ 64" "n < 2 ^ 64" by auto
  from virtual_read_answers [OF this, of "memory_vm mem" "map mem [a..<a + n]" 1 d] memory_vm_answers [OF this, of mem]
    \<open>pieces d = []\<close> \<open>0 < n\<close>
  show "\<exists>d'. virtual_read (memory_vm mem) a n d = Inr (d', Some (map mem [a..<a + n])) \<and> pieces d' = []"
    by (simp add: append_eq_Cons_conv)
qed

section \<open>Properties\<close>

text \<open>
  Whatever the pieces in which an answer arrives (unless its first piece is the single byte 255), a
  read returns the bytes of the answer without its last one; it does so for every status byte, also
  for the one with which the hypervisor reports an error, and it asks three times.
\<close>

theorem virtual_read_any_status:
  assumes "address < 2 ^ 64" and "read_len < 2 ^ 64"
    and "concat (vm (le_bytes 8 1 @ le_bytes 8 address @ le_bytes 8 read_len)) = data @ [st]"
    and "\<forall>x \<in> set (vm (le_bytes 8 1 @ le_bytes 8 address @ le_bytes 8 read_len)). x \<noteq> []"
    and "hd (vm (le_bytes 8 1 @ le_bytes 8 address @ le_bytes 8 read_len)) \<noteq> [0xff]"
    and "length data = read_len" and "pieces s = []"
  shows "virtual_read vm address read_len s = Inr (s\<lparr>requests := requests s + 3\<rparr>, Some data)"
  using assms by (rule virtual_read_answers)

text \<open>
  An answer that is the single byte 255 is read as a memory of bytes 255, as the hypervisor's shorthand
  for such a memory is meant; that it might be the beginning of another answer is not considered.
\<close>

lemma lone_ff_is_all_ones:
  assumes "address < 2 ^ 64" and "0 < read_len" and "read_len < 2 ^ 64"
    and "vm (le_bytes 8 1 @ le_bytes 8 address @ le_bytes 8 read_len) = [[0xff]]" and "pieces s = []"
  shows "virtual_read vm address read_len s =
    Inr (s\<lparr>requests := requests s + 3\<rparr>, Some (replicate read_len 0xff))"
proof -
  let ?req = "le_bytes 8 1 @ le_bytes 8 address @ le_bytes 8 read_len"
  have "recv_loop read_len [] True [[0xff]] = Got (replicate read_len 0xff @ [1]) []"
    using assms(2) by (subst recv_loop.simps) (simp add: Let_def recv_loop.simps [of _ _ False])
  then have "attempts_loop vm (Suc (Suc (Suc 0))) ?req read_len [] s =
      Some (s\<lparr>requests := requests s + 3\<rparr>, replicate read_len 0xff @ [1])"
    using assms(4,5) by (simp add: Let_def)
  then have "attempts_loop vm 3 ?req read_len [] s =
      Some (s\<lparr>requests := requests s + 3\<rparr>, replicate read_len 0xff @ [1])"
    by (simp only: numeral_3_eq_3)
  then show ?thesis by (simp add: virtual_read_def read_request_ok [OF assms(1,3)])
qed

section \<open>Witnesses\<close>

definition fresh_vm :: vm_socket where
  "fresh_vm = \<lparr>pieces = [], requests = 0\<rparr>"

theorem virtual_read_any_status_witness:
  "virtual_read (\<lambda>_. [[1, 2], [3, 0]]) 4096 3 fresh_vm = Inr (fresh_vm\<lparr>requests := 3\<rparr>, Some [1, 2, 3])"
  using virtual_read_any_status [of 4096 3 "\<lambda>_. [[1, 2], [3, 0]]" "[1, 2, 3]" 0 fresh_vm]
  by (simp add: fresh_vm_def)

end
