(* ===== verification/DhcpPacket.thy ===== *)
theory DhcpPacket
  imports DhcpConstants "HOL-Library.AList"
begin

text \<open>
  DHCP packets, \<^verbatim>\<open>proxydhcpd/dhcplib/dhcp_basic_packet.py\<close> and the server side of
  \<^verbatim>\<open>dhcp_packet.py\<close>: the fields and options of a packet, its encoding and decoding, and the answers
  made from a client's packet.

  A packet keeps the integers of its fixed part and a dictionary from option names to lists of
  integers; the dictionary is an association list with distinct keys (its order never matters, since
  the encoding sorts).
\<close>

section \<open>Fields and options\<close>

record dhcp_packet =
  packet_data :: "nat list"
  options_data :: "(string \<times> nat list) list"

definition DhcpBasicPacket_init :: dhcp_packet where
  "DhcpBasicPacket_init = \<lparr>packet_data = slice_set 236 240 MagicCookie (replicate 240 0), options_data = []\<rparr>"

definition IsDhcpPacket :: "dhcp_packet \<Rightarrow> bool" where
  "IsDhcpPacket p \<longleftrightarrow> slice 236 240 (packet_data p) = MagicCookie"

definition DeleteOption :: "string \<Rightarrow> dhcp_packet \<Rightarrow> dhcp_packet \<times> bool" where
  "DeleteOption name p =
     (case DhcpFields name of
        Some (loc, len) \<Rightarrow>
          (p\<lparr>packet_data := slice_set loc (loc + len) (replicate len 0) (packet_data p)\<rparr>, True)
      | None \<Rightarrow>
          if map_of (options_data p) name \<noteq> None
          then (p\<lparr>options_data := AList.delete name (options_data p)\<rparr>, True)
          else (p, False))"

definition GetOption :: "string \<Rightarrow> dhcp_packet \<Rightarrow> nat list" where
  "GetOption name p =
     (case DhcpFields name of
        Some (loc, len) \<Rightarrow> slice loc (loc + len) (packet_data p)
      | None \<Rightarrow> (case map_of (options_data p) name of Some v \<Rightarrow> v | None \<Rightarrow> []))"

text \<open>
  \<^verbatim>\<open>fields_specs\<close>: fixed length, minimum length and divisor; a type that is not there raises
  \<^verbatim>\<open>KeyError\<close>.
\<close>

fun fields_specs :: "option_type \<Rightarrow> (nat \<times> nat \<times> nat) res" where
  "fields_specs TIpv4 = Inr (4, 0, 1)"
| "fields_specs TIpv4s = Inr (0, 4, 4)"
| "fields_specs TString = Inr (0, 0, 1)"
| "fields_specs TBool = Inr (1, 0, 1)"
| "fields_specs TChar = Inr (1, 0, 1)"
| "fields_specs T16bits = Inr (2, 0, 1)"
| "fields_specs T32bits = Inr (4, 0, 1)"
| "fields_specs TIdentifier = Inr (0, 2, 1)"
| "fields_specs TRFC3397 = Inr (0, 4, 1)"
| "fields_specs TNone = Inr (0, 0, 1)"
| "fields_specs TChars = Inr (0, 1, 1)"
| "fields_specs (TOther t) = Inl KeyError"

text \<open>
  The first half of the condition compares the list of the three numbers with the length, which is
  never equal; what is left is the minimum length and the divisor.
\<close>

definition length_accepted :: "nat \<times> nat \<times> nat \<Rightarrow> nat \<Rightarrow> bool" where
  "length_accepted specs n = (case specs of (fixed, minimum, multiple) \<Rightarrow> minimum \<le> n \<and> n mod multiple = 0)"

definition SetOption :: "string \<Rightarrow> nat list \<Rightarrow> dhcp_packet \<Rightarrow> (dhcp_packet \<times> bool) res" where
  "SetOption name v p =
     (case DhcpFields name of
        Some (loc, len) \<Rightarrow>
          if length v \<noteq> len then Inr (p, False)
          else Inr (p\<lparr>packet_data := slice_set loc (loc + len) v (packet_data p)\<rparr>, True)
      | None \<Rightarrow>
          (case DhcpOptions name of
             None \<Rightarrow> Inr (p, False)
           | Some code \<Rightarrow>
               (case DhcpOptionsTypes code of
                  None \<Rightarrow> Inl KeyError
                | Some t \<Rightarrow>
                    bindE (fields_specs t) (\<lambda>specs.
                      if length_accepted specs (length v)
                      then Inr (p\<lparr>options_data := AList.update name v (options_data p)\<rparr>, True)
                      else Inr (p, False)))))"

definition IsOption :: "string \<Rightarrow> dhcp_packet \<Rightarrow> bool" where
  "IsOption name p \<longleftrightarrow> map_of (options_data p) name \<noteq> None \<or> DhcpFields name \<noteq> None"

section \<open>Encoding\<close>

text \<open>The entry of one option in the dictionary \<^verbatim>\<open>order\<close>: its code and its encoding.\<close>

definition option_entry :: "string \<times> nat list \<Rightarrow> (nat \<times> nat list) res" where
  "option_entry kv =
     (case DhcpOptions (fst kv) of
        None \<Rightarrow> Inl KeyError
      | Some code \<Rightarrow> Inr (code, code # length (snd kv) # snd kv))"

text \<open>\<^verbatim>\<open>chr\<close> refuses what is not a byte.\<close>

definition py_chr :: "nat \<Rightarrow> byte res" where
  "py_chr n = (if n < 256 then Inr (word_of_nat n) else Inl ValueError)"

definition EncodePacket :: "dhcp_packet \<Rightarrow> bytes res" where
  "EncodePacket p =
     bindE (mapE option_entry (options_data p)) (\<lambda>order.
       mapE py_chr (take 240 (packet_data p) @ concat (map snd (sort_key fst order)) @ [255]))"

section \<open>Decoding\<close>

function find_cookie :: "nat list \<Rightarrow> nat \<Rightarrow> nat" where
  "find_cookie data iterator =
     (if slice iterator (iterator + 4) data \<noteq> MagicCookie \<and> iterator < length data
      then find_cookie data (iterator + 1) else iterator)"
  by pat_completeness auto
termination
  by (relation "measure (\<lambda>(data, iterator). length data - iterator)") auto

declare find_cookie.simps [simp del]

function parse_options :: "nat list \<Rightarrow> nat \<Rightarrow> (string \<times> nat list) list \<Rightarrow> (string \<times> nat list) list res" where
  "parse_options data iterator opts =
     (if iterator < length data then
        if data ! iterator = 0 then parse_options data (iterator + 1) opts
        else if data ! iterator = 255 then Inr opts
        else bindE (index_at data (iterator + 1)) (\<lambda>opt_len.
               parse_options data (iterator + opt_len + 2)
                 (if DhcpOptionsTypes (data ! iterator) \<noteq> None
                  then AList.update (DhcpOptionsList ! (data ! iterator))
                         (slice (iterator + 2) (iterator + 2 + opt_len) data) opts
                  else opts))
      else Inr opts)"
  by pat_completeness auto
termination
  by (relation "measure (\<lambda>(data, iterator, opts). length data - iterator)") auto

declare parse_options.simps [simp del]

definition DecodePacket :: "bytes \<Rightarrow> dhcp_packet res" where
  "DecodePacket bs =
     (if bs = [] then Inr \<lparr>packet_data = [], options_data = []\<rparr>
      else let data = map unat bs in
           bindE (parse_options data (find_cookie data 236 + 4) []) (\<lambda>opts.
             Inr \<lparr>packet_data = take 240 data, options_data = opts\<rparr>))"

section \<open>Kinds of packets\<close>

definition IsDhcpSomethingPacket :: "nat list \<Rightarrow> dhcp_packet \<Rightarrow> bool" where
  "IsDhcpSomethingPacket t p \<longleftrightarrow>
     IsDhcpPacket p \<and> IsOption ''dhcp_message_type'' p \<and> GetOption ''dhcp_message_type'' p = t"

definition IsDhcpDiscoverPacket :: "dhcp_packet \<Rightarrow> bool" where
  "IsDhcpDiscoverPacket = IsDhcpSomethingPacket [1]"

definition IsDhcpOfferPacket :: "dhcp_packet \<Rightarrow> bool" where
  "IsDhcpOfferPacket = IsDhcpSomethingPacket [2]"

definition IsDhcpRequestPacket :: "dhcp_packet \<Rightarrow> bool" where
  "IsDhcpRequestPacket = IsDhcpSomethingPacket [3]"

definition IsDhcpDeclinePacket :: "dhcp_packet \<Rightarrow> bool" where
  "IsDhcpDeclinePacket = IsDhcpSomethingPacket [4]"

definition IsDhcpAckPacket :: "dhcp_packet \<Rightarrow> bool" where
  "IsDhcpAckPacket = IsDhcpSomethingPacket [5]"

definition IsDhcpNackPacket :: "dhcp_packet \<Rightarrow> bool" where
  "IsDhcpNackPacket = IsDhcpSomethingPacket [6]"

definition IsDhcpReleasePacket :: "dhcp_packet \<Rightarrow> bool" where
  "IsDhcpReleasePacket = IsDhcpSomethingPacket [7]"

definition IsDhcpInformPacket :: "dhcp_packet \<Rightarrow> bool" where
  "IsDhcpInformPacket = IsDhcpSomethingPacket [8]"

definition GetMultipleOptions :: "string list \<Rightarrow> dhcp_packet \<Rightarrow> (string \<times> nat list) list" where
  "GetMultipleOptions names p = fold (\<lambda>name r. AList.update name (GetOption name p) r) names []"

section \<open>Answers\<close>

text \<open>Statement sequences that ignore the returned flags; an exception ends them.\<close>

definition then_option :: "string \<Rightarrow> nat list \<Rightarrow> dhcp_packet res \<Rightarrow> dhcp_packet res" where
  "then_option name v r = bindE r (\<lambda>p. bindE (SetOption name v p) (\<lambda>(p1, _). Inr p1))"

definition then_delete :: "string \<Rightarrow> dhcp_packet res \<Rightarrow> dhcp_packet res" where
  "then_delete name r = bindE r (\<lambda>p. Inr (fst (DeleteOption name p)))"

fun SetMultipleOptions :: "(string \<times> nat list) list \<Rightarrow> dhcp_packet res \<Rightarrow> dhcp_packet res" where
  "SetMultipleOptions [] r = r"
| "SetMultipleOptions ((name, v) # rest) r = SetMultipleOptions rest (then_option name v r)"

definition copy_options :: "string list \<Rightarrow> dhcp_packet \<Rightarrow> dhcp_packet res \<Rightarrow> dhcp_packet res" where
  "copy_options names src r = fold (\<lambda>name. then_option name (GetOption name src)) names r"

definition delete_options :: "string list \<Rightarrow> dhcp_packet res \<Rightarrow> dhcp_packet res" where
  "delete_options names r = fold then_delete names r"

definition TransformToDhcpOfferPacket :: "dhcp_packet res \<Rightarrow> dhcp_packet res" where
  "TransformToDhcpOfferPacket r =
     delete_options [''secs'', ''ciaddr'', ''request_ip_address'', ''parameter_request_list'',
         ''client_identifier'', ''maximum_message_size'']
       (then_option ''hlen'' [6] (then_option ''op'' [2] (then_option ''dhcp_message_type'' [2] r)))"

definition CreateDhcpOfferPacketFrom :: "dhcp_packet \<Rightarrow> dhcp_packet \<Rightarrow> dhcp_packet res" where
  "CreateDhcpOfferPacketFrom src p =
     TransformToDhcpOfferPacket (copy_options [''htype'', ''xid'', ''flags'', ''giaddr'', ''chaddr'',
       ''ip_address_lease_time''] src (Inr p))"

definition TransformToDhcpAckPacket :: "dhcp_packet res \<Rightarrow> dhcp_packet res" where
  "TransformToDhcpAckPacket r =
     delete_options [''secs'', ''request_ip_address'', ''parameter_request_list'',
         ''client_identifier'', ''maximum_message_size'']
       (then_option ''dhcp_message_type'' [5] (then_option ''hlen'' [6] (then_option ''op'' [2] r)))"

definition CreateDhcpAckPacketFrom :: "dhcp_packet \<Rightarrow> dhcp_packet \<Rightarrow> dhcp_packet res" where
  "CreateDhcpAckPacketFrom src p =
     TransformToDhcpAckPacket (copy_options [''htype'', ''xid'', ''ciaddr'', ''flags'', ''giaddr'', ''chaddr'',
       ''ip_address_lease_time''] src (Inr p))"

definition TransformToDhcpNackPacket :: "dhcp_packet res \<Rightarrow> dhcp_packet res" where
  "TransformToDhcpNackPacket r =
     then_option ''dhcp_message_type'' [6]
       (delete_options [''secs'', ''ciaddr'', ''yiaddr'', ''siaddr'', ''sname'', ''file'', ''request_ip_address'',
           ''ip_address_lease_time_option'', ''parameter_request_list'', ''client_identifier'',
           ''maximum_message_size'']
         (then_option ''hlen'' [6] (then_option ''op'' [2] r)))"

definition CreateDhcpNackPacketFrom :: "dhcp_packet \<Rightarrow> dhcp_packet \<Rightarrow> dhcp_packet res" where
  "CreateDhcpNackPacketFrom src p =
     TransformToDhcpNackPacket (copy_options [''htype'', ''xid'', ''flags'', ''giaddr'', ''chaddr''] src (Inr p))"

definition GetClientIdentifier :: "dhcp_packet \<Rightarrow> nat list" where
  "GetClientIdentifier p =
     (if IsOption ''client_identifier'' p then GetOption ''client_identifier'' p else [])"

definition GetGiaddr :: "dhcp_packet \<Rightarrow> nat list" where
  "GetGiaddr = GetOption ''giaddr''"

definition GetHardwareAddress :: "dhcp_packet \<Rightarrow> nat list res" where
  "GetHardwareAddress p =
     bindE (index_at (GetOption ''hlen'' p) 0) (\<lambda>len.
       let full_hw = GetOption ''chaddr'' p in
       Inr (if len < length full_hw then slice 0 len full_hw else full_hw))"

end
