(* ===== verification/DhcpProperties.thy ===== *)
theory DhcpProperties
  imports DhcpPacket "HOL-Library.Multiset"
begin

text \<open>
  Correctness of the DHCP packets.  What a packet shows to its readers is a function from names to
  values; the interface \<open>option_store\<close> says how setting and deleting change it, and the answers of the
  server are computed over that interface.  The second part is the round trip of the wire format.
\<close>

section \<open>A packet as a function from names to values\<close>

definition wf_packet :: "dhcp_packet \<Rightarrow> bool" where
  "wf_packet p \<longleftrightarrow> length (packet_data p) = 240 \<and> distinct (map fst (options_data p)) \<and>
     list_all (\<lambda>k. DhcpFields k = None) (map fst (options_data p))"

definition accepts :: "string \<Rightarrow> nat list \<Rightarrow> bool" where
  "accepts name v \<longleftrightarrow>
     (case DhcpFields name of
        Some (loc, len) \<Rightarrow> length v = len
      | None \<Rightarrow>
          (case DhcpOptions name of
             None \<Rightarrow> False
           | Some code \<Rightarrow>
               (case DhcpOptionsTypes code of
                  None \<Rightarrow> False
                | Some t \<Rightarrow> (case fields_specs t of Inl _ \<Rightarrow> False | Inr specs \<Rightarrow> length_accepted specs (length v)))))"

definition blank :: "string \<Rightarrow> nat list" where
  "blank name = (case DhcpFields name of Some (loc, len) \<Rightarrow> replicate len 0 | None \<Rightarrow> [])"

definition shown :: "nat list \<Rightarrow> dhcp_packet res \<Rightarrow> (string \<Rightarrow> nat list) \<Rightarrow> bool" where
  "shown cookie r f \<longleftrightarrow>
     (\<exists>p. r = Inr p \<and> wf_packet p \<and> slice 236 240 (packet_data p) = cookie \<and> (\<lambda>n. GetOption n p) = f)"

locale option_store =
  fixes put :: "'k \<Rightarrow> 'v \<Rightarrow> 's \<Rightarrow> 's"
    and del :: "'k \<Rightarrow> 's \<Rightarrow> 's"
    and shows_as :: "'s \<Rightarrow> ('k \<Rightarrow> 'v) \<Rightarrow> bool"
    and takes :: "'k \<Rightarrow> 'v \<Rightarrow> bool"
    and empty :: "'k \<Rightarrow> 'v"
  assumes put_shows: "shows_as s f \<Longrightarrow> takes k v \<Longrightarrow> shows_as (put k v s) (f(k := v))"
    and del_shows: "shows_as s f \<Longrightarrow> shows_as (del k s) (f(k := empty k))"
begin

lemma puts_shows:
  "shows_as s f \<Longrightarrow> list_all (\<lambda>k. takes k (g k)) ks \<Longrightarrow>
     shows_as (fold (\<lambda>k. put k (g k)) ks s) (\<lambda>k. if k \<in> set ks then g k else f k)"
proof (induction ks arbitrary: s f)
  case (Cons k ks)
  from Cons.IH [OF put_shows [OF Cons.prems(1)]] Cons.prems(2)
  have "shows_as (fold (\<lambda>k. put k (g k)) ks (put k (g k) s))
      (\<lambda>x. if x \<in> set ks then g x else (f(k := g k)) x)" by simp
  moreover have "(\<lambda>x. if x \<in> set ks then g x else (f(k := g k)) x) =
      (\<lambda>x. if x \<in> set (k # ks) then g x else f x)" by auto
  ultimately show ?case by simp
qed simp

lemma dels_shows:
  "shows_as s f \<Longrightarrow> shows_as (fold del ks s) (\<lambda>k. if k \<in> set ks then empty k else f k)"
proof (induction ks arbitrary: s f)
  case (Cons k ks)
  have "shows_as (fold del ks (del k s)) (\<lambda>x. if x \<in> set ks then empty x else (f(k := empty k)) x)"
    by (rule Cons.IH [OF del_shows [OF Cons.prems]])
  moreover have "(\<lambda>x. if x \<in> set ks then empty x else (f(k := empty k)) x) =
      (\<lambda>x. if x \<in> set (k # ks) then empty x else f x)" by auto
  ultimately show ?case by simp
qed simp

end

text \<open>The fixed fields lie one after the other below the cookie.\<close>

lemma fields_disjoint:
  assumes "DhcpFields m = Some (a, k)" and "DhcpFields n = Some (b, l)" and "m \<noteq> n"
  shows "a + k \<le> b \<or> b + l \<le> a"
proof -
  have "list_all (\<lambda>(m, a, k). list_all (\<lambda>(n, b, l). m = n \<or> a + k \<le> b \<or> b + l \<le> a) DhcpFields_list) DhcpFields_list"
    by code_simp
  moreover from assms have "(m, a, k) \<in> set DhcpFields_list" "(n, b, l) \<in> set DhcpFields_list"
    by (simp_all add: DhcpFields_def map_of_SomeD)
  ultimately show ?thesis using assms(3) by (fastforce simp: list_all_iff)
qed

lemma fields_end: "DhcpFields m = Some (a, k) \<Longrightarrow> a + k \<le> 236"
proof -
  have "list_all (\<lambda>(m, a, k). a + k \<le> 236) DhcpFields_list" by code_simp
  then show "DhcpFields m = Some (a, k) \<Longrightarrow> a + k \<le> 236"
    by (fastforce simp: DhcpFields_def list_all_iff dest: map_of_SomeD)
qed

lemma field_write:
  assumes "wf_packet p" and "DhcpFields name = Some (a, k)" and "length v = k"
  defines "q \<equiv> p\<lparr>packet_data := slice_set a (a + k) v (packet_data p)\<rparr>"
  shows "wf_packet q \<and> slice 236 240 (packet_data q) = slice 236 240 (packet_data p) \<and>
    (\<lambda>n. GetOption n q) = (\<lambda>n. GetOption n p)(name := v)"
proof -
  note fit = fields_end [OF assms(2)]
  from assms(1) have len: "length (packet_data p) = 240" by (simp add: wf_packet_def)
  have "wf_packet q" using assms(1,3) fit len by (simp add: wf_packet_def q_def)
  moreover have "slice 236 240 (packet_data q) = slice 236 240 (packet_data p)"
    unfolding q_def using fit len assms(3) by (simp add: slice_slice_set_after)
  moreover have "GetOption n q = (if n = name then v else GetOption n p)" for n
  proof (cases "DhcpFields n")
    case None
    with assms(2) show ?thesis by (auto simp: GetOption_def q_def)
  next
    case (Some bl)
    obtain b l where bl: "bl = (b, l)" by (cases bl)
    show ?thesis
    proof (cases "n = name")
      case True
      with Some bl assms(2,3) fit len show ?thesis by (simp add: GetOption_def q_def)
    next
      case False
      with fields_disjoint [OF assms(2) Some [unfolded bl]] Some bl fit len assms(3) show ?thesis
        by (auto simp: GetOption_def q_def slice_slice_set_before slice_slice_set_after)
    qed
  qed
  ultimately show ?thesis by auto
qed

lemma option_write:
  assumes "wf_packet p" and "DhcpFields name = None"
  shows "wf_packet (p\<lparr>options_data := AList.update name v (options_data p)\<rparr>) \<and>
    (\<lambda>n. GetOption n (p\<lparr>options_data := AList.update name v (options_data p)\<rparr>)) = (\<lambda>n. GetOption n p)(name := v)"
  using assms by (auto simp: wf_packet_def GetOption_def distinct_update update_conv' list_all_iff dom_update
      fun_eq_iff split: option.splits)

lemma option_delete:
  assumes "wf_packet p" and "DhcpFields name = None"
  shows "wf_packet (p\<lparr>options_data := AList.delete name (options_data p)\<rparr>) \<and>
    (\<lambda>n. GetOption n (p\<lparr>options_data := AList.delete name (options_data p)\<rparr>)) = (\<lambda>n. GetOption n p)(name := [])"
  using assms by (auto simp: wf_packet_def GetOption_def distinct_delete delete_conv' list_all_iff delete_keys
      distinct_removeAll fun_eq_iff split: option.splits)

interpretation dhcp: option_store then_option then_delete "shown cookie" accepts blank for cookie
proof
  fix r f k v
  assume "shown cookie r f" and "accepts k v"
  then show "shown cookie (then_option k v r) (f(k := v))"
    using field_write option_write
    by (auto simp: shown_def then_option_def SetOption_def accepts_def split: option.splits sum.splits prod.splits)
next
  fix r f k
  assume "shown cookie r f"
  then obtain p where p: "r = Inr p" "wf_packet p" "slice 236 240 (packet_data p) = cookie" "(\<lambda>n. GetOption n p) = f"
    by (auto simp: shown_def)
  show "shown cookie (then_delete k r) (f(k := blank k))"
  proof (cases "DhcpFields k")
    case (Some al)
    obtain a l where "al = (a, l)" by (cases al)
    with Some field_write [OF p(2), of k a l "replicate l 0"] p show ?thesis
      by (simp add: shown_def then_delete_def DeleteOption_def blank_def)
  next
    case None
    have "f(k := []) = f" if "map_of (options_data p) k = None"
    proof -
      from that None have "GetOption k p = []" by (simp add: GetOption_def)
      with p(4) have "f k = []" by auto
      then show ?thesis by auto
    qed
    with None option_delete [OF p(2)] p show ?thesis
      by (auto simp: shown_def then_delete_def DeleteOption_def blank_def)
  qed
qed

section \<open>Answers of the server\<close>

lemma shown_packet: "wf_packet p \<Longrightarrow> shown (slice 236 240 (packet_data p)) (Inr p) (\<lambda>n. GetOption n p)"
  by (simp add: shown_def)

lemma field_length: "wf_packet p \<Longrightarrow> DhcpFields name = Some (a, k) \<Longrightarrow> length (GetOption name p) = k"
  using fields_end [of name a k] by (simp add: GetOption_def wf_packet_def)

lemma accepts_field: "wf_packet p \<Longrightarrow> DhcpFields name \<noteq> None \<Longrightarrow> accepts name (GetOption name p)"
  by (auto simp: accepts_def field_length)

text \<open>The lengths of options of fixed length are not checked.\<close>

lemma accepts_lease_time: "accepts ''ip_address_lease_time'' v"
proof -
  have "DhcpFields ''ip_address_lease_time'' = None" "DhcpOptions ''ip_address_lease_time'' = Some 51"
    "DhcpOptionsTypes 51 = Some T32bits" by code_simp+
  then show ?thesis by (simp add: accepts_def length_accepted_def)
qed

lemma accepts_message_type: "accepts ''dhcp_message_type'' v"
proof -
  have "DhcpFields ''dhcp_message_type'' = None" "DhcpOptions ''dhcp_message_type'' = Some 53"
    "DhcpOptionsTypes 53 = Some TChar" by code_simp+
  then show ?thesis by (simp add: accepts_def length_accepted_def)
qed

lemma accepts_op_hlen: "accepts ''op'' [2]" "accepts ''hlen'' [6]"
  by code_simp+

lemma fields_copied:
  "DhcpFields ''htype'' \<noteq> None" "DhcpFields ''xid'' \<noteq> None" "DhcpFields ''flags'' \<noteq> None"
  "DhcpFields ''giaddr'' \<noteq> None" "DhcpFields ''chaddr'' \<noteq> None" "DhcpFields ''ciaddr'' \<noteq> None"
  by code_simp+

lemmas accept_rules = accepts_field accepts_lease_time accepts_message_type accepts_op_hlen fields_copied

lemma offer_shown:
  assumes "wf_packet src" and "wf_packet p"
  shows "shown (slice 236 240 (packet_data p)) (CreateDhcpOfferPacketFrom src p)
    (\<lambda>n. if n \<in> set [''secs'', ''ciaddr'', ''request_ip_address'', ''parameter_request_list'', ''client_identifier'',
              ''maximum_message_size''] then blank n
         else ((\<lambda>n. if n \<in> set [''htype'', ''xid'', ''flags'', ''giaddr'', ''chaddr'', ''ip_address_lease_time'']
                    then GetOption n src else GetOption n p)
               (''dhcp_message_type'' := [2], ''op'' := [2], ''hlen'' := [6])) n)"
  unfolding CreateDhcpOfferPacketFrom_def TransformToDhcpOfferPacket_def copy_options_def delete_options_def
  using assms
  by (intro dhcp.dels_shows dhcp.put_shows dhcp.puts_shows shown_packet) (simp_all add: accept_rules)

lemma ack_shown:
  assumes "wf_packet src" and "wf_packet p"
  shows "shown (slice 236 240 (packet_data p)) (CreateDhcpAckPacketFrom src p)
    (\<lambda>n. if n \<in> set [''secs'', ''request_ip_address'', ''parameter_request_list'', ''client_identifier'',
              ''maximum_message_size''] then blank n
         else ((\<lambda>n. if n \<in> set [''htype'', ''xid'', ''ciaddr'', ''flags'', ''giaddr'', ''chaddr'',
                             ''ip_address_lease_time'']
                    then GetOption n src else GetOption n p)
               (''op'' := [2], ''hlen'' := [6], ''dhcp_message_type'' := [5])) n)"
  unfolding CreateDhcpAckPacketFrom_def TransformToDhcpAckPacket_def copy_options_def delete_options_def
  using assms
  by (intro dhcp.dels_shows dhcp.put_shows dhcp.puts_shows shown_packet) (simp_all add: accept_rules)

lemma nack_shown:
  assumes "wf_packet src" and "wf_packet p"
  shows "shown (slice 236 240 (packet_data p)) (CreateDhcpNackPacketFrom src p)
    ((\<lambda>n. if n \<in> set [''secs'', ''ciaddr'', ''yiaddr'', ''siaddr'', ''sname'', ''file'', ''request_ip_address'',
               ''ip_address_lease_time_option'', ''parameter_request_list'', ''client_identifier'',
               ''maximum_message_size''] then blank n
          else ((\<lambda>n. if n \<in> set [''htype'', ''xid'', ''flags'', ''giaddr'', ''chaddr'']
                     then GetOption n src else GetOption n p)
                (''op'' := [2], ''hlen'' := [6])) n) (''dhcp_message_type'' := [6]))"
  unfolding CreateDhcpNackPacketFrom_def TransformToDhcpNackPacket_def copy_options_def delete_options_def
  using assms
  by (intro dhcp.dels_shows dhcp.put_shows dhcp.puts_shows shown_packet) (simp_all add: accept_rules)

lemma shownD:
  assumes "shown c r f"
  obtains q where "r = Inr q" "wf_packet q" "slice 236 240 (packet_data q) = c" "\<And>n. GetOption n q = f n"
  using assms by (auto simp: shown_def)

lemma message_type_option: "DhcpFields ''dhcp_message_type'' = None"
  by code_simp

lemma is_kind:
  assumes "IsDhcpPacket q" and "GetOption ''dhcp_message_type'' q = t" and "t \<noteq> []"
  shows "IsDhcpSomethingPacket t q"
  using assms message_type_option
  by (auto simp: IsDhcpSomethingPacket_def IsOption_def GetOption_def split: option.splits)

section \<open>The wire format\<close>

text \<open>A name that decoding and encoding agree on.\<close>

definition steady :: "string \<Rightarrow> bool" where
  "steady name \<longleftrightarrow>
     (case DhcpOptions name of
        None \<Rightarrow> False
      | Some c \<Rightarrow> c \<noteq> 0 \<and> c < 246 \<and> DhcpOptionsList ! c = name)"

abbreviation code_of :: "string \<Rightarrow> nat" where
  "code_of name \<equiv> the (DhcpOptions name)"

definition encoded :: "string \<times> nat list \<Rightarrow> nat list" where
  "encoded kv = code_of (fst kv) # length (snd kv) # snd kv"

lemma steadyD:
  "steady name \<Longrightarrow> DhcpOptions name = Some (code_of name) \<and> code_of name \<noteq> 0 \<and> code_of name < 246 \<and>
     DhcpOptionsList ! code_of name = name"
  by (auto simp: steady_def split: option.splits)

lemma parse_options_skip:
  assumes "list_all (\<lambda>kv. steady (fst kv)) es"
  shows "parse_options (pre @ concat (map encoded es) @ post) (length pre) opts =
    parse_options (pre @ concat (map encoded es) @ post) (length (pre @ concat (map encoded es)))
      (fold (\<lambda>(k, v). AList.update k v) es opts)"
  using assms
proof (induction es arbitrary: pre opts)
  case (Cons kv es)
  obtain k v where kv: "kv = (k, v)" by (cases kv)
  with Cons.prems have k: "steady k" by simp
  note k' = steadyD [OF k]
  let ?data = "pre @ concat (map encoded (kv # es)) @ post"
  let ?pre = "pre @ code_of k # length v # v"
  have len: "length (pre @ concat (map encoded (kv # es))) = length (?pre @ concat (map encoded es))"
    by (simp add: kv encoded_def)
  have all: "fold (\<lambda>(k, v). AList.update k v) (kv # es) opts =
      fold (\<lambda>(k, v). AList.update k v) es (AList.update k v opts)"
    by (simp add: kv)
  have data: "?data = ?pre @ concat (map encoded es) @ post" by (simp add: kv encoded_def)
  have "slice (length pre + 2) (length pre + 2 + length v) ?data = v"
    by (simp add: slice_def kv encoded_def)
  with k' have "parse_options ?data (length pre) opts = parse_options ?data (length ?pre) (AList.update k v opts)"
    by (subst parse_options.simps)
      (simp add: kv encoded_def nth_append index_at_def DhcpOptionsTypes_None add.commute [of _ 2])
  also have "\<dots> = parse_options ?data (length (?pre @ concat (map encoded es)))
      (fold (\<lambda>(k, v). AList.update k v) es (AList.update k v opts))"
    unfolding data using Cons.prems by (intro Cons.IH) simp
  finally show ?case unfolding len all .
qed simp

lemma parse_options_encoded:
  assumes "list_all (\<lambda>kv. steady (fst kv)) es"
  shows "parse_options (pre @ concat (map encoded es) @ 255 # post) (length pre) opts =
    Inr (fold (\<lambda>(k, v). AList.update k v) es opts)"
  unfolding parse_options_skip [OF assms] by (subst parse_options.simps) (simp add: nth_append)

lemma map_of_fold_update:
  "map_of (fold (\<lambda>(k, v). AList.update k v) es opts) = map_of opts ++ map_of (rev es)"
  by (induction es arbitrary: opts) (auto simp: update_conv' map_add_def fun_eq_iff split: option.splits)

lemma map_of_permuted:
  assumes "mset xs = mset ys" and "distinct (map fst xs)"
  shows "map_of xs = map_of ys"
proof -
  have "distinct (map fst ys)" using assms by (metis mset_eq_imp_distinct_iff mset_map)
  moreover have "set xs = set ys" using assms(1) by (rule mset_eq_setD)
  ultimately show ?thesis using assms(2) by (simp add: map_of_inject_set)
qed

lemma mapE_chr: "list_all (\<lambda>n. n < 256) ns \<Longrightarrow> mapE py_chr ns = Inr (map word_of_nat ns)"
  by (induction ns) (auto simp: py_chr_def)

lemma map_unat_bytes: "list_all (\<lambda>n. n < 256) ns \<Longrightarrow> map unat (map word_of_nat ns :: bytes) = ns"
  by (induction ns) auto

lemma insort_key_map: "insort_key f (h x) (map h xs) = map h (insort_key (\<lambda>y. f (h y)) x xs)"
  by (induction xs) auto

lemma sort_key_map: "sort_key f (map h xs) = map h (sort_key (f \<circ> h) xs)"
  by (induction xs) (simp_all add: insort_key_map comp_def)

lemma option_entry_steady: "steady (fst kv) \<Longrightarrow> option_entry kv = Inr (code_of (fst kv), encoded kv)"
  using steadyD [of "fst kv"] by (auto simp: option_entry_def encoded_def split: option.splits)

text \<open>Packets whose parts are bytes and whose option names decode to themselves.\<close>

definition sendable :: "dhcp_packet \<Rightarrow> bool" where
  "sendable p \<longleftrightarrow> wf_packet p \<and> IsDhcpPacket p \<and> list_all (\<lambda>n. n < 256) (packet_data p) \<and>
     list_all (\<lambda>kv. steady (fst kv) \<and> length (snd kv) < 256 \<and> list_all (\<lambda>n. n < 256) (snd kv)) (options_data p)"

definition in_code_order :: "dhcp_packet \<Rightarrow> (string \<times> nat list) list" where
  "in_code_order p = sort_key (\<lambda>kv. code_of (fst kv)) (options_data p)"

definition wire_ints :: "dhcp_packet \<Rightarrow> nat list" where
  "wire_ints p = packet_data p @ concat (map encoded (in_code_order p)) @ [255]"

lemma set_in_code_order [simp]: "set (in_code_order p) = set (options_data p)"
  by (simp add: in_code_order_def)

lemma wire_ints_bytes: "sendable p \<Longrightarrow> list_all (\<lambda>n. n < 256) (wire_ints p)"
  by (fastforce simp: sendable_def wire_ints_def encoded_def list_all_iff dest: steadyD)

lemma encode_sendable:
  assumes "sendable p"
  shows "EncodePacket p = Inr (map word_of_nat (wire_ints p))"
proof -
  have "mapE option_entry (options_data p) = Inr (map (\<lambda>kv. (code_of (fst kv), encoded kv)) (options_data p))"
    using assms by (intro mapE_all_Inr option_entry_steady) (simp add: sendable_def list_all_iff)
  moreover have "take 240 (packet_data p) = packet_data p"
    using assms by (simp add: sendable_def wf_packet_def)
  ultimately have "EncodePacket p = mapE py_chr (wire_ints p)"
    by (simp add: EncodePacket_def sort_key_map wire_ints_def in_code_order_def comp_def)
  then show ?thesis using mapE_chr [OF wire_ints_bytes [OF assms]] by simp
qed

lemma decode_ints:
  assumes "length pd = 240" and "slice 236 240 pd = MagicCookie" and "list_all (\<lambda>n. n < 256) (pd @ rest)"
  shows "DecodePacket (map word_of_nat (pd @ rest)) =
    bindE (parse_options (pd @ rest) 240 []) (\<lambda>opts. Inr \<lparr>packet_data = pd, options_data = opts\<rparr>)"
proof -
  have "find_cookie (pd @ rest) 236 = 236" using assms by (subst find_cookie.simps) simp
  moreover have "map unat (map word_of_nat (pd @ rest) :: bytes) = pd @ rest"
    using assms(3) by (rule map_unat_bytes)
  moreover have "map word_of_nat (pd @ rest) \<noteq> ([] :: bytes)" using assms(1) by auto
  ultimately show ?thesis using assms(1) by (simp only: DecodePacket_def Let_def if_False) simp
qed

lemma decode_sendable:
  assumes "sendable p"
  shows "\<exists>q. DecodePacket (map word_of_nat (wire_ints p)) = Inr q \<and> packet_data q = packet_data p \<and>
    map_of (options_data q) = map_of (options_data p)"
proof -
  from assms have p: "length (packet_data p) = 240" "slice 236 240 (packet_data p) = MagicCookie"
    "distinct (map fst (options_data p))"
    by (auto simp: sendable_def wf_packet_def IsDhcpPacket_def)
  let ?es = "in_code_order p"
  have "list_all (\<lambda>kv. steady (fst kv)) ?es" using assms by (auto simp: sendable_def list_all_iff)
  from parse_options_encoded [OF this, of "packet_data p" "[]" "[]"] p(1)
  have parse: "parse_options (wire_ints p) 240 [] = Inr (fold (\<lambda>(k, v). AList.update k v) ?es [])"
    by (simp add: wire_ints_def)
  have "mset (rev ?es) = mset (options_data p)" by (simp add: in_code_order_def)
  from map_of_permuted [OF this [symmetric] p(3)]
  have "map_of (fold (\<lambda>(k, v). AList.update k v) ?es []) = map_of (options_data p)"
    by (simp add: map_of_fold_update)
  with parse decode_ints [OF p(1,2), of "concat (map encoded ?es) @ [255]"] wire_ints_bytes [OF assms]
  show ?thesis by (simp add: wire_ints_def del: map_append)
qed

section \<open>Properties\<close>

text \<open>
  An offer made from a well-formed discover packet never fails.  It is an offer with the operation
  and address length of a reply, it repeats the client's hardware type, transaction, flags, relay and
  hardware address, and the client's requests are gone from it.  The lease time is copied as it is: a
  discover packet without one gives an offer with an empty lease time option.
\<close>

theorem offer_from_discover:
  assumes "wf_packet src" and "wf_packet p" and "IsDhcpPacket p"
  shows "\<exists>q. CreateDhcpOfferPacketFrom src p = Inr q \<and> wf_packet q \<and> IsDhcpOfferPacket q \<and>
    GetOption ''op'' q = [2] \<and> GetOption ''hlen'' q = [6] \<and>
    list_all (\<lambda>n. GetOption n q = GetOption n src)
      [''htype'', ''xid'', ''flags'', ''giaddr'', ''chaddr'', ''ip_address_lease_time''] \<and>
    list_all (\<lambda>n. GetOption n q = blank n)
      [''secs'', ''ciaddr'', ''request_ip_address'', ''parameter_request_list'', ''client_identifier'']"
  using offer_shown [OF assms(1,2)]
proof (rule shownD)
  fix q
  assume q: "CreateDhcpOfferPacketFrom src p = Inr q" "wf_packet q"
    and "slice 236 240 (packet_data q) = slice 236 240 (packet_data p)"
    and get: "\<And>n. GetOption n q = (if n \<in> set [''secs'', ''ciaddr'', ''request_ip_address'',
        ''parameter_request_list'', ''client_identifier'', ''maximum_message_size''] then blank n
      else ((\<lambda>n. if n \<in> set [''htype'', ''xid'', ''flags'', ''giaddr'', ''chaddr'', ''ip_address_lease_time'']
                 then GetOption n src else GetOption n p)
            (''dhcp_message_type'' := [2], ''op'' := [2], ''hlen'' := [6])) n)"
  then have "IsDhcpPacket q" using assms(3) by (simp add: IsDhcpPacket_def)
  moreover have "GetOption ''dhcp_message_type'' q = [2]" unfolding get by simp
  ultimately have "IsDhcpOfferPacket q" by (simp add: IsDhcpOfferPacket_def is_kind)
  with q get show ?thesis by simp
qed

text \<open>
  C9. Encoding a sendable packet succeeds, and decoding the bytes gives back the fixed part and the same
  options with the same values.
\<close>

theorem encode_decode:
  assumes "sendable p"
  shows "\<exists>bs q. EncodePacket p = Inr bs \<and> DecodePacket bs = Inr q \<and> packet_data q = packet_data p \<and>
    map_of (options_data q) = map_of (options_data p)"
  using encode_sendable [OF assms] decode_sendable [OF assms] by blast

text \<open>
  A client's packet with option 46 (the NetBIOS node type) decodes, but what was decoded cannot be
  encoded again: its name differs between the two option tables and the encoding raises \<^verbatim>\<open>KeyError\<close>.
\<close>

theorem node_type_not_encodable:
  assumes "length pd = 240" and "slice 236 240 pd = MagicCookie"
    and "list_all (\<lambda>n. n < 256) (pd @ 46 # length v # v @ [255])"
  shows "\<exists>q. DecodePacket (map word_of_nat (pd @ 46 # length v # v @ [255])) = Inr q \<and>
    GetOption ''nd_node_type'' q = v \<and> EncodePacket q = Inl KeyError"
proof -
  have names: "DhcpOptionsList ! 46 = ''nd_node_type''" "DhcpOptions ''nd_node_type'' = None"
    "DhcpFields ''nd_node_type'' = None" by code_simp+
  let ?data = "pd @ 46 # length v # v @ [255]"
  have "parse_options ?data (240 + length v + 2) [(''nd_node_type'', v)] = Inr [(''nd_node_type'', v)]"
    using assms(1) by (subst parse_options.simps) (simp add: nth_append)
  moreover have "parse_options ?data 240 [] =
      parse_options ?data (240 + length v + 2) [(''nd_node_type'', v)]"
    using assms(1) names(1) DhcpOptionsTypes_None [of 46] by (subst parse_options.simps)
      (simp add: nth_append index_at_def slice_def)
  ultimately have parse: "parse_options ?data 240 [] = Inr [(''nd_node_type'', v)]" by simp
  let ?q = "\<lparr>packet_data = pd, options_data = [(''nd_node_type'', v)]\<rparr>"
  have "EncodePacket ?q = Inl KeyError"
    by (simp add: EncodePacket_def option_entry_def names(2))
  moreover have "GetOption ''nd_node_type'' ?q = v" by (simp add: GetOption_def names(3))
  ultimately show ?thesis unfolding decode_ints [OF assms] parse bindE_simps by blast
qed

text \<open>
  A packet that ends in the middle of an option, with a code and no length, makes the decoder raise
  \<^verbatim>\<open>IndexError\<close>, whatever options come before it.
\<close>

theorem truncated_option_raises:
  assumes "length pd = 240" and "slice 236 240 pd = MagicCookie"
    and "list_all (\<lambda>kv. steady (fst kv)) es" and "c \<noteq> 0" and "c \<noteq> 255"
    and "list_all (\<lambda>n. n < 256) (pd @ concat (map encoded es) @ [c])"
  shows "DecodePacket (map word_of_nat (pd @ concat (map encoded es) @ [c])) = Inl IndexError"
proof -
  have "parse_options (pd @ concat (map encoded es) @ [c]) (length pd) [] = Inl IndexError"
    unfolding parse_options_skip [OF assms(3)] using assms(4,5)
    by (subst parse_options.simps) (simp add: nth_append index_at_def)
  with decode_ints [OF assms(1,2,6)] assms(1) show ?thesis by simp
qed

text \<open>
  A refusal made from a well-formed request never fails.  It is a refusal that repeats the client's
  transaction and hardware address and has no addresses, server name or file name of its own; but a lease
  time that was in the packet stays there, since the name under which it is deleted is no option name.
\<close>

theorem nack_keeps_lease_time:
  assumes "wf_packet src" and "wf_packet p" and "IsDhcpPacket p"
  shows "\<exists>q. CreateDhcpNackPacketFrom src p = Inr q \<and> wf_packet q \<and> IsDhcpNackPacket q \<and>
    list_all (\<lambda>n. GetOption n q = GetOption n src) [''htype'', ''xid'', ''flags'', ''giaddr'', ''chaddr''] \<and>
    list_all (\<lambda>n. GetOption n q = blank n) [''secs'', ''ciaddr'', ''yiaddr'', ''siaddr'', ''sname'', ''file'',
      ''request_ip_address'', ''parameter_request_list'', ''client_identifier''] \<and>
    GetOption ''ip_address_lease_time'' q = GetOption ''ip_address_lease_time'' p"
  using nack_shown [OF assms(1,2)]
proof (rule shownD)
  fix q
  assume q: "CreateDhcpNackPacketFrom src p = Inr q" "wf_packet q"
    and "slice 236 240 (packet_data q) = slice 236 240 (packet_data p)"
    and get: "\<And>n. GetOption n q = ((\<lambda>n. if n \<in> set [''secs'', ''ciaddr'', ''yiaddr'', ''siaddr'', ''sname'', ''file'',
        ''request_ip_address'', ''ip_address_lease_time_option'', ''parameter_request_list'', ''client_identifier'',
        ''maximum_message_size''] then blank n
      else ((\<lambda>n. if n \<in> set [''htype'', ''xid'', ''flags'', ''giaddr'', ''chaddr'']
                 then GetOption n src else GetOption n p)
            (''op'' := [2], ''hlen'' := [6])) n) (''dhcp_message_type'' := [6])) n"
  then have "IsDhcpPacket q" using assms(3) by (simp add: IsDhcpPacket_def)
  moreover have "GetOption ''dhcp_message_type'' q = [6]" unfolding get by simp
  ultimately have "IsDhcpNackPacket q" by (simp add: IsDhcpNackPacket_def is_kind)
  with q get show ?thesis by simp
qed

section \<open>Witnesses\<close>

definition discover_packet :: dhcp_packet where
  "discover_packet = DhcpBasicPacket_init\<lparr>options_data := [(''dhcp_message_type'', [1]), (''host_name'', [108, 111])]\<rparr>"

lemma init_cookie: "IsDhcpPacket DhcpBasicPacket_init" "IsDhcpPacket discover_packet"
  by (simp_all add: discover_packet_def DhcpBasicPacket_init_def IsDhcpPacket_def MagicCookie_def)

lemma init_wf: "wf_packet DhcpBasicPacket_init" "wf_packet discover_packet"
proof -
  have "DhcpFields ''dhcp_message_type'' = None" "DhcpFields ''host_name'' = None" by code_simp+
  then show "wf_packet DhcpBasicPacket_init" "wf_packet discover_packet"
    by (simp_all add: wf_packet_def discover_packet_def DhcpBasicPacket_init_def MagicCookie_def)
qed

lemma init_bytes: "list_all (\<lambda>n. n < 256) (packet_data DhcpBasicPacket_init)"
  by (simp add: DhcpBasicPacket_init_def slice_set_def MagicCookie_def list_all_iff)

lemma discover_steady: "steady ''dhcp_message_type''" "steady ''host_name''"
  by code_simp+

theorem offer_from_discover_witness:
  "\<exists>q. CreateDhcpOfferPacketFrom discover_packet DhcpBasicPacket_init = Inr q \<and> IsDhcpOfferPacket q \<and>
     GetOption ''ip_address_lease_time'' q = []"
proof -
  have "DhcpFields ''ip_address_lease_time'' = None" by code_simp
  then have "GetOption ''ip_address_lease_time'' discover_packet = []"
    by (simp add: GetOption_def discover_packet_def)
  with offer_from_discover [OF init_wf(2,1) init_cookie(1)] show ?thesis by auto
qed

theorem encode_decode_witness:
  "\<exists>bs q. EncodePacket discover_packet = Inr bs \<and> DecodePacket bs = Inr q \<and>
     map_of (options_data q) ''host_name'' = Some [108, 111]"
proof -
  have "sendable discover_packet"
    using init_wf(2) init_cookie(2) init_bytes discover_steady
    by (simp add: sendable_def discover_packet_def)
  from encode_decode [OF this] show ?thesis by (auto simp: discover_packet_def)
qed

lemma init_fixed: "length (packet_data DhcpBasicPacket_init) = 240"
  "slice 236 240 (packet_data DhcpBasicPacket_init) = MagicCookie"
  using init_wf(1) init_cookie(1) by (simp_all add: wf_packet_def IsDhcpPacket_def)

theorem node_type_not_encodable_witness:
  "\<exists>q. DecodePacket (map word_of_nat (packet_data DhcpBasicPacket_init @ 46 # length [8 :: nat] # [8] @ [255])) = Inr q \<and>
     EncodePacket q = Inl KeyError"
  using node_type_not_encodable [OF init_fixed, of "[8]"] init_bytes by auto

theorem truncated_option_raises_witness:
  "DecodePacket (map word_of_nat (packet_data DhcpBasicPacket_init @ concat (map encoded [(''host_name'', [108])]) @ [53]))
     = Inl IndexError"
proof -
  have "code_of ''host_name'' = 12" by code_simp
  with truncated_option_raises [OF init_fixed, of "[(''host_name'', [108])]" 53] discover_steady init_bytes
  show ?thesis by (simp add: encoded_def)
qed

theorem nack_keeps_lease_time_witness:
  "\<exists>q. CreateDhcpNackPacketFrom discover_packet discover_packet = Inr q \<and> IsDhcpNackPacket q"
  using nack_keeps_lease_time [OF init_wf(2,2) init_cookie(2)] by blast

end
