(* ===== verification/DhcpTypes.thy ===== *)
theory DhcpTypes
  imports PyText
begin

text \<open>
  The address types of \<^verbatim>\<open>proxydhcpd/dhcplib\<close>: \<^verbatim>\<open>type_ipv4.py\<close>, an IPv4 address kept as a string, a
  list and a number, \<^verbatim>\<open>type_strlist.py\<close>, a string kept with its character codes, and
  \<^verbatim>\<open>type_hwmac.py\<close>, a hardware address kept as a string and a list.
\<close>

section \<open>IPv4 addresses\<close>

record ipv4 =
  ip_string :: string
  ip_numlist :: "int list"
  ip_long :: int

definition CheckNumList :: "int list \<Rightarrow> bool" where
  "CheckNumList v \<longleftrightarrow> length v = 4 \<and> list_all (\<lambda>part. 0 \<le> part \<and> part \<le> 255) v"

definition CheckString :: "string \<Rightarrow> bool" where
  "CheckString v = (let tmp = split_on (CHR ''.'') (strip v) in length tmp = 4 \<and> list_all isdigit tmp)"

definition checked :: "int list \<Rightarrow> int list res" where
  "checked v = (if CheckNumList v then Inr v else Inl ValueError)"

definition StringToNumlist :: "string \<Rightarrow> int list res" where
  "StringToNumlist s = bindE (mapE py_int (split_on (CHR ''.'') s)) checked"

text \<open>The check of \<^verbatim>\<open>_StringToLong\<close> is made on the list that is already there.\<close>

definition StringToLong :: "string \<Rightarrow> int list \<Rightarrow> int res" where
  "StringToLong s numlist =
     bindE (mapE py_int (split_on (CHR ''.'') s)) (\<lambda>l.
       case l of
         a # b # c # d # _ \<Rightarrow> bindE (checked numlist) (\<lambda>_. Inr (d + c * 256 + b * 256 * 256 + a * 256 * 256 * 256))
       | _ \<Rightarrow> Inl IndexError)"

definition NumlistToString :: "int list \<Rightarrow> string res" where
  "NumlistToString v = bindE (checked v) (\<lambda>_. Inr (join_with (CHR ''.'') (map (\<lambda>i. nat_str (nat i)) v)))"

definition LongToNumlist :: "int \<Rightarrow> int list res" where
  "LongToNumlist v = checked [v div 2 ^ 24 mod 256, v div 2 ^ 16 mod 256, v div 2 ^ 8 mod 256, v mod 256]"

definition ipv4_of_string :: "string \<Rightarrow> ipv4 res" where
  "ipv4_of_string v =
     (if \<not> CheckString v then Inl ValueError
      else bindE (StringToNumlist v) (\<lambda>l.
           bindE (StringToLong v l) (\<lambda>n.
           bindE (NumlistToString l) (\<lambda>s. Inr \<lparr>ip_string = s, ip_numlist = l, ip_long = n\<rparr>))))"

definition ipv4_of_list :: "int list \<Rightarrow> ipv4 res" where
  "ipv4_of_list v =
     (if \<not> CheckNumList v then Inl ValueError
      else bindE (NumlistToString v) (\<lambda>s.
           bindE (StringToLong s v) (\<lambda>n. Inr \<lparr>ip_string = s, ip_numlist = v, ip_long = n\<rparr>)))"

definition ipv4_of_int :: "int \<Rightarrow> ipv4 res" where
  "ipv4_of_int v =
     bindE (LongToNumlist v) (\<lambda>l.
     bindE (NumlistToString l) (\<lambda>s. Inr \<lparr>ip_string = s, ip_numlist = l, ip_long = v\<rparr>))"

definition ipv4_of_bool :: "bool \<Rightarrow> ipv4 res" where
  "ipv4_of_bool b = ipv4_of_int 0"

definition ipv4_nonzero :: "ipv4 \<Rightarrow> bool" where
  "ipv4_nonzero ip \<longleftrightarrow> ip_long ip \<noteq> 0"

section \<open>Strings as lists\<close>

definition strlist_of_str :: "string \<Rightarrow> string \<times> nat list" where
  "strlist_of_str s = (s, map of_char s)"

definition strlist_of_list :: "nat list \<Rightarrow> (string \<times> nat list) res" where
  "strlist_of_list l =
     (if list_all (\<lambda>n. n < 256) l then Inr (map char_of l, l) else Inl ValueError)"

lemma strlist_roundtrip:
  "list_all (\<lambda>n. n < 256) l \<Longrightarrow> strlist_of_list l = Inr (strlist_of_str (map char_of l))"
  by (induction l) (auto simp: strlist_of_list_def strlist_of_str_def)

section \<open>Hardware addresses\<close>

record hwmac =
  hw_string :: string
  hw_numlist :: "int list"

text \<open>\<^verbatim>\<open>ord(unhexlify(s))\<close>: anything but two hexadecimal digits raises \<^verbatim>\<open>TypeError\<close>.\<close>

fun unhex :: "string \<Rightarrow> int res" where
  "unhex [a, b] =
     (case (hex_val a, hex_val b) of (Some x, Some y) \<Rightarrow> Inr (int (16 * x + y)) | _ \<Rightarrow> Inl TypeError)"
| "unhex _ = Inl TypeError"

definition colons :: "string \<Rightarrow> string" where
  "colons s = map (\<lambda>c. if c = CHR ''-'' \<or> c = CHR ''.'' then CHR '':'' else c) s"

definition hw_CheckNumList :: "int list \<Rightarrow> unit res" where
  "hw_CheckNumList l =
     (if length l \<noteq> 6 then Inl ValueError
      else if list_all (\<lambda>part. 0 \<le> part \<and> part \<le> 255) l then Inr () else Inl ValueError)"

definition hex_char :: "nat \<Rightarrow> char" where
  "hex_char d = (if d < 10 then char_of (48 + d) else char_of (87 + d))"

definition hexlify :: "int \<Rightarrow> string" where
  "hexlify i = [hex_char (nat i div 16), hex_char (nat i mod 16)]"

definition hwmac_of_string :: "string \<Rightarrow> hwmac res" where
  "hwmac_of_string v =
     (let s = lower (colons (strip v)) in
      bindE (mapE unhex (split_on (CHR '':'') s)) (\<lambda>l.
      bindE (hw_CheckNumList l) (\<lambda>_. Inr \<lparr>hw_string = s, hw_numlist = l\<rparr>)))"

definition hwmac_of_list :: "int list \<Rightarrow> hwmac res" where
  "hwmac_of_list v =
     bindE (hw_CheckNumList v) (\<lambda>_. Inr \<lparr>hw_string = join_with (CHR '':'') (map hexlify v), hw_numlist = v\<rparr>)"

definition hwmac_nonzero :: "hwmac \<Rightarrow> bool" where
  "hwmac_nonzero m \<longleftrightarrow> hw_string m \<noteq> ''00:00:00:00:00:00''"

section \<open>The three forms of an address\<close>

lemma checked_ok: "CheckNumList v \<Longrightarrow> checked v = Inr v"
  by (simp add: checked_def)

lemma dot_not_space: "\<not> is_space (CHR ''.'')"
  by (simp add: is_space_def)

lemma split_dotted:
  "v \<noteq> [] \<Longrightarrow> split_on (CHR ''.'') (join_with (CHR ''.'') (map (\<lambda>i. nat_str (nat i)) v)) =
     map (\<lambda>i. nat_str (nat i)) v"
  by (rule split_join) (auto dest: dot_not_digit [OF isdigit_nat_str, THEN notE])

lemma parse_dotted:
  assumes "CheckNumList v"
  shows "mapE py_int (split_on (CHR ''.'') (join_with (CHR ''.'') (map (\<lambda>i. nat_str (nat i)) v))) = Inr v"
proof -
  from assms have v: "v \<noteq> []" "\<And>i. i \<in> set v \<Longrightarrow> 0 \<le> i" by (auto simp: CheckNumList_def list_all_iff)
  have "mapE py_int (map (\<lambda>i. nat_str (nat i)) v) = Inr v"
    using v(2) by (induction v) (auto simp: py_int_nat_str)
  with v(1) show ?thesis by (simp add: split_dotted)
qed

lemma CheckNumListE:
  assumes "CheckNumList v"
  obtains a b c d where "v = [a, b, c, d]" and "0 \<le> a" "a \<le> 255" "0 \<le> b" "b \<le> 255" "0 \<le> c" "c \<le> 255" "0 \<le> d" "d \<le> 255"
proof -
  from assms obtain a b c d where "v = [a, b, c, d]"
    by (auto simp: CheckNumList_def length_Suc_conv numeral_eq_Suc)
  with assms that show ?thesis by (auto simp: CheckNumList_def)
qed

definition dotted :: "int list \<Rightarrow> string" where
  "dotted v = join_with (CHR ''.'') (map (\<lambda>i. nat_str (nat i)) v)"

lemma join_with_ends:
  assumes "xs \<noteq> []" and "\<forall>x \<in> set xs. isdigit x"
  shows "strip (join_with (CHR ''.'') xs) = join_with (CHR ''.'') xs"
proof -
  have nospace: "c \<in> set (join_with (CHR ''.'') xs) \<Longrightarrow> \<not> is_space c" for c
    using assms
  proof (induction "CHR ''.''" xs rule: join_with.induct)
    case (2 x)
    then show ?case by (auto simp: isdigit_def list_all_iff digit_not_space)
  next
    case (3 x y ys)
    then show ?case by (auto simp: isdigit_def list_all_iff digit_not_space dot_not_space)
  qed simp
  let ?s = "join_with (CHR ''.'') xs"
  have "dropWhile is_space ?s = ?s" using nospace by (metis dropWhile_eq_self_iff hd_in_set)
  moreover have "dropWhile is_space (rev ?s) = rev ?s"
    using nospace by (metis dropWhile_eq_self_iff hd_in_set set_rev)
  ultimately show ?thesis by (simp add: strip_def)
qed

lemma low_byte: "0 \<le> d \<Longrightarrow> d \<le> 255 \<Longrightarrow> (d + 256 * x) div 256 = x \<and> (d + 256 * x) mod 256 = (d :: int)"
  by simp

lemma long_bytes:
  assumes "0 \<le> a" "a \<le> 255" "0 \<le> b" "b \<le> 255" "0 \<le> c" "c \<le> 255" "0 \<le> d" "d \<le> (255 :: int)"
  defines "n \<equiv> d + c * 256 + b * 256 * 256 + a * 256 * 256 * 256"
  shows "[n div 2 ^ 24 mod 256, n div 2 ^ 16 mod 256, n div 2 ^ 8 mod 256, n mod 256] = [a, b, c, d]"
proof -
  define y z where "y = b + 256 * a" and "z = c + 256 * y"
  have "n = d + 256 * z" by (simp add: n_def y_def z_def)
  then have parts: "n div 256 = z" "n mod 256 = d" "z div 256 = y" "z mod 256 = c" "y div 256 = a" "y mod 256 = b"
    using low_byte [of d z] low_byte [of c y] low_byte [of b a] assms(1-8) by (simp_all add: y_def z_def)
  have "n div (256 * 256) = n div 256 div 256" by (rule zdiv_zmult2_eq) simp
  also have "\<dots> = y" by (simp only: parts)
  finally have y: "n div 65536 = y" by simp
  have "n div (65536 * 256) = n div 65536 div 256" by (rule zdiv_zmult2_eq) simp
  also have "\<dots> = a" by (simp only: y parts)
  finally have a: "n div 16777216 = a" by simp
  have "a mod 256 = a" using assms(1,2) by simp
  moreover have "(2 :: int) ^ 24 = 16777216" "(2 :: int) ^ 16 = 65536" "(2 :: int) ^ 8 = 256" by simp_all
  ultimately show ?thesis by (simp only: a y parts)
qed

section \<open>Properties\<close>

text \<open>
  The three forms of an address agree: from a valid list the class computes a string and a number, and
  starting from that string or that number gives the same address again.
\<close>

theorem ipv4_forms_agree:
  assumes "CheckNumList v"
  shows "\<exists>ip. ipv4_of_list v = Inr ip \<and> ip_numlist ip = v \<and>
    ipv4_of_string (ip_string ip) = Inr ip \<and> ipv4_of_int (ip_long ip) = Inr ip"
proof -
  from assms obtain a b c d where v: "v = [a, b, c, d]"
    and r: "0 \<le> a" "a \<le> 255" "0 \<le> b" "b \<le> 255" "0 \<le> c" "c \<le> 255" "0 \<le> d" "d \<le> 255"
    by (rule CheckNumListE)
  let ?n = "d + c * 256 + b * 256 * 256 + a * 256 * 256 * 256"
  let ?ip = "\<lparr>ip_string = dotted v, ip_numlist = v, ip_long = ?n\<rparr>"
  have parse: "mapE py_int (split_on (CHR ''.'') (dotted v)) = Inr v"
    unfolding dotted_def by (rule parse_dotted [OF assms])
  have str: "NumlistToString v = Inr (dotted v)" by (simp add: NumlistToString_def checked_ok [OF assms] dotted_def)
  have long: "StringToLong (dotted v) v = Inr ?n"
    unfolding StringToLong_def parse by (simp add: v checked_ok [OF assms, unfolded v])
  have check: "CheckString (dotted v)"
  proof -
    have "strip (dotted v) = dotted v"
      unfolding dotted_def by (rule join_with_ends) (auto simp: v isdigit_nat_str)
    then show ?thesis using split_dotted [of v] by (simp add: CheckString_def Let_def dotted_def v isdigit_nat_str)
  qed
  have "ipv4_of_list v = Inr ?ip" using assms by (simp add: ipv4_of_list_def str long)
  moreover have "ipv4_of_string (dotted v) = Inr ?ip"
    by (simp add: ipv4_of_string_def check StringToNumlist_def parse checked_ok [OF assms] long str)
  moreover have "LongToNumlist ?n = Inr v"
    using long_bytes [OF r] assms unfolding v by (simp only: LongToNumlist_def checked_def if_True)
  ultimately show ?thesis using str by (intro exI [of _ ?ip]) (simp add: ipv4_of_int_def)
qed

theorem ipv4_forms_agree_witness:
  "\<exists>ip. ipv4_of_list [172, 20, 1, 11] = Inr ip \<and> ipv4_of_string (ip_string ip) = Inr ip"
proof -
  have "CheckNumList [172, 20, 1, 11]" by (simp add: CheckNumList_def)
  from ipv4_forms_agree [OF this] show ?thesis by blast
qed

end
