(* ===== verification/DhcpText.thy ===== *)
theory DhcpText
  imports DhcpConstants DhcpTypes
begin

text \<open>
  The textual form of DHCP options, \<^verbatim>\<open>_OptionsToBinary\<close> of \<^verbatim>\<open>proxydhcpd/dhcplib/dhcp_packet.py\<close>: one
  branch per kind of parameter.  The result is the list of numbers, or \<open>None\<close> where the code returns
  \<^verbatim>\<open>None\<close> or \<^verbatim>\<open>False\<close>.
\<close>

section \<open>Header fields\<close>

text \<open>\<^verbatim>\<open>try\<close> with a handler for one kind of exception.\<close>

definition on_error :: "py_error \<Rightarrow> 'a \<Rightarrow> 'a res \<Rightarrow> 'a res" where
  "on_error e d r = (case r of Inl e' \<Rightarrow> if e' = e then Inr d else Inl e' | Inr x \<Rightarrow> Inr x)"

definition named_number :: "string \<Rightarrow> int list res" where
  "named_number v =
     (let s = strip v in
      if isdigit s then bindE (py_int s) (\<lambda>i. Inr [i])
      else case DhcpNames s of Some n \<Rightarrow> Inr [int n] | None \<Rightarrow> Inr [0])"

definition four_bytes :: "string \<Rightarrow> int list res" where
  "four_bytes v =
     on_error ValueError [0, 0, 0, 0]
       (bindE (py_int v) (\<lambda>i. bindE (ipv4_of_int i) (\<lambda>ip. Inr (ip_numlist ip))))"

definition address_bytes :: "string \<Rightarrow> int list res" where
  "address_bytes v = on_error ValueError [0, 0, 0, 0] (bindE (ipv4_of_string v) (\<lambda>ip. Inr (ip_numlist ip)))"

text \<open>
  \<^verbatim>\<open>except ValueError,TypeError\<close> catches \<^verbatim>\<open>ValueError\<close> alone and binds it to the other name.
\<close>

definition hardware_bytes :: "string \<Rightarrow> int list res" where
  "hardware_bytes v =
     on_error ValueError (replicate 16 0) (bindE (hwmac_of_string v) (\<lambda>m. Inr (hw_numlist m @ replicate 10 0)))"

section \<open>Options\<close>

definition low_bytes :: "nat \<Rightarrow> int \<Rightarrow> int list" where
  "low_bytes k i = map (\<lambda>j. i div 2 ^ (8 * j) mod 256) (rev [0..<k])"

definition number_bytes :: "nat \<Rightarrow> string \<Rightarrow> int list option res" where
  "number_bytes k v = on_error ValueError None (bindE (py_int v) (\<lambda>i. Inr (Some (low_bytes k i))))"

fun option_bytes :: "option_type \<Rightarrow> string \<Rightarrow> int list option res" where
  "option_bytes TIpv4 v = on_error ValueError None (bindE (mapE py_int (split_on (CHR ''.'') v)) (\<lambda>l. Inr (Some l)))"
| "option_bytes TIpv4s v =
     bindE (mapE ipv4_of_string (split_on (CHR '','') v)) (\<lambda>ips. Inr (Some (concat (map ip_numlist ips))))"
| "option_bytes T32bits v = number_bytes 4 v"
| "option_bytes T16bits v = number_bytes 2 v"
| "option_bytes TChar v = number_bytes 1 v"
| "option_bytes TBool v = Inr (Some (if v = ''False'' \<or> v = ''false'' then [0] else [1]))"
| "option_bytes t v = Inr (Some (map int (snd (strlist_of_str v))))"

definition known_codes :: "string list \<Rightarrow> int list" where
  "known_codes names = concat (map (\<lambda>n. case DhcpOptions n of Some c \<Rightarrow> [int c] | None \<Rightarrow> []) names)"

definition OptionsToBinary :: "string \<Rightarrow> string \<Rightarrow> int list option res" where
  "OptionsToBinary parameter v =
     (let p = strip parameter; ret = (\<lambda>r. bindE r (\<lambda>l. Inr (Some l))) in
      if p = ''op'' \<or> p = ''htype'' then ret (named_number v)
      else if p = ''hlen'' \<or> p = ''hops'' then
        ret (on_error ValueError [0] (bindE (py_int v) (\<lambda>i. Inr [i])))
      else if p = ''secs'' \<or> p = ''flags'' then ret (bindE (four_bytes v) (\<lambda>l. Inr (drop 2 l)))
      else if p = ''xid'' then ret (four_bytes v)
      else if p = ''ciaddr'' \<or> p = ''yiaddr'' \<or> p = ''siaddr'' \<or> p = ''giaddr'' then ret (address_bytes v)
      else if p = ''chaddr'' then ret (hardware_bytes v)
      else if p = ''sname'' then Inr None
      else if p = ''file'' then Inr None
      else if p = ''parameter_request_list'' then Inr (Some (known_codes (split_on (CHR '','') (strip v))))
      else if p = ''dhcp_message_type'' then Inr (map_option (\<lambda>n. [int n]) (DhcpNames v))
      else case Option.bind (DhcpOptions parameter) DhcpOptionsTypes of
             None \<Rightarrow> Inr None
           | Some t \<Rightarrow> option_bytes t v)"

section \<open>Results\<close>

lemma strip_fixed: "strip ''chaddr'' = ''chaddr''" "strip ''ciaddr'' = ''ciaddr''"
  by code_simp+

text \<open>A hardware address that is not made of hexadecimal pairs raises, although it was meant to be caught.\<close>

lemma bad_hardware_address_raises:
  "mapE unhex (split_on (CHR '':'') (lower (colons (strip v)))) = Inl TypeError \<Longrightarrow>
     OptionsToBinary ''chaddr'' v = Inl TypeError"
  by (simp add: OptionsToBinary_def strip_fixed hardware_bytes_def hwmac_of_string_def on_error_def Let_def)

text \<open>A bad address is replaced by zeros; a good one gives its four bytes.\<close>

lemma address_field_four_bytes:
  assumes "OptionsToBinary ''ciaddr'' v = Inr r"
  shows "\<exists>l. r = Some l \<and> (l = [0, 0, 0, 0] \<or> (\<exists>ip. ipv4_of_string v = Inr ip \<and> l = ip_numlist ip))"
  using assms
  by (cases "ipv4_of_string v")
    (auto simp: OptionsToBinary_def strip_fixed address_bytes_def on_error_def Let_def split: if_splits)

end
