(* ===== verification/Capture.thy ===== *)
theory Capture
  imports PyStruct "HOL-Library.Sublist"
begin

text \<open>
  Capture files, \<^verbatim>\<open>lophi/capture/__init__.py\<close>: the writer, the reader and the reader that follows a
  file while it grows.  A file is its bytes; a reader that follows it sees a longer and longer prefix
  of what the writer writes.  A time stamp is the single-precision float the header holds.
\<close>

section \<open>The writer\<close>

definition CapHeader :: fields where
  "CapHeader = [(''timestamp'', FFloat), (''length'', FInt True 0 4)]"

datatype packet = StrPacket bytes | StructPacket data_struct

fun packet_len :: "packet \<Rightarrow> nat" where
  "packet_len (StrPacket s) = length s"
| "packet_len (StructPacket d) = ds_len d"

text \<open>Python's \<^verbatim>\<open>repr\<close> of a byte string: quoted, with escapes.\<close>

definition hex_digit :: "nat \<Rightarrow> byte" where
  "hex_digit d = (if d < 10 then word_of_nat (48 + d) else word_of_nat (87 + d))"

definition repr_byte :: "byte \<Rightarrow> byte \<Rightarrow> bytes" where
  "repr_byte q b =
     (if b = q \<or> b = 92 then [92, b]
      else if b = 9 then [92, 116]
      else if b = 10 then [92, 110]
      else if b = 13 then [92, 114]
      else if unat b < 32 \<or> unat b \<ge> 127 then [92, 120, hex_digit (unat b div 16), hex_digit (unat b mod 16)]
      else [b])"

definition str_repr :: "bytes \<Rightarrow> bytes" where
  "str_repr s =
     (let q = (if 39 \<in> set s \<and> 34 \<notin> set s then 34 else 39) in q # concat (map (repr_byte q) s) @ [q])"

text \<open>
  What is written after the header.  The test \<^verbatim>\<open>type(packet) == 'str'\<close> compares a type with a string
  and is never true, so a string is written as its \<^verbatim>\<open>repr\<close> too.
\<close>

fun packet_repr :: "packet \<Rightarrow> bytes res" where
  "packet_repr (StrPacket s) = Inr (str_repr s)"
| "packet_repr (StructPacket d) = ds_repr d"

definition write_packet :: "data_struct \<Rightarrow> 32 word \<Rightarrow> packet \<Rightarrow> (data_struct \<times> bytes) res" where
  "write_packet cap_header ts p =
     bindE (then_set (then_set (Inr cap_header) ''timestamp'' (VFloat ts)) ''length'' (VInt (int (packet_len p))))
       (\<lambda>h. bindE (ds_repr h) (\<lambda>hb. bindE (packet_repr p) (\<lambda>pb. Inr (h, hb @ pb))))"

text \<open>The loop of \<^verbatim>\<open>run\<close> over the packets that come out of the queue, each with its time.\<close>

fun writer_loop :: "data_struct \<Rightarrow> (32 word \<times> packet) list \<Rightarrow> bytes \<Rightarrow> bytes res" where
  "writer_loop cap_header [] file = Inr file"
| "writer_loop cap_header ((ts, p) # rest) file =
     bindE (write_packet cap_header ts p) (\<lambda>(h, bs). writer_loop h rest (file @ bs))"

definition CaptureWriter_run :: "(32 word \<times> packet) list \<Rightarrow> bytes res" where
  "CaptureWriter_run ps = writer_loop (ds_init CapHeader None) ps []"

section \<open>The readers\<close>

type_synonym captured = "32 word \<times> bytes"

text \<open>The fields of a header; \<open>None\<close> when too little was read and they stay \<^verbatim>\<open>None\<close>.\<close>

definition unpack_header :: "bytes \<Rightarrow> (32 word \<times> nat) option" where
  "unpack_header bs =
     (let h = ds_init CapHeader (Some bs) in
      case (attr (ds_dict h) ''timestamp'', attr (ds_dict h) ''length'') of
        (VFloat ts, VInt n) \<Rightarrow> Some (ts, nat n)
      | _ \<Rightarrow> None)"

definition CaptureReader_next :: "bytes \<Rightarrow> nat \<Rightarrow> (captured \<times> nat) res" where
  "CaptureReader_next file pos =
     (let header_data = slice pos (pos + 8) file in
      if length header_data = 0 then Inl StopIteration
      else case unpack_header header_data of
             None \<Rightarrow> Inl TypeError
           | Some (ts, n) \<Rightarrow> Inr ((ts, slice (pos + 8) (pos + 8 + n) file), min (pos + 8 + n) (length file)))"

text \<open>Iterating over a reader.\<close>

function read_all :: "bytes \<Rightarrow> nat \<Rightarrow> captured list res" where
  "read_all file pos =
     (case CaptureReader_next file pos of
        Inl StopIteration \<Rightarrow> Inr []
      | Inl e \<Rightarrow> Inl e
      | Inr (c, pos1) \<Rightarrow> bindE (read_all file pos1) (\<lambda>cs. Inr (c # cs)))"
  by pat_completeness auto

lemma CaptureReader_next_moves:
  assumes "CaptureReader_next file pos = Inr (c, pos1)"
  shows "length file - pos1 < length file - pos"
proof -
  from assms obtain n where "slice pos (pos + 8) file \<noteq> []" "pos1 = min (pos + 8 + n) (length file)"
    by (auto simp: CaptureReader_next_def Let_def split: if_splits option.splits prod.splits)
  moreover then have "pos < length file" by (simp add: slice_def)
  ultimately show ?thesis by auto
qed

termination read_all
  by (relation "measure (\<lambda>(file, pos). length file - pos)") (auto dest: CaptureReader_next_moves)

declare read_all.simps [simp del]

text \<open>\<^verbatim>\<open>CaptureReaderTail.next\<close>: all complete records from the last position on, and the new position.\<close>

function tail_loop :: "bytes \<Rightarrow> nat \<Rightarrow> captured list \<Rightarrow> captured list \<times> nat" where
  "tail_loop file pos ret =
     (let header_data = slice pos (pos + 8) file in
      if length header_data < 8 then (ret, pos)
      else case unpack_header header_data of
             None \<Rightarrow> (ret, pos)
           | Some (ts, n) \<Rightarrow>
               let packet_data = slice (pos + 8) (pos + 8 + n) file in
               if length packet_data < n then (ret, pos)
               else tail_loop file (pos + 8 + n) (ret @ [(ts, packet_data)]))"
  by pat_completeness auto
termination
  by (relation "measure (\<lambda>(file, pos, ret). length file - pos)") auto

declare tail_loop.simps [simp del]

definition CaptureReaderTail_next :: "bytes \<Rightarrow> nat \<Rightarrow> captured list \<times> nat" where
  "CaptureReaderTail_next file pos = tail_loop file pos []"

text \<open>Polling a file of which the first \<open>n\<close> bytes are written, for one \<open>n\<close> after the other.\<close>

fun poll :: "bytes \<Rightarrow> nat list \<Rightarrow> nat \<Rightarrow> captured list" where
  "poll file [] pos = []"
| "poll file (n # ns) pos =
     (case CaptureReaderTail_next (take n file) pos of (ret, pos1) \<Rightarrow> ret @ poll file ns pos1)"

text \<open>
  One turn of the generator \<^verbatim>\<open>CaptureReader.tail\<close> on the file as it is now: what is yielded, if anything,
  and the position in the file.
\<close>

definition CaptureReader_tail :: "bytes \<Rightarrow> nat \<Rightarrow> (captured option \<times> nat) res" where
  "CaptureReader_tail file pos =
     (let header_data = slice pos (pos + 8) file in
      if length header_data = 0 then Inr (None, pos)
      else case unpack_header header_data of
             None \<Rightarrow> Inl TypeError
           | Some (ts, n) \<Rightarrow>
               let packet_data = slice (pos + 8) (pos + 8 + n) file in
               if length packet_data = 0 then Inr (None, min (pos + 8) (length file))
               else Inr (Some (ts, packet_data), min (pos + 8 + n) (length file)))"

section \<open>Records\<close>

definition record_bytes :: "captured \<Rightarrow> bytes" where
  "record_bytes c = be_bytes 4 (unat (fst c)) @ be_bytes 4 (length (snd c)) @ snd c"

definition capture :: "captured list \<Rightarrow> bytes" where
  "capture cs = concat (map record_bytes cs)"

definition small :: "captured \<Rightarrow> bool" where
  "small c \<longleftrightarrow> length (snd c) < 2 ^ 32"

lemma length_record [simp]: "length (record_bytes c) = 8 + length (snd c)"
  by (simp add: record_bytes_def)

lemma capture_simps [simp]:
  "capture [] = []" "capture (c # cs) = record_bytes c @ capture cs" "capture (cs @ ds) = capture cs @ capture ds"
  by (simp_all add: capture_def)

lemma unat_float_less: "unat (ts :: 32 word) < 256 ^ 4"
  using unsigned_less [of ts, where ?'a = nat] by simp

lemma unpack_record:
  assumes "n < 2 ^ 32"
  shows "unpack_header (be_bytes 4 (unat ts) @ be_bytes 4 n) = Some (ts, n)"
proof -
  have "be_val (be_bytes 4 (unat ts)) = unat ts" by (rule be.dec_enc [OF unat_float_less])
  moreover have "be_val (be_bytes 4 n) = n" using assms by (intro be.dec_enc) simp
  ultimately show ?thesis
    by (simp add: unpack_header_def ds_init_def ds_unpack_def ds_blank_def struct_size_def CapHeader_def
        attr_def int_val_def Let_def)
qed

lemma header_of_record:
  "slice (length pre) (length pre + 8) (pre @ record_bytes c @ post) =
     be_bytes 4 (unat (fst c)) @ be_bytes 4 (length (snd c))"
  by (simp add: slice_def record_bytes_def)

lemma data_of_record:
  "slice (length pre + 8) (length pre + 8 + length (snd c)) (pre @ record_bytes c @ post) = snd c"
  by (simp add: slice_def record_bytes_def)

lemma read_all_capture:
  assumes "list_all small cs"
  shows "read_all (pre @ capture cs) (length pre) = Inr cs"
  using assms
proof (induction cs arbitrary: pre)
  case Nil
  then show ?case by (simp add: read_all.simps CaptureReader_next_def slice_def)
next
  case (Cons c cs)
  have "CaptureReader_next (pre @ capture (c # cs)) (length pre) =
      Inr (c, length (pre @ record_bytes c))"
    using Cons.prems header_of_record [of pre c "capture cs"] data_of_record [of pre c "capture cs"]
    by (simp add: CaptureReader_next_def unpack_record small_def)
  with Cons.IH [of "pre @ record_bytes c"] Cons.prems show ?case
    by (subst read_all.simps) simp
qed

section \<open>Following a growing file\<close>

text \<open>The records that are complete in the first \<open>n\<close> bytes.\<close>

fun fitting :: "nat \<Rightarrow> captured list \<Rightarrow> captured list" where
  "fitting n [] = []"
| "fitting n (c # cs) =
     (if length (record_bytes c) \<le> n then c # fitting (n - length (record_bytes c)) cs else [])"

lemma fitting_prefix: "prefix (fitting n cs) cs"
  by (induction n cs rule: fitting.induct) auto

lemma fitting_all: "length (capture cs) \<le> n \<Longrightarrow> fitting n cs = cs"
  by (induction n cs rule: fitting.induct) auto

lemma slice_take: "slice i j (take n xs) = slice i (min j n) xs"
  by (cases "i \<le> n") (auto simp: slice_def drop_take min_def)

lemma tail_loop_short: "length file < pos + 8 \<Longrightarrow> tail_loop file pos ret = (ret, pos)"
proof -
  assume "length file < pos + 8"
  then have "length file - pos < 8" by arith
  then show ?thesis by (subst tail_loop.simps) (simp add: Let_def)
qed

lemma tail_loop_capture:
  assumes "list_all small cs"
  shows "tail_loop (take n (pre @ capture cs)) (length pre) ret =
    (ret @ fitting (n - length pre) cs, length pre + length (capture (fitting (n - length pre) cs)))"
  using assms
proof (induction cs arbitrary: pre ret)
  case Nil
  then show ?case by (simp add: tail_loop_short)
next
  case (Cons c cs)
  let ?all = "pre @ record_bytes c @ capture cs" and ?p = "length pre" and ?l = "length (snd c)"
  have head: "slice ?p (?p + 8) ?all = be_bytes 4 (unat (fst c)) @ be_bytes 4 ?l"
    by (rule header_of_record)
  have body: "slice (?p + 8) (?p + 8 + ?l) ?all = snd c" by (rule data_of_record)
  consider (none) "n < ?p + 8" | (part) "?p + 8 \<le> n" "n < ?p + 8 + ?l" | (full) "?p + 8 + ?l \<le> n"
    by linarith
  then show ?case
  proof cases
    case none
    then show ?thesis by (simp add: tail_loop_short)
  next
    case part
    then have "slice ?p (?p + 8) (take n ?all) = slice ?p (?p + 8) ?all" by (simp add: slice_take del: take_append)
    moreover have "length (slice (?p + 8) (?p + 8 + ?l) (take n ?all)) < ?l"
      using part by (simp add: min_def del: take_append)
    ultimately have "tail_loop (take n ?all) ?p ret = (ret, ?p)"
      using head Cons.prems
      by (subst tail_loop.simps) (simp add: unpack_record small_def Let_def del: take_append length_slice)
    moreover have "fitting (n - ?p) (c # cs) = []" using part by simp
    ultimately show ?thesis by simp
  next
    case full
    then have "slice ?p (?p + 8) (take n ?all) = slice ?p (?p + 8) ?all"
      "slice (?p + 8) (?p + 8 + ?l) (take n ?all) = snd c"
      using body by (simp_all add: slice_take del: take_append)
    then have "tail_loop (take n ?all) ?p ret = tail_loop (take n ?all) (length (pre @ record_bytes c)) (ret @ [c])"
      using head Cons.prems
      by (subst tail_loop.simps) (simp add: unpack_record small_def Let_def add.assoc del: take_append length_slice)
    also have "\<dots> = (ret @ [c] @ fitting (n - length (pre @ record_bytes c)) cs,
        length (pre @ record_bytes c) + length (capture (fitting (n - length (pre @ record_bytes c)) cs)))"
      using Cons.IH [of "pre @ record_bytes c" "ret @ [c]"] Cons.prems by simp
    finally show ?thesis using full by simp
  qed
qed

lemma poll_step:
  assumes "list_all small (done @ rest)"
  shows "CaptureReaderTail_next (take n (capture (done @ rest))) (length (capture done)) =
    (fitting (n - length (capture done)) rest,
     length (capture (done @ fitting (n - length (capture done)) rest)))"
  using tail_loop_capture [of rest n "capture done" "[]"] assms by (simp add: CaptureReaderTail_next_def)

lemma poll_capture:
  assumes "list_all small (done @ rest)"
  shows "prefix (poll (capture (done @ rest)) ns (length (capture done))) rest \<and>
    ((\<exists>n \<in> set ns. length (capture (done @ rest)) \<le> n) \<longrightarrow>
      poll (capture (done @ rest)) ns (length (capture done)) = rest)"
  using assms
proof (induction ns arbitrary: "done" rest)
  case (Cons n ns)
  define new where "new = fitting (n - length (capture done)) rest"
  obtain later where later: "rest = new @ later"
    using fitting_prefix [of _ rest] unfolding new_def by (auto simp: prefix_def)
  from poll_step [OF Cons.prems, of n] have step: "poll (capture (done @ rest)) (n # ns) (length (capture done)) =
      new @ poll (capture ((done @ new) @ later)) ns (length (capture (done @ new)))"
    by (simp only: poll.simps prod.case new_def [symmetric]) (simp add: later)
  have IH: "prefix (poll (capture ((done @ new) @ later)) ns (length (capture (done @ new)))) later \<and>
    ((\<exists>n \<in> set ns. length (capture ((done @ new) @ later)) \<le> n) \<longrightarrow>
      poll (capture ((done @ new) @ later)) ns (length (capture (done @ new))) = later)"
    using Cons.prems later by (intro Cons.IH) simp
  have "new = rest" if "length (capture (done @ rest)) \<le> n"
    using that by (simp add: new_def fitting_all)
  with step IH later show ?case by (auto simp: prefix_def)
qed simp

section \<open>What the writer writes\<close>

text \<open>A header that the writer can go on with.\<close>

definition header_ok :: "data_struct \<Rightarrow> bool" where
  "header_ok h \<longleftrightarrow> ds_struct h = CapHeader \<and> ds_data h = None \<and>
     (attr (ds_dict h) ''length'' = VNone \<or> (\<exists>i. attr (ds_dict h) ''length'' = VInt i \<and> 0 \<le> i \<and> i < 2 ^ 32))"

lemma header_ok_init: "header_ok (ds_init CapHeader None)"
  by (simp add: header_ok_def ds_init_def ds_blank_def CapHeader_def attr_def)

lemma write_packet_bytes:
  assumes "header_ok h" and "packet_repr p = Inr pb" and "packet_len p < 2 ^ 32"
  shows "\<exists>h'. write_packet h ts p =
      Inr (h', be_bytes 4 (unat ts) @ be_bytes 4 (packet_len p) @ pb) \<and> header_ok h'"
proof -
  define h' where "h' = h\<lparr>ds_dict := (ds_dict h)(''timestamp'' \<mapsto> VFloat ts, ''length'' \<mapsto> VInt (int (packet_len p))),
    ds_raw := Some (be_bytes 4 (unat ts) @ be_bytes 4 (packet_len p))\<rparr>"
  have "then_set (then_set (Inr h) ''timestamp'' (VFloat ts)) ''length'' (VInt (int (packet_len p))) = Inr h'"
    using assms(1,3)
    by (auto simp: then_set_def ds_setattr_def ds_pack_def attr_def header_ok_def CapHeader_def int_bytes_def
        h'_def split: option.splits)
  moreover have "header_ok h'" using assms(1,3) by (simp add: header_ok_def h'_def attr_def CapHeader_def)
  ultimately show ?thesis using assms(1,2)
    by (auto simp: write_packet_def ds_repr_def h'_def header_ok_def)
qed

lemma writer_loop_capture:
  assumes "header_ok h" and "list_all2 (\<lambda>(ts, p) c. fst c = ts \<and> packet_repr p = Inr (snd c) \<and>
      packet_len p = length (snd c) \<and> small c) ps cs"
  shows "writer_loop h ps out = Inr (out @ capture cs)"
  using assms(2,1)
proof (induction ps cs arbitrary: h out rule: list_all2_induct)
  case (Cons x ps c cs)
  obtain ts p where x: "x = (ts, p)" by (cases x)
  with Cons write_packet_bytes [OF Cons.prems, of p "snd c" ts] obtain h' where
    "write_packet h ts p = Inr (h', record_bytes c)" "header_ok h'"
    by (auto simp: small_def record_bytes_def)
  with Cons.IH [of h'] x show ?case by simp
qed simp

lemma repr_byte_length: "1 \<le> length (repr_byte q b)"
  by (simp add: repr_byte_def)

lemma str_repr_head: "\<exists>q. str_repr s = q # concat (map (repr_byte q) s) @ [q] \<and> (q = 34 \<or> q = 39)"
  by (simp add: str_repr_def Let_def)

section \<open>Properties\<close>

text \<open>
  A capture file of structured packets, written packet by packet, is read back as exactly the packets
  that were written, in order, each with its time stamp and the bytes of its \<^verbatim>\<open>repr\<close>.
\<close>

theorem capture_roundtrip:
  assumes "list_all2 (\<lambda>(ts, d) c. fst c = ts \<and> ds_repr d = Inr (snd c) \<and> ds_len d = length (snd c) \<and>
      length (snd c) < 2 ^ 32) ds cs"
  shows "\<exists>file. CaptureWriter_run (map (\<lambda>(ts, d). (ts, StructPacket d)) ds) = Inr file \<and>
    read_all file 0 = Inr cs"
proof -
  from assms have "list_all2 (\<lambda>(ts, p) c. fst c = ts \<and> packet_repr p = Inr (snd c) \<and>
      packet_len p = length (snd c) \<and> small c) (map (\<lambda>(ts, d). (ts, StructPacket d)) ds) cs"
    by (auto simp: list_all2_map1 small_def elim!: list_all2_mono)
  from writer_loop_capture [OF header_ok_init this, of "[]"]
  have "CaptureWriter_run (map (\<lambda>(ts, d). (ts, StructPacket d)) ds) = Inr (capture cs)"
    by (simp add: CaptureWriter_run_def)
  moreover have "list_all small cs"
    using assms by (induction rule: list_all2_induct) (auto simp: small_def)
  ultimately show ?thesis using read_all_capture [of cs "[]"] by simp
qed

text \<open>
  C10. A reader that follows a growing capture file returns every record exactly once and in order: what
  it has returned after any polls is an initial part of the records, and once it was polled with the whole
  file written it is all of them, however the earlier polls cut the file.
\<close>

theorem tail_reader_exactly_once:
  assumes "list_all small cs"
  shows "prefix (poll (capture cs) ns 0) cs \<and>
    ((\<exists>n \<in> set ns. length (capture cs) \<le> n) \<longrightarrow> poll (capture cs) ns 0 = cs)"
  using poll_capture [of "[]" cs ns] assms by simp

text \<open>
  A packet that is a plain, nonempty string is not written as it is: the reader gets as many bytes as
  the string has, but the first of them is the quotation mark of its \<^verbatim>\<open>repr\<close>.
\<close>

theorem string_packet_quoted:
  assumes "s \<noteq> []" and "length s < 2 ^ 32"
  shows "\<exists>file data pos. CaptureWriter_run [(ts, StrPacket s)] = Inr file \<and>
    CaptureReader_next file 0 = Inr ((ts, data), pos) \<and> length data = length s \<and>
    (hd data = 34 \<or> hd data = 39) \<and> pos < length file"
proof -
  obtain q where q: "str_repr s = q # concat (map (repr_byte q) s) @ [q]" "q = 34 \<or> q = 39"
    using str_repr_head by blast
  let ?file = "be_bytes 4 (unat ts) @ be_bytes 4 (length s) @ str_repr s"
  have "CaptureWriter_run [(ts, StrPacket s)] = Inr ?file"
    using write_packet_bytes [OF header_ok_init, of "StrPacket s" "str_repr s" ts] assms(2)
    by (auto simp: CaptureWriter_run_def)
  moreover have long: "length s + 2 \<le> length (str_repr s)"
  proof -
    have "length xs \<le> length (concat (map (repr_byte q) xs))" for xs
    proof (induction xs)
      case (Cons x xs)
      then show ?case using repr_byte_length [of q x] by simp
    qed simp
    then show ?thesis by (simp add: q(1))
  qed
  moreover have "CaptureReader_next ?file 0 = Inr ((ts, take (length s) (str_repr s)), 8 + length s)"
    using unpack_record [OF assms(2), of ts] long
    by (simp add: CaptureReader_next_def slice_def)
  moreover have "hd (take (length s) (str_repr s)) = q" using assms(1) q(1) by (cases s) auto
  ultimately show ?thesis using q(2) by auto
qed

text \<open>
  The generator \<^verbatim>\<open>tail\<close> loses a record whose header is in the file before its data: it goes on
  behind the header without yielding anything, and takes the data that comes next for a header.
\<close>

theorem tail_generator_loses_record:
  assumes "small c" and "8 \<le> length (snd c)"
  shows "CaptureReader_tail (take (length pre + 8) (pre @ record_bytes c @ post)) (length pre) =
      Inr (None, length pre + 8) \<and>
    slice (length pre + 8) (length pre + 8 + 8) (pre @ record_bytes c @ post) = take 8 (snd c)"
proof
  let ?all = "pre @ record_bytes c @ post" and ?p = "length pre"
  have "slice ?p (?p + 8) (take (?p + 8) ?all) = be_bytes 4 (unat (fst c)) @ be_bytes 4 (length (snd c))"
    by (simp add: slice_take header_of_record del: take_append)
  moreover have "slice (?p + 8) (?p + 8 + n) (take (?p + 8) ?all) = []" for n
    by (simp add: slice_take del: take_append)
  ultimately show "CaptureReader_tail (take (?p + 8) ?all) ?p = Inr (None, ?p + 8)"
    using assms(1)
    by (simp add: CaptureReader_tail_def Let_def unpack_record small_def del: take_append length_slice)
  show "slice (?p + 8) (?p + 8 + 8) ?all = take 8 (snd c)"
    using assms(2) by (simp add: slice_def record_bytes_def)
qed

section \<open>Witnesses\<close>

definition small_packet :: data_struct where
  "small_packet = ds_init SATAFrame (Some [0, 7, 0, 1, 65, 66])"

theorem capture_roundtrip_witness:
  "\<exists>file. CaptureWriter_run (map (\<lambda>(ts, d). (ts, StructPacket d)) [(5, small_packet)]) = Inr file \<and>
     read_all file 0 = Inr [(5, [0, 7, 0, 1, 65, 66])]"
proof -
  have "ds_repr small_packet = Inr [0, 7, 0, 1, 65, 66]" "ds_len small_packet = 6"
    by (simp_all add: small_packet_def SATAFrame_def ds_init_def ds_unpack_def ds_blank_def struct_size_def
        ds_repr_def ds_len_def Let_def)
  then show ?thesis by (intro capture_roundtrip) simp
qed

theorem tail_reader_exactly_once_witness:
  "poll (capture [(5, [1, 2, 3]), (6, [4])]) [10, 15, 20] 0 = [(5, [1, 2, 3]), (6, [4])]"
  using tail_reader_exactly_once [of "[(5, [1, 2, 3]), (6, [4])]" "[10, 15, 20]"]
  by (simp add: small_def)

theorem string_packet_quoted_witness:
  "\<exists>file data pos. CaptureWriter_run [(5, StrPacket [65])] = Inr file \<and>
     CaptureReader_next file 0 = Inr ((5, data), pos) \<and> length data = 1 \<and> hd data \<noteq> 65"
  using string_packet_quoted [of "[65]" 5] by auto

theorem tail_generator_loses_record_witness:
  "CaptureReader_tail (take (length [] + 8) ([] @ record_bytes (5, replicate 16 1) @ [])) (length []) =
     Inr (None, length [] + 8)"
  using tail_generator_loses_record [of "(5, replicate 16 1)" "[]" "[]"] by (simp add: small_def)

end
