(* ===== verification/Pxe.thy ===== *)
theory Pxe
  imports PyState PyText
begin

unbundle bit_operations_syntax

text \<open>
  The BOOTP and DHCP server that gives addresses to the machines under observation, \<^verbatim>\<open>pybootd/pxed.py\<close>.  Requests
  are handled one after the other; the record \<open>boot_state\<close> is what \<^verbatim>\<open>BootpServer\<close> keeps between them, with the
  replies and notices it sent.  Addresses are 32-bit words, where the code keeps them as text.  The network
  interfaces, the parser of addresses, the authentication host and \<^verbatim>\<open>/etc/resolv.conf\<close> are the record \<open>boot_host\<close>.
\<close>

section \<open>Configuration\<close>

type_synonym ip = "32 word"

record boot_host =
  inet_aton :: "string \<Rightarrow> ip res"
  netifaces :: "(string \<times> (ip \<times> ip) list option) list"
  ask_host :: "bool \<Rightarrow> string \<Rightarrow> string option \<Rightarrow> ip option \<Rightarrow> string list option res"
  resolv_conf :: "string option"

text \<open>Sections of the configuration file, each with its options in the order of the file.\<close>

type_synonym ini = "(string \<times> (string \<times> string) list) list"

definition ini_get :: "ini \<Rightarrow> string \<Rightarrow> string \<Rightarrow> string option \<Rightarrow> string option" where
  "ini_get cfg sect option dflt =
     (case map_of cfg sect of
        None \<Rightarrow> dflt
      | Some options \<Rightarrow> (case map_of options option of None \<Rightarrow> dflt | Some v \<Rightarrow> Some v))"

text \<open>\<^verbatim>\<open>if not x\<close> for text that may be missing.\<close>

definition no_text :: "string option \<Rightarrow> bool" where
  "no_text x \<longleftrightarrow> x = None \<or> x = Some []"

definition TRUE_BOOLEANS :: "string list" where
  "TRUE_BOOLEANS = [''on'', ''true'', ''enable'', ''enabled'', ''yes'', ''high'', ''ok'', ''1'']"

definition to_bool :: "string option \<Rightarrow> bool" where
  "to_bool v = (case v of None \<Rightarrow> False | Some s \<Rightarrow> lower s \<in> set TRUE_BOOLEANS)"

record net_config =
  ifname :: string
  net_server :: ip
  net_addr :: ip
  net_mask :: ip

fun find_iface :: "ip \<Rightarrow> string \<Rightarrow> (ip \<times> ip) list \<Rightarrow> net_config option" where
  "find_iface pool iface [] = None"
| "find_iface pool iface ((addr, msk) # infos) =
     (if (addr AND msk) XOR (pool AND msk) = 0
      then Some \<lparr>ifname = iface, net_server = addr, net_addr = addr AND msk, net_mask = msk\<rparr>
      else find_iface pool iface infos)"

fun find_ifaces :: "ip \<Rightarrow> (string \<times> (ip \<times> ip) list option) list \<Rightarrow> net_config option" where
  "find_ifaces pool [] = None"
| "find_ifaces pool ((iface, infos) # ifaces) =
     (case find_iface pool iface (case infos of None \<Rightarrow> [] | Some l \<Rightarrow> l) of
        Some c \<Rightarrow> Some c
      | None \<Rightarrow> find_ifaces pool ifaces)"

definition get_iface_config :: "boot_host \<Rightarrow> string option \<Rightarrow> net_config option res" where
  "get_iface_config h address =
     (if no_text address then Inr None
      else bindE (inet_aton h (the address)) (\<lambda>pool. Inr (find_ifaces pool (netifaces h))))"

datatype access_mode = AccessUuid | AccessMac | AccessHttp

record boot_server =
  pool_start :: ip
  pool_count :: int
  netconfig :: net_config
  notify :: "(string \<times> int) list"
  acl :: "string \<rightharpoonup> bool"
  access :: "access_mode option"
  config :: ini

text \<open>\<^verbatim>\<open>BootpServer.__init__\<close>: \<^verbatim>\<open>PRODUCT_NAME\<close> has no hyphen, so the section is \<^verbatim>\<open>bootp\<close>.\<close>

definition notify_entry :: "string \<Rightarrow> (string \<times> int) res" where
  "notify_entry n =
     (case split_on CHR '':'' (strip n) of
        host # port # rest \<Rightarrow> bindE (py_int port) (\<lambda>p. Inr (host, p))
      | _ \<Rightarrow> Inl IndexError)"

definition notify_list :: "string option \<Rightarrow> (string \<times> int) list res" where
  "notify_list nlist =
     (if no_text nlist then Inr []
      else case mapE notify_entry (split_on CHR '';'' (the nlist)) of Inl e \<Rightarrow> Inl BootpError | Inr l \<Rightarrow> Inr l)"

definition access_of :: "string \<Rightarrow> access_mode res" where
  "access_of s =
     (if s = ''uuid'' then Inr AccessUuid else if s = ''mac'' then Inr AccessMac
      else if s = ''http'' then Inr AccessHttp else Inl BootpError)"

definition local_acl :: "(string \<times> string) list \<Rightarrow> string \<rightharpoonup> bool" where
  "local_acl options = map_of (map (\<lambda>(entry, v). (upper entry, to_bool (Some v))) options)"

definition boot_server_init :: "boot_host \<Rightarrow> ini \<Rightarrow> boot_server res" where
  "boot_server_init h cfg =
     (let start = ini_get cfg ''bootp'' ''pool_start'' None in
      if no_text start then Inl BootpError else
      bindE (py_int (the (ini_get cfg ''bootp'' ''pool_count'' (Some ''10'')))) (\<lambda>count.
      bindE (get_iface_config h start) (\<lambda>net.
      case net of None \<Rightarrow> Inl BootpError | Some nc \<Rightarrow>
      bindE (inet_aton h (the start)) (\<lambda>pool.
      bindE (notify_list (ini_get cfg ''bootp'' ''notify'' None)) (\<lambda>ns.
      let s = \<lparr>pool_start = pool, pool_count = count, netconfig = nc, notify = ns, acl = Map.empty,
               access = None, config = cfg\<rparr>;
          mode = ini_get cfg ''bootp'' ''access'' None
      in if no_text mode then Inr s
         else bindE (access_of (lower (the mode))) (\<lambda>m.
           case map_of cfg (lower (the mode)) of
             None \<Rightarrow> Inl BootpError
           | Some options \<Rightarrow>
               Inr (s\<lparr>access := Some m, acl := (if m = AccessHttp then Map.empty else local_acl options)\<rparr>)))))))"

section \<open>Requests\<close>

datatype client_state = ST_IDLE | ST_PXE | ST_DHCP

record boot_state =
  uuidpool :: "bytes \<rightharpoonup> bytes"
  ippool :: "(string \<times> ip) list"
  filepool :: "ip \<rightharpoonup> string"
  states :: "string \<rightharpoonup> client_state"
  replies :: "((ip \<times> nat) \<times> bytes) list"
  notices :: "string list"

type_synonym 'a bmethod = "(boot_state, 'a) pymethod"

definition boot_state_init :: boot_state where
  "boot_state_init = \<lparr>uuidpool = Map.empty, ippool = [], filepool = Map.empty, states = Map.empty,
     replies = [], notices = []\<rparr>"

text \<open>The fixed part of a packet, \<^verbatim>\<open>!4bIHH4s4s4s4s16s64s128s4s\<close>.\<close>

definition DHCPFormatSize :: nat where
  "DHCPFormatSize = 240"

record boot_packet =
  b_head :: bytes
  b_xid :: bytes
  b_secs :: bytes
  b_flags :: bytes
  b_ciaddr :: bytes
  b_yiaddr :: bytes
  b_siaddr :: bytes
  b_giaddr :: bytes
  b_chaddr :: bytes
  b_sname :: bytes
  b_file :: bytes
  b_vend :: bytes

definition unpack_packet :: "bytes \<Rightarrow> boot_packet res" where
  "unpack_packet d =
     (if length d = DHCPFormatSize then
        Inr \<lparr>b_head = slice 0 4 d, b_xid = slice 4 8 d, b_secs = slice 8 10 d, b_flags = slice 10 12 d,
             b_ciaddr = slice 12 16 d, b_yiaddr = slice 16 20 d, b_siaddr = slice 20 24 d, b_giaddr = slice 24 28 d,
             b_chaddr = slice 28 44 d, b_sname = slice 44 108 d, b_file = slice 108 236 d, b_vend = slice 236 240 d\<rparr>
      else Inl StructError)"

text \<open>A string field is cut to its length or filled up with zeros.\<close>

definition pack_s :: "nat \<Rightarrow> bytes \<Rightarrow> bytes" where
  "pack_s n bs = take n bs @ replicate (n - length bs) 0"

definition pack_packet :: "boot_packet \<Rightarrow> bytes" where
  "pack_packet b = b_head b @ b_xid b @ b_secs b @ b_flags b @ b_ciaddr b @ b_yiaddr b @ b_siaddr b @ b_giaddr b @
     b_chaddr b @ pack_s 64 (b_sname b) @ pack_s 128 (b_file b) @ b_vend b"

definition ip_bytes :: "ip \<Rightarrow> bytes" where
  "ip_bytes a = be_bytes 4 (unat a)"

definition ip_of_bytes :: "bytes \<Rightarrow> ip" where
  "ip_of_bytes bs = word_of_nat (be_val bs)"

definition ip_text :: "ip \<Rightarrow> string" where
  "ip_text a = join_with CHR ''.'' (map (\<lambda>b. nat_str (unat b)) (ip_bytes a))"

section \<open>Options\<close>

definition DHCP_OPTIONS :: "nat list" where
  "DHCP_OPTIONS = [0..<62] @ [64..<75] @ [93, 94, 97, 255]"

type_synonym tags = "nat \<rightharpoonup> bytes"

text \<open>
  \<^verbatim>\<open>parse_options\<close>: a padding byte continues the loop without moving on, so that the loop never ends; the end of
  the data without an end option, and an option that is not in the table, give \<^verbatim>\<open>None\<close>.
\<close>

partial_function (option) boot_options :: "bytes \<Rightarrow> tags \<Rightarrow> tags option res option" where
  "boot_options tail dhcp_tags =
     (if tail = [] then Some (Inr None)
      else let tag = unat (hd tail) in
        if tag = 0 then boot_options tail dhcp_tags
        else if tag = 255 then Some (Inr (Some dhcp_tags))
        else if length tail < 2 then Some (Inl IndexError)
        else let len = unat (tail ! 1) in
          if length tail < 2 + len then Some (Inl StructError)
          else if tag \<notin> set DHCP_OPTIONS then Some (Inr None)
          else boot_options (drop (2 + len) tail) (dhcp_tags(tag \<mapsto> slice 2 (2 + len) tail)))"

declare boot_options.simps [code]

definition DHCP_DISCOVER :: nat where "DHCP_DISCOVER = 1"
definition DHCP_OFFER :: nat where "DHCP_OFFER = 2"
definition DHCP_REQUEST :: nat where "DHCP_REQUEST = 3"
definition DHCP_ACK :: nat where "DHCP_ACK = 5"
definition DHCP_RELEASE :: nat where "DHCP_RELEASE = 7"
definition DHCP_INFORM :: nat where "DHCP_INFORM = 8"

lemmas messages = DHCP_DISCOVER_def DHCP_OFFER_def DHCP_REQUEST_def DHCP_ACK_def DHCP_RELEASE_def DHCP_INFORM_def

text \<open>\<^verbatim>\<open>struct.pack('!BB%ds' % n, tag, n, value)\<close>.\<close>

definition dhcp_option_bytes :: "nat \<Rightarrow> bytes \<Rightarrow> bytes" where
  "dhcp_option_bytes tag v = [word_of_nat tag, word_of_nat (length v)] @ v"

definition before_colon :: "bytes \<Rightarrow> bytes" where
  "before_colon bs = (if 58 \<in> set bs then takeWhile (\<lambda>b. b \<noteq> 58) bs else butlast bs)"

definition pxe_vendor :: "ip \<Rightarrow> bytes" where
  "pxe_vendor server =
     [6, 1, 0x0A] @ [8, 7] @ be_bytes 2 0 @ [1] @ ip_bytes server @
     [9, 9] @ be_bytes 2 0 @ [6] @ ascii ''Python'' @ [10, 11, 10] @ ascii ''Stupid PXE''"

definition build_pxe_options :: "tags \<Rightarrow> ip \<Rightarrow> bytes option" where
  "build_pxe_options options server =
     (case (options 97, options 60) of
        (Some uuid, Some clientclass) \<Rightarrow>
          Some (dhcp_option_bytes 97 uuid @ dhcp_option_bytes 60 (before_colon clientclass) @
                dhcp_option_bytes 43 (pxe_vendor server) @ [255, 0, 0])
      | _ \<Rightarrow> None)"

definition build_dhcp_options :: "string \<Rightarrow> bytes res" where
  "build_dhcp_options clientname =
     (if clientname = [] then Inr []
      else if 255 < length clientname then Inl StructError else Inr (dhcp_option_bytes 12 (ascii clientname)))"

section \<open>Handling a request\<close>

definition mac_string :: "bytes \<Rightarrow> string" where
  "mac_string mac_addr = concat (case mac_addr of [] \<Rightarrow> [] | b # bs \<Rightarrow> hex_byte b # map (\<lambda>x. CHR ''-'' # hex_byte x) bs)"

definition uuid_string :: "bytes \<Rightarrow> string" where
  "uuid_string uuid =
     (let hexlify = (\<lambda>i j. concat (map hex_byte (slice i j uuid))) in
      hexlify 0 4 @ ''-'' @ hexlify 4 6 @ ''-'' @ hexlify 6 8 @ ''-'' @ hexlify 8 10 @ ''-'' @ hexlify 10 16)"

text \<open>The identifier in the request makes it one of the PXE firmware; otherwise it may be known from before.\<close>

definition is_pxe :: "tags \<Rightarrow> bool" where
  "is_pxe options = (case options 97 of None \<Rightarrow> False | Some v \<Rightarrow> length v = 17)"

definition request_uuid :: "tags \<Rightarrow> bytes \<Rightarrow> boot_state \<Rightarrow> bytes option" where
  "request_uuid options mac_addr st =
     (if is_pxe options then map_option tl (options 97) else uuidpool st mac_addr)"

definition message_type :: "tags \<Rightarrow> nat option res" where
  "message_type options =
     (case options 53 of
        None \<Rightarrow> Inr None
      | Some v \<Rightarrow> bindE (index_at v 0) (\<lambda>b. Inr (Some (unat b))))"

text \<open>The state machine of a client.\<close>

definition next_state :: "bool \<Rightarrow> nat option \<Rightarrow> client_state \<Rightarrow> client_state" where
  "next_state pxe dhcp_msg_type currentstate =
     (case currentstate of
        ST_IDLE \<Rightarrow> if pxe \<and> dhcp_msg_type = Some DHCP_DISCOVER then ST_PXE else ST_IDLE
      | ST_PXE \<Rightarrow> if \<not> pxe \<and> dhcp_msg_type = Some DHCP_REQUEST then ST_DHCP else ST_PXE
      | ST_DHCP \<Rightarrow> if pxe then ST_PXE else ST_DHCP)"

definition simple_dhcp :: "boot_server \<Rightarrow> bool" where
  "simple_dhcp srv \<longleftrightarrow> to_bool (ini_get (config srv) ''bootp'' ''allow_simple_dhcp'' None)"

text \<open>Lines of the authentication host: a name for the client and a file to boot.\<close>

definition host_line :: "string \<Rightarrow> string \<times> string \<Rightarrow> string \<times> string" where
  "host_line l hf =
     (case map strip (split_on CHR '':'' l) of
        [k, v] \<Rightarrow> (if lower k = ''client'' then (v, snd hf)
                    else if lower k = ''file'' then (fst hf, v) else hf)
      | _ \<Rightarrow> hf)"

text \<open>
  Access control: the name and the file the authentication host gave, or nothing if the request is ignored.
  The host is asked only when the state of the client changes; a local list only for a client without address.
\<close>

definition check_access ::
  "boot_host \<Rightarrow> boot_server \<Rightarrow> bool \<Rightarrow> string \<Rightarrow> string option \<Rightarrow> bool \<Rightarrow> (string \<times> string) option bmethod" where
  "check_access h srv pxe mac_str uuid_str changes =
     (case access srv of
        None \<Rightarrow> returnS (Some ([], []))
      | Some AccessHttp \<Rightarrow>
          bindS (liftS (py_int (the (ini_get (config srv) ''http'' ''timeout'' (Some ''5''))))) (\<lambda>timeout.
          if changes then
            bindS (getS (\<lambda>st. ask_host h pxe mac_str uuid_str (if pxe then None else map_of (ippool st) mac_str))) (\<lambda>r.
            bindS (liftS r) (\<lambda>lines. case lines of
                None \<Rightarrow> thenS (setS (\<lambda>st. st\<lparr>states := (states st)(mac_str \<mapsto> ST_IDLE)\<rparr>)) (returnS None)
              | Some ls \<Rightarrow> returnS (Some (fold host_line ls ([], [])))))
          else returnS (Some ([], [])))
      | Some mode \<Rightarrow>
          bindS (getS (\<lambda>st. map_of (ippool st) mac_str)) (\<lambda>known.
          let item = (if mode = AccessMac then Some mac_str else uuid_str) in
          if known \<noteq> None then returnS (Some ([], []))
          else if no_text item then returnS None
          else returnS (if acl srv (the item) = Some True then Some ([], []) else None)))"

text \<open>The first free address of the pool.\<close>

fun pool_loop :: "ip \<Rightarrow> ip list \<Rightarrow> nat list \<Rightarrow> ip option res" where
  "pool_loop start used [] = Inr None"
| "pool_loop start used (idx # idxs) =
     (if 2 ^ 32 \<le> unat start + idx then Inl StructError
      else let ipkey = start + word_of_nat idx in
        if ipkey \<notin> set used then Inr (Some ipkey) else pool_loop start used idxs)"

definition lease :: "boot_server \<Rightarrow> string \<Rightarrow> ip bmethod" where
  "lease srv mac_str =
     bindS (getS id) (\<lambda>st.
       case map_of (ippool st) mac_str of
         Some ip \<Rightarrow> returnS ip
       | None \<Rightarrow>
           bindS (liftS (pool_loop (pool_start srv) (map snd (ippool st)) [0..<nat (pool_count srv)])) (\<lambda>r.
           case r of
             None \<Rightarrow> raiseS BootpError
           | Some ip \<Rightarrow> thenS (setS (\<lambda>st. st\<lparr>ippool := (mac_str, ip) # ippool st\<rparr>)) (returnS ip)))"

definition broadcast :: "ip \<Rightarrow> ip \<Rightarrow> ip" where
  "broadcast addr msk = (addr AND msk) OR NOT msk"

text \<open>The address of the client, where the reply goes to, and the packet with the addresses filled in.\<close>

definition assign_address ::
  "boot_server \<Rightarrow> string \<Rightarrow> ip \<times> nat \<Rightarrow> boot_packet \<Rightarrow> (ip \<times> (ip \<times> nat) \<times> boot_packet) bmethod" where
  "assign_address srv mac_str addr buf =
     (if b_ciaddr buf = [0, 0, 0, 0] then
        bindS (lease srv mac_str) (\<lambda>ip.
          returnS (ip, (broadcast ip (net_mask (netconfig srv)), snd addr),
                   buf\<lparr>b_yiaddr := ip_bytes ip, b_secs := [0, 0], b_flags := [0, 0]\<rparr>))
      else returnS (ip_of_bytes (b_ciaddr buf), addr, buf\<lparr>b_yiaddr := b_ciaddr buf\<rparr>))"

definition fill_server :: "boot_server \<Rightarrow> boot_packet \<Rightarrow> boot_packet" where
  "fill_server srv buf =
     (let get = (\<lambda>option dflt. the (ini_get (config srv) ''bootp'' option (Some dflt))) in
      buf\<lparr>b_head := 2 # tl (b_head buf), b_siaddr := ip_bytes (net_server (netconfig srv)),
          b_giaddr := ip_bytes (net_server (netconfig srv)),
          b_sname := ascii (get ''servername'' ''unknown'' @ ''.'' @ get ''domain'' ''localdomain''),
          b_file := ascii (get ''boot_file'' [CHR 0x00])\<rparr>)"

definition reply_type :: "nat \<Rightarrow> nat option" where
  "reply_type dhcp_msg_type =
     (if dhcp_msg_type = DHCP_DISCOVER then Some DHCP_OFFER
      else if dhcp_msg_type = DHCP_REQUEST then Some DHCP_ACK else None)"

definition notice :: "string \<Rightarrow> string option \<Rightarrow> string \<Rightarrow> ip \<Rightarrow> string" where
  "notice kind uuid_str mac_str ip =
     (if no_text uuid_str then kind @ '','' @ mac_str @ '','' @ ip_text ip
      else kind @ '','' @ the uuid_str @ '','' @ mac_str @ '','' @ ip_text ip)"

definition send_notice :: "boot_server \<Rightarrow> string \<Rightarrow> unit bmethod" where
  "send_notice srv msg = setS (\<lambda>st. st\<lparr>notices := notices st @ replicate (length (notify srv)) msg\<rparr>)"

definition dns_option :: "boot_host \<Rightarrow> boot_server \<Rightarrow> bytes res" where
  "dns_option h srv =
     (let dns = ini_get (config srv) ''bootp'' ''dns'' None in
      if no_text dns then Inr []
      else if lower (the dns) = ''auto'' \<and> no_text (resolv_conf h) then
        Inr (dhcp_option_bytes 6 (ip_bytes (net_server (netconfig srv))))
      else bindE (inet_aton h (if lower (the dns) = ''auto'' then the (resolv_conf h) else the dns)) (\<lambda>a.
        Inr (dhcp_option_bytes 6 (ip_bytes a))))"

definition pack_I :: "int \<Rightarrow> bytes res" where
  "pack_I i = (if 0 \<le> i \<and> i < 2 ^ 32 then Inr (be_bytes 4 (nat i)) else Inl StructError)"

definition build_reply :: "boot_host \<Rightarrow> boot_server \<Rightarrow> boot_packet \<Rightarrow> nat \<Rightarrow> bytes res" where
  "build_reply h srv buf dhcp_reply =
     (let server = ip_bytes (net_server (netconfig srv)) in
      bindE (dns_option h srv) (\<lambda>dns.
      bindE (py_int (the (ini_get (config srv) ''bootp'' ''lease_time'' (Some ''86400'')))) (\<lambda>t.
      bindE (pack_I t) (\<lambda>lease_time.
        Inr (pack_packet buf @ dhcp_option_bytes 53 [word_of_nat dhcp_reply] @ dhcp_option_bytes 54 server @
             dhcp_option_bytes 1 (ip_bytes (net_mask (netconfig srv))) @ dhcp_option_bytes 3 server @ dns @
             dhcp_option_bytes 51 lease_time @ [255, 0])))))"

text \<open>The end of \<^verbatim>\<open>handle\<close>: the reply with the options for the firmware or the host name behind it.\<close>

definition send_reply ::
  "boot_host \<Rightarrow> boot_server \<Rightarrow> tags \<Rightarrow> boot_packet \<Rightarrow> ip \<times> nat \<Rightarrow> nat \<Rightarrow> string \<Rightarrow> (unit bmethod) \<Rightarrow> unit bmethod" where
  "send_reply h srv options buf addr dhcp_reply hostname moved =
     bindS (liftS (build_reply h srv buf dhcp_reply)) (\<lambda>pkt.
     bindS (if is_pxe options then returnS (build_pxe_options options (net_server (netconfig srv)))
            else bindS (liftS (build_dhcp_options hostname)) (\<lambda>b. returnS (Some b))) (\<lambda>extra. case extra of
         None \<Rightarrow> returnS ()
       | Some extra_buf \<Rightarrow>
           thenS (whenS (is_pxe options) (setS (\<lambda>st. st\<lparr>uuidpool := (uuidpool st)(take 6 (b_chaddr buf) := map_option tl (options 97))\<rparr>)))
             (thenS (setS (\<lambda>st. st\<lparr>replies := replies st @ [(addr, pkt @ extra_buf)]\<rparr>)) moved)))"

definition deliver ::
  "boot_host \<Rightarrow> boot_server \<Rightarrow> tags \<Rightarrow> nat option \<Rightarrow> string \<Rightarrow> string option \<Rightarrow> string \<times> string \<Rightarrow> unit bmethod \<Rightarrow>
   ip \<times> (ip \<times> nat) \<times> boot_packet \<Rightarrow> unit bmethod" where
  "deliver h srv options dhcp_msg_type mac_str uuid_str hf moved x =
     (case x of (ip, addr, buf) \<Rightarrow>
      case dhcp_msg_type of
        None \<Rightarrow> returnS ()
      | Some m \<Rightarrow>
          if m = DHCP_RELEASE then
            whenS (notify srv \<noteq> []) (send_notice srv (notice ''RELEASE'' uuid_str mac_str ip))
          else case reply_type m of
              None \<Rightarrow> returnS ()
            | Some dhcp_reply \<Rightarrow>
                thenS (whenS (notify srv \<noteq> [] \<and> m = DHCP_REQUEST)
                         (send_notice srv (notice (if options 97 \<noteq> None then ''BOOT'' else ''LEASE'') uuid_str mac_str ip)))
                  (thenS (whenS (snd hf \<noteq> []) (setS (\<lambda>st. st\<lparr>filepool := (filepool st)(ip \<mapsto> snd hf)\<rparr>)))
                     (send_reply h srv options (fill_server srv buf) addr dhcp_reply (fst hf) moved)))"

definition answer ::
  "boot_host \<Rightarrow> boot_server \<Rightarrow> ip \<times> nat \<Rightarrow> boot_packet \<Rightarrow> tags \<Rightarrow> nat option \<Rightarrow> string \<Rightarrow> string option \<Rightarrow>
   string \<times> string \<Rightarrow> unit bmethod \<Rightarrow> unit bmethod" where
  "answer h srv addr buf options dhcp_msg_type mac_str uuid_str hf moved =
     bindS (assign_address srv mac_str addr buf) (deliver h srv options dhcp_msg_type mac_str uuid_str hf moved)"

definition handle_options ::
  "boot_host \<Rightarrow> boot_server \<Rightarrow> ip \<times> nat \<Rightarrow> boot_packet \<Rightarrow> tags \<Rightarrow> unit bmethod" where
  "handle_options h srv addr buf options =
     bindS (liftS (message_type options)) (\<lambda>dhcp_msg_type.
     let mac_addr = take 6 (b_chaddr buf); mac_str = mac_string mac_addr; pxe = is_pxe options in
     bindS (getS (request_uuid options mac_addr)) (\<lambda>uuid.
     let uuid_str = map_option uuid_string uuid in
     thenS (setS (\<lambda>st. if states st mac_str = None then st\<lparr>states := (states st)(mac_str \<mapsto> ST_IDLE)\<rparr> else st))
     (bindS (getS (\<lambda>st. the (states st mac_str))) (\<lambda>currentstate.
     let newstate = next_state pxe dhcp_msg_type currentstate;
         moved = whenS (currentstate \<noteq> newstate) (setS (\<lambda>st. st\<lparr>states := (states st)(mac_str \<mapsto> newstate)\<rparr>)) in
     if newstate = ST_IDLE \<and> \<not> simple_dhcp srv then returnS ()
     else bindS (check_access h srv pxe mac_str uuid_str (currentstate \<noteq> newstate)) (\<lambda>granted. case granted of
         None \<Rightarrow> returnS ()
       | Some hf \<Rightarrow> answer h srv addr buf options dhcp_msg_type mac_str uuid_str hf moved)))))"

text \<open>\<^verbatim>\<open>handle\<close>; the result is missing if the parser of options does not return.\<close>

definition handle :: "boot_host \<Rightarrow> boot_server \<Rightarrow> ip \<times> nat \<Rightarrow> bytes \<Rightarrow> boot_state \<Rightarrow> (unit res \<times> boot_state) option" where
  "handle h srv addr data st =
     (case unpack_packet (take DHCPFormatSize data) of
        Inl e \<Rightarrow> Some (Inl e, st)
      | Inr buf \<Rightarrow>
          if hd (b_head buf) \<noteq> 1 then Some (Inr (), st)
          else case boot_options (drop DHCPFormatSize data) Map.empty of
            None \<Rightarrow> None
          | Some (Inl e) \<Rightarrow> Some (Inl e, st)
          | Some (Inr None) \<Rightarrow> Some (Inr (), st)
          | Some (Inr (Some options)) \<Rightarrow> Some (handle_options h srv addr buf options st))"

text \<open>\<^verbatim>\<open>forever\<close>: exceptions are logged and the next datagram is handled; nothing follows a parser that hangs.\<close>

fun boot_run :: "boot_host \<Rightarrow> boot_server \<Rightarrow> ((ip \<times> nat) \<times> bytes) list \<Rightarrow> boot_state \<Rightarrow> boot_state option" where
  "boot_run h srv [] st = Some st"
| "boot_run h srv ((addr, data) # reqs) st =
     (case handle h srv addr (take 556 data) st of
        None \<Rightarrow> None
      | Some (r, st1) \<Rightarrow> boot_run h srv reqs st1)"

definition get_filename :: "boot_state \<Rightarrow> ip \<Rightarrow> string" where
  "get_filename st ip = (case filepool st ip of None \<Rightarrow> [] | Some f \<Rightarrow> f)"

end
