(* ===== verification/PxeProperties.thy ===== *)
theory PxeProperties
  imports Pxe
begin

text \<open>
  The address pool of the boot server stays a bijection between machines and addresses whatever requests arrive,
  replies carry the addresses of the pool, and what a client reads out of a reply.
\<close>

section \<open>Fields of packets\<close>

definition packet_wf :: "boot_packet \<Rightarrow> bool" where
  "packet_wf b \<longleftrightarrow> length (b_head b) = 4 \<and> length (b_xid b) = 4 \<and> length (b_secs b) = 2 \<and> length (b_flags b) = 2 \<and>
     length (b_ciaddr b) = 4 \<and> length (b_yiaddr b) = 4 \<and> length (b_siaddr b) = 4 \<and> length (b_giaddr b) = 4 \<and>
     length (b_chaddr b) = 16 \<and> length (b_vend b) = 4"

lemma length_pack_s [simp]: "length (pack_s n bs) = n"
  by (simp add: pack_s_def)

lemma length_ip_bytes [simp]: "length (ip_bytes a) = 4"
  by (simp add: ip_bytes_def)

lemma ip_of_ip_bytes [simp]: "ip_of_bytes (ip_bytes a) = a"
proof -
  have "unat a < 256 ^ 4" using unsigned_less [of a] by simp
  then show ?thesis by (simp add: ip_of_bytes_def ip_bytes_def be_val_be_bytes)
qed

lemma unpack_packet_wf: "unpack_packet d = Inr b \<Longrightarrow> packet_wf b"
  by (auto simp: unpack_packet_def packet_wf_def DHCPFormatSize_def split: if_splits)

lemma slice_skip: "length xs \<le> i \<Longrightarrow> slice i j (xs @ ys) = slice (i - length xs) (j - length xs) ys"
  by (simp add: slice_def)

lemma slice_here: "length xs = j \<Longrightarrow> slice 0 j (xs @ ys) = xs"
  by (simp add: slice_def)

lemma pack_packet_fields:
  assumes "packet_wf b"
  shows "length (pack_packet b) = 240" "slice 12 16 (pack_packet b @ rest) = b_ciaddr b"
    "slice 16 20 (pack_packet b @ rest) = b_yiaddr b" "slice 28 34 (pack_packet b @ rest) = take 6 (b_chaddr b)"
  using assms
  by (simp_all add: packet_wf_def pack_packet_def slice_skip slice_here slice_prefix) (simp add: slice_def)

section \<open>The pool\<close>

definition in_pool :: "boot_server \<Rightarrow> ip \<Rightarrow> bool" where
  "in_pool srv ip \<longleftrightarrow> (\<exists>idx < nat (pool_count srv). unat ip = unat (pool_start srv) + idx)"

definition pool_inv :: "boot_server \<Rightarrow> boot_state \<Rightarrow> bool" where
  "pool_inv srv st \<longleftrightarrow> distinct (map fst (ippool st)) \<and> distinct (map snd (ippool st)) \<and> (\<forall>ip \<in> snd ` set (ippool st). in_pool srv ip)"

lemma unat_pool: "unat start + idx < 2 ^ 32 \<Longrightarrow> unat ((start :: ip) + word_of_nat idx) = unat start + idx"
  by (simp add: unat_word_ariths unat_of_nat)

lemma pool_loop_finds:
  assumes "pool_loop start used idxs = Inr (Some ip)"
  shows "ip \<notin> set used \<and> (\<exists>idx \<in> set idxs. unat ip = unat start + idx)"
  using assms
proof (induction idxs)
  case (Cons i idxs)
  then show ?case using unat_pool [of start i] by (auto simp: Let_def not_le split: if_splits)
qed simp

lemma pool_loop_full:
  assumes "\<And>i. i \<in> set idxs \<Longrightarrow> unat start + i < 2 ^ 32"
  shows "pool_loop start used idxs = Inr None \<longleftrightarrow> (\<forall>i \<in> set idxs. start + word_of_nat i \<in> set used)"
    and "\<exists>r. pool_loop start used idxs = Inr r"
  using assms
proof (induction idxs)
  case (Cons i idxs)
  case 1
  have "\<not> 2 ^ 32 \<le> unat start + i" using 1 [of i] by simp
  then show ?case using Cons 1 by (auto simp: Let_def)
next
  case (Cons i idxs)
  case 2
  have "\<not> 2 ^ 32 \<le> unat start + i" using 2 [of i] by simp
  then show ?case using Cons 2 by (auto simp: Let_def)
qed auto

lemma lease_result:
  assumes "lease srv mac st = (r, st')"
  shows "(\<exists>ip. r = Inr ip \<and> map_of (ippool st') mac = Some ip \<and> (st' = st \<or>
      (st' = st\<lparr>ippool := (mac, ip) # ippool st\<rparr> \<and> map_of (ippool st) mac = None \<and> ip \<notin> set (map snd (ippool st)) \<and> in_pool srv ip)))
    \<or> (\<exists>e. r = Inl e \<and> st' = st)"
proof (cases "map_of (ippool st) mac")
  case (Some ip)
  then show ?thesis using assms by (auto simp: lease_def)
next
  case None
  let ?loop = "pool_loop (pool_start srv) (map snd (ippool st)) [0..<nat (pool_count srv)]"
  show ?thesis
  proof (cases "\<exists>ip. ?loop = Inr (Some ip)")
    case True
    then obtain ip where ip: "?loop = Inr (Some ip)" by blast
    then have "in_pool srv ip" using pool_loop_finds [OF ip] by (auto simp: in_pool_def)
    then show ?thesis using assms None ip pool_loop_finds [OF ip] by (auto simp: lease_def)
  next
    case False
    then show ?thesis using assms None by (cases ?loop) (auto simp: lease_def split: option.splits)
  qed
qed

lemma lease_states: "lease srv mac (st\<lparr>states := s\<rparr>) = (fst (lease srv mac st), (snd (lease srv mac st))\<lparr>states := s\<rparr>)"
  by (cases "pool_loop (pool_start srv) (map snd (ippool st)) [0..<nat (pool_count srv)]")
    (auto simp: lease_def split: option.split)

lemma keeps_lease:
  assumes "\<And>st ip. P st \<Longrightarrow> map_of (ippool st) mac = None \<Longrightarrow> ip \<notin> set (map snd (ippool st)) \<Longrightarrow> in_pool srv ip \<Longrightarrow>
    P (st\<lparr>ippool := (mac, ip) # ippool st\<rparr>)"
  shows "keeps P (lease srv mac)"
proof
  fix st
  assume "P st"
  then show "P (snd (lease srv mac st))"
    using assms lease_result [of srv mac st "fst (lease srv mac st)" "snd (lease srv mac st)"] by auto
qed

section \<open>Replies\<close>

text \<open>
  Everything but the lease leaves the pool alone: the steps of a request, under an invariant that looks at pool
  and replies only.
\<close>

definition pool_only :: "((string \<times> ip) list \<Rightarrow> ((ip \<times> nat) \<times> bytes) list \<Rightarrow> bool) \<Rightarrow> boot_state \<Rightarrow> bool" where
  "pool_only P st \<longleftrightarrow> P (ippool st) (replies st)"

lemma keeps_check_access: "keeps (pool_only P) (check_access h srv pxe mac uuid changes)"
  unfolding check_access_def Let_def
  by (auto intro!: keeps_intros simp: pool_only_def split: option.split access_mode.split)

lemma keeps_send_notice: "keeps (pool_only P) (send_notice srv msg)"
  unfolding send_notice_def by (intro keeps_intros) (simp add: pool_only_def)

lemma keeps_send_reply:
  assumes "\<And>pool rs pkt extra. P pool rs \<Longrightarrow> build_reply h srv buf dhcp_reply = Inr pkt \<Longrightarrow> P pool (rs @ [(addr, pkt @ extra)])"
    and "keeps (pool_only P) moved"
  shows "keeps (pool_only P) (send_reply h srv options buf addr dhcp_reply hostname moved)"
  unfolding send_reply_def using assms
  by (intro keeps_lift) (auto intro!: keeps_intros simp: pool_only_def split: option.split)

definition reply_inv :: "boot_server \<Rightarrow> (string \<times> ip) list \<Rightarrow> ((ip \<times> nat) \<times> bytes) list \<Rightarrow> bool" where
  "reply_inv srv pool rs \<longleftrightarrow>
     distinct (map fst pool) \<and> distinct (map snd pool) \<and> (\<forall>ip \<in> snd ` set pool. in_pool srv ip) \<and>
     (\<forall>(a, r) \<in> set rs. 240 \<le> length r \<and> (slice 12 16 r = [0, 0, 0, 0] \<longrightarrow>
        map_of pool (mac_string (slice 28 34 r)) = Some (ip_of_bytes (slice 16 20 r))))"

lemma reply_inv_lease:
  assumes "reply_inv srv pool rs" and "map_of pool mac = None" and "ip \<notin> set (map snd pool)" and "in_pool srv ip"
  shows "reply_inv srv ((mac, ip) # pool) rs"
proof -
  have "map_of ((mac, ip) # pool) m = Some y" if "map_of pool m = Some y" for m y using that assms(2) by auto
  then show ?thesis using assms unfolding reply_inv_def by (auto simp: map_of_eq_None_iff simp del: map_of.simps)
qed

lemma build_reply_front: "build_reply h srv buf m = Inr pkt \<Longrightarrow> \<exists>rest. pkt = pack_packet buf @ rest"
  by (auto simp: build_reply_def Let_def res_simps)

lemma fill_server_fields [simp]:
  "b_ciaddr (fill_server srv b) = b_ciaddr b" "b_yiaddr (fill_server srv b) = b_yiaddr b" "b_chaddr (fill_server srv b) = b_chaddr b"
  "packet_wf b \<Longrightarrow> packet_wf (fill_server srv b)"
  by (auto simp: fill_server_def Let_def packet_wf_def)

text \<open>What is known of a client after it got an address.\<close>

definition assigned :: "boot_packet \<Rightarrow> string \<Rightarrow> ip \<times> (ip \<times> nat) \<times> boot_packet \<Rightarrow> (string \<times> ip) list \<Rightarrow> bool" where
  "assigned buf mac x pool \<longleftrightarrow>
     (case x of (ip, addr1, buf1) \<Rightarrow> packet_wf buf1 \<and> b_chaddr buf1 = b_chaddr buf \<and> b_ciaddr buf1 = b_ciaddr buf \<and>
        (b_ciaddr buf = [0, 0, 0, 0] \<longrightarrow> map_of pool mac = Some ip \<and> b_yiaddr buf1 = ip_bytes ip))"

lemma assign_address_assigned:
  assumes "packet_wf buf" and "assign_address srv mac addr buf st = (Inr x, st')"
  shows "assigned buf mac x (ippool st')"
proof (cases "b_ciaddr buf = [0, 0, 0, 0]")
  case True
  then obtain ip where "lease srv mac st = (Inr ip, st')"
    "x = (ip, (broadcast ip (net_mask (netconfig srv)), snd addr), buf\<lparr>b_yiaddr := ip_bytes ip, b_secs := [0, 0], b_flags := [0, 0]\<rparr>)"
    using assms(2) by (auto simp: assign_address_def bindS_Inr_iff)
  then show ?thesis using lease_result [of srv mac st "Inr ip" st'] assms(1) by (auto simp: assigned_def packet_wf_def)
next
  case False
  then show ?thesis using assms by (auto simp: assign_address_def assigned_def packet_wf_def)
qed

lemma keeps_assign_address:
  "keeps (pool_only (reply_inv srv)) (assign_address srv mac addr buf)"
  unfolding assign_address_def
  by (intro keeps_intros keeps_lease) (simp add: pool_only_def reply_inv_lease)

lemma reply_inv_send:
  assumes "assigned buf (mac_string (take 6 (b_chaddr buf))) (ip, addr1, buf1) pool" and "reply_inv srv pool rs"
    and "build_reply h srv (fill_server srv buf1) m = Inr pkt"
  shows "reply_inv srv pool (rs @ [(addr1, pkt @ extra)])"
proof -
  obtain rest where "pkt = pack_packet (fill_server srv buf1) @ rest" using build_reply_front [OF assms(3)] by blast
  then have "slice 12 16 (pkt @ extra) = b_ciaddr buf1" "slice 16 20 (pkt @ extra) = b_yiaddr buf1"
    "slice 28 34 (pkt @ extra) = take 6 (b_chaddr buf1)"
    "240 \<le> length (pkt @ extra)"
    using assms(1) pack_packet_fields(2-4) [of "fill_server srv buf1" "rest @ extra"] pack_packet_fields(1) [of "fill_server srv buf1"]
    by (auto simp: assigned_def)
  then show ?thesis using assms(1,2) by (auto simp: reply_inv_def assigned_def)
qed

lemma keeps_answer:
  assumes "packet_wf buf" and "\<And>P. keeps (pool_only P) moved"
  shows "keeps (pool_only (reply_inv srv))
    (answer h srv addr buf options dhcp_msg_type (mac_string (take 6 (b_chaddr buf))) uuid_str hf moved)"
  unfolding answer_def
proof (rule keeps_bind_post [where Q = "\<lambda>x st. assigned buf (mac_string (take 6 (b_chaddr buf))) x (ippool st)"])
  fix st
  assume "pool_only (reply_inv srv) st"
  then show "pool_only (reply_inv srv) (snd (assign_address srv (mac_string (take 6 (b_chaddr buf))) addr buf st)) \<and>
    (\<forall>x. fst (assign_address srv (mac_string (take 6 (b_chaddr buf))) addr buf st) = Inr x \<longrightarrow>
       assigned buf (mac_string (take 6 (b_chaddr buf))) x (ippool (snd (assign_address srv (mac_string (take 6 (b_chaddr buf))) addr buf st))))"
    using assign_address_assigned [OF assms(1)] keepsD [OF keeps_assign_address] by (metis prod.collapse)
next
  fix x :: "ip \<times> (ip \<times> nat) \<times> boot_packet"
  obtain ip addr1 buf1 where x: "x = (ip, addr1, buf1)" by (cases x) auto
  let ?P = "\<lambda>pool rs. reply_inv srv pool rs \<and> assigned buf (mac_string (take 6 (b_chaddr buf))) (ip, addr1, buf1) pool"
  have "keeps (pool_only ?P) (deliver h srv options dhcp_msg_type (mac_string (take 6 (b_chaddr buf))) uuid_str hf moved (ip, addr1, buf1))"
    unfolding deliver_def prod.case
    by (intro keeps_intros keeps_send_notice keeps_send_reply assms(2)) (auto simp: pool_only_def intro: reply_inv_send)
  moreover have "(\<lambda>s. pool_only (reply_inv srv) s \<and> assigned buf (mac_string (take 6 (b_chaddr buf))) x (ippool s)) = pool_only ?P"
    by (auto simp: fun_eq_iff pool_only_def x)
  ultimately show "keeps (\<lambda>s. pool_only (reply_inv srv) s \<and> assigned buf (mac_string (take 6 (b_chaddr buf))) x (ippool s))
    (deliver h srv options dhcp_msg_type (mac_string (take 6 (b_chaddr buf))) uuid_str hf moved x)" using x by simp
qed

lemma keeps_handle_options:
  assumes "\<And>m uuid hf moved. (\<And>Q. keeps (pool_only Q) moved) \<Longrightarrow>
    keeps (pool_only P) (answer h srv addr buf options m (mac_string (take 6 (b_chaddr buf))) uuid hf moved)"
  shows "keeps (pool_only P) (handle_options h srv addr buf options)"
  unfolding handle_options_def Let_def
  by (intro keeps_intros keeps_check_access assms) (auto simp: pool_only_def)

lemma handle_keeps:
  assumes "\<And>buf options. packet_wf buf \<Longrightarrow> keeps Q (handle_options h srv addr buf options)"
    and "Q st" and "handle h srv addr data st = Some (r, st')"
  shows "Q st'"
proof (cases "unpack_packet (take DHCPFormatSize data)")
  case (Inl e)
  then show ?thesis using assms(2,3) by (simp add: handle_def)
next
  case (Inr buf)
  have "Q (snd (handle_options h srv addr buf options st))" for options
    using keepsD [OF assms(1) [OF unpack_packet_wf [OF Inr]]] assms(2) by blast
  then show ?thesis using assms(2,3) Inr by (auto simp: handle_def split: if_splits option.splits sum.splits) (metis snd_conv)
qed

lemma boot_run_keeps:
  assumes "\<And>addr buf options. packet_wf buf \<Longrightarrow> keeps Q (handle_options h srv addr buf options)"
    and "Q st" and "boot_run h srv reqs st = Some st'"
  shows "Q st'"
  using assms(2,3)
proof (induction reqs arbitrary: st)
  case (Cons req reqs)
  obtain addr data where req: "req = (addr, data)" by fastforce
  then obtain r st1 where "handle h srv addr (take 556 data) st = Some (r, st1)" "boot_run h srv reqs st1 = Some st'"
    using Cons.prems(2) by (auto split: option.splits)
  then show ?case using handle_keeps [OF assms(1) Cons.prems(1)] Cons.IH by blast
qed simp

lemma reply_inv_handle: "packet_wf buf \<Longrightarrow> keeps (pool_only (reply_inv srv)) (handle_options h srv addr buf options)"
  by (intro keeps_handle_options keeps_answer)

lemma keeps_answer_lease:
  assumes "\<And>Q. keeps (pool_only Q) moved"
  shows "keeps (pool_only (\<lambda>pool rs. map_of pool m0 = Some ip0))
    (answer h srv addr buf options m mac uuid hf moved)"
  unfolding answer_def deliver_def assign_address_def
  by (intro keeps_intros keeps_lease keeps_send_notice keeps_send_reply assms)
    (auto simp: pool_only_def split: prod.split intro!: keeps_intros keeps_send_notice keeps_send_reply assms)

lemma mac_string_inj:
  assumes "length m = 6" and "length n = 6" and "mac_string m = mac_string n"
  shows "m = n"
proof -
  have digit: "hex_char a = hex_char b \<longleftrightarrow> a = b" if "a < 16" "b < 16" for a b
    using that by (auto simp: hex_char_def digit_char_def dest!: arg_cong [where f = "of_char :: char \<Rightarrow> nat"] split: if_splits)
  have byte: "hex_byte a = hex_byte b \<longleftrightarrow> a = b" for a b :: byte
  proof -
    have "unat x div 16 < 16" for x :: byte using unat_byte_less [of x] by linarith
    then have "hex_byte a = hex_byte b \<longleftrightarrow> unat a = unat b"
      using digit by (auto simp: hex_byte_def) (metis div_mod_decomp)
    then show ?thesis by (simp add: unsigned_word_eqI word_unat_eq_iff)
  qed
  have len: "length (hex_byte b) = 2" for b by (simp add: hex_byte_def)
  obtain a0 a1 a2 a3 a4 a5 where m: "m = [a0, a1, a2, a3, a4, a5]" using assms(1) by (auto simp: length_Suc_conv numeral_eq_Suc)
  obtain b0 b1 b2 b3 b4 b5 where n: "n = [b0, b1, b2, b3, b4, b5]" using assms(2) by (auto simp: length_Suc_conv numeral_eq_Suc)
  show ?thesis using assms(3) len byte by (simp add: m n mac_string_def)
qed

section \<open>Options\<close>

lemma boot_options_end: "boot_options (255 # rest) tags = Some (Inr (Some tags))"
  by (subst boot_options.simps) simp

lemma boot_options_option:
  assumes "tag \<in> set DHCP_OPTIONS" and "0 < tag" and "tag < 255" and "length v < 256"
  shows "boot_options (dhcp_option_bytes tag v @ rest) tags = boot_options rest (tags(tag \<mapsto> v))"
proof -
  have "unat (word_of_nat tag :: byte) = tag" "unat (word_of_nat (length v) :: byte) = length v"
    using assms(3,4) by (simp_all add: unat_byte_of_nat)
  then show ?thesis using assms by (subst boot_options.simps) (simp add: dhcp_option_bytes_def slice_def Let_def)
qed

lemma boot_options_padding:
  assumes "boot_options tail tags = Some r"
  shows "tail = [] \<or> hd tail \<noteq> 0"
  by (rule boot_options.raw_induct [OF _ assms]) (force simp: Let_def split: if_splits)

lemma boot_options_hangs: "boot_options (0 # rest) tags = None"
  using boot_options_padding [of "0 # rest" tags] by (cases "boot_options (0 # rest) tags") auto

lemma dns_option_bytes: "dns_option h srv = Inr dns \<Longrightarrow> dns = [] \<or> (\<exists>a. dns = dhcp_option_bytes 6 (ip_bytes a))"
  by (auto simp: dns_option_def Let_def res_simps split: if_splits)

text \<open>What a client reads out of a reply does not depend on what stands behind the end option.\<close>

lemma reply_read_back:
  assumes "build_reply h srv buf m = Inr pkt" and "packet_wf buf"
  shows "\<exists>tags. (\<forall>extra. boot_options (drop 240 (pkt @ extra)) Map.empty = Some (Inr (Some tags))) \<and>
    tags 53 = Some [word_of_nat m] \<and> tags 54 = Some (ip_bytes (net_server (netconfig srv))) \<and>
    tags 1 = Some (ip_bytes (net_mask (netconfig srv))) \<and> tags 3 = Some (ip_bytes (net_server (netconfig srv))) \<and>
    dom tags \<subseteq> {1, 3, 6, 51, 53, 54}"
proof -
  let ?server = "ip_bytes (net_server (netconfig srv))" and ?mask = "ip_bytes (net_mask (netconfig srv))"
  obtain dns t lease_time where p: "dns_option h srv = Inr dns" "pack_I t = Inr lease_time"
    "pkt = pack_packet buf @ dhcp_option_bytes 53 [word_of_nat m] @ dhcp_option_bytes 54 ?server @ dhcp_option_bytes 1 ?mask @
       dhcp_option_bytes 3 ?server @ dns @ dhcp_option_bytes 51 lease_time @ [255, 0]"
    using assms(1) by (auto simp: build_reply_def Let_def res_simps)
  have len: "length lease_time = 4" using p(2) by (auto simp: pack_I_def split: if_splits)
  have known: "t \<in> set DHCP_OPTIONS" if "t \<in> {1, 3, 6, 51, 53, 54}" for t using that by (auto simp: DHCP_OPTIONS_def)
  have body: "drop 240 (pkt @ extra) = dhcp_option_bytes 53 [word_of_nat m] @ dhcp_option_bytes 54 ?server @ dhcp_option_bytes 1 ?mask @
       dhcp_option_bytes 3 ?server @ dns @ dhcp_option_bytes 51 lease_time @ 255 # 0 # extra" for extra
    using pack_packet_fields(1) [OF assms(2)] by (simp add: p(3))
  let ?t = "[53 \<mapsto> [word_of_nat m], 54 \<mapsto> ?server, 1 \<mapsto> ?mask, 3 \<mapsto> ?server]"
  have tail: "boot_options (dhcp_option_bytes 51 lease_time @ 255 # 0 # extra) tags = Some (Inr (Some (tags(51 \<mapsto> lease_time))))" for extra tags
    using boot_options_option [of 51 lease_time] known len boot_options_end by simp
  have run: "boot_options (drop 240 (pkt @ extra)) Map.empty = boot_options (dns @ dhcp_option_bytes 51 lease_time @ 255 # 0 # extra) ?t" for extra
    unfolding body using known by (simp add: boot_options_option)
  from dns_option_bytes [OF p(1)] show ?thesis
  proof
    assume "dns = []"
    then show ?thesis using run tail by (intro exI [of _ "?t(51 \<mapsto> lease_time)"]) auto
  next
    assume "\<exists>a. dns = dhcp_option_bytes 6 (ip_bytes a)"
    then obtain a where a: "dns = dhcp_option_bytes 6 (ip_bytes a)" by blast
    then have "boot_options (drop 240 (pkt @ extra)) Map.empty = Some (Inr (Some (?t(6 \<mapsto> ip_bytes a, 51 \<mapsto> lease_time))))" for extra
      using run known tail by (simp add: boot_options_option)
    then show ?thesis by (intro exI [of _ "?t(6 \<mapsto> ip_bytes a, 51 \<mapsto> lease_time)"]) auto
  qed
qed

text \<open>A machine whose firmware looks for a server.\<close>

lemma discover_offered:
  assumes "packet_wf buf" and "b_ciaddr buf = [0, 0, 0, 0]" and "mac = mac_string (take 6 (b_chaddr buf))"
    and "options 53 = Some [1]" and "is_pxe options" and "options 60 = Some class" and "access srv = None"
    and "states st mac \<noteq> Some ST_DHCP" and "fst (lease srv mac st) = Inr ip"
    and "\<And>b. \<exists>pkt. build_reply h srv b DHCP_OFFER = Inr pkt"
  shows "\<exists>st' r tags. handle_options h srv addr buf options st = (Inr (), st') \<and> states st' mac = Some ST_PXE \<and>
    map_of (ippool st') mac = Some ip \<and> replies st' = replies st @ [((broadcast ip (net_mask (netconfig srv)), snd addr), r)] \<and>
    slice 16 20 r = ip_bytes ip \<and> boot_options (drop 240 r) Map.empty = Some (Inr (Some tags)) \<and> tags 53 = Some [2] \<and>
    tags 54 = Some (ip_bytes (net_server (netconfig srv))) \<and> tags 1 = Some (ip_bytes (net_mask (netconfig srv))) \<and>
    tags 43 = None \<and> tags 60 = None \<and> tags 97 = None"
proof -
  let ?buf = "fill_server srv (buf\<lparr>b_yiaddr := ip_bytes ip, b_secs := [0, 0], b_flags := [0, 0]\<rparr>)"
  obtain uuid where uuid: "options 97 = Some uuid" using assms(5) by (auto simp: is_pxe_def split: option.splits)
  obtain extra where extra: "build_pxe_options options (net_server (netconfig srv)) = Some extra"
    using uuid assms(6) by (simp add: build_pxe_options_def)
  obtain pkt where pkt: "build_reply h srv ?buf DHCP_OFFER = Inr pkt" using assms(10) by blast
  have wf: "packet_wf ?buf" using assms(1) by (intro fill_server_fields) (simp add: packet_wf_def)
  obtain tags where tags: "boot_options (drop 240 (pkt @ extra)) Map.empty = Some (Inr (Some tags))" "tags 53 = Some [2]"
    "tags 54 = Some (ip_bytes (net_server (netconfig srv)))" "tags 1 = Some (ip_bytes (net_mask (netconfig srv)))"
    "dom tags \<subseteq> {1, 3, 6, 51, 53, 54}" using reply_read_back [OF pkt wf] by (auto simp: messages)
  have tags2: "tags 43 = None" "tags 60 = None" "tags 97 = None" using tags(5) by (auto simp: subset_iff domIff)
  define current where "current = (case states st mac of None \<Rightarrow> ST_IDLE | Some s \<Rightarrow> s)"
  let ?st0 = "st\<lparr>states := (states st)(mac \<mapsto> current)\<rparr>"
  define moved :: "unit bmethod" where
    "moved = whenS (current \<noteq> ST_PXE) (setS (\<lambda>st. st\<lparr>states := (states st)(mac \<mapsto> ST_PXE)\<rparr>))"
  have st0: "(if states st mac = None then st\<lparr>states := (states st)(mac \<mapsto> ST_IDLE)\<rparr> else st) = ?st0"
    by (auto simp: current_def fun_upd_idem split: option.split)
  have "next_state True (Some 1) current = ST_PXE" using assms(8)
    by (auto simp: next_state_def current_def messages split: option.splits client_state.splits)
  then have "handle_options h srv addr buf options st =
      answer h srv addr buf options (Some 1) mac (map_option uuid_string (request_uuid options (take 6 (b_chaddr buf)) ?st0)) ([], []) moved ?st0"
    using assms(4,5,7)
    by (simp add: handle_options_def message_type_def index_at_def Let_def check_access_def moved_def request_uuid_def
        assms(3) [symmetric] st0 del: One_nat_def split del: if_split cong: if_cong)
  moreover obtain st2 where st2: "lease srv mac ?st0 = (Inr ip, st2\<lparr>states := (states st)(mac \<mapsto> current)\<rparr>)"
      "replies st2 = replies st" "map_of (ippool st2) mac = Some ip"
    using assms(9) lease_states [where srv = srv and mac = mac and st = st] lease_result [of srv mac st "Inr ip"] by (cases "lease srv mac st") auto
  ultimately have "handle_options h srv addr buf options st = (Inr (), snd (moved (st2\<lparr>states := (states st)(mac \<mapsto> current),
      uuidpool := (uuidpool st2)(take 6 (b_chaddr buf) := map_option tl (options 97)),
      replies := replies st @ [((broadcast ip (net_mask (netconfig srv)), snd addr), pkt @ extra)]\<rparr>)))"
    using assms(2,5) pkt extra
    by (simp add: answer_def assign_address_def deliver_def send_reply_def messages reply_type_def bindS_def thenS_def moved_def)
  moreover have "slice 16 20 (pkt @ extra) = ip_bytes ip"
    using build_reply_front [OF pkt] pack_packet_fields(3) [OF wf] by auto
  ultimately show ?thesis using tags tags2 st2(3) by (auto simp: moved_def)
qed

section \<open>Properties\<close>

text \<open>
  After any sequence of requests the pool has no machine and no address twice and only addresses of the
  configured range; every reply to a client without an address carries the address that the pool has for the
  hardware address in the reply; so two machines are never given the same address.
\<close>

theorem addresses_never_shared:
  assumes "boot_run h srv reqs boot_state_init = Some st"
  shows "distinct (map fst (ippool st)) \<and> distinct (map snd (ippool st)) \<and> (\<forall>ip \<in> snd ` set (ippool st). in_pool srv ip) \<and>
    (\<forall>(a, r) \<in> set (replies st). \<forall>(b, q) \<in> set (replies st).
       slice 12 16 r = [0, 0, 0, 0] \<and> slice 12 16 q = [0, 0, 0, 0] \<longrightarrow>
       ip_of_bytes (slice 16 20 r) = ip_of_bytes (slice 16 20 q) \<longleftrightarrow> slice 28 34 r = slice 28 34 q)"
proof -
  have "reply_inv srv (ippool boot_state_init) (replies boot_state_init)" by (simp add: boot_state_init_def reply_inv_def)
  then have inv: "reply_inv srv (ippool st) (replies st)"
    using boot_run_keeps [OF reply_inv_handle _ assms] by (auto simp: pool_only_def)
  have inj: "m = n" if "map_of (ippool st) m = Some ip" "map_of (ippool st) n = Some ip" for m n ip
  proof -
    have "inj_on snd (set (ippool st))" using inv by (simp add: reply_inv_def distinct_map)
    then show ?thesis using inj_onD [of snd "set (ippool st)" "(m, ip)" "(n, ip)"] that [THEN map_of_SomeD] by auto
  qed
  have "ip_of_bytes (slice 16 20 r) = ip_of_bytes (slice 16 20 q) \<longleftrightarrow> slice 28 34 r = slice 28 34 q"
    if "(a, r) \<in> set (replies st)" "(b, q) \<in> set (replies st)" "slice 12 16 r = [0, 0, 0, 0]" "slice 12 16 q = [0, 0, 0, 0]" for a r b q
  proof -
    have "map_of (ippool st) (mac_string (slice 28 34 r)) = Some (ip_of_bytes (slice 16 20 r))"
      "map_of (ippool st) (mac_string (slice 28 34 q)) = Some (ip_of_bytes (slice 16 20 q))"
      "240 \<le> length r" "240 \<le> length q"
      using inv that by (auto simp: reply_inv_def)
    then show ?thesis using inj mac_string_inj [of "slice 28 34 r" "slice 28 34 q"] by auto
  qed
  then show ?thesis using inv by (fastforce simp: reply_inv_def)
qed

text \<open>
  An address once given to a machine stays with it: no request takes it away or changes it, a release included.
\<close>

theorem leases_are_permanent:
  assumes "boot_run h srv reqs st = Some st'" and "map_of (ippool st) mac = Some ip"
  shows "map_of (ippool st') mac = Some ip"
  using boot_run_keeps [OF keeps_handle_options [OF keeps_answer_lease, of mac ip], OF _ _ assms(1)] assms(2)
  by (auto simp: pool_only_def)

text \<open>
  A machine without an address is refused exactly if every address of the pool is taken: then the request
  raises and changes nothing; otherwise it is given an address.
\<close>

theorem lease_fails_iff_pool_full:
  assumes "map_of (ippool st) mac = None" and "unat (pool_start srv) + nat (pool_count srv) \<le> 2 ^ 32"
  shows "if \<forall>i < nat (pool_count srv). pool_start srv + word_of_nat i \<in> snd ` set (ippool st)
    then lease srv mac st = (Inl BootpError, st)
    else \<exists>ip. lease srv mac st = (Inr ip, st\<lparr>ippool := (mac, ip) # ippool st\<rparr>) \<and> ip \<notin> snd ` set (ippool st)"
proof -
  let ?loop = "pool_loop (pool_start srv) (map snd (ippool st)) [0..<nat (pool_count srv)]"
  have small: "unat (pool_start srv) + i < 2 ^ 32" if "i \<in> set [0..<nat (pool_count srv)]" for i
    using assms(2) that by simp
  obtain r where r: "?loop = Inr r" using pool_loop_full(2) [OF small] by blast
  have none: "r = None \<longleftrightarrow> (\<forall>i < nat (pool_count srv). pool_start srv + word_of_nat i \<in> snd ` set (ippool st))"
    using pool_loop_full(1) [of "[0..<nat (pool_count srv)]" "pool_start srv" "map snd (ippool st)", OF small] r by auto
  show ?thesis
  proof (cases r)
    case None
    then show ?thesis using none assms(1) r by (auto simp: lease_def)
  next
    case (Some ip)
    then have "ip \<notin> snd ` set (ippool st)" 
      using pool_loop_finds [of "pool_start srv" "map snd (ippool st)" "[0..<nat (pool_count srv)]" ip] r by auto
    moreover have "lease srv mac st = (Inr ip, st\<lparr>ippool := (mac, ip) # ippool st\<rparr>)" using Some assms(1) r by (simp add: lease_def)
    ultimately show ?thesis using Some none by auto
  qed
qed

text \<open>
  A padding byte among the options of a request makes the server hang: the parser does not move on, and no
  later request is answered.
\<close>

theorem padding_hangs_server:
  assumes "240 < length data" and "length data \<le> 556" and "hd data = 1" and "data ! 240 = 0"
  shows "boot_run h srv ((addr, data) # reqs) st = None"
proof -
  have "drop 240 data = 0 # drop 241 data" using assms(1,4) by (simp add: Cons_nth_drop_Suc [symmetric])
  moreover obtain b where "unpack_packet (take 240 data) = Inr b" "hd (b_head b) = 1"
    using assms(1,3) by (cases data) (auto simp: unpack_packet_def DHCPFormatSize_def slice_def)
  ultimately show ?thesis using boot_options_hangs assms(2) by (simp add: handle_def DHCPFormatSize_def)
qed

text \<open>
  A machine whose firmware looks for a server is offered an address and moves to the state of a booting
  machine.  The offer names the server, the mask and the gateway; the options for the firmware, which the code
  appends, stand behind the end option, so that a client does not see them.
\<close>

theorem discover_offered_without_pxe_options:
  assumes "packet_wf buf" and "b_ciaddr buf = [0, 0, 0, 0]" and "mac = mac_string (take 6 (b_chaddr buf))"
    and "options 53 = Some [1]" and "is_pxe options" and "options 60 = Some class" and "access srv = None"
    and "states st mac \<noteq> Some ST_DHCP" and "fst (lease srv mac st) = Inr ip"
    and "\<And>b. \<exists>pkt. build_reply h srv b DHCP_OFFER = Inr pkt"
  shows "\<exists>st' r tags. handle_options h srv addr buf options st = (Inr (), st') \<and> states st' mac = Some ST_PXE \<and>
    map_of (ippool st') mac = Some ip \<and> replies st' = replies st @ [((broadcast ip (net_mask (netconfig srv)), snd addr), r)] \<and>
    slice 16 20 r = ip_bytes ip \<and> boot_options (drop 240 r) Map.empty = Some (Inr (Some tags)) \<and> tags 53 = Some [2] \<and>
    tags 54 = Some (ip_bytes (net_server (netconfig srv))) \<and> tags 1 = Some (ip_bytes (net_mask (netconfig srv))) \<and>
    tags 43 = None \<and> tags 60 = None \<and> tags 97 = None"
  using assms by (rule discover_offered)

section \<open>Witnesses\<close>

definition demo_boot_host :: boot_host where
  "demo_boot_host = \<lparr>inet_aton = (\<lambda>s. Inl ValueError), netifaces = [], ask_host = (\<lambda>p m u i. Inr None), resolv_conf = None\<rparr>"

definition demo_boot_server :: boot_server where
  "demo_boot_server = \<lparr>pool_start = 0x0A000064, pool_count = 2,
     netconfig = \<lparr>ifname = ''eth0'', net_server = 0x0A000001, net_addr = 0x0A000000, net_mask = 0xFFFFFF00\<rparr>,
     notify = [], acl = Map.empty, access = None, config = []\<rparr>"

definition demo_discover :: "byte \<Rightarrow> bytes" where
  "demo_discover b = [1, 1, 6, 0] @ replicate 24 0 @ [0, 1, 2, 3, 4, b] @ replicate 10 0 @ replicate 192 0 @ [99, 130, 83, 99] @
     dhcp_option_bytes 53 [1] @ dhcp_option_bytes 97 (replicate 17 7) @ dhcp_option_bytes 60 (ascii ''PXE:x'') @ [255]"

definition demo_tags :: tags where
  "demo_tags = [53 \<mapsto> [1], 97 \<mapsto> replicate 17 7, 60 \<mapsto> ascii ''PXE:x'']"

definition demo_buf :: "byte \<Rightarrow> boot_packet" where
  "demo_buf b = \<lparr>b_head = [1, 1, 6, 0], b_xid = replicate 4 0, b_secs = replicate 2 0, b_flags = replicate 2 0, b_ciaddr = replicate 4 0,
     b_yiaddr = replicate 4 0, b_siaddr = replicate 4 0, b_giaddr = replicate 4 0,
     b_chaddr = [0, 1, 2, 3, 4, b] @ replicate 10 0, b_sname = replicate 64 0, b_file = replicate 128 0, b_vend = [99, 130, 83, 99]\<rparr>"

lemma demo_handle:
  "handle h srv addr (take 556 (demo_discover b)) st = Some (handle_options h srv addr (demo_buf b) demo_tags st)"
proof -
  have len: "length (demo_discover b) \<le> 556" by (simp add: demo_discover_def dhcp_option_bytes_def)
  have "unpack_packet (take 240 (demo_discover b)) = Inr (demo_buf b)"
    by (simp add: demo_discover_def unpack_packet_def DHCPFormatSize_def demo_buf_def slice_def)
  moreover have "boot_options (drop 240 (demo_discover b)) Map.empty = Some (Inr (Some demo_tags))"
    by (simp add: demo_discover_def boot_options_option boot_options_end DHCP_OPTIONS_def demo_tags_def)
  ultimately show ?thesis using len by (simp add: handle_def DHCPFormatSize_def demo_buf_def)
qed

lemma demo_reply: "\<exists>pkt. build_reply demo_boot_host demo_boot_server buf m = Inr pkt"
proof -
  have "py_int ''86400'' = Inr 86400"
    by (simp add: py_int_def strip_def isdigit_def is_digit_def is_space_def digit_val_def)
  then show ?thesis by (simp add: build_reply_def demo_boot_server_def ini_get_def dns_option_def no_text_def pack_I_def Let_def)
qed

abbreviation demo_mac :: string where
  "demo_mac \<equiv> ''00-01-02-03-04-05''"

lemma demo_mac_string: "mac_string (take 6 (b_chaddr (demo_buf 5))) = demo_mac"
  by code_simp

lemma demo_lease: "fst (lease demo_boot_server demo_mac boot_state_init) = Inr 0x0A000064"
proof -
  have "[0..<2] = [0, 1 :: nat]" by (simp add: upt_rec)
  then show ?thesis by (simp add: lease_def demo_boot_server_def boot_state_init_def bindS_def thenS_def del: upt_rec_numeral)
qed

lemma demo_request_facts:
  "packet_wf (demo_buf 5)" "b_ciaddr (demo_buf 5) = [0, 0, 0, 0]" "demo_tags 53 = Some [1]" "is_pxe demo_tags"
  "demo_tags 60 = Some (ascii ''PXE:x'')" "access demo_boot_server = None" "states boot_state_init demo_mac \<noteq> Some ST_DHCP"
  by (simp_all add: packet_wf_def demo_buf_def demo_tags_def is_pxe_def demo_boot_server_def boot_state_init_def numeral_eq_Suc)

theorem addresses_never_shared_witness:
  "\<exists>st. boot_run demo_boot_host demo_boot_server [((0, 68), demo_discover 5)] boot_state_init = Some st \<and>
     length (replies st) = 1 \<and> distinct (map snd (ippool st)) \<and> (\<forall>ip \<in> snd ` set (ippool st). in_pool demo_boot_server ip)"
proof -
  obtain st r where st: "handle_options demo_boot_host demo_boot_server (0, 68) (demo_buf 5) demo_tags boot_state_init = (Inr (), st)"
    "replies st = replies boot_state_init @ [r]"
    using discover_offered [OF demo_request_facts(1,2) demo_mac_string [symmetric] demo_request_facts(3-7) demo_lease demo_reply, of "(0, 68)"]
    by blast
  then have run: "boot_run demo_boot_host demo_boot_server [((0, 68), demo_discover 5)] boot_state_init = Some st"
    by (simp add: demo_handle)
  show ?thesis using addresses_never_shared [OF run] run st(2) by (simp add: boot_state_init_def)
qed

theorem leases_are_permanent_witness:
  "map_of (ippool (boot_state_init\<lparr>ippool := [(demo_mac, 7)]\<rparr>)) demo_mac = Some 7 \<and>
   (\<exists>st'. boot_run demo_boot_host demo_boot_server [((0, 68), [])] (boot_state_init\<lparr>ippool := [(demo_mac, 7)]\<rparr>) = Some st' \<and>
      map_of (ippool st') demo_mac = Some 7)"
proof -
  obtain st' where "boot_run demo_boot_host demo_boot_server [((0, 68), [])] (boot_state_init\<lparr>ippool := [(demo_mac, 7)]\<rparr>) = Some st'"
    by (simp add: handle_def unpack_packet_def DHCPFormatSize_def)
  then show ?thesis using leases_are_permanent [of demo_boot_host demo_boot_server _ _ st' demo_mac 7] by fastforce
qed

theorem lease_fails_iff_pool_full_witness:
  "lease demo_boot_server demo_mac (boot_state_init\<lparr>ippool := [(''x'', 0x0A000064), (''y'', 0x0A000065)]\<rparr>) =
     (Inl BootpError, boot_state_init\<lparr>ippool := [(''x'', 0x0A000064), (''y'', 0x0A000065)]\<rparr>)"
proof -
  have "\<forall>i < nat (pool_count demo_boot_server). pool_start demo_boot_server + word_of_nat i \<in>
      snd ` set (ippool (boot_state_init\<lparr>ippool := [(''x'', 0x0A000064), (''y'', 0x0A000065)]\<rparr>))"
    by (auto simp: demo_boot_server_def less_Suc_eq numeral_2_eq_2)
  then show ?thesis
    using lease_fails_iff_pool_full [of "boot_state_init\<lparr>ippool := [(''x'', 0x0A000064), (''y'', 0x0A000065)]\<rparr>" demo_mac demo_boot_server]
    by (simp add: demo_boot_server_def)
qed

theorem padding_hangs_server_witness:
  "boot_run demo_boot_host demo_boot_server [((0, 68), 1 # replicate 300 0), ((0, 68), demo_discover 5)] boot_state_init = None"
  by (rule padding_hangs_server) (simp_all add: nth_Cons')

theorem discover_offered_without_pxe_options_witness:
  "\<exists>st' r tags. handle_options demo_boot_host demo_boot_server (0, 68) (demo_buf 5) demo_tags boot_state_init = (Inr (), st') \<and>
     states st' demo_mac = Some ST_PXE \<and> replies st' = [((0x0A0000FF, 68), r)] \<and> slice 16 20 r = [10, 0, 0, 100] \<and>
     boot_options (drop 240 r) Map.empty = Some (Inr (Some tags)) \<and> tags 53 = Some [2] \<and> tags 97 = None"
proof -
  have ip: "ip_bytes 0x0A000064 = [10, 0, 0, 100]" by (simp add: ip_bytes_def byte_eval)
  have br: "broadcast 0x0A000064 (net_mask (netconfig demo_boot_server)) = 0x0A0000FF"
    by (simp add: broadcast_def demo_boot_server_def)
  show ?thesis
    using discover_offered_without_pxe_options [OF demo_request_facts(1,2) demo_mac_string [symmetric] demo_request_facts(3-7)
        demo_lease demo_reply, of "(0, 68)"] unfolding ip br by (auto simp: boot_state_init_def)
qed

end
