(* ===== verification/NetServices.thy ===== *)
theory NetServices
  imports PyState PyText "HOL-Library.AList"
begin

text \<open>
  The small services around the boot servers: the access-control server \<^verbatim>\<open>aclserver.py\<close>, which changes the
  dictionaries that the DHCP and TFTP servers read, its client \<^verbatim>\<open>pxeserver.py\<close>, and the name server \<^verbatim>\<open>dns.py\<close>.
\<close>

section \<open>The shared dictionaries\<close>

record shared =
  shared_acl :: "string \<rightharpoonup> bool"
  shared_map :: "(string \<times> nat list) list"
  shared_conf :: "string \<rightharpoonup> string"

definition PXE_ADD_ACL :: string where "PXE_ADD_ACL = ''addacl''"
definition PXE_SET_CONF :: string where "PXE_SET_CONF = ''addpxe''"
definition PXE_DEL_ACL :: string where "PXE_DEL_ACL = ''delacl''"
definition PXE_GET_IP :: string where "PXE_GET_IP = ''getip''"
definition PXE_NO_IP_RESP :: string where "PXE_NO_IP_RESP = ''NO_IP''"

lemmas pxe_commands = PXE_ADD_ACL_def PXE_SET_CONF_def PXE_DEL_ACL_def PXE_GET_IP_def PXE_NO_IP_RESP_def

definition address_text :: "nat list \<Rightarrow> string" where
  "address_text a = join_with CHR ''.'' (map nat_str a)"

text \<open>\<^verbatim>\<open>process_acl_request\<close>: the result is what is sent back to the client, if anything is.\<close>

definition process_acl_request :: "string \<Rightarrow> ('a shared_scheme, string option) pymethod" where
  "process_acl_request data =
     (let cmd = split_on CHR '' '' data in
      if cmd ! 0 = PXE_ADD_ACL then
        bindS (liftS (index_at cmd 1)) (\<lambda>mac.
          thenS (setS (\<lambda>s. s\<lparr>shared_acl := (shared_acl s)(lower mac \<mapsto> True)\<rparr>)) (returnS None))
      else if cmd ! 0 = PXE_DEL_ACL then
        bindS (liftS (index_at cmd 1)) (\<lambda>mac.
          thenS (setS (\<lambda>s. s\<lparr>shared_acl := (shared_acl s)(lower mac := None)\<rparr>)) (returnS None))
      else if cmd ! 0 = PXE_GET_IP then
        bindS (liftS (index_at cmd 1)) (\<lambda>mac.
          getS (\<lambda>s. Some (case map_of (shared_map s) (lower mac) of
                  Some a \<Rightarrow> address_text a | None \<Rightarrow> PXE_NO_IP_RESP)))
      else if cmd ! 0 = PXE_SET_CONF then
        bindS (liftS (index_at cmd 1)) (\<lambda>mac. bindS (liftS (index_at cmd 2)) (\<lambda>conf_file.
          thenS (setS (\<lambda>s. s\<lparr>shared_conf := (shared_conf s)(lower mac \<mapsto> conf_file)\<rparr>)) (returnS None)))
      else returnS None)"

text \<open>The loop of the server: 512 bytes of a connection are read, and an exception is only logged.\<close>

definition acl_serve :: "string \<Rightarrow> 'a shared_scheme \<Rightarrow> string option \<times> 'a shared_scheme" where
  "acl_serve msg s =
     (case process_acl_request (take 512 msg) s of
        (Inl e, s1) \<Rightarrow> (None, s1)
      | (Inr resp, s1) \<Rightarrow> (resp, s1))"

text \<open>The messages of the client \<^verbatim>\<open>PXEServer\<close>.\<close>

definition set_pxe_conf :: "string \<Rightarrow> string \<Rightarrow> string" where
  "set_pxe_conf mac_address pxe_conf = PXE_SET_CONF @ '' '' @ mac_address @ '' '' @ pxe_conf"

definition add_mac :: "string \<Rightarrow> string" where
  "add_mac mac_address = PXE_ADD_ACL @ '' '' @ mac_address"

definition get_ip :: "string \<Rightarrow> string" where
  "get_ip mac_address = PXE_GET_IP @ '' '' @ mac_address"

text \<open>\<^verbatim>\<open>get_ip\<close> takes no answer and the answer that there is none as \<^verbatim>\<open>None\<close>.\<close>

definition get_ip_answer :: "string option \<Rightarrow> string option" where
  "get_ip_answer resp = (if resp = None \<or> resp = Some PXE_NO_IP_RESP then None else resp)"

section \<open>Messages to the access-control server\<close>

lemma acl_add:
  "CHR '' '' \<notin> set mac \<Longrightarrow> length (add_mac mac) \<le> 512 \<Longrightarrow>
   acl_serve (add_mac mac) s = (None, s\<lparr>shared_acl := (shared_acl s)(lower mac \<mapsto> True)\<rparr>)"
  using split_on_first [of "CHR '' ''" PXE_ADD_ACL mac]
  by (simp add: acl_serve_def process_acl_request_def add_mac_def pxe_commands split_on_plain index_at_def)

lemma acl_set_conf:
  "CHR '' '' \<notin> set mac \<Longrightarrow> CHR '' '' \<notin> set conf \<Longrightarrow> length (set_pxe_conf mac conf) \<le> 512 \<Longrightarrow>
   acl_serve (set_pxe_conf mac conf) s = (None, s\<lparr>shared_conf := (shared_conf s)(lower mac \<mapsto> conf)\<rparr>)"
  using split_on_first [of "CHR '' ''" PXE_SET_CONF "mac @ '' '' @ conf"] split_on_first [of "CHR '' ''" mac conf]
  by (simp add: acl_serve_def process_acl_request_def set_pxe_conf_def pxe_commands split_on_plain index_at_def)

lemma acl_get_ip:
  "CHR '' '' \<notin> set mac \<Longrightarrow> length (get_ip mac) \<le> 512 \<Longrightarrow> map_of (shared_map s) (lower mac) = Some ip \<Longrightarrow>
   acl_serve (get_ip mac) s = (Some (address_text ip), s)"
  using split_on_first [of "CHR '' ''" PXE_GET_IP mac]
  by (simp add: acl_serve_def process_acl_request_def get_ip_def pxe_commands split_on_plain index_at_def)

text \<open>The messages of a controller that boots a machine from an image.\<close>

definition permit_boot :: "string \<Rightarrow> string \<Rightarrow> 'a shared_scheme \<Rightarrow> 'a shared_scheme" where
  "permit_boot mac img s = snd (acl_serve (add_mac mac) (snd (acl_serve (set_pxe_conf mac img) s)))"

lemma permit_boot_state:
  assumes "CHR '' '' \<notin> set mac" and "CHR '' '' \<notin> set img" and "length (set_pxe_conf mac img) \<le> 512"
  shows "permit_boot mac img s = s\<lparr>shared_conf := (shared_conf s)(lower mac \<mapsto> img), shared_acl := (shared_acl s)(lower mac \<mapsto> True)\<rparr>"
proof -
  have "length (add_mac mac) \<le> 512" using assms(3) by (simp add: add_mac_def set_pxe_conf_def pxe_commands)
  then show ?thesis by (simp add: permit_boot_def acl_set_conf [OF assms] acl_add [OF assms(1)])
qed

section \<open>Names\<close>

text \<open>
  \<^verbatim>\<open>DNSQuery\<close>: the labels of the question, with a dot behind each.  A position behind the end of the data raises.
\<close>

function dns_labels :: "bytes \<Rightarrow> nat \<Rightarrow> string \<Rightarrow> string res" where
  "dns_labels data pos domain =
     (if pos < length data then
        let lon = unat (data ! pos) in
        if lon = 0 then Inr domain
        else dns_labels data (pos + lon + 1) (domain @ text_of (slice (pos + 1) (pos + lon + 1) data) @ ''.'')
      else Inl IndexError)"
  by pat_completeness auto
termination by (relation "measure (\<lambda>(data, pos, domain). length data - pos)") auto

declare dns_labels.simps [simp del]

definition dns_query :: "bytes \<Rightarrow> string res" where
  "dns_query data =
     bindE (index_at data 2) (\<lambda>b.
       if unat b div 8 mod 16 = 0 then dns_labels data 12 [] else Inr [])"

definition dns_chr :: "string \<Rightarrow> byte res" where
  "dns_chr s = bindE (py_int s) (\<lambda>i. if 0 \<le> i \<and> i < 256 then Inr (word_of_int i) else Inl ValueError)"

definition dns_response :: "bytes \<Rightarrow> string \<Rightarrow> string \<Rightarrow> bytes res" where
  "dns_response data domain ip =
     (if domain = [] then Inr []
      else bindE (mapE dns_chr (split_on CHR ''.'' ip)) (\<lambda>addr.
        Inr (slice 0 2 data @ [0x81, 0x80] @ slice 4 6 data @ slice 4 6 data @ [0, 0, 0, 0] @ drop 12 data @
             [0xc0, 0x0c] @ [0, 1, 0, 1, 0, 0, 0, 0x3c, 0, 4] @ addr)))"

text \<open>One turn of the server; an exception ends it.\<close>

definition dns_turn :: "(string \<rightharpoonup> string) \<Rightarrow> bytes \<Rightarrow> bytes option res" where
  "dns_turn dns_lookup_table data =
     bindE (dns_query (take 1024 data)) (\<lambda>domain.
       case dns_lookup_table domain of
         None \<Rightarrow> Inr None
       | Some ip \<Rightarrow> bindE (dns_response (take 1024 data) domain ip) (\<lambda>r. Inr (Some r)))"

section \<open>A question and its answer\<close>

text \<open>The name in a question: each label behind its length, and a zero behind the last.\<close>

definition dns_name :: "bytes list \<Rightarrow> bytes" where
  "dns_name ls = concat (map (\<lambda>l. word_of_nat (length l) # l) ls) @ [0]"

definition dotted_name :: "bytes list \<Rightarrow> string" where
  "dotted_name ls = concat (map (\<lambda>l. text_of l @ ''.'') ls)"

lemma dns_labels_name:
  "list_all (\<lambda>l. l \<noteq> [] \<and> length l < 256) ls \<Longrightarrow> dns_labels (pre @ dns_name ls @ post) (length pre) domain = Inr (domain @ dotted_name ls)"
proof (induction ls arbitrary: pre domain)
  case Nil
  then show ?case by (subst dns_labels.simps) (simp add: dns_name_def dotted_name_def)
next
  case (Cons l ls)
  have l: "l \<noteq> []" "unat (word_of_nat (length l) :: byte) = length l"
    using Cons.prems by (simp_all add: unat_of_nat take_bit_eq_mod)
  have split: "pre @ dns_name (l # ls) @ post = (pre @ word_of_nat (length l) # l) @ dns_name ls @ post"
    by (simp add: dns_name_def)
  have "dns_labels (pre @ dns_name (l # ls) @ post) (length pre) domain =
      dns_labels (pre @ dns_name (l # ls) @ post) (length (pre @ word_of_nat (length l) # l)) (domain @ text_of l @ ''.'')"
    using l by (subst dns_labels.simps) (simp add: dns_name_def slice_def Let_def)
  also have "\<dots> = Inr (domain @ dotted_name (l # ls))"
    unfolding split using Cons.IH [of "pre @ word_of_nat (length l) # l" "domain @ text_of l @ ''.''"] Cons.prems
    by (simp add: dotted_name_def)
  finally show ?case .
qed

text \<open>
  A standard question for a name of the table is answered: the answer has the identification of the question, repeats
  the question, and ends in the four bytes of the address.
\<close>

theorem dns_resolves:
  assumes "length header = 12" and "unat (header ! 2) div 8 mod 16 = 0" and "ls \<noteq> []"
    and "list_all (\<lambda>l. l \<noteq> [] \<and> length l < 256) ls" and "length (header @ dns_name ls @ post) \<le> 1024"
    and "table (dotted_name ls) = Some (address_text (map unat [a, b, c, d]))"
  shows "dns_turn table (header @ dns_name ls @ post) =
    Inr (Some (take 2 header @ [0x81, 0x80] @ slice 4 6 header @ slice 4 6 header @ [0, 0, 0, 0] @ dns_name ls @ post @
      [0xc0, 0x0c, 0, 1, 0, 1, 0, 0, 0, 0x3c, 0, 4] @ [a, b, c, d]))"
proof -
  have "dns_query (header @ dns_name ls @ post) = Inr (dotted_name ls)"
    using assms(1,2) dns_labels_name [OF assms(4), of header post "[]"] by (simp add: dns_query_def index_at_def nth_append)
  moreover have "dotted_name ls \<noteq> []" using assms(3) by (cases ls) (auto simp: dotted_name_def)
  moreover have "dns_chr (nat_str (unat x)) = Inr x" for x :: byte
    using unsigned_less [of x] by (simp add: dns_chr_def py_int_nat_str)
  then have "mapE dns_chr (map (\<lambda>x. nat_str (unat x)) [a, b, c, d]) = Inr [a, b, c, d]" by simp
  moreover have "split_on CHR ''.'' (address_text (map unat [a, b, c, d])) = map (\<lambda>x. nat_str (unat x)) [a, b, c, d]"
    unfolding address_text_def map_map comp_def by (rule split_join) (auto simp: dot_not_digit [OF isdigit_nat_str])
  ultimately show ?thesis using assms(1,5,6)
    by (simp add: dns_turn_def dns_response_def slice_def)
qed

text \<open>Nothing catches the exceptions of a question that is cut off, so it ends the server.\<close>

lemma dns_question_cut_off: "length data \<le> 2 \<Longrightarrow> dns_turn table data = Inl IndexError"
  by (simp add: dns_turn_def dns_query_def index_at_def)

theorem dns_resolves_witness:
  "dns_turn [''lophi-pxe.'' \<mapsto> ''192.168.1.1''] ([0xab, 0xcd, 1, 0, 0, 1, 0, 0, 0, 0, 0, 0] @ dns_name [ascii ''lophi-pxe''] @ [0, 1, 0, 1]) =
   Inr (Some ([0xab, 0xcd, 0x81, 0x80, 0, 1, 0, 1, 0, 0, 0, 0] @ dns_name [ascii ''lophi-pxe''] @ [0, 1, 0, 1] @
     [0xc0, 0x0c, 0, 1, 0, 1, 0, 0, 0, 0x3c, 0, 4] @ [192, 168, 1, 1]))"
proof -
  have "dotted_name [ascii ''lophi-pxe''] = ''lophi-pxe.''" by (simp add: dotted_name_def)
  moreover have "address_text (map unat [192, 168, 1, 1 :: byte]) = ''192.168.1.1''" by code_simp
  ultimately show ?thesis
    using dns_resolves [of "[0xab, 0xcd, 1, 0, 0, 1, 0, 0, 0, 0, 0, 0]" "[ascii ''lophi-pxe'']" "[0, 1, 0, 1]"
      "[''lophi-pxe.'' \<mapsto> ''192.168.1.1'']" 192 168 1 1]
    by (simp add: dns_name_def slice_def ascii_def)
qed

end
