(* ===== verification/Dhcpd.thy ===== *)
theory Dhcpd
  imports NetServices DhcpPacket DhcpTypes
begin

text \<open>
  The DHCP server for the machines under observation, \<^verbatim>\<open>proxydhcpd/dhcpd.py\<close>, with the dispatch of
  \<^verbatim>\<open>dhcp_network.py\<close>.  The dictionaries it shares with the other services are those of a process manager, which
  keeps copies of what is stored; the list \<^verbatim>\<open>start_ip\<close> is the server's own and is changed in place.
\<close>

section \<open>State\<close>

text \<open>The configuration, with addresses as lists of numbers.\<close>

record dhcpd_config =
  listen_address :: "nat list"
  tftp_address :: "nat list"
  subnet_mask :: "nat list"
  broadcast_addr :: "nat list"
  boot_filename :: string
  vendor_info :: "string option"

record dhcpd = shared +
  start_ip :: "nat list"
  pool_size :: int
  mac_to_bootfile :: "string \<rightharpoonup> string"
  dhcp_sent :: "(string \<times> bytes) list"

type_synonym 'a dmethod = "(dhcpd, 'a) pymethod"

definition hex_lower :: "nat \<Rightarrow> char" where
  "hex_lower d = (if d < 10 then digit_char d else char_of (87 + d))"

definition fmtHex :: "nat \<Rightarrow> string" where
  "fmtHex n = [hex_lower (n div 16 mod 16), hex_lower (n mod 16)]"

definition mac_text :: "nat list \<Rightarrow> string" where
  "mac_text hw = join_with CHR '':'' (map fmtHex hw)"

section \<open>Addresses\<close>

text \<open>
  \<^verbatim>\<open>GetFreeIP\<close>: \<^verbatim>\<open>ip = self.start_ip\<close> is no copy, so \<^verbatim>\<open>ip[3] += i\<close> moves the start of the pool, for this call and
  all later ones.
\<close>

fun free_ip_loop :: "nat list \<Rightarrow> nat list option dmethod" where
  "free_ip_loop [] = returnS None"
| "free_ip_loop (i # idxs) =
     bindS (getS start_ip) (\<lambda>ip.
       if length ip \<le> 3 then raiseS IndexError
       else thenS (setS (\<lambda>s. s\<lparr>start_ip := ip[3 := ip ! 3 + i]\<rparr>))
              (bindS (getS shared_map) (\<lambda>m.
                 if ip[3 := ip ! 3 + i] \<notin> set (map snd m) then returnS (Some (ip[3 := ip ! 3 + i]))
                 else free_ip_loop idxs)))"

definition GetFreeIP :: "nat list option dmethod" where
  "GetFreeIP = bindS (getS pool_size) (\<lambda>n. free_ip_loop [0..<nat n])"

text \<open>The common start of the two handlers: the address a machine has, or a new one.\<close>

definition prospective_ip :: "string \<Rightarrow> nat list option dmethod" where
  "prospective_ip mac_addr =
     bindS (getS (\<lambda>s. map_of (shared_map s) mac_addr)) (\<lambda>known.
     bindS (if known \<noteq> None then returnS known else GetFreeIP) (\<lambda>r. case r of
         None \<Rightarrow> returnS None
       | Some ip \<Rightarrow> thenS (setS (\<lambda>s. s\<lparr>shared_map := AList.update mac_addr ip (shared_map s)\<rparr>)) (returnS (Some ip))))"

section \<open>Replies\<close>

definition ords :: "string \<Rightarrow> nat list" where
  "ords s = map of_char s"

definition ljust :: "nat \<Rightarrow> string \<Rightarrow> string" where
  "ljust n s = s @ replicate (n - length s) (CHR 0x00)"

definition SendDhcpPacketTo :: "dhcp_packet res \<Rightarrow> string \<Rightarrow> unit dmethod" where
  "SendDhcpPacketTo packet ip =
     bindS (liftS (bindE packet EncodePacket)) (\<lambda>raw_packet.
       if 65535 < length raw_packet + 8 then raiseS StructError
       else setS (\<lambda>s. s\<lparr>dhcp_sent := dhcp_sent s @
              [(ip, be_bytes 2 67 @ be_bytes 2 68 @ be_bytes 2 (length raw_packet + 8) @ be_bytes 2 0 @ raw_packet)]\<rparr>))"

definition is_pxe_client :: "dhcp_packet \<Rightarrow> bool res" where
  "is_pxe_client packet =
     bindE (strlist_of_list (GetOption ''vendor_class_identifier'' packet)) (\<lambda>(s, l). Inr (take 9 s = ''PXEClient''))"

definition then_all :: "(string \<times> nat list) list \<Rightarrow> dhcp_packet res \<Rightarrow> dhcp_packet res" where
  "then_all opts r = fold (\<lambda>(name, v). then_option name v) opts r"

definition pxe_offer :: "dhcpd_config \<Rightarrow> dhcp_packet \<Rightarrow> nat list \<Rightarrow> string \<Rightarrow> dhcp_packet res" where
  "pxe_offer cfg packet ip bootfile =
     then_all [(''server_identifier'', listen_address cfg), (''ip_address_lease_time'', [0, 1, 81, 128]),
               (''subnet_mask'', subnet_mask cfg), (''router'', listen_address cfg)]
       (SetMultipleOptions
          [(''flags'', [0, 0]), (''giaddr'', [0, 0, 0, 0]), (''yiaddr'', ip), (''ciaddr'', [0, 0, 0, 0]),
           (''siaddr'', tftp_address cfg), (''file'', ords (ljust 128 bootfile)),
           (''sname'', ords (ljust 64 ''unknown.localdomain''))]
          (CreateDhcpOfferPacketFrom packet DhcpBasicPacket_init))"

definition normal_offer :: "dhcpd_config \<Rightarrow> dhcp_packet \<Rightarrow> nat list \<Rightarrow> dhcp_packet res" where
  "normal_offer cfg packet ip =
     then_all [(''server_identifier'', listen_address cfg), (''ip_address_lease_time'', [0, 0, 0xe, 0x10]),
               (''renewal_time_value'', [0, 0, 0x7, 0x8]), (''rebinding_time_value'', [0, 0, 0xc, 0x4e]),
               (''subnet_mask'', subnet_mask cfg), (''broadcast_address'', broadcast_addr cfg),
               (''router'', listen_address cfg), (''domain_name_server'', listen_address cfg)]
       (SetMultipleOptions
          [(''giaddr'', [0, 0, 0, 0]), (''yiaddr'', ip), (''ciaddr'', [0, 0, 0, 0]), (''siaddr'', listen_address cfg)]
          (CreateDhcpOfferPacketFrom packet DhcpBasicPacket_init))"

definition pxe_ack :: "dhcpd_config \<Rightarrow> dhcp_packet \<Rightarrow> nat list \<Rightarrow> string \<Rightarrow> dhcp_packet res" where
  "pxe_ack cfg packet ip bootfile =
     then_all [(''server_identifier'', listen_address cfg), (''ip_address_lease_time'', [0, 1, 81, 128]),
               (''subnet_mask'', subnet_mask cfg), (''router'', listen_address cfg)]
       (SetMultipleOptions
          [(''flags'', [0, 0]), (''giaddr'', GetOption ''giaddr'' packet), (''yiaddr'', ip), (''siaddr'', tftp_address cfg),
           (''vendor_class_identifier'', ords ''PXEClient''), (''file'', ords (ljust 128 bootfile)),
           (''sname'', ords (ljust 64 ''unknown.localdomain''))]
          (CreateDhcpAckPacketFrom packet DhcpBasicPacket_init))"

definition normal_ack :: "dhcpd_config \<Rightarrow> dhcp_packet \<Rightarrow> nat list \<Rightarrow> dhcp_packet res" where
  "normal_ack cfg packet ip =
     then_all [(''server_identifier'', listen_address cfg), (''ip_address_lease_time'', [0, 255, 255, 255]),
               (''renewal_time_value'', [0, 255, 255, 255]), (''rebinding_time_value'', [0, 255, 255, 255]),
               (''subnet_mask'', subnet_mask cfg), (''broadcast_address'', broadcast_addr cfg),
               (''router'', listen_address cfg), (''domain_name_server'', listen_address cfg)]
       (SetMultipleOptions
          [(''giaddr'', GetOption ''giaddr'' packet), (''yiaddr'', ip), (''ciaddr'', [0, 0, 0, 0]),
           (''siaddr'', listen_address cfg)]
          (CreateDhcpAckPacketFrom packet DhcpBasicPacket_init))"

section \<open>Handlers\<close>

definition hardware_text :: "dhcp_packet \<Rightarrow> string res" where
  "hardware_text packet = bindE (GetHardwareAddress packet) (\<lambda>hw. Inr (mac_text hw))"

abbreviation BROADCAST :: string where
  "BROADCAST \<equiv> ''255.255.255.255''"

text \<open>
  \<^verbatim>\<open>HandleDhcpDiscover\<close>: firmware that is on the access-control list is told the boot file, other firmware a file
  that is not there.  A client that names no vendor class gets no answer.
\<close>

definition offer_pxe :: "dhcpd_config \<Rightarrow> dhcp_packet \<Rightarrow> string \<Rightarrow> nat list \<Rightarrow> unit dmethod" where
  "offer_pxe cfg packet mac_addr ip =
     bindS (liftS (CreateDhcpOfferPacketFrom packet DhcpBasicPacket_init)) (\<lambda>p.
     thenS (setS (\<lambda>s. s\<lparr>mac_to_bootfile := (mac_to_bootfile s)(mac_addr \<mapsto>
              (if shared_acl s mac_addr = None then ''lophi_no_pxe_access'' else boot_filename cfg))\<rparr>))
       (bindS (getS (\<lambda>s. the (mac_to_bootfile s mac_addr))) (\<lambda>bootfile.
          SendDhcpPacketTo (pxe_offer cfg packet ip bootfile) BROADCAST)))"

definition HandleDhcpDiscover :: "dhcpd_config \<Rightarrow> dhcp_packet \<Rightarrow> unit dmethod" where
  "HandleDhcpDiscover cfg packet =
     bindS (liftS (hardware_text packet)) (\<lambda>mac_addr.
     bindS (prospective_ip mac_addr) (\<lambda>r. case r of
         None \<Rightarrow> returnS ()
       | Some ip \<Rightarrow>
           if \<not> IsOption ''vendor_class_identifier'' packet then returnS ()
           else bindS (liftS (is_pxe_client packet)) (\<lambda>pxe.
             if pxe then offer_pxe cfg packet mac_addr ip
             else SendDhcpPacketTo (normal_offer cfg packet ip) BROADCAST)))"

text \<open>
  \<^verbatim>\<open>HandleDhcpRequest\<close>: a request of the firmware takes the machine off the access-control list; the boot file is
  the one of the last discover of the machine.
\<close>

definition ack_pxe :: "dhcpd_config \<Rightarrow> dhcp_packet \<Rightarrow> string \<Rightarrow> nat list \<Rightarrow> unit dmethod" where
  "ack_pxe cfg packet mac_addr ip =
     thenS (setS (\<lambda>s. s\<lparr>shared_acl := (shared_acl s)(mac_addr := None)\<rparr>))
       (bindS (liftS (CreateDhcpAckPacketFrom packet DhcpBasicPacket_init)) (\<lambda>p.
        bindS (getS (\<lambda>s. mac_to_bootfile s mac_addr)) (\<lambda>bootfile. case bootfile of
            None \<Rightarrow> raiseS KeyError
          | Some f \<Rightarrow> SendDhcpPacketTo (pxe_ack cfg packet ip f) BROADCAST)))"

definition HandleDhcpRequest :: "dhcpd_config \<Rightarrow> dhcp_packet \<Rightarrow> unit dmethod" where
  "HandleDhcpRequest cfg packet =
     bindS (liftS (hardware_text packet)) (\<lambda>mac_addr.
     bindS (prospective_ip mac_addr) (\<lambda>r. case r of
         None \<Rightarrow> returnS ()
       | Some ip \<Rightarrow>
           if \<not> IsOption ''vendor_class_identifier'' packet then returnS ()
           else bindS (liftS (is_pxe_client packet)) (\<lambda>pxe.
             if pxe then ack_pxe cfg packet mac_addr ip
             else SendDhcpPacketTo (normal_ack cfg packet ip) BROADCAST)))"

text \<open>\<^verbatim>\<open>HandleDhcpDecline\<close> and \<^verbatim>\<open>HandleDhcpRelease\<close>, which are the same.\<close>

definition HandleDhcpRelease :: "dhcp_packet \<Rightarrow> unit dmethod" where
  "HandleDhcpRelease packet =
     bindS (liftS (hardware_text packet)) (\<lambda>mac_addr.
       setS (\<lambda>s. s\<lparr>shared_map := AList.delete mac_addr (shared_map s)\<rparr>))"

definition HandleDhcpInform :: "dhcp_packet \<Rightarrow> unit dmethod" where
  "HandleDhcpInform packet = bindS (liftS (hardware_text packet)) (\<lambda>mac_addr. returnS ())"

text \<open>\<^verbatim>\<open>GetNextDhcpPacket\<close> for a datagram, and the loop of the server, which catches everything.\<close>

definition dispatch_packet :: "dhcpd_config \<Rightarrow> dhcp_packet \<Rightarrow> unit dmethod" where
  "dispatch_packet cfg packet =
     (if IsDhcpDiscoverPacket packet then HandleDhcpDiscover cfg packet
      else if IsDhcpRequestPacket packet then HandleDhcpRequest cfg packet
      else if IsDhcpDeclinePacket packet then HandleDhcpRelease packet
      else if IsDhcpReleasePacket packet then HandleDhcpRelease packet
      else if IsDhcpInformPacket packet then HandleDhcpInform packet
      else returnS ())"

definition GetNextDhcpPacket :: "dhcpd_config \<Rightarrow> bytes \<Rightarrow> unit dmethod" where
  "GetNextDhcpPacket cfg data =
     (if data = [] then returnS ()
      else bindS (liftS (DecodePacket (take 2048 data))) (dispatch_packet cfg))"

definition dhcpd_run :: "dhcpd_config \<Rightarrow> bytes list \<Rightarrow> dhcpd \<Rightarrow> dhcpd" where
  "dhcpd_run cfg datagrams s = fold (\<lambda>data s. snd (GetNextDhcpPacket cfg data s)) datagrams s"

text \<open>
  The proxy variant, \<^verbatim>\<open>ProxyDHCPD\<close>, answers requests of the firmware only, with the boot file that the other
  server noted; its own table is always empty.
\<close>

definition proxy_ack :: "dhcpd_config \<Rightarrow> dhcp_packet \<Rightarrow> string \<Rightarrow> dhcp_packet res" where
  "proxy_ack cfg packet bootfile =
     then_delete ''ip_address_lease_time''
       ((case vendor_info cfg of
           Some v \<Rightarrow> (if v = [] then id else then_option ''vendor_specific_information'' (ords v))
         | None \<Rightarrow> (\<lambda>r. bindE r (\<lambda>p. Inl KeyError)))
         (SetMultipleOptions
            [(''hlen'', GetOption ''hlen'' packet), (''htype'', GetOption ''htype'' packet), (''xid'', GetOption ''xid'' packet),
             (''flags'', GetOption ''flags'' packet), (''giaddr'', GetOption ''giaddr'' packet), (''yiaddr'', [0, 0, 0, 0]),
             (''siaddr'', tftp_address cfg), (''file'', ords (ljust 128 bootfile)),
             (''vendor_class_identifier'', ords ''PXEClient''), (''server_identifier'', listen_address cfg),
             (''bootfile_name'', ords (boot_filename cfg @ [CHR 0x00])), (''tftp_server_name'', tftp_address cfg)]
            (CreateDhcpAckPacketFrom packet DhcpBasicPacket_init)))"

definition proxy_request :: "dhcpd_config \<Rightarrow> dhcp_packet \<Rightarrow> unit dmethod" where
  "proxy_request cfg packet =
     bindS (liftS (hardware_text packet)) (\<lambda>mac_addr.
       if \<not> IsOption ''vendor_class_identifier'' packet then returnS ()
       else bindS (liftS (is_pxe_client packet)) (\<lambda>pxe.
         if \<not> pxe then returnS ()
         else bindS (liftS (CreateDhcpAckPacketFrom packet DhcpBasicPacket_init)) (\<lambda>p.
           bindS (getS (\<lambda>s. mac_to_bootfile s mac_addr)) (\<lambda>bootfile. case bootfile of
               None \<Rightarrow> raiseS KeyError
             | Some f \<Rightarrow>
                 SendDhcpPacketTo (proxy_ack cfg packet f) (address_text (GetOption ''ciaddr'' packet))))))"

end
