(* ===== verification/DhcpdProperties.thy ===== *)
theory DhcpdProperties
  imports Dhcpd
begin

text \<open>
  What the DHCP server keeps in the shared table of addresses: no address twice, whatever arrives; but its pool is
  not the configured one.  And the way of a machine from the access-control list to its boot file.
\<close>

section \<open>The table of addresses\<close>

definition table_ok :: "(string \<times> nat list) list \<Rightarrow> bool" where
  "table_ok m \<longleftrightarrow> distinct (map fst m) \<and> distinct (map snd m)"

lemma update_new: "map_of m k = None \<Longrightarrow> AList.update k v m = m @ [(k, v)]"
  by (induction m) (auto split: if_splits)

lemma table_ok_known: "map_of m k = Some v \<Longrightarrow> AList.update k v m = m"
  by (induction m) (auto split: if_splits)

lemma table_ok_new: "table_ok m \<Longrightarrow> map_of m k = None \<Longrightarrow> v \<notin> set (map snd m) \<Longrightarrow> table_ok (AList.update k v m)"
  by (auto simp: table_ok_def update_new map_of_eq_None_iff)

lemma table_ok_delete: "table_ok m \<Longrightarrow> table_ok (AList.delete k m)"
  by (auto simp: table_ok_def AList.delete_eq distinct_map intro: inj_on_subset)

lemma table_ok_inj: "table_ok m \<Longrightarrow> map_of m k = Some v \<Longrightarrow> map_of m l = Some v \<Longrightarrow> k = l"
proof -
  assume "table_ok m" "map_of m k = Some v" "map_of m l = Some v"
  then have "inj_on snd (set m)" "(k, v) \<in> set m" "(l, v) \<in> set m" by (auto simp: table_ok_def distinct_map dest: map_of_SomeD)
  then show "k = l" using inj_onD [of snd "set m" "(k, v)" "(l, v)"] by auto
qed

text \<open>What a search for a free address may change: the start of the pool.\<close>

lemma free_ip_loop_result:
  "free_ip_loop idxs s = (r, s') \<Longrightarrow> (\<exists>ip. s' = s\<lparr>start_ip := ip\<rparr>) \<and> (\<forall>ip. r = Inr (Some ip) \<longrightarrow> ip \<notin> set (map snd (shared_map s)))"
proof (induction idxs arbitrary: s)
  case Nil
  then show ?case by (auto intro: exI [of _ "start_ip s"])
next
  case (Cons i idxs)
  let ?ip = "(start_ip s)[3 := start_ip s ! 3 + i]"
  consider "length (start_ip s) \<le> 3" | "3 < length (start_ip s)" "?ip \<notin> set (map snd (shared_map s))"
    | "3 < length (start_ip s)" "?ip \<in> set (map snd (shared_map s))" by linarith
  then show ?case
  proof cases
    case 1
    then show ?thesis using Cons.prems by (auto intro: exI [of _ "start_ip s"])
  next
    case 2
    then show ?thesis using Cons.prems by auto
  next
    case 3
    then have "free_ip_loop idxs (s\<lparr>start_ip := ?ip\<rparr>) = (r, s')" using Cons.prems by auto
    from Cons.IH [OF this] show ?thesis by auto
  qed
qed

lemma prospective_ip_result:
  assumes "prospective_ip mac s = (r, s')"
  shows "(\<exists>start m. s' = s\<lparr>start_ip := start, shared_map := m\<rparr> \<and> (table_ok (shared_map s) \<longrightarrow> table_ok m) \<and>
      (\<forall>k. k \<noteq> mac \<longrightarrow> map_of m k = map_of (shared_map s) k) \<and>
      (\<forall>ip. r = Inr (Some ip) \<longrightarrow> map_of m mac = Some ip))"
proof (cases "map_of (shared_map s) mac")
  case (Some ip)
  then have "s' = s" "r = Inr (Some ip)" using assms by (auto simp: prospective_ip_def table_ok_known)
  then show ?thesis using Some by (intro exI [of _ "start_ip s"] exI [of _ "shared_map s"]) auto
next
  case None
  obtain q s1 where q: "GetFreeIP s = (q, s1)" by fastforce
  then obtain start where s1: "s1 = s\<lparr>start_ip := start\<rparr>" and free: "\<And>ip. q = Inr (Some ip) \<Longrightarrow> ip \<notin> set (map snd (shared_map s))"
    using free_ip_loop_result [of _ s q s1] by (auto simp: GetFreeIP_def)
  show ?thesis
  proof (cases "\<exists>ip. q = Inr (Some ip)")
    case True
    then obtain ip where ip: "q = Inr (Some ip)" by blast
    then have "s' = s\<lparr>start_ip := start, shared_map := AList.update mac ip (shared_map s)\<rparr>" "r = Inr (Some ip)"
      using assms None q s1 by (auto simp: prospective_ip_def bindS_def)
    then show ?thesis using table_ok_new [OF _ None free [OF ip]]
      by (intro exI [of _ start] exI [of _ "AList.update mac ip (shared_map s)"]) (auto simp: update_conv)
  next
    case False
    then have "s' = s\<lparr>start_ip := start\<rparr>" "\<And>ip. r \<noteq> Inr (Some ip)"
      using assms None q s1 by (auto simp: prospective_ip_def bindS_def split: sum.splits option.splits)
    then show ?thesis by (intro exI [of _ start] exI [of _ "shared_map s"]) auto
  qed
qed

section \<open>What a datagram can change\<close>

lemma keeps_SendDhcpPacketTo:
  "(\<And>s x. P s \<Longrightarrow> P (s\<lparr>dhcp_sent := x\<rparr>)) \<Longrightarrow> keeps P (SendDhcpPacketTo packet ip)"
  unfolding SendDhcpPacketTo_def by (intro keeps_intros) auto

text \<open>
  What the three kinds of handlers need of an invariant: that it survives the search for an address, the note of the
  boot file with the answer, and the end of the permission.
\<close>

lemma keeps_dispatch:
  assumes "\<And>mac. keeps P (prospective_ip mac)"
    and "\<And>s x. P s \<Longrightarrow> P (s\<lparr>dhcp_sent := x\<rparr>)"
    and "\<And>s mac. P s \<Longrightarrow> P (s\<lparr>mac_to_bootfile := (mac_to_bootfile s)(mac \<mapsto>
           (if shared_acl s mac = None then ''lophi_no_pxe_access'' else boot_filename cfg))\<rparr>)"
    and "\<And>s mac. P s \<Longrightarrow> P (s\<lparr>shared_acl := (shared_acl s)(mac := None)\<rparr>)"
    and "\<And>s mac. P s \<Longrightarrow> P (s\<lparr>shared_map := AList.delete mac (shared_map s)\<rparr>)"
  shows "keeps P (dispatch_packet cfg packet)"
proof -
  note sends = keeps_SendDhcpPacketTo [where P = P, OF assms(2)]
  have offer: "keeps P (offer_pxe cfg packet mac ip)" for mac ip
    unfolding offer_pxe_def by (intro keeps_intros sends assms(3))
  have ack: "keeps P (ack_pxe cfg packet mac ip)" for mac ip
    unfolding ack_pxe_def by (intro keeps_intros sends assms(4))
  have "keeps P (HandleDhcpDiscover cfg packet)"
    unfolding HandleDhcpDiscover_def by (intro keeps_intros assms(1) sends offer)
  moreover have "keeps P (HandleDhcpRequest cfg packet)"
    unfolding HandleDhcpRequest_def by (intro keeps_intros assms(1) sends ack)
  moreover have "keeps P (HandleDhcpRelease packet)" "keeps P (HandleDhcpInform packet)"
    unfolding HandleDhcpRelease_def HandleDhcpInform_def by (intro keeps_intros assms(5); assumption)+
  ultimately show ?thesis unfolding dispatch_packet_def by (intro keeps_intros)
qed

lemma dhcpd_run_keeps:
  assumes "\<And>packet. keeps P (dispatch_packet cfg packet)" and "P s"
  shows "P (dhcpd_run cfg datagrams s)"
  using assms(2)
proof (induction datagrams arbitrary: s)
  case Nil
  then show ?case by (simp add: dhcpd_run_def)
next
  case (Cons data datagrams)
  have "keeps P (GetNextDhcpPacket cfg data)" unfolding GetNextDhcpPacket_def by (intro keeps_intros assms(1))
  from keepsD [OF this Cons.prems] Cons.IH show ?case by (simp add: dhcpd_run_def)
qed

lemma keeps_prospective_ip:
  assumes "\<And>s start m. P s \<Longrightarrow> table_ok (shared_map s) \<longrightarrow> table_ok m \<Longrightarrow> P (s\<lparr>start_ip := start, shared_map := m\<rparr>)"
  shows "keeps P (prospective_ip mac)"
proof
  fix s
  assume "P s"
  moreover obtain r s' where "prospective_ip mac s = (r, s')" by fastforce
  ultimately show "P (snd (prospective_ip mac s))" using prospective_ip_result [of mac s r s'] assms by auto
qed

text \<open>C17. Whatever datagrams arrive, no two machines have the same address in the shared table.\<close>

theorem table_keeps_addresses_apart:
  assumes "table_ok (shared_map s)"
  shows "table_ok (shared_map (dhcpd_run cfg datagrams s))"
proof (rule dhcpd_run_keeps [where P = "\<lambda>s. table_ok (shared_map s)", OF _ assms])
  fix packet
  show "keeps (\<lambda>s. table_ok (shared_map s)) (dispatch_packet cfg packet)"
    by (intro keeps_dispatch keeps_prospective_ip) (auto intro: table_ok_delete)
qed

section \<open>One boot per permission\<close>

text \<open>The invariant of a machine that is not on the list: it is not told the boot file again.\<close>

definition not_permitted :: "string \<Rightarrow> string option \<Rightarrow> dhcpd \<Rightarrow> bool" where
  "not_permitted mac f s \<longleftrightarrow>
     shared_acl s mac = None \<and> (mac_to_bootfile s mac = f \<or> mac_to_bootfile s mac = Some ''lophi_no_pxe_access'')"

lemma not_permitted_dispatch: "keeps (not_permitted mac f) (dispatch_packet cfg packet)"
  by (intro keeps_dispatch keeps_prospective_ip) (auto simp: not_permitted_def)

lemma request_ends_permission:
  assumes "IsDhcpRequestPacket packet" and "hardware_text packet = Inr mac" and "map_of (shared_map s) mac = Some ip"
    and "IsOption ''vendor_class_identifier'' packet" and "is_pxe_client packet = Inr True"
  shows "not_permitted mac (mac_to_bootfile s mac) (snd (dispatch_packet cfg packet s))"
proof -
  have "\<not> IsDhcpDiscoverPacket packet"
    using assms(1) by (auto simp: IsDhcpRequestPacket_def IsDhcpDiscoverPacket_def IsDhcpSomethingPacket_def)
  then have "dispatch_packet cfg packet s = ack_pxe cfg packet mac ip s"
    using assms by (simp add: dispatch_packet_def HandleDhcpRequest_def prospective_ip_def table_ok_known bindS_def thenS_def)
  moreover have "keeps (not_permitted mac (mac_to_bootfile s mac))
      (bindS (liftS (CreateDhcpAckPacketFrom packet DhcpBasicPacket_init)) (\<lambda>p.
        bindS (getS (\<lambda>s. mac_to_bootfile s mac)) (\<lambda>bootfile. case bootfile of
            None \<Rightarrow> raiseS KeyError
          | Some f \<Rightarrow> SendDhcpPacketTo (pxe_ack cfg packet ip f) BROADCAST)))" (is "keeps ?P ?m")
    by (intro keeps_intros keeps_SendDhcpPacketTo) (auto simp: not_permitted_def)
  then have "?P (snd (?m (s\<lparr>shared_acl := (shared_acl s)(mac := None)\<rparr>)))"
    by (rule keepsD) (simp add: not_permitted_def)
  ultimately show ?thesis by (simp add: ack_pxe_def)
qed

text \<open>
  A request of the firmware uses the permission up: whatever datagrams follow, the machine is not on the
  access-control list, and the boot file noted for it is the one noted before the request or the one that does not
  exist; a further discover of its firmware does not bring the boot file back.
\<close>

theorem permission_used_up:
  assumes "IsDhcpRequestPacket packet" and "hardware_text packet = Inr mac" and "map_of (shared_map s) mac = Some ip"
    and "IsOption ''vendor_class_identifier'' packet" and "is_pxe_client packet = Inr True"
  shows "shared_acl (dhcpd_run cfg datagrams (snd (dispatch_packet cfg packet s))) mac = None \<and>
         mac_to_bootfile (dhcpd_run cfg datagrams (snd (dispatch_packet cfg packet s))) mac
           \<in> {mac_to_bootfile s mac, Some ''lophi_no_pxe_access''}"
  using dhcpd_run_keeps [OF not_permitted_dispatch request_ends_permission [OF assms]]
  by (auto simp: not_permitted_def)

section \<open>The pool\<close>

text \<open>Behind the table and the start of the pool, a discover changes neither.\<close>

lemma discover_table:
  assumes "hardware_text packet = Inr mac"
  shows "shared_map (snd (HandleDhcpDiscover cfg packet s)) = shared_map (snd (prospective_ip mac s)) \<and>
         start_ip (snd (HandleDhcpDiscover cfg packet s)) = start_ip (snd (prospective_ip mac s)) \<and>
         pool_size (snd (HandleDhcpDiscover cfg packet s)) = pool_size (snd (prospective_ip mac s))"
proof -
  let ?P = "\<lambda>t. shared_map t = shared_map (snd (prospective_ip mac s)) \<and>
         start_ip t = start_ip (snd (prospective_ip mac s)) \<and> pool_size t = pool_size (snd (prospective_ip mac s))"
  have sends: "keeps ?P (SendDhcpPacketTo p ip)" for p ip by (intro keeps_SendDhcpPacketTo) auto
  have offer: "keeps ?P (offer_pxe cfg packet mac ip)" for ip
    unfolding offer_pxe_def by (intro keeps_intros sends) auto
  show ?thesis
    unfolding HandleDhcpDiscover_def assms bindS_basic
    by (rule bindS_keeps [where P = ?P]) (simp, intro keeps_intros sends offer)
qed

lemma next_address:
  assumes "start_ip s = [a, b, c, d]" and "2 \<le> pool_size s" and "map_of (shared_map s) mac = None"
    and "[a, b, c, d] \<in> set (map snd (shared_map s))" and "[a, b, c, d + 1] \<notin> set (map snd (shared_map s))"
  shows "snd (prospective_ip mac s) = s\<lparr>start_ip := [a, b, c, d + 1], shared_map := shared_map s @ [(mac, [a, b, c, d + 1])]\<rparr>"
proof -
  have "[0..<nat (pool_size s)] = 0 # 1 # [2..<nat (pool_size s)]"
    using assms(2) by (simp add: upt_conv_Cons numeral_2_eq_2)
  then have "GetFreeIP s = (Inr (Some [a, b, c, d + 1]), s\<lparr>start_ip := [a, b, c, d + 1]\<rparr>)"
    using assms by (simp add: GetFreeIP_def)
  then show ?thesis using assms(3) by (simp add: prospective_ip_def bindS_def thenS_def update_new)
qed

lemma first_address:
  assumes "start_ip s = [a, b, c, d]" and "2 \<le> pool_size s" and "shared_map s = []"
  shows "snd (prospective_ip mac s) = s\<lparr>shared_map := [(mac, [a, b, c, d])]\<rparr>"
proof -
  have "[0..<nat (pool_size s)] = 0 # [1..<nat (pool_size s)]"
    using assms(2) by (simp add: upt_conv_Cons)
  then have "GetFreeIP s = (Inr (Some [a, b, c, d]), s)"
    using assms by (simp add: GetFreeIP_def)
  then show ?thesis using assms(3) by (simp add: prospective_ip_def bindS_def thenS_def)
qed

lemma pool_of_discovers:
  fixes cfg :: dhcpd_config
  assumes "map hardware_text packets = map Inr macs" and "distinct macs" and "start_ip s = [a, b, c, d]"
    and "2 \<le> pool_size s" and "shared_map s = []"
  defines "t \<equiv> fold (\<lambda>p s. snd (HandleDhcpDiscover cfg p s)) packets s"
  shows "shared_map t = zip macs (map (\<lambda>i. [a, b, c, d + i]) [0..<length macs]) \<and>
         start_ip t = [a, b, c, d + (length macs - 1)] \<and> pool_size t = pool_size s"
  using assms(1,2) unfolding t_def
proof (induction packets arbitrary: macs rule: rev_induct)
  case Nil
  then show ?case using assms(3,5) by simp
next
  case (snoc p packets)
  then obtain ms mac where macs: "macs = ms @ [mac]" and ms: "map hardware_text packets = map Inr ms"
    and mac: "hardware_text p = Inr mac" and new: "mac \<notin> set ms" "distinct ms"
    by (cases macs rule: rev_cases) auto
  define t where "t = fold (\<lambda>p s. snd (HandleDhcpDiscover cfg p s)) packets s"
  have t: "shared_map t = zip ms (map (\<lambda>i. [a, b, c, d + i]) [0..<length ms])"
    "start_ip t = [a, b, c, d + (length ms - 1)]" "pool_size t = pool_size s"
    using snoc.IH [OF ms new(2)] by (auto simp: t_def)
  have step: "fold (\<lambda>p s. snd (HandleDhcpDiscover cfg p s)) (packets @ [p]) s = snd (HandleDhcpDiscover cfg p t)"
    by (simp add: t_def)
  show ?case
  proof (cases ms)
    case Nil
    then show ?thesis
      using discover_table [OF mac, of cfg t] first_address [of t a b c d mac] t assms(4) macs unfolding step by simp
  next
    case (Cons m ms')
    have "[a, b, c, d + (length ms - 1)] \<in> set (map snd (shared_map t))"
      "[a, b, c, d + (length ms - 1) + 1] \<notin> set (map snd (shared_map t))"
      using Cons by (auto simp: t(1))
    moreover have "map_of (shared_map t) mac = None"
      using new(1) by (simp add: t(1) map_of_zip_is_None)
    ultimately have "snd (prospective_ip mac t) =
        t\<lparr>start_ip := [a, b, c, d + (length ms - 1) + 1], shared_map := shared_map t @ [(mac, [a, b, c, d + (length ms - 1) + 1])]\<rparr>"
      using t(2,3) assms(4) by (intro next_address) auto
    moreover have "d + (length ms - 1) + 1 = d + length ms" using Cons by simp
    ultimately show ?thesis using discover_table [OF mac, of cfg t] t macs unfolding step by simp
  qed
qed

text \<open>
  The size of the pool does not bound it: with a pool of two or more addresses, the i-th of any number of machines
  is given the start of the pool plus i, past the configured size and past 255.
\<close>

theorem pool_size_ignored:
  assumes "map hardware_text packets = map Inr macs" and "distinct macs" and "start_ip s = [a, b, c, d]"
    and "2 \<le> pool_size s" and "shared_map s = []"
  shows "shared_map (fold (\<lambda>p s. snd (HandleDhcpDiscover cfg p s)) packets s) =
           zip macs (map (\<lambda>i. [a, b, c, d + i]) [0..<length macs])"
  using pool_of_discovers [OF assms] by blast

section \<open>Witnesses\<close>

definition demo_client :: "nat \<Rightarrow> nat \<Rightarrow> dhcp_packet" where
  "demo_client kind k = \<lparr>packet_data = [1, 1, 6] @ replicate 25 0 @ [8, 0, 0x27, 0, 0, k] @ replicate 202 0 @ MagicCookie,
     options_data = [(''dhcp_message_type'', [kind]), (''vendor_class_identifier'', ords ''PXEClient:Arch'')]\<rparr>"

definition demo_dhcpd_config :: dhcpd_config where
  "demo_dhcpd_config = \<lparr>listen_address = [192, 168, 1, 1], tftp_address = [192, 168, 1, 1], subnet_mask = [255, 255, 255, 0],
     broadcast_addr = [192, 168, 1, 255], boot_filename = ''pxelinux.0'', vendor_info = Some []\<rparr>"

definition demo_dhcpd :: "(string \<times> nat list) list \<Rightarrow> dhcpd" where
  "demo_dhcpd m = \<lparr>shared_acl = [''08:00:27:00:00:01'' \<mapsto> True], shared_map = m, shared_conf = Map.empty,
     start_ip = [192, 168, 1, 254], pool_size = 2, mac_to_bootfile = Map.empty, dhcp_sent = []\<rparr>"

lemma demo_client_facts:
  "hardware_text (demo_client 1 1) = Inr ''08:00:27:00:00:01''"
  "hardware_text (demo_client 1 2) = Inr ''08:00:27:00:00:02''"
  "hardware_text (demo_client 1 0xab) = Inr ''08:00:27:00:00:ab''"
  "hardware_text (demo_client 3 1) = Inr ''08:00:27:00:00:01''"
  "IsDhcpRequestPacket (demo_client 3 1)"
  "IsOption ''vendor_class_identifier'' (demo_client 3 1)"
  "is_pxe_client (demo_client 3 1) = Inr True"
  by code_simp+

theorem pool_size_ignored_witness:
  "shared_map (fold (\<lambda>p s. snd (HandleDhcpDiscover demo_dhcpd_config p s))
     [demo_client 1 1, demo_client 1 2, demo_client 1 0xab] (demo_dhcpd [])) =
   [(''08:00:27:00:00:01'', [192, 168, 1, 254]), (''08:00:27:00:00:02'', [192, 168, 1, 255]),
    (''08:00:27:00:00:ab'', [192, 168, 1, 256])]"
  using pool_size_ignored [of "[demo_client 1 1, demo_client 1 2, demo_client 1 0xab]"
    "[''08:00:27:00:00:01'', ''08:00:27:00:00:02'', ''08:00:27:00:00:ab'']" "demo_dhcpd []" 192 168 1 254 demo_dhcpd_config]
  by (simp add: demo_client_facts demo_dhcpd_def upt_rec del: One_nat_def)

theorem table_keeps_addresses_apart_witness:
  "table_ok (shared_map (dhcpd_run demo_dhcpd_config [[1, 2, 3], []] (demo_dhcpd [(''08:00:27:00:00:01'', [192, 168, 1, 254])])))"
  by (intro table_keeps_addresses_apart) (simp add: table_ok_def demo_dhcpd_def)

theorem permission_used_up_witness:
  "shared_acl (dhcpd_run demo_dhcpd_config [[1, 2, 3]]
     (snd (dispatch_packet demo_dhcpd_config (demo_client 3 1) (demo_dhcpd [(''08:00:27:00:00:01'', [192, 168, 1, 254])]))))
     ''08:00:27:00:00:01'' = None"
  by (rule permission_used_up [THEN conjunct1]) (auto simp: demo_client_facts demo_dhcpd_def simp del: One_nat_def)

end
