(* ===== verification/Tftp.thy ===== *)
theory Tftp
  imports PyState PyText
begin

text \<open>
  The TFTP server that boots the machines under observation, \<^verbatim>\<open>pybootd/tftpd.py\<close>.  A connection is a state
  machine driven by what arrives: the record \<open>conn\<close> is the object \<^verbatim>\<open>TftpConnection\<close>, with the packets it sent;
  arrivals are a list of events, whose end is a server that waits.  The operating system and the regular
  expressions of the configuration are the record \<open>host\<close>; of a time-out it says whether the text is a number,
  and whether \<^verbatim>\<open>select\<close> accepts it.
\<close>

section \<open>The environment and the server\<close>

record host =
  fcre_sub :: "string \<Rightarrow> string res"
  exists :: "string \<Rightarrow> bool"
  isfile :: "string \<Rightarrow> bool"
  isdir :: "string \<Rightarrow> bool"
  pkg_resource :: "string \<Rightarrow> string res"
  dist_location :: string
  listdir :: "string \<Rightarrow> string list res"
  size_of_resource :: "string \<Rightarrow> int option"
  open_resource :: "string \<Rightarrow> bytes option"
  can_create :: "string \<Rightarrow> bool"
  realpath :: "string \<Rightarrow> string"
  argv_dir :: string
  cwd :: string
  float_timeout :: "string \<Rightarrow> bool option"

record tftp_server =
  root :: string
  server_blocksize :: int
  server_timeout_ok :: bool
  retry :: int
  root_images :: "string option"
  mac_to_ip :: "(string \<times> int list) list option"
  mac_to_pxe_conf :: "(string \<rightharpoonup> string) option"

text \<open>
  \<^verbatim>\<open>TftpServer.__init__\<close>: the settings of the section \<^verbatim>\<open>tftp\<close>.  The number of retries is read from the option
  \<^verbatim>\<open>blocksize\<close>.
\<close>

definition config_get :: "(string \<rightharpoonup> string) \<Rightarrow> string \<Rightarrow> string \<Rightarrow> string" where
  "config_get cfg option dflt = (case cfg option of None \<Rightarrow> dflt | Some v \<Rightarrow> v)"

definition tftp_server_init ::
  "host \<Rightarrow> (string \<rightharpoonup> string) \<Rightarrow> (string \<times> int list) list option \<Rightarrow> (string \<rightharpoonup> string) option \<Rightarrow> tftp_server res" where
  "tftp_server_init h cfg ips confs =
     bindE (py_int (config_get cfg ''blocksize'' ''512'')) (\<lambda>bs.
     case float_timeout h (config_get cfg ''timeout'' ''2.0'') of None \<Rightarrow> Inl ValueError | Some ok \<Rightarrow>
     bindE (py_int (config_get cfg ''blocksize'' ''5'')) (\<lambda>rt.
       Inr \<lparr>root = config_get cfg ''root'' (cwd h), server_blocksize = bs, server_timeout_ok = ok, retry = rt,
            root_images = cfg ''root_images'', mac_to_ip = ips, mac_to_pxe_conf = confs\<rparr>))"

text \<open>\<^verbatim>\<open>_get_mac\<close> and \<^verbatim>\<open>get_pxe_conf\<close>: the configuration to serve to an address.\<close>

definition get_mac :: "tftp_server \<Rightarrow> string \<Rightarrow> string option res" where
  "get_mac srv ip_address =
     (case mac_to_ip srv of
        None \<Rightarrow> Inr None
      | Some items \<Rightarrow>
          bindE (mapE py_int (split_on CHR ''.'' ip_address)) (\<lambda>ip.
            Inr (map_option fst (find (\<lambda>(mac, i). i = ip) items))))"

definition get_pxe_conf :: "tftp_server \<Rightarrow> string \<Rightarrow> string option res" where
  "get_pxe_conf srv ip_address =
     bindE (get_mac srv ip_address) (\<lambda>mac.
       Inr (case mac of
         None \<Rightarrow> None
       | Some m \<Rightarrow> (case mac_to_pxe_conf srv of None \<Rightarrow> None | Some confs \<Rightarrow> confs m)))"

section \<open>Connections\<close>

datatype tfile = NoFile | Reading bytes | Writing string bytes

type_synonym address = "string \<times> nat"

record conn =
  client_addr :: address
  active :: bool
  blockNumber :: int
  lastpkt :: bytes
  file_obj :: tfile
  blocksize :: int
  timeout_ok :: bool
  sent :: "bytes list"

type_synonym 'a cmethod = "(conn, 'a) pymethod"

definition new_conn :: "tftp_server \<Rightarrow> address \<Rightarrow> conn" where
  "new_conn srv addr = \<lparr>client_addr = addr, active = False, blockNumber = 0, lastpkt = [], file_obj = NoFile,
     blocksize = server_blocksize srv, timeout_ok = server_timeout_ok srv, sent = []\<rparr>"

text \<open>Signed 16-bit numbers, \<^verbatim>\<open>!h\<close>.\<close>

definition pack_h :: "int \<Rightarrow> bytes res" where
  "pack_h i = (if -32768 \<le> i \<and> i \<le> 32767 then Inr (be_bytes 2 (nat (i mod 65536))) else Inl StructError)"

definition unpack_h :: "bytes \<Rightarrow> int res" where
  "unpack_h bs =
     (if length bs = 2 then let n = int (be_val bs) in Inr (if 32768 \<le> n then n - 65536 else n) else Inl StructError)"

definition op_RRQ :: int where "op_RRQ = 1"
definition op_WRQ :: int where "op_WRQ = 2"
definition op_DATA :: int where "op_DATA = 3"
definition op_ACK :: int where "op_ACK = 4"
definition op_ERR :: int where "op_ERR = 5"
definition op_OACK :: int where "op_OACK = 6"

lemmas opcodes = op_RRQ_def op_WRQ_def op_DATA_def op_ACK_def op_ERR_def op_OACK_def

definition send :: "bytes \<Rightarrow> unit cmethod" where
  "send pkt = setS (\<lambda>c. c\<lparr>sent := sent c @ [pkt], lastpkt := pkt\<rparr>)"

definition retransmit :: "conn \<Rightarrow> conn" where
  "retransmit c = (if lastpkt c \<noteq> [] then c\<lparr>sent := sent c @ [lastpkt c]\<rparr> else c)"

text \<open>\<^verbatim>\<open>send_data\<close>: the block number is counted up before the tftp_packet is built.\<close>

definition send_data :: "bytes \<Rightarrow> unit cmethod" where
  "send_data data =
     thenS (setS (\<lambda>c. c\<lparr>blockNumber := blockNumber c + 1\<rparr>))
       (bindS (getS (\<lambda>c. pack_h (blockNumber c))) (\<lambda>r. bindS (liftS r) (\<lambda>block.
        thenS (send (be_bytes 2 3 @ block @ data))
          (setS (\<lambda>c. c\<lparr>active := (int (length data) = blocksize c)\<rparr>)))))"

definition send_ack :: "unit cmethod" where
  "send_ack =
     bindS (getS blockNumber) (\<lambda>block.
     thenS (setS (\<lambda>c. c\<lparr>blockNumber := blockNumber c + 1\<rparr>))
       (bindS (liftS (pack_h block)) (\<lambda>b. send (be_bytes 2 4 @ b))))"

definition send_error :: "int \<Rightarrow> string \<Rightarrow> unit cmethod" where
  "send_error errnum errtext =
     bindS (liftS (pack_h errnum)) (\<lambda>e.
       setS (\<lambda>c. c\<lparr>sent := sent c @ [be_bytes 2 5 @ e @ ascii errtext @ [0]]\<rparr>))"

definition send_oack :: "(string \<times> string) list \<Rightarrow> unit cmethod" where
  "send_oack options =
     thenS (send (be_bytes 2 6 @ concat (map (\<lambda>(k, v). ascii k @ [0] @ ascii v @ [0]) options)))
       (setS (\<lambda>c. c\<lparr>lastpkt := []\<rparr>))"

text \<open>\<^verbatim>\<open>self.file.read(n)\<close> and \<^verbatim>\<open>self.file.write(d)\<close>: a negative size reads everything.\<close>

definition read_file :: "bytes cmethod" where
  "read_file =
     bindS (getS id) (\<lambda>c. case file_obj c of
        NoFile \<Rightarrow> raiseS AttributeError
      | Writing p d \<Rightarrow> raiseS IOError
      | Reading d \<Rightarrow>
          let n = (if blocksize c < 0 then length d else nat (blocksize c)) in
          thenS (setS (\<lambda>c. c\<lparr>file_obj := Reading (drop n d)\<rparr>)) (returnS (take n d)))"

definition write_file :: "bytes \<Rightarrow> unit cmethod" where
  "write_file data =
     bindS (getS file_obj) (\<lambda>f. case f of
        NoFile \<Rightarrow> raiseS AttributeError
      | Reading d \<Rightarrow> raiseS IOError
      | Writing p d \<Rightarrow> setS (\<lambda>c. c\<lparr>file_obj := Writing p (d @ data)\<rparr>))"

section \<open>Names of resources\<close>

text \<open>\<^verbatim>\<open>urlsplit(path).scheme\<close> is not empty.\<close>

definition scheme_char :: "char \<Rightarrow> bool" where
  "scheme_char c \<longleftrightarrow> (let n = (of_char c :: nat) in
     48 \<le> n \<and> n \<le> 57 \<or> 65 \<le> n \<and> n \<le> 90 \<or> 97 \<le> n \<and> n \<le> 122 \<or> n = 43 \<or> n = 45 \<or> n = 46)"

definition is_url :: "string \<Rightarrow> bool" where
  "is_url path =
     (let scheme = takeWhile (\<lambda>c. c \<noteq> CHR '':'') path; rest = drop (length scheme + 1) path in
      CHR '':'' \<in> set path \<and> scheme \<noteq> [] \<and>
      (scheme = ''http'' \<or> list_all scheme_char scheme \<and> (rest = [] \<or> \<not> list_all is_digit rest)))"

text \<open>\<^verbatim>\<open>genfilecre\<close>: a name in brackets at the start.\<close>

definition word_char :: "char \<Rightarrow> bool" where
  "word_char c \<longleftrightarrow> (let n = (of_char c :: nat) in
     48 \<le> n \<and> n \<le> 57 \<or> 65 \<le> n \<and> n \<le> 90 \<or> 97 \<le> n \<and> n \<le> 122 \<or> n = 95 \<or> n = 46 \<or> n = 45)"

definition genfile :: "string \<Rightarrow> string option" where
  "genfile resource =
     (case resource of
        c # rest \<Rightarrow>
          let name = takeWhile word_char rest in
          if c = CHR ''['' \<and> name \<noteq> [] \<and> starts_with '']'' (drop (length name) rest) then Some name else None
      | [] \<Rightarrow> None)"

definition pybootd_path :: "host \<Rightarrow> string \<Rightarrow> string res" where
  "pybootd_path h path =
     bindE (if starts_with ''/'' path \<or> exists h path then Inr path
            else case pkg_resource h path of
                   Inl KeyError \<Rightarrow> Inl IOError
                 | Inl e \<Rightarrow> Inl e
                 | Inr p \<Rightarrow> Inr (if p = [] then path_join (dist_location h) path else p)) (\<lambda>newpath.
       if \<not> isfile h newpath \<and> \<not> isdir h newpath then Inl IOError else Inr newpath)"

definition daemon_path :: "host \<Rightarrow> string" where
  "daemon_path h =
     (if starts_with ''/'' (argv_dir h) then argv_dir h else normpath (path_join (cwd h) (argv_dir h)))"

text \<open>
  The part of \<^verbatim>\<open>parse\<close> that turns the name in a request into a path: filters, leading slashes, and below the root
  of the server; a name that \<^verbatim>\<open>pybootd_path\<close> does not find has been joined with the root already.
\<close>

definition resolve :: "host \<Rightarrow> tftp_server \<Rightarrow> string \<Rightarrow> string res" where
  "resolve h srv name =
     bindE (fcre_sub h name) (\<lambda>filtered.
       let resource = dropWhile (\<lambda>c. c = CHR ''/'') filtered in
       if root srv \<noteq> [] \<and> is_url (root srv) then Inr (root srv @ ''/'' @ resource)
       else let joined = path_join (root srv) resource in
         case pybootd_path h joined of
           Inr p \<Rightarrow> Inr p
         | Inl IOError \<Rightarrow>
             if genfile joined \<noteq> None then Inr joined
             else Inr (normpath
               (if starts_with ''^/'' joined then
                  path_join (argv_dir h) (dropWhile (\<lambda>c. c = CHR ''^'' \<or> c = CHR ''/'') joined)
                else if root srv \<noteq> [] then
                  if starts_with ''/'' (root srv) then path_join (root srv) joined
                  else path_join (path_join (daemon_path h) (root srv)) joined
                else joined))
         | Inl e \<Rightarrow> Inl e)"

section \<open>Parsing packets\<close>

datatype pval = PInt int | PStr string | PData bytes

type_synonym tftp_packet = "string \<rightharpoonup> pval"

abbreviation (input) NUL :: char where "NUL \<equiv> CHR 0x00"

text \<open>Every option becomes a key of the packet, also one that is there already.\<close>

definition request_option :: "host \<Rightarrow> string \<Rightarrow> string \<Rightarrow> unit cmethod" where
  "request_option h key value =
     (if key = ''blksize'' then bindS (liftS (py_int value)) (\<lambda>i. setS (\<lambda>c. c\<lparr>blocksize := i\<rparr>))
      else if key = ''timeout'' then
        (case float_timeout h value of None \<Rightarrow> raiseS ValueError | Some ok \<Rightarrow> setS (\<lambda>c. c\<lparr>timeout_ok := ok\<rparr>))
      else returnS ())"

lemma split_third_shorter: "split_max 2 NUL s = [a, b, p] \<Longrightarrow> length p < length s"
  using length_split_max [of p 2 NUL s] by simp

function request_options :: "host \<Rightarrow> string \<Rightarrow> tftp_packet \<Rightarrow> tftp_packet cmethod" where
  "request_options h options pkt =
     (if options = [] then returnS pkt
      else case split_max 2 NUL options of
             [key, value, rest] \<Rightarrow> thenS (request_option h key value) (request_options h rest (pkt(key \<mapsto> PStr value)))
           | _ \<Rightarrow> raiseS ValueError)"
  by pat_completeness auto
termination
  by (relation "measure (\<lambda>(h, options, pkt). length options)") (auto dest: split_third_shorter)

declare request_options.simps [simp del]

definition parse :: "host \<Rightarrow> tftp_server \<Rightarrow> bytes \<Rightarrow> tftp_packet cmethod" where
  "parse h srv data =
     bindS (liftS (unpack_h (slice 0 2 data))) (\<lambda>opcode.
       let pkt = [''opcode'' \<mapsto> PInt opcode] in
       if opcode = op_RRQ \<or> opcode = op_WRQ then
         case split_max 2 NUL (text_of (drop 2 data)) of
           [resource, mode, options] \<Rightarrow>
             bindS (liftS (resolve h srv resource)) (\<lambda>res.
               request_options h options (pkt(''filename'' \<mapsto> PStr res, ''mode'' \<mapsto> PStr mode)))
         | _ \<Rightarrow> raiseS ValueError
       else if opcode = op_ACK then
         bindS (liftS (unpack_h (slice 2 4 data))) (\<lambda>block. returnS (pkt(''block'' \<mapsto> PInt block)))
       else if opcode = op_DATA then
         bindS (liftS (unpack_h (slice 2 4 data))) (\<lambda>block.
           returnS (pkt(''block'' \<mapsto> PInt block, ''data'' \<mapsto> PData (drop 4 data))))
       else if opcode = op_ERR then
         bindS (liftS (unpack_h (slice 2 4 data))) (\<lambda>errnum.
           returnS (pkt(''errnum'' \<mapsto> PInt errnum, ''errtxt'' \<mapsto> PData (butlast (drop 4 data)))))
       else raiseS (TftpError 4 ''Unknown tftp_packet type''))"

section \<open>Receiving\<close>

datatype event = Silence | Datagram address bytes

definition HDRSIZE :: int where
  "HDRSIZE = 4"

text \<open>
  The loop of \<^verbatim>\<open>recv\<close>: a time-out sends the last tftp_packet again and uses up a retry, a datagram of somebody else
  is dropped.  The result is the datagram and what arrives later, or nothing if the server waits for ever.
\<close>

fun conn_recv :: "int \<Rightarrow> event list \<Rightarrow> conn \<Rightarrow> (bytes \<times> event list) option res \<times> conn" where
  "conn_recv n [] c =
     (if n = 0 then Inl (TftpError 4 ''Transfer timed out'')
      else if \<not> timeout_ok c then Inl (PyException ''select.error'') else Inr None, c)"
| "conn_recv n (ev # evs) c =
     (if n = 0 then (Inl (TftpError 4 ''Transfer timed out''), c)
      else if \<not> timeout_ok c then (Inl (PyException ''select.error''), c)
      else case ev of
        Silence \<Rightarrow> conn_recv (n - 1) evs (retransmit c)
      | Datagram addr data \<Rightarrow>
          let pktsize = blocksize c + HDRSIZE in
          if pktsize < 0 then (Inl ValueError, c)
          else if addr = client_addr c then (Inr (Some (take (nat pktsize) data, evs)), c)
          else conn_recv n evs c)"

section \<open>Handlers\<close>

text \<open>The configuration for restoring an image, with a place for the name of the image.\<close>

definition NETWORK_CONFIG :: string where
  "NETWORK_CONFIG = ''DEFAULT clonezilla-auto-restore-physical\<newline>PROMPT 0\<newline>\<newline>LABEL clonezilla-auto-restore-physical\<newline>'' @
     ''        kernel clonezilla-live/vmlinuz\<newline>        append initrd=clonezilla-live/initrd.img boot=live config '' @
     ''noswap nolocales edd=on nomodeset keyboard-layouts=none locales=en_US.UTF-8 vga=788 nosplash noprompt '' @
     ''fetch=tftp://lophi-pxe/clonezilla-live/filesystem.squashfs ocs_prerun1=\"mount -t cifs '' @
     ''//lophi-pxe/images/ /home/partimag -o user=guest,guest,noexec\" ocs_live_run=\"ocs-sr --batch '' @
     ''-e1 auto -e2 -r -j2 -p poweroff restoredisk %%image_name%% sda\" ocs_live_extra_param=\"\"\<newline>''"

definition get_pxe_config_str :: "string \<Rightarrow> string" where
  "get_pxe_config_str image_name = replace_all ''%%image_name%%'' image_name NETWORK_CONFIG"

text \<open>
  The first part of \<^verbatim>\<open>handle_rrq\<close>: a request for the default boot configuration is answered with the file that
  LO-PHI set for the machine, or with a configuration made for the image of that name.
\<close>

definition rrq_resource :: "host \<Rightarrow> tftp_server \<Rightarrow> address \<Rightarrow> string \<Rightarrow> (string \<times> string option) res" where
  "rrq_resource h srv addr resource =
     (if resource = [] then Inl ValueError
      else if relpath (cwd h) resource (root srv) = ''pxelinux.cfg/default'' then
        bindE (get_pxe_conf srv (fst addr)) (\<lambda>custom_file. case custom_file of
            None \<Rightarrow> Inr (resource, None)
          | Some custom \<Rightarrow>
              let custom_file_fullpath = path_join (dirname resource) custom in
              bindE (case root_images srv of
                       None \<Rightarrow> Inr None
                     | Some dir \<Rightarrow> bindE (listdir h dir) (\<lambda>l. Inr (Some l))) (\<lambda>images.
                if exists h custom_file_fullpath then Inr (custom_file_fullpath, None)
                else case images of
                       None \<Rightarrow> Inr (resource, None)
                     | Some l \<Rightarrow> Inr (resource, if custom \<in> set l then Some (get_pxe_config_str custom) else None)))
      else Inr (resource, None))"

text \<open>The content that is sent: made text, the name in brackets, or what the resource contains if it opens.\<close>

definition rrq_content :: "host \<Rightarrow> string \<Rightarrow> string option \<Rightarrow> bytes option" where
  "rrq_content h resource lophi_string =
     (case lophi_string of
        Some s \<Rightarrow> Some (ascii s)
      | None \<Rightarrow>
          if genfile resource \<noteq> None then Some (ascii (butlast (tl resource)))
          else open_resource h (if is_url resource then resource else realpath h resource))"

definition rrq_size :: "host \<Rightarrow> string \<Rightarrow> string option \<Rightarrow> int option" where
  "rrq_size h resource lophi_string =
     (case lophi_string of
        Some s \<Rightarrow> Some (int (length s))
      | None \<Rightarrow>
          (case genfile resource of
             Some name \<Rightarrow> Some (int (length name))
           | None \<Rightarrow> size_of_resource h resource))"

text \<open>\<^verbatim>\<open>pkt[k]\<close> for a key whose value is text.\<close>

definition text_at :: "tftp_packet \<Rightarrow> string \<Rightarrow> string res" where
  "text_at pkt k = (case pkt k of Some (PStr s) \<Rightarrow> Inr s | Some _ \<Rightarrow> Inl TypeError | None \<Rightarrow> Inl KeyError)"

definition rrq_options :: "tftp_packet \<Rightarrow> int \<Rightarrow> (string \<times> string) list" where
  "rrq_options pkt filesize =
     (''tsize'', int_str filesize) # (case pkt ''blksize'' of Some (PStr b) \<Rightarrow> [(''blksize'', b)] | _ \<Rightarrow> [])"

text \<open>Whether a size was asked for: only the size 0 is a question, but any size keeps the first block back.\<close>

definition asks_size :: "tftp_packet \<Rightarrow> bool res" where
  "asks_size pkt =
     (if pkt ''tsize'' = None then Inr False
      else bindE (text_at pkt ''tsize'') (\<lambda>s. bindE (py_int s) (\<lambda>n. Inr (n = 0))))"

definition rrq_send :: "host \<Rightarrow> tftp_packet \<Rightarrow> string \<Rightarrow> string option \<Rightarrow> unit cmethod" where
  "rrq_send h pkt resource lophi_string =
     (case rrq_content h resource lophi_string of
        None \<Rightarrow> send_error 1 ''Cannot open resource''
      | Some d \<Rightarrow>
          thenS (setS (\<lambda>c. c\<lparr>file_obj := Reading d\<rparr>))
            (whenS (pkt ''tsize'' = None) (bindS read_file send_data)))"

definition handle_rrq :: "host \<Rightarrow> tftp_server \<Rightarrow> tftp_packet \<Rightarrow> unit cmethod" where
  "handle_rrq h srv pkt =
     bindS (liftS (text_at pkt ''filename'')) (\<lambda>name.
     bindS (getS (\<lambda>c. rrq_resource h srv (client_addr c) name)) (\<lambda>r. bindS (liftS r) (\<lambda>(resource, lophi_string).
     bindS (liftS (asks_size pkt)) (\<lambda>asks.
       if asks then
         case rrq_size h resource lophi_string of
           None \<Rightarrow> thenS (setS (\<lambda>c. c\<lparr>active := False\<rparr>)) (send_error 1 ''Cannot access resource'')
         | Some filesize \<Rightarrow> thenS (send_oack (rrq_options pkt filesize)) (rrq_send h pkt resource lophi_string)
       else rrq_send h pkt resource lophi_string))))"

definition handle_wrq :: "host \<Rightarrow> tftp_packet \<Rightarrow> unit cmethod" where
  "handle_wrq h pkt =
     bindS (liftS (text_at pkt ''filename'')) (\<lambda>resource.
       if is_url resource then returnS ()
       else if can_create h resource then
         thenS (setS (\<lambda>c. c\<lparr>file_obj := Writing resource []\<rparr>)) send_ack
       else send_error 1 ''Cannot open file'')"

definition handle_ack :: "unit cmethod" where
  "handle_ack = bindS (getS active) (\<lambda>a. whenS a (bindS read_file send_data))"

definition handle_data :: "bytes \<Rightarrow> unit cmethod" where
  "handle_data data = thenS send_ack (write_file data)"

definition recv_ack :: "int \<Rightarrow> unit cmethod" where
  "recv_ack block = bindS (getS blockNumber) (\<lambda>n. whenS (block = n) handle_ack)"

definition recv_data :: "int \<Rightarrow> bytes \<Rightarrow> unit cmethod" where
  "recv_data block data =
     bindS (getS blockNumber) (\<lambda>n. whenS (block = n)
       (thenS (setS (\<lambda>c. c\<lparr>active := (blocksize c = int (length data))\<rparr>)) (handle_data data)))"

definition recv_err :: "unit cmethod" where
  "recv_err = setS retransmit"

section \<open>A connection\<close>

text \<open>The body of the loop in \<^verbatim>\<open>connect\<close>, for a datagram that was client_received.\<close>

definition dispatch :: "tftp_packet \<Rightarrow> unit cmethod" where
  "dispatch pkt =
     (case (pkt ''opcode'', pkt ''block'', pkt ''data'') of
        (Some (PInt opcode), block, data) \<Rightarrow>
          if opcode = op_DATA then
            (case (block, data) of (Some (PInt n), Some (PData d)) \<Rightarrow> recv_data n d | _ \<Rightarrow> raiseS KeyError)
          else if opcode = op_ACK then (case block of Some (PInt n) \<Rightarrow> recv_ack n | _ \<Rightarrow> raiseS KeyError)
          else if opcode = op_ERR then recv_err
          else raiseS (TftpError 5 ''Invalid opcode'')
      | _ \<Rightarrow> raiseS (TftpError 5 ''Invalid opcode''))"

lemma conn_recv_shorter: "conn_recv n evs c = (Inr (Some (data, rest)), c') \<Longrightarrow> length rest < length evs"
proof (induction n evs c rule: conn_recv.induct)
  case (2 n ev evs c)
  then show ?case by (cases ev) (auto simp: Let_def less_SucI split: if_splits)
qed (simp split: if_splits)

text \<open>The loop until the transfer is done; the result tells whether it ended or waits for ever.\<close>

function serve :: "host \<Rightarrow> tftp_server \<Rightarrow> event list \<Rightarrow> conn \<Rightarrow> bool res \<times> conn" where
  "serve h srv evs c =
     (if \<not> active c then (Inr True, c)
      else case conn_recv (retry srv) evs c of
        (Inl e, c1) \<Rightarrow> (Inl e, c1)
      | (Inr None, c1) \<Rightarrow> (Inr False, c1)
      | (Inr (Some (data, rest)), c1) \<Rightarrow>
          (case bindS (parse h srv data) dispatch c1 of
             (Inl e, c2) \<Rightarrow> (Inl e, c2)
           | (Inr u, c2) \<Rightarrow> serve h srv rest c2))"
  by pat_completeness auto
termination
  by (relation "measure (\<lambda>(h, srv, evs, c). length evs)") (auto dest: conn_recv_shorter [OF sym])

declare serve.simps [simp del]

text \<open>The request that opens a connection.\<close>

definition start :: "host \<Rightarrow> tftp_server \<Rightarrow> bytes \<Rightarrow> unit cmethod" where
  "start h srv data =
     bindS (parse h srv data) (\<lambda>pkt.
       if pkt ''opcode'' = Some (PInt op_RRQ) then
         thenS (setS (\<lambda>c. c\<lparr>active := True\<rparr>)) (handle_rrq h srv pkt)
       else if pkt ''opcode'' = Some (PInt op_WRQ) then
         thenS (setS (\<lambda>c. c\<lparr>active := True\<rparr>)) (handle_wrq h pkt)
       else raiseS (TftpError 4 ''Bad request''))"

text \<open>A TFTP error is sent to the client, any other exception is only logged.\<close>

definition report_error :: "py_error \<Rightarrow> unit cmethod" where
  "report_error e = (case e of TftpError errnum errtext \<Rightarrow> send_error errnum errtext | _ \<Rightarrow> returnS ())"

definition transfer :: "host \<Rightarrow> tftp_server \<Rightarrow> bytes \<Rightarrow> event list \<Rightarrow> bool cmethod" where
  "transfer h srv data evs = thenS (start h srv data) (serve h srv evs)"

definition connect :: "host \<Rightarrow> tftp_server \<Rightarrow> address \<Rightarrow> bytes \<Rightarrow> event list \<Rightarrow> bool res \<times> conn" where
  "connect h srv addr data evs =
     tryS (transfer h srv data evs) (\<lambda>e. thenS (report_error e) (returnS True)) (new_conn srv addr)"

text \<open>\<^verbatim>\<open>forever\<close>: every datagram at the port of the server gets a connection of its own.\<close>

definition accept :: "host \<Rightarrow> tftp_server \<Rightarrow> address \<Rightarrow> bytes \<Rightarrow> event list \<Rightarrow> bool res \<times> conn" where
  "accept h srv addr data evs = connect h srv addr (take 516 data) evs"

end
