(* ===== verification/TftpProperties.thy ===== *)
theory TftpProperties
  imports Tftp
begin

text \<open>
  What a client gets from the TFTP server.  The client of RFC 1350 takes data packets in the order of their
  numbers; a connection is in step if what this client has, together with what is left of the open file, is
  the file.  The lemmas carry this through every packet that may arrive.
\<close>

section \<open>The client\<close>

definition client :: "bytes \<Rightarrow> nat \<times> bytes \<Rightarrow> nat \<times> bytes" where
  "client pkt st =
     (case st of (n, got) \<Rightarrow>
        if take 2 pkt = be_bytes 2 3 \<and> slice 2 4 pkt = be_bytes 2 (n + 1) then (n + 1, got @ drop 4 pkt) else (n, got))"

definition client_received :: "bytes list \<Rightarrow> nat \<times> bytes" where
  "client_received pkts = fold client pkts (0, [])"

lemma client_received_snoc [simp]: "client_received (pkts @ [p]) = client p (client_received pkts)"
  by (simp add: client_received_def)

lemma client_received_Nil [simp]: "client_received [] = (0, [])"
  by (simp add: client_received_def)

lemma be_bytes_two: "n < 65536 \<Longrightarrow> m < 65536 \<Longrightarrow> be_bytes 2 n = be_bytes 2 m \<longleftrightarrow> n = m"
proof -
  assume "n < 65536" "m < 65536"
  then have "be_val (be_bytes 2 n) = n" "be_val (be_bytes 2 m) = m" by (simp_all add: be_val_be_bytes)
  then show ?thesis by metis
qed

lemma client_data:
  assumes "b < 65536" and "n + 1 < 65536"
  shows "client (be_bytes 2 3 @ be_bytes 2 b @ data) (n, got) = (if b = n + 1 then (n + 1, got @ data) else (n, got))"
  using be_bytes_two [OF assms] by (simp add: client_def slice_def)

lemma client_other: "op < 65536 \<Longrightarrow> op \<noteq> 3 \<Longrightarrow> client (be_bytes 2 op @ rest) st = st"
  using be_bytes_two [of op 3] by (auto simp: client_def split: prod.split)

lemma client_Nil [simp]: "client [] st = st"
proof -
  have "[] \<noteq> be_bytes 2 3" using length_be_bytes [of 2 3] by (metis list.size(3) zero_neq_numeral)
  then show ?thesis by (auto simp: client_def split: prod.split)
qed

lemma pack_h_nat: "pack_h (int n) = (if n \<le> 32767 then Inr (be_bytes 2 n) else Inl StructError)"
  by (simp add: pack_h_def)

section \<open>Reading in step\<close>

definition in_step :: "bytes \<Rightarrow> conn \<Rightarrow> bool" where
  "in_step d c \<longleftrightarrow>
     (\<exists>n x r. file_obj c = Reading r \<and> d = x @ r \<and> blockNumber c = int n \<and> n \<le> 32767 \<and>
        client_received (sent c) = (n, x) \<and> client (lastpkt c) (n, x) = (n, x) \<and> (active c \<or> r = []))"

definition behind :: "bytes \<Rightarrow> conn \<Rightarrow> bool" where
  "behind d c \<longleftrightarrow> (\<exists>r. d = snd (client_received (sent c)) @ r)"

lemma in_step_behind: "in_step d c \<Longrightarrow> behind d c"
  by (auto simp: in_step_def behind_def)

lemma in_step_done: "in_step d c \<Longrightarrow> \<not> active c \<Longrightarrow> snd (client_received (sent c)) = d"
  by (auto simp: in_step_def)

lemma in_step_settings [simp]:
  "in_step d (c\<lparr>blocksize := b\<rparr>) = in_step d c" "in_step d (c\<lparr>timeout_ok := t\<rparr>) = in_step d c"
  by (simp_all add: in_step_def)

lemma in_step_retransmit: "in_step d c \<Longrightarrow> in_step d (retransmit c)"
  by (auto simp: in_step_def retransmit_def)

lemma retransmit_fields [simp]:
  "active (retransmit c) = active c" "client_addr (retransmit c) = client_addr c"
  "blocksize (retransmit c) = blocksize c" "timeout_ok (retransmit c) = timeout_ok c"
  "file_obj (retransmit c) = file_obj c" "blockNumber (retransmit c) = blockNumber c"
  "lastpkt (retransmit c) = lastpkt c"
  by (simp_all add: retransmit_def)

text \<open>One more block: what it says of the read is what \<^verbatim>\<open>self.file.read(self.blocksize)\<close> takes.\<close>

definition chunk :: "conn \<Rightarrow> bytes \<Rightarrow> nat" where
  "chunk c r = (if blocksize c < 0 then length r else nat (blocksize c))"

lemma next_block_sent:
  assumes "file_obj c = Reading r" and "blockNumber c = int n" and "n < 32767"
  shows "bindS read_file send_data c = (Inr (), c\<lparr>file_obj := Reading (drop (chunk c r) r), blockNumber := int (n + 1),
      sent := sent c @ [be_bytes 2 3 @ be_bytes 2 (n + 1) @ take (chunk c r) r],
      lastpkt := be_bytes 2 3 @ be_bytes 2 (n + 1) @ take (chunk c r) r,
      active := (int (length (take (chunk c r) r)) = blocksize c)\<rparr>)"
proof -
  have "pack_h (int n + 1) = Inr (be_bytes 2 (n + 1))" using pack_h_nat [of "n + 1"] assms(3)
    by (simp add: add.commute)
  then show ?thesis using assms(1,2)
    by (simp add: read_file_def bindS_def thenS_def Let_def chunk_def [symmetric] send_data_def send_def)
qed

lemma next_block_limit:
  assumes "file_obj c = Reading r" and "blockNumber c = 32767"
  shows "\<exists>c'. bindS read_file send_data c = (Inl StructError, c') \<and> sent c' = sent c"
  using assms pack_h_nat [of 32768] by (simp add: read_file_def bindS_def thenS_def Let_def send_data_def)

lemma next_block_in_step:
  assumes "in_step d c" and "bindS read_file send_data c = (r, c')"
  shows "(r = Inr () \<and> in_step d c') \<or> (\<exists>e. r = Inl e \<and> behind d c')"
proof -
  obtain n x rest where c: "file_obj c = Reading rest" "d = x @ rest" "blockNumber c = int n" "n \<le> 32767"
    "client_received (sent c) = (n, x)" using assms(1) by (auto simp: in_step_def)
  show ?thesis
  proof (cases "n < 32767")
    case True
    let ?k = "chunk c rest"
    have eq: "r = Inr ()" "file_obj c' = Reading (drop ?k rest)" "blockNumber c' = int (n + 1)"
      "sent c' = sent c @ [be_bytes 2 3 @ be_bytes 2 (n + 1) @ take ?k rest]"
      "lastpkt c' = be_bytes 2 3 @ be_bytes 2 (n + 1) @ take ?k rest"
      "active c' \<longleftrightarrow> int (length (take ?k rest)) = blocksize c"
      using assms(2) unfolding next_block_sent [OF c(1,3) True] by auto
    have "active c' \<or> drop ?k rest = []" unfolding eq(6) by (auto simp: chunk_def min_def split: if_splits)
    moreover have "client_received (sent c') = (n + 1, x @ take ?k rest)"
      "client (lastpkt c') (n + 1, x @ take ?k rest) = (n + 1, x @ take ?k rest)"
      using c(5) True unfolding eq by (auto simp: client_data)
    moreover have "d = (x @ take ?k rest) @ drop ?k rest" using c(2) by simp
    ultimately have "in_step d c'" using eq(2,3) True unfolding in_step_def by (metis Suc_eq_plus1 Suc_leI)
    then show ?thesis using eq(1) by blast
  next
    case False
    then have "n = 32767" using c(4) by simp
    then show ?thesis using next_block_limit [OF c(1)] c assms(2) by (auto simp: behind_def)
  qed
qed

section \<open>What arrives\<close>

lemma conn_recv_keeps:
  assumes "\<And>c. P c \<Longrightarrow> P (retransmit c)" and "P c"
  shows "P (snd (conn_recv n evs c))"
  using assms(2)
proof (induction n evs c rule: conn_recv.induct)
  case (2 n ev evs c)
  then show ?case using assms(1) by (cases ev) (auto simp: Let_def)
qed (simp split: if_splits)

lemma request_option_settings: "\<exists>b t. snd (request_option h key v c) = c\<lparr>blocksize := b, timeout_ok := t\<rparr>"
proof -
  have "\<exists>b t. c = c\<lparr>blocksize := b, timeout_ok := t\<rparr>" "\<And>i. \<exists>b t. c\<lparr>blocksize := i\<rparr> = c\<lparr>blocksize := b, timeout_ok := t\<rparr>"
    "\<And>i. \<exists>b t. c\<lparr>timeout_ok := i\<rparr> = c\<lparr>blocksize := b, timeout_ok := t\<rparr>"
    by (metis conn.surjective conn.update_convs(6,7))+
  then show ?thesis
    by (cases "py_int v") (auto simp: request_option_def bindS_def split: option.splits)
qed

definition settings :: "conn \<Rightarrow> conn \<Rightarrow> bool" where
  "settings c c' \<longleftrightarrow> (\<exists>b t. c' = c\<lparr>blocksize := b, timeout_ok := t\<rparr>)"

lemma settings_refl [simp]: "settings c c"
  unfolding settings_def by (metis conn.surjective conn.update_convs(6,7))

lemma settings_trans: "settings a b \<Longrightarrow> settings b c \<Longrightarrow> settings a c"
  unfolding settings_def by (elim exE, hypsubst, intro exI) simp

lemma keeps_settings [keeps_intros]: "keeps (settings c0) (request_option h key v)"
  unfolding keeps_def using request_option_settings settings_trans unfolding settings_def by metis

lemma keeps_request_options: "keeps (settings c0) (request_options h options pkt)"
proof (induction h options pkt rule: request_options.induct)
  case (1 h options pkt)
  show ?case
    by (subst request_options.simps)
      (auto intro!: keeps_intros 1 split: list.split)
qed

lemma keeps_parse: "keeps (settings c0) (parse h srv data)"
  unfolding parse_def Let_def by (auto intro!: keeps_intros keeps_request_options split: list.split)

lemma parse_settings: "parse h srv data c = (r, c') \<Longrightarrow> settings c c'"
  using keepsD [OF keeps_parse, of c c h srv data] by simp

lemma in_step_settings_eq: "settings c c' \<Longrightarrow> in_step d c' = in_step d c"
  by (auto simp: settings_def)

text \<open>A packet that is not a request changes no settings, and a request in a transfer ends it.\<close>

lemma write_in_step:
  assumes "in_step d c" and "handle_data data (c\<lparr>active := a\<rparr>) = (r, c')"
  shows "\<exists>e. r = Inl e \<and> behind d c'"
proof -
  obtain n x rest where c: "file_obj c = Reading rest" "d = x @ rest" "blockNumber c = int n" "n \<le> 32767"
    "client_received (sent c) = (n, x)" using assms(1) by (auto simp: in_step_def)
  have "client (be_bytes 2 4 @ be_bytes 2 n) (n, x) = (n, x)" by (simp add: client_other)
  then show ?thesis using assms(2) c pack_h_nat [of n]
    by (auto simp: handle_data_def send_ack_def send_def write_file_def bindS_def thenS_def behind_def)
qed

lemma dispatch_in_step:
  assumes "in_step d c" and "dispatch pkt c = (r, c')"
  shows "(r = Inr () \<and> in_step d c') \<or> (\<exists>e. r = Inl e \<and> behind d c')"
proof -
  have "(r = Inr () \<and> in_step d c') \<or> (\<exists>e. r = Inl e \<and> behind d c')" if "recv_ack n c = (r, c')" for n
    using that assms(1) next_block_in_step [OF assms(1), of r c']
    by (auto simp: recv_ack_def handle_ack_def split: if_splits)
  moreover have "(r = Inr () \<and> in_step d c') \<or> (\<exists>e. r = Inl e \<and> behind d c')" if "recv_data n data c = (r, c')" for n data
    using that assms(1) write_in_step [OF assms(1), of data _ r c'] by (auto simp: recv_data_def split: if_splits)
  moreover have "(r = Inr () \<and> in_step d c') \<or> (\<exists>e. r = Inl e \<and> behind d c')" if "recv_err c = (r, c')"
    using that in_step_retransmit [OF assms(1)] by (auto simp: recv_err_def)
  ultimately show ?thesis
    using assms(2) in_step_behind [OF assms(1)] unfolding dispatch_def
    by (auto split: option.splits pval.splits if_splits)
qed

lemma packet_in_step:
  assumes "in_step d c" and "bindS (parse h srv data) dispatch c = (r, c')"
  shows "(r = Inr () \<and> in_step d c') \<or> (\<exists>e. r = Inl e \<and> behind d c')"
proof (cases "parse h srv data c")
  case (Pair q c1)
  have c1: "in_step d c1" using parse_settings [OF Pair] in_step_settings_eq assms(1) by blast
  show ?thesis
  proof (cases q)
    case (Inl e)
    then show ?thesis using Pair assms(2) in_step_behind [OF c1] by (auto simp: bindS_def)
  next
    case (Inr pkt)
    then show ?thesis using Pair assms(2) dispatch_in_step [OF c1] by (auto simp: bindS_def)
  qed
qed

lemma serve_in_step:
  assumes "in_step d c" and "serve h srv evs c = (r, c')"
  shows "behind d c' \<and> (r = Inr True \<longrightarrow> snd (client_received (sent c')) = d)"
  using assms
proof (induction "length evs" arbitrary: evs c rule: less_induct)
  case less
  show ?case
  proof (cases "active c")
    case False
    then show ?thesis using less(2,3) in_step_behind in_step_done by (subst (asm) serve.simps) auto
  next
    case True
    obtain q c1 where q: "conn_recv (retry srv) evs c = (q, c1)" by fastforce
    have c1: "in_step d c1" using conn_recv_keeps [of "in_step d" c "retry srv" evs] less(2) in_step_retransmit q by auto
    show ?thesis
    proof (cases "\<exists>data rest. q = Inr (Some (data, rest))")
      case False
      then show ?thesis using less(3) True q in_step_behind [OF c1]
        by (subst (asm) serve.simps) (auto split: sum.splits option.splits)
    next
      case t: True
      then obtain data rest where d: "q = Inr (Some (data, rest))" by blast
      obtain u c2 where u: "bindS (parse h srv data) dispatch c1 = (u, c2)" by fastforce
      from packet_in_step [OF c1 u] show ?thesis
      proof
        assume "\<exists>e. u = Inl e \<and> behind d c2"
        then show ?thesis using less(3) True q d u by (subst (asm) serve.simps) auto
      next
        assume ok: "u = Inr () \<and> in_step d c2"
        then have "serve h srv rest c2 = (r, c')" using less(3) True q d u by (subst (asm) serve.simps) auto
        then show ?thesis using less(1) [of rest c2] conn_recv_shorter [of "retry srv" evs c data rest c1] q d ok by simp
      qed
    qed
  qed
qed

section \<open>Requests for files\<close>

text \<open>The request at the start of a connection is one for the content \<open>d\<close>, which is there.\<close>

definition rrq_ready :: "host \<Rightarrow> tftp_server \<Rightarrow> address \<Rightarrow> bytes \<Rightarrow> tftp_packet \<Rightarrow> conn \<Rightarrow> bytes \<Rightarrow> bool" where
  "rrq_ready h srv addr data pkt c d \<longleftrightarrow>
     parse h srv data (new_conn srv addr) = (Inr pkt, c) \<and> pkt ''opcode'' = Some (PInt op_RRQ) \<and>
     (\<exists>name res s. text_at pkt ''filename'' = Inr name \<and> rrq_resource h srv addr name = Inr (res, s) \<and>
        rrq_content h res s = Some d \<and> (asks_size pkt = Inr True \<longrightarrow> rrq_size h res s \<noteq> None))"

lemma new_conn_fields [simp]:
  "client_addr (new_conn srv addr) = addr" "blockNumber (new_conn srv addr) = 0" "lastpkt (new_conn srv addr) = []"
  "sent (new_conn srv addr) = []" "blocksize (new_conn srv addr) = server_blocksize srv"
  "timeout_ok (new_conn srv addr) = server_timeout_ok srv"
  by (simp_all add: new_conn_def)

lemma client_oack: "client (be_bytes 2 6 @ rest) st = st"
  by (simp add: client_other)

text \<open>The file is open and nothing of it is sent, or the answer to the question for its size.\<close>

definition opened :: "conn \<Rightarrow> bytes \<Rightarrow> conn \<Rightarrow> bool" where
  "opened c d c1 \<longleftrightarrow> (\<exists>pkts. c1 = c\<lparr>active := True, file_obj := Reading d, sent := pkts, lastpkt := []\<rparr> \<and> client_received pkts = (0, []))"

lemma opened_in_step: "opened c d c1 \<Longrightarrow> blockNumber c = 0 \<Longrightarrow> in_step d c1"
  by (auto simp: opened_def in_step_def)

lemma read_request_opens:
  assumes "rrq_ready h srv addr data pkt c d"
  shows "(\<exists>e. asks_size pkt = Inl e \<and> start h srv data (new_conn srv addr) = (Inl e, c\<lparr>active := True\<rparr>)) \<or>
    (\<exists>a c1. asks_size pkt = Inr a \<and> opened c d c1 \<and>
       start h srv data (new_conn srv addr) = (if pkt ''tsize'' = None then bindS read_file send_data c1 else (Inr (), c1)))"
proof -
  obtain name res s where p: "parse h srv data (new_conn srv addr) = (Inr pkt, c)" "pkt ''opcode'' = Some (PInt op_RRQ)"
    "text_at pkt ''filename'' = Inr name" "rrq_resource h srv addr name = Inr (res, s)" "rrq_content h res s = Some d"
    "asks_size pkt = Inr True \<longrightarrow> rrq_size h res s \<noteq> None"
    using assms unfolding rrq_ready_def by blast
  have c: "client_addr c = addr" "sent c = []" "lastpkt c = []" using parse_settings [OF p(1)] by (auto simp: settings_def)
  have start: "start h srv data (new_conn srv addr) = handle_rrq h srv pkt (c\<lparr>active := True\<rparr>)"
    by (simp add: start_def bindS_Inr [of _ _ pkt c] p(1,2))
  have send: "rrq_send h pkt res s c2 = (if pkt ''tsize'' = None then bindS read_file send_data (c2\<lparr>file_obj := Reading d\<rparr>)
      else (Inr (), c2\<lparr>file_obj := Reading d\<rparr>))" for c2
    by (simp add: rrq_send_def p(5))
  have fl: "c\<lparr>active := True, file_obj := Reading d\<rparr> = c\<lparr>active := True, file_obj := Reading d, sent := [], lastpkt := []\<rparr>"
    using c(2,3) by simp
  show ?thesis
  proof (cases "asks_size pkt")
    case (Inl e)
    then show ?thesis unfolding start handle_rrq_def using p(3,4) c(1) by simp
  next
    case (Inr a)
    show ?thesis
    proof (cases a)
      case False
      have "opened c d (c\<lparr>active := True, file_obj := Reading d\<rparr>)" unfolding opened_def using fl by (intro exI [of _ "[]"]) auto
      then show ?thesis unfolding start handle_rrq_def using p(3,4) c(1) Inr False send by force
    next
      case True
      then obtain n where n: "rrq_size h res s = Some n" using p(6) Inr by auto
      let ?oack = "be_bytes 2 6 @ concat (map (\<lambda>(k, v). ascii k @ [0] @ ascii v @ [0]) (rrq_options pkt n))"
      have "opened c d (c\<lparr>active := True, sent := [?oack], lastpkt := [], file_obj := Reading d\<rparr>)"
        unfolding opened_def client_received_def by (intro exI [of _ "[?oack]"]) (simp add: client_oack)
      moreover have "handle_rrq h srv pkt (c\<lparr>active := True\<rparr>) =
          rrq_send h pkt res s (c\<lparr>active := True, sent := [?oack], lastpkt := []\<rparr>)"
        unfolding handle_rrq_def using p(3,4) c Inr True n by (simp add: send_oack_def send_def thenS_Inr)
      ultimately show ?thesis unfolding start using Inr send by force
    qed
  qed
qed

lemma opened_block0: "opened c d c1 \<Longrightarrow> settings (new_conn srv addr) c \<Longrightarrow> in_step d c1"
  by (rule opened_in_step) (auto simp: settings_def)

lemma transfer_in_step:
  assumes "rrq_ready h srv addr data pkt c d" and "transfer h srv data evs (new_conn srv addr) = (r, c')"
  shows "behind d c' \<and> (r = Inr True \<longrightarrow> snd (client_received (sent c')) = d)"
proof -
  have set: "settings (new_conn srv addr) c" using assms(1) parse_settings by (auto simp: rrq_ready_def)
  then have c: "sent c = []" by (auto simp: settings_def)
  obtain q c1 where q: "start h srv data (new_conn srv addr) = (q, c1)" by fastforce
  have "(q = Inr () \<and> in_step d c1) \<or> (\<exists>e. q = Inl e \<and> behind d c1)"
    using read_request_opens [OF assms(1)]
  proof
    assume "\<exists>e. asks_size pkt = Inl e \<and> start h srv data (new_conn srv addr) = (Inl e, c\<lparr>active := True\<rparr>)"
    then show ?thesis using q c by (auto simp: behind_def)
  next
    assume "\<exists>a c1. asks_size pkt = Inr a \<and> opened c d c1 \<and>
       start h srv data (new_conn srv addr) = (if pkt ''tsize'' = None then bindS read_file send_data c1 else (Inr (), c1))"
    then obtain c2 where "in_step d c2"
      "(if pkt ''tsize'' = None then bindS read_file send_data c2 else (Inr (), c2)) = (q, c1)"
      using opened_block0 [OF _ set] q by force
    then show ?thesis using next_block_in_step [of d c2 q c1] by (auto split: if_splits)
  qed
  then show ?thesis
    using assms(2) q serve_in_step [of d c1 h srv evs r c'] by (auto simp: transfer_def thenS_def bindS_def)
qed

lemma report_error_behind: "behind d c \<Longrightarrow> behind d (snd (report_error e c))"
proof -
  have "client (be_bytes 2 5 @ rest) st = st" for rest st by (simp add: client_other)
  then show "behind d c \<Longrightarrow> behind d (snd (report_error e c))"
    by (auto simp: report_error_def send_error_def behind_def bindS_def split: py_error.split sum.split)
qed

section \<open>Clients that keep in step\<close>

definition ack :: "nat \<Rightarrow> bytes" where
  "ack n = be_bytes 2 4 @ be_bytes 2 n"

text \<open>Noise that does not end a transfer: datagrams of others, and fewer time-outs than there are retries.\<close>

definition quiet :: "address \<Rightarrow> int \<Rightarrow> event list \<Rightarrow> bool" where
  "quiet addr n evs \<longleftrightarrow> int (length (filter (\<lambda>e. e = Silence) evs)) < n \<and> (\<forall>a d. Datagram a d \<in> set evs \<longrightarrow> a \<noteq> addr)"

fun rounds :: "address \<Rightarrow> (nat \<Rightarrow> event list) \<Rightarrow> (nat \<Rightarrow> bytes) \<Rightarrow> nat list \<Rightarrow> event list" where
  "rounds addr noise pkt [] = []"
| "rounds addr noise pkt (n # ns) = noise n @ Datagram addr (pkt n) # rounds addr noise pkt ns"

lemma recv_quiet:
  assumes "quiet (client_addr c) n evs" and "timeout_ok c" and "0 \<le> blocksize c"
  shows "\<exists>k. conn_recv n (evs @ Datagram (client_addr c) p # rest) c =
    (Inr (Some (take (nat (blocksize c + 4)) p, rest)), (retransmit ^^ k) c)"
  using assms
proof (induction evs arbitrary: n c)
  case Nil
  then show ?case by (intro exI [of _ 0]) (simp add: quiet_def HDRSIZE_def)
next
  case (Cons ev evs)
  show ?case
  proof (cases ev)
    case Silence
    then have "quiet (client_addr (retransmit c)) (n - 1) evs" using Cons.prems by (auto simp: quiet_def)
    from Cons.IH [OF this] obtain k where "conn_recv (n - 1) (evs @ Datagram (client_addr c) p # rest) (retransmit c) =
      (Inr (Some (take (nat (blocksize c + 4)) p, rest)), (retransmit ^^ k) (retransmit c))" using Cons.prems by auto
    then show ?thesis using Silence Cons.prems by (intro exI [of _ "Suc k"]) (auto simp: quiet_def funpow_swap1)
  next
    case (Datagram a d)
    have "a \<noteq> client_addr c" using Cons.prems(1) unfolding quiet_def Datagram by (metis list.set_intros(1))
    moreover have "quiet (client_addr c) n evs" "n \<noteq> 0" using Cons.prems(1) unfolding quiet_def Datagram by auto
    ultimately have "quiet (client_addr c) n evs" "a \<noteq> client_addr c" "n \<noteq> 0" by simp_all
    then show ?thesis using Cons.IH [of c n] Datagram Cons.prems by (simp add: Let_def HDRSIZE_def)
  qed
qed

lemma unpack_h_nat: "n \<le> 32767 \<Longrightarrow> unpack_h (be_bytes 2 n) = Inr (int n)"
  by (simp add: unpack_h_def Let_def be_val_be_bytes)

lemma parse_ack: "n \<le> 32767 \<Longrightarrow> parse h srv (ack n) c = (Inr [''opcode'' \<mapsto> PInt 4, ''block'' \<mapsto> PInt (int n)], c)"
  using unpack_h_nat [of 4] unpack_h_nat [of n] by (simp add: parse_def ack_def slice_def opcodes)

lemma dispatch_ack: "dispatch [''opcode'' \<mapsto> PInt 4, ''block'' \<mapsto> PInt n] = recv_ack n"
  by (simp add: dispatch_def opcodes)

text \<open>After block \<open>n\<close> of a file in blocks of \<open>B\<close> bytes, with more to come.\<close>

definition at_block :: "address \<Rightarrow> bytes \<Rightarrow> nat \<Rightarrow> nat \<Rightarrow> conn \<Rightarrow> bool" where
  "at_block addr d B n c \<longleftrightarrow>
     client_addr c = addr \<and> timeout_ok c \<and> active c \<and> blocksize c = int B \<and> blockNumber c = int n \<and>
     file_obj c = Reading (drop (n * B) d) \<and> n * B \<le> length d \<and> client_received (sent c) = (n, take (n * B) d) \<and>
     client (lastpkt c) (n, take (n * B) d) = (n, take (n * B) d)"

lemma at_block_retransmit: "at_block addr d B n c \<Longrightarrow> at_block addr d B n ((retransmit ^^ k) c)"
proof (induction k)
  case (Suc k)
  then have "at_block addr d B n ((retransmit ^^ k) c)" by blast
  then show ?case unfolding funpow.simps comp_def at_block_def
    by (auto simp: retransmit_def split: if_splits)
qed simp

lemma at_block_next:
  assumes "at_block addr d B n c" and "n < 32767" and "0 < B"
  shows "\<exists>c'. bindS read_file send_data c = (Inr (), c') \<and>
    (if (n + 1) * B \<le> length d then at_block addr d B (n + 1) c'
     else \<not> active c' \<and> client_received (sent c') = (n + 1, d))"
proof -
  let ?r = "drop (n * B) d"
  have k: "chunk c ?r = B" using assms(1) by (simp add: chunk_def at_block_def)
  have d: "take (n * B) d @ take B ?r = take ((n + 1) * B) d" by (simp add: take_add [symmetric] add.commute)
  have len: "length (take B ?r) = B \<longleftrightarrow> (n + 1) * B \<le> length d"
    using assms(1) by (auto simp: at_block_def min_def)
  show ?thesis
    using assms len d next_block_sent [of c ?r n]
    by (auto simp: at_block_def k client_data drop_drop add.commute)
qed

lemma serve_packet:
  assumes "active c" and "quiet (client_addr c) (retry srv) evs" and "timeout_ok c" and "0 \<le> blocksize c"
  shows "\<exists>k. serve h srv (evs @ Datagram (client_addr c) p # rest) c =
    (case bindS (parse h srv (take (nat (blocksize c + 4)) p)) dispatch ((retransmit ^^ k) c) of
       (Inl e, c2) \<Rightarrow> (Inl e, c2) | (Inr u, c2) \<Rightarrow> serve h srv rest c2)"
  using recv_quiet [OF assms(2-4), of p rest] assms(1) by (subst serve.simps) auto

lemma serve_ack:
  assumes "at_block addr d B n c" and "n \<le> 32767" and "quiet addr (retry srv) evs"
  shows "\<exists>c1. at_block addr d B n c1 \<and> serve h srv (evs @ Datagram addr (ack n) # rest) c =
    (case bindS read_file send_data c1 of (Inl e, c2) \<Rightarrow> (Inl e, c2) | (Inr u, c2) \<Rightarrow> serve h srv rest c2)"
proof -
  have c: "active c" "client_addr c = addr" "timeout_ok c" "0 \<le> blocksize c" using assms(1) by (auto simp: at_block_def)
  obtain k where k: "serve h srv (evs @ Datagram addr (ack n) # rest) c =
    (case bindS (parse h srv (take (nat (blocksize c + 4)) (ack n))) dispatch ((retransmit ^^ k) c) of
       (Inl e, c2) \<Rightarrow> (Inl e, c2) | (Inr u, c2) \<Rightarrow> serve h srv rest c2)"
    using serve_packet [OF c(1) _ c(3,4), of srv evs h "ack n" rest] assms(3) c(2) by auto
  have t: "take (nat (blocksize c + 4)) (ack n) = ack n" using c(4) by (simp add: ack_def)
  have a: "at_block addr d B n ((retransmit ^^ k) c)" using assms(1) by (rule at_block_retransmit)
  then have "bindS (parse h srv (ack n)) dispatch ((retransmit ^^ k) c) = bindS read_file send_data ((retransmit ^^ k) c)"
    unfolding bindS_Inr [OF parse_ack [OF assms(2)]] dispatch_ack
    by (auto simp: recv_ack_def handle_ack_def at_block_def)
  then show ?thesis using k a unfolding t by auto
qed

lemma rounds_append: "rounds addr noise pkt (ms @ ns) = rounds addr noise pkt ms @ rounds addr noise pkt ns"
  by (induction ms) auto

lemma serve_ended: "\<not> active c \<Longrightarrow> serve h srv evs c = (Inr True, c)"
  by (subst serve.simps) simp

lemma serve_last:
  assumes "at_block addr d B m c" and "m < 32767" and "0 < B" and "\<not> (m + 1) * B \<le> length d"
    and "quiet addr (retry srv) evs"
  shows "\<exists>c'. serve h srv (evs @ Datagram addr (ack m) # rest) c = (Inr True, c') \<and> client_received (sent c') = (m + 1, d)"
proof -
  obtain c1 where c1: "at_block addr d B m c1" "serve h srv (evs @ Datagram addr (ack m) # rest) c =
    (case bindS read_file send_data c1 of (Inl e, c2) \<Rightarrow> (Inl e, c2) | (Inr u, c2) \<Rightarrow> serve h srv rest c2)"
    using serve_ack [OF assms(1) _ assms(5), of h rest] assms(2) by auto
  obtain c2 where "bindS read_file send_data c1 = (Inr (), c2)" "\<not> active c2" "client_received (sent c2) = (m + 1, d)"
    using at_block_next [OF c1(1) assms(2,3)] assms(4) by auto
  then show ?thesis using c1(2) serve_ended by auto
qed

lemma serve_reaches:
  assumes "at_block addr d B n c" and "n \<le> m" and "m * B \<le> length d" and "m \<le> 32767" and "0 < B"
    and "\<And>i. quiet addr (retry srv) (noise i)"
  shows "\<exists>c'. at_block addr d B m c' \<and> serve h srv (rounds addr noise ack [n..<m] @ rest) c = serve h srv rest c'"
  using assms(1-4)
proof (induction "m - n" arbitrary: n c)
  case (Suc k)
  have n: "n < m" using Suc(2) by simp
  have up: "[n..<m] = n # [n + 1..<m]" using n by (simp add: upt_rec)
  obtain c1 where c1: "at_block addr d B n c1" "serve h srv (noise n @ Datagram addr (ack n) # rounds addr noise ack [n + 1..<m] @ rest) c =
    (case bindS read_file send_data c1 of (Inl e, c2) \<Rightarrow> (Inl e, c2) | (Inr u, c2) \<Rightarrow> serve h srv (rounds addr noise ack [n + 1..<m] @ rest) c2)"
    using serve_ack [OF Suc(3) _ assms(6), where h = h and rest = "rounds addr noise ack [n + 1..<m] @ rest"] n Suc.prems(4) by auto
  have "(n + 1) * B \<le> m * B" using n by (intro mult_le_mono1) simp
  then have "(n + 1) * B \<le> length d" using assms(3) by simp
  then obtain c2 where c2: "bindS read_file send_data c1 = (Inr (), c2)" "at_block addr d B (n + 1) c2"
    using at_block_next [OF c1(1) _ assms(5)] n Suc.prems(4) by auto
  obtain c' where "at_block addr d B m c'" "serve h srv (rounds addr noise ack [n + 1..<m] @ rest) c2 = serve h srv rest c'"
    using Suc(1) [OF _ c2(2)] Suc(2) n assms(3) Suc.prems(4) by (metis Suc_diff_Suc Suc_eq_plus1 Suc_inject Suc_leI)
  then show ?case unfolding up using c1(2) c2(1) by auto
qed auto

text \<open>The state right behind the request: the first block is sent at once, unless the size was asked for.\<close>

definition first_ack :: "tftp_packet \<Rightarrow> nat" where
  "first_ack pkt = (if pkt ''tsize'' = None then 1 else 0)"

lemma read_request_block0:
  assumes "rrq_ready h srv addr data pkt c d" and "pkt ''tsize'' = None \<or> asks_size pkt = Inr True"
    and "timeout_ok c" and "blocksize c = int B"
  shows "\<exists>c1. at_block addr d B 0 c1 \<and> start h srv data (new_conn srv addr) =
    (if pkt ''tsize'' = None then bindS read_file send_data c1 else (Inr (), c1))"
proof -
  have set: "settings (new_conn srv addr) c" using assms(1) parse_settings by (auto simp: rrq_ready_def)
  have "asks_size pkt = Inr True \<or> asks_size pkt = Inr False" using assms(2) by (auto simp: asks_size_def)
  then obtain c1 where c1: "opened c d c1" "start h srv data (new_conn srv addr) =
    (if pkt ''tsize'' = None then bindS read_file send_data c1 else (Inr (), c1))"
    using read_request_opens [OF assms(1)] by auto
  have "at_block addr d B 0 c1" using c1(1) set assms(3,4) by (auto simp: at_block_def opened_def settings_def)
  then show ?thesis using c1(2) by blast
qed

lemma transfer_starts:
  assumes "rrq_ready h srv addr data pkt c d" and "pkt ''tsize'' = None \<or> asks_size pkt = Inr True"
    and "timeout_ok c" and "blocksize c = int B" and "0 < B" and "B \<le> length d"
  shows "\<exists>c1. at_block addr d B (first_ack pkt) c1 \<and> transfer h srv data evs (new_conn srv addr) = serve h srv evs c1"
proof -
  obtain c0 where c0: "at_block addr d B 0 c0" "start h srv data (new_conn srv addr) =
    (if pkt ''tsize'' = None then bindS read_file send_data c0 else (Inr (), c0))"
    using read_request_block0 [OF assms(1-4)] by blast
  then show ?thesis using at_block_next [OF c0(1) _ assms(5)] assms(6)
    by (auto simp: first_ack_def transfer_def thenS_def bindS_def)
qed

section \<open>Uploads\<close>

definition data_pkt :: "nat \<Rightarrow> bytes \<Rightarrow> nat \<Rightarrow> bytes" where
  "data_pkt B d n = be_bytes 2 3 @ be_bytes 2 n @ slice ((n - 1) * B) (n * B) d"

definition write_request :: "host \<Rightarrow> tftp_server \<Rightarrow> address \<Rightarrow> bytes \<Rightarrow> conn \<Rightarrow> string \<Rightarrow> bool" where
  "write_request h srv addr data c p \<longleftrightarrow>
     (\<exists>pkt. parse h srv data (new_conn srv addr) = (Inr pkt, c) \<and> pkt ''opcode'' = Some (PInt op_WRQ) \<and>
        text_at pkt ''filename'' = Inr p) \<and> \<not> is_url p \<and> can_create h p"

text \<open>Block \<open>n\<close> is expected, and those before it are written and acknowledged.\<close>

definition expects :: "address \<Rightarrow> string \<Rightarrow> bytes \<Rightarrow> nat \<Rightarrow> nat \<Rightarrow> conn \<Rightarrow> bool" where
  "expects addr p d B n c \<longleftrightarrow>
     client_addr c = addr \<and> timeout_ok c \<and> active c \<and> blocksize c = int B \<and> blockNumber c = int n \<and>
     file_obj c = Writing p (take ((n - 1) * B) d) \<and> set (sent c) = ack ` {..<n} \<and> lastpkt c = ack (n - 1)"

lemma expects_retransmit: "expects addr p d B n c \<Longrightarrow> 0 < n \<Longrightarrow> expects addr p d B n ((retransmit ^^ k) c)"
proof (induction k)
  case (Suc k)
  then have "expects addr p d B n ((retransmit ^^ k) c)" by blast
  then show ?case using Suc.prems(2) unfolding funpow.simps comp_def expects_def by (auto simp: retransmit_def)
qed simp

lemma parse_data:
  "n \<le> 32767 \<Longrightarrow> parse h srv (be_bytes 2 3 @ be_bytes 2 n @ x) c =
     (Inr [''opcode'' \<mapsto> PInt 3, ''block'' \<mapsto> PInt (int n), ''data'' \<mapsto> PData x], c)"
  using unpack_h_nat [of 3] unpack_h_nat [of n] by (simp add: parse_def slice_def opcodes)

lemma dispatch_data: "dispatch [''opcode'' \<mapsto> PInt 3, ''block'' \<mapsto> PInt n, ''data'' \<mapsto> PData x] = recv_data n x"
  by (simp add: dispatch_def opcodes)

lemma recv_data_expected:
  assumes "expects addr p d B n c" and "0 < n" and "n \<le> 32767" and "0 < B" and "(n - 1) * B \<le> length d"
  shows "\<exists>c'. recv_data (int n) (slice ((n - 1) * B) (n * B) d) c = (Inr (), c') \<and>
    (if n * B \<le> length d then expects addr p d B (n + 1) c'
     else \<not> active c' \<and> file_obj c' = Writing p d \<and> set (sent c') = ack ` {..<n + 1})"
proof -
  let ?x = "slice ((n - 1) * B) (n * B) d"
  have nB: "n * B = (n - 1) * B + B" using assms(2) by (cases n) auto
  have d: "take ((n - 1) * B) d @ ?x = take (n * B) d" by (simp add: slice_def nB take_add)
  have len: "length ?x = B \<longleftrightarrow> n * B \<le> length d" using assms(4,5) by (auto simp: nB min_def)
  have "recv_data (int n) ?x c = (Inr (), c\<lparr>active := (blocksize c = int (length ?x)), blockNumber := int n + 1,
      sent := sent c @ [ack n], lastpkt := ack n, file_obj := Writing p (take (n * B) d)\<rparr>)"
    using assms(1) pack_h_nat [of n] assms(3) d unfolding expects_def
    by (simp add: recv_data_def handle_data_def send_ack_def send_def write_file_def thenS_def bindS_def ack_def)
  then show ?thesis using assms(1,2) len unfolding expects_def by (auto simp: lessThan_Suc)
qed

lemma serve_data:
  assumes "expects addr p d B n c" and "0 < n" and "n \<le> 32767" and "quiet addr (retry srv) evs"
  shows "\<exists>c1. expects addr p d B n c1 \<and> serve h srv (evs @ Datagram addr (data_pkt B d n) # rest) c =
    (case recv_data (int n) (slice ((n - 1) * B) (n * B) d) c1 of (Inl e, c2) \<Rightarrow> (Inl e, c2) | (Inr u, c2) \<Rightarrow> serve h srv rest c2)"
proof -
  have c: "active c" "client_addr c = addr" "timeout_ok c" "blocksize c = int B" using assms(1) by (auto simp: expects_def)
  obtain k where k: "serve h srv (evs @ Datagram addr (data_pkt B d n) # rest) c =
    (case bindS (parse h srv (take (nat (blocksize c + 4)) (data_pkt B d n))) dispatch ((retransmit ^^ k) c) of
       (Inl e, c2) \<Rightarrow> (Inl e, c2) | (Inr u, c2) \<Rightarrow> serve h srv rest c2)"
    using serve_packet [OF c(1) _ c(3), of srv evs h "data_pkt B d n" rest] assms(4) c(2,4) by auto
  have nB: "n * B = (n - 1) * B + B" using assms(2) by (cases n) auto
  have t: "take (nat (blocksize c + 4)) (data_pkt B d n) = data_pkt B d n" using c(4) by (simp add: data_pkt_def nB nat_add_distrib)
  have "bindS (parse h srv (data_pkt B d n)) dispatch ((retransmit ^^ k) c) =
      recv_data (int n) (slice ((n - 1) * B) (n * B) d) ((retransmit ^^ k) c)"
    unfolding data_pkt_def bindS_Inr [OF parse_data [OF assms(3)]] dispatch_data ..
  then show ?thesis using k expects_retransmit [OF assms(1,2), of k] unfolding t by auto
qed

lemma serve_upload:
  assumes "expects addr p d B n c" and "0 < n" and "(n - 1) * B \<le> length d" and "0 < B" and "length d div B + 1 \<le> 32767"
    and "\<And>i. quiet addr (retry srv) (noise i)"
  shows "\<exists>c'. serve h srv (rounds addr noise (data_pkt B d) [n..<length d div B + 2]) c = (Inr True, c') \<and>
    file_obj c' = Writing p d \<and> set (sent c') = ack ` {..length d div B + 1}"
  using assms(1-3)
proof (induction "length d div B + 1 - n" arbitrary: n c)
  case 0
  let ?m = "length d div B + 1"
  have m: "\<not> ?m * B \<le> length d" using assms(4) dividend_less_div_times [of B "length d"] by auto
  have "n - 1 \<le> length d div B" using 0(4) assms(4) by (simp add: less_eq_div_iff_mult_less_eq)
  then have n: "n = ?m" using 0(1,3) by simp
  obtain c1 where c1: "expects addr p d B n c1" "serve h srv (noise n @ Datagram addr (data_pkt B d n) # []) c =
    (case recv_data (int n) (slice ((n - 1) * B) (n * B) d) c1 of (Inl e, c2) \<Rightarrow> (Inl e, c2) | (Inr u, c2) \<Rightarrow> serve h srv [] c2)"
    using serve_data [OF 0(2,3) _ assms(6), where h = h and rest = "[]"] assms(5) n by auto
  obtain c2 where c2: "recv_data (int n) (slice ((n - 1) * B) (n * B) d) c1 = (Inr (), c2)" "\<not> active c2"
    "file_obj c2 = Writing p d" "set (sent c2) = ack ` {..<n + 1}"
    using recv_data_expected [OF c1(1) 0(3) _ assms(4) 0(4)] assms(5) m n by auto
  have "rounds addr noise (data_pkt B d) [n..<length d div B + 2] = noise n @ Datagram addr (data_pkt B d n) # []"
    using n by simp
  then show ?case using c1(2) c2 n serve_ended by (auto simp: lessThan_Suc_atMost)
next
  case (Suc k)
  let ?m = "length d div B + 1"
  have n: "n < ?m" using Suc(2) by simp
  have up: "[n..<length d div B + 2] = n # [n + 1..<length d div B + 2]" using n by (simp add: upt_rec)
  have nB: "n * B \<le> length d" using n assms(4) less_eq_div_iff_mult_less_eq [of B n "length d"] by simp
  obtain c1 where c1: "expects addr p d B n c1" "serve h srv (noise n @ Datagram addr (data_pkt B d n) #
      rounds addr noise (data_pkt B d) [n + 1..<length d div B + 2]) c =
    (case recv_data (int n) (slice ((n - 1) * B) (n * B) d) c1 of (Inl e, c2) \<Rightarrow> (Inl e, c2)
     | (Inr u, c2) \<Rightarrow> serve h srv (rounds addr noise (data_pkt B d) [n + 1..<length d div B + 2]) c2)"
    using serve_data [OF Suc(3,4) _ assms(6), where h = h
        and rest = "rounds addr noise (data_pkt B d) [n + 1..<length d div B + 2]"] assms(5) n by auto
  obtain c2 where c2: "recv_data (int n) (slice ((n - 1) * B) (n * B) d) c1 = (Inr (), c2)" "expects addr p d B (n + 1) c2"
    using recv_data_expected [OF c1(1) Suc(4) _ assms(4) Suc(5)] assms(5) n nB by auto
  show ?case unfolding up using c1(2) c2(1) Suc(1) [OF _ c2(2)] Suc(2) nB by auto
qed

section \<open>Silence\<close>

lemma recv_silence: "0 \<le> n \<Longrightarrow> n \<le> int m \<Longrightarrow> \<exists>e. fst (conn_recv n (replicate m Silence) c) = Inl e"
  by (induction m arbitrary: n c) auto

lemma recv_then_silence:
  assumes "0 \<le> n" and "n \<le> int m"
  shows "(\<exists>e. fst (conn_recv n (evs @ replicate m Silence) c) = Inl e) \<or>
    (\<exists>p evs'. fst (conn_recv n (evs @ replicate m Silence) c) = Inr (Some (p, evs' @ replicate m Silence)) \<and>
       length evs' < length evs)"
  using assms
proof (induction evs arbitrary: n c)
  case Nil
  then show ?case using recv_silence [of n m c] by simp
next
  case (Cons ev evs)
  show ?case
  proof (cases ev)
    case Silence
    then show ?thesis using Cons.IH [of "n - 1" "retransmit c"] Cons.prems by (cases "n = 0") force+
  next
    case (Datagram a d)
    have "(\<exists>p evs'. fst (conn_recv n ((ev # evs) @ replicate m Silence) c) = Inr (Some (p, evs' @ replicate m Silence)) \<and>
       length evs' < length (ev # evs))" if "n \<noteq> 0" "timeout_ok c" "0 \<le> blocksize c + HDRSIZE" "a = client_addr c"
      using that Datagram by (intro exI [of _ "take (nat (blocksize c + HDRSIZE)) d"] exI [of _ evs]) (simp add: Let_def)
    then show ?thesis using Cons.IH [of n c] Cons.prems Datagram by (auto simp: Let_def less_SucI split: if_splits)
  qed
qed

lemma serve_then_silence:
  assumes "0 \<le> retry srv" and "retry srv \<le> int m"
  shows "fst (serve h srv (evs @ replicate m Silence) c) \<noteq> Inr False"
proof (induction "length evs" arbitrary: evs c rule: less_induct)
  case less
  obtain q c1 where q: "conn_recv (retry srv) (evs @ replicate m Silence) c = (q, c1)" by fastforce
  show ?case
  proof (cases "active c")
    case True
    from recv_then_silence [OF assms, of evs c] show ?thesis
    proof
      assume "\<exists>e. fst (conn_recv (retry srv) (evs @ replicate m Silence) c) = Inl e"
      then show ?thesis using True q by (subst serve.simps) auto
    next
      assume "\<exists>p evs'. fst (conn_recv (retry srv) (evs @ replicate m Silence) c) = Inr (Some (p, evs' @ replicate m Silence)) \<and>
        length evs' < length evs"
      then obtain p evs' where p: "q = Inr (Some (p, evs' @ replicate m Silence))" "length evs' < length evs" using q by auto
      obtain u c2 where u: "bindS (parse h srv p) dispatch c1 = (u, c2)" by fastforce
      show ?thesis using True q p u less [OF p(2), of c2] by (subst serve.simps) (auto split: sum.splits)
    qed
  qed (subst serve.simps, simp)
qed

section \<open>Properties\<close>

text \<open>
  C14. Whatever arrives during a read request - noise, garbage, acknowledgements of any block, errors, time-outs,
  other requests - the client that takes the data packets in the order of their numbers holds a beginning of the
  file at every end of the connection, and the whole file if the transfer ran to its end.
\<close>

theorem rrq_delivers_prefix:
  assumes "rrq_ready h srv addr data pkt c d"
  shows "(\<exists>rest. d = snd (client_received (sent (snd (connect h srv addr data evs)))) @ rest) \<and>
    (fst (transfer h srv data evs (new_conn srv addr)) = Inr True \<longrightarrow>
       snd (client_received (sent (snd (connect h srv addr data evs)))) = d)"
proof -
  obtain r c' where t: "transfer h srv data evs (new_conn srv addr) = (r, c')" by fastforce
  note b = transfer_in_step [OF assms t]
  show ?thesis
  proof (cases r)
    case (Inl e)
    have "snd (connect h srv addr data evs) = snd (report_error e c')"
      using t Inl by (auto simp: connect_def tryS_def thenS_def bindS_def split: prod.splits sum.splits)
    then show ?thesis using report_error_behind [of d c' e] b t Inl by (auto simp: behind_def)
  next
    case (Inr u)
    then show ?thesis using b t by (auto simp: connect_def tryS_def behind_def)
  qed
qed

text \<open>
  C15. A client that acknowledges every block gets the whole file, with noise and fewer time-outs than retries
  between any two of its packets, if the file has at most 32767 blocks: the transfer ends, and the client has
  taken exactly one packet per block.
\<close>

theorem rrq_completes:
  assumes "rrq_ready h srv addr data pkt c d" and "pkt ''tsize'' = None \<or> asks_size pkt = Inr True"
    and "timeout_ok c" and "blocksize c = int B" and "0 < B" and "length d div B < 32767"
    and "\<And>n. quiet addr (retry srv) (noise n)"
  shows "\<exists>c'. transfer h srv data (rounds addr noise ack [first_ack pkt..<length d div B + 1]) (new_conn srv addr) =
      (Inr True, c') \<and> client_received (sent c') = (length d div B + 1, d)"
proof -
  let ?m = "length d div B"
  have m: "?m * B \<le> length d" "\<not> (?m + 1) * B \<le> length d" using assms(5) dividend_less_div_times [of B "length d"] by auto
  show ?thesis
  proof (cases "B \<le> length d")
    case True
    then have f: "first_ack pkt \<le> ?m" using assms(5) by (auto simp: first_ack_def div_greater_zero_iff Suc_le_eq)
    have r: "rounds addr noise ack [first_ack pkt..<?m + 1] =
        rounds addr noise ack [first_ack pkt..<?m] @ noise ?m @ Datagram addr (ack ?m) # []"
      using f by (simp add: rounds_append)
    obtain c1 where c1: "at_block addr d B (first_ack pkt) c1"
      "transfer h srv data (rounds addr noise ack [first_ack pkt..<?m + 1]) (new_conn srv addr) =
       serve h srv (rounds addr noise ack [first_ack pkt..<?m + 1]) c1"
      using transfer_starts [OF assms(1-5) True] by blast
    obtain c2 where c2: "at_block addr d B ?m c2" "serve h srv (rounds addr noise ack [first_ack pkt..<?m + 1]) c1 =
        serve h srv (noise ?m @ Datagram addr (ack ?m) # []) c2"
      unfolding r using serve_reaches [OF c1(1) f m(1) _ assms(5), where noise = noise and h = h and srv = srv
        and rest = "noise ?m @ Datagram addr (ack ?m) # []"] assms(6,7) by auto
    show ?thesis using serve_last [OF c2(1) assms(6,5) m(2) assms(7), where h = h and rest = "[]"] c1(2) c2(2) by auto
  next
    case False
    then have z: "?m = 0" by simp
    obtain c0 where c0: "at_block addr d B 0 c0" "start h srv data (new_conn srv addr) =
      (if pkt ''tsize'' = None then bindS read_file send_data c0 else (Inr (), c0))"
      using read_request_block0 [OF assms(1-4)] by blast
    have n: "\<not> (0 + 1) * B \<le> length d" using False by simp
    show ?thesis
    proof (cases "pkt ''tsize'' = None")
      case True
      obtain c1 where "bindS read_file send_data c0 = (Inr (), c1)" "\<not> active c1" "client_received (sent c1) = (0 + 1, d)"
        using at_block_next [OF c0(1) _ assms(5)] n by auto
      then show ?thesis using c0(2) True serve_ended unfolding z
        by (auto simp: first_ack_def transfer_def thenS_def bindS_def)
    next
      case some: False
      then show ?thesis using c0(2) serve_last [OF c0(1) _ assms(5) n assms(7), where h = h and rest = "[]"] unfolding z
        by (auto simp: first_ack_def transfer_def thenS_def bindS_def)
    qed
  qed
qed

text \<open>
  Block numbers are signed 16-bit numbers: a file of 32767 full blocks or more cannot be sent.  When the client
  acknowledges block 32767 the server raises, ends the connection without an error packet, and the client is left
  with the first 32767 blocks.
\<close>

theorem rrq_block_limit:
  assumes "rrq_ready h srv addr data pkt c d" and "pkt ''tsize'' = None \<or> asks_size pkt = Inr True"
    and "timeout_ok c" and "blocksize c = int B" and "0 < B" and "32767 * B \<le> length d"
    and "\<And>n. quiet addr (retry srv) (noise n)"
  shows "\<exists>c'. connect h srv addr data (rounds addr noise ack [first_ack pkt..<32768] @ rest) = (Inr True, c') \<and>
      fst (transfer h srv data (rounds addr noise ack [first_ack pkt..<32768] @ rest) (new_conn srv addr)) = Inl StructError \<and>
      client_received (sent c') = (32767, take (32767 * B) d)"
proof -
  let ?evs = "rounds addr noise ack [first_ack pkt..<32768] @ rest"
  have B: "B \<le> length d" using assms(6) by simp
  have f: "first_ack pkt \<le> 32767" by (simp add: first_ack_def)
  then have "[first_ack pkt..<32768] = [first_ack pkt..<32767] @ [32767]" using upt_Suc_append [of "first_ack pkt" 32767] by simp
  then have r: "?evs = rounds addr noise ack [first_ack pkt..<32767] @ noise 32767 @ Datagram addr (ack 32767) # rest"
    by (simp add: rounds_append)
  obtain c1 where c1: "at_block addr d B (first_ack pkt) c1" "transfer h srv data ?evs (new_conn srv addr) = serve h srv ?evs c1"
    using transfer_starts [OF assms(1-5) B] by blast
  obtain c2 where c2: "at_block addr d B 32767 c2" "serve h srv ?evs c1 =
      serve h srv (noise 32767 @ Datagram addr (ack 32767) # rest) c2"
    unfolding r using serve_reaches [OF c1(1) f assms(6) _ assms(5), where noise = noise and h = h and srv = srv
      and rest = "noise 32767 @ Datagram addr (ack 32767) # rest"] assms(7) by auto
  obtain c3 where c3: "at_block addr d B 32767 c3" "serve h srv (noise 32767 @ Datagram addr (ack 32767) # rest) c2 =
      (case bindS read_file send_data c3 of (Inl e, c2) \<Rightarrow> (Inl e, c2) | (Inr u, c2) \<Rightarrow> serve h srv rest c2)"
    using serve_ack [OF c2(1) _ assms(7), where h = h and rest = rest] by auto
  obtain c' where "bindS read_file send_data c3 = (Inl StructError, c')" "sent c' = sent c3"
    using next_block_limit [of c3 "drop (32767 * B) d"] c3(1) by (auto simp: at_block_def)
  then have "transfer h srv data ?evs (new_conn srv addr) = (Inl StructError, c')" "client_received (sent c') = (32767, take (32767 * B) d)"
    using c1(2) c2(2) c3 by (auto simp: at_block_def)
  then show ?thesis by (auto simp: connect_def tryS_def report_error_def)
qed

text \<open>
  Every connection ends once the network is silent for as many time-outs as there are retries, whatever
  arrived before and whatever the request was.
\<close>

theorem silence_ends_connection:
  assumes "0 \<le> retry srv" and "retry srv \<le> int m"
  shows "fst (connect h srv addr data (evs @ replicate m Silence)) \<noteq> Inr False"
proof -
  obtain q c1 where q: "start h srv data (new_conn srv addr) = (q, c1)" by fastforce
  have "fst (transfer h srv data (evs @ replicate m Silence) (new_conn srv addr)) \<noteq> Inr False"
    using q serve_then_silence [OF assms, of h evs c1] by (cases q) (auto simp: transfer_def thenS_def bindS_def)
  then show ?thesis
    by (auto simp: connect_def tryS_def thenS_def bindS_def split: prod.splits sum.splits)
qed

text \<open>
  A client that sends a file block by block, with noise and fewer time-outs than retries in between, finds it
  stored: the file on the server has exactly the bytes, every block is acknowledged, and nothing else was sent.
\<close>

theorem wrq_stores_file:
  assumes "write_request h srv addr data c p" and "timeout_ok c" and "blocksize c = int B" and "0 < B"
    and "length d div B < 32767" and "\<And>n. quiet addr (retry srv) (noise n)"
  shows "\<exists>c'. transfer h srv data (rounds addr noise (data_pkt B d) [1..<length d div B + 2]) (new_conn srv addr) =
      (Inr True, c') \<and> file_obj c' = Writing p d \<and> set (sent c') = ack ` {..length d div B + 1}"
proof -
  obtain pkt where p: "parse h srv data (new_conn srv addr) = (Inr pkt, c)" "pkt ''opcode'' = Some (PInt op_WRQ)"
    "text_at pkt ''filename'' = Inr p" "\<not> is_url p" "can_create h p" using assms(1) by (auto simp: write_request_def)
  have c: "client_addr c = addr" "sent c = []" "blockNumber c = 0" using parse_settings [OF p(1)] by (auto simp: settings_def)
  let ?c1 = "c\<lparr>active := True, file_obj := Writing p [], blockNumber := 1, sent := [ack 0], lastpkt := ack 0\<rparr>"
  have "start h srv data (new_conn srv addr) = (Inr (), ?c1)"
    using p c pack_h_nat [of 0] by (simp add: start_def bindS_Inr [of _ _ pkt c] handle_wrq_def send_ack_def send_def opcodes ack_def)
  moreover have "expects addr p d B 1 ?c1" using c assms(2,3) by (auto simp: expects_def)
  ultimately show ?thesis
    using serve_upload [of addr p d B 1 ?c1 srv noise h] assms(4-6) by (simp add: transfer_def thenS_def bindS_def)
qed

text \<open>
  The name of the file can be given a second time, as an option called \<^verbatim>\<open>filename\<close>, which replaces the name that
  was checked and put below the root of the server: any path is then opened as it is, for reading and for writing.
\<close>

theorem filename_option_bypasses_root:
  assumes "CHR 0x00 \<notin> set name" and "CHR 0x00 \<notin> set mode" and "CHR 0x00 \<notin> set path" and "resolve h srv name = Inr r"
    and "opcode = op_RRQ \<or> opcode = op_WRQ"
  shows "\<exists>pkt. parse h srv (be_bytes 2 (nat opcode) @
        ascii (name @ CHR 0x00 # mode @ CHR 0x00 # ''filename'' @ CHR 0x00 # path @ [CHR 0x00])) c = (Inr pkt, c) \<and>
      pkt ''opcode'' = Some (PInt opcode) \<and> text_at pkt ''filename'' = Inr path"
proof -
  let ?opts = "''filename'' @ CHR 0x00 # path @ [CHR 0x00]"
  have op: "unpack_h (be_bytes 2 (nat opcode)) = Inr opcode"
    using unpack_h_nat [of "nat opcode"] assms(5) by (auto simp: opcodes)
  have s1: "split_max 2 (CHR 0x00) (name @ CHR 0x00 # mode @ CHR 0x00 # ?opts) = [name, mode, ?opts]"
    using split_max_first [OF assms(1), of 1] split_max_first [OF assms(2), of 0] by (simp add: numeral_2_eq_2)
  have s2: "split_max 2 (CHR 0x00) ?opts = [''filename'', path, []]"
    using split_max_first [of "CHR 0x00" "''filename''" 1 "path @ [CHR 0x00]"] split_max_first [OF assms(3), of 0 "[]"]
    by (simp add: numeral_2_eq_2)
  have o: "request_options h ?opts pkt c = (Inr (pkt(''filename'' \<mapsto> PStr path)), c)" for pkt
    by (subst request_options.simps, subst s2) (simp add: request_option_def request_options.simps [of h "[]"])
  show ?thesis using assms(4,5) s1 op o
    by (auto simp: parse_def slice_def text_at_def opcodes)
qed

section \<open>Witnesses\<close>

text \<open>A host with every file below \<^verbatim>\<open>/srv\<close>, each with the same bytes.\<close>

definition demo_host :: "bytes \<Rightarrow> host" where
  "demo_host d = \<lparr>fcre_sub = Inr, exists = (\<lambda>p. True), isfile = (\<lambda>p. True), isdir = (\<lambda>p. False),
     pkg_resource = (\<lambda>p. Inl KeyError), dist_location = [], listdir = (\<lambda>p. Inr []), size_of_resource = (\<lambda>p. None),
     open_resource = (\<lambda>p. Some d), can_create = (\<lambda>p. True), realpath = id, argv_dir = [], cwd = ''/'',
     float_timeout = (\<lambda>s. None)\<rparr>"

definition demo_server :: "int \<Rightarrow> tftp_server" where
  "demo_server B = \<lparr>root = ''/srv'', server_blocksize = B, server_timeout_ok = True, retry = 2, root_images = None,
     mac_to_ip = None, mac_to_pxe_conf = None\<rparr>"

definition demo_request :: "nat \<Rightarrow> bytes" where
  "demo_request opcode = be_bytes 2 opcode @ ascii (''a'' @ CHR 0x00 # ''octet'' @ [CHR 0x00])"

abbreviation demo_packet :: "int \<Rightarrow> tftp_packet" where
  "demo_packet opcode \<equiv> [''opcode'' \<mapsto> PInt opcode, ''filename'' \<mapsto> PStr ''/srv/a'', ''mode'' \<mapsto> PStr ''octet'']"

lemma demo_resolve: "resolve (demo_host d) (demo_server B) ''a'' = Inr ''/srv/a''"
  by (simp add: resolve_def demo_host_def demo_server_def is_url_def path_join_def pybootd_path_def starts_with_def)

lemma demo_parse:
  assumes "opcode = 1 \<or> opcode = 2"
  shows "parse (demo_host d) (demo_server B) (demo_request opcode) c = (Inr (demo_packet (int opcode)), c)"
proof -
  have "split_max 2 (CHR 0x00) (''a'' @ CHR 0x00 # ''octet'' @ [CHR 0x00]) = [''a'', ''octet'', []]"
    by (simp add: numeral_2_eq_2)
  moreover have "unpack_h (be_bytes 2 opcode) = Inr (int opcode)" using unpack_h_nat [of opcode] assms by auto
  ultimately show ?thesis using assms demo_resolve [of d B]
    by (auto simp: parse_def demo_request_def slice_def opcodes request_options.simps [of _ "[]"])
qed

lemma demo_relpath: "relpath ''/'' ''/srv/a'' ''/srv'' = ''a''"
  by code_simp

lemma demo_rrq_ready:
  "rrq_ready (demo_host d) (demo_server B) (''c'', 7) (demo_request 1) (demo_packet 1) (new_conn (demo_server B) (''c'', 7)) d"
proof -
  have "rrq_resource (demo_host d) (demo_server B) (''c'', 7) ''/srv/a'' = Inr (''/srv/a'', None)"
    using demo_relpath by (simp add: rrq_resource_def demo_host_def demo_server_def)
  moreover have "rrq_content (demo_host d) ''/srv/a'' None = Some d"
    by (simp add: rrq_content_def genfile_def demo_host_def)
  ultimately show ?thesis using demo_parse [of 1 d B]
    by (auto simp: rrq_ready_def opcodes text_at_def asks_size_def)
qed

lemma demo_quiet: "quiet addr (retry (demo_server B)) [Silence, Datagram (fst addr, Suc (snd addr)) [1, 2]]"
  by (cases addr) (auto simp: quiet_def demo_server_def)

theorem rrq_delivers_prefix_witness:
  "\<exists>rest. [1, 2, 3] = snd (client_received (sent (snd (connect (demo_host [1, 2, 3]) (demo_server 2) (''c'', 7) (demo_request 1)
     [Silence, Datagram (''c'', 7) (ack 9), Datagram (''c'', 7) [0, 5]])))) @ rest"
  using rrq_delivers_prefix [OF demo_rrq_ready] by blast

theorem rrq_completes_witness:
  "\<exists>c'. transfer (demo_host [1, 2, 3, 4]) (demo_server 2) (demo_request 1)
       (rounds (''c'', 7) (\<lambda>n. [Silence, Datagram (''c'', 8) [1, 2]]) ack [1..<3]) (new_conn (demo_server 2) (''c'', 7)) = (Inr True, c') \<and>
     client_received (sent c') = (3, [1, 2, 3, 4])"
  using rrq_completes [OF demo_rrq_ready [of "[1, 2, 3, 4]" 2], of 2 "\<lambda>n. [Silence, Datagram (''c'', 8) [1, 2]]"]
    demo_quiet [of "(''c'', 7)" 2]
  by (simp add: demo_server_def first_ack_def numeral_3_eq_3)

theorem rrq_block_limit_witness:
  "\<exists>c'. connect (demo_host (replicate 40000 9)) (demo_server 1) (''c'', 7) (demo_request 1)
       (rounds (''c'', 7) (\<lambda>n. [Silence, Datagram (''c'', 8) [1, 2]]) ack [1..<32768] @ []) = (Inr True, c') \<and>
     client_received (sent c') = (32767, replicate 32767 9)"
  using rrq_block_limit [OF demo_rrq_ready [of "replicate 40000 9" 1], of 1 "\<lambda>n. [Silence, Datagram (''c'', 8) [1, 2]]" "[]"]
    demo_quiet [of "(''c'', 7)" 1]
  by (simp add: demo_server_def first_ack_def del: upt_rec_numeral) blast

theorem silence_ends_connection_witness:
  "fst (connect (demo_host [1, 2, 3]) (demo_server 2) (''c'', 7) (demo_request 1) ([Datagram (''c'', 7) (ack 9)] @ replicate 2 Silence)) \<noteq> Inr False"
  by (rule silence_ends_connection) (simp_all add: demo_server_def)

theorem wrq_stores_file_witness:
  "\<exists>c'. transfer (demo_host []) (demo_server 2) (demo_request 2)
       (rounds (''c'', 7) (\<lambda>n. [Silence, Datagram (''c'', 8) [1, 2]]) (data_pkt 2 [5, 6, 7]) [1..<3]) (new_conn (demo_server 2) (''c'', 7)) =
     (Inr True, c') \<and> file_obj c' = Writing ''/srv/a'' [5, 6, 7]"
proof -
  have w: "write_request (demo_host []) (demo_server 2) (''c'', 7) (demo_request 2) (new_conn (demo_server 2) (''c'', 7)) ''/srv/a''"
    using demo_parse [of 2 "[]" 2] by (auto simp: write_request_def opcodes text_at_def is_url_def demo_host_def)
  show ?thesis
    using wrq_stores_file [OF w, of 2 "[5, 6, 7]" "\<lambda>n. [Silence, Datagram (''c'', 8) [1, 2]]"] demo_quiet [of "(''c'', 7)" 2]
    by (simp add: demo_server_def numeral_3_eq_3) blast
qed

theorem filename_option_bypasses_root_witness:
  "\<exists>pkt. parse (demo_host []) (demo_server 512) (be_bytes 2 (nat op_RRQ) @
      ascii (''a'' @ CHR 0x00 # ''octet'' @ CHR 0x00 # ''filename'' @ CHR 0x00 # ''/etc/shadow'' @ [CHR 0x00]))
      (new_conn (demo_server 512) (''c'', 7)) = (Inr pkt, new_conn (demo_server 512) (''c'', 7)) \<and>
    text_at pkt ''filename'' = Inr ''/etc/shadow''"
  using filename_option_bypasses_root [of "''a''" "''octet''" "''/etc/shadow''" "demo_host []" "demo_server 512" "''/srv/a''" op_RRQ
    "new_conn (demo_server 512) (''c'', 7)"] demo_resolve [of "[]" 512] by auto

end
