(* ===== verification/BootChain.thy ===== *)
theory BootChain
  imports DhcpdProperties TftpProperties
begin

text \<open>
  The services together, as \<^verbatim>\<open>lophi-net-services\<close> starts them on the same dictionaries: a controller names an image
  for a machine and permits it to boot, the machine asks for an address, and the TFTP server makes the boot menu.
\<close>

section \<open>The TFTP server on the shared table\<close>

definition with_shared :: "tftp_server \<Rightarrow> 'a shared_scheme \<Rightarrow> tftp_server" where
  "with_shared srv s = srv\<lparr>mac_to_ip := Some (map (\<lambda>(mac, ip). (mac, map int ip)) (shared_map s)),
                           mac_to_pxe_conf := Some (shared_conf s)\<rparr>"

lemma ints_of_address_text: "ip \<noteq> [] \<Longrightarrow> mapE py_int (split_on CHR ''.'' (address_text ip)) = Inr (map int ip)"
proof -
  assume "ip \<noteq> []"
  then have "split_on CHR ''.'' (address_text ip) = map nat_str ip"
    unfolding address_text_def by (intro split_join) (auto simp: dot_not_digit [OF isdigit_nat_str])
  moreover have "mapE py_int (map nat_str ip) = Inr (map int ip)" by (induction ip) (auto simp: py_int_nat_str)
  ultimately show ?thesis by simp
qed

lemma find_address:
  "table_ok m \<Longrightarrow> map_of m mac = Some ip \<Longrightarrow>
   find (\<lambda>(mac, i). i = map int ip) (map (\<lambda>(mac, ip). (mac, map int ip)) m) = Some (mac, map int ip)"
proof (induction m)
  case (Cons kv m)
  have inj: "map int a = map int b \<longleftrightarrow> a = b" for a b by (simp add: inj_map_eq_map)
  show ?case
  proof (cases "snd kv = ip")
    case True
    then have "fst kv = mac" using table_ok_inj [OF Cons.prems(1), of "fst kv" ip mac] Cons.prems(2) by (cases kv) auto
    then show ?thesis using True by (cases kv) simp
  next
    case False
    then have "map_of m mac = Some ip" "table_ok m" using Cons.prems by (auto simp: table_ok_def split: if_splits)
    then show ?thesis using Cons.IH False by (cases kv) (simp add: inj)
  qed
qed simp

lemma pxe_conf_of_machine:
  assumes "table_ok (shared_map s)" and "map_of (shared_map s) mac = Some ip" and "ip \<noteq> []"
  shows "get_pxe_conf (with_shared srv s) (address_text ip) = Inr (shared_conf s mac)"
  by (simp add: get_pxe_conf_def get_mac_def with_shared_def ints_of_address_text [OF assms(3)] find_address [OF assms(1,2)])

section \<open>From the permission to the boot menu\<close>

lemma offer_notes_boot_file:
  assumes "CreateDhcpOfferPacketFrom packet DhcpBasicPacket_init = Inr p" and "shared_acl s mac \<noteq> None"
  shows "mac_to_bootfile (snd (offer_pxe cfg packet mac ip s)) mac = Some (boot_filename cfg) \<and>
         shared_map (snd (offer_pxe cfg packet mac ip s)) = shared_map s \<and>
         shared_conf (snd (offer_pxe cfg packet mac ip s)) = shared_conf s"
proof -
  let ?P = "\<lambda>t. mac_to_bootfile t mac = Some (boot_filename cfg) \<and> shared_map t = shared_map s \<and> shared_conf t = shared_conf s"
  have "keeps ?P (SendDhcpPacketTo q r)" for q r by (intro keeps_SendDhcpPacketTo) simp
  then have "?P (snd (SendDhcpPacketTo q r (s\<lparr>mac_to_bootfile := (mac_to_bootfile s)(mac \<mapsto> boot_filename cfg)\<rparr>)))" for q r
    by (rule keepsD) simp
  moreover obtain x where "shared_acl s mac = Some x" using assms(2) by blast
  ultimately show ?thesis using assms(1) by (simp add: offer_pxe_def)
qed

lemma discover_of_permitted:
  fixes cfg :: dhcpd_config
  assumes "hardware_text packet = Inr mac" and "IsOption ''vendor_class_identifier'' packet" and "is_pxe_client packet = Inr True"
    and "CreateDhcpOfferPacketFrom packet DhcpBasicPacket_init = Inr p" and "shared_acl s mac \<noteq> None"
    and "fst (prospective_ip mac s) = Inr (Some ip)" and "table_ok (shared_map s)"
  defines "t \<equiv> snd (HandleDhcpDiscover cfg packet s)"
  shows "mac_to_bootfile t mac = Some (boot_filename cfg) \<and> map_of (shared_map t) mac = Some ip \<and> table_ok (shared_map t) \<and>
         shared_conf t = shared_conf s"
proof -
  obtain s1 where s1: "prospective_ip mac s = (Inr (Some ip), s1)" using assms(6) by (metis prod.collapse)
  from prospective_ip_result [OF this] assms(7) obtain start m where
    m: "s1 = s\<lparr>start_ip := start, shared_map := m\<rparr>" "table_ok m" "map_of m mac = Some ip" by auto
  have "t = snd (offer_pxe cfg packet mac ip s1)"
    using assms(1-3) by (simp add: t_def HandleDhcpDiscover_def bindS_Inr [where m = "prospective_ip mac", OF s1])
  then show ?thesis using offer_notes_boot_file [OF assms(4), of s1 mac cfg ip] m assms(5) by simp
qed


text \<open>A machine with a MAC address that the controller writes in capitals.\<close>

definition demo_menu_host :: host where
  "demo_menu_host = (demo_host [])\<lparr>exists := (\<lambda>p. False), listdir := (\<lambda>p. Inr [''winxp''])\<rparr>"

definition demo_menu_server :: tftp_server where
  "demo_menu_server = (demo_server 512)\<lparr>root_images := Some ''/images''\<rparr>"

lemma demo_offer: "\<exists>p. CreateDhcpOfferPacketFrom (demo_client 1 0xab) DhcpBasicPacket_init = Inr p"
proof -
  have "isl (CreateDhcpOfferPacketFrom (demo_client 1 0xab) DhcpBasicPacket_init) = False" by code_simp
  then show ?thesis by (cases "CreateDhcpOfferPacketFrom (demo_client 1 0xab) DhcpBasicPacket_init") auto
qed

lemma demo_permitted:
  "IsOption ''vendor_class_identifier'' (demo_client 1 0xab)" "is_pxe_client (demo_client 1 0xab) = Inr True"
  "lower ''08:00:27:00:00:AB'' = ''08:00:27:00:00:ab''"
  "relpath ''/'' ''/srv/pxelinux.cfg/default'' ''/srv'' = ''pxelinux.cfg/default''"
  "table_ok (shared_map (demo_dhcpd []))" "length (set_pxe_conf ''08:00:27:00:00:AB'' ''winxp'') \<le> 512"
  by code_simp+

lemma demo_address:
  "fst (prospective_ip ''08:00:27:00:00:ab'' (permit_boot ''08:00:27:00:00:AB'' ''winxp'' (demo_dhcpd []))) = Inr (Some [192, 168, 1, 254])"
  by code_simp


end
