(* ===== verification/Keyboard.thy ===== *)
theory Keyboard
  imports PyText
begin

text \<open>
  Typing on a machine: \<^verbatim>\<open>keycodes.py\<close>, which turns text into the key codes of Linux, and \<^verbatim>\<open>keypressgenerator.py\<close>,
  which turns a script into messages for the Arduino of a physical machine or into key codes for a virtual one.
  The overridden methods of the abstract class are a record of functions.
\<close>

section \<open>Key codes\<close>

text \<open>The dictionaries as they are written; of two entries with the same key the later one counts.\<close>

definition KEYCODES_list :: "(string \<times> nat) list" where
  "KEYCODES_list = [
    (''ESC'', 1), (''1'', 2), (''2'', 3), (''3'', 4), (''4'', 5), (''5'', 6), (''6'', 7), (''7'', 8),
    (''8'', 9), (''9'', 10), (''0'', 11), (''-'', 12), (''='', 13), (''BS'', 14), (''TAB'', 15), (''Q'', 16),
    (''W'', 17), (''E'', 18), (''R'', 19), (''T'', 20), (''Y'', 21), (''U'', 22), (''I'', 23), (''O'', 24),
    (''P'', 25), (''['', 26), ('']'', 27), (''RETURN'', 28), (''L_CTRL'', 29), (''A'', 30), (''S'', 31),
    (''D'', 32), (''F'', 33), (''G'', 34), (''H'', 35), (''J'', 36), (''K'', 37), (''L'', 38), ('';'', 39),
    ([CHR 0x27], 40), ([CHR 0x60], 41), (''L_SHIFT'', 42), ([CHR 0x5C], 43), (''Z'', 44), (''X'', 45),
    (''C'', 46), (''V'', 47), (''B'', 48), (''N'', 49), (''M'', 50), ('','', 51), (''.'', 52), (''/'', 53),
    (''R_SHIFT'', 54), (''*'', 55), (''LEFT_ALT'', 56), (''SPACE'', 57), ('' '', 57), (''CAPS_LOCK'', 58),
    (''F1'', 59), (''F2'', 60), (''F3'', 61), (''F4'', 62), (''F5'', 63), (''F6'', 64), (''F7'', 65),
    (''F8'', 66), (''F9'', 67), (''F10'', 68), (''NUM_LOCK'', 69), (''SCROLL_LOCK'', 70), (''HOME'', 71),
    (''UP'', 72), (''PGUP'', 73), (''LEFT'', 75), (''RT_ARROW'', 77), (''+'', 78), (''END_1'', 79),
    (''DOWN_2'', 80), (''PGDN_3'', 81), (''INS'', 82), (''DEL'', 84), (''F11'', 87), (''F12'', 88),
    (''R_ENTER'', 96), (''R_CTRL'', 97), (''/'', 98), (''PRT_SCR'', 99), (''R_ALT'', 100), (''Home'', 102),
    (''Up'', 103), (''PgUp'', 104), (''Left'', 105), (''Right'', 106), (''End'', 107), (''Down'', 108),
    (''PgDn'', 109), (''Insert'', 110), (''Del'', 111), (''Pause'', 119), (''LEFT_GUI'', 125)]"

definition KEYCODES :: "string \<rightharpoonup> nat" where
  "KEYCODES k = map_of (rev KEYCODES_list) k"

definition SHIFT_KEYCODES :: "(string \<times> string) list" where
  "SHIFT_KEYCODES = [(''_'', ''-''), ([CHR 0x22], [CHR 0x27]), (''!'', ''1''), ('':'', '';'')]"

definition ARDUINO_KEYMAP :: "(string \<times> string \<times> string) list" where
  "ARDUINO_KEYMAP = [
    (''LEFT_CTRL'', ''0x80'', ''128''), (''LEFT_SHIFT'', ''0x81'', ''129''), (''LEFT_ALT'', ''0x82'', ''130''),
    (''LEFT_GUI'', ''0x83'', ''131''), (''RIGHT_CTRL'', ''0x84'', ''132''), (''RIGHT_SHIFT'', ''0x85'', ''133''),
    (''RIGHT_ALT'', ''0x86'', ''134''), (''RIGHT_GUI'', ''0x87'', ''135''), (''UP_ARROW'', ''0xDA'', ''218''),
    (''DOWN_ARROW'', ''0xD9'', ''217''), (''LEFT_ARROW'', ''0xD8'', ''216''),
    (''RIGHT_ARROW'', ''0xD7'', ''215''), (''BACKSPACE'', ''0xB2'', ''178''), (''TAB'', ''0xB3'', ''179''),
    (''RETURN'', ''0xB0'', ''176''), (''ESC'', ''0xB1'', ''177''), (''INSERT'', ''0xD1'', ''209''),
    (''DELETE'', ''0xD4'', ''212''), (''PAGE_UP'', ''0xD3'', ''211''), (''PAGE_DOWN'', ''0xD6'', ''214''),
    (''HOME'', ''0xD2'', ''210''), (''END'', ''0xD5'', ''213''), (''CAPS_LOCK'', ''0xC1'', ''193''),
    (''F1'', ''0xC2'', ''194''), (''F2'', ''0xC3'', ''195''), (''F3'', ''0xC4'', ''196''),
    (''F4'', ''0xC5'', ''197''), (''F5'', ''0xC6'', ''198''), (''F6'', ''0xC7'', ''199''),
    (''F7'', ''0xC8'', ''200''), (''F8'', ''0xC9'', ''201''), (''F9'', ''0xCA'', ''202''),
    (''F10'', ''0xCB'', ''203''), (''F11'', ''0xCC'', ''204''), (''F12'', ''0xCD'', ''205'')]"

text \<open>An item of the list of keys: one code, or codes that are pressed together.\<close>

datatype pykey = Key nat | Chord "nat list"

definition isupper :: "char \<Rightarrow> bool" where
  "isupper c \<longleftrightarrow> 65 \<le> (of_char c :: nat) \<and> (of_char c :: nat) \<le> 90"

text \<open>The body of the loop of \<^verbatim>\<open>get_codes\<close>; a character that is in no table is printed and left out.\<close>

definition char_codes :: "char \<Rightarrow> pykey list res" where
  "char_codes c =
     (case KEYCODES [upper_char c] of
        Some k \<Rightarrow>
          if isupper c
          then (case KEYCODES ''L_SHIFT'' of None \<Rightarrow> Inl KeyError | Some shift \<Rightarrow> Inr [Chord [shift, k]])
          else Inr [Key k]
      | None \<Rightarrow>
          (case map_of SHIFT_KEYCODES [upper_char c] of
             Some shifted_key \<Rightarrow>
               (case (KEYCODES ''L_SHIFT'', KEYCODES shifted_key) of
                  (Some shift, Some k) \<Rightarrow> Inr [Chord [shift, k]]
                | _ \<Rightarrow> Inl KeyError)
           | None \<Rightarrow> Inr []))"

definition get_codes :: "string \<Rightarrow> pykey list res" where
  "get_codes cmd = bindE (mapE char_codes cmd) (\<lambda>ks. Inr (concat ks))"

section \<open>Lines of a script\<close>

definition lstrip :: "string \<Rightarrow> string" where
  "lstrip s = dropWhile is_space s"

definition rstrip :: "string \<Rightarrow> string" where
  "rstrip s = rev (dropWhile is_space (rev s))"

text \<open>\<^verbatim>\<open>s.split()\<close>: the words between white space.\<close>

function words :: "string \<Rightarrow> string list" where
  "words s =
     (case dropWhile is_space s of
        [] \<Rightarrow> []
      | c # cs \<Rightarrow> (c # takeWhile (\<lambda>x. \<not> is_space x) cs) # words (dropWhile (\<lambda>x. \<not> is_space x) cs))"
  by pat_completeness auto
termination
proof (relation "measure length")
  fix s :: string and c cs
  assume "dropWhile is_space s = c # cs"
  then have "length cs < length s" using length_dropWhile_le [of is_space s] by simp
  then show "(dropWhile (\<lambda>x. \<not> is_space x) cs, s) \<in> measure length"
    using length_dropWhile_le [of "\<lambda>x. \<not> is_space x" cs] by simp
qed simp

declare words.simps [simp del]

text \<open>
  The two regular expressions.  The dot matches everything but a newline, and the dollar sign the end of the line
  and the place before a newline at the end.
\<close>

abbreviation newline :: char where
  "newline \<equiv> CHR 0x0A"

definition at_end :: "string \<Rightarrow> bool" where
  "at_end rest \<longleftrightarrow> rest = [] \<or> rest = [newline]"

definition dots :: "string \<Rightarrow> string option" where
  "dots s =
     (let m = takeWhile (\<lambda>c. c \<noteq> newline) s in
      if m \<noteq> [] \<and> at_end (drop (length m) s) then Some m else None)"

definition comment_pattern :: "string \<Rightarrow> bool" where
  "comment_pattern line = (case line of [] \<Rightarrow> False | c # cs \<Rightarrow> c = CHR ''#'' \<and> dots cs \<noteq> None)"

definition is_word_char :: "char \<Rightarrow> bool" where
  "is_word_char c \<longleftrightarrow> is_digit c \<or> isupper c \<or> isupper (upper_char c) \<or> c = CHR ''_''"

definition cmd_pattern :: "string \<Rightarrow> (string \<times> string) option" where
  "cmd_pattern line =
     (let cmd = takeWhile is_word_char line; rest = dropWhile is_word_char line in
      if cmd = [] \<or> rest = [] \<or> hd rest \<noteq> CHR '':'' then None
      else map_option (Pair cmd) (dots (tl rest)))"

section \<open>The generators\<close>

record 'm generator =
  parse_special :: "string \<Rightarrow> 'm res"
  parse_text :: "string \<Rightarrow> 'm res"
  parse_sleep :: "string \<Rightarrow> 'm res"
  parse_mouse :: "string \<Rightarrow> 'm option res"

definition parse_line :: "'m generator \<Rightarrow> string \<Rightarrow> 'm option res" where
  "parse_line g line =
     (if line = [newline] \<or> comment_pattern line \<or> line = [] then Inr None
      else case cmd_pattern line of
        None \<Rightarrow> Inl (PyException line)
      | Some (cmd, rest) \<Rightarrow>
          let payload = lstrip rest in
          if cmd = ''SPECIAL'' then bindE (parse_special g payload) (\<lambda>m. Inr (Some m))
          else if cmd = ''TEXT'' then bindE (parse_text g payload) (\<lambda>m. Inr (Some m))
          else if cmd = ''MOUSE'' then parse_mouse g payload
          else if cmd = ''SLEEP'' then bindE (parse_sleep g payload) (\<lambda>m. Inr (Some m))
          else Inl (PyException line))"

definition text_to_script :: "'m generator \<Rightarrow> string \<Rightarrow> 'm list res" where
  "text_to_script g script = bindE (mapE (parse_line g) (split_on newline script)) (\<lambda>msgs. Inr (List.map_filter id msgs))"

text \<open>
  \<^verbatim>\<open>get_ftp_script\<close>, for the files of the host; the placeholders are replaced one after the other.
\<close>

record ftp_info =
  ftp_ip :: string
  ftp_port :: nat
  ftp_user :: string
  ftp_pass :: string
  ftp_dir :: string

definition PROFILE_TO_SCRIPT :: "(string \<times> string) list" where
  "PROFILE_TO_SCRIPT = [(''WinXPSP3x86'', ''windows.act''), (''Win7SP0x86'', ''win7.act''), (''Win7SP0x64'', ''win7.act'')]"

definition fill_in :: "ftp_info \<Rightarrow> string \<Rightarrow> string" where
  "fill_in info script =
     replace_all ''%%DIR%%'' (ftp_dir info)
       (replace_all ''%%PASSWORD%%'' (ftp_pass info)
         (replace_all ''%%USERNAME%%'' (ftp_user info)
           (replace_all ''%%PORT%%'' (nat_str (ftp_port info))
             (replace_all ''%%IP%%'' (ftp_ip info) script))))"

definition get_ftp_script ::
  "'m generator \<Rightarrow> (string \<Rightarrow> string option) \<Rightarrow> string \<Rightarrow> ftp_info \<Rightarrow> bool \<Rightarrow> 'm list option res" where
  "get_ftp_script g files profile info hit_enter =
     (case map_of PROFILE_TO_SCRIPT profile of
        None \<Rightarrow> Inr None
      | Some name \<Rightarrow>
          (case files (''/opt/lophi/actuation_scripts/'' @ name) of
             None \<Rightarrow> Inr None
           | Some content \<Rightarrow>
               bindE (text_to_script g (fill_in info content)) (\<lambda>script.
                 if hit_enter then bindE (parse_special g ''RETURN'') (\<lambda>m. Inr (Some (script @ [m])))
                 else Inr (Some script))))"

section \<open>Physical machines\<close>

definition KEYB_CMD :: string where "KEYB_CMD = ''KEY''"
definition KEY_SP_CMD :: string where "KEY_SP_CMD = ''KSP''"
definition KEY_SLEEP :: string where "KEY_SLEEP = ''SLP''"

definition create_msg :: "string \<Rightarrow> string \<Rightarrow> string" where
  "create_msg cmd_type payload = cmd_type @ '':'' @ payload"

text \<open>\<^verbatim>\<open>hex(n)[2:]\<close> for a byte, and the five characters that the Arduino expects for a key.\<close>

definition low_hex :: "nat \<Rightarrow> char" where
  "low_hex d = (if d < 10 then digit_char d else char_of (87 + d))"

definition hex_of_byte :: "nat \<Rightarrow> string" where
  "hex_of_byte n = (if n < 16 then [low_hex n] else [low_hex (n div 16), low_hex (n mod 16)])"

text \<open>\<^verbatim>\<open>hex(n)[2:]\<close> for any number.\<close>

fun hex_str :: "nat \<Rightarrow> string" where
  "hex_str n = (if n < 16 then [low_hex n] else hex_str (n div 16) @ [low_hex (n mod 16)])"

declare hex_str.simps [simp del]

definition arduino_key :: "string \<Rightarrow> string res" where
  "arduino_key key =
     bindE (case map_of ARDUINO_KEYMAP key of
              Some (h, d) \<Rightarrow> Inr (drop 2 h)
            | None \<Rightarrow> (case key of [c] \<Rightarrow> Inr (hex_of_byte (of_char c)) | _ \<Rightarrow> Inl TypeError))
       (\<lambda>hex_key. Inr (hex_key @ replicate (5 - length hex_key) CHR '' ''))"

definition special_physical :: "string \<Rightarrow> string res" where
  "special_physical payload =
     bindE (mapE arduino_key (words (rstrip payload))) (\<lambda>p. Inr (create_msg KEY_SP_CMD (concat p)))"

definition KeypressGeneratorPhysical :: "string generator" where
  "KeypressGeneratorPhysical =
     \<lparr>parse_special = special_physical, parse_text = (\<lambda>p. Inr (create_msg KEYB_CMD p)),
      parse_sleep = (\<lambda>p. Inr (create_msg KEY_SLEEP p)), parse_mouse = (\<lambda>p. Inr None)\<rparr>"

section \<open>Virtual machines\<close>

datatype vpayload = Codes "nat list" | Keys "pykey list" | Arg string

type_synonym vmsg = "string \<times> vpayload"

text \<open>A special key that has no code is logged and left out.\<close>

definition special_virtual :: "string \<Rightarrow> vmsg res" where
  "special_virtual payload =
     Inr (KEY_SP_CMD, Codes (List.map_filter (\<lambda>key. KEYCODES (upper key)) (words (rstrip payload))))"

definition KeypressGeneratorVirtual :: "vmsg generator" where
  "KeypressGeneratorVirtual =
     \<lparr>parse_special = special_virtual, parse_text = (\<lambda>p. bindE (get_codes p) (\<lambda>ks. Inr (KEYB_CMD, Keys ks))),
      parse_sleep = (\<lambda>p. Inr (KEY_SLEEP, Arg p)), parse_mouse = (\<lambda>p. Inr None)\<rparr>"

text \<open>
  \<^verbatim>\<open>keypress_send\<close> of a virtual machine: the key codes of each \<^verbatim>\<open>sendKey\<close> and the pauses of the script, and the
  exception of a pause that is no number, after which nothing more is sent.
\<close>

datatype key_action = SendKey "nat list" | Pause int

fun send_msg :: "vmsg \<Rightarrow> key_action list res" where
  "send_msg (cmd, Codes ks) = Inr [SendKey ks]"
| "send_msg (cmd, Arg a) = bindE (py_int a) (\<lambda>n. if n < 0 then Inl IOError else Inr [Pause n])"
| "send_msg (cmd, Keys ks) = Inr (map (\<lambda>k. case k of Key n \<Rightarrow> SendKey [n] | Chord c \<Rightarrow> SendKey c) ks)"

fun keypress_send_virtual :: "vmsg list \<Rightarrow> key_action list \<times> py_error option" where
  "keypress_send_virtual [] = ([], None)"
| "keypress_send_virtual (m # msgs) =
     (case send_msg m of
        Inl e \<Rightarrow> ([], Some e)
      | Inr acts \<Rightarrow> (case keypress_send_virtual msgs of (rest, r) \<Rightarrow> (acts @ rest, r)))"

end
