(* ===== verification/KeyboardProperties.thy ===== *)
theory KeyboardProperties
  imports Keyboard
begin

text \<open>
  What a machine sees of a script: the text that a virtual keyboard types, on the layout of a US keyboard, and the
  codes that the Arduino reads from a message, and that a script is read line by line as it was written.
\<close>

section \<open>The text that is typed\<close>

text \<open>The keys of a US keyboard by their Linux codes: the character alone and with the shift key.\<close>

definition us_layout :: "(nat \<times> char \<times> char) list" where
  "us_layout =
     zip [2..<14] (zip ''1234567890-='' ''!@#$%^&*()_+'') @
     zip [16..<28] (zip ''qwertyuiop[]'' ''QWERTYUIOP{}'') @
     zip [30..<39] (zip ''asdfghjkl'' ''ASDFGHJKL'') @
     zip [39..<42] (zip ['';''!0, CHR 0x27, CHR 0x60] ['':''!0, CHR 0x22, CHR 0x7E]) @
     [(43, CHR 0x5C, CHR 0x7C)] @
     zip [44..<54] (zip ''zxcvbnm,./'' ''ZXCVBNM<>?'') @
     [(55, CHR ''*'', CHR ''*''), (57, CHR '' '', CHR '' ''), (78, CHR ''+'', CHR ''+''), (98, CHR ''/'', CHR ''/'')]"

fun typed_by :: "nat list \<Rightarrow> string" where
  "typed_by [k] = (case map_of us_layout k of Some (c, d) \<Rightarrow> [c] | None \<Rightarrow> [])"
| "typed_by [s, k] = (if s = 42 then (case map_of us_layout k of Some (c, d) \<Rightarrow> [d] | None \<Rightarrow> []) else [])"
| "typed_by _ = []"

fun typed :: "key_action list \<Rightarrow> string" where
  "typed [] = []"
| "typed (SendKey ks # acts) = typed_by ks @ typed acts"
| "typed (Pause n # acts) = typed acts"

definition other_chars :: string where
  "other_chars = ''-=[];,./*+ _!:'' @ [CHR 0x27, CHR 0x60, CHR 0x5C, CHR 0x22]"

definition typable :: "char \<Rightarrow> bool" where
  "typable c \<longleftrightarrow> is_digit c \<or> isupper c \<or> isupper (upper_char c) \<or>
     c \<in> set other_chars"

definition key_act :: "pykey \<Rightarrow> key_action" where
  "key_act k = (case k of Key n \<Rightarrow> SendKey [n] | Chord c \<Rightarrow> SendKey c)"

definition char_ok :: "char \<Rightarrow> bool" where
  "char_ok c = (case char_codes c of Inl e \<Rightarrow> False
     | Inr ks \<Rightarrow> typed (map key_act ks) = (if typable c then [c] else []))"

text \<open>The entries of the table for single characters.\<close>

definition KEY_CHARS :: "(char \<times> nat) list" where
  "KEY_CHARS = [
    (CHR ''/'', 98), (CHR ''+'', 78), (CHR '' '', 57), (CHR ''*'', 55), (CHR ''/'', 53), (CHR ''.'', 52),
    (CHR '','', 51), (CHR ''M'', 50), (CHR ''N'', 49), (CHR ''B'', 48), (CHR ''V'', 47), (CHR ''C'', 46),
    (CHR ''X'', 45), (CHR ''Z'', 44), (CHR 0x5C, 43), (CHR 0x60, 41), (CHR 0x27, 40), (CHR '';'', 39),
    (CHR ''L'', 38), (CHR ''K'', 37), (CHR ''J'', 36), (CHR ''H'', 35), (CHR ''G'', 34), (CHR ''F'', 33),
    (CHR ''D'', 32), (CHR ''S'', 31), (CHR ''A'', 30), (CHR '']'', 27), (CHR ''['', 26), (CHR ''P'', 25),
    (CHR ''O'', 24), (CHR ''I'', 23), (CHR ''U'', 22), (CHR ''Y'', 21), (CHR ''T'', 20), (CHR ''R'', 19),
    (CHR ''E'', 18), (CHR ''W'', 17), (CHR ''Q'', 16), (CHR ''='', 13), (CHR ''-'', 12), (CHR ''0'', 11),
    (CHR ''9'', 10), (CHR ''8'', 9), (CHR ''7'', 8), (CHR ''6'', 7), (CHR ''5'', 6), (CHR ''4'', 5),
    (CHR ''3'', 4), (CHR ''2'', 3), (CHR ''1'', 2)]"

lemma KEYCODES_char: "KEYCODES [x] = map_of KEY_CHARS x"
  by (simp add: KEYCODES_def KEYCODES_list_def KEY_CHARS_def)

lemma KEYCODES_shift: "KEYCODES ''L_SHIFT'' = Some 42"
  by (simp add: KEYCODES_def KEYCODES_list_def)

text \<open>Each of them is on the keyboard at its code: letters in capitals, the others without the shift key.\<close>

lemma KEY_CHARS_layout:
  "list_all (\<lambda>(x, k). case map_of us_layout k of None \<Rightarrow> False | Some (c, d) \<Rightarrow> c = lower_char x \<and> (isupper x \<longrightarrow> d = x)) KEY_CHARS"
  by code_simp

lemma KEY_CHARS_typable: "list_all (\<lambda>(x, k). typable x \<and> upper_char x = x) KEY_CHARS"
  by code_simp

lemma KEY_CHARS_ranges: "list_all (\<lambda>n. map_of KEY_CHARS (char_of n) \<noteq> None) ([48..<58] @ [65..<91])"
  by code_simp

lemma KEY_CHARS_listed:
  "list_all (\<lambda>c. map_of KEY_CHARS c \<noteq> None \<or> map_of SHIFT_KEYCODES [c] \<noteq> None)
     other_chars"
  by code_simp

lemma letter_cases:
  "lower_char (upper_char c) = (if isupper c then lower_char c else c)"
  "isupper c \<Longrightarrow> upper_char c = c"
  "isupper (upper_char c) \<or> upper_char c = c"
  by (auto simp: lower_char_def upper_char_def isupper_def)

lemma key_char_range: "is_digit c \<or> isupper c \<Longrightarrow> map_of KEY_CHARS c \<noteq> None"
proof -
  assume "is_digit c \<or> isupper c"
  then have "(of_char c :: nat) \<in> set ([48..<58] @ [65..<91])" by (auto simp: is_digit_def isupper_def simp del: upt_rec_numeral)
  then have "map_of KEY_CHARS (char_of (of_char c :: nat)) \<noteq> None"
    using KEY_CHARS_ranges unfolding list_all_iff by blast
  then show ?thesis by simp
qed

lemma typable_known: "typable c \<Longrightarrow> map_of KEY_CHARS (upper_char c) \<noteq> None \<or> map_of SHIFT_KEYCODES [upper_char c] \<noteq> None"
proof -
  assume "typable c"
  then consider "is_digit c \<or> isupper c" | "isupper (upper_char c)" | "c \<in> set other_chars" unfolding typable_def by blast
  then show ?thesis
  proof cases
    case 1
    then have "upper_char c = c" by (auto simp: upper_char_def is_digit_def isupper_def)
    then show ?thesis using key_char_range [of c] 1 by simp
  next
    case 2
    then show ?thesis using key_char_range by blast
  next
    case 3
    then have "upper_char c = c" by (auto simp: upper_char_def other_chars_def)
    then show ?thesis using bspec [OF KEY_CHARS_listed [unfolded list_all_iff] 3] by simp
  qed
qed

lemma char_ok_code:
  assumes "map_of KEY_CHARS (upper_char c) = Some k"
  shows "char_ok c"
proof -
  have mem: "(upper_char c, k) \<in> set KEY_CHARS" using map_of_SomeD [OF assms] .
  then obtain d where layout: "map_of us_layout k = Some (lower_char (upper_char c), d)" "isupper (upper_char c) \<longrightarrow> d = upper_char c"
    using KEY_CHARS_layout by (fastforce simp: list_all_iff split: option.splits)
  have "typable (upper_char c)" using mem KEY_CHARS_typable by (fastforce simp: list_all_iff)
  then have "typable c" using letter_cases(3) [of c] by (auto simp: typable_def)
  then show ?thesis
    using assms layout letter_cases [of c]
    by (auto simp: char_ok_def char_codes_def KEYCODES_char KEYCODES_shift key_act_def)
qed

lemma char_ok: "char_ok c"
proof (cases "map_of KEY_CHARS (upper_char c)")
  case (Some k)
  then show ?thesis by (rule char_ok_code)
next
  case None
  show ?thesis
  proof (cases "map_of SHIFT_KEYCODES [upper_char c]")
    case (Some s)
    then have "upper_char c \<in> {CHR ''_'', CHR 0x22, CHR ''!'', CHR '':''}"
      by (auto simp: SHIFT_KEYCODES_def split: if_splits)
    then have "c \<in> {CHR ''_'', CHR 0x22, CHR ''!'', CHR '':''}" using letter_cases(3) [of c] by (auto simp: isupper_def)
    then show ?thesis
      by (elim insertE emptyE; hypsubst; code_simp)
  next
    case N: None
    then have "\<not> typable c" using typable_known None by blast
    then show ?thesis using None N by (simp add: char_ok_def char_codes_def KEYCODES_char)
  qed
qed

lemma typed_append: "typed (a @ b) = typed a @ typed b"
  by (induction a rule: typed.induct) auto

lemma char_codes_typed: "\<exists>ks. char_codes c = Inr ks \<and> typed (map key_act ks) = (if typable c then [c] else [])"
  using char_ok [of c] by (auto simp: char_ok_def split: sum.splits)

lemma get_codes_typed: "\<exists>ks. get_codes s = Inr ks \<and> typed (map key_act ks) = filter typable s"
proof (induction s)
  case (Cons c s)
  then obtain ks where ks: "get_codes s = Inr ks" "typed (map key_act ks) = filter typable s" by blast
  obtain kc where kc: "char_codes c = Inr kc" "typed (map key_act kc) = (if typable c then [c] else [])"
    using char_codes_typed by blast
  from ks(1) kc(1) have "get_codes (c # s) = Inr (kc @ ks)" by (auto simp: get_codes_def res_simps)
  then show ?case using ks(2) kc(2) by (simp add: typed_append)
qed (simp add: get_codes_def)

section \<open>Scripts\<close>

text \<open>A script as the author means it, and how it is written.\<close>

datatype command = Text string | Special "string list" | Sleep nat | Comment string | Blank

fun print_command :: "command \<Rightarrow> string" where
  "print_command (Text s) = ''TEXT:'' @ s"
| "print_command (Special ks) = ''SPECIAL:'' @ join_with CHR '' '' ks"
| "print_command (Sleep n) = ''SLEEP:'' @ nat_str n"
| "print_command (Comment s) = ''#'' @ s"
| "print_command Blank = []"

fun command_ok :: "command \<Rightarrow> bool" where
  "command_ok (Text s) \<longleftrightarrow> s \<noteq> [] \<and> newline \<notin> set s \<and> \<not> is_space (hd s)"
| "command_ok (Special ks) \<longleftrightarrow> ks \<noteq> [] \<and> list_all (\<lambda>k. k \<noteq> [] \<and> list_all (\<lambda>c. \<not> is_space c) k) ks"
| "command_ok (Comment s) \<longleftrightarrow> s \<noteq> [] \<and> newline \<notin> set s"
| "command_ok _ \<longleftrightarrow> True"

fun command_msg :: "'m generator \<Rightarrow> command \<Rightarrow> 'm option res" where
  "command_msg g (Text s) = bindE (parse_text g s) (\<lambda>m. Inr (Some m))"
| "command_msg g (Special ks) = bindE (parse_special g (join_with CHR '' '' ks)) (\<lambda>m. Inr (Some m))"
| "command_msg g (Sleep n) = bindE (parse_sleep g (nat_str n)) (\<lambda>m. Inr (Some m))"
| "command_msg g _ = Inr None"

lemma dots_plain: "s \<noteq> [] \<Longrightarrow> newline \<notin> set s \<Longrightarrow> dots s = Some s"
proof -
  assume "s \<noteq> []" "newline \<notin> set s"
  then have "takeWhile (\<lambda>c. c \<noteq> newline) s = s" by (induction s) auto
  then show ?thesis using \<open>s \<noteq> []\<close> unfolding dots_def Let_def by (simp only:) (simp add: at_end_def)
qed

lemma cmd_pattern_plain:
  assumes "list_all is_word_char cmd" "cmd \<noteq> []" "s \<noteq> []" "newline \<notin> set s"
  shows "cmd_pattern (cmd @ CHR '':'' # s) = Some (cmd, s)"
proof -
  have "\<not> is_word_char CHR '':''" by code_simp
  then have "takeWhile is_word_char (cmd @ CHR '':'' # s) = cmd" "dropWhile is_word_char (cmd @ CHR '':'' # s) = CHR '':'' # s"
    using assms(1) by (auto simp: list_all_iff takeWhile_append dropWhile_append)
  then show ?thesis using assms dots_plain [of s] by (simp add: cmd_pattern_def)
qed

lemma command_words: "list_all is_word_char ''TEXT''" "list_all is_word_char ''SPECIAL''" "list_all is_word_char ''SLEEP''"
  by code_simp+

lemma lstrip_plain: "s \<noteq> [] \<Longrightarrow> \<not> is_space (hd s) \<Longrightarrow> lstrip s = s"
  by (cases s) (auto simp: lstrip_def)

lemma newline_space: "is_space newline" "is_space CHR '' ''"
  by (simp_all add: is_space_def)

lemma set_join: "set (join_with c ks) \<subseteq> insert c (\<Union> (set ` set ks))"
  by (induction c ks rule: join_with.induct) auto

lemma joined_plain:
  assumes "ks \<noteq> []" and "list_all (\<lambda>k. k \<noteq> [] \<and> list_all (\<lambda>c. \<not> is_space c) k) ks"
  shows "join_with CHR '' '' ks \<noteq> []" "newline \<notin> set (join_with CHR '' '' ks)" "\<not> is_space (hd (join_with CHR '' '' ks))"
proof -
  have "newline \<notin> set k" if "k \<in> set ks" for k using assms(2) that newline_space by (auto simp: list_all_iff)
  then show "newline \<notin> set (join_with CHR '' '' ks)" using set_join [of "CHR '' ''" ks] by auto
  obtain k ks' where "ks = k # ks'" "k \<noteq> []" "\<not> is_space (hd k)" using assms by (cases ks) (auto simp: list_all_iff)
  then show "join_with CHR '' '' ks \<noteq> []" "\<not> is_space (hd (join_with CHR '' '' ks))" by (cases ks'; simp)+
qed

lemma digits_plain:
  "nat_str n \<noteq> []" "newline \<notin> set (nat_str n)" "\<not> is_space (hd (nat_str n))"
proof -
  have d: "nat_str n \<noteq> []" "list_all is_digit (nat_str n)" using isdigit_nat_str [of n] by (simp_all add: isdigit_def)
  then show "nat_str n \<noteq> []" "\<not> is_space (hd (nat_str n))" by (auto simp: list_all_iff digit_not_space)
  show "newline \<notin> set (nat_str n)" using d(2) newline_space digit_not_space by (auto simp: list_all_iff)
qed

lemma parse_command:
  assumes "list_all is_word_char cmd" "cmd \<noteq> []" "s \<noteq> []" "newline \<notin> set s" "\<not> is_space (hd s)"
    and "hd cmd \<noteq> CHR ''#''" and "line = cmd @ CHR '':'' # s"
  shows "parse_line g line =
     (if cmd = ''SPECIAL'' then bindE (parse_special g s) (\<lambda>m. Inr (Some m))
      else if cmd = ''TEXT'' then bindE (parse_text g s) (\<lambda>m. Inr (Some m))
      else if cmd = ''MOUSE'' then parse_mouse g s
      else if cmd = ''SLEEP'' then bindE (parse_sleep g s) (\<lambda>m. Inr (Some m))
      else Inl (PyException line))"
proof -
  have "\<not> comment_pattern line" "line \<noteq> [newline]" "line \<noteq> []"
    using assms(2,6,7) by (cases cmd; auto simp: comment_pattern_def)+
  then show ?thesis
    using cmd_pattern_plain [OF assms(1-4)] lstrip_plain [OF assms(3,5)] assms(7) by (simp add: parse_line_def Let_def)
qed

lemma parse_printed: "command_ok c \<Longrightarrow> parse_line g (print_command c) = command_msg g c"
proof (cases c)
  case (Text s)
  moreover assume "command_ok c"
  ultimately show ?thesis using parse_command [OF command_words(1), of s "print_command c" g] by simp
next
  case (Special ks)
  moreover assume "command_ok c"
  ultimately show ?thesis using parse_command [OF command_words(2) _ joined_plain [of ks], of "print_command c" g] by simp
next
  case (Sleep n)
  then show ?thesis using parse_command [OF command_words(3) _ digits_plain [of n], of "print_command c" g] by simp
next
  case (Comment s)
  moreover assume "command_ok c"
  ultimately have "comment_pattern (print_command c)" by (simp add: comment_pattern_def dots_plain)
  then show ?thesis using Comment by (simp add: parse_line_def)
qed (simp add: parse_line_def)

lemma printed_plain: "command_ok c \<Longrightarrow> newline \<notin> set (print_command c)"
  using joined_plain(2) digits_plain(2) by (cases c) auto

lemma script_lines:
  assumes "cmds \<noteq> []" and "list_all command_ok cmds"
  shows "split_on newline (join_with newline (map print_command cmds)) = map print_command cmds"
  using assms by (intro split_join) (auto simp: list_all_iff printed_plain)

lemma script_messages:
  assumes "cmds \<noteq> []" and "list_all command_ok cmds"
  shows "text_to_script g (join_with newline (map print_command cmds)) =
           bindE (mapE (command_msg g) cmds) (\<lambda>msgs. Inr (List.map_filter id msgs))"
proof -
  have "mapE (\<lambda>c. parse_line g (print_command c)) cmds = mapE (command_msg g) cmds"
    using assms(2) by (intro mapE_cong) (simp add: list_all_iff parse_printed)
  then show ?thesis by (simp add: text_to_script_def script_lines [OF assms] mapE_map)
qed

text \<open>The words of a line that was joined with single spaces.\<close>

lemma words_joined:
  "list_all (\<lambda>k. k \<noteq> [] \<and> list_all (\<lambda>c. \<not> is_space c) k) ks \<Longrightarrow> words (join_with CHR '' '' ks) = ks"
proof (induction "CHR '' ''" ks rule: join_with.induct)
  case 1
  then show ?case by (simp add: words.simps)
next
  case (2 k)
  then obtain c cs where k: "k = c # cs" "\<not> is_space c" "\<forall>x \<in> set cs. \<not> is_space x" by (cases k) (auto simp: list_all_iff)
  then have "dropWhile (\<lambda>x. \<not> is_space x) cs = []" by simp
  then have "words (dropWhile (\<lambda>x. \<not> is_space x) cs) = []" by (simp only:) (simp add: words.simps)
  then show ?case using k by (simp add: words.simps [of "c # cs"])
next
  case (3 k l ks)
  then obtain c cs where k: "k = c # cs" "\<not> is_space c" "\<forall>x \<in> set cs. \<not> is_space x" by (cases k) (auto simp: list_all_iff)
  let ?r = "join_with CHR '' '' (l # ks)"
  have tk: "takeWhile (\<lambda>x. \<not> is_space x) (cs @ CHR '' '' # ?r) = cs"
    "dropWhile (\<lambda>x. \<not> is_space x) (cs @ CHR '' '' # ?r) = CHR '' '' # ?r"
    using k(3) newline_space(2) by (simp_all add: takeWhile_append dropWhile_append)
  have "words (CHR '' '' # ?r) = words ?r"
    by (subst (1 2) words.simps) (simp add: newline_space)
  then show ?case using 3 k tk by (subst words.simps) simp
qed

lemma rstrip_joined:
  assumes "list_all (\<lambda>k. k \<noteq> [] \<and> list_all (\<lambda>c. \<not> is_space c) k) ks"
  shows "rstrip (join_with CHR '' '' ks) = join_with CHR '' '' ks"
proof (cases ks rule: rev_cases)
  case (snoc ls l)
  have "\<exists>p. join_with CHR '' '' (ls @ [l]) = p @ l"
    by (induction "CHR '' ''" ls rule: join_with.induct) auto
  then obtain p where "join_with CHR '' '' ks = p @ l" using snoc by blast
  moreover have "l \<noteq> []" "\<not> is_space (last l)" using assms snoc by (auto simp: list_all_iff)
  ultimately show ?thesis by (cases l rule: rev_cases) (auto simp: rstrip_def)
qed (simp add: rstrip_def)

lemmas joined_words = words_joined rstrip_joined

section \<open>From a script to the keyboard\<close>

fun command_text :: "command \<Rightarrow> string" where
  "command_text (Text s) = filter typable s"
| "command_text (Special ks) = typed_by (List.map_filter (\<lambda>k. KEYCODES (upper k)) ks)"
| "command_text _ = []"

fun pauses :: "key_action list \<Rightarrow> int list" where
  "pauses [] = []"
| "pauses (SendKey ks # acts) = pauses acts"
| "pauses (Pause n # acts) = n # pauses acts"

fun command_pauses :: "command \<Rightarrow> int list" where
  "command_pauses (Sleep n) = [int n]"
| "command_pauses _ = []"

lemma pauses_append: "pauses (a @ b) = pauses a @ pauses b"
  by (induction a rule: pauses.induct) auto

lemma pauses_keys: "pauses (map key_act ks) = []"
  by (induction ks) (auto simp: key_act_def split: pykey.splits)

lemma command_virtual:
  assumes "command_ok c"
  shows "\<exists>m. command_msg KeypressGeneratorVirtual c = Inr m \<and>
    (\<forall>msgs. \<exists>acts. keypress_send_virtual (List.map_filter id [m] @ msgs) =
       (acts @ fst (keypress_send_virtual msgs), snd (keypress_send_virtual msgs)) \<and>
       typed acts = command_text c \<and> pauses acts = command_pauses c)"
proof (cases c)
  case (Text s)
  obtain ks where "get_codes s = Inr ks" "typed (map key_act ks) = filter typable s" using get_codes_typed by blast
  then show ?thesis using Text pauses_keys [of ks]
    by (auto simp: KeypressGeneratorVirtual_def map_filter_simps key_act_def [abs_def] split: prod.split)
next
  case (Special ks)
  then show ?thesis using assms joined_words [of ks]
    by (auto simp: KeypressGeneratorVirtual_def special_virtual_def map_filter_simps split: prod.split
      intro!: exI [of _ "[SendKey (List.map_filter (\<lambda>k. KEYCODES (upper k)) ks)]"])
next
  case (Sleep n)
  then show ?thesis
    by (auto simp: KeypressGeneratorVirtual_def map_filter_simps py_int_nat_str split: prod.split intro!: exI [of _ "[Pause (int n)]"])
qed (auto simp: map_filter_simps intro!: exI [of _ "[]"])

lemma script_virtual:
  assumes "list_all command_ok cmds"
  shows "\<exists>ms acts. mapE (command_msg KeypressGeneratorVirtual) cmds = Inr ms \<and>
    keypress_send_virtual (List.map_filter id ms) = (acts, None) \<and>
    typed acts = concat (map command_text cmds) \<and> pauses acts = concat (map command_pauses cmds)"
  using assms
proof (induction cmds)
  case Nil
  then show ?case by (simp add: map_filter_simps)
next
  case (Cons c cmds)
  then have "list_all command_ok cmds" by simp
  from Cons.IH [OF this] obtain ms acts where IH: "mapE (command_msg KeypressGeneratorVirtual) cmds = Inr ms"
    "keypress_send_virtual (List.map_filter id ms) = (acts, None)"
    "typed acts = concat (map command_text cmds)" "pauses acts = concat (map command_pauses cmds)" by blast
  from Cons.prems have "command_ok c" by simp
  from command_virtual [OF this] obtain m where m0: "command_msg KeypressGeneratorVirtual c = Inr m"
    "\<forall>msgs. \<exists>acts. keypress_send_virtual (List.map_filter id [m] @ msgs) =
       (acts @ fst (keypress_send_virtual msgs), snd (keypress_send_virtual msgs)) \<and>
       typed acts = command_text c \<and> pauses acts = command_pauses c" by blast
  obtain a where m: "command_msg KeypressGeneratorVirtual c = Inr m"
    "keypress_send_virtual (List.map_filter id [m] @ List.map_filter id ms) = (a @ acts, None)"
    "typed a = command_text c" "pauses a = command_pauses c"
    using m0(1) spec [OF m0(2), of "List.map_filter id ms"] unfolding IH(2) fst_conv snd_conv by blast
  have "List.map_filter id (m # ms) = List.map_filter id [m] @ List.map_filter id ms"
    by (cases m) (simp_all add: map_filter_simps)
  then have "keypress_send_virtual (List.map_filter id (m # ms)) = (a @ acts, None)" using m(2) by (simp only:)
  moreover have "mapE (command_msg KeypressGeneratorVirtual) (c # cmds) = Inr (m # ms)" using m(1) IH(1) by simp
  moreover have "typed (a @ acts) = concat (map command_text (c # cmds))" using m(3) IH(3) by (simp add: typed_append)
  moreover have "pauses (a @ acts) = concat (map command_pauses (c # cmds))" using m(4) IH(4) by (simp add: pauses_append)
  ultimately show ?case by blast
qed


section \<open>Special keys of a physical machine\<close>

text \<open>How the Arduino reads a message: fields of five characters, each a hexadecimal number.\<close>

function key_fields :: "string \<Rightarrow> string list" where
  "key_fields s = (if s = [] then [] else take 5 s # key_fields (drop 5 s))"
  by pat_completeness auto
termination by (relation "measure length") auto

declare key_fields.simps [simp del]

definition hex_number :: "string \<Rightarrow> nat" where
  "hex_number s = foldl (\<lambda>n c. 16 * n + (case hex_val c of Some d \<Rightarrow> d | None \<Rightarrow> 0)) 0 s"

definition field_code :: "string \<Rightarrow> nat" where
  "field_code f = hex_number (rstrip f)"

text \<open>The code that is meant: the decimal number of the table, or the character itself.\<close>

definition key_value :: "string \<Rightarrow> nat" where
  "key_value k = (case map_of ARDUINO_KEYMAP k of Some (h, d) \<Rightarrow> digits_val 0 d | None \<Rightarrow> of_char (hd k))"

definition key_known :: "string \<Rightarrow> bool" where
  "key_known k \<longleftrightarrow> map_of ARDUINO_KEYMAP k \<noteq> None \<or> length k = 1"

lemma keymap_entries:
  "list_all (\<lambda>(k, h, d). length h = 4 \<and> \<not> is_space (last h) \<and> hex_number (drop 2 h) = digits_val 0 d) ARDUINO_KEYMAP"
  by code_simp

lemma low_hex: "d < 16 \<Longrightarrow> hex_val (low_hex d) = Some d \<and> \<not> is_space (low_hex d)"
  by (auto simp: low_hex_def hex_val_def is_space_def digit_char_def Let_def)

lemma hex_of_byte:
  assumes "n < 256"
  shows "hex_number (hex_of_byte n) = n \<and> \<not> is_space (last (hex_of_byte n)) \<and> hex_of_byte n \<noteq> [] \<and> length (hex_of_byte n) \<le> 2"
proof -
  have "n div 16 < 16" using assms by simp
  then show ?thesis using low_hex [of n] low_hex [of "n div 16"] low_hex [of "n mod 16"]
    by (simp add: hex_of_byte_def hex_number_def)
qed

lemma rstrip_padded: "s \<noteq> [] \<Longrightarrow> \<not> is_space (last s) \<Longrightarrow> rstrip (s @ replicate n CHR '' '') = s"
proof -
  assume "s \<noteq> []" "\<not> is_space (last s)"
  then obtain p c where "s = p @ [c]" "\<not> is_space c" by (cases s rule: rev_cases) auto
  moreover have "dropWhile is_space (replicate n CHR '' '' @ xs) = dropWhile is_space xs" for xs
    by (induction n) (auto simp: newline_space)
  ultimately show ?thesis by (simp add: rstrip_def)
qed

lemma arduino_key_field:
  assumes "key_known k"
  shows "\<exists>f. arduino_key k = Inr f \<and> length f = 5 \<and> field_code f = key_value k"
proof (cases "map_of ARDUINO_KEYMAP k")
  case (Some e)
  obtain h d where e: "e = (h, d)" by fastforce
  then have "(k, h, d) \<in> set ARDUINO_KEYMAP" using map_of_SomeD [OF Some] by simp
  then have h: "length h = 4" "\<not> is_space (last h)" "hex_number (drop 2 h) = digits_val 0 d"
    using keymap_entries by (auto simp: list_all_iff)
  then have "rstrip (drop 2 h @ replicate 3 CHR '' '') = drop 2 h" by (intro rstrip_padded) auto
  then show ?thesis using Some e h by (simp add: arduino_key_def field_code_def key_value_def)
next
  case None
  then obtain c where k: "k = [c]" using assms by (auto simp: key_known_def length_Suc_conv)
  let ?h = "hex_of_byte (of_char c)"
  have h: "hex_number ?h = of_char c" "\<not> is_space (last ?h)" "?h \<noteq> []" "length ?h \<le> 2" using hex_of_byte [of "of_char c"] by auto
  then show ?thesis using None k rstrip_padded [OF h(3,2)]
    by (simp add: arduino_key_def field_code_def key_value_def)
qed

lemma key_fields_concat: "list_all (\<lambda>f. length f = 5) fs \<Longrightarrow> key_fields (concat fs) = fs"
proof (induction fs)
  case (Cons f fs)
  then have "key_fields (f @ concat fs) = f # key_fields (concat fs)" by (subst key_fields.simps) auto
  then show ?case using Cons by simp
qed (simp add: key_fields.simps)

lemma arduino_keys_fields:
  "list_all key_known ks \<Longrightarrow> \<exists>fs. mapE arduino_key ks = Inr fs \<and> list_all (\<lambda>f. length f = 5) fs \<and> map field_code fs = map key_value ks"
proof (induction ks)
  case (Cons k ks)
  then obtain fs f where "mapE arduino_key ks = Inr fs" "list_all (\<lambda>f. length f = 5) fs" "map field_code fs = map key_value ks"
    "arduino_key k = Inr f" "length f = 5" "field_code f = key_value k"
    using arduino_key_field [of k] by auto
  then show ?case by (intro exI [of _ "f # fs"]) simp
qed simp

text \<open>
  A line of special keys for a physical machine: the Arduino reads from the message exactly the codes of the keys,
  in their order.
\<close>

theorem special_keys_roundtrip:
  assumes "ks \<noteq> []" and "list_all key_known ks" and "list_all (\<lambda>k. k \<noteq> [] \<and> list_all (\<lambda>c. \<not> is_space c) k) ks"
  shows "\<exists>p. parse_line KeypressGeneratorPhysical (''SPECIAL:'' @ join_with CHR '' '' ks) = Inr (Some (''KSP:'' @ p)) \<and>
    map field_code (key_fields p) = map key_value ks"
proof -
  obtain fs where fs: "mapE arduino_key ks = Inr fs" "list_all (\<lambda>f. length f = 5) fs" "map field_code fs = map key_value ks"
    using arduino_keys_fields [OF assms(2)] by blast
  have "parse_line KeypressGeneratorPhysical (print_command (Special ks)) = command_msg KeypressGeneratorPhysical (Special ks)"
    using assms by (intro parse_printed) simp
  then have "parse_line KeypressGeneratorPhysical (''SPECIAL:'' @ join_with CHR '' '' ks) = Inr (Some (''KSP:'' @ concat fs))"
    using joined_words [OF assms(3)] fs(1)
    by (simp add: KeypressGeneratorPhysical_def special_physical_def create_msg_def KEY_SP_CMD_def)
  then show ?thesis using key_fields_concat [OF fs(2)] fs(3) by auto
qed

text \<open>
  The generators do not know the same names: the control key that one of them knows makes the other raise or is left out.
\<close>

lemma control_key_names:
  "parse_line KeypressGeneratorPhysical ''SPECIAL:L_CTRL c'' = Inl TypeError"
  "parse_line KeypressGeneratorVirtual ''SPECIAL:LEFT_CTRL c'' = Inr (Some (KEY_SP_CMD, Codes [46]))"
  by code_simp+

text \<open>A line that is a number sign alone is no comment.\<close>

lemma lone_number_sign: "parse_line g ''#'' = Inl (PyException ''#'')"
  by (simp add: parse_line_def comment_pattern_def dots_def at_end_def cmd_pattern_def is_word_char_def is_digit_def
    isupper_def upper_char_def)

section \<open>Witnesses\<close>


theorem special_keys_roundtrip_witness:
  "\<exists>p. parse_line KeypressGeneratorPhysical (''SPECIAL:'' @ join_with CHR '' '' [''LEFT_GUI'', ''r'']) = Inr (Some (''KSP:'' @ p)) \<and>
    map field_code (key_fields p) = [131, 114]"
proof -
  have "map key_value [''LEFT_GUI'', ''r''] = [131, 114]" "list_all key_known [''LEFT_GUI'', ''r'']"
    "list_all (\<lambda>k. k \<noteq> [] \<and> list_all (\<lambda>c. \<not> is_space c) k) [''LEFT_GUI'', ''r'']" by code_simp+
  then show ?thesis using special_keys_roundtrip [of "[''LEFT_GUI'', ''r'']"] by (simp only: list.distinct simp_thms)
qed

end
