(* ===== verification/Control.thy ===== *)
theory Control
  imports PyText
begin

text \<open>
  The control sensor of a physical machine, \<^verbatim>\<open>sensors/control/physical.py\<close>: an Arduino that presses keys and power
  buttons, reached through a TCP connection that is opened again when a command fails.  The network, the device and
  the clock are an environment of arbitrary functions on an arbitrary state, so that pauses, answers and failures may
  come at any time; a loop that waits for the device is a partial function.
\<close>

section \<open>The environment and the sensor\<close>

text \<open>A new socket, or none; a connection, or an exception.\<close>

datatype conn_result = NoSocket | Refused | Connected

text \<open>\<^verbatim>\<open>recv\<close> gives \<open>None\<close> for an exception.\<close>

record 'd env =
  env_connect :: "'d \<Rightarrow> conn_result \<times> 'd"
  env_sendall :: "string \<Rightarrow> 'd \<Rightarrow> bool \<times> 'd"
  env_recv :: "'d \<Rightarrow> string option \<times> 'd"
  env_now :: "'d \<Rightarrow> int \<times> 'd"

text \<open>
  \<^verbatim>\<open>_sock\<close> is \<open>None\<close> or a socket that is connected or not.  The field \<open>wire\<close> notes what was sent completely.
\<close>

record 'd ctl =
  ctl_sock :: "bool option"
  world :: 'd
  wire :: "string list"

text \<open>What the methods return: \<^verbatim>\<open>None\<close>, a boolean or the text of the device.\<close>

datatype reply = RNone | RBool bool | RText string

fun truthy :: "reply \<Rightarrow> bool" where
  "truthy RNone = False"
| "truthy (RBool b) = b"
| "truthy (RText s) \<longleftrightarrow> s \<noteq> []"

definition END_MSG :: string where "END_MSG = [CHR 0x03]"
definition END_TRANSMISSION :: string where "END_TRANSMISSION = [CHR 0x04]"
definition RESPONSE_DONE :: string where "RESPONSE_DONE = ''DONE''"
definition ON_CMD :: string where "ON_CMD = ''ON ''"
definition OFF_CMD :: string where "OFF_CMD = ''OFF''"
definition SHUTDOWN_CMD :: string where "SHUTDOWN_CMD = ''SHU''"
definition MOUSE_CMD :: string where "MOUSE_CMD = ''MOU''"
definition MOUSE_WIGGLE :: string where "MOUSE_WIGGLE = ''WGL''"
definition STATUS_CMD :: string where "STATUS_CMD = ''STA''"
definition RESTART_CMD :: string where "RESTART_CMD = ''DIE''"
definition POWER_ON :: string where "POWER_ON = ''ON''"
definition POWER_OFF :: string where "POWER_OFF = ''OFF''"
definition RETRIES :: nat where "RETRIES = 3"

lemmas control_consts = END_MSG_def END_TRANSMISSION_def RESPONSE_DONE_def ON_CMD_def OFF_CMD_def SHUTDOWN_CMD_def
  MOUSE_CMD_def MOUSE_WIGGLE_def STATUS_CMD_def RESTART_CMD_def POWER_ON_def POWER_OFF_def

section \<open>The connection\<close>

text \<open>
  \<^verbatim>\<open>_connect\<close>: a socket whose connection was refused stays in \<^verbatim>\<open>_sock\<close>, so that the next call takes it for a
  connection.
\<close>

definition connect :: "('d, 'z) env_scheme \<Rightarrow> ('d, 'a) ctl_scheme \<Rightarrow> bool \<times> ('d, 'a) ctl_scheme" where
  "connect e s =
     (case ctl_sock s of
        Some c \<Rightarrow> (True, s)
      | None \<Rightarrow>
          (case env_connect e (world s) of
             (NoSocket, d) \<Rightarrow> (False, s\<lparr>world := d\<rparr>)
           | (Refused, d) \<Rightarrow> (False, s\<lparr>world := d, ctl_sock := Some False\<rparr>)
           | (Connected, d) \<Rightarrow> (True, s\<lparr>world := d, ctl_sock := Some True\<rparr>)))"

definition sendall :: "('d, 'z) env_scheme \<Rightarrow> string \<Rightarrow> ('d, 'a) ctl_scheme \<Rightarrow> bool \<times> ('d, 'a) ctl_scheme" where
  "sendall e data s =
     (if ctl_sock s = Some True then
        (case env_sendall e data (world s) of
           (ok, d) \<Rightarrow> (ok, s\<lparr>world := d, wire := (if ok then wire s @ [data] else wire s)\<rparr>))
      else (False, s))"

definition disconnect :: "('d, 'z) env_scheme \<Rightarrow> ('d, 'a) ctl_scheme \<Rightarrow> ('d, 'a) ctl_scheme" where
  "disconnect e s = (snd (sendall e END_TRANSMISSION s))\<lparr>ctl_sock := None\<rparr>"

definition read_response :: "('d, 'z) env_scheme \<Rightarrow> ('d, 'a) ctl_scheme \<Rightarrow> string option \<times> ('d, 'a) ctl_scheme" where
  "read_response e s =
     (if ctl_sock s = Some True then
        (case env_recv e (world s) of
           (r, d) \<Rightarrow> (if r = Some [] then None else map_option (take 1024) r, s\<lparr>world := d\<rparr>))
      else (None, s))"

text \<open>One attempt of \<^verbatim>\<open>_send_comand\<close>: \<open>None\<close> if it failed and the connection is to be closed.\<close>

definition attempt :: "('d, 'z) env_scheme \<Rightarrow> string \<Rightarrow> ('d, 'a) ctl_scheme \<Rightarrow> string option \<times> ('d, 'a) ctl_scheme" where
  "attempt e msg s =
     (case sendall e msg s of
        (False, s1) \<Rightarrow> (None, s1)
      | (True, s1) \<Rightarrow>
          (case sendall e END_MSG s1 of
             (False, s2) \<Rightarrow> (None, s2)
           | (True, s2) \<Rightarrow> read_response e s2))"

fun send_attempts :: "('d, 'z) env_scheme \<Rightarrow> string \<Rightarrow> nat \<Rightarrow> ('d, 'a) ctl_scheme \<Rightarrow> reply \<times> ('d, 'a) ctl_scheme" where
  "send_attempts e msg 0 s = (RBool False, s)"
| "send_attempts e msg (Suc n) s =
     (case connect e s of
        (False, s1) \<Rightarrow> (RBool False, s1)
      | (True, s1) \<Rightarrow>
          (case attempt e msg s1 of
             (None, s2) \<Rightarrow> send_attempts e msg n (disconnect e s2)
           | (Some r, s2) \<Rightarrow> (if r = RESPONSE_DONE then RBool True else RText r, s2)))"

definition send_comand :: "('d, 'z) env_scheme \<Rightarrow> string \<Rightarrow> ('d, 'a) ctl_scheme \<Rightarrow> reply \<times> ('d, 'a) ctl_scheme" where
  "send_comand e msg = send_attempts e msg RETRIES"

text \<open>The guard of the public methods.\<close>

definition when_connected ::
  "('d, 'z) env_scheme \<Rightarrow> (('d, 'a) ctl_scheme \<Rightarrow> reply \<times> ('d, 'a) ctl_scheme) \<Rightarrow> ('d, 'a) ctl_scheme \<Rightarrow> reply \<times> ('d, 'a) ctl_scheme" where
  "when_connected e body s = (case connect e s of (False, s1) \<Rightarrow> (RBool False, s1) | (True, s1) \<Rightarrow> body s1)"

section \<open>Commands\<close>

definition sensor_reset :: "('d, 'z) env_scheme \<Rightarrow> ('d, 'a) ctl_scheme \<Rightarrow> reply \<times> ('d, 'a) ctl_scheme" where
  "sensor_reset e = send_comand e RESTART_CMD"

text \<open>\<^verbatim>\<open>"%5s" % x\<close>.\<close>

definition pad5 :: "int \<Rightarrow> string" where
  "pad5 x = replicate (5 - length (int_str x)) CHR '' '' @ int_str x"

definition mouse_click :: "('d, 'z) env_scheme \<Rightarrow> int \<Rightarrow> int \<Rightarrow> ('d, 'a) ctl_scheme \<Rightarrow> reply \<times> ('d, 'a) ctl_scheme" where
  "mouse_click e x y = when_connected e (send_comand e (MOUSE_CMD @ '':'' @ pad5 x @ pad5 y))"

definition mouse_wiggle :: "('d, 'z) env_scheme \<Rightarrow> bool \<Rightarrow> ('d, 'a) ctl_scheme \<Rightarrow> reply \<times> ('d, 'a) ctl_scheme" where
  "mouse_wiggle e enabled = send_comand e (MOUSE_WIGGLE @ '':'' @ (if enabled then ''1'' else ''0''))"

text \<open>\<^verbatim>\<open>keypress_send\<close> ignores whether a message got through.\<close>

definition keypress_send :: "('d, 'z) env_scheme \<Rightarrow> string list \<Rightarrow> ('d, 'a) ctl_scheme \<Rightarrow> reply \<times> ('d, 'a) ctl_scheme" where
  "keypress_send e keypresses =
     when_connected e (\<lambda>s. (RNone, fold (\<lambda>msg s. snd (send_comand e msg s)) keypresses s))"

definition power_status :: "('d, 'z) env_scheme \<Rightarrow> ('d, 'a) ctl_scheme \<Rightarrow> reply \<times> ('d, 'a) ctl_scheme" where
  "power_status e = when_connected e (send_comand e STATUS_CMD)"

definition power_to ::
  "('d, 'z) env_scheme \<Rightarrow> string \<Rightarrow> string \<Rightarrow> ('d, 'a) ctl_scheme \<Rightarrow> reply \<times> ('d, 'a) ctl_scheme" where
  "power_to e status cmd =
     when_connected e (\<lambda>s.
       case power_status e s of (r, s1) \<Rightarrow> if r \<noteq> RText status then send_comand e cmd s1 else (RBool True, s1))"

definition power_on :: "('d, 'z) env_scheme \<Rightarrow> ('d, 'a) ctl_scheme \<Rightarrow> reply \<times> ('d, 'a) ctl_scheme" where
  "power_on e = power_to e POWER_ON ON_CMD"

definition power_off :: "('d, 'z) env_scheme \<Rightarrow> ('d, 'a) ctl_scheme \<Rightarrow> reply \<times> ('d, 'a) ctl_scheme" where
  "power_off e = power_to e POWER_OFF OFF_CMD"

definition power_shutdown :: "('d, 'z) env_scheme \<Rightarrow> ('d, 'a) ctl_scheme \<Rightarrow> reply \<times> ('d, 'a) ctl_scheme" where
  "power_shutdown e = when_connected e (send_comand e SHUTDOWN_CMD)"

section \<open>Waiting for the device\<close>

text \<open>\<^verbatim>\<open>while self.power_status() != status: time.sleep(.5)\<close>.\<close>

partial_function (option) wait_status ::
  "('d, 'z) env_scheme \<Rightarrow> string \<Rightarrow> ('d, 'a) ctl_scheme \<Rightarrow> ('d, 'a) ctl_scheme option" where
  [code]: "wait_status e status s =
     (case power_status e s of (r, s1) \<Rightarrow> if r = RText status then Some s1 else wait_status e status s1)"

definition power_reset :: "('d, 'z) env_scheme \<Rightarrow> ('d, 'a) ctl_scheme \<Rightarrow> (reply \<times> ('d, 'a) ctl_scheme) option" where
  "power_reset e s =
     (case power_status e s of (r, s1) \<Rightarrow>
        let s2 = (if r \<noteq> RText POWER_OFF then snd (power_off e s1) else s1) in
        (case wait_status e POWER_OFF s2 of
           None \<Rightarrow> None
         | Some s3 \<Rightarrow>
             (case wait_status e POWER_ON (snd (power_on e s3)) of
                None \<Rightarrow> None
              | Some s4 \<Rightarrow> Some (RBool True, s4))))"

definition read_clock :: "('d, 'z) env_scheme \<Rightarrow> ('d, 'a) ctl_scheme \<Rightarrow> int \<times> ('d, 'a) ctl_scheme" where
  "read_clock e s = (case env_now e (world s) of (t, d) \<Rightarrow> (t, s\<lparr>world := d\<rparr>))"

text \<open>The loop of \<^verbatim>\<open>power_reboot\<close>, which cuts the power when the operating system takes too long.\<close>

partial_function (option) reboot_loop ::
  "('d, 'z) env_scheme \<Rightarrow> int \<Rightarrow> ('d, 'a) ctl_scheme \<Rightarrow> ('d, 'a) ctl_scheme option" where
  [code]: "reboot_loop e start s =
     (case power_status e s of (r, s1) \<Rightarrow>
        if r = RText POWER_OFF then Some s1
        else (case read_clock e s1 of (now, s2) \<Rightarrow>
          reboot_loop e start (if now - start > 60 then snd (power_off e s2) else s2)))"

definition power_reboot :: "('d, 'z) env_scheme \<Rightarrow> ('d, 'a) ctl_scheme \<Rightarrow> (reply \<times> ('d, 'a) ctl_scheme) option" where
  "power_reboot e s =
     (case read_clock e s of (start, s0) \<Rightarrow>
      case power_status e s0 of (r, s1) \<Rightarrow>
        let s2 = (if r \<noteq> RText POWER_OFF then snd (power_shutdown e s1) else s1) in
        (case reboot_loop e start s2 of
           None \<Rightarrow> None
         | Some s3 \<Rightarrow> Some (RNone, snd (power_on e s3))))"

end
