(* ===== verification/Machine.thy ===== *)
theory Machine
  imports Control NetServices
begin

text \<open>
  Physical machines, \<^verbatim>\<open>machine/__init__.py\<close> and \<^verbatim>\<open>machine/physical.py\<close>: power control through the control sensor, and
  the restoring of the disk, for which the machine is permitted to boot from the network once.  The requests to the
  boot services change the dictionaries of the access-control server.
\<close>

section \<open>State\<close>

text \<open>Whether a request reaches the boot services is part of the environment.\<close>

record 'd menv = "'d env" +
  env_pxe :: "'d \<Rightarrow> bool \<times> 'd"

record 'd pmachine = "'d ctl" +
  has_control :: bool
  has_pxe :: bool
  mac_address :: "string option"
  volatility_profile :: string
  images_map :: "(string \<rightharpoonup> string) option"
  tables :: "shared"

type_synonym 'd maction = "'d pmachine \<Rightarrow> (reply \<times> 'd pmachine) option"

section \<open>Power\<close>

definition m_power_status :: "'d menv \<Rightarrow> 'd pmachine \<Rightarrow> reply \<times> 'd pmachine" where
  "m_power_status e s = (if \<not> has_control s then (RNone, s) else power_status e s)"

text \<open>\<^verbatim>\<open>while rtn and self.power_status() != ON: pass\<close>.\<close>

partial_function (option) on_loop :: "'d menv \<Rightarrow> reply \<Rightarrow> 'd pmachine \<Rightarrow> (reply \<times> 'd pmachine) option" where
  [code]: "on_loop e rtn s =
     (if \<not> truthy rtn then Some (rtn, s)
      else (case m_power_status e s of (r, s1) \<Rightarrow>
        if r = RText POWER_ON then Some (rtn, s1) else on_loop e rtn s1))"

definition m_power_on :: "'d menv \<Rightarrow> 'd maction" where
  "m_power_on e s =
     (if \<not> has_control s then Some (RNone, s)
      else (case m_power_status e s of (r, s1) \<Rightarrow>
        if r \<noteq> RText POWER_ON
        then (case power_on e s1 of (rtn, s2) \<Rightarrow> on_loop e rtn s2)
        else Some (RBool True, s1)))"

text \<open>The loop of \<^verbatim>\<open>power_off\<close>, which tries again after ten seconds, and then in every turn.\<close>

partial_function (option) off_loop :: "'d menv \<Rightarrow> int \<Rightarrow> reply \<Rightarrow> 'd pmachine \<Rightarrow> (reply \<times> 'd pmachine) option" where
  [code]: "off_loop e start rtn s =
     (if \<not> truthy rtn then Some (rtn, s)
      else (case m_power_status e s of (r, s1) \<Rightarrow>
        if r = RText POWER_OFF then Some (rtn, s1)
        else (case read_clock e s1 of (now, s2) \<Rightarrow>
          if now - start > 10 then (case power_off e s2 of (rtn1, s3) \<Rightarrow> off_loop e start rtn1 s3)
          else off_loop e start rtn s2)))"

definition m_power_off :: "'d menv \<Rightarrow> 'd maction" where
  "m_power_off e s =
     (if \<not> has_control s then Some (RNone, s)
      else (case m_power_status e s of (r, s1) \<Rightarrow>
        if r = RText POWER_ON
        then (case power_off e s1 of (rtn, s2) \<Rightarrow>
              case read_clock e s2 of (start, s3) \<Rightarrow> off_loop e start rtn s3)
        else Some (RBool True, s1)))"

definition m_power_shutdown :: "'d menv \<Rightarrow> 'd pmachine \<Rightarrow> reply \<times> 'd pmachine" where
  "m_power_shutdown e s = (if \<not> has_control s then (RNone, s) else power_shutdown e s)"

definition m_power_reset :: "'d menv \<Rightarrow> 'd maction" where
  "m_power_reset e s = (if \<not> has_control s then Some (RNone, s) else power_reset e s)"

definition m_power_reboot :: "'d menv \<Rightarrow> 'd maction" where
  "m_power_reboot e s = (if \<not> has_control s then Some (RNone, s) else power_reboot e s)"

definition m_keypress_send :: "'d menv \<Rightarrow> string list \<Rightarrow> 'd pmachine \<Rightarrow> reply \<times> 'd pmachine" where
  "m_keypress_send e keypresses s = (if \<not> has_control s then (RNone, s) else (RNone, snd (keypress_send e keypresses s)))"

text \<open>\<^verbatim>\<open>mouse_click\<close> of the machine passes itself as a further argument to the sensor.\<close>

definition m_mouse_click :: "'d pmachine \<Rightarrow> reply res" where
  "m_mouse_click s = (if \<not> has_control s then Inr RNone else Inl TypeError)"

section \<open>Boot services\<close>

definition pxe_request :: "'d menv \<Rightarrow> string \<Rightarrow> 'd pmachine \<Rightarrow> (bool \<times> string option) \<times> 'd pmachine" where
  "pxe_request e msg s =
     (case env_pxe e (world s) of
        (False, d) \<Rightarrow> ((False, None), s\<lparr>world := d\<rparr>)
      | (True, d) \<Rightarrow> (case acl_serve msg (tables s) of (resp, t) \<Rightarrow> ((True, resp), s\<lparr>world := d, tables := t\<rparr>)))"

text \<open>\<^verbatim>\<open>PXEServer.set_pxe_conf\<close> returns \<^verbatim>\<open>True\<close> whether its request got through or not.\<close>

definition set_volatility_profile :: "'d menv \<Rightarrow> string \<Rightarrow> 'd pmachine \<Rightarrow> bool res \<times> 'd pmachine" where
  "set_volatility_profile e profile_name s =
     (let s1 = s\<lparr>volatility_profile := profile_name\<rparr> in
      case mac_address s1 of
        None \<Rightarrow> (Inr False, s1)
      | Some mac \<Rightarrow>
          if \<not> has_pxe s1 then (Inr False, s1)
          else (case images_map s1 of
             None \<Rightarrow> (Inl TypeError, s1)
           | Some m \<Rightarrow>
               (case m (lower profile_name) of
                  None \<Rightarrow> (Inr False, s1)
                | Some pxe_config_file \<Rightarrow> (Inr True, snd (pxe_request e (set_pxe_conf mac pxe_config_file) s1)))))"

definition add_pxe_server :: "'d menv \<Rightarrow> 'd pmachine \<Rightarrow> bool res \<times> 'd pmachine" where
  "add_pxe_server e s =
     (case set_volatility_profile e (volatility_profile s) (s\<lparr>has_pxe := True\<rparr>) of
        (Inl x, s1) \<Rightarrow> (Inl x, s1)
      | (Inr b, s1) \<Rightarrow> (Inr True, s1))"

definition add_image_map :: "(string \<rightharpoonup> string) \<Rightarrow> 'd pmachine \<Rightarrow> 'd pmachine" where
  "add_image_map m s = s\<lparr>images_map := Some m\<rparr>"

definition network_get_ip :: "'d menv \<Rightarrow> 'd pmachine \<Rightarrow> string option \<times> 'd pmachine" where
  "network_get_ip e s =
     (case mac_address s of
        None \<Rightarrow> (None, s)
      | Some mac \<Rightarrow>
          if \<not> has_pxe s then (None, s)
          else (case pxe_request e (get_ip mac) s of ((ok, resp), s1) \<Rightarrow> (get_ip_answer resp, s1)))"

section \<open>Restoring the disk\<close>

definition DISK_REVERT_TIMEOUT :: int where "DISK_REVERT_TIMEOUT = 10 * 60"

text \<open>The loop that waits until the machine has been off four times in a row.\<close>

partial_function (option) revert_loop ::
  "'d menv \<Rightarrow> int \<Rightarrow> nat \<Rightarrow> 'd pmachine \<Rightarrow> (reply \<times> 'd pmachine) option" where
  [code]: "revert_loop e start offs s =
     (case m_power_status e s of (status, s1) \<Rightarrow>
        let offs1 = (if status = RText POWER_OFF then offs + 1 else 0) in
        if offs1 > 3 then Some (RBool True, s1)
        else (case read_clock e s1 of (now, s2) \<Rightarrow>
          if now - start > DISK_REVERT_TIMEOUT then Some (RBool False, s2)
          else revert_loop e start offs1 s2))"

definition disk_revert :: "'d menv \<Rightarrow> 'd maction" where
  "disk_revert e s =
     (case mac_address s of
        None \<Rightarrow> Some (RBool False, s)
      | Some mac \<Rightarrow>
          if \<not> has_pxe s then Some (RBool False, s)
          else if \<not> has_control s then Some (RBool False, s)
          else (case m_power_off e s of
             None \<Rightarrow> None
           | Some (_, s1) \<Rightarrow>
               (case m_power_on e (snd (pxe_request e (add_mac mac) s1)) of
                  None \<Rightarrow> None
                | Some (_, s2) \<Rightarrow> (case read_clock e s2 of (start, s3) \<Rightarrow> revert_loop e start 0 s3))))"

definition machine_reset :: "'d menv \<Rightarrow> 'd maction" where
  "machine_reset e s = (if \<not> has_pxe s then Some (RBool False, s) else disk_revert e s)"

end
