(* ===== verification/ControlProperties.thy ===== *)
theory ControlProperties
  imports Machine
begin

text \<open>
  Commands to the control sensor and the loops around them: what goes over the wire, when a wait for the device ends,
  what a returned success says about the machine, and how restoring a disk permits the machine to boot its image.
\<close>

section \<open>What a command leaves alone\<close>

named_theorems frame \<open>the fields that an operation of the control sensor does not change\<close>

lemma connect_more [simp, frame]: "ctl.more (snd (connect e s)) = ctl.more s"
  by (auto simp: connect_def split: option.split prod.split conn_result.split)

lemma sendall_more [simp, frame]: "ctl.more (snd (sendall e data s)) = ctl.more s"
  by (auto simp: sendall_def split: prod.split)

lemma disconnect_more [simp, frame]: "ctl.more (disconnect e s) = ctl.more s"
  by (simp add: disconnect_def)

lemma read_response_more [simp, frame]: "ctl.more (snd (read_response e s)) = ctl.more s"
  by (auto simp: read_response_def split: prod.split)

lemma read_clock_more [simp, frame]: "ctl.more (snd (read_clock e s)) = ctl.more s"
  by (auto simp: read_clock_def split: prod.split)

text \<open>The second component of a result, so that a case distinction on a result can use the facts above.\<close>

lemma snd_eqD: "p = (a, b) \<Longrightarrow> b = snd p"
  by simp

lemma attempt_more [simp, frame]: "ctl.more (snd (attempt e msg s)) = ctl.more s"
  by (auto simp: attempt_def dest!: snd_eqD split: prod.split bool.split)

lemma send_attempts_more [simp, frame]: "ctl.more (snd (send_attempts e msg n s)) = ctl.more s"
  by (induction n arbitrary: s) (auto dest!: snd_eqD split: prod.split bool.split option.split)

lemma send_comand_more [simp, frame]: "ctl.more (snd (send_comand e msg s)) = ctl.more s"
  by (simp add: send_comand_def)

lemma when_connected_more:
  "(\<And>s. ctl.more (snd (body s)) = ctl.more s) \<Longrightarrow> ctl.more (snd (when_connected e body s)) = ctl.more s"
  by (auto simp: when_connected_def dest!: snd_eqD split: prod.split bool.split)

lemma power_status_more [simp, frame]: "ctl.more (snd (power_status e s)) = ctl.more s"
  by (simp add: power_status_def when_connected_more)

lemma power_to_more [simp, frame]: "ctl.more (snd (power_to e status cmd s)) = ctl.more s"
  unfolding power_to_def by (rule when_connected_more) (auto dest!: snd_eqD split: prod.split)

lemma power_on_off_more [simp, frame]:
  "ctl.more (snd (power_on e s)) = ctl.more s" "ctl.more (snd (power_off e s)) = ctl.more s"
  by (simp_all add: power_on_def power_off_def)

section \<open>Commands on the wire\<close>

lemma connect_wire [simp]: "wire (snd (connect e s)) = wire s"
  by (auto simp: connect_def split: option.split prod.split conn_result.split)

lemma sendall_wire: "sendall e data s = (ok, s') \<Longrightarrow> wire s' = wire s @ (if ok then [data] else [])"
  by (auto simp: sendall_def split: if_splits prod.splits)

lemma disconnect_wire: "\<exists>t. wire (disconnect e s) = wire s @ t \<and> set t \<subseteq> {END_TRANSMISSION}"
  using sendall_wire [of e END_TRANSMISSION s "fst (sendall e END_TRANSMISSION s)" "snd (sendall e END_TRANSMISSION s)"]
  by (auto simp: disconnect_def)

lemma read_response_wire [simp]: "wire (snd (read_response e s)) = wire s"
  by (auto simp: read_response_def split: prod.split)

lemma attempt_wire:
  assumes "attempt e msg s = (r, s')"
  shows "\<exists>t. wire s' = wire s @ t \<and> t \<in> {[], [msg], [msg, END_MSG]} \<and> (r \<noteq> None \<longrightarrow> t = [msg, END_MSG])"
proof -
  obtain ok1 s1 where 1: "sendall e msg s = (ok1, s1)" by fastforce
  obtain ok2 s2 where 2: "sendall e END_MSG s1 = (ok2, s2)" by fastforce
  obtain r3 s3 where 3: "read_response e s2 = (r3, s3)" by fastforce
  have "wire s3 = wire s2" using read_response_wire [of e s2] 3 by simp
  then show ?thesis using assms 1 2 3 sendall_wire [OF 1] sendall_wire [OF 2]
    by (auto simp: attempt_def split: if_splits bool.splits)
qed

lemma send_attempts_wire:
  assumes "send_attempts e msg n s = (r, s')"
  shows "\<exists>t. wire s' = wire s @ t \<and> set t \<subseteq> {msg, END_MSG, END_TRANSMISSION} \<and>
    (msg \<noteq> END_TRANSMISSION \<and> msg \<noteq> END_MSG \<longrightarrow> count_list t msg \<le> n) \<and>
    (r \<noteq> RBool False \<longrightarrow> (\<exists>p. t = p @ [msg, END_MSG]))"
  using assms
proof (induction n arbitrary: s)
  case (Suc n)
  obtain ok s1 where c: "connect e s = (ok, s1)" by fastforce
  then have w1: "wire s1 = wire s" using connect_wire [of e s] by simp
  obtain r2 s2 where a: "attempt e msg s1 = (r2, s2)" by fastforce
  obtain t2 where t2: "wire s2 = wire s1 @ t2" "t2 \<in> {[], [msg], [msg, END_MSG]}" "r2 \<noteq> None \<longrightarrow> t2 = [msg, END_MSG]"
    using attempt_wire [OF a] by blast
  consider "\<not> ok" | "ok" "r2 = None" | x where "ok" "r2 = Some x" by (cases ok; cases r2) auto
  then show ?case
  proof cases
    case 1
    then show ?thesis using Suc.prems c w1 by auto
  next
    case 2
    then have rest: "send_attempts e msg n (disconnect e s2) = (r, s')" using Suc.prems c a by simp
    obtain t3 where t3: "wire (disconnect e s2) = wire s2 @ t3" "set t3 \<subseteq> {END_TRANSMISSION}"
      using disconnect_wire by blast
    obtain t4 where t4: "wire s' = wire (disconnect e s2) @ t4" "set t4 \<subseteq> {msg, END_MSG, END_TRANSMISSION}"
      "msg \<noteq> END_TRANSMISSION \<and> msg \<noteq> END_MSG \<longrightarrow> count_list t4 msg \<le> n" "r \<noteq> RBool False \<longrightarrow> (\<exists>p. t4 = p @ [msg, END_MSG])"
      using Suc.IH [OF rest] by blast
    have "msg \<noteq> END_TRANSMISSION \<Longrightarrow> count_list t3 msg = 0" using t3(2) by (auto simp: count_list_0_iff)
    moreover have "msg \<noteq> END_MSG \<Longrightarrow> count_list t2 msg \<le> 1" using t2(2) by auto
    ultimately have "msg \<noteq> END_TRANSMISSION \<and> msg \<noteq> END_MSG \<longrightarrow> count_list (t2 @ t3 @ t4) msg \<le> Suc n"
      using t4(3) by force
    moreover have "r \<noteq> RBool False \<longrightarrow> (\<exists>p. t2 @ t3 @ t4 = p @ [msg, END_MSG])" using t4(4) by (metis append.assoc)
    moreover have "set (t2 @ t3 @ t4) \<subseteq> {msg, END_MSG, END_TRANSMISSION}" using t2(2) t3(2) t4(2) by auto
    moreover have "wire s' = wire s @ t2 @ t3 @ t4" using w1 t2(1) t3(1) t4(1) by simp
    ultimately show ?thesis by blast
  next
    case 3
    then show ?thesis using Suc.prems c a t2 w1 by (intro exI [of _ t2]) auto
  qed
qed auto

text \<open>
  A command is sent at most three times, nothing but the command and the end marks goes over the wire, and if the
  sensor returned anything but failure, the last that was sent is the command with its end mark.
\<close>

theorem command_on_wire:
  assumes "send_comand e msg s = (r, s')" and "msg \<notin> {END_MSG, END_TRANSMISSION}"
  shows "\<exists>t. wire s' = wire s @ t \<and> set t \<subseteq> {msg, END_MSG, END_TRANSMISSION} \<and> count_list t msg \<le> 3 \<and>
    (r \<noteq> RBool False \<longrightarrow> (\<exists>p. t = p @ [msg, END_MSG]))"
  using send_attempts_wire [OF assms(1) [unfolded send_comand_def]] assms(2) by (auto simp: RETRIES_def)

section \<open>Waiting\<close>

fun after_polls :: "('d, 'z) env_scheme \<Rightarrow> nat \<Rightarrow> ('d, 'a) ctl_scheme \<Rightarrow> ('d, 'a) ctl_scheme" where
  "after_polls e 0 s = s"
| "after_polls e (Suc n) s = after_polls e n (snd (power_status e s))"

lemma wait_status_answered:
  fixes e :: "('d, 'z) env_scheme" and s :: "('d, 'a) ctl_scheme"
  assumes "wait_status e st s = Some t"
  shows "\<exists>n. fst (power_status e (after_polls e n s)) = RText st"
proof (rule wait_status.raw_induct [where P = "\<lambda>e st s t. \<exists>n. fst (power_status e (after_polls e n s)) = RText st", OF _ assms])
  fix wait and e :: "('d, 'z) env_scheme" and st and s t :: "('d, 'a) ctl_scheme"
  assume IH: "\<And>e st (s :: ('d, 'a) ctl_scheme) t. wait e st s = Some t \<Longrightarrow> \<exists>n. fst (power_status e (after_polls e n s)) = RText st"
    and body: "(case power_status e s of (r, s1) \<Rightarrow> if r = RText st then Some s1 else wait e st s1) = Some t"
  obtain r s1 where p: "power_status e s = (r, s1)" by fastforce
  show "\<exists>n. fst (power_status e (after_polls e n s)) = RText st"
  proof (cases "r = RText st")
    case True
    then show ?thesis using p by (intro exI [of _ 0]) simp
  next
    case False
    then have "wait e st s1 = Some t" using body p by simp
    then obtain n where "fst (power_status e (after_polls e n s1)) = RText st" using IH by blast
    then show ?thesis using p by (intro exI [of _ "Suc n"]) simp
  qed
qed

lemma wait_status_returns: "fst (power_status e (after_polls e n s)) = RText st \<Longrightarrow> \<exists>t. wait_status e st s = Some t"
proof (induction n arbitrary: s)
  case 0
  then show ?case by (subst wait_status.simps) (auto split: prod.split)
next
  case (Suc n)
  then have "\<exists>t. wait_status e st (snd (power_status e s)) = Some t" by simp
  then show ?case by (subst wait_status.simps) (auto split: prod.split)
qed

text \<open>The wait for a power status ends exactly if one of the answers of the device is this status.\<close>

theorem wait_ends_iff_answered:
  "(\<exists>t. wait_status e st s = Some t) \<longleftrightarrow> (\<exists>n. fst (power_status e (after_polls e n s)) = RText st)"
  using wait_status_answered wait_status_returns by blast

section \<open>A sensor that cannot be reached\<close>

definition unreachable :: "('d, 'z) env_scheme \<Rightarrow> bool" where
  "unreachable e \<longleftrightarrow> (\<forall>d. fst (env_connect e d) \<noteq> Connected)"

lemma connect_unreachable:
  "unreachable e \<Longrightarrow> ctl_sock s \<noteq> Some True \<Longrightarrow> connect e s = (b, s') \<Longrightarrow> ctl_sock s' \<noteq> Some True \<and> wire s' = wire s"
  by (auto simp: connect_def unreachable_def dest: spec [of _ "world s"] split: option.splits prod.splits conn_result.splits)

lemma send_unreachable:
  "unreachable e \<Longrightarrow> ctl_sock s \<noteq> Some True \<Longrightarrow>
   \<exists>s'. send_attempts e msg n s = (RBool False, s') \<and> ctl_sock s' \<noteq> Some True \<and> wire s' = wire s"
proof (induction n arbitrary: s)
  case (Suc n)
  obtain b s1 where c: "connect e s = (b, s1)" by fastforce
  then have s1: "ctl_sock s1 \<noteq> Some True" "wire s1 = wire s" using connect_unreachable [OF Suc.prems] by auto
  then have a: "attempt e msg s1 = (None, s1)" by (simp add: attempt_def sendall_def)
  have "ctl_sock (disconnect e s1) \<noteq> Some True" "wire (disconnect e s1) = wire s" using s1 by (simp_all add: disconnect_def sendall_def)
  with Suc.IH Suc.prems(1) obtain s' where "send_attempts e msg n (disconnect e s1) = (RBool False, s')" "ctl_sock s' \<noteq> Some True"
    "wire s' = wire s" by metis
  then show ?case using c a s1 by (cases b) auto
qed simp

lemma status_unreachable:
  assumes "unreachable e" and "ctl_sock s \<noteq> Some True"
  shows "\<exists>s'. power_status e s = (RBool False, s') \<and> ctl_sock s' \<noteq> Some True \<and> wire s' = wire s"
proof -
  obtain b s1 where c: "connect e s = (b, s1)" by fastforce
  then have s1: "ctl_sock s1 \<noteq> Some True" "wire s1 = wire s" using connect_unreachable [OF assms] by auto
  with send_unreachable [OF assms(1), of s1 STATUS_CMD RETRIES] show ?thesis
    using c by (cases b) (auto simp: power_status_def when_connected_def send_comand_def)
qed

lemma polls_unreachable:
  "unreachable e \<Longrightarrow> ctl_sock s \<noteq> Some True \<Longrightarrow> ctl_sock (after_polls e n s) \<noteq> Some True"
proof (induction n arbitrary: s)
  case (Suc n)
  then obtain s' where "power_status e s = (RBool False, s')" "ctl_sock s' \<noteq> Some True" using status_unreachable by blast
  then show ?case using Suc by simp
qed simp

lemma wait_unreachable:
  assumes "unreachable e" and "ctl_sock s \<noteq> Some True"
  shows "wait_status e st s = None"
proof -
  have "fst (power_status e (after_polls e n s)) \<noteq> RText st" for n
    using status_unreachable [OF assms(1) polls_unreachable [OF assms], of n] by auto
  then have "\<nexists>t. wait_status e st s = Some t" using wait_status_answered by blast
  then show ?thesis by simp
qed

lemma power_off_unreachable:
  assumes "unreachable e" and "ctl_sock s \<noteq> Some True"
  shows "ctl_sock (snd (power_off e s)) \<noteq> Some True"
proof -
  obtain b s1 where c: "connect e s = (b, s1)" by fastforce
  then have s1: "ctl_sock s1 \<noteq> Some True" using connect_unreachable [OF assms] by auto
  obtain s2 where "power_status e s1 = (RBool False, s2)" "ctl_sock s2 \<noteq> Some True"
    using status_unreachable [OF assms(1) s1] by blast
  moreover obtain s3 where "send_comand e OFF_CMD s2 = (RBool False, s3)" "ctl_sock s3 \<noteq> Some True"
    using send_unreachable [OF assms(1) calculation(2), of OFF_CMD RETRIES] by (auto simp: send_comand_def)
  ultimately show ?thesis using c s1 by (cases b) (auto simp: power_off_def power_to_def when_connected_def)
qed

text \<open>
  With a sensor that cannot be reached, the machine reports that it is powered off, without a byte sent, and a
  reset never returns.
\<close>

theorem unreachable_machine_powered_off:
  assumes "unreachable e" and "ctl_sock s \<noteq> Some True" and "has_control s"
  shows "(\<exists>s'. m_power_off e s = Some (RBool True, s') \<and> wire s' = wire s) \<and> m_power_reset e s = None"
proof -
  obtain s1 where s1: "power_status e s = (RBool False, s1)" "ctl_sock s1 \<noteq> Some True" "wire s1 = wire s"
    using status_unreachable [OF assms(1,2)] by blast
  have "wait_status e POWER_OFF (snd (power_off e s1)) = None"
    using wait_unreachable [OF assms(1) power_off_unreachable [OF assms(1) s1(2)]] .
  then have "power_reset e s = None" using s1(1) by (simp add: power_reset_def)
  then show ?thesis using assms(3) s1 by (simp add: m_power_off_def m_power_status_def m_power_reset_def)
qed

section \<open>Witnesses\<close>

definition dead_env :: "unit menv" where
  "dead_env = \<lparr>env_connect = (\<lambda>d. (Refused, d)), env_sendall = (\<lambda>m d. (False, d)), env_recv = (\<lambda>d. (None, d)),
     env_now = (\<lambda>d. (0, d)), env_pxe = (\<lambda>d. (False, d))\<rparr>"

definition dead_machine :: "unit pmachine" where
  "dead_machine = \<lparr>ctl_sock = None, world = (), wire = [], has_control = True, has_pxe = False, mac_address = None,
     volatility_profile = [], images_map = None, tables = \<lparr>shared_acl = Map.empty, shared_map = [], shared_conf = Map.empty\<rparr>\<rparr>"

theorem unreachable_machine_powered_off_witness:
  "(\<exists>s'. m_power_off dead_env dead_machine = Some (RBool True, s') \<and> wire s' = []) \<and> m_power_reset dead_env dead_machine = None"
  using unreachable_machine_powered_off [of dead_env dead_machine]
  by (simp add: unreachable_def dead_env_def dead_machine_def)

text \<open>A device that answers the third attempt.\<close>

definition slow_env :: "nat env" where
  "slow_env = \<lparr>env_connect = (\<lambda>d. (Connected, d)), env_sendall = (\<lambda>m d. (True, d)),
     env_recv = (\<lambda>d. (if d = 2 then Some RESPONSE_DONE else None, d + 1)), env_now = (\<lambda>d. (0, d))\<rparr>"

theorem command_on_wire_witness:
  "\<exists>t. wire (snd (send_comand slow_env ''ON '' \<lparr>ctl_sock = None, world = 0, wire = []\<rparr>)) = t \<and> count_list t ''ON '' \<le> 3 \<and>
    (\<exists>p. t = p @ [''ON '', END_MSG])"
proof -
  have "fst (send_comand slow_env ''ON '' \<lparr>ctl_sock = None, world = 0, wire = []\<rparr>) = RBool True"
    by (simp add: send_comand_def RETRIES_def numeral_3_eq_3 connect_def attempt_def sendall_def read_response_def
      disconnect_def slow_env_def RESPONSE_DONE_def)
  then show ?thesis
    using command_on_wire [of slow_env "''ON ''" "\<lparr>ctl_sock = None, world = 0, wire = []\<rparr>", OF prod.collapse [symmetric]]
    by (auto simp: END_MSG_def END_TRANSMISSION_def)
qed

end
