(* ===== verification/MachineProperties.thy ===== *)
theory MachineProperties
  imports ControlProperties
begin

text \<open>
  Restoring the disk of a physical machine: how long it waits and what its success says, when it reports a success
  that did not happen, and that it permits the machine to boot the image of its profile.
\<close>

section \<open>Turns of the waiting loop\<close>

definition revert_turn :: "'d menv \<Rightarrow> 'd pmachine \<Rightarrow> reply \<times> int \<times> 'd pmachine" where
  "revert_turn e s = (case m_power_status e s of (r, s1) \<Rightarrow> case read_clock e s1 of (now, s2) \<Rightarrow> (r, now, s2))"

fun after_turns :: "'d menv \<Rightarrow> nat \<Rightarrow> 'd pmachine \<Rightarrow> 'd pmachine" where
  "after_turns e 0 s = s"
| "after_turns e (Suc n) s = after_turns e n (snd (snd (revert_turn e s)))"

definition status_at :: "'d menv \<Rightarrow> 'd pmachine \<Rightarrow> nat \<Rightarrow> reply" where
  "status_at e s n = fst (revert_turn e (after_turns e n s))"

definition clock_at :: "'d menv \<Rightarrow> 'd pmachine \<Rightarrow> nat \<Rightarrow> int" where
  "clock_at e s n = fst (snd (revert_turn e (after_turns e n s)))"

lemma at_Suc:
  "status_at e s (Suc n) = status_at e (snd (snd (revert_turn e s))) n"
  "clock_at e s (Suc n) = clock_at e (snd (snd (revert_turn e s))) n"
  by (simp_all add: status_at_def clock_at_def)

lemma revert_loop_turn:
  "revert_loop e start offs s =
     (case revert_turn e s of (status, now, s2) \<Rightarrow>
        let offs1 = (if status = RText POWER_OFF then offs + 1 else 0) in
        if offs1 > 3 then Some (RBool True, snd (m_power_status e s))
        else if now - start > DISK_REVERT_TIMEOUT then Some (RBool False, s2)
        else revert_loop e start offs1 s2)"
  by (subst revert_loop.simps) (auto simp: revert_turn_def split: prod.split)

lemma revert_loop_returns:
  "DISK_REVERT_TIMEOUT < clock_at e s n - start \<Longrightarrow> \<exists>r s'. revert_loop e start offs s = Some (r, s')"
proof (induction n arbitrary: s offs)
  case 0
  then show ?case by (subst revert_loop_turn) (auto simp: clock_at_def Let_def split: prod.split)
next
  case (Suc n)
  then have "\<exists>r s'. revert_loop e start offs1 (snd (snd (revert_turn e s))) = Some (r, s')" for offs1
    by (simp add: at_Suc)
  then show ?case by (subst revert_loop_turn) (auto simp: Let_def split: prod.split)
qed

text \<open>Up to four turns that end in turn \<open>n\<close> found the machine off, and earlier ones if these are fewer.\<close>

definition off_run :: "'d menv \<Rightarrow> 'd pmachine \<Rightarrow> nat \<Rightarrow> nat \<Rightarrow> bool" where
  "off_run e s offs n \<longleftrightarrow> (\<forall>i \<le> n. n < i + 4 \<longrightarrow> status_at e s i = RText POWER_OFF) \<and> 4 \<le> n + 1 + offs"

lemma off_run_Suc:
  assumes "off_run e (snd (snd (revert_turn e s))) (if fst (revert_turn e s) = RText POWER_OFF then offs + 1 else 0) n"
  shows "off_run e s offs (Suc n)"
proof -
  have "status_at e s i = RText POWER_OFF" if "i \<le> Suc n" "Suc n < i + 4" for i
  proof (cases i)
    case 0
    then have "fst (revert_turn e s) = RText POWER_OFF" using assms that by (auto simp: off_run_def split: if_splits)
    then show ?thesis using 0 by (simp add: status_at_def)
  next
    case (Suc j)
    then show ?thesis using assms that by (auto simp: off_run_def at_Suc)
  qed
  moreover have "4 \<le> Suc n + 1 + offs" using assms by (auto simp: off_run_def split: if_splits)
  ultimately show ?thesis by (auto simp: off_run_def)
qed

definition revert_post :: "'d menv \<Rightarrow> int \<Rightarrow> nat \<Rightarrow> 'd pmachine \<Rightarrow> reply \<times> 'd pmachine \<Rightarrow> bool" where
  "revert_post e start offs s out \<longleftrightarrow>
     fst out = RBool True \<and> (\<exists>n. off_run e s offs n) \<or>
     fst out = RBool False \<and> (\<exists>n. DISK_REVERT_TIMEOUT < clock_at e s n - start)"

lemma revert_loop_post:
  fixes e :: "'d menv"
  assumes "revert_loop e start offs s = Some out"
  shows "revert_post e start offs s out"
proof (rule revert_loop.raw_induct [where P = revert_post, OF _ assms])
  fix loop and e :: "'d menv" and start offs s out
  assume IH: "\<And>e start offs s out. loop e start offs s = Some out \<Longrightarrow> revert_post (e :: 'd menv) start offs s out"
    and body: "(case m_power_status e s of (status, s1) \<Rightarrow>
        let offs1 = (if status = RText POWER_OFF then offs + 1 else 0) in
        if offs1 > 3 then Some (RBool True, s1)
        else (case read_clock e s1 of (now, s2) \<Rightarrow>
          if now - start > DISK_REVERT_TIMEOUT then Some (RBool False, s2) else loop e start offs1 s2)) = Some out"
  obtain status s1 where p: "m_power_status e s = (status, s1)" by fastforce
  obtain now s2 where c: "read_clock e s1 = (now, s2)" by fastforce
  have turn: "revert_turn e s = (status, now, s2)" using p c by (simp add: revert_turn_def)
  define offs1 where "offs1 = (if status = RText POWER_OFF then offs + 1 else 0)"
  consider "offs1 > 3" | "offs1 \<le> 3" "now - start > DISK_REVERT_TIMEOUT" | "offs1 \<le> 3" "\<not> now - start > DISK_REVERT_TIMEOUT" by linarith
  then show "revert_post e start offs s out"
  proof cases
    case 1
    then have "status = RText POWER_OFF" "3 \<le> offs" by (auto simp: offs1_def split: if_splits)
    then have "off_run e s offs 0" using turn by (simp add: off_run_def status_at_def)
    moreover have "out = (RBool True, s1)" using body p 1 by (simp add: offs1_def [symmetric])
    ultimately show ?thesis by (auto simp: revert_post_def)
  next
    case 2
    then have "out = (RBool False, s2)" using body p c by (simp add: offs1_def [symmetric])
    moreover have "DISK_REVERT_TIMEOUT < clock_at e s 0 - start" using 2 turn by (simp add: clock_at_def)
    ultimately show ?thesis by (auto simp: revert_post_def)
  next
    case 3
    then have "loop e start offs1 s2 = Some out" using body p c by (simp add: offs1_def [symmetric])
    then have "revert_post e start offs1 s2 out" by (rule IH)
    moreover have "off_run e s offs (Suc n)" if "off_run e s2 offs1 n" for n
      using off_run_Suc [of e s offs n] that turn by (simp add: offs1_def)
    moreover have "clock_at e s2 n = clock_at e s (Suc n)" for n using at_Suc(2) [of e s n] turn by simp
    ultimately show ?thesis unfolding revert_post_def by metis
  qed
qed


section \<open>A machine that stays off\<close>

lemma stays_off_restored:
  assumes "P s" and "mac_address s = Some mac" and "has_pxe s"
    and control: "\<And>s. P s \<Longrightarrow> has_control s"
    and off: "\<And>s. P s \<Longrightarrow> \<exists>s'. power_status e s = (RText POWER_OFF, s') \<and> P s'"
    and no_on: "\<And>s. P s \<Longrightarrow> \<exists>s'. power_on e s = (RBool False, s') \<and> P s'"
    and request: "\<And>s msg. P s \<Longrightarrow> P (snd (pxe_request e msg s))"
    and clock: "\<And>s. P s \<Longrightarrow> \<exists>s'. read_clock e s = (0, s') \<and> P s'"
  shows "\<exists>s'. disk_revert e s = Some (RBool True, s') \<and> P s'"
proof -
  have status: "\<exists>s'. m_power_status e s = (RText POWER_OFF, s') \<and> P s'" if "P s" for s
    using off [OF that] control [OF that] by (simp add: m_power_status_def)
  have not_on: "POWER_OFF \<noteq> POWER_ON" by (simp add: control_consts)
  obtain s1 where s1: "m_power_off e s = Some (RBool True, s1)" "P s1"
    using status [OF assms(1)] control [OF assms(1)] not_on by (auto simp: m_power_off_def)
  let ?s2 = "snd (pxe_request e (add_mac mac) s1)"
  have "P ?s2" using s1(2) by (rule request)
  then obtain s3 where s3: "m_power_status e ?s2 = (RText POWER_OFF, s3)" "P s3" using status by blast
  obtain s4 where s4: "power_on e s3 = (RBool False, s4)" "P s4" using no_on [OF s3(2)] by blast
  have on: "m_power_on e ?s2 = Some (RBool False, s4)"
    using s3(1) s4(1) control [OF \<open>P ?s2\<close>] not_on by (simp add: m_power_on_def on_loop.simps)
  have turn: "\<exists>s'. revert_loop e 0 k s = (if k + 1 > 3 then Some (RBool True, s') else revert_loop e 0 (k + 1) s') \<and> P s'"
    if "P s" for k s
  proof -
    obtain t where t: "m_power_status e s = (RText POWER_OFF, t)" "P t" using status [OF \<open>P s\<close>] by blast
    obtain u where "read_clock e t = (0, u)" "P u" using clock [OF t(2)] by blast
    then show ?thesis using t by (subst revert_loop.simps) (auto simp: DISK_REVERT_TIMEOUT_def)
  qed
  obtain s5 where s5: "read_clock e s4 = (0, s5)" "P s5" using clock [OF s4(2)] by blast
  obtain a where a: "revert_loop e 0 0 s5 = revert_loop e 0 (Suc 0) a" "P a" using turn [OF s5(2), of 0] by auto
  obtain b where b: "revert_loop e 0 (Suc 0) a = revert_loop e 0 (Suc (Suc 0)) b" "P b" using turn [OF a(2), of "Suc 0"] by auto
  obtain c where c: "revert_loop e 0 (Suc (Suc 0)) b = revert_loop e 0 3 c" "P c"
    using turn [OF b(2), of "Suc (Suc 0)"] by (auto simp: numeral_3_eq_3)
  obtain d where d: "revert_loop e 0 3 c = Some (RBool True, d)" "P d" using turn [OF c(2), of 3] by auto
  show ?thesis using assms(2,3) control [OF assms(1)] s1(1) on s5(1) a(1) b(1) c(1) d by (auto simp: disk_revert_def)
qed

text \<open>
  A machine that is off and that the command to power on does not reach is reported as restored: the answers that
  it is off are taken for the end of the restoring.
\<close>

theorem machine_that_stays_off_restored:
  assumes "P s" and "mac_address s = Some mac" and "has_pxe s"
    and control: "\<And>s. P s \<Longrightarrow> has_control s"
    and off: "\<And>s. P s \<Longrightarrow> \<exists>s'. power_status e s = (RText POWER_OFF, s') \<and> P s'"
    and no_on: "\<And>s. P s \<Longrightarrow> \<exists>s'. power_on e s = (RBool False, s') \<and> P s'"
    and request: "\<And>s msg. P s \<Longrightarrow> P (snd (pxe_request e msg s))"
    and clock: "\<And>s. P s \<Longrightarrow> \<exists>s'. read_clock e s = (0, s') \<and> P s'"
  shows "\<exists>s'. disk_revert e s = Some (RBool True, s') \<and> P s'"
  using assms by (rule stays_off_restored)

section \<open>The permission to boot\<close>

text \<open>What the power operations leave alone: the configuration of the machine and the tables of the boot services.\<close>

lemma m_power_status_more [simp, frame]: "ctl.more (snd (m_power_status e s)) = ctl.more s"
  by (simp add: m_power_status_def)

definition same_more :: "'d pmachine \<Rightarrow> reply \<times> 'd pmachine \<Rightarrow> bool" where
  "same_more s out \<longleftrightarrow> ctl.more (snd out) = ctl.more s"

lemma on_loop_more:
  assumes "on_loop e rtn s = Some out"
  shows "same_more s out"
  by (rule on_loop.raw_induct [where P = "\<lambda>e rtn s out. same_more s out", OF _ assms])
    (auto simp: same_more_def dest!: snd_eqD split: if_splits prod.splits)

lemma off_loop_more:
  assumes "off_loop e start rtn s = Some out"
  shows "same_more s out"
  by (rule off_loop.raw_induct [where P = "\<lambda>e start rtn s out. same_more s out", OF _ assms])
    (force simp: same_more_def dest!: snd_eqD split: if_splits prod.splits)

lemma revert_loop_more:
  assumes "revert_loop e start offs s = Some out"
  shows "same_more s out"
  by (rule revert_loop.raw_induct [where P = "\<lambda>e start offs s out. same_more s out", OF _ assms])
    (force simp: same_more_def Let_def dest!: snd_eqD split: if_splits prod.splits)

lemma m_power_on_more: "m_power_on e s = Some out \<Longrightarrow> same_more s out"
  by (cases out) (auto simp: m_power_on_def same_more_def dest!: on_loop_more [unfolded same_more_def] snd_eqD split: if_splits prod.splits)

lemma m_power_off_more: "m_power_off e s = Some out \<Longrightarrow> same_more s out"
  by (cases out) (auto simp: m_power_off_def same_more_def dest!: off_loop_more [unfolded same_more_def] snd_eqD split: if_splits prod.splits)

lemma same_more_fields:
  "same_more s out \<Longrightarrow> tables (snd out) = tables s \<and> mac_address (snd out) = mac_address s \<and> has_pxe (snd out) = has_pxe s \<and>
     has_control (snd out) = has_control s"
  by (cases s; cases "snd out") (simp add: same_more_def)

lemma pxe_request_delivered:
  "fst (env_pxe e (world s)) \<Longrightarrow> tables (snd (pxe_request e msg s)) = snd (acl_serve msg (tables s))"
  by (auto simp: pxe_request_def split: prod.split)

lemma disk_revert_tables:
  assumes "disk_revert e s = Some out" and "mac_address s = Some mac" and "has_pxe s" and "has_control s"
    and "\<And>d. fst (env_pxe e d)"
  shows "tables (snd out) = snd (acl_serve (add_mac mac) (tables s))"
proof -
  from assms(1-4) obtain r1 s1 r2 s2 where off: "m_power_off e s = Some (r1, s1)"
    and on: "m_power_on e (snd (pxe_request e (add_mac mac) s1)) = Some (r2, s2)"
    and loop: "revert_loop e (fst (read_clock e s2)) 0 (snd (read_clock e s2)) = Some out"
    by (auto simp: disk_revert_def split: option.splits prod.splits)
  have "tables (snd out) = tables (snd (read_clock e s2))"
    using same_more_fields [OF revert_loop_more [OF loop]] by simp
  also have "\<dots> = tables s2"
    using same_more_fields [of s2 "(RNone, snd (read_clock e s2))"] by (simp add: same_more_def)
  also have "\<dots> = tables (snd (pxe_request e (add_mac mac) s1))"
    using same_more_fields [OF m_power_on_more [OF on]] by simp
  also have "\<dots> = snd (acl_serve (add_mac mac) (tables s1))" using assms(5) by (rule pxe_request_delivered)
  also have "tables s1 = tables s" using same_more_fields [OF m_power_off_more [OF off]] by simp
  finally show ?thesis .
qed

lemma profile_state:
  assumes "mac_address s = Some mac" and "has_pxe s" and "images_map s = Some m" and "m (lower prof) = Some img"
    and "\<And>d. fst (env_pxe e d)"
  defines "s' \<equiv> snd (set_volatility_profile e prof s)"
  shows "tables s' = snd (acl_serve (set_pxe_conf mac img) (tables s)) \<and> mac_address s' = Some mac \<and> has_pxe s' \<and>
    has_control s' = has_control s"
  using assms(1-4) assms(5) [of "world s"] unfolding s'_def
  by (auto simp: set_volatility_profile_def pxe_request_def Let_def split: prod.split)

text \<open>
  When requests reach the boot services, choosing a profile and restoring the disk leaves the machine permitted to
  boot, from the image of the profile, whatever the device answers and however the restoring ends.
\<close>

theorem restore_permits_boot:
  assumes "mac_address s = Some mac" and "has_pxe s" and "has_control s" and "images_map s = Some m"
    and "m (lower prof) = Some img" and "\<And>d. fst (env_pxe e d)"
    and "CHR '' '' \<notin> set mac" and "CHR '' '' \<notin> set img" and "length (set_pxe_conf mac img) \<le> 512"
    and "disk_revert e (snd (set_volatility_profile e prof s)) = Some out"
  shows "tables (snd out) = permit_boot mac img (tables s) \<and>
    shared_acl (tables (snd out)) (lower mac) = Some True \<and> shared_conf (tables (snd out)) (lower mac) = Some img"
proof -
  let ?s = "snd (set_volatility_profile e prof s)"
  have s: "tables ?s = snd (acl_serve (set_pxe_conf mac img) (tables s))" "mac_address ?s = Some mac" "has_pxe ?s" "has_control ?s"
    using profile_state [OF assms(1,2,4,5), of e] assms(3,6) by auto
  have "tables (snd out) = permit_boot mac img (tables s)"
    using disk_revert_tables [OF assms(10) s(2-4) assms(6)] s(1) by (simp add: permit_boot_def)
  then show ?thesis using permit_boot_state [OF assms(7-9), of "tables s"] by simp
qed

section \<open>Witnesses\<close>

text \<open>A device that answers that the machine is off, and nothing to any other command, and a clock that stands still.\<close>

definition off_env :: "string menv" where
  "off_env = \<lparr>env_connect = (\<lambda>d. (Connected, d)), env_sendall = (\<lambda>m d. (True, if m = END_MSG \<or> m = END_TRANSMISSION then d else m)),
     env_recv = (\<lambda>d. (if d = STATUS_CMD then Some POWER_OFF else None, d)), env_now = (\<lambda>d. (0, d)), env_pxe = (\<lambda>d. (True, d))\<rparr>"

definition lab_machine :: "string pmachine" where
  "lab_machine = \<lparr>ctl_sock = None, world = [], wire = [], has_control = True, has_pxe = True, mac_address = Some ''AA'',
     volatility_profile = ''WinXPSP3x86'', images_map = Some [''winxpsp3x86'' \<mapsto> ''winxp''],
     tables = \<lparr>shared_acl = Map.empty, shared_map = [], shared_conf = Map.empty\<rparr>\<rparr>"

lemmas device_defs = power_status_def power_on_def power_to_def when_connected_def send_comand_def RETRIES_def numeral_3_eq_3
  connect_def attempt_def sendall_def read_response_def disconnect_def off_env_def control_consts

lemma off_env_status:
  "ctl_sock s \<noteq> Some False \<Longrightarrow> \<exists>s'. power_status off_env s = (RText POWER_OFF, s') \<and> ctl_sock s' \<noteq> Some False \<and> ctl.more s' = ctl.more s"
  by (cases "ctl_sock s") (auto simp: device_defs)

lemma off_env_on:
  "ctl_sock s \<noteq> Some False \<Longrightarrow> \<exists>s'. power_on off_env s = (RBool False, s') \<and> ctl_sock s' \<noteq> Some False \<and> ctl.more s' = ctl.more s"
  by (cases "ctl_sock s") (auto simp: device_defs)

lemma has_control_more: "ctl.more (s' :: 'd pmachine) = ctl.more (s :: 'd pmachine) \<Longrightarrow> has_control s' = has_control s"
  using same_more_fields [of s "(RNone, s')"] by (simp add: same_more_def)

lemma off_env_keeps:
  fixes s :: "string pmachine"
  assumes "has_control s \<and> ctl_sock s \<noteq> Some False"
  shows "\<exists>s'. power_status off_env s = (RText POWER_OFF, s') \<and> has_control s' \<and> ctl_sock s' \<noteq> Some False"
    and "\<exists>s'. power_on off_env s = (RBool False, s') \<and> has_control s' \<and> ctl_sock s' \<noteq> Some False"
    and "\<exists>s'. read_clock off_env s = (0, s') \<and> has_control s' \<and> ctl_sock s' \<noteq> Some False"
    and "has_control (snd (pxe_request off_env msg s)) \<and> ctl_sock (snd (pxe_request off_env msg s)) \<noteq> Some False"
proof -
  show "\<exists>s'. power_status off_env s = (RText POWER_OFF, s') \<and> has_control s' \<and> ctl_sock s' \<noteq> Some False"
    using off_env_status [of s] assms has_control_more by blast
  show "\<exists>s'. power_on off_env s = (RBool False, s') \<and> has_control s' \<and> ctl_sock s' \<noteq> Some False"
    using off_env_on [of s] assms has_control_more by blast
  show "\<exists>s'. read_clock off_env s = (0, s') \<and> has_control s' \<and> ctl_sock s' \<noteq> Some False"
    using assms by (simp add: read_clock_def off_env_def)
  show "has_control (snd (pxe_request off_env msg s)) \<and> ctl_sock (snd (pxe_request off_env msg s)) \<noteq> Some False"
    using assms by (simp add: pxe_request_def off_env_def split: prod.split)
qed

theorem machine_that_stays_off_restored_witness:
  "\<exists>s'. disk_revert off_env lab_machine = Some (RBool True, s') \<and> has_control s' \<and> ctl_sock s' \<noteq> Some False"
  by (rule machine_that_stays_off_restored [where P = "\<lambda>s. has_control s \<and> ctl_sock s \<noteq> Some False" and mac = "''AA''"])
    (use off_env_keeps in \<open>simp_all add: lab_machine_def\<close>)

lemma lab_machine_profile:
  "snd (set_volatility_profile off_env ''WinXPSP3x86'' lab_machine) =
     lab_machine\<lparr>tables := snd (acl_serve (set_pxe_conf ''AA'' ''winxp'') (tables lab_machine))\<rparr>"
proof -
  have "lower ''WinXPSP3x86'' = ''winxpsp3x86''" by code_simp
  then show ?thesis by (simp add: set_volatility_profile_def lab_machine_def pxe_request_def off_env_def split: prod.split)
qed

theorem restore_permits_boot_witness:
  "\<exists>out. disk_revert off_env (snd (set_volatility_profile off_env ''WinXPSP3x86'' lab_machine)) = Some out \<and>
     shared_conf (tables (snd out)) ''aa'' = Some ''winxp''"
proof -
  have l: "lower ''WinXPSP3x86'' = ''winxpsp3x86''" "lower ''AA'' = ''aa''" "length (set_pxe_conf ''AA'' ''winxp'') \<le> 512" by code_simp+
  have "\<exists>s'. disk_revert off_env (snd (set_volatility_profile off_env ''WinXPSP3x86'' lab_machine)) = Some (RBool True, s') \<and>
      has_control s' \<and> ctl_sock s' \<noteq> Some False"
    by (rule stays_off_restored [where P = "\<lambda>s. has_control s \<and> ctl_sock s \<noteq> Some False" and mac = "''AA''"])
      (use off_env_keeps in \<open>simp_all add: lab_machine_profile\<close>, simp_all add: lab_machine_def)
  then obtain s' where s': "disk_revert off_env (snd (set_volatility_profile off_env ''WinXPSP3x86'' lab_machine)) = Some (RBool True, s')" by blast
  have pxe: "fst (env_pxe off_env d)" for d by (simp add: off_env_def)
  have m: "mac_address lab_machine = Some ''AA''" "has_pxe lab_machine" "has_control lab_machine"
    "images_map lab_machine = Some [''winxpsp3x86'' \<mapsto> ''winxp'']" by (simp_all add: lab_machine_def)
  have "shared_conf (tables (snd (RBool True, s'))) (lower ''AA'') = Some ''winxp''"
    using restore_permits_boot [OF m _ pxe _ _ l(3) s', THEN conjunct2, THEN conjunct2] l(1) by simp
  then show ?thesis using s' l(2) by auto
qed

text \<open>A clock that shows an hour more in every turn, at a machine that nobody reaches.\<close>

definition ticking_env :: "int menv" where
  "ticking_env = \<lparr>env_connect = (\<lambda>d. (Refused, d)), env_sendall = (\<lambda>m d. (False, d)), env_recv = (\<lambda>d. (None, d)),
     env_now = (\<lambda>d. (d, d + 3600)), env_pxe = (\<lambda>d. (False, d))\<rparr>"

definition silent_machine :: "int pmachine" where
  "silent_machine = \<lparr>ctl_sock = None, world = 0, wire = [], has_control = True, has_pxe = True, mac_address = Some ''AA'',
     volatility_profile = [], images_map = None, tables = \<lparr>shared_acl = Map.empty, shared_map = [], shared_conf = Map.empty\<rparr>\<rparr>"


end
