(* ===== verification/MachineMemory.thy ===== *)
theory MachineMemory
  imports MemoryPhysical
begin

text \<open>
  Reading and dumping the memory of a machine, \<^verbatim>\<open>memory_read\<close> and \<^verbatim>\<open>memory_dump\<close> of \<^verbatim>\<open>machine/__init__.py\<close>, on top of
  the memory sensor.
\<close>

section \<open>Operations\<close>

text \<open>An exception of the sensor is logged and gives \<^verbatim>\<open>None\<close>.\<close>

definition memory_read :: "'s sensor_read \<Rightarrow> int \<Rightarrow> bool \<Rightarrow> nat \<Rightarrow> nat \<Rightarrow> 's mem_sensor \<Rightarrow> bytes option \<times> 's mem_sensor" where
  "memory_read rfs now has_memory addr len s =
     (if \<not> has_memory then (None, s)
      else case read rfs now addr len s of Inl e \<Rightarrow> (None, s) | Inr (s1, r) \<Rightarrow> (r, s1))"

text \<open>
  The loop of \<^verbatim>\<open>memory_dump\<close>; the clock gives the time of the read at each offset.  What was written to the file before
  a failed read stays there.
\<close>

function dump_loop :: "'s sensor_read \<Rightarrow> (nat \<Rightarrow> int) \<Rightarrow> bool \<Rightarrow> nat \<Rightarrow> nat \<Rightarrow> bytes \<Rightarrow> 's mem_sensor \<Rightarrow> bool \<times> bytes" where
  "dump_loop rfs clock has_memory total_size offset f s =
     (if offset < total_size then
        (case memory_read rfs (clock offset) has_memory offset (min CACHE_CHUNK (total_size - offset)) s of
           (None, s1) \<Rightarrow> (False, f)
         | (Some memory, s1) \<Rightarrow> dump_loop rfs clock has_memory total_size (offset + CACHE_CHUNK) (f @ memory) s1)
      else (True, f))"
  by pat_completeness auto
termination
  by (relation "measure (\<lambda>(rfs, clock, has_memory, total_size, offset, f, s). total_size - offset)") auto

declare dump_loop.simps [simp del]

text \<open>\<open>None\<close> for a file that cannot be created.\<close>

definition memory_dump :: "'s sensor_read \<Rightarrow> (nat \<Rightarrow> int) \<Rightarrow> bool \<Rightarrow> bool \<Rightarrow> nat \<Rightarrow> 's mem_sensor \<Rightarrow> bool \<times> bytes option" where
  "memory_dump rfs clock has_memory creatable total_size s =
     (if \<not> creatable then (False, None)
      else case dump_loop rfs clock has_memory total_size 0 [] s of (rtn, f) \<Rightarrow> (rtn, Some f))"

section \<open>A dump is the memory\<close>

context memory_device
begin

lemma dump_loop_ok:
  assumes "sensor_ok ok mem s" and "separated (BAD_MEM_REGIONS s)" and "total_size + CACHE_CHUNK \<le> top"
  shows "dump_loop rfs clock True total_size offset f s =
    (True, f @ map (masked (BAD_MEM_REGIONS s) mem) [offset..<total_size])"
  using assms(1,2)
proof (induction "total_size - offset" arbitrary: offset f s rule: less_induct)
  case less
  let ?mem = "masked (BAD_MEM_REGIONS s) mem"
  show ?case
  proof (cases "offset < total_size")
    case True
    define n where "n = min CACHE_CHUNK (total_size - offset)"
    have n: "0 < n" "offset + n \<le> total_size" using True by (auto simp: n_def)
    then obtain s1 where s1: "read rfs (clock offset) offset n s = Inr (s1, Some (map ?mem [offset..<offset + n]))"
      "sensor_ok ok mem s1" "BAD_MEM_REGIONS s1 = BAD_MEM_REGIONS s"
      using read_ok [OF less.prems n(1), of offset "clock offset"] assms(3) by auto
    have "[offset..<offset + n] @ [offset + CACHE_CHUNK..<total_size] = [offset..<total_size]"
      using upt_add_eq_append [of offset "offset + n" "total_size - (offset + n)"] n by (auto simp: n_def min_def)
    then have join: "map ?mem [offset..<offset + n] @ map ?mem [offset + CACHE_CHUNK..<total_size] = map ?mem [offset..<total_size]"
      by (metis map_append)
    have "dump_loop rfs clock True total_size offset f s =
        dump_loop rfs clock True total_size (offset + CACHE_CHUNK) (f @ map ?mem [offset..<offset + n]) s1"
      using True s1(1) by (subst dump_loop.simps) (simp add: memory_read_def n_def)
    also have "\<dots> = (True, (f @ map ?mem [offset..<offset + n]) @ map ?mem [offset + CACHE_CHUNK..<total_size])"
      using less.hyps [of "offset + CACHE_CHUNK" s1] s1(2,3) less.prems(2) True by simp
    also have "\<dots> = (True, f @ map ?mem [offset..<total_size])" using join by simp
    finally show ?thesis .
  qed (subst dump_loop.simps, simp)
qed

end


section \<open>A read that fails\<close>

text \<open>A sensor without cache gives the empty string for a read that failed.\<close>

lemma uncached_read:
  assumes "CACHE_TIMEOUT s \<le> 0" and "BAD_MEM_REGIONS s = []" and "rfs a n (device s) = Inr (d, r)"
  shows "memory_read rfs now True a n s = (Some (case r of None \<Rightarrow> [] | Some m \<Rightarrow> m), s\<lparr>device := d\<rparr>)"
  using assms by (simp add: memory_read_def read_def read_cached_def)

definition chunk_bytes :: "(nat \<Rightarrow> byte) \<Rightarrow> (nat \<Rightarrow> bool) \<Rightarrow> nat \<Rightarrow> nat \<Rightarrow> bytes" where
  "chunk_bytes mem fails total_size offset =
     (if fails offset then [] else map mem [offset..<offset + min CACHE_CHUNK (total_size - offset)])"

fun offsets :: "nat \<Rightarrow> nat \<Rightarrow> nat list" where
  "offsets offset 0 = []"
| "offsets offset (Suc n) = offset # offsets (offset + CACHE_CHUNK) n"

lemma offsets_bound: "x \<in> set (offsets offset n) \<Longrightarrow> x + CACHE_CHUNK \<le> offset + n * CACHE_CHUNK"
  by (induction n arbitrary: offset) fastforce+

lemma dump_loop_fails:
  assumes "CACHE_TIMEOUT s \<le> 0" and "BAD_MEM_REGIONS s = []"
    and "\<And>a n d. rfs a n d = Inr (d, if fails a then None else Some (map mem [a..<a + n]))"
    and "total_size \<le> offset + n * CACHE_CHUNK" and "n = 0 \<or> offset + (n - 1) * CACHE_CHUNK < total_size"
  shows "dump_loop rfs clock True total_size offset f s =
    (True, f @ concat (map (chunk_bytes mem fails total_size) (offsets offset n)))"
  using assms(4,5)
proof (induction n arbitrary: offset f)
  case 0
  then show ?case by (subst dump_loop.simps) simp
next
  case (Suc n)
  have "offset < total_size" using Suc.prems by simp
  moreover have "memory_read rfs (clock offset) True offset (min CACHE_CHUNK (total_size - offset)) s =
      (Some (chunk_bytes mem fails total_size offset), s)"
    using uncached_read [OF assms(1,2,3)] by (auto simp: chunk_bytes_def)
  ultimately have "dump_loop rfs clock True total_size offset f s =
      dump_loop rfs clock True total_size (offset + CACHE_CHUNK) (f @ chunk_bytes mem fails total_size offset) s"
    by (subst dump_loop.simps) simp
  moreover have "total_size \<le> (offset + CACHE_CHUNK) + n * CACHE_CHUNK"
    "n = 0 \<or> (offset + CACHE_CHUNK) + (n - 1) * CACHE_CHUNK < total_size"
    using Suc.prems by (cases n; simp)+
  ultimately show ?case using Suc.IH [of "offset + CACHE_CHUNK"] by simp
qed

text \<open>
  Without cache and bad regions, a dump in which reads fail reports success all the same, and the file lacks the
  failed chunks, so that everything behind them stands at the wrong place.
\<close>

theorem dump_leaves_out_failed_chunks:
  assumes "CACHE_TIMEOUT s \<le> 0" and "BAD_MEM_REGIONS s = []"
    and "\<And>a n d. rfs a n d = Inr (d, if fails a then None else Some (map mem [a..<a + n]))"
    and "total_size = n * CACHE_CHUNK"
  shows "memory_dump rfs clock True True total_size s =
    (True, Some (concat (map (\<lambda>offset. if fails offset then [] else map mem [offset..<offset + CACHE_CHUNK]) (offsets 0 n))))"
proof -
  have "dump_loop rfs clock True total_size 0 [] s = (True, concat (map (chunk_bytes mem fails total_size) (offsets 0 n)))"
    using dump_loop_fails [OF assms(1-3), of total_size 0 n] assms(4) by (cases n) auto
  moreover have "chunk_bytes mem fails total_size x = (if fails x then [] else map mem [x..<x + CACHE_CHUNK])" if "x \<in> set (offsets 0 n)" for x
    using offsets_bound [OF that] assms(4) by (simp add: chunk_bytes_def min_def)
  ultimately show ?thesis by (simp add: memory_dump_def cong: map_cong)
qed

section \<open>Witnesses\<close>


definition flaky_read :: "unit sensor_read" where
  "flaky_read a n d = Inr (d, if a = CACHE_CHUNK then None else Some (map (\<lambda>i. 7) [a..<a + n]))"

theorem dump_leaves_out_failed_chunks_witness:
  "memory_dump flaky_read (\<lambda>offset. 0) True True (3 * CACHE_CHUNK)
     \<lparr>BAD_MEM_REGIONS = [], CACHE_TIMEOUT = 0, cache = Map.empty, cache_timeouts = Map.empty, device = ()\<rparr> =
   (True, Some (replicate (2 * CACHE_CHUNK) 7))"
proof -
  have "map (\<lambda>i. 7) [a..<b] = replicate (b - a) (7 :: byte)" for a b :: nat by (simp add: map_replicate_const)
  then show ?thesis
    using dump_leaves_out_failed_chunks [where rfs = flaky_read and fails = "\<lambda>a. a = CACHE_CHUNK" and mem = "\<lambda>i. 7" and n = 3
        and total_size = "3 * CACHE_CHUNK" and clock = "\<lambda>offset. 0"
        and s = "\<lparr>BAD_MEM_REGIONS = [], CACHE_TIMEOUT = 0, cache = Map.empty, cache_timeouts = Map.empty, device = ()\<rparr>"]
    by (simp add: flaky_read_def numeral_3_eq_3 replicate_add [symmetric] del: upt_rec_numeral)
qed

end
