(* ===== verification/AnalysisFilter.thy ===== *)
theory AnalysisFilter
  imports PyState Keyboard "HOL-Library.AList"
begin

text \<open>
  The noise filters of the analyses, \<^verbatim>\<open>analysis_filter.py\<close>: events of the disk and entries of memory plugins that also
  turn up in runs without a sample are counted, thinned out by a threshold, and removed from the results of a run.
  A dictionary is the list of its entries in the order in which it is iterated over.  The results of a plugin that failed
  are an error message, whose characters name no category.  A filter made by \<^verbatim>\<open>add_analysis\<close> has pairs as the entries
  of a special plugin; a loaded one may also have strings there, which cannot be taken apart into a key and a count.
\<close>

section \<open>Counting\<close>

definition count_of :: "('k \<times> int) list \<Rightarrow> 'k \<Rightarrow> int" where
  "count_of d k = (case map_of d k of None \<Rightarrow> 0 | Some n \<Rightarrow> n)"

definition bump :: "'k \<Rightarrow> ('k \<times> int) list \<Rightarrow> ('k \<times> int) list" where
  "bump k d = AList.update k (count_of d k + 1) d"

section \<open>Disk\<close>

text \<open>An event: the operation, the file name and the inode.\<close>

type_synonym disk_event = "string \<times> string \<times> int"

record disk_filter =
  occurrences_dict :: "(disk_event \<times> int) list"
  num_analyses :: int

definition DiskFilter_init :: "(disk_event \<times> int) list option \<Rightarrow> disk_filter" where
  "DiskFilter_init filter_dict =
     \<lparr>occurrences_dict = (case filter_dict of None \<Rightarrow> [] | Some d \<Rightarrow> d), num_analyses = 0\<rparr>"

definition add_analysis :: "disk_event list \<Rightarrow> disk_filter \<Rightarrow> disk_filter" where
  "add_analysis results f =
     f\<lparr>occurrences_dict := fold bump results (occurrences_dict f), num_analyses := num_analyses f + 1\<rparr>"

text \<open>
  \<^verbatim>\<open>adjust_filter\<close>: behind the thinning it prints the share of the events that were kept, for which it divides by the
  number of analyses.
\<close>

definition adjust_filter :: "int \<Rightarrow> (disk_filter, unit) pymethod" where
  "adjust_filter threshold =
     bindS (getS num_analyses) (\<lambda>n.
       if threshold < 0 \<or> threshold > n then returnS ()
       else thenS (setS (\<lambda>f. f\<lparr>occurrences_dict := filter (\<lambda>(event, count). \<not> count < threshold) (occurrences_dict f)\<rparr>))
         (bindS (getS occurrences_dict) (\<lambda>d. if d \<noteq> [] \<and> n = 0 then raiseS ZeroDivisionError else returnS ())))"

definition no_inode :: "disk_event \<Rightarrow> string \<times> string" where
  "no_inode event = (fst event, fst (snd event))"

definition apply_filter :: "disk_filter \<Rightarrow> bool \<Rightarrow> (disk_event \<times> 'v) list \<Rightarrow> (disk_event \<times> 'v) list" where
  "apply_filter f use_inodes results =
     (if use_inodes then filter (\<lambda>(event, v). map_of (occurrences_dict f) event = None) results
      else filter (\<lambda>(event, v). no_inode event \<notin> no_inode ` fst ` set (occurrences_dict f)) results)"

section \<open>Memory\<close>

text \<open>Entries of a plugin, the keys made of them, and the entries of the filter.\<close>

datatype mentry = EStr string | EList "string list"
datatype fkey = KStr string | KTuple "string list" | KNone
datatype fentry = FStr string | FCount fkey int
datatype presult = PError | PDict "(string \<times> mentry list) list"

type_synonym categories = "(string \<times> (fentry \<times> int) list) list"

record mem_filter =
  m_occurrences :: "(string \<times> categories) list"
  m_num :: int

definition get_filescan_key :: "string \<Rightarrow> fkey res" where
  "get_filescan_key entry = Inr (KStr (strip (drop 40 entry)))"

definition get_ldrmodules_key :: "string \<Rightarrow> fkey res" where
  "get_ldrmodules_key entry =
     (if length (words (take 69 entry)) \<noteq> 6 then Inl ValueError else Inr (KStr (strip (drop 69 entry))))"

definition get_psscan_key :: "string \<Rightarrow> fkey res" where
  "get_psscan_key entry = Inr (KStr (strip (slice 19 33 entry)))"

definition get_timers_key :: "string \<Rightarrow> fkey res" where
  "get_timers_key entry =
     (let ws = words entry in if length ws \<noteq> 6 then Inl ValueError else Inr (KStr (ws ! 5)))"

definition get_envars_key :: "string \<Rightarrow> fkey res" where
  "get_envars_key entry =
     bindE (index_at (words entry) 3) (\<lambda>var. Inr (KTuple [var, concat (drop 4 (words entry))]))"

text \<open>The states of a TCP connection are a table of Volatility.\<close>

definition get_netscan_key :: "string list \<Rightarrow> string \<Rightarrow> fkey res" where
  "get_netscan_key tcp_states entry =
     (let ws = words entry in
      bindE (index_at ws 4) (\<lambda>st.
      bindE (index_at ws 1) (\<lambda>proto.
      bindE (index_at ws 2) (\<lambda>loc.
      bindE (index_at ws 3) (\<lambda>foreign.
        Inr (KTuple [proto, hd (split_on CHR '':'' loc), hd (split_on CHR '':'' foreign),
               (if st \<in> set tcp_states then st else ''N/A'')]))))))"

definition get_psxview_key :: "string \<Rightarrow> fkey res" where
  "get_psxview_key entry =
     (let str1 = strip (slice 19 42 entry); split_var1 = words str1; split_var2 = words (drop 42 entry) in
      if split_var1 = [] \<or> split_var2 = [] then Inr KNone
      else if length split_var2 < 7 then Inr (KTuple [str1, ''ERROR''])
      else bindE (index_at split_var2 7) (\<lambda>last. Inr (KTuple (str1 # take 6 (drop 1 split_var2) @ [last]))))"

definition SPECIAL_PLUGINS :: "string list" where
  "SPECIAL_PLUGINS = [''filescan'', ''ldrmodules'', ''psscan'', ''timers'', ''envars'', ''netscan'', ''psxview'']"

text \<open>\<^verbatim>\<open>SPECIAL_PLUGINS_KEY[plugin](entry)\<close>; a list has no \<^verbatim>\<open>split\<close> and no \<^verbatim>\<open>strip\<close>.\<close>

definition special_key :: "string list \<Rightarrow> string \<Rightarrow> mentry \<Rightarrow> fkey res" where
  "special_key tcp_states plugin entry =
     (case entry of
        EList l \<Rightarrow> Inl AttributeError
      | EStr s \<Rightarrow>
          if plugin = ''filescan'' then get_filescan_key s
          else if plugin = ''ldrmodules'' then get_ldrmodules_key s
          else if plugin = ''psscan'' then get_psscan_key s
          else if plugin = ''timers'' then get_timers_key s
          else if plugin = ''envars'' then get_envars_key s
          else if plugin = ''netscan'' then get_netscan_key tcp_states s
          else if plugin = ''psxview'' then get_psxview_key s
          else Inl KeyError)"

definition add_special_plugin :: "string list \<Rightarrow> string \<Rightarrow> (string \<times> mentry list) list \<Rightarrow> (string \<times> fentry list) list res" where
  "add_special_plugin tcp_states plugin plugin_dict =
     mapE (\<lambda>(category, entries).
       bindE (mapE (special_key tcp_states plugin) entries) (\<lambda>ks.
         Inr (category, map (\<lambda>(k, n). FCount k n) (fold bump ks [])))) plugin_dict"

fun plain_entry :: "mentry \<Rightarrow> fentry" where
  "plain_entry (EStr s) = FStr s"
| "plain_entry (EList l) = FStr (join_with CHR '' '' l)"

definition add_category :: "string \<Rightarrow> string \<times> fentry list \<Rightarrow> (mem_filter, unit) pymethod" where
  "add_category plugin ce =
     setS (\<lambda>f.
       let cats = (case map_of (m_occurrences f) plugin of None \<Rightarrow> [] | Some c \<Rightarrow> c);
           old = (case map_of cats (fst ce) of None \<Rightarrow> [] | Some d \<Rightarrow> d)
       in f\<lparr>m_occurrences := AList.update plugin (AList.update (fst ce) (fold bump (snd ce) old) cats) (m_occurrences f)\<rparr>)"

definition add_plugin :: "string list \<Rightarrow> string \<times> presult \<Rightarrow> (mem_filter, unit) pymethod" where
  "add_plugin tcp_states pr =
     thenS (setS (\<lambda>f. if map_of (m_occurrences f) (fst pr) = None
                      then f\<lparr>m_occurrences := AList.update (fst pr) [] (m_occurrences f)\<rparr> else f))
       (case snd pr of
          PError \<Rightarrow> returnS ()
        | PDict cats \<Rightarrow>
            bindS (liftS (if fst pr \<in> set SPECIAL_PLUGINS then add_special_plugin tcp_states (fst pr) cats
                          else Inr (map (\<lambda>(c, es). (c, map plain_entry es)) cats)))
              (forS (add_category (fst pr))))"

definition mem_add_analysis :: "string list \<Rightarrow> (string \<times> presult) list \<Rightarrow> (mem_filter, unit) pymethod" where
  "mem_add_analysis tcp_states results =
     thenS (forS (add_plugin tcp_states) results) (setS (\<lambda>f. f\<lparr>m_num := m_num f + 1\<rparr>))"

text \<open>
  \<^verbatim>\<open>adjust_filter\<close>: for each key the numbers of runs by count, where an entry adds its runs to the smaller counts that
  were met before it.
\<close>

type_synonym by_count = "(int \<times> int) list"

fun collect :: "(fentry \<times> int) list \<Rightarrow> (fkey \<times> by_count) list \<Rightarrow> (fkey \<times> by_count) list res" where
  "collect [] entry_dict = Inr entry_dict"
| "collect ((FStr s, n) # rest) entry_dict = Inl ValueError"
| "collect ((FCount k count, n) # rest) entry_dict =
     (let inner = (case map_of entry_dict k of None \<Rightarrow> [] | Some i \<Rightarrow> i);
          raised = map (\<lambda>(c, m). (c, if count > c then m + n else m)) inner
      in collect rest (AList.update k (AList.update count n raised) entry_dict))"

definition pick :: "int \<Rightarrow> by_count \<Rightarrow> int \<times> int" where
  "pick threshold inner =
     fold (\<lambda>(count, n) (highest, hn). if n \<ge> threshold \<and> count > highest then (count, n) else (highest, hn)) inner (-1, -1)"

definition adjusted :: "int \<Rightarrow> (fkey \<times> by_count) list \<Rightarrow> (fentry \<times> int) list" where
  "adjusted threshold entry_dict =
     List.map_filter (\<lambda>(k, inner). case pick threshold inner of (h, hn) \<Rightarrow> if h > 0 then Some (FCount k h, hn) else None) entry_dict"

definition adjust_category :: "int \<Rightarrow> int \<Rightarrow> (fentry \<times> int) list \<Rightarrow> (fentry \<times> int) list res" where
  "adjust_category threshold n entries =
     bindE (collect entries []) (\<lambda>entry_dict.
       if entries = [] then Inr entries
       else if n = 0 then Inl ZeroDivisionError
       else Inr (adjusted threshold entry_dict))"

definition adjust_one :: "int \<Rightarrow> string \<Rightarrow> string \<Rightarrow> (mem_filter, unit) pymethod" where
  "adjust_one threshold plugin category =
     bindS (getS (\<lambda>f. (m_num f, the (map_of (the (map_of (m_occurrences f) plugin)) category)))) (\<lambda>(n, entries).
     bindS (liftS (adjust_category threshold n entries)) (\<lambda>d.
       setS (\<lambda>f. f\<lparr>m_occurrences := AList.update plugin
                     (AList.update category d (the (map_of (m_occurrences f) plugin))) (m_occurrences f)\<rparr>)))"

definition mem_adjust_filter :: "int \<Rightarrow> (mem_filter, unit) pymethod" where
  "mem_adjust_filter threshold =
     bindS (getS id) (\<lambda>f.
       if threshold < 0 \<or> threshold > m_num f then returnS ()
       else forS (\<lambda>(plugin, cats). whenS (plugin \<in> set SPECIAL_PLUGINS)
                   (forS (\<lambda>(category, entries). adjust_one threshold plugin category) cats)) (m_occurrences f))"

text \<open>
  \<^verbatim>\<open>apply_filter\<close>: \<^verbatim>\<open>set\<close> refuses entries that are lists.  For a special plugin the entries with the key of a filter
  entry are removed unless there are more of them than it counts.
\<close>

definition as_set :: "mentry list \<Rightarrow> mentry list res" where
  "as_set entries = (if list_all (\<lambda>e. case e of EStr s \<Rightarrow> True | EList l \<Rightarrow> False) entries then Inr (remdups entries) else Inl TypeError)"

fun filter_special :: "(mentry \<Rightarrow> fkey res) \<Rightarrow> (fentry \<times> int) list \<Rightarrow> mentry list \<Rightarrow> mentry list res" where
  "filter_special key [] es = Inr es"
| "filter_special key ((FStr s, n) # rest) es = Inl ValueError"
| "filter_special key ((FCount k count, n) # rest) es =
     bindE (mapE key es) (\<lambda>ks.
       let matching = filter (\<lambda>(e, x). x = k) (zip es ks) in
       filter_special key rest
         (if count \<ge> int (length matching) then filter (\<lambda>e. e \<notin> fst ` set matching) es else es))"

definition apply_category :: "string list \<Rightarrow> string \<Rightarrow> (fentry \<times> int) list \<Rightarrow> mentry list \<Rightarrow> mentry list res" where
  "apply_category tcp_states plugin flt entries =
     bindE (as_set entries) (\<lambda>es.
       if plugin \<in> set SPECIAL_PLUGINS then filter_special (special_key tcp_states plugin) flt es
       else Inr (filter (\<lambda>e. plain_entry e \<notin> fst ` set flt) es))"

definition apply_plugin :: "string list \<Rightarrow> mem_filter \<Rightarrow> string \<times> presult \<Rightarrow> (string \<times> presult) res" where
  "apply_plugin tcp_states f pr =
     (case (map_of (m_occurrences f) (fst pr), snd pr) of
        (Some cats, PDict d) \<Rightarrow>
          bindE (mapE (\<lambda>(category, entries).
              case map_of cats category of
                None \<Rightarrow> Inr (category, entries)
              | Some flt \<Rightarrow> bindE (apply_category tcp_states (fst pr) flt entries) (\<lambda>es. Inr (category, es))) d)
            (\<lambda>d1. Inr (fst pr, PDict d1))
      | _ \<Rightarrow> Inr pr)"

definition mem_apply_filter :: "string list \<Rightarrow> mem_filter \<Rightarrow> (string \<times> presult) list \<Rightarrow> (string \<times> presult) list res" where
  "mem_apply_filter tcp_states f results = mapE (apply_plugin tcp_states f) results"

end
