(* ===== verification/FilterProperties.thy ===== *)
theory FilterProperties
  imports AnalysisFilter
begin

text \<open>
  What the noise filters remove from the results of a run: exactly the disk events that enough of the runs without a
  sample show, and the entries of a memory plugin whose key is not more frequent than the filter counts.
\<close>

section \<open>Disk events\<close>

lemma count_of_bump: "count_of (bump x d) k = count_of d k + (if k = x then 1 else 0)"
  by (simp add: count_of_def bump_def update_conv')

lemma count_of_fold: "count_of (fold bump xs d) k = count_of d k + int (count_list xs k)"
  by (induction xs arbitrary: d) (auto simp: count_of_bump)

lemma known_fold: "map_of (fold bump xs d) k = None \<longleftrightarrow> k \<notin> set xs \<and> map_of d k = None"
  by (induction xs arbitrary: d) (auto simp: bump_def update_conv')

lemma distinct_fold: "distinct (map fst d) \<Longrightarrow> distinct (map fst (fold bump xs d))"
  by (induction xs arbitrary: d) (simp_all add: bump_def distinct_update)

lemma map_of_fold: "map_of (fold bump xs []) k = (if k \<in> set xs then Some (int (count_list xs k)) else None)"
proof (cases "k \<in> set xs")
  case True
  then obtain n where "map_of (fold bump xs []) k = Some n" using known_fold [of xs "[]" k] by auto
  then show ?thesis using True count_of_fold [of xs "[]" k] by (simp add: count_of_def)
qed (simp add: known_fold)

lemma runs_counted:
  "occurrences_dict (fold add_analysis runs f) = fold bump (concat runs) (occurrences_dict f)"
  "num_analyses (fold add_analysis runs f) = num_analyses f + int (length runs)"
  by (induction runs arbitrary: f) (simp_all add: add_analysis_def)

lemma count_in_runs:
  "list_all distinct runs \<Longrightarrow> count_list (concat runs) k = length (filter (\<lambda>r. k \<in> set r) runs)"
proof (induction runs)
  case (Cons r runs)
  then have "count_list r k = (if k \<in> set r then 1 else 0)" by (induction r) (auto simp: count_list_0_iff)
  then show ?case using Cons by simp
qed simp

lemma map_of_thinned:
  "distinct (map fst d) \<Longrightarrow> map_of (filter (\<lambda>(e, c). \<not> c < t) d) k = (case map_of d k of None \<Rightarrow> None | Some c \<Rightarrow> if c < t then None else Some c)"
  by (induction d) (auto simp: map_of_eq_None_iff image_iff split: option.split)

text \<open>
  C21. A disk filter made of several runs and thinned out with a threshold removes from the results exactly the events
  that at least this many of the runs show.
\<close>

theorem disk_filter_exact:
  assumes "list_all distinct runs" and "1 \<le> t" and "t \<le> int (length runs)"
  shows "\<exists>f. adjust_filter t (fold add_analysis runs (DiskFilter_init None)) = (Inr (), f) \<and>
    apply_filter f True results = filter (\<lambda>(event, v). int (length (filter (\<lambda>r. event \<in> set r) runs)) < t) results"
proof -
  let ?d = "fold bump (concat runs) []"
  let ?f = "(fold add_analysis runs (DiskFilter_init None))\<lparr>occurrences_dict := filter (\<lambda>(e, c). \<not> c < t) ?d\<rparr>"
  have d: "occurrences_dict (fold add_analysis runs (DiskFilter_init None)) = ?d"
    and n: "num_analyses (fold add_analysis runs (DiskFilter_init None)) = int (length runs)"
    by (simp_all add: runs_counted DiskFilter_init_def)
  have "adjust_filter t (fold add_analysis runs (DiskFilter_init None)) = (Inr (), ?f)"
    using assms(2,3) d n by (cases runs) (auto simp: adjust_filter_def)
  moreover have "map_of (filter (\<lambda>(e, c). \<not> c < t) ?d) e = None \<longleftrightarrow> int (length (filter (\<lambda>r. e \<in> set r) runs)) < t" for e
  proof -
    have "e \<notin> set (concat runs) \<Longrightarrow> count_list (concat runs) e = 0" by (simp add: count_list_0_iff)
    then show ?thesis
      using map_of_thinned [OF distinct_fold [of "[]" "concat runs"], of t e] assms(2)
      by (auto simp: map_of_fold count_in_runs [OF assms(1), symmetric])
  qed
  then have "apply_filter ?f True results = filter (\<lambda>(event, v). int (length (filter (\<lambda>r. event \<in> set r) runs)) < t) results"
    by (simp add: apply_filter_def)
  ultimately show ?thesis by blast
qed

theorem disk_filter_exact_witness:
  "\<exists>f. adjust_filter 2 (fold add_analysis [[(''create'', ''a'', 1), (''write'', ''b'', 2)], [(''create'', ''a'', 1)]] (DiskFilter_init None)) = (Inr (), f) \<and>
    apply_filter f True [((''create'', ''a'', 1), 5::int), ((''write'', ''b'', 2), 6), ((''write'', ''c'', 3), 7)] =
      [((''write'', ''b'', 2), 6), ((''write'', ''c'', 3), 7)]"
  using disk_filter_exact [of "[[(''create'', ''a'', 1), (''write'', ''b'', 2)], [(''create'', ''a'', 1)]]" 2
    "[((''create'', ''a'', 1), 5::int), ((''write'', ''b'', 2), 6), ((''write'', ''c'', 3), 7)]"]
  by simp

section \<open>Entries of special plugins\<close>

definition covered :: "(mentry \<Rightarrow> fkey) \<Rightarrow> (fentry \<times> int) list \<Rightarrow> mentry list \<Rightarrow> mentry \<Rightarrow> bool" where
  "covered kf flt es e \<longleftrightarrow> (\<exists>c n. (FCount (kf e) c, n) \<in> set flt \<and> int (length (filter (\<lambda>x. kf x = kf e) es)) \<le> c)"

lemma mapE_key: "\<forall>e \<in> set es. key e = Inr (kf e) \<Longrightarrow> mapE key es = Inr (map kf es)"
  by (rule mapE_all_Inr) simp

lemma matching_entries: "filter (\<lambda>(e, x). x = k) (zip es (map kf es)) = map (\<lambda>e. (e, kf e)) (filter (\<lambda>e. kf e = k) es)"
  by (induction es) auto

lemma filter_special_result:
  assumes "list_all (\<lambda>(fe, n). case fe of FStr s \<Rightarrow> False | FCount k c \<Rightarrow> True) flt" and "\<forall>e \<in> set es. key e = Inr (kf e)"
  shows "filter_special key flt es = Inr (filter (\<lambda>e. \<not> covered kf flt es e) es)"
  using assms
proof (induction flt arbitrary: es)
  case Nil
  then show ?case by (simp add: covered_def)
next
  case (Cons x flt)
  then obtain k c n where x: "x = (FCount k c, n)" by (cases x) (auto split: fentry.splits)
  let ?m = "filter (\<lambda>e. kf e = k) es"
  let ?es = "if int (length ?m) \<le> c then filter (\<lambda>e. kf e \<noteq> k) es else es"
  have "fst ` set (map (\<lambda>e. (e, kf e)) ?m) = set ?m" by (simp add: image_image)
  moreover have "filter (\<lambda>e. e \<notin> set ?m) es = filter (\<lambda>e. kf e \<noteq> k) es" by (auto intro: filter_cong)
  ultimately have "filter_special key (x # flt) es = filter_special key flt ?es"
    unfolding x by (simp add: mapE_key [OF Cons.prems(2)] matching_entries Let_def)
  also have "\<dots> = Inr (filter (\<lambda>e. \<not> covered kf flt ?es e) ?es)"
    using Cons.prems by (intro Cons.IH) auto
  also have "filter (\<lambda>e. \<not> covered kf flt ?es e) ?es = filter (\<lambda>e. \<not> covered kf (x # flt) es e) es"
  proof (cases "int (length ?m) \<le> c")
    case True
    have same: "filter (\<lambda>x. kf x = kf e) (filter (\<lambda>e. kf e \<noteq> k) es) = filter (\<lambda>x. kf x = kf e) es" if "kf e \<noteq> k" for e
      using that by (auto intro: filter_cong)
    have "(kf e \<noteq> k \<and> \<not> covered kf flt (filter (\<lambda>e. kf e \<noteq> k) es) e) = (\<not> covered kf (x # flt) es e)" for e
      using True same [of e] by (cases "kf e = k") (auto simp: covered_def x)
    then show ?thesis using True by (simp add: conj_commute)
  next
    case False
    have "covered kf flt es e = covered kf (x # flt) es e" for e
      using False by (cases "kf e = k") (auto simp: covered_def x)
    then show ?thesis using False by simp
  qed
  finally show ?case .
qed

text \<open>
  The filter of a special plugin, on entries whose keys can be made: an entry is removed exactly if the filter
  counts its key at least as often as the results have it.
\<close>

theorem special_entries_removed:
  assumes "plugin \<in> set SPECIAL_PLUGINS" and "list_all (\<lambda>(fe, n). case fe of FStr s \<Rightarrow> False | FCount k c \<Rightarrow> True) flt"
    and "list_all (\<lambda>e. case e of EStr s \<Rightarrow> True | EList l \<Rightarrow> False) entries"
    and "\<forall>e \<in> set entries. special_key tcp plugin e = Inr (kf e)"
  shows "apply_category tcp plugin flt entries =
    Inr (filter (\<lambda>e. \<not> (\<exists>c n. (FCount (kf e) c, n) \<in> set flt \<and> int (length (filter (\<lambda>x. kf x = kf e) (remdups entries))) \<le> c)) (remdups entries))"
  using assms(1,3) filter_special_result [OF assms(2), of "remdups entries" "special_key tcp plugin" kf] assms(4)
  by (simp add: apply_category_def as_set_def covered_def)

lemma strip_plain: "strip ''ab'' = ''ab''" "strip ''cd'' = ''cd''"
  by (simp_all add: strip_def lstrip_def rstrip_def is_space_def)

theorem special_entries_removed_witness:
  "apply_category [] ''filescan'' [(FCount (KStr ''ab'') 2, 3)]
     [EStr (replicate 40 CHR ''1'' @ ''ab''), EStr (replicate 40 CHR ''2'' @ ''ab''), EStr (replicate 40 CHR ''1'' @ ''cd'')] =
   Inr [EStr (replicate 40 CHR ''1'' @ ''cd'')]"
proof -
  let ?kf = "\<lambda>e. KStr (case e of EStr s \<Rightarrow> strip (drop 40 s) | EList l \<Rightarrow> [])"
  let ?es = "[EStr (replicate 40 CHR ''1'' @ ''ab''), EStr (replicate 40 CHR ''2'' @ ''ab''), EStr (replicate 40 CHR ''1'' @ ''cd'')]"
  have differ: "replicate 40 CHR ''1'' \<noteq> replicate 40 CHR ''2''" by (simp add: replicate_eq_replicate)
  show ?thesis
    using special_entries_removed [of "''filescan''" "[(FCount (KStr ''ab'') 2, 3)]" ?es "[]" ?kf] differ
    by (simp add: SPECIAL_PLUGINS_def special_key_def get_filescan_key_def strip_plain)
qed

section \<open>Thinning out\<close>

text \<open>
  An entry adds its runs only to the smaller counts that were met before it, so the thinned out filter depends on the
  order in which the dictionary is iterated over.
\<close>

lemma thinning_depends_on_order:
  "adjust_category 2 2 [(FCount k 1, 1), (FCount k 2, 1)] = Inr [(FCount k 1, 2)]"
  "adjust_category 2 2 [(FCount k 2, 1), (FCount k 1, 1)] = Inr []"
  by (simp_all add: adjust_category_def adjusted_def pick_def map_filter_def)

text \<open>A line of \<^verbatim>\<open>psxview\<close> with exactly seven fields behind the name passes the guard and is read past its end.\<close>

lemma psxview_seven_fields:
  assumes "words (strip (slice 19 42 entry)) \<noteq> []" and "length (words (drop 42 entry)) = 7"
  shows "get_psxview_key entry = Inl IndexError"
  using assms by (auto simp: get_psxview_key_def index_at_def Let_def)

end
