(* ===== verification/Scheduler.thy ===== *)
theory Scheduler
  imports Prelude
begin

text \<open>
  The scheduling of analyses, \<^verbatim>\<open>controller.py\<close>, \<^verbatim>\<open>analysis/__init__.py\<close> and \<^verbatim>\<open>analysis_scripts.py\<close> of the automation
  package: one scheduler process for each type of machine, which takes analyses from its queue and machines from
  another, and one process for each analysis, which works under the lock of its machine and gives the machine back.
  The processes run side by side; a turn of one of them is one access to what they share.
\<close>

section \<open>State\<close>

text \<open>
  An analysis as it is submitted: the class in its file, if there is one, and whether it has the attribute
  \<^verbatim>\<open>NAME\<close>; the machine and the type that the command names.
\<close>

record job =
  loaded :: "bool option"
  job_machine :: "string option"
  job_type :: "nat option"

text \<open>
  How an analysis came to its machine: from the queue, by the name of a configured machine, or with an object made for
  a virtual machine of that name.  A configured machine has one lock; a new object has a new one.
\<close>

datatype origin = FromQueue string | Named string | OwnVM string

fun lock_of :: "origin \<Rightarrow> string option" where
  "lock_of (FromQueue m) = Some m"
| "lock_of (Named m) = Some m"
| "lock_of (OwnVM m) = None"

fun from_queue :: "origin \<Rightarrow> string option" where
  "from_queue (FromQueue m) = Some m"
| "from_queue (Named m) = None"
| "from_queue (OwnVM m) = None"

text \<open>Where a process is in \<^verbatim>\<open>LophiAnalysis.run\<close>.\<close>

datatype stage = Spawned | Locked | Moving | Running | Left | Unlisted

record proc =
  p_origin :: origin
  p_stage :: stage

text \<open>Where a scheduler is in its loop.\<close>

datatype sched_pc = Checking "nat list" "nat list" | Dropping "nat list" | Fetching | Assigning job | Ended

text \<open>
  The class attribute \<^verbatim>\<open>analysis_id\<close>, the dictionary \<^verbatim>\<open>ANALYSIS_DICT\<close> and the local variable \<^verbatim>\<open>analysis\<close> of \<^verbatim>\<open>run\<close> exist
  once in each scheduler process.
\<close>

record scheduler =
  analysis_queue :: "job list"
  machine_queue :: "string list"
  next_id :: nat
  engines :: "nat list"
  current :: "nat option"
  pc :: sched_pc

text \<open>
  The lists \<^verbatim>\<open>ANALYSIS_QUEUED\<close> and \<^verbatim>\<open>ANALYSIS_RUNNING\<close> are shared by all schedulers.  An analysis process is identified by
  the type of its scheduler and its number there.  The field \<open>lost\<close> notes the machines that were taken from a queue by
  something that ended without giving them back.
\<close>

type_synonym pid = "nat \<times> nat"

record sys =
  schedulers :: "nat \<rightharpoonup> scheduler"
  queued :: "nat list"
  running :: "nat list"
  locks :: "string \<rightharpoonup> pid"
  procs :: "pid \<rightharpoonup> proc"
  lost :: "string list"

definition PHYSICAL :: nat where "PHYSICAL = 0"

section \<open>Start-up\<close>

definition new_scheduler :: scheduler where
  "new_scheduler = \<lparr>analysis_queue = [], machine_queue = [], next_id = 0, engines = [], current = None, pc = Checking [] []\<rparr>"

definition enqueue_machine :: "string \<times> nat \<Rightarrow> sys \<Rightarrow> sys" where
  "enqueue_machine mt s =
     (let c = (case schedulers s (snd mt) of None \<Rightarrow> new_scheduler | Some c \<Rightarrow> c) in
      s\<lparr>schedulers := (schedulers s)(snd mt \<mapsto> c\<lparr>machine_queue := machine_queue c @ [fst mt]\<rparr>)\<rparr>)"

definition empty_sys :: sys where
  "empty_sys = \<lparr>schedulers = Map.empty, queued = [], running = [], locks = Map.empty, procs = Map.empty, lost = []\<rparr>"

definition controller_init :: "(string \<times> nat) list \<Rightarrow> sys" where
  "controller_init machine_list = fold enqueue_machine machine_list empty_sys"

section \<open>The scheduler\<close>

text \<open>\<^verbatim>\<open>__del__\<close> of an engine terminates its process, wherever this is.\<close>

definition terminate_proc :: "pid \<Rightarrow> sys \<Rightarrow> sys" where
  "terminate_proc p s =
     (case procs s p of
        None \<Rightarrow> s
      | Some pr \<Rightarrow> s\<lparr>procs := (procs s)(p := None), lost := (case from_queue (p_origin pr) of Some m \<Rightarrow> m # lost s | None \<Rightarrow> lost s)\<rparr>)"

definition set_sched :: "nat \<Rightarrow> scheduler \<Rightarrow> sys \<Rightarrow> sys" where
  "set_sched t c s = s\<lparr>schedulers := (schedulers s)(t \<mapsto> c)\<rparr>"

text \<open>
  \<^verbatim>\<open>analysis.start\<close> with an object for the machine, and the end of the turn: calling \<^verbatim>\<open>None\<close> as a class raises, and so does
  the attribute \<^verbatim>\<open>NAME\<close> of a class that has none, after the analysis was started.
\<close>

definition launch :: "nat \<Rightarrow> scheduler \<Rightarrow> origin \<Rightarrow> job \<Rightarrow> sys \<Rightarrow> sys" where
  "launch t c orig j s =
     (case (loaded j, current c) of
        (Some has_NAME, Some i) \<Rightarrow>
          (let engines1 = engines c @ [i] in
           set_sched t (c\<lparr>engines := engines1, pc := (if has_NAME then Checking engines1 [] else Ended)\<rparr>)
             (s\<lparr>procs := (procs s)((t, i) \<mapsto> \<lparr>p_origin = orig, p_stage = Spawned\<rparr>)\<rparr>))
      | _ \<Rightarrow> set_sched t (c\<lparr>pc := Ended\<rparr>) (s\<lparr>lost := (case from_queue orig of Some m \<Rightarrow> m # lost s | None \<Rightarrow> lost s)\<rparr>))"

definition drop_previous :: "nat \<Rightarrow> scheduler \<Rightarrow> sys \<Rightarrow> sys" where
  "drop_previous t c s =
     (case current c of None \<Rightarrow> s | Some a \<Rightarrow> if a \<in> set (engines c) then s else terminate_proc (t, a) s)"

text \<open>
  One turn of \<^verbatim>\<open>LophiScheduler.run\<close>; \<open>None\<close> if it blocks on a queue or has ended.  An engine is destroyed with its last
  reference: when it is dropped from the dictionary, unless it is still the value of the local variable, or when this
  gets its next value.  The argument \<open>vm_known\<close> is whether a virtual machine of the named kind answers.
\<close>

definition sched_turn :: "string list \<Rightarrow> nat \<Rightarrow> bool \<Rightarrow> sys \<Rightarrow> sys option" where
  "sched_turn machine_list t vm_known s =
     (case schedulers s t of
        None \<Rightarrow> None
      | Some c \<Rightarrow>
          (case pc c of
             Checking [] rem \<Rightarrow> Some (set_sched t (c\<lparr>pc := Dropping rem\<rparr>) s)
           | Checking (a # todo) rem \<Rightarrow>
               Some (set_sched t (c\<lparr>pc := Checking todo (if a \<notin> set (queued s) \<and> a \<notin> set (running s) then rem @ [a] else rem)\<rparr>) s)
           | Dropping [] \<Rightarrow> Some (set_sched t (c\<lparr>pc := Fetching\<rparr>) s)
           | Dropping (a # rem) \<Rightarrow>
               Some ((if current c = Some a then id else terminate_proc (t, a))
                       (set_sched t (c\<lparr>engines := remove1 a (engines c), pc := Dropping rem\<rparr>) s))
           | Fetching \<Rightarrow>
               (case analysis_queue c of
                  [] \<Rightarrow> None
                | j # js \<Rightarrow>
                    Some (drop_previous t c
                      (set_sched t (c\<lparr>analysis_queue := js, next_id := next_id c + 1, current := Some (next_id c), pc := Assigning j\<rparr>)
                        (s\<lparr>queued := queued s @ [next_id c]\<rparr>))))
           | Assigning j \<Rightarrow>
               (case job_machine j of
                  None \<Rightarrow>
                    (case machine_queue c of
                       [] \<Rightarrow> None
                     | m # ms \<Rightarrow> Some (launch t (c\<lparr>machine_queue := ms\<rparr>) (FromQueue m) j s))
                | Some machine_name \<Rightarrow>
                    if machine_name \<in> set machine_list then Some (launch t c (Named machine_name) j s)
                    else if job_type j \<noteq> Some PHYSICAL \<and> vm_known then Some (launch t c (OwnVM machine_name) j s)
                    else Some (set_sched t (c\<lparr>pc := Ended\<rparr>) s))
           | Ended \<Rightarrow> None))"

section \<open>The analysis\<close>

definition release :: "origin \<Rightarrow> sys \<Rightarrow> sys" where
  "release orig s = (case lock_of orig of None \<Rightarrow> s | Some m \<Rightarrow> s\<lparr>locks := (locks s)(m := None)\<rparr>)"

definition give_back :: "nat \<Rightarrow> origin \<Rightarrow> sys \<Rightarrow> sys" where
  "give_back t orig s =
     (case (from_queue orig, schedulers s t) of
        (Some m, Some c) \<Rightarrow> set_sched t (c\<lparr>machine_queue := machine_queue c @ [m]\<rparr>) s
      | _ \<Rightarrow> s)"

definition set_stage :: "pid \<Rightarrow> proc \<Rightarrow> stage \<Rightarrow> sys \<Rightarrow> sys" where
  "set_stage p pr st s = s\<lparr>procs := (procs s)(p \<mapsto> pr\<lparr>p_stage := st\<rparr>)\<rparr>"

text \<open>
  One turn of \<^verbatim>\<open>LophiAnalysis.run\<close>; \<open>None\<close> if it waits for the lock of its machine.  The user-defined part is bracketed by an
  exception handler and may end at any time.  Removing a number that is not in a list raises, which ends the process.
\<close>

definition analysis_turn :: "pid \<Rightarrow> sys \<Rightarrow> sys option" where
  "analysis_turn p s =
     (case procs s p of
        None \<Rightarrow> None
      | Some pr \<Rightarrow>
          (case p_stage pr of
             Spawned \<Rightarrow>
               (case lock_of (p_origin pr) of
                  None \<Rightarrow> Some (set_stage p pr Locked s)
                | Some m \<Rightarrow> if locks s m = None then Some (set_stage p pr Locked (s\<lparr>locks := (locks s)(m \<mapsto> p)\<rparr>)) else None)
           | Locked \<Rightarrow>
               if snd p \<in> set (queued s) then Some (set_stage p pr Moving (s\<lparr>queued := remove1 (snd p) (queued s)\<rparr>))
               else Some (release (p_origin pr) (terminate_proc p s))
           | Moving \<Rightarrow> Some (set_stage p pr Running (s\<lparr>running := running s @ [snd p]\<rparr>))
           | Running \<Rightarrow> Some (set_stage p pr Left (release (p_origin pr) s))
           | Left \<Rightarrow>
               if snd p \<in> set (running s) then Some (set_stage p pr Unlisted (s\<lparr>running := remove1 (snd p) (running s)\<rparr>))
               else Some (terminate_proc p s)
           | Unlisted \<Rightarrow> Some (give_back (fst p) (p_origin pr) (s\<lparr>procs := (procs s)(p := None)\<rparr>))))"

section \<open>All processes together\<close>

text \<open>An analysis is submitted, a scheduler has a turn, or an analysis has one.\<close>

datatype action = Submit nat job | Sched nat bool | Analysis pid

definition queue_analysis :: "nat \<Rightarrow> job \<Rightarrow> sys \<Rightarrow> sys option" where
  "queue_analysis t j s =
     (case schedulers s t of
        None \<Rightarrow> None
      | Some c \<Rightarrow> Some (set_sched t (c\<lparr>analysis_queue := analysis_queue c @ [j]\<rparr>) s))"

fun turn :: "(string \<times> nat) list \<Rightarrow> action \<Rightarrow> sys \<Rightarrow> sys option" where
  "turn machine_list (Submit t j) s = queue_analysis t j s"
| "turn machine_list (Sched t vm_known) s = sched_turn (map fst machine_list) t vm_known s"
| "turn machine_list (Analysis p) s = analysis_turn p s"

inductive reachable :: "(string \<times> nat) list \<Rightarrow> sys \<Rightarrow> bool" for machine_list where
  initial: "reachable machine_list (controller_init machine_list)"
| further: "reachable machine_list s \<Longrightarrow> turn machine_list a s = Some s' \<Longrightarrow> reachable machine_list s'"

fun turns :: "(string \<times> nat) list \<Rightarrow> action list \<Rightarrow> sys \<Rightarrow> sys option" where
  "turns machine_list [] s = Some s"
| "turns machine_list (a # as) s = (case turn machine_list a s of None \<Rightarrow> None | Some s1 \<Rightarrow> turns machine_list as s1)"

lemma turns_reachable:
  "turns machine_list as s = Some s' \<Longrightarrow> reachable machine_list s \<Longrightarrow> reachable machine_list s'"
  by (induction machine_list as s rule: turns.induct) (auto split: option.splits intro: reachable.further)

end
