(* ===== verification/Automation.thy ===== *)
theory Automation
  imports Scheduler PyText
begin

text \<open>
  The commands of the automation package: messages with their length in front (\<^verbatim>\<open>lophi/globals.py\<close>), the commands that a
  controller takes from its socket (\<^verbatim>\<open>controller.py\<close>), and the choice of a controller by the master (\<^verbatim>\<open>master.py\<close>,
  \<^verbatim>\<open>configs/controllerconfig.py\<close>).
\<close>

section \<open>Messages\<close>

text \<open>
  A socket that sends takes some bytes at a time, at least one.  Of a socket that is read the bytes that are still to come are
  known, up to its closing, and how many of them each \<^verbatim>\<open>recv\<close> gives, at least one.
\<close>

function send_loop :: "nat list \<Rightarrow> bytes \<Rightarrow> bytes" where
  "send_loop ks data =
     (if data = [] then []
      else let k = min (length data) (max 1 (case ks of [] \<Rightarrow> length data | k # _ \<Rightarrow> k)) in
        take k data @ send_loop (tl ks) (drop k data))"
  by pat_completeness auto
termination
  by (relation "measure (\<lambda>(ks, data). length data)") (auto split: list.split)

declare send_loop.simps [simp del]

definition send_socket_data :: "nat list \<Rightarrow> bytes \<Rightarrow> bytes res" where
  "send_socket_data ks data =
     (if length data < 65536 then Inr (send_loop ks (le_bytes 2 (length data) @ data)) else Inl StructError)"

record chan =
  coming :: bytes
  cuts :: "nat list"

definition recv :: "nat \<Rightarrow> chan \<Rightarrow> bytes \<times> chan" where
  "recv n ch =
     (let k = min (min n (length (coming ch))) (max 1 (case cuts ch of [] \<Rightarrow> n | k # _ \<Rightarrow> k)) in
      (take k (coming ch), \<lparr>coming = drop k (coming ch), cuts = tl (cuts ch)\<rparr>))"

function read_loop :: "nat \<Rightarrow> bytes \<Rightarrow> chan \<Rightarrow> bytes option \<times> chan" where
  "read_loop n data ch =
     (if length data < n then
        (case recv (n - length data) ch of
           ([], ch1) \<Rightarrow> (None, ch1)
         | (b # bs, ch1) \<Rightarrow> read_loop n (data @ b # bs) ch1)
      else (Some data, ch))"
  by pat_completeness auto
termination
  by (relation "measure (\<lambda>(n, data, ch). n - length data)") auto

declare read_loop.simps [simp del]

definition read_socket_data :: "chan \<Rightarrow> bytes option res \<times> chan" where
  "read_socket_data ch =
     (case recv 2 ch of
        ([], ch1) \<Rightarrow> (Inr None, ch1)
      | (sz, ch1) \<Rightarrow>
          if length sz = 2 then (case read_loop (le_val sz) [] ch1 of (r, ch2) \<Rightarrow> (Inr r, ch2))
          else (Inl StructError, ch1))"

section \<open>The controller\<close>

record lophi_command =
  cmd :: string
  args :: "string list option"
  machine :: "string option"
  machine_type :: "int option"

datatype response = Success | Failure | InvalidCommand string | HelpText | MachineList | AnalysisList | NoSuchList

text \<open>The dictionary of the controller itself is another one than those of its schedulers.\<close>

record controller =
  ANALYSIS_DICT :: "nat list"
  system :: sys

definition CTRL_CMD_START :: string where "CTRL_CMD_START = ''start''"
definition CTRL_CMD_STOP :: string where "CTRL_CMD_STOP = ''stop''"
definition CTRL_CMD_PAUSE :: string where "CTRL_CMD_PAUSE = ''pause''"
definition CTRL_CMD_UNPAUSE :: string where "CTRL_CMD_UNPAUSE = ''resume''"
definition CTRL_CMD_LIST :: string where "CTRL_CMD_LIST = ''list''"
definition CTRL_CMD_PICKLE :: string where "CTRL_CMD_PICKLE = ''pickle''"

lemmas command_names = CTRL_CMD_START_def CTRL_CMD_STOP_def CTRL_CMD_PAUSE_def CTRL_CMD_UNPAUSE_def CTRL_CMD_LIST_def
  CTRL_CMD_PICKLE_def

definition LISTS :: "string list" where "LISTS = [''machines'', ''analysis'']"

text \<open>\<^verbatim>\<open>analysis_stop\<close>, \<^verbatim>\<open>analysis_pause\<close> and \<^verbatim>\<open>analysis_resume\<close>: whether the analysis was found.\<close>

definition analysis_op :: "controller \<Rightarrow> int \<Rightarrow> bool" where
  "analysis_op c aid \<longleftrightarrow> aid \<in> int ` set (ANALYSIS_DICT c)"

fun analysis_loop :: "controller \<Rightarrow> int res list \<Rightarrow> bool \<Rightarrow> bool res" where
  "analysis_loop c [] rtn = Inr rtn"
| "analysis_loop c (Inl e # aids) rtn = Inl e"
| "analysis_loop c (Inr aid # aids) rtn = analysis_loop c aids (rtn \<and> analysis_op c aid)"

definition command_analysis :: "lophi_command \<Rightarrow> controller \<Rightarrow> bool res" where
  "command_analysis command c =
     (let aids = (case args command of
                    None \<Rightarrow> map (\<lambda>i. Inr (int i)) (running (system c))
                  | Some as \<Rightarrow> if as = [] then map (\<lambda>i. Inr (int i)) (running (system c)) else map py_int as)
      in analysis_loop c aids True)"

text \<open>
  \<^verbatim>\<open>command_start\<close>: the received script is stored in a file, and the name of the file has no attribute \<^verbatim>\<open>MACHINE_TYPE\<close>.
  The argument \<open>load_script\<close> is what importing the file gives.
\<close>

definition command_start :: "(bytes option \<Rightarrow> bool option) \<Rightarrow> lophi_command \<Rightarrow> bytes option \<Rightarrow> controller \<Rightarrow> bool res \<times> controller" where
  "command_start load_script command script c =
     (case machine_type command of
        None \<Rightarrow> (Inl AttributeError, c)
      | Some t \<Rightarrow>
          if t < 0 then (Inl KeyError, c)
          else (case queue_analysis (nat t)
                  \<lparr>loaded = load_script script, job_machine = machine command, job_type = Some (nat t)\<rparr> (system c) of
             None \<Rightarrow> (Inl KeyError, c)
           | Some s \<Rightarrow> (Inr True, c\<lparr>system := s\<rparr>)))"

text \<open>
  \<^verbatim>\<open>command_list\<close> takes the command for a list: its length is that of its text, which is always greater than one, and it
  cannot be indexed.
\<close>

definition command_list :: "lophi_command \<Rightarrow> bool res" where
  "command_list command = Inl AttributeError"

definition command_pickle :: "lophi_command \<Rightarrow> (response list \<times> bool) res" where
  "command_pickle command =
     (case args command of
        None \<Rightarrow> Inl TypeError
      | Some [] \<Rightarrow> Inr ([NoSuchList], False)
      | Some (a # as) \<Rightarrow>
          if a \<notin> set LISTS then Inr ([NoSuchList], False)
          else if a = ''machines'' then Inr ([MachineList], True)
          else Inr ([AnalysisList], True))"

definition status :: "bool \<Rightarrow> response" where
  "status rtn = (if rtn then Success else Failure)"

text \<open>One command of \<^verbatim>\<open>proccess_input\<close>, with the script that follows it on the socket.\<close>

definition handle_command ::
  "(bytes option \<Rightarrow> bool option) \<Rightarrow> lophi_command \<times> bytes option \<Rightarrow> controller \<Rightarrow> response list res \<times> controller" where
  "handle_command load_script cs c =
     (let command = fst cs in
      if cmd command = ''help'' then (Inr [HelpText], c)
      else if cmd command = CTRL_CMD_START then
        (case command_start load_script command (snd cs) c of (r, c1) \<Rightarrow> (bindE r (\<lambda>rtn. Inr [status rtn]), c1))
      else if cmd command \<in> {CTRL_CMD_STOP, CTRL_CMD_PAUSE, CTRL_CMD_UNPAUSE} then
        (bindE (command_analysis command c) (\<lambda>rtn. Inr [status rtn]), c)
      else if cmd command = CTRL_CMD_LIST then (bindE (command_list command) (\<lambda>rtn. Inr [status rtn]), c)
      else if cmd command = CTRL_CMD_PICKLE then
        (bindE (command_pickle command) (\<lambda>(out, rtn). Inr (out @ [status rtn])), c)
      else (Inr [InvalidCommand (cmd command)], c))"

text \<open>The loop: the responses, the controller, and the exception that ended it, if one did.\<close>

fun proccess_input ::
  "(bytes option \<Rightarrow> bool option) \<Rightarrow> (lophi_command \<times> bytes option) list \<Rightarrow> controller \<Rightarrow> response list \<times> controller \<times> py_error option" where
  "proccess_input load_script [] c = ([], c, None)"
| "proccess_input load_script (cs # css) c =
     (case handle_command load_script cs c of
        (Inl e, c1) \<Rightarrow> ([], c1, Some e)
      | (Inr out, c1) \<Rightarrow> (case proccess_input load_script css c1 of (outs, r) \<Rightarrow> (out @ outs, r)))"

section \<open>The master\<close>

text \<open>What the master knows of a controller: its name and its machines with their types.\<close>

record controller_config =
  name :: string
  machines :: "(string \<times> int) list"

datatype master_answer = Refused string | Sent string

text \<open>
  \<^verbatim>\<open>LoPhiMaster.command_start\<close>, as far as it chooses the controller to which the file of the analysis and the command
  are sent; \<open>analysis_list\<close> has the file and the type of each analysis, and \<open>rand_idx\<close> is the random number.  A type that is
  \<^verbatim>\<open>None\<close> cannot be printed with \<^verbatim>\<open>%d\<close>.
\<close>

definition suitable :: "controller_config list \<Rightarrow> int option \<Rightarrow> controller_config list" where
  "suitable config_list t = concat (map (\<lambda>c. map (\<lambda>m. c) (filter (\<lambda>m. Some (snd m) = t) (machines c))) config_list)"

definition master_start ::
  "controller_config list \<Rightarrow> (string \<rightharpoonup> string \<times> int option) \<Rightarrow> (nat \<Rightarrow> nat) \<Rightarrow> string option \<Rightarrow> string option \<Rightarrow> lophi_command
     \<Rightarrow> master_answer res" where
  "master_start config_list analysis_list rand_idx analysis ctrl command =
     (case analysis of
        None \<Rightarrow> Inr (Refused ''ERROR: No analysis name provided.'')
      | Some a \<Rightarrow>
          (case analysis_list a of
             None \<Rightarrow> Inr (Refused ''ERROR: Analysis does not exist.'')
           | Some (analysis_file, class_type) \<Rightarrow>
               (case ctrl of
                  Some c \<Rightarrow> if c \<in> name ` set config_list then Inr (Sent c) else Inr (Refused ''ERROR: Controller does not exist.'')
                | None \<Rightarrow>
                    (let t = (if machine_type command \<noteq> None then machine_type command else class_type);
                         controllers = suitable config_list t
                     in if controllers = [] then
                          (if t = None then Inl TypeError else Inr (Refused ''No controllers found''))
                        else Inr (Sent (name (controllers ! rand_idx (length controllers))))))))"

text \<open>\<^verbatim>\<open>get_machines\<close>: how many free machines of the wanted profile and type each controller has.\<close>

record remote_machine =
  volatility_profile :: string
  r_type :: int
  ALLOCATED :: int

definition matching :: "(string \<times> int) option \<Rightarrow> remote_machine \<Rightarrow> bool" where
  "matching config m =
     (case config of None \<Rightarrow> True | Some (a_profile, a_type) \<Rightarrow> volatility_profile m = a_profile \<and> ALLOCATED m < 0 \<and> r_type m = a_type)"

definition get_machines :: "(string \<times> int) option \<Rightarrow> (string \<times> remote_machine list) list \<Rightarrow> (string \<times> nat) list option" where
  "get_machines config config_list =
     (let found = filter (\<lambda>(c, n). n > 0) (map (\<lambda>(c, ms). (c, length (filter (matching config) ms))) config_list)
      in if found = [] then None else Some found)"

end
