(* ===== verification/SchedulerProperties.thy ===== *)
theory SchedulerProperties
  imports Scheduler "HOL-Library.Multiset"
begin

text \<open>
  What the schedulers and the analyses guarantee however their turns interleave: no two analyses work on a configured
  machine at once, a machine is at one place at a time, and the lists of numbers never run out of step.  And what they
  do not: a machine can be lost, and a scheduler can end.
\<close>

section \<open>Cases of a turn\<close>

lemmas turn_defs = sched_turn_def analysis_turn_def queue_analysis_def launch_def drop_previous_def terminate_proc_def
  set_sched_def release_def give_back_def set_stage_def

lemmas turn_splits = option.splits list.splits sched_pc.splits if_splits

lemma init_shared [simp]:
  "queued (controller_init ms) = []" "running (controller_init ms) = []" "locks (controller_init ms) = Map.empty"
  "procs (controller_init ms) = Map.empty" "lost (controller_init ms) = []"
proof -
  have "queued (fold enqueue_machine ms s) = queued s \<and> running (fold enqueue_machine ms s) = running s \<and>
      locks (fold enqueue_machine ms s) = locks s \<and> procs (fold enqueue_machine ms s) = procs s \<and>
      lost (fold enqueue_machine ms s) = lost s" for s
    by (induction ms arbitrary: s) (simp_all add: enqueue_machine_def Let_def)
  then show "queued (controller_init ms) = []" "running (controller_init ms) = []" "locks (controller_init ms) = Map.empty"
    "procs (controller_init ms) = Map.empty" "lost (controller_init ms) = []"
    by (simp_all add: controller_init_def empty_sys_def)
qed

section \<open>Locks\<close>

definition critical :: "sys \<Rightarrow> pid \<Rightarrow> string \<Rightarrow> bool" where
  "critical s p m \<longleftrightarrow>
     (case procs s p of None \<Rightarrow> False | Some pr \<Rightarrow> lock_of (p_origin pr) = Some m \<and> p_stage pr \<in> {Locked, Moving, Running})"

lemma critical_terminate: "critical (terminate_proc p s) q m \<longleftrightarrow> q \<noteq> p \<and> critical s q m"
  by (auto simp: critical_def terminate_proc_def split: option.splits)

lemma locks_terminate [simp]: "locks (terminate_proc p s) = locks s"
  by (simp add: terminate_proc_def split: option.split)

lemma critical_set_sched [simp]: "critical (set_sched t c s) q m \<longleftrightarrow> critical s q m"
  by (simp add: critical_def set_sched_def)

lemma locks_set_sched [simp]: "locks (set_sched t c s) = locks s"
  by (simp add: set_sched_def)

lemma critical_drop: "critical (drop_previous t c s) q m \<Longrightarrow> critical s q m"
  by (auto simp: drop_previous_def critical_terminate split: option.splits if_splits)

lemma locks_drop [simp]: "locks (drop_previous t c s) = locks s"
  by (simp add: drop_previous_def split: option.split)

lemma critical_launch: "critical (launch t c orig j s) q m \<Longrightarrow> critical s q m"
  by (auto simp: launch_def critical_def set_sched_def Let_def split: option.splits if_splits)

lemma locks_launch [simp]: "locks (launch t c orig j s) = locks s"
  by (auto simp: launch_def Let_def split: option.split)

definition locks_held :: "sys \<Rightarrow> bool" where
  "locks_held s \<longleftrightarrow> (\<forall>p m. critical s p m \<longrightarrow> locks s m = Some p)"

lemma locks_heldD: "locks_held s \<Longrightarrow> critical s p m \<Longrightarrow> locks s m = Some p"
  unfolding locks_held_def by blast

lemma locks_held_sched:
  assumes "locks_held s" and "sched_turn ms t vm s = Some s'"
  shows "locks_held s'"
proof -
  have "locks s' = locks s \<and> (\<forall>q m. critical s' q m \<longrightarrow> critical s q m)"
    using assms(2) unfolding sched_turn_def
    by (auto split: turn_splits simp: critical_terminate dest!: critical_drop critical_launch) (simp_all add: critical_def)
  then show ?thesis using assms(1) by (auto simp: locks_held_def)
qed

lemma critical_set_stage:
  "critical (set_stage p pr st s) q m \<longleftrightarrow>
     (if q = p then lock_of (p_origin pr) = Some m \<and> st \<in> {Locked, Moving, Running} else critical s q m)"
  by (simp add: critical_def set_stage_def)

lemma critical_fields [simp]:
  "critical (s\<lparr>locks := l\<rparr>) q m \<longleftrightarrow> critical s q m" "critical (s\<lparr>queued := x\<rparr>) q m \<longleftrightarrow> critical s q m"
  "critical (s\<lparr>running := x\<rparr>) q m \<longleftrightarrow> critical s q m" "locks (set_stage p pr st s) = locks s"
  by (simp_all add: critical_def set_stage_def)

lemma critical_remove: "critical (s\<lparr>procs := (procs s)(p := None)\<rparr>) q m \<longleftrightarrow> q \<noteq> p \<and> critical s q m"
  by (simp add: critical_def)

lemma critical_release [simp]: "critical (release orig s) q m \<longleftrightarrow> critical s q m"
  by (simp add: release_def split: option.split)

lemma locks_release: "locks (release orig s) m = (if lock_of orig = Some m then None else locks s m)"
  by (auto simp: release_def split: option.split)

lemma give_back_shared [simp]:
  "critical (give_back t orig s) q m \<longleftrightarrow> critical s q m" "locks (give_back t orig s) = locks s"
  by (auto simp: give_back_def split: option.split)

lemma locks_held_analysis:
  assumes "locks_held s" and "analysis_turn p s = Some s'"
  shows "locks_held s'"
  unfolding locks_held_def
proof (intro allI impI)
  fix q m
  assume crit: "critical s' q m"
  obtain pr where pr: "procs s p = Some pr" using assms(2) by (auto simp: analysis_turn_def split: option.splits)
  have held: "locks s m' = Some p'" if "critical s p' m'" for p' m' using that assms(1) by (blast intro: locks_heldD)
  have own: "locks s m = Some p" if "lock_of (p_origin pr) = Some m" and "p_stage pr \<in> {Locked, Moving, Running}"
    using that by (intro held) (simp add: critical_def pr)
  show "locks s' m = Some q"
  proof (cases "p_stage pr")
    case Unlisted
    then show ?thesis
      using assms(2) crit held [of q m] by (auto simp: analysis_turn_def pr critical_remove)
  next
    case Spawned
    then show ?thesis
      using assms(2) crit held [of q m]
      by (auto simp: analysis_turn_def pr critical_set_stage split: option.splits if_splits)
  next
    case Locked
    then show ?thesis
      using assms(2) crit held [of q m] own
      by (cases "q = p") (auto simp: analysis_turn_def pr critical_set_stage critical_terminate locks_release split: if_splits)
  next
    case Moving
    then show ?thesis
      using assms(2) crit held [of q m] own
      by (cases "q = p") (auto simp: analysis_turn_def pr critical_set_stage split: if_splits)
  next
    case Running
    then show ?thesis
      using assms(2) crit held [of q m] own
      by (cases "q = p") (auto simp: analysis_turn_def pr critical_set_stage locks_release split: if_splits)
  next
    case Left
    then show ?thesis
      using assms(2) crit held [of q m]
      by (auto simp: analysis_turn_def pr critical_set_stage critical_terminate split: if_splits)
  qed
qed

lemma critical_submit: "queue_analysis t j s = Some s' \<Longrightarrow> locks s' = locks s \<and> critical s' q m = critical s q m"
  by (auto simp: queue_analysis_def split: option.splits)

lemma locks_held_reachable: "reachable ms s \<Longrightarrow> locks_held s"
proof (induction rule: reachable.induct)
  case initial
  show ?case by (simp add: locks_held_def critical_def)
next
  case (further s a s')
  then show ?case
  proof (cases a)
    case (Submit t j)
    then show ?thesis using further critical_submit [of t j s s'] by (simp add: locks_held_def)
  qed (auto intro: locks_held_sched locks_held_analysis)
qed

text \<open>
  C22. However the schedulers and the analyses take turns, no two analyses work on one configured machine at the same
  time, also if one got it from the queue and the other one named it.
\<close>

theorem no_two_analyses_at_once:
  assumes "reachable machine_list s" and "critical s p m"
  shows "{q. critical s q m} = {p}"
proof -
  have "q = p" if "critical s q m" for q
    using locks_heldD [OF locks_held_reachable [OF assms(1)] assms(2)] locks_heldD [OF locks_held_reachable [OF assms(1)] that] by simp
  then show ?thesis using assms(2) by blast
qed

section \<open>Numbers of analyses\<close>

text \<open>Between its creation and its start an analysis is the value of the local variable and has no process.\<close>

definition assigning :: "scheduler \<Rightarrow> bool" where
  "assigning c \<longleftrightarrow> (case pc c of Assigning j \<Rightarrow> True | _ \<Rightarrow> False)"

definition ids_ok :: "sys \<Rightarrow> bool" where
  "ids_ok s \<longleftrightarrow>
     (\<forall>t i pr. procs s (t, i) = Some pr \<longrightarrow>
        (\<exists>c. schedulers s t = Some c \<and> i < next_id c \<and> (assigning c \<longrightarrow> current c \<noteq> Some i))) \<and>
     (\<forall>t c. schedulers s t = Some c \<and> assigning c \<longrightarrow> (\<exists>i. current c = Some i \<and> i < next_id c))"

lemma terminate_shared [simp]:
  "schedulers (terminate_proc p s) = schedulers s" "queued (terminate_proc p s) = queued s"
  "running (terminate_proc p s) = running s" "procs (terminate_proc p s) = (procs s)(p := None)"
  by (auto simp: terminate_proc_def split: option.split)

lemma drop_shared [simp]:
  "schedulers (drop_previous t c s) = schedulers s" "queued (drop_previous t c s) = queued s"
  "running (drop_previous t c s) = running s"
  by (simp_all add: drop_previous_def split: option.split)

lemma drop_procs: "procs (drop_previous t c s) p = Some pr \<Longrightarrow> procs s p = Some pr"
  by (auto simp: drop_previous_def split: option.splits if_splits)

lemma set_sched_shared [simp]:
  "schedulers (set_sched t c s) = (schedulers s)(t \<mapsto> c)" "queued (set_sched t c s) = queued s"
  "running (set_sched t c s) = running s" "procs (set_sched t c s) = procs s" "lost (set_sched t c s) = lost s"
  by (simp_all add: set_sched_def)

lemma set_stage_shared [simp]:
  "schedulers (set_stage p pr st s) = schedulers s" "queued (set_stage p pr st s) = queued s"
  "running (set_stage p pr st s) = running s" "procs (set_stage p pr st s) = (procs s)(p \<mapsto> pr\<lparr>p_stage := st\<rparr>)"
  "lost (set_stage p pr st s) = lost s"
  by (simp_all add: set_stage_def)

lemma release_shared [simp]:
  "schedulers (release orig s) = schedulers s" "queued (release orig s) = queued s"
  "running (release orig s) = running s" "procs (release orig s) = procs s" "lost (release orig s) = lost s"
  by (simp_all add: release_def split: option.split)

lemma give_back_procs [simp]:
  "queued (give_back t orig s) = queued s" "running (give_back t orig s) = running s" "procs (give_back t orig s) = procs s"
  "lost (give_back t orig s) = lost s"
  by (auto simp: give_back_def split: option.split)

text \<open>The schedulers behind a turn of an analysis: only a queue of machines may be longer.\<close>

lemma analysis_schedulers:
  assumes "analysis_turn p s = Some s'"
  shows "schedulers s' t = (case schedulers s t of None \<Rightarrow> None | Some c \<Rightarrow>
     Some (c\<lparr>machine_queue := machine_queue c @ (case procs s p of Some pr \<Rightarrow>
       (if t = fst p \<and> p_stage pr = Unlisted then (case from_queue (p_origin pr) of Some m \<Rightarrow> [m] | None \<Rightarrow> []) else []) | None \<Rightarrow> [])\<rparr>))"
  using assms by (auto simp: analysis_turn_def give_back_def split: option.splits stage.splits if_splits)

lemma analysis_procs:
  assumes "analysis_turn p s = Some s'" and "procs s' q = Some pr'"
  shows "\<exists>pr. procs s q = Some pr \<and> p_origin pr' = p_origin pr"
  using assms by (auto simp: analysis_turn_def split: option.splits stage.splits if_splits)

lemma ids_ok_analysis:
  assumes "ids_ok s" and "analysis_turn p s = Some s'"
  shows "ids_ok s'"
proof -
  have old: "\<exists>c. schedulers s t = Some c \<and> next_id c' = next_id c \<and> pc c' = pc c \<and> current c' = current c"
    if "schedulers s' t = Some c'" for t c'
    using that by (auto simp: analysis_schedulers [OF assms(2)] split: option.splits)
  have new: "\<exists>c'. schedulers s' t = Some c' \<and> next_id c' = next_id c \<and> pc c' = pc c \<and> current c' = current c"
    if "schedulers s t = Some c" for t c
    using that by (auto simp: analysis_schedulers [OF assms(2)])
  show ?thesis
    unfolding ids_ok_def
  proof (intro conjI allI impI)
    fix t i pr assume "procs s' (t, i) = Some pr"
    then obtain pr0 where "procs s (t, i) = Some pr0" using analysis_procs [OF assms(2)] by blast
    then obtain c where "schedulers s t = Some c" "i < next_id c" "assigning c \<longrightarrow> current c \<noteq> Some i"
      using assms(1) unfolding ids_ok_def by blast
    then show "\<exists>c. schedulers s' t = Some c \<and> i < next_id c \<and> (assigning c \<longrightarrow> current c \<noteq> Some i)"
      using new [of t c] by (auto simp: assigning_def)
  next
    fix t c' assume "schedulers s' t = Some c' \<and> assigning c'"
    then show "\<exists>i. current c' = Some i \<and> i < next_id c'"
      using old [of t c'] assms(1) unfolding ids_ok_def by (auto simp: assigning_def)
  qed
qed

text \<open>The kinds of turns of a scheduler.\<close>

lemma sched_turn_cases [consumes 1, case_names ctl drop fetch launch]:
  assumes "sched_turn ms t vm s = Some s'"
  obtains
    c x where "schedulers s t = Some c" "s' = set_sched t (c\<lparr>pc := x\<rparr>) s" "\<not> assigning (c\<lparr>pc := x\<rparr>)"
  | c a rem where "schedulers s t = Some c" "pc c = Dropping (a # rem)"
      "s' = (if current c = Some a then id else terminate_proc (t, a))
              (set_sched t (c\<lparr>engines := remove1 a (engines c), pc := Dropping rem\<rparr>) s)"
  | c j js where "schedulers s t = Some c" "pc c = Fetching" "analysis_queue c = j # js"
      "s' = drop_previous t c
              (set_sched t (c\<lparr>analysis_queue := js, next_id := next_id c + 1, current := Some (next_id c), pc := Assigning j\<rparr>)
                (s\<lparr>queued := queued s @ [next_id c]\<rparr>))"
  | c j orig c1 where "schedulers s t = Some c" "pc c = Assigning j" "s' = launch t c1 orig j s"
      "c1 = c \<and> from_queue orig = None \<or> (\<exists>m ms. machine_queue c = m # ms \<and> c1 = c\<lparr>machine_queue := ms\<rparr> \<and> orig = FromQueue m)"
proof -
  obtain c where c: "schedulers s t = Some c" using assms by (auto simp: sched_turn_def split: option.splits)
  show thesis
  proof (cases "pc c")
    case (Checking todo rem)
    then show thesis using assms c that(1) [of c] by (cases todo) (auto simp: sched_turn_def assigning_def)
  next
    case (Dropping rem)
    then show thesis using assms c that(1) [of c] that(2) [of c] by (cases rem) (auto simp: sched_turn_def assigning_def)
  next
    case Fetching
    then show thesis using assms c that(3) [of c] by (cases "analysis_queue c") (auto simp: sched_turn_def)
  next
    case (Assigning j)
    show thesis
    proof (cases "job_machine j")
      case None
      then show thesis using assms c Assigning that(4) [of c j] by (cases "machine_queue c") (auto simp: sched_turn_def)
    next
      case (Some name)
      then show thesis
        using assms c Assigning that(1) [of c Ended] that(4) [of c j c "Named name"] that(4) [of c j c "OwnVM name"]
        by (auto simp: sched_turn_def assigning_def split: if_splits)
    qed
  next
    case Ended
    then show thesis using assms c by (simp add: sched_turn_def)
  qed
qed

text \<open>An analysis that is launched, or a scheduler that ends instead.\<close>

lemma launch_cases [consumes 1, case_names spawned ended]:
  assumes "s' = launch t c orig j s"
  obtains
    i es x where "current c = Some i" "s' = set_sched t (c\<lparr>engines := es, pc := x\<rparr>) (s\<lparr>procs := (procs s)((t, i) \<mapsto> \<lparr>p_origin = orig, p_stage = Spawned\<rparr>)\<rparr>)"
      "\<not> assigning (c\<lparr>pc := x\<rparr>)"
  | "s' = set_sched t (c\<lparr>pc := Ended\<rparr>) (s\<lparr>lost := (case from_queue orig of Some m \<Rightarrow> m # lost s | None \<Rightarrow> lost s)\<rparr>)"
  using assms by (auto simp: launch_def assigning_def Let_def split: option.splits if_splits)

lemma ids_ok_set_sched:
  assumes "ids_ok s" and "schedulers s t = Some c" and "next_id c \<le> next_id c'"
    and "\<not> assigning c' \<or> (current c' = Some (next_id c) \<and> next_id c < next_id c')"
  shows "ids_ok (set_sched t c' s)"
  using assms unfolding ids_ok_def by (fastforce split: if_splits)

lemma ids_ok_fewer:
  assumes "ids_ok s" and "schedulers s' = schedulers s" and "\<And>p pr. procs s' p = Some pr \<Longrightarrow> procs s p = Some pr"
  shows "ids_ok s'"
  using assms unfolding ids_ok_def by metis

lemma ids_ok_sched:
  assumes "ids_ok s" and "sched_turn ms t vm s = Some s'"
  shows "ids_ok s'"
  using assms(2)
proof (cases rule: sched_turn_cases)
  case (ctl c x)
  then show ?thesis using ids_ok_set_sched [OF assms(1), of t c "c\<lparr>pc := x\<rparr>"] by simp
next
  case (drop c a rem)
  have "ids_ok (set_sched t (c\<lparr>engines := remove1 a (engines c), pc := Dropping rem\<rparr>) s)"
    using ids_ok_set_sched [OF assms(1) drop(1), of "c\<lparr>engines := remove1 a (engines c), pc := Dropping rem\<rparr>"]
    by (simp add: assigning_def)
  then show ?thesis unfolding drop(3) by (rule ids_ok_fewer) (auto split: if_splits)
next
  case (fetch c j js)
  let ?c = "c\<lparr>analysis_queue := js, next_id := next_id c + 1, current := Some (next_id c), pc := Assigning j\<rparr>"
  have "ids_ok (s\<lparr>queued := queued s @ [next_id c]\<rparr>)" using assms(1) by (rule ids_ok_fewer) simp_all
  then have "ids_ok (set_sched t ?c (s\<lparr>queued := queued s @ [next_id c]\<rparr>))"
    by (rule ids_ok_set_sched [where c = c]) (simp_all add: fetch(1))
  then show ?thesis unfolding fetch(4) by (rule ids_ok_fewer) (auto dest: drop_procs)
next
  case (launch c j orig c1)
  have same: "next_id c1 = next_id c" "current c1 = current c" "\<And>x. assigning (c1\<lparr>pc := x\<rparr>) = assigning (c\<lparr>pc := x\<rparr>)"
    using launch(4) by (auto simp: assigning_def)
  from launch(3) show ?thesis
  proof (cases rule: launch_cases)
    case (spawned i es x)
    have "i < next_id c" using assms(1) launch(1,2) spawned(1) same unfolding ids_ok_def by (fastforce simp: assigning_def)
    then show ?thesis
      using assms(1) launch(1) spawned(3) same(1) unfolding spawned(2) ids_ok_def
      by (fastforce simp: assigning_def split: if_splits)
  next
    case ended
    have "ids_ok (set_sched t (c1\<lparr>pc := Ended\<rparr>) s)"
      using ids_ok_set_sched [OF assms(1) launch(1), of "c1\<lparr>pc := Ended\<rparr>"] same(1) by (simp add: assigning_def)
    then show ?thesis unfolding ended by (rule ids_ok_fewer) simp_all
  qed
qed

lemma init_scheduler:
  assumes "schedulers (controller_init ms) t = Some c"
  shows "pc c = Checking [] [] \<and> machine_queue c = map fst (filter (\<lambda>(m, t'). t' = t) ms)"
proof -
  have "pc c = Checking [] [] \<and>
      machine_queue c = (case schedulers s t of None \<Rightarrow> [] | Some c0 \<Rightarrow> machine_queue c0) @ map fst (filter (\<lambda>(m, t'). t' = t) xs)"
    if "schedulers (fold enqueue_machine xs s) t = Some c" "\<And>t c. schedulers s t = Some c \<Longrightarrow> pc c = Checking [] []" for xs s t c
    using that
  proof (induction xs arbitrary: s)
    case (Cons x xs)
    have "pc c = Checking [] []" if "schedulers (enqueue_machine x s) t = Some c" for t c
      using that Cons.prems(2) by (auto simp: enqueue_machine_def new_scheduler_def Let_def split: option.splits if_splits)
    with Cons.IH [of "enqueue_machine x s"] Cons.prems(1) show ?case
      by (cases x) (auto simp: enqueue_machine_def new_scheduler_def Let_def split: option.splits)
  qed simp
  from this [of ms empty_sys t c] assms show ?thesis by (simp add: controller_init_def) (simp add: empty_sys_def)
qed

lemma init_known: "schedulers (controller_init ms) t = None \<longleftrightarrow> t \<notin> snd ` set ms"
proof -
  have "schedulers (fold enqueue_machine xs s) t = None \<longleftrightarrow> schedulers s t = None \<and> t \<notin> snd ` set xs" for xs s
    by (induction xs arbitrary: s) (auto simp: enqueue_machine_def Let_def)
  then show ?thesis by (simp add: controller_init_def empty_sys_def)
qed

lemma ids_ok_reachable: "reachable ms s \<Longrightarrow> ids_ok s"
proof (induction rule: reachable.induct)
  case initial
  then show ?case using init_scheduler [of ms] by (fastforce simp: ids_ok_def assigning_def)
next
  case (further s a s')
  then show ?case
  proof (cases a)
    case (Submit t j)
    then obtain c where c: "schedulers s t = Some c" "s' = set_sched t (c\<lparr>analysis_queue := analysis_queue c @ [j]\<rparr>) s"
      using further by (auto simp: queue_analysis_def split: option.splits)
    then show ?thesis using further unfolding ids_ok_def by (fastforce simp: assigning_def split: if_splits)
  qed (auto intro: ids_ok_sched ids_ok_analysis)
qed

section \<open>Where the machines are\<close>

datatype place = InQueue nat | With pid | Lost

definition located :: "sys \<Rightarrow> string \<Rightarrow> place \<Rightarrow> bool" where
  "located s m pl \<longleftrightarrow>
     (case pl of
        InQueue t \<Rightarrow> (case schedulers s t of None \<Rightarrow> False | Some c \<Rightarrow> m \<in> set (machine_queue c))
      | With p \<Rightarrow> (case procs s p of None \<Rightarrow> False | Some pr \<Rightarrow> from_queue (p_origin pr) = Some m)
      | Lost \<Rightarrow> m \<in> set (lost s))"

lemma located_simps [simp]:
  "located s m (InQueue t) \<longleftrightarrow> (case schedulers s t of None \<Rightarrow> False | Some c \<Rightarrow> m \<in> set (machine_queue c))"
  "located s m (With p) \<longleftrightarrow> (case procs s p of None \<Rightarrow> False | Some pr \<Rightarrow> from_queue (p_origin pr) = Some m)"
  "located s m Lost \<longleftrightarrow> m \<in> set (lost s)"
  by (simp_all add: located_def)

text \<open>
  Each machine is at one place, no queue has one twice, and a machine that is in a queue or with an analysis belongs to
  the type of the scheduler there.
\<close>

definition placed :: "(string \<times> nat) list \<Rightarrow> sys \<Rightarrow> bool" where
  "placed ms s \<longleftrightarrow> (\<forall>m \<in> set (map fst ms). \<exists>a. \<forall>pl. located s m pl \<longleftrightarrow> pl = a) \<and>
     (\<forall>t c. schedulers s t = Some c \<longrightarrow> distinct (machine_queue c) \<and> set (machine_queue c) \<subseteq> fst ` set ms) \<and>
     (\<forall>p pr m. procs s p = Some pr \<and> from_queue (p_origin pr) = Some m \<longrightarrow> m \<in> fst ` set ms)"

lemma placed_with:
  assumes "placed ms s" and "located s m (With p)"
  shows "m \<in> fst ` set ms"
proof -
  obtain pr where "procs s p = Some pr" "from_queue (p_origin pr) = Some m" using assms(2) by (auto split: option.splits)
  then show ?thesis using assms(1) unfolding placed_def by blast
qed

text \<open>A turn that moves one machine, and leaves the others where they are.\<close>

lemma placed_unchanged:
  assumes "placed ms s" and "\<And>m pl. located s' m pl = located s m pl"
    and "\<And>t c'. schedulers s' t = Some c' \<Longrightarrow> \<exists>c. schedulers s t = Some c \<and> machine_queue c' = machine_queue c"
  shows "placed ms s'"
proof -
  have "m \<in> fst ` set ms" if "procs s' p = Some pr" "from_queue (p_origin pr) = Some m" for p pr m
  proof -
    have "located s m (With p)" using that assms(2) [of m "With p"] by simp
    then show ?thesis by (rule placed_with [OF assms(1)])
  qed
  then show ?thesis using assms unfolding placed_def by metis
qed

lemma placed_moved:
  assumes "placed ms s" and "located s x a" and "x \<in> fst ` set ms"
    and "\<And>m pl. located s' m pl = (if m = x then pl = b else located s m pl)"
    and "\<And>t c'. schedulers s' t = Some c' \<Longrightarrow> distinct (machine_queue c') \<and> set (machine_queue c') \<subseteq> fst ` set ms"
  shows "placed ms s'"
proof -
  have "m \<in> fst ` set ms" if "procs s' p = Some pr" "from_queue (p_origin pr) = Some m" for p pr m
  proof -
    have "located s' m (With p)" using that by simp
    then have "m = x \<or> located s m (With p)" using assms(4) [of m "With p"] by (simp split: if_splits)
    then show ?thesis using placed_with [OF assms(1)] assms(3) by blast
  qed
  moreover have "\<exists>c. \<forall>pl. located s' m pl \<longleftrightarrow> pl = c" if "m \<in> set (map fst ms)" for m
    using assms(1) that unfolding assms(4) placed_def by (cases "m = x") auto
  ultimately show ?thesis using assms(5) unfolding placed_def by blast
qed

text \<open>What is at a place is at no other.\<close>

lemma placed_once: "placed ms s \<Longrightarrow> located s m a \<Longrightarrow> m \<in> fst ` set ms \<Longrightarrow> located s m b \<longleftrightarrow> b = a"
  unfolding placed_def by (metis list.set_map)

lemma placed_terminate:
  assumes "placed ms s"
  shows "placed ms (terminate_proc p s)"
proof (cases "\<exists>pr m. procs s p = Some pr \<and> from_queue (p_origin pr) = Some m")
  case True
  then obtain pr m where pr: "procs s p = Some pr" "from_queue (p_origin pr) = Some m" by blast
  have m: "m \<in> fst ` set ms" using assms pr unfolding placed_def by blast
  have at: "located s m (With p)" using pr by simp
  show ?thesis
  proof (rule placed_moved [OF assms at m, where b = Lost])
    fix m' pl
    show "located (terminate_proc p s) m' pl = (if m' = m then pl = Lost else located s m' pl)"
      using placed_once [OF assms at m, of pl] placed_once [OF assms at m, of Lost] pr
      by (cases pl) (auto simp: terminate_proc_def)
  qed (use assms in \<open>auto simp: placed_def\<close>)
next
  case False
  show ?thesis
  proof (rule placed_unchanged [OF assms])
    fix m pl
    show "located (terminate_proc p s) m pl = located s m pl"
      using False by (cases pl) (auto simp: terminate_proc_def split: option.split)
  qed simp
qed

lemma assigning_free:
  assumes "ids_ok s" and "schedulers s t = Some c" and "pc c = Assigning j" and "current c = Some i"
  shows "procs s (t, i) = None"
proof (rule ccontr)
  assume "procs s (t, i) \<noteq> None"
  then obtain pr where "procs s (t, i) = Some pr" by blast
  then show False using assms unfolding ids_ok_def by (fastforce simp: assigning_def)
qed

text \<open>An analysis is launched on a machine that it named, or on the next machine of the queue.\<close>

lemma placed_launch_named:
  assumes "placed ms s" and "ids_ok s" and "schedulers s t = Some c" and "pc c = Assigning j" and "from_queue orig = None"
  shows "placed ms (launch t c orig j s)"
proof -
  obtain s' where s': "s' = launch t c orig j s" by blast
  then have "located s' m pl = located s m pl" for m pl
  proof (cases rule: launch_cases)
    case (spawned i es x)
    then show ?thesis using assms(3,5) assigning_free [OF assms(2-4), of i] by (cases pl) auto
  next
    case ended
    then show ?thesis using assms(3,5) by (cases pl) auto
  qed
  moreover from s' have "\<exists>c. schedulers s t' = Some c \<and> machine_queue c' = machine_queue c"
    if "schedulers s' t' = Some c'" for t' c'
    by (cases rule: launch_cases) (use that assms(3) in \<open>auto split: if_splits\<close>)
  ultimately show ?thesis using placed_unchanged [OF assms(1), of s'] s' by blast
qed

lemma placed_launch_next:
  assumes "placed ms s" and "ids_ok s" and c: "schedulers s t = Some c" "pc c = Assigning j" and q: "machine_queue c = m # rest"
  shows "placed ms (launch t (c\<lparr>machine_queue := rest\<rparr>) (FromQueue m) j s)"
proof -
  obtain s' where s': "s' = launch t (c\<lparr>machine_queue := rest\<rparr>) (FromQueue m) j s" by blast
  have at: "located s m (InQueue t)" using c(1) q by simp
  have "distinct (m # rest) \<and> set (m # rest) \<subseteq> fst ` set ms" using assms(1) c(1) unfolding placed_def q [symmetric] by blast
  then have m: "m \<in> fst ` set ms" and d: "m \<notin> set rest" by simp_all
  have queues: "distinct (machine_queue c') \<and> set (machine_queue c') \<subseteq> fst ` set ms" if "schedulers s' t' = Some c'" for t' c'
  proof -
    have "\<exists>c0. schedulers s t' = Some c0 \<and> (machine_queue c' = machine_queue c0 \<or> machine_queue c0 = m # machine_queue c')"
      using s' by (cases rule: launch_cases) (use that c(1) q in \<open>auto split: if_splits\<close>)
    then obtain c0 where "schedulers s t' = Some c0" "machine_queue c' = machine_queue c0 \<or> machine_queue c0 = m # machine_queue c'" by blast
    moreover from this(1) have "distinct (machine_queue c0) \<and> set (machine_queue c0) \<subseteq> fst ` set ms"
      using assms(1) unfolding placed_def by blast
    ultimately show ?thesis by auto
  qed
  note once = placed_once [OF assms(1) at m]
  from s' have "\<exists>b. \<forall>m' pl. located s' m' pl = (if m' = m then pl = b else located s m' pl)"
  proof (cases rule: launch_cases)
    case (spawned i es x)
    have free: "procs s (t, i) = None" using assigning_free [OF assms(2) c] spawned(1) by simp
    have "located s' m' pl = (if m' = m then pl = With (t, i) else located s m' pl)" for m' pl
      using once [of pl] d q c(1) free unfolding spawned(2) by (cases pl) auto
    then show ?thesis by blast
  next
    case ended
    have "located s' m' pl = (if m' = m then pl = Lost else located s m' pl)" for m' pl
      using once [of pl] d q c(1) unfolding ended by (cases pl) auto
    then show ?thesis by blast
  qed
  then show ?thesis using placed_moved [OF assms(1) at m, of s'] queues s' by blast
qed

lemma placed_sched:
  assumes "placed ms s" and "ids_ok s" and "sched_turn names t vm s = Some s'"
  shows "placed ms s'"
  using assms(3)
proof (cases rule: sched_turn_cases)
  case (ctl c x)
  show ?thesis
  proof (rule placed_unchanged [OF assms(1)])
    fix m pl
    show "located s' m pl = located s m pl" using ctl by (cases pl) auto
  qed (use ctl in \<open>auto split: if_splits\<close>)
next
  case (drop c a rem)
  let ?s = "set_sched t (c\<lparr>engines := remove1 a (engines c), pc := Dropping rem\<rparr>) s"
  have "placed ms ?s"
  proof (rule placed_unchanged [OF assms(1)])
    fix m pl
    show "located ?s m pl = located s m pl" using drop(1) by (cases pl) auto
  qed (use drop(1) in \<open>auto split: if_splits\<close>)
  then show ?thesis unfolding drop(3) by (simp add: placed_terminate)
next
  case (fetch c j js)
  let ?s = "set_sched t (c\<lparr>analysis_queue := js, next_id := next_id c + 1, current := Some (next_id c), pc := Assigning j\<rparr>)
    (s\<lparr>queued := queued s @ [next_id c]\<rparr>)"
  have "placed ms ?s"
  proof (rule placed_unchanged [OF assms(1)])
    fix m pl
    show "located ?s m pl = located s m pl" using fetch(1) by (cases pl) auto
  qed (use fetch(1) in \<open>auto split: if_splits\<close>)
  then show ?thesis unfolding fetch(4) by (simp add: drop_previous_def placed_terminate split: option.split)
next
  case (launch c j orig c1)
  show ?thesis
    unfolding launch(3)
    using launch(4) placed_launch_named [OF assms(1,2) launch(1,2)] placed_launch_next [OF assms(1,2) launch(1,2)] by auto
qed

lemma placed_analysis:
  assumes "placed ms s" and "ids_ok s" and "analysis_turn p s = Some s'"
  shows "placed ms s'"
proof -
  obtain pr where pr: "procs s p = Some pr" using assms(3) by (auto simp: analysis_turn_def split: option.splits)
  have stay: "placed ms s'" if "schedulers s' = schedulers s" "lost s' = lost s" "procs s' = (procs s)(p \<mapsto> pr\<lparr>p_stage := st\<rparr>)" for st
  proof (rule placed_unchanged [OF assms(1)])
    fix m pl
    show "located s' m pl = located s m pl" using that pr by (cases pl) auto
  qed (simp add: that(1))
  show ?thesis
  proof (cases "p_stage pr = Unlisted")
    case False
    then have "(\<exists>st. schedulers s' = schedulers s \<and> lost s' = lost s \<and> procs s' = (procs s)(p \<mapsto> pr\<lparr>p_stage := st\<rparr>)) \<or>
        s' = terminate_proc p s \<or> s' = release (p_origin pr) (terminate_proc p s)"
      using assms(3) pr by (auto simp: analysis_turn_def split: stage.splits option.splits if_splits; blast)
    moreover have "placed ms (release (p_origin pr) (terminate_proc p s))"
      by (rule placed_unchanged [OF placed_terminate [OF assms(1), of p]])
        (simp_all add: located_def del: located_simps split: place.split)
    ultimately show ?thesis using stay placed_terminate [OF assms(1), of p] by blast
  next
    case True
    then have s': "s' = give_back (fst p) (p_origin pr) (s\<lparr>procs := (procs s)(p := None)\<rparr>)"
      using assms(3) pr by (simp add: analysis_turn_def)
    show ?thesis
    proof (cases "from_queue (p_origin pr)")
      case None
      show ?thesis
      proof (rule placed_unchanged [OF assms(1)])
        fix m pl
        show "located s' m pl = located s m pl" using None pr unfolding s' by (cases pl) (auto simp: give_back_def)
      qed (simp add: s' None give_back_def)
    next
      case (Some m)
      have at: "located s m (With p)" using pr Some by simp
      have m: "m \<in> fst ` set ms" using placed_with [OF assms(1) at] .
      obtain c where c: "schedulers s (fst p) = Some c"
        using assms(2) pr unfolding ids_ok_def by (metis prod.collapse)
      have new: "m \<notin> set (machine_queue c)" using placed_once [OF assms(1) at m, of "InQueue (fst p)"] c by simp
      have old: "distinct (machine_queue c0) \<and> set (machine_queue c0) \<subseteq> fst ` set ms" if "schedulers s t = Some c0" for t c0
        using assms(1) that unfolding placed_def by blast
      have queues: "distinct (machine_queue c') \<and> set (machine_queue c') \<subseteq> fst ` set ms" if "schedulers s' t' = Some c'" for t' c'
      proof (cases "t' = fst p")
        case True
        with that c Some have "c' = c\<lparr>machine_queue := machine_queue c @ [m]\<rparr>" by (simp add: s' give_back_def)
        then show ?thesis using new m old [OF c] by simp
      next
        case False
        with that c Some show ?thesis by (intro old [of t']) (simp add: s' give_back_def)
      qed
      have "located s' m' pl = (if m' = m then pl = InQueue (fst p) else located s m' pl)" for m' pl
        using placed_once [OF assms(1) at m, of pl] pr Some c unfolding s' by (cases pl) (auto simp: give_back_def)
      then show ?thesis using placed_moved [OF assms(1) at m, of s'] queues by blast
    qed
  qed
qed

lemma placed_reachable:
  assumes "distinct (map fst ms)" and "reachable ms s"
  shows "placed ms s"
  using assms(2)
proof (induction rule: reachable.induct)
  case initial
  let ?s = "controller_init ms"
  have queue: "located ?s m (InQueue t) \<longleftrightarrow> (m, t) \<in> set ms" for m t
  proof (cases "schedulers ?s t")
    case None
    then show ?thesis using init_known [of ms t] by force
  next
    case (Some c)
    then show ?thesis using init_scheduler [OF Some] by (auto simp: image_iff)
  qed
  have "\<exists>a. \<forall>pl. located ?s m pl \<longleftrightarrow> pl = a" if "m \<in> set (map fst ms)" for m
  proof -
    from that obtain t where t: "(m, t) \<in> set ms" by auto
    then have "(m, t') \<in> set ms \<longleftrightarrow> t' = t" for t' using assms(1) by (auto dest: eq_key_imp_eq_value)
    then have "located ?s m pl \<longleftrightarrow> pl = InQueue t" for pl using queue [of m] by (cases pl) (simp_all del: located_simps(1))
    then show ?thesis by blast
  qed
  moreover have "distinct (machine_queue c) \<and> set (machine_queue c) \<subseteq> fst ` set ms" if "schedulers ?s t = Some c" for t c
    using init_scheduler [OF that] assms(1) by (auto simp: distinct_map inj_on_def)
  ultimately show ?case unfolding placed_def by simp
next
  case (further s a s')
  then show ?case
  proof (cases a)
    case (Submit t j)
    then obtain c where c: "schedulers s t = Some c" "s' = set_sched t (c\<lparr>analysis_queue := analysis_queue c @ [j]\<rparr>) s"
      using further by (auto simp: queue_analysis_def split: option.splits)
    show ?thesis
    proof (rule placed_unchanged [OF further.IH])
      fix m pl
      show "located s' m pl = located s m pl" using c by (cases pl) auto
    qed (use c in \<open>auto split: if_splits\<close>)
  next
    case (Sched t vm)
    then show ?thesis using further placed_sched ids_ok_reachable by auto
  next
    case (Analysis p)
    then show ?thesis using further placed_analysis ids_ok_reachable by auto
  qed
qed

text \<open>
  C23. Machines are never handed out twice: at any time each configured machine is in exactly one place, once in a queue
  or with one analysis that took it from there, or it was lost by an analysis or a scheduler that ended.
\<close>

theorem machine_at_one_place:
  assumes "distinct (map fst machine_list)" and "reachable machine_list s" and "m \<in> fst ` set machine_list"
  shows "(\<exists>!pl. located s m pl) \<and> (\<forall>t c. schedulers s t = Some c \<longrightarrow> distinct (machine_queue c))"
  using placed_reachable [OF assms(1,2)] assms(3) unfolding placed_def by (metis list.set_map)

section \<open>The lists of numbers\<close>

text \<open>
  The schedulers number their analyses independently, so a number may be in a list several times.  The types whose
  analysis with a given number is still to be moved to the running ones, and those whose analysis is to be removed there.
\<close>

definition waiting :: "sys \<Rightarrow> nat \<Rightarrow> nat set" where
  "waiting s i = {t. (\<exists>pr. procs s (t, i) = Some pr \<and> p_stage pr \<in> {Spawned, Locked}) \<or>
     (\<exists>c. schedulers s t = Some c \<and> assigning c \<and> current c = Some i)}"

definition working :: "sys \<Rightarrow> nat \<Rightarrow> nat set" where
  "working s i = {t. \<exists>pr. procs s (t, i) = Some pr \<and> p_stage pr \<in> {Running, Left}}"

definition bounded :: "'a set \<Rightarrow> nat \<Rightarrow> bool" where
  "bounded A n \<longleftrightarrow> finite A \<and> card A \<le> n"

lemma bounded_subset: "bounded A n \<Longrightarrow> B \<subseteq> A \<Longrightarrow> bounded B n"
  unfolding bounded_def by (meson card_mono finite_subset le_trans)

lemma bounded_insert: "bounded A n \<Longrightarrow> B \<subseteq> insert x A \<Longrightarrow> bounded B (Suc n)"
  by (rule bounded_subset [of "insert x A"]) (auto simp: bounded_def card_insert_if)

lemma bounded_remove: "bounded A n \<Longrightarrow> x \<in> A \<Longrightarrow> B \<subseteq> A - {x} \<Longrightarrow> bounded B (n - 1)"
  by (rule bounded_subset [of "A - {x}"]) (auto simp: bounded_def)

lemma bounded_member: "bounded A n \<Longrightarrow> x \<in> A \<Longrightarrow> 0 < n"
  unfolding bounded_def using card_gt_0_iff by fastforce

lemma count_list_remove1: "count_list (remove1 x xs) y = (if x = y then count_list xs y - 1 else count_list xs y)"
  by (induction xs) (auto simp: count_list_0_iff)

lemma bounded_append:
  assumes "bounded (W j) (count_list xs j)" and "W' j \<subseteq> (if j = i then insert t (W j) else W j)"
  shows "bounded (W' j) (count_list (xs @ [i]) j)"
  using assms bounded_insert [of "W j" _ "W' j" t] bounded_subset [of "W j" _ "W' j"] by (auto split: if_splits)

lemma bounded_remove1:
  assumes "bounded (W j) (count_list xs j)" and "t \<in> W i" and "W' j \<subseteq> (if j = i then W j - {t} else W j)"
  shows "bounded (W' j) (count_list (remove1 i xs) j)"
  using assms bounded_remove [of "W j" _ t "W' j"] bounded_subset [of "W j" _ "W' j"]
  by (auto simp: count_list_remove1 split: if_splits)

definition counted :: "sys \<Rightarrow> bool" where
  "counted s \<longleftrightarrow> (\<forall>i. bounded (waiting s i) (count_list (queued s) i) \<and> bounded (working s i) (count_list (running s) i))"

lemma counted_fewer:
  assumes "counted s" and "queued s' = queued s" and "running s' = running s"
    and "\<And>i. waiting s' i \<subseteq> waiting s i" and "\<And>i. working s' i \<subseteq> working s i"
  shows "counted s'"
  using assms unfolding counted_def by (metis bounded_subset)

lemma counted_sched:
  assumes "counted s" and "ids_ok s" and "sched_turn names t vm s = Some s'"
  shows "counted s'"
  using assms(3)
proof (cases rule: sched_turn_cases)
  case (ctl c x)
  show ?thesis
    by (rule counted_fewer [OF assms(1)]) (use ctl in \<open>auto simp: waiting_def working_def split: if_splits\<close>)
next
  case (drop c a rem)
  show ?thesis
    by (rule counted_fewer [OF assms(1)])
      (use drop in \<open>auto simp: waiting_def working_def assigning_def split: if_splits\<close>)
next
  case (fetch c j js)
  have "bounded (waiting s' i) (count_list (queued s @ [next_id c]) i)" for i
    using assms(1) fetch
    by (intro bounded_append [of "waiting s" _ _ "waiting s'" _ t]) (auto simp: counted_def waiting_def split: if_splits dest: drop_procs)
  moreover have "bounded (working s' i) (count_list (running s) i)" for i
    by (rule bounded_subset [of "working s i"]) (use assms(1) fetch(4) in \<open>auto simp: counted_def working_def dest: drop_procs\<close>)
  ultimately show ?thesis by (simp add: counted_def fetch(4))
next
  case (launch c j orig c1)
  have same: "current c1 = current c" using launch(4) by auto
  from launch(3) show ?thesis
  proof (cases rule: launch_cases)
    case (spawned i es x)
    show ?thesis
      by (rule counted_fewer [OF assms(1)])
        (use spawned launch(1,2) same in \<open>auto simp: waiting_def working_def assigning_def split: if_splits\<close>)
  next
    case ended
    show ?thesis
      by (rule counted_fewer [OF assms(1)])
        (use ended launch(1) in \<open>auto simp: waiting_def working_def assigning_def split: if_splits\<close>)
  qed
qed

lemma counted_analysis:
  assumes "counted s" and "ids_ok s" and "analysis_turn p s = Some s'"
  shows "counted s'"
proof -
  obtain t i where p: "p = (t, i)" by (cases p)
  obtain pr where pr: "procs s p = Some pr" using assms(3) by (auto simp: analysis_turn_def split: option.splits)
  have own: "\<not> (\<exists>c. schedulers s t = Some c \<and> assigning c \<and> current c = Some i)"
    using assms(2) pr unfolding p ids_ok_def by fastforce
  have w: "bounded (waiting s j) (count_list (queued s) j)" "bounded (working s j) (count_list (running s) j)" for j
    using assms(1) by (simp_all add: counted_def)
  have terminated: "counted (terminate_proc p s)" "counted (release (p_origin pr) (terminate_proc p s))"
    by (rule counted_fewer [OF assms(1)], auto simp: waiting_def working_def split: if_splits)+
  show ?thesis
  proof (cases "p_stage pr")
    case Spawned
    then have s': "queued s' = queued s" "running s' = running s" "schedulers s' = schedulers s"
      "procs s' = (procs s)(p \<mapsto> pr\<lparr>p_stage := Locked\<rparr>)"
      using assms(3) pr by (auto simp: analysis_turn_def split: option.splits if_splits)
    show ?thesis
      by (rule counted_fewer [OF assms(1)]) (use s' pr Spawned in \<open>auto simp: waiting_def working_def p split: if_splits\<close>)
  next
    case Locked
    have mem: "t \<in> waiting s i" using pr Locked by (auto simp: waiting_def p)
    with bounded_member [OF w(1)] have "i \<in> set (queued s)" by (metis count_notin less_irrefl)
    then have s': "queued s' = remove1 i (queued s)" "running s' = running s" "schedulers s' = schedulers s"
      "procs s' = (procs s)(p \<mapsto> pr\<lparr>p_stage := Moving\<rparr>)"
      using assms(3) pr Locked by (auto simp: analysis_turn_def p)
    have "bounded (waiting s' j) (count_list (queued s') j)" for j
      unfolding s'(1) by (rule bounded_remove1 [where W = "waiting s", OF w(1) mem]) (use s' own in \<open>auto simp: waiting_def p split: if_splits\<close>)
    moreover have "bounded (working s' j) (count_list (running s') j)" for j
      unfolding s'(2) by (rule bounded_subset [OF w(2)]) (use s' in \<open>auto simp: working_def p split: if_splits\<close>)
    ultimately show ?thesis by (simp add: counted_def)
  next
    case Moving
    then have s': "queued s' = queued s" "running s' = running s @ [i]" "schedulers s' = schedulers s"
      "procs s' = (procs s)(p \<mapsto> pr\<lparr>p_stage := Running\<rparr>)"
      using assms(3) pr by (auto simp: analysis_turn_def p)
    have "bounded (waiting s' j) (count_list (queued s') j)" for j
      unfolding s'(1) by (rule bounded_subset [OF w(1)]) (use s' in \<open>auto simp: waiting_def p split: if_splits\<close>)
    moreover have "bounded (working s' j) (count_list (running s') j)" for j
      unfolding s'(2) by (rule bounded_append [where W = "working s" and t = t, OF w(2)]) (use s' in \<open>auto simp: working_def p split: if_splits\<close>)
    ultimately show ?thesis by (simp add: counted_def)
  next
    case Running
    then have s': "queued s' = queued s" "running s' = running s" "schedulers s' = schedulers s"
      "procs s' = (procs s)(p \<mapsto> pr\<lparr>p_stage := Left\<rparr>)"
      using assms(3) pr by (auto simp: analysis_turn_def p)
    show ?thesis
      by (rule counted_fewer [OF assms(1)]) (use s' pr Running in \<open>auto simp: waiting_def working_def p split: if_splits\<close>)
  next
    case Left
    have mem: "t \<in> working s i" using pr Left by (auto simp: working_def p)
    with bounded_member [OF w(2)] have "i \<in> set (running s)" by (metis count_notin less_irrefl)
    then have s': "queued s' = queued s" "running s' = remove1 i (running s)" "schedulers s' = schedulers s"
      "procs s' = (procs s)(p \<mapsto> pr\<lparr>p_stage := Unlisted\<rparr>)"
      using assms(3) pr Left by (auto simp: analysis_turn_def p)
    have "bounded (waiting s' j) (count_list (queued s') j)" for j
      unfolding s'(1) by (rule bounded_subset [OF w(1)]) (use s' in \<open>auto simp: waiting_def p split: if_splits\<close>)
    moreover have "bounded (working s' j) (count_list (running s') j)" for j
      unfolding s'(2) by (rule bounded_remove1 [where W = "working s", OF w(2) mem]) (use s' in \<open>auto simp: working_def p split: if_splits\<close>)
    ultimately show ?thesis by (simp add: counted_def)
  next
    case Unlisted
    then have s': "s' = give_back (fst p) (p_origin pr) (s\<lparr>procs := (procs s)(p := None)\<rparr>)"
      using assms(3) pr by (simp add: analysis_turn_def)
    show ?thesis
      by (rule counted_fewer [OF assms(1)])
        (auto simp: s' waiting_def working_def give_back_def assigning_def split: if_splits option.splits)
  qed
qed

lemma counted_reachable: "reachable ms s \<Longrightarrow> counted s"
proof (induction rule: reachable.induct)
  case initial
  have "waiting (controller_init ms) i = {}" "working (controller_init ms) i = {}" for i
    by (auto simp: waiting_def working_def assigning_def dest!: init_scheduler)
  then show ?case by (simp add: counted_def bounded_def)
next
  case (further s a s')
  then show ?case
  proof (cases a)
    case (Submit t j)
    then obtain c where c: "schedulers s t = Some c" "s' = set_sched t (c\<lparr>analysis_queue := analysis_queue c @ [j]\<rparr>) s"
      using further by (auto simp: queue_analysis_def split: option.splits)
    show ?thesis
      by (rule counted_fewer [OF further.IH]) (use c in \<open>auto simp: waiting_def working_def assigning_def split: if_splits\<close>)
  next
    case (Sched t vm)
    then show ?thesis using further counted_sched ids_ok_reachable by auto
  next
    case (Analysis p)
    then show ?thesis using further counted_analysis ids_ok_reachable by auto
  qed
qed

text \<open>
  An analysis never fails to move its number from the queued to the running ones and out of these, although
  different schedulers give the same numbers: an analysis whose turn it is and that is not waiting for a lock gets on
  to its next stage.
\<close>

theorem analysis_gets_on:
  assumes "reachable machine_list s" and "procs s p = Some pr" and "p_stage pr \<noteq> Unlisted"
    and "p_stage pr = Spawned \<Longrightarrow> lock_of (p_origin pr) = None \<or> locks s (the (lock_of (p_origin pr))) = None"
  shows "\<exists>s'. turn machine_list (Analysis p) s = Some s' \<and>
    procs s' p = Some (pr\<lparr>p_stage := (case p_stage pr of Spawned \<Rightarrow> Locked | Locked \<Rightarrow> Moving | Moving \<Rightarrow> Running | Running \<Rightarrow> Left | _ \<Rightarrow> Unlisted)\<rparr>)"
proof -
  obtain t i where p: "p = (t, i)" by (cases p)
  have w: "bounded (waiting s i) (count_list (queued s) i)" "bounded (working s i) (count_list (running s) i)"
    using counted_reachable [OF assms(1)] by (simp_all add: counted_def)
  have "i \<in> set (queued s)" if "p_stage pr = Locked"
    using bounded_member [OF w(1), of t] that assms(2) by (metis (mono_tags, lifting) waiting_def p count_notin insertCI less_irrefl mem_Collect_eq)
  moreover have "i \<in> set (running s)" if "p_stage pr = Left"
    using bounded_member [OF w(2), of t] that assms(2) by (metis (mono_tags, lifting) working_def p count_notin insertCI less_irrefl mem_Collect_eq)
  ultimately show ?thesis
    using assms(2-4) by (cases "p_stage pr") (auto simp: analysis_turn_def p split: option.split)
qed

section \<open>A scheduler that ends\<close>

lemma ended_stays:
  assumes "schedulers s t = Some c" and "pc c = Ended" and "turn ms a s = Some s'"
  shows "\<exists>c' js. schedulers s' t = Some c' \<and> pc c' = Ended \<and> next_id c' = next_id c \<and> analysis_queue c' = analysis_queue c @ js"
proof (cases a)
  case (Submit t' j)
  then show ?thesis using assms by (auto simp: queue_analysis_def split: option.splits if_splits)
next
  case (Sched t' vm)
  then have turn: "sched_turn (map fst ms) t' vm s = Some s'" using assms(3) by simp
  then have "t' \<noteq> t" using assms(1,2) by (auto simp: sched_turn_def)
  with turn have "schedulers s' t = schedulers s t"
    by (cases rule: sched_turn_cases) (auto simp: launch_def Let_def split: option.splits)
  then show ?thesis using assms(1,2) by auto
next
  case (Analysis p)
  then show ?thesis using assms(1,2) analysis_schedulers [of p s s' t] assms(3) by auto
qed

lemma ended_stays_turns:
  assumes "schedulers s t = Some c" and "pc c = Ended" and "turns ms as s = Some s'"
  shows "\<exists>c' js. schedulers s' t = Some c' \<and> pc c' = Ended \<and> next_id c' = next_id c \<and> analysis_queue c' = analysis_queue c @ js"
  using assms
proof (induction as arbitrary: s c)
  case (Cons a as)
  obtain s1 where s1: "turn ms a s = Some s1" "turns ms as s1 = Some s'" using Cons.prems(3) by (auto split: option.splits)
  obtain c1 js where "schedulers s1 t = Some c1" "pc c1 = Ended" "next_id c1 = next_id c" "analysis_queue c1 = analysis_queue c @ js"
    using ended_stays [OF Cons.prems(1,2) s1(1)] by blast
  with Cons.IH [OF _ _ s1(2), of c1] show ?case by auto
qed simp

text \<open>
  A command that names a machine which does not exist ends the scheduler of its type for good: whatever happens
  then, no further analysis of that type is ever created, and the submitted ones pile up.
\<close>

theorem unknown_machine_ends_scheduler:
  assumes "schedulers s t = Some c" and "pc c = Assigning j" and "job_machine j = Some name" and "name \<notin> fst ` set machine_list"
    and "job_type j = Some PHYSICAL \<or> \<not> vm_known" and "turns machine_list (Sched t vm_known # as) s = Some s'"
  shows "\<exists>c' js. schedulers s' t = Some c' \<and> pc c' = Ended \<and> next_id c' = next_id c \<and> analysis_queue c' = analysis_queue c @ js"
proof -
  have "turn machine_list (Sched t vm_known) s = Some (set_sched t (c\<lparr>pc := Ended\<rparr>) s)"
    using assms(1-5) by (auto simp: sched_turn_def)
  with assms(6) have "turns machine_list as (set_sched t (c\<lparr>pc := Ended\<rparr>) s) = Some s'" by simp
  from ended_stays_turns [OF _ _ this, of t "c\<lparr>pc := Ended\<rparr>"] show ?thesis by simp
qed

section \<open>The course of an analysis\<close>

definition analysis_actions :: "nat \<Rightarrow> nat \<Rightarrow> action list" where
  "analysis_actions t i = Sched t False # Sched t False # replicate 6 (Analysis (t, i))"


section \<open>A machine that is lost\<close>

definition plain_job :: job where
  "plain_job = \<lparr>loaded = Some True, job_machine = None, job_type = None\<rparr>"

text \<open>
  Two machines and two analyses: the scheduler looks for finished analyses when the first one has left the list of the
  running ones and has not yet put its machine back.
\<close>

definition losing_race :: "action list" where
  "losing_race = [Submit 0 plain_job, Submit 0 plain_job] @ replicate 9 (Sched 0 False) @
     replicate 5 (Analysis (0, 0)) @ replicate 4 (Sched 0 False) @ replicate 6 (Analysis (0, 1))"

text \<open>
  A machine can be lost although no analysis fails: in this run both analyses come to their end, but the process of the
  first is terminated before it has put its machine back, so that the queue is left with one machine for good.
\<close>

theorem machine_lost_in_race:
  "\<exists>s c. turns [(''a'', 0), (''b'', 0)] losing_race (controller_init [(''a'', 0), (''b'', 0)]) = Some s \<and>
     procs s (0, 0) = None \<and> procs s (0, 1) = None \<and> queued s = [] \<and> running s = [] \<and>
     located s ''a'' Lost \<and> schedulers s 0 = Some c \<and> machine_queue c = [''b''] \<and> pc c \<noteq> Ended"
  by (simp add: losing_race_def controller_init_def empty_sys_def enqueue_machine_def new_scheduler_def plain_job_def
    numeral_eq_Suc Let_def turn_defs)

section \<open>Witnesses\<close>

definition two_machines :: "(string \<times> nat) list" where "two_machines = [(''a'', 0), (''b'', 0)]"

lemmas run_simps = two_machines_def controller_init_def empty_sys_def enqueue_machine_def new_scheduler_def plain_job_def
  numeral_eq_Suc Let_def turn_defs

text \<open>The first analysis has the lock of its machine.\<close>

lemma first_at_work:
  "\<exists>s. turns two_machines (Submit 0 plain_job # replicate 4 (Sched 0 False) @ [Analysis (0, 0)]) (controller_init two_machines) = Some s \<and>
     critical s (0, 0) ''a'' \<and> procs s (0, 0) = Some \<lparr>p_origin = FromQueue ''a'', p_stage = Locked\<rparr>"
  by (simp add: run_simps critical_def)

theorem no_two_analyses_at_once_witness:
  "\<exists>s. turns two_machines (Submit 0 plain_job # replicate 4 (Sched 0 False) @ [Analysis (0, 0)]) (controller_init two_machines) = Some s \<and>
     {q. critical s q ''a''} = {(0, 0)}"
proof -
  obtain s where s: "turns two_machines (Submit 0 plain_job # replicate 4 (Sched 0 False) @ [Analysis (0, 0)]) (controller_init two_machines) = Some s"
    "critical s (0, 0) ''a''" using first_at_work by blast
  have "{q. critical s q ''a''} = {(0, 0)}"
    by (rule no_two_analyses_at_once [OF turns_reachable [OF s(1) reachable.initial] s(2)])
  then show ?thesis using s(1) by blast
qed

theorem machine_at_one_place_witness:
  "\<exists>s. turns two_machines (Submit 0 plain_job # replicate 4 (Sched 0 False) @ [Analysis (0, 0)]) (controller_init two_machines) = Some s \<and>
     (\<exists>!pl. located s ''a'' pl)"
proof -
  obtain s where s: "turns two_machines (Submit 0 plain_job # replicate 4 (Sched 0 False) @ [Analysis (0, 0)]) (controller_init two_machines) = Some s"
    using first_at_work by blast
  have "\<exists>!pl. located s ''a'' pl"
    using machine_at_one_place [OF _ turns_reachable [OF s reachable.initial], of "''a''"] by (simp add: two_machines_def)
  then show ?thesis using s by blast
qed

theorem analysis_gets_on_witness:
  "\<exists>s s'. turns two_machines (Submit 0 plain_job # replicate 4 (Sched 0 False) @ [Analysis (0, 0)]) (controller_init two_machines) = Some s \<and>
     turn two_machines (Analysis (0, 0)) s = Some s' \<and> procs s' (0, 0) = Some \<lparr>p_origin = FromQueue ''a'', p_stage = Moving\<rparr>"
proof -
  obtain s where s: "turns two_machines (Submit 0 plain_job # replicate 4 (Sched 0 False) @ [Analysis (0, 0)]) (controller_init two_machines) = Some s"
    "procs s (0, 0) = Some \<lparr>p_origin = FromQueue ''a'', p_stage = Locked\<rparr>" using first_at_work by blast
  then show ?thesis using analysis_gets_on [OF turns_reachable [OF s(1) reachable.initial] s(2)] by auto
qed

theorem unknown_machine_ends_scheduler_witness:
  "\<exists>s' c'. turns two_machines (Submit 0 \<lparr>loaded = Some True, job_machine = Some ''x'', job_type = Some PHYSICAL\<rparr> # replicate 3 (Sched 0 False))
       (controller_init two_machines) = Some s' \<and>
     (\<exists>s''. turns two_machines [Sched 0 False, Submit 0 plain_job] s' = Some s'' \<and> schedulers s'' 0 = Some c' \<and> pc c' = Ended \<and> next_id c' = 1)"
proof -
  let ?j = "\<lparr>loaded = Some True, job_machine = Some ''x'', job_type = Some PHYSICAL\<rparr>"
  have "\<exists>s c s''. turns two_machines (Submit 0 ?j # replicate 3 (Sched 0 False)) (controller_init two_machines) = Some s \<and>
      schedulers s 0 = Some c \<and> pc c = Assigning ?j \<and> next_id c = 1 \<and>
      turns two_machines [Sched 0 False, Submit 0 plain_job] s = Some s''"
    by (simp add: run_simps)
  then obtain s c s'' where s: "turns two_machines (Submit 0 ?j # replicate 3 (Sched 0 False)) (controller_init two_machines) = Some s"
      "schedulers s 0 = Some c" "pc c = Assigning ?j" "next_id c = 1" "turns two_machines [Sched 0 False, Submit 0 plain_job] s = Some s''"
    by blast
  then show ?thesis
    using unknown_machine_ends_scheduler [OF s(2,3) _ _ _ s(5), of "''x''"] by (auto simp: two_machines_def)
qed


end
