(* ===== verification/AutomationProperties.thy ===== *)
theory AutomationProperties
  imports Automation SchedulerProperties
begin

text \<open>
  What the commands of the automation package do: messages arrive as they were sent, an analysis that is submitted to the
  master reaches the queue of a scheduler that has a machine for it, and no analysis can be stopped.
\<close>

section \<open>Messages\<close>

lemma send_loop_all: "send_loop ks data = data"
proof (induction ks data rule: send_loop.induct)
  case (1 ks data)
  then show ?case by (subst send_loop.simps) (auto simp: Let_def)
qed

lemma recv_some:
  assumes "0 < n" and "n \<le> length bs"
  shows "\<exists>k. 1 \<le> k \<and> k \<le> n \<and> recv n \<lparr>coming = bs, cuts = ks\<rparr> = (take k bs, \<lparr>coming = drop k bs, cuts = tl ks\<rparr>)"
  using assms by (intro exI [of _ "min (min n (length bs)) (max 1 (case ks of [] \<Rightarrow> n | k # _ \<Rightarrow> k))"]) (simp add: recv_def Let_def)

lemma read_loop_all:
  "\<exists>ks'. set ks' \<subseteq> set ks \<and>
     read_loop (length data + length bs) data \<lparr>coming = bs @ rest, cuts = ks\<rparr> = (Some (data @ bs), \<lparr>coming = rest, cuts = ks'\<rparr>)"
proof (induction bs arbitrary: data ks rule: length_induct)
  case (1 bs)
  show ?case
  proof (cases "bs = []")
    case True
    then show ?thesis by (subst read_loop.simps) auto
  next
    case False
    then obtain k where k: "1 \<le> k" "k \<le> length bs"
      "recv (length bs) \<lparr>coming = bs @ rest, cuts = ks\<rparr> = (take k bs, \<lparr>coming = drop k bs @ rest, cuts = tl ks\<rparr>)"
      using recv_some [of "length bs" "bs @ rest" ks] by auto
    obtain b bs' where b: "take k bs = b # bs'" using k(1) False by (cases "take k bs") auto
    have step: "read_loop (length data + length bs) data \<lparr>coming = bs @ rest, cuts = ks\<rparr> =
        read_loop (length data + length bs) (data @ take k bs) \<lparr>coming = drop k bs @ rest, cuts = tl ks\<rparr>"
      using False by (subst read_loop.simps) (simp add: k(3) b)
    have "length (drop k bs) < length bs" using k(1) False by simp
    then obtain ks' where "set ks' \<subseteq> set (tl ks)"
      "read_loop (length (data @ take k bs) + length (drop k bs)) (data @ take k bs) \<lparr>coming = drop k bs @ rest, cuts = tl ks\<rparr> =
        (Some ((data @ take k bs) @ drop k bs), \<lparr>coming = rest, cuts = ks'\<rparr>)"
      using 1 by blast
    moreover have "set (tl ks) \<subseteq> set ks" by (cases ks) auto
    ultimately show ?thesis using step k(2) by auto
  qed
qed

lemma read_socket_data_frame:
  assumes "length m < 65536" and "list_all (\<lambda>k. 2 \<le> k) ks"
  shows "\<exists>ks'. set ks' \<subseteq> set ks \<and>
    read_socket_data \<lparr>coming = le_bytes 2 (length m) @ m @ rest, cuts = ks\<rparr> = (Inr (Some m), \<lparr>coming = rest, cuts = ks'\<rparr>)"
proof -
  have "2 \<le> (case ks of [] \<Rightarrow> 2 | k # _ \<Rightarrow> k)" using assms(2) by (cases ks) auto
  then have head: "recv 2 \<lparr>coming = le_bytes 2 (length m) @ m @ rest, cuts = ks\<rparr> = (le_bytes 2 (length m), \<lparr>coming = m @ rest, cuts = tl ks\<rparr>)"
    by (simp add: recv_def Let_def min_def)
  obtain b0 b1 where b: "le_bytes 2 (length m) = [b0, b1]" by (simp add: numeral_2_eq_2)
  have "le_val [b0, b1] = length m" using assms(1) le_val_le_bytes [of "length m" 2] by (simp add: b)
  moreover obtain ks' where "set ks' \<subseteq> set (tl ks)" "read_loop (length m) [] \<lparr>coming = m @ rest, cuts = tl ks\<rparr> = (Some m, \<lparr>coming = rest, cuts = ks'\<rparr>)"
    using read_loop_all [of "tl ks" "[]" m rest] by auto
  moreover have "set (tl ks) \<subseteq> set ks" by (cases ks) auto
  ultimately show ?thesis using head by (auto simp: read_socket_data_def b)
qed

fun read_messages :: "nat \<Rightarrow> chan \<Rightarrow> bytes option res list" where
  "read_messages 0 ch = []"
| "read_messages (Suc n) ch = (case read_socket_data ch of (r, ch1) \<Rightarrow> r # read_messages n ch1)"

text \<open>
  Messages are read as they were sent, whatever pieces the socket takes and gives, as long as the two bytes of a
  length are not torn apart.
\<close>

lemma messages_roundtrip:
  assumes "mapE (\<lambda>(ks, m). send_socket_data ks m) sends = Inr frames" and "list_all (\<lambda>k. 2 \<le> k) cs"
  shows "read_messages (length sends) \<lparr>coming = concat frames @ rest, cuts = cs\<rparr> = map (\<lambda>(ks, m). Inr (Some m)) sends"
  using assms
proof (induction sends arbitrary: frames cs)
  case (Cons x sends)
  obtain ks m where x: "x = (ks, m)" by (cases x)
  from Cons.prems(1) obtain fs where m: "length m < 65536" and fs: "frames = (le_bytes 2 (length m) @ m) # fs"
    "mapE (\<lambda>(ks, m). send_socket_data ks m) sends = Inr fs"
    by (auto simp: x send_socket_data_def send_loop_all res_simps split: if_splits)
  obtain cs' where cs': "set cs' \<subseteq> set cs"
    "read_socket_data \<lparr>coming = concat frames @ rest, cuts = cs\<rparr> = (Inr (Some m), \<lparr>coming = concat fs @ rest, cuts = cs'\<rparr>)"
    using read_socket_data_frame [OF m Cons.prems(2), of "concat fs @ rest"] by (auto simp: fs(1))
  have "list_all (\<lambda>k. 2 \<le> k) cs'" using cs'(1) Cons.prems(2) by (auto simp: list_all_iff)
  from Cons.IH [OF fs(2) this] show ?case by (simp add: x cs'(2))
qed simp

text \<open>A length of which only the first byte is there yet raises.\<close>

lemma torn_length_raises:
  "fst (read_socket_data \<lparr>coming = le_bytes 2 (length m) @ m, cuts = 1 # cs\<rparr>) = Inl StructError"
  by (simp add: read_socket_data_def recv_def numeral_2_eq_2)

section \<open>Commands to analyses\<close>

lemma handle_command_dict: "handle_command load_script cs c = (r, c') \<Longrightarrow> ANALYSIS_DICT c' = ANALYSIS_DICT c"
  by (auto simp: handle_command_def command_start_def Let_def split: if_splits option.splits prod.splits)

lemma proccess_input_dict: "proccess_input load_script css c = (outs, c', e) \<Longrightarrow> ANALYSIS_DICT c' = ANALYSIS_DICT c"
proof (induction css arbitrary: c outs)
  case (Cons cs css)
  obtain r c1 where h: "handle_command load_script cs c = (r, c1)" by (cases "handle_command load_script cs c")
  then show ?case using Cons handle_command_dict [OF h] by (auto split: sum.splits prod.splits)
qed simp

lemma proccess_input_append:
  "proccess_input load_script css c = (outs, c', None) \<Longrightarrow>
     proccess_input load_script (css @ later) c = (case proccess_input load_script later c' of (outs', r) \<Rightarrow> (outs @ outs', r))"
proof (induction css arbitrary: c outs)
  case (Cons cs css)
  obtain r c1 where h: "handle_command load_script cs c = (r, c1)" by (cases "handle_command load_script cs c")
  then show ?case using Cons by (fastforce split: sum.splits prod.splits)
qed (simp split: prod.split)

lemma analysis_loop_fails:
  "ANALYSIS_DICT c = [] \<Longrightarrow> analysis_loop c (map Inr aids) rtn = Inr (rtn \<and> aids = [])"
  by (induction aids arbitrary: rtn) (simp_all add: analysis_op_def)

text \<open>
  Whatever commands a controller has processed, it stops, pauses and resumes no analysis: its own dictionary of
  analyses stays empty, since the analyses are those of its schedulers, so that each such command fails and changes
  nothing.
\<close>

theorem analyses_cannot_be_stopped:
  assumes "ANALYSIS_DICT c = []" and "proccess_input load_script css c = (outs, c', None)"
    and "cmd command \<in> {CTRL_CMD_STOP, CTRL_CMD_PAUSE, CTRL_CMD_UNPAUSE}"
    and "(\<exists>as. args command = Some as \<and> as \<noteq> [] \<and> list_all (\<lambda>a. \<not> isl (py_int a)) as) \<or>
      args command \<in> {None, Some []} \<and> running (system c') \<noteq> []"
  shows "proccess_input load_script (css @ [(command, script)]) c = (outs @ [Failure], c', None)"
proof -
  have d: "ANALYSIS_DICT c' = []" using proccess_input_dict [OF assms(2)] assms(1) by simp
  have "command_analysis command c' = Inr False"
    using assms(4)
  proof (elim disjE exE conjE)
    fix as assume as: "args command = Some as" "as \<noteq> []" "list_all (\<lambda>a. \<not> isl (py_int a)) as"
    then have "map py_int as = map Inr (map (projr \<circ> py_int) as)" by (auto simp: list_all_iff isl_def)
    then obtain ns where ns: "map py_int as = map Inr ns" "ns \<noteq> []" using as(2) by blast
    then have "analysis_loop c' (map py_int as) True = Inr False" using analysis_loop_fails [OF d, of ns True] by simp
    then show ?thesis using as by (simp add: command_analysis_def)
  next
    assume a: "args command \<in> {None, Some []}" "running (system c') \<noteq> []"
    then show ?thesis
      using analysis_loop_fails [OF d, of "map int (running (system c'))" True] by (auto simp: command_analysis_def comp_def)
  qed
  then have "proccess_input load_script [(command, script)] c' = ([Failure], c', None)"
    using assms(3) by (auto simp: handle_command_def status_def command_names Let_def)
  then show ?thesis by (simp add: proccess_input_append [OF assms(2)])
qed

text \<open>
  A request for a list ends the controller: it raises, and the commands behind it are not even read.
\<close>

theorem list_command_ends_controller:
  assumes "proccess_input load_script css c = (outs, c', None)" and "cmd command = CTRL_CMD_LIST"
  shows "proccess_input load_script (css @ (command, script) # later) c = (outs, c', Some AttributeError)"
  using assms(2) by (simp add: proccess_input_append [OF assms(1)] handle_command_def command_list_def command_names Let_def)

section \<open>From the master to a scheduler\<close>

lemma schedulers_reachable: "reachable ms s \<Longrightarrow> schedulers s t = None \<longleftrightarrow> t \<notin> snd ` set ms"
proof (induction rule: reachable.induct)
  case initial
  show ?case by (rule init_known)
next
  case (further s a s')
  have "schedulers s' t = None \<longleftrightarrow> schedulers s t = None"
  proof (cases a)
    case (Submit t' j)
    then show ?thesis using further by (auto simp: queue_analysis_def split: option.splits if_splits)
  next
    case (Sched t' vm)
    then have "sched_turn (map fst ms) t' vm s = Some s'" using further by simp
    then show ?thesis by (cases rule: sched_turn_cases) (auto simp: launch_def Let_def split: option.splits if_splits)
  next
    case (Analysis p)
    then show ?thesis using further analysis_schedulers [of p s s' t] by (auto split: option.splits)
  qed
  then show ?case using further by simp
qed

lemma suitable_machine: "c \<in> set (suitable config_list tt) \<Longrightarrow> c \<in> set config_list \<and> (\<exists>m. m \<in> set (machines c) \<and> Some (snd m) = tt)"
  by (auto simp: suitable_def)

lemma master_sent:
  assumes "master_start config_list analysis_list rand_idx (Some a) None command = Inr (Sent n)"
    and "machine_type command = Some tt" and "\<And>k. 0 < k \<Longrightarrow> rand_idx k < k"
  shows "\<exists>c m. c \<in> set config_list \<and> name c = n \<and> (m, tt) \<in> set (machines c)"
proof -
  let ?cs = "suitable config_list (Some tt)"
  have cs: "?cs \<noteq> []" "n = name (?cs ! rand_idx (length ?cs))"
    using assms(1,2) by (auto simp: master_start_def Let_def split: option.splits if_splits)
  then have "?cs ! rand_idx (length ?cs) \<in> set ?cs" using assms(3) by (simp add: length_greater_0_conv)
  from suitable_machine [OF this] cs(2) show ?thesis by auto
qed

text \<open>
  C25. An analysis for a type of machine that is submitted to the master is sent to a controller that has such a machine,
  arrives there as it was sent, and is put at the end of the queue of the scheduler of that type, whatever this
  controller has done before.  The text of a command is read back as the command.
\<close>

theorem submitted_analysis_queued:
  assumes "master_start config_list analysis_list rand_idx (Some a) None command = Inr (Sent n)"
    and "machine_type command = Some (int t)" and "cmd command = CTRL_CMD_START" and "\<And>k. 0 < k \<Longrightarrow> rand_idx k < k"
    and "\<forall>cc \<in> set config_list. machines cc = map (\<lambda>(m, t). (m, int t)) (hosted (name cc)) \<and>
      reachable (hosted (name cc)) (system (controllers (name cc)))"
    and "decode (encode command) = command"
    and "send_socket_data k1 (encode command) = Inr f1" and "send_socket_data k2 script = Inr f2"
    and "list_all (\<lambda>k. 2 \<le> k) cs"
  shows "\<exists>m1 m2 c' q q'. read_messages 2 \<lparr>coming = f1 @ f2, cuts = cs\<rparr> = [Inr (Some m1), Inr (Some m2)] \<and>
    handle_command load_script (decode m1, Some m2) (controllers n) = (Inr [Success], c') \<and>
    schedulers (system (controllers n)) t = Some q \<and> schedulers (system c') t = Some q' \<and>
    analysis_queue q' = analysis_queue q @ [\<lparr>loaded = load_script (Some script), job_machine = machine command, job_type = Some t\<rparr>]"
proof -
  obtain cc m where cc: "cc \<in> set config_list" "name cc = n" "(m, int t) \<in> set (machines cc)"
    using master_sent [OF assms(1,2,4)] by blast
  then have "(m, t) \<in> set (hosted n)" and r: "reachable (hosted n) (system (controllers n))"
    using assms(5) by (auto simp: case_prod_beta)
  then obtain q where q: "schedulers (system (controllers n)) t = Some q"
    using schedulers_reachable [OF r, of t] by force
  have "read_messages 2 \<lparr>coming = f1 @ f2, cuts = cs\<rparr> = [Inr (Some (encode command)), Inr (Some script)]"
    using messages_roundtrip [of "[(k1, encode command), (k2, script)]" "[f1, f2]" cs "[]"] assms(7-9) by (simp add: numeral_2_eq_2)
  then show ?thesis
    using q assms(2,3,6)
    by (auto simp: handle_command_def command_start_def queue_analysis_def status_def command_names Let_def)
qed

section \<open>Witnesses\<close>

definition start_command :: lophi_command where
  "start_command = \<lparr>cmd = CTRL_CMD_START, args = None, machine = None, machine_type = Some 0\<rparr>"

definition stop_command :: lophi_command where
  "stop_command = \<lparr>cmd = CTRL_CMD_STOP, args = Some [''0''], machine = None, machine_type = None\<rparr>"

definition fresh_controller :: controller where
  "fresh_controller = \<lparr>ANALYSIS_DICT = [], system = controller_init two_machines\<rparr>"

lemma start_processed:
  "\<exists>c'. proccess_input (\<lambda>s. Some True) [(start_command, Some [1])] fresh_controller = ([Success], c', None)"
  by (simp add: start_command_def fresh_controller_def handle_command_def command_start_def status_def command_names run_simps)

theorem analyses_cannot_be_stopped_witness:
  "\<exists>c'. proccess_input (\<lambda>s. Some True) [(start_command, Some [1]), (stop_command, None)] fresh_controller = ([Success, Failure], c', None)"
proof -
  obtain c' where c': "proccess_input (\<lambda>s. Some True) [(start_command, Some [1])] fresh_controller = ([Success], c', None)"
    using start_processed by blast
  have "nat_str 0 = ''0''"
    using char_of_char [of "CHR ''0''", where 'a = nat] by (simp add: nat_str.simps [of 0] digit_char_def)
  then have "py_int ''0'' = Inr 0" using py_int_nat_str [of 0] by simp
  then show ?thesis
    using analyses_cannot_be_stopped [OF _ c', of stop_command None] by (simp add: stop_command_def fresh_controller_def)
qed

theorem list_command_ends_controller_witness:
  "\<exists>c'. proccess_input (\<lambda>s. Some True) [(start_command, Some [1]), (stop_command\<lparr>cmd := CTRL_CMD_LIST\<rparr>, None), (start_command, None)] fresh_controller =
     ([Success], c', Some AttributeError)"
proof -
  obtain c' where c': "proccess_input (\<lambda>s. Some True) [(start_command, Some [1])] fresh_controller = ([Success], c', None)"
    using start_processed by blast
  then show ?thesis
    using list_command_ends_controller [OF c', of "stop_command\<lparr>cmd := CTRL_CMD_LIST\<rparr>" None "[(start_command, None)]"] by simp
qed

theorem submitted_analysis_queued_witness:
  "master_start [\<lparr>name = ''n'', machines = [(''a'', 0), (''b'', 0)]\<rparr>] [''x'' \<mapsto> (''x.py'', None)] (\<lambda>k. 0) (Some ''x'') None start_command = Inr (Sent ''n'') \<and>
   (\<exists>f1 f2 m1 m2 c' q'. send_socket_data [1, 1] [7] = Inr f1 \<and> send_socket_data [2] [8, 9] = Inr f2 \<and>
      read_messages 2 \<lparr>coming = f1 @ f2, cuts = [2, 3]\<rparr> = [Inr (Some m1), Inr (Some m2)] \<and>
      handle_command (\<lambda>s. Some True) ((\<lambda>m. start_command) m1, Some m2) fresh_controller = (Inr [Success], c') \<and>
      schedulers (system c') 0 = Some q' \<and> analysis_queue q' = [\<lparr>loaded = Some True, job_machine = None, job_type = Some 0\<rparr>])"
proof -
  let ?conf = "[\<lparr>name = ''n'', machines = [(''a'', 0), (''b'', 0)]\<rparr>]"
  have sent: "master_start ?conf [''x'' \<mapsto> (''x.py'', None)] (\<lambda>k. 0) (Some ''x'') None start_command = Inr (Sent ''n'')"
    by (simp add: master_start_def suitable_def start_command_def)
  have f: "send_socket_data [1, 1] [7] = Inr (le_bytes 2 1 @ [7])" "send_socket_data [2] [8, 9] = Inr (le_bytes 2 2 @ [8, 9])"
    by (simp_all add: send_socket_data_def send_loop_all numeral_2_eq_2)
  have r: "reachable two_machines (system fresh_controller)" by (simp add: fresh_controller_def reachable.initial)
  have q: "analysis_queue q = []" if "schedulers (system fresh_controller) 0 = Some q" for q
    using that by (auto simp: fresh_controller_def run_simps)
  have "\<exists>m1 m2 c' q q'. read_messages 2 \<lparr>coming = (le_bytes 2 1 @ [7]) @ (le_bytes 2 2 @ [8, 9]), cuts = [2, 3]\<rparr> = [Inr (Some m1), Inr (Some m2)] \<and>
      handle_command (\<lambda>s. Some True) ((\<lambda>m. start_command) m1, Some m2) fresh_controller = (Inr [Success], c') \<and>
      schedulers (system fresh_controller) 0 = Some q \<and> schedulers (system c') 0 = Some q' \<and>
      analysis_queue q' = analysis_queue q @ [\<lparr>loaded = Some True, job_machine = machine start_command, job_type = Some 0\<rparr>]"
    by (rule submitted_analysis_queued [OF sent, where t = 0 and hosted = "\<lambda>n. two_machines" and controllers = "\<lambda>n. fresh_controller"
        and decode = "\<lambda>m. start_command" and encode = "\<lambda>c. [7]" and script = "[8, 9]" and ?k1.0 = "[1, 1]" and ?k2.0 = "[2]"])
      (use f r in \<open>simp_all add: start_command_def two_machines_def\<close>)
  then show ?thesis using sent f q by (fastforce simp: start_command_def)
qed

end
