(* ===== verification/PyBlock.thy ===== *)
theory PyBlock
  imports PyState
begin

text \<open>
  Methods that may wait forever, for code that takes a lock: a method gives \<open>None\<close> when it never returns, and otherwise
  a result or an exception together with the state that it leaves behind.  A handler catches exceptions, never a wait.
\<close>

type_synonym ('s, 'a) blocking = "'s \<Rightarrow> ('a res \<times> 's) option"

definition returnB :: "'a \<Rightarrow> ('s, 'a) blocking" where
  "returnB x s = Some (Inr x, s)"

definition raiseB :: "py_error \<Rightarrow> ('s, 'a) blocking" where
  "raiseB e s = Some (Inl e, s)"

definition liftB :: "('s, 'a) pymethod \<Rightarrow> ('s, 'a) blocking" where
  "liftB m s = Some (m s)"

definition getB :: "('s \<Rightarrow> 'a) \<Rightarrow> ('s, 'a) blocking" where
  "getB f s = Some (Inr (f s), s)"

definition setB :: "('s \<Rightarrow> 's) \<Rightarrow> ('s, unit) blocking" where
  "setB f s = Some (Inr (), f s)"

definition bindB :: "('s, 'a) blocking \<Rightarrow> ('a \<Rightarrow> ('s, 'b) blocking) \<Rightarrow> ('s, 'b) blocking" where
  "bindB m f s =
     (case m s of
        None \<Rightarrow> None
      | Some (Inl e, s1) \<Rightarrow> Some (Inl e, s1)
      | Some (Inr x, s1) \<Rightarrow> f x s1)"

definition thenB :: "('s, 'a) blocking \<Rightarrow> ('s, 'b) blocking \<Rightarrow> ('s, 'b) blocking" where
  "thenB m n = bindB m (\<lambda>_. n)"

definition tryB :: "('s, 'a) blocking \<Rightarrow> (py_error \<Rightarrow> ('s, 'a) blocking) \<Rightarrow> ('s, 'a) blocking" where
  "tryB m h s =
     (case m s of
        None \<Rightarrow> None
      | Some (Inl e, s1) \<Rightarrow> h e s1
      | Some (Inr x, s1) \<Rightarrow> Some (Inr x, s1))"

definition whenB :: "bool \<Rightarrow> ('s, unit) blocking \<Rightarrow> ('s, unit) blocking" where
  "whenB b m = (if b then m else returnB ())"

fun forB :: "('a \<Rightarrow> ('s, unit) blocking) \<Rightarrow> 'a list \<Rightarrow> ('s, unit) blocking" where
  "forB f [] = returnB ()"
| "forB f (x # xs) = thenB (f x) (forB f xs)"

section \<open>Evaluation\<close>

named_theorems block_simps \<open>evaluation of blocking methods at a state\<close>

lemma basic_at [simp, block_simps]:
  "returnB x s = Some (Inr x, s)"
  "raiseB e s = Some (Inl e, s)"
  "liftB m s = Some (m s)"
  "getB f s = Some (Inr (f s), s)"
  "setB g s = Some (Inr (), g s)"
  "whenB b n s = (if b then n s else Some (Inr (), s))"
  by (simp_all add: returnB_def raiseB_def liftB_def getB_def setB_def whenB_def)

lemma bindB_at [block_simps]:
  "m s = None \<Longrightarrow> bindB m f s = None"
  "m s = Some (Inl e, s1) \<Longrightarrow> bindB m f s = Some (Inl e, s1)"
  "m s = Some (Inr x, s1) \<Longrightarrow> bindB m f s = f x s1"
  by (simp_all add: bindB_def)

lemma thenB_at [block_simps]:
  "m s = None \<Longrightarrow> thenB m n s = None"
  "m s = Some (Inl e, s1) \<Longrightarrow> thenB m n s = Some (Inl e, s1)"
  "m s = Some (Inr x, s1) \<Longrightarrow> thenB m n s = n s1"
  by (simp_all add: thenB_def bindB_def)

lemma tryB_at [block_simps]:
  "m s = None \<Longrightarrow> tryB m h s = None"
  "m s = Some (Inl e, s1) \<Longrightarrow> tryB m h s = h e s1"
  "m s = Some (Inr x, s1) \<Longrightarrow> tryB m h s = Some (Inr x, s1)"
  by (simp_all add: tryB_def)

lemma bind_returnB [simp]: "bindB (returnB x) f = f x" "thenB (returnB x) n = n"
  by (simp_all add: fun_eq_iff bindB_def thenB_def)

section \<open>Contracts\<close>

text \<open>
  \<open>ends P m Q R\<close>: started in a state of \<open>P\<close>, the method returns, into \<open>Q\<close> with a value and into \<open>R\<close> with an exception.
\<close>

definition ends :: "('s \<Rightarrow> bool) \<Rightarrow> ('s, 'a) blocking \<Rightarrow> ('a \<Rightarrow> 's \<Rightarrow> bool) \<Rightarrow> ('s \<Rightarrow> bool) \<Rightarrow> bool" where
  "ends P m Q R \<longleftrightarrow>
     (\<forall>s. P s \<longrightarrow> (\<exists>r t. m s = Some (r, t) \<and> (case r of Inl e \<Rightarrow> R t | Inr x \<Rightarrow> Q x t)))"

named_theorems ends_intros \<open>rules that carry a contract through a method\<close>

lemma endsI:
  assumes "\<And>s. P s \<Longrightarrow> (\<exists>x t. m s = Some (Inr x, t) \<and> Q x t) \<or> (\<exists>e t. m s = Some (Inl e, t) \<and> R t)"
  shows "ends P m Q R"
  unfolding ends_def using assms by (fastforce split: sum.splits)

lemma endsE:
  assumes "ends P m Q R" "P s"
  obtains (Value) x t where "m s = Some (Inr x, t)" "Q x t" | (Raise) e t where "m s = Some (Inl e, t)" "R t"
proof -
  obtain r t where "m s = Some (r, t)" "case r of Inl e \<Rightarrow> R t | Inr x \<Rightarrow> Q x t"
    using assms unfolding ends_def by blast
  then show ?thesis using that by (cases r) auto
qed

lemma ends_Inr: "ends P m Q R \<Longrightarrow> P s \<Longrightarrow> m s = Some (Inr x, t) \<Longrightarrow> Q x t"
  by (fastforce simp: ends_def)

lemma ends_Inl: "ends P m Q R \<Longrightarrow> P s \<Longrightarrow> m s = Some (Inl e, t) \<Longrightarrow> R t"
  by (fastforce simp: ends_def)

lemma ends_returns: "ends P m Q R \<Longrightarrow> P s \<Longrightarrow> \<exists>r t. m s = Some (r, t)"
  by (fastforce simp: ends_def)

lemma ends_weaken:
  "ends P m Q R \<Longrightarrow> (\<And>s. P' s \<Longrightarrow> P s) \<Longrightarrow> (\<And>x s. Q x s \<Longrightarrow> Q' x s) \<Longrightarrow> (\<And>s. R s \<Longrightarrow> R' s) \<Longrightarrow> ends P' m Q' R'"
  unfolding ends_def by (metis (mono_tags, lifting) sum.case_eq_if)

lemma ends_returnB [ends_intros]: "(\<And>s. P s \<Longrightarrow> Q x s) \<Longrightarrow> ends P (returnB x) Q R"
  by (simp add: ends_def)

lemma ends_raiseB [ends_intros]: "(\<And>s. P s \<Longrightarrow> R s) \<Longrightarrow> ends P (raiseB e) Q R"
  by (simp add: ends_def)

lemma ends_getB [ends_intros]: "(\<And>s. P s \<Longrightarrow> Q (f s) s) \<Longrightarrow> ends P (getB f) Q R"
  by (simp add: ends_def)

lemma ends_setB [ends_intros]: "(\<And>s. P s \<Longrightarrow> Q () (f s)) \<Longrightarrow> ends P (setB f) Q R"
  by (simp add: ends_def)

lemma ends_bindB:
  assumes m: "ends P m Q R" and f: "\<And>x. ends (Q x) (f x) Q' R"
  shows "ends P (bindB m f) Q' R"
proof (rule endsI)
  fix s assume "P s"
  with m show "(\<exists>x t. bindB m f s = Some (Inr x, t) \<and> Q' x t) \<or> (\<exists>e t. bindB m f s = Some (Inl e, t) \<and> R t)"
  proof (cases rule: endsE)
    case (Value x t)
    show ?thesis using f Value(2) by (cases rule: endsE) (simp_all add: bindB_at(3) [where m = m, OF Value(1)])
  qed (simp add: bindB_at)
qed

lemma ends_thenB: "ends P m (\<lambda>_. Q) R \<Longrightarrow> ends Q n Q' R \<Longrightarrow> ends P (thenB m n) Q' R"
  unfolding thenB_def by (rule ends_bindB)

lemma ends_tryB:
  assumes m: "ends P m Q S" and h: "\<And>e. ends S (h e) Q R"
  shows "ends P (tryB m h) Q R"
proof (rule endsI)
  fix s assume "P s"
  with m show "(\<exists>x t. tryB m h s = Some (Inr x, t) \<and> Q x t) \<or> (\<exists>e t. tryB m h s = Some (Inl e, t) \<and> R t)"
  proof (cases rule: endsE)
    case (Raise e t)
    show ?thesis using h [of e] Raise(2) by (cases rule: endsE) (simp_all add: tryB_at(2) [where m = m, OF Raise(1)])
  qed (simp add: tryB_at)
qed

lemma ends_pure: "(c \<Longrightarrow> ends P m Q R) \<Longrightarrow> ends (\<lambda>s. c \<and> P s) m Q R"
  by (cases c) (simp_all add: ends_def)

lemma ends_if [ends_intros]:
  "(b \<Longrightarrow> ends P m Q R) \<Longrightarrow> (\<not> b \<Longrightarrow> ends P n Q R) \<Longrightarrow> ends P (if b then m else n) Q R"
  by simp

lemma ends_forB: "(\<And>x. x \<in> set xs \<Longrightarrow> ends P (f x) (\<lambda>_. P) R) \<Longrightarrow> ends P (forB f xs) (\<lambda>_. P) R"
proof (induction xs)
  case Nil
  show ?case by (simp add: ends_def)
next
  case (Cons x xs)
  then show ?case by (auto intro: ends_thenB)
qed

text \<open>A method that never returns from a state makes its sequel never return.\<close>

lemma blocked_bindB: "m s = None \<Longrightarrow> bindB m f s = None"
  by (simp add: bindB_def)

lemma blocked_thenB: "m s = None \<Longrightarrow> thenB m n s = None"
  by (simp add: thenB_def blocked_bindB)

lemma blocked_tryB: "m s = None \<Longrightarrow> tryB m h s = None"
  by (simp add: tryB_def)

lemmas blockedI = blocked_bindB blocked_thenB blocked_tryB

end
