(* ===== verification/VirtualControl.thy ===== *)
theory VirtualControl
  imports PyBlock Keyboard
begin

text \<open>
  The control sensor of a virtual machine, \<^verbatim>\<open>sensors/control/virtual.py\<close>: every operation opens a connection to libvirt,
  looks the domain up, acts on it and closes the connection, under a lock of the process when the sensor was told to
  use it.  Libvirt is an environment of arbitrary functions on an arbitrary state, which may raise at any call; the
  description of a domain is given as the tree that the XML parser makes of it.
\<close>

section \<open>Descriptions of domains\<close>

datatype xml = Element (elt_tag: string) (elt_attrs: "(string \<times> string) list") (childNodes: "xml list") | Text string

fun is_element :: "string \<Rightarrow> xml \<Rightarrow> bool" where
  "is_element t (Element n as cs) \<longleftrightarrow> n = t"
| "is_element t (Text d) \<longleftrightarrow> False"

text \<open>\<^verbatim>\<open>getElementsByTagName\<close> of an element, in the order of the document and without the element itself, and of a document.\<close>

fun elements_below :: "string \<Rightarrow> xml \<Rightarrow> xml list" where
  "elements_below t (Element n as cs) = concat (map (\<lambda>c. filter (is_element t) [c] @ elements_below t c) cs)"
| "elements_below t (Text d) = []"

definition elements_of :: "string \<Rightarrow> xml \<Rightarrow> xml list" where
  "elements_of t root = filter (is_element t) [root] @ elements_below t root"

definition getAttribute :: "string \<Rightarrow> xml \<Rightarrow> string" where
  "getAttribute a e = (case e of Element n as cs \<Rightarrow> (case map_of as a of None \<Rightarrow> [] | Some v \<Rightarrow> v) | Text d \<Rightarrow> [])"

definition first :: "'a list \<Rightarrow> 'a res" where
  "first xs = (case xs of [] \<Rightarrow> Inl IndexError | x # _ \<Rightarrow> Inr x)"

definition text_data :: "xml \<Rightarrow> string res" where
  "text_data e = (case e of Text d \<Rightarrow> Inr d | Element n as cs \<Rightarrow> Inl AttributeError)"

text \<open>The loops over the elements of a description; of several matching elements the last one counts.\<close>

fun vnc_loop :: "xml list \<Rightarrow> int option \<Rightarrow> int option res" where
  "vnc_loop [] vnc_port = Inr vnc_port"
| "vnc_loop (g # gs) vnc_port =
     (if getAttribute ''type'' g = ''vnc''
      then bindE (py_int (getAttribute ''port'' g)) (\<lambda>p. vnc_loop gs (Some p))
      else vnc_loop gs vnc_port)"

fun memory_loop :: "xml list \<Rightarrow> int option \<Rightarrow> int option res" where
  "memory_loop [] rtn = Inr rtn"
| "memory_loop (m # ms) rtn =
     (if getAttribute ''unit'' m = ''KiB''
      then bindE (first (childNodes m)) (\<lambda>c. bindE (text_data c) (\<lambda>d. bindE (py_int d) (\<lambda>n. memory_loop ms (Some (n * 1024)))))
      else memory_loop ms rtn)"

fun disk_loop :: "xml list \<Rightarrow> string option \<Rightarrow> string option res" where
  "disk_loop [] filename = Inr filename"
| "disk_loop (d # ds) filename =
     (if getAttribute ''device'' d = ''disk''
      then bindE (first (elements_below ''source'' d)) (\<lambda>src. disk_loop ds (Some (getAttribute ''file'' src)))
      else disk_loop ds filename)"

definition xml_interface :: "xml \<Rightarrow> string res" where
  "xml_interface root =
     bindE (first (elements_of ''interface'' root)) (\<lambda>iface.
     bindE (first (elements_below ''target'' iface)) (\<lambda>target. Inr (getAttribute ''dev'' target)))"

section \<open>Libvirt and the sensor\<close>

datatype mtype = PHYSICAL | XEN | KVM

datatype lvcall =
    Create | Destroy | Shutdown | Reset | Reboot | Suspend | Resume | SendKeys "nat list"
  | Save string | CreateXML string bool | RestoreFlags string | Restore string
  | NewStream | Screenshot | RecvAll string | Finish
  | LookupNetwork | LookupFilter | CreateNetwork | DefineFilter

text \<open>\<^verbatim>\<open>state(0)[0]\<close>.\<close>

datatype dom_state = NOSTATE | RUNNING | BLOCKED | PAUSED | SHUTDOWN | SHUTOFF | CRASHED | LAST | OTHER

record 'd libvirt =
  lv_open :: "('d, bool) pymethod"
  lv_lookup :: "string \<Rightarrow> ('d, unit) pymethod"
  lv_close :: "('d, unit) pymethod"
  lv_call :: "string \<Rightarrow> lvcall \<Rightarrow> ('d, unit) pymethod"
  lv_state :: "string \<Rightarrow> ('d, dom_state) pymethod"
  lv_xml :: "string \<Rightarrow> ('d, xml) pymethod"

text \<open>
  The state of the sensor and of the process.  \<open>locked\<close> is the lock of the module, and \<open>lv_log\<close> notes the calls that
  succeeded, in order.
\<close>

record 'd vctl =
  daemon :: 'd
  locked :: bool
  REQUIRE_MUTEX :: bool
  vm_name :: string
  MACHINE_TYPE :: "mtype option"
  ISOLATED_NETWORK_CREATED :: bool
  lv_log :: "lvcall list"

definition ask :: "('d, 'a) pymethod \<Rightarrow> (('d, 'z) vctl_scheme, 'a) blocking" where
  "ask m s = (case m (daemon s) of (r, d) \<Rightarrow> Some (r, s\<lparr>daemon := d\<rparr>))"

definition call :: "('d, 'e) libvirt_scheme \<Rightarrow> lvcall \<Rightarrow> (('d, 'z) vctl_scheme, unit) blocking" where
  "call lv c s =
     thenB (ask (lv_call lv (vm_name s) c)) (setB (\<lambda>s. s\<lparr>lv_log := lv_log s @ [c]\<rparr>)) s"

section \<open>Connections\<close>

definition acquire :: "(('d, 'z) vctl_scheme, unit) blocking" where
  "acquire s = (if locked s then None else Some (Inr (), s\<lparr>locked := True\<rparr>))"

definition release :: "(('d, 'z) vctl_scheme, unit) blocking" where
  "release s = (if locked s then Some (Inr (), s\<lparr>locked := False\<rparr>) else Some (Inl ValueError, s))"

text \<open>\<^verbatim>\<open>_connect\<close> tells whether the domain was found.\<close>

definition connect :: "('d, 'e) libvirt_scheme \<Rightarrow> (('d, 'z) vctl_scheme, bool) blocking" where
  "connect lv =
     bindB (getB REQUIRE_MUTEX) (\<lambda>req. thenB (whenB req acquire)
       (bindB (ask (lv_open lv)) (\<lambda>conn.
          if \<not> conn then raiseB AssertionError
          else bindB (getB vm_name) (\<lambda>n.
            tryB (thenB (ask (lv_lookup lv n)) (returnB True)) (\<lambda>e. returnB False)))))"

definition disconnect :: "('d, 'e) libvirt_scheme \<Rightarrow> (('d, 'z) vctl_scheme, unit) blocking" where
  "disconnect lv = thenB (ask (lv_close lv)) (bindB (getB REQUIRE_MUTEX) (\<lambda>req. whenB req release))"

text \<open>
  The shape of the operations: \<^verbatim>\<open>DOM = self._connect(); ...; self._disconnect()\<close>.  An exception of the body is not
  caught, so that it leaves the connection open and the lock taken.
\<close>

definition session :: "('d, 'e) libvirt_scheme \<Rightarrow> (bool \<Rightarrow> (('d, 'z) vctl_scheme, 'a) blocking) \<Rightarrow> (('d, 'z) vctl_scheme, 'a) blocking" where
  "session lv body = bindB (connect lv) (\<lambda>found. bindB (body found) (\<lambda>r. thenB (disconnect lv) (returnB r)))"

text \<open>The operations that read the description of the domain.\<close>

definition describe ::
  "('d, 'e) libvirt_scheme \<Rightarrow> (xml \<Rightarrow> 'a option res) \<Rightarrow> (('d, 'z) vctl_scheme, 'a option) blocking" where
  "describe lv f =
     session lv (\<lambda>found.
       if \<not> found then returnB None
       else bindB (getB vm_name) (\<lambda>n. bindB (ask (lv_xml lv n)) (\<lambda>root. liftB (liftS (f root)))))"

section \<open>The constructor\<close>

definition isolated_network :: "('d, 'e) libvirt_scheme \<Rightarrow> (('d, 'z) vctl_scheme, unit) blocking" where
  "isolated_network lv =
     bindB (tryB (thenB (call lv LookupNetwork) (returnB True)) (\<lambda>e. returnB False)) (\<lambda>net.
     bindB (tryB (thenB (call lv LookupFilter) (returnB True)) (\<lambda>e. returnB False)) (\<lambda>nwf.
       thenB (whenB (\<not> net) (call lv CreateNetwork))
        (thenB (whenB (\<not> nwf) (call lv DefineFilter))
          (setB (\<lambda>s. s\<lparr>ISOLATED_NETWORK_CREATED := True\<rparr>)))))"

definition detected_type :: "xml \<Rightarrow> mtype option" where
  "detected_type root =
     (let t = getAttribute ''type'' root in
      if t = ''kvm'' then Some KVM else if t = ''xen'' then Some XEN else None)"

definition init_sensor :: "('d, 'e) libvirt_scheme \<Rightarrow> string \<Rightarrow> mtype option \<Rightarrow> bool \<Rightarrow> bool \<Rightarrow> (('d, 'z) vctl_scheme, unit) blocking" where
  "init_sensor lv name_of vm_type isolated require_mutex =
     thenB (setB (\<lambda>s. s\<lparr>REQUIRE_MUTEX := require_mutex, vm_name := name_of, MACHINE_TYPE := vm_type\<rparr>))
      (bindB (connect lv) (\<lambda>found.
         thenB (whenB (found \<and> vm_type = None)
                  (bindB (ask (lv_xml lv name_of)) (\<lambda>root. setB (\<lambda>s. s\<lparr>MACHINE_TYPE := detected_type root\<rparr>))))
          (bindB (getB ISOLATED_NETWORK_CREATED) (\<lambda>created.
             thenB (whenB (isolated \<and> \<not> created) (tryB (isolated_network lv) (\<lambda>e. returnB ())))
              (thenB (disconnect lv)
                (bindB (getB MACHINE_TYPE) (\<lambda>t. whenB (t = None) (setB (\<lambda>s. s\<lparr>MACHINE_TYPE := Some KVM\<rparr>)))))))))"

section \<open>Actuation\<close>

definition get_vnc_port :: "('d, 'e) libvirt_scheme \<Rightarrow> (('d, 'z) vctl_scheme, int option) blocking" where
  "get_vnc_port lv = describe lv (\<lambda>root. vnc_loop (elements_of ''graphics'' root) None)"

text \<open>\<^verbatim>\<open>mouse_click\<close>, for the VNC client that moves and clicks.\<close>

definition mouse_click ::
  "('d, 'e) libvirt_scheme \<Rightarrow> (int \<Rightarrow> (('d, 'z) vctl_scheme, unit) blocking) \<Rightarrow> (('d, 'z) vctl_scheme, bool) blocking" where
  "mouse_click lv vnc_client =
     bindB (get_vnc_port lv) (\<lambda>vnc_port.
       case vnc_port of None \<Rightarrow> returnB False | Some p \<Rightarrow> thenB (vnc_client p) (returnB True))"

definition mouse_wiggle :: "bool \<Rightarrow> bool" where
  "mouse_wiggle enabled = True"

definition act :: "('d, 'e) libvirt_scheme \<Rightarrow> key_action \<Rightarrow> (('d, 'z) vctl_scheme, unit) blocking" where
  "act lv a = (case a of SendKey ks \<Rightarrow> call lv (SendKeys ks) | Pause n \<Rightarrow> returnB ())"

definition keypress_send :: "('d, 'e) libvirt_scheme \<Rightarrow> vmsg list \<Rightarrow> (('d, 'z) vctl_scheme, unit) blocking" where
  "keypress_send lv keypresses =
     session lv (\<lambda>found.
       if \<not> found then returnB ()
       else (case keypress_send_virtual keypresses of
         (acts, r) \<Rightarrow> thenB (forB (act lv) acts) (case r of None \<Rightarrow> returnB () | Some e \<Rightarrow> raiseB e)))"

section \<open>Power\<close>

text \<open>\<^verbatim>\<open>power_on\<close>: the exception of \<^verbatim>\<open>create\<close>, which a running domain gives, is ignored.\<close>

definition power_on :: "('d, 'e) libvirt_scheme \<Rightarrow> (('d, 'z) vctl_scheme, bool) blocking" where
  "power_on lv =
     session lv (\<lambda>found. if found then thenB (tryB (call lv Create) (\<lambda>e. returnB ())) (returnB True) else returnB False)"

definition on_domain :: "('d, 'e) libvirt_scheme \<Rightarrow> lvcall \<Rightarrow> (('d, 'z) vctl_scheme, unit) blocking" where
  "on_domain lv c = session lv (\<lambda>found. if found then call lv c else returnB ())"

definition power_off :: "('d, 'e) libvirt_scheme \<Rightarrow> (('d, 'z) vctl_scheme, unit) blocking" where
  "power_off lv = tryB (on_domain lv Destroy) (\<lambda>e. returnB ())"

definition power_shutdown :: "('d, 'e) libvirt_scheme \<Rightarrow> (('d, 'z) vctl_scheme, unit) blocking" where
  "power_shutdown lv = on_domain lv Shutdown"

definition power_reset :: "('d, 'e) libvirt_scheme \<Rightarrow> (('d, 'z) vctl_scheme, unit) blocking" where
  "power_reset lv = on_domain lv Reset"

definition power_reboot :: "('d, 'e) libvirt_scheme \<Rightarrow> (('d, 'z) vctl_scheme, unit) blocking" where
  "power_reboot lv = on_domain lv Reboot"

definition get_state :: "('d, 'e) libvirt_scheme \<Rightarrow> (('d, 'z) vctl_scheme, dom_state option) blocking" where
  "get_state lv =
     session lv (\<lambda>found.
       if found then bindB (getB vm_name) (\<lambda>n. bindB (ask (lv_state lv n)) (\<lambda>st. returnB (Some st))) else returnB None)"

text \<open>\<open>None\<close> is the status \<^verbatim>\<open>UNKNOWN\<close>.\<close>

definition status_of :: "dom_state option \<Rightarrow> string option" where
  "status_of st =
     (case st of
        None \<Rightarrow> None
      | Some x \<Rightarrow>
          if x \<in> {RUNNING, BLOCKED, PAUSED} then Some ''ON''
          else if x \<in> {SHUTDOWN, SHUTOFF} then Some ''OFF''
          else None)"

definition power_status :: "('d, 'e) libvirt_scheme \<Rightarrow> (('d, 'z) vctl_scheme, string option) blocking" where
  "power_status lv = bindB (get_state lv) (\<lambda>st. returnB (status_of st))"

section \<open>Machine control\<close>

definition machine_create :: "('d, 'e) libvirt_scheme \<Rightarrow> string \<Rightarrow> bool \<Rightarrow> (('d, 'z) vctl_scheme, unit) blocking" where
  "machine_create lv xml_config paused =
     session lv (\<lambda>found.
       if found then returnB ()
       else if paused then
         bindB (getB MACHINE_TYPE) (\<lambda>t.
           if t = Some KVM then call lv (CreateXML xml_config True)
           else thenB (call lv (CreateXML xml_config False)) (call lv Suspend))
       else call lv (CreateXML xml_config False))"

definition machine_pause :: "('d, 'e) libvirt_scheme \<Rightarrow> (('d, 'z) vctl_scheme, unit) blocking" where
  "machine_pause lv = on_domain lv Suspend"

definition machine_resume :: "('d, 'e) libvirt_scheme \<Rightarrow> (('d, 'z) vctl_scheme, unit) blocking" where
  "machine_resume lv = on_domain lv Resume"

text \<open>
  The snapshots: the names \<^verbatim>\<open>SNAPSHOT_NAME\<close>, \<^verbatim>\<open>SNAPSHOT_XML\<close>, \<^verbatim>\<open>detach_usb\<close> and \<^verbatim>\<open>machine_reset\<close> are no attributes of the
  sensor, so that the lookup of the snapshot raises before libvirt is asked.
\<close>

definition machine_snapshot :: "('d, 'e) libvirt_scheme \<Rightarrow> (('d, 'z) vctl_scheme, bool option) blocking" where
  "machine_snapshot lv =
     bindB (getB MACHINE_TYPE) (\<lambda>t.
       if t = Some XEN then returnB (Some False)
       else session lv (\<lambda>found.
         if found \<and> t = Some KVM then tryB (raiseB AttributeError) (\<lambda>e. raiseB AttributeError) else returnB None))"

definition machine_snapshot_restore :: "('d, 'e) libvirt_scheme \<Rightarrow> (('d, 'z) vctl_scheme, bool) blocking" where
  "machine_snapshot_restore lv = bindB (getB MACHINE_TYPE) (\<lambda>t. raiseB AttributeError)"

definition has_lophi_snapshot :: "('d, 'e) libvirt_scheme \<Rightarrow> (('d, 'z) vctl_scheme, bool) blocking" where
  "has_lophi_snapshot lv =
     session lv (\<lambda>found. if found then tryB (raiseB AttributeError) (\<lambda>e. returnB False) else returnB False)"

definition machine_save :: "('d, 'e) libvirt_scheme \<Rightarrow> string \<Rightarrow> (('d, 'z) vctl_scheme, unit) blocking" where
  "machine_save lv filename =
     bindB (getB MACHINE_TYPE) (\<lambda>t.
       thenB (whenB (t = Some XEN) (machine_resume lv)) (on_domain lv (Save filename)))"

definition machine_restore :: "('d, 'e) libvirt_scheme \<Rightarrow> string \<Rightarrow> bool \<Rightarrow> (('d, 'z) vctl_scheme, unit) blocking" where
  "machine_restore lv filename paused =
     session lv (\<lambda>found.
       bindB (getB MACHINE_TYPE) (\<lambda>t.
         if t = Some KVM then call lv (if paused then RestoreFlags filename else Restore filename)
         else whenB (\<not> paused) (call lv (Restore filename))))"

section \<open>Descriptions and screens\<close>

text \<open>\<^verbatim>\<open>screenshot\<close>: \<open>None\<close> is the value \<^verbatim>\<open>False\<close>; a domain that does not exist gives the name of a file that was not written.\<close>

definition screenshot :: "('d, 'e) libvirt_scheme \<Rightarrow> string \<Rightarrow> (('d, 'z) vctl_scheme, string option) blocking" where
  "screenshot lv filename =
     (let rtn = filename @ ''.ppm'' in
      session lv (\<lambda>found.
        if found then
          tryB (thenB (call lv NewStream) (thenB (call lv Screenshot) (thenB (call lv (RecvAll rtn))
                 (thenB (call lv Finish) (returnB (Some rtn)))))) (\<lambda>e. returnB None)
        else returnB (Some rtn)))"

definition memory_get_size :: "('d, 'e) libvirt_scheme \<Rightarrow> (('d, 'z) vctl_scheme, int option) blocking" where
  "memory_get_size lv = describe lv (\<lambda>root. memory_loop (elements_of ''currentMemory'' root) None)"

definition disk_get_filename :: "('d, 'e) libvirt_scheme \<Rightarrow> (('d, 'z) vctl_scheme, string option) blocking" where
  "disk_get_filename lv = describe lv (\<lambda>root. disk_loop (elements_of ''disk'' root) None)"

definition network_get_interface :: "('d, 'e) libvirt_scheme \<Rightarrow> (('d, 'z) vctl_scheme, string option) blocking" where
  "network_get_interface lv =
     session lv (\<lambda>found.
       if \<not> found then returnB None
       else tryB (bindB (getB vm_name) (\<lambda>n. bindB (ask (lv_xml lv n)) (\<lambda>root.
                    bindB (liftB (liftS (xml_interface root))) (\<lambda>dev. returnB (Some dev)))))
              (\<lambda>e. returnB None))"

end
