(* ===== verification/Ping.thy ===== *)
theory Ping
  imports Prelude
begin

text \<open>
  Echo requests, \<^verbatim>\<open>lophi/network/ping.py\<close>, with which a machine finds out whether its network is up: the checksum of the
  request, and the wait for an answer.
\<close>

section \<open>The request\<close>

text \<open>
  The loop of \<^verbatim>\<open>checksum\<close> over pairs of bytes, with a last single byte; the sum is cut to 32 bits at each turn.
\<close>

fun sum_words :: "bytes \<Rightarrow> nat \<Rightarrow> nat" where
  "sum_words [] s = s"
| "sum_words [b] s = (s + unat b) mod 2 ^ 32"
| "sum_words (b0 # b1 # bs) s = sum_words bs ((s + (unat b1 * 256 + unat b0)) mod 2 ^ 32)"

definition checksum :: "bytes \<Rightarrow> nat" where
  "checksum source_string =
     (let s = sum_words source_string 0;
          s1 = s div 2 ^ 16 + s mod 2 ^ 16;
          s2 = s1 + s1 div 2 ^ 16;
          answer = nat ((- int s2 - 1) mod 2 ^ 16)
      in answer div 2 ^ 8 + (answer * 2 ^ 8) mod 2 ^ 16)"

text \<open>\<^verbatim>\<open>htons\<close> on a machine that stores the low byte first.\<close>

definition htons :: "nat \<Rightarrow> nat" where
  "htons v = v div 256 + (v mod 256) * 256"

text \<open>\<^verbatim>\<open>struct.pack('bbHHh', ICMP_ECHO_REQUEST, 0, c, id, 1)\<close>.\<close>

definition icmp_header :: "nat \<Rightarrow> nat \<Rightarrow> bytes res" where
  "icmp_header c packet_id =
     (if c < 65536 \<and> packet_id < 65536
      then Inr ([8, 0] @ le_bytes 2 c @ le_bytes 2 packet_id @ le_bytes 2 1) else Inl StructError)"

definition create_packet :: "nat \<Rightarrow> bytes res" where
  "create_packet packet_id =
     (let data = replicate 192 (81 :: byte) in
      bindE (icmp_header 0 packet_id) (\<lambda>header.
      bindE (icmp_header (htons (checksum (header @ data))) packet_id) (\<lambda>header1. Inr (header1 @ data))))"

section \<open>The answer\<close>

text \<open>
  \<^verbatim>\<open>response_handler\<close>: the packets that arrive, each with the time at which it does; the rest of the allowed time is
  reduced by the whole time since the request with every packet of another process.
\<close>

fun response_handler :: "(int \<times> bytes) list \<Rightarrow> nat \<Rightarrow> int \<Rightarrow> int \<Rightarrow> int \<Rightarrow> int option res" where
  "response_handler [] packet_id time_sent now timeout = Inr None"
| "response_handler ((time_received, rec_packet) # later) packet_id time_sent now timeout =
     (if time_received - now > timeout then Inr None
      else let icmp = slice 20 28 rec_packet in
        if length icmp \<noteq> 8 then Inl StructError
        else if le_val (slice 4 6 icmp) = packet_id then Inr (Some (time_received - time_sent))
        else let timeout1 = timeout - (time_received - time_sent) in
          if timeout1 \<le> 0 then Inr None else response_handler later packet_id time_sent time_received timeout1)"

text \<open>\<^verbatim>\<open>network_get_status\<close> of a machine: a delay of zero counts as no answer.\<close>

definition network_get_status :: "string option \<Rightarrow> (string \<Rightarrow> int option res) \<Rightarrow> bool res" where
  "network_get_status ip echo =
     (case ip of
        None \<Rightarrow> Inr False
      | Some a \<Rightarrow> bindE (echo a) (\<lambda>resp. Inr (case resp of None \<Rightarrow> False | Some d \<Rightarrow> d \<noteq> 0)))"

section \<open>The checksum of the protocol\<close>

text \<open>
  The sum of the protocol: words are added with the carry brought around, so that sums of words are counted modulo
  65535, with 65535 in place of zero unless all words are zero.
\<close>

fun word_sum :: "bytes \<Rightarrow> nat" where
  "word_sum [] = 0"
| "word_sum [b] = unat b"
| "word_sum (b0 # b1 # bs) = le_val [b0, b1] + word_sum bs"

definition ones_sum :: "nat \<Rightarrow> nat" where
  "ones_sum s = (if s = 0 then 0 else (s - 1) mod 65535 + 1)"

lemma le_val_pair: "le_val [b0, b1] = unat b0 + 256 * unat b1"
  by simp

lemma word_sum_bound: "2 * word_sum bs \<le> 65535 * (length bs + 1)"
proof (induction bs rule: word_sum.induct)
  case (2 b)
  then show ?case using unat_byte_less [of b] by (simp del: unat_byte_less)
next
  case (3 b0 b1 bs)
  then show ?case using unat_byte_less [of b0] unat_byte_less [of b1] by (simp add: le_val_pair del: unat_byte_less)
qed simp

lemma sum_words_eq: "s + word_sum bs < 2 ^ 32 \<Longrightarrow> sum_words bs s = s + word_sum bs"
  by (induction bs s rule: sum_words.induct) (simp_all add: algebra_simps)

lemma folded_twice:
  fixes s :: nat
  assumes "s < 2 ^ 32"
  defines "s1 \<equiv> s div 2 ^ 16 + s mod 2 ^ 16"
  shows "(s1 + s1 div 2 ^ 16) mod 2 ^ 16 = ones_sum s"
proof -
  define q r where "q = s div 65536" and "r = s mod 65536"
  have q: "q \<le> 65535" and r: "r \<le> 65535" and s: "s = 65535 * q + (q + r)"
    using assms(1) by (simp_all add: q_def r_def)
  have s1: "s1 = q + r" by (simp add: s1_def q_def r_def)
  show ?thesis
  proof (cases "q + r = 0")
    case True
    then show ?thesis by (simp add: s s1 ones_sum_def)
  next
    case False
    then have "s - 1 = 65535 * q + (q + r - 1)" by (simp add: s)
    moreover have "ones_sum s = (s - 1) mod 65535 + 1" using False s by (simp add: ones_sum_def)
    ultimately have o: "ones_sum s = (q + r - 1) mod 65535 + 1" by (simp only: mod_mult_self4)
    show ?thesis
    proof (cases "q + r \<le> 65535")
      case True
      then show ?thesis using False by (simp add: o s1)
    next
      case large: False
      have "(q + r - 1) mod 65535 = q + r - 1 - 65535" using large q r by (subst le_mod_geq) simp_all
      moreover have "(q + r) div 65536 = 1" using large q r by simp
      moreover have "(q + r + 1) mod 65536 = q + r + 1 - 65536" using large q r by (subst le_mod_geq) simp_all
      ultimately show ?thesis using large by (simp add: o s1)
    qed
  qed
qed

lemma complement_mod: "(- x - 1) mod 65536 = 65535 - x mod (65536 :: int)"
proof -
  have "65536 * (x div 65536) + x mod 65536 = x" by (rule mult_div_mod_eq)
  then have "- x - 1 = (65535 - x mod 65536) + (- (x div 65536) - 1) * 65536"
    unfolding left_diff_distrib mult_minus_left by linarith
  moreover have "0 \<le> 65535 - x mod 65536" "65535 - x mod 65536 < 65536" by simp_all
  ultimately show ?thesis by (metis mod_mult_self1 mod_pos_pos_trivial)
qed

text \<open>
  The checksum is that of the protocol, for up to 65536 words: the complement of their sum, with its two bytes
  exchanged.
\<close>

lemma checksum_eq:
  assumes "length bs \<le> 131072"
  shows "checksum bs = htons (65535 - ones_sum (word_sum bs))"
proof -
  have s: "word_sum bs < 2 ^ 32" using word_sum_bound [of bs] assms by simp
  then have sum: "sum_words bs 0 = word_sum bs" using sum_words_eq [of 0 bs] by simp
  define s2 where
    "s2 = word_sum bs div 2 ^ 16 + word_sum bs mod 2 ^ 16 + (word_sum bs div 2 ^ 16 + word_sum bs mod 2 ^ 16) div 2 ^ 16"
  have m: "s2 mod 2 ^ 16 = ones_sum (word_sum bs)" unfolding s2_def by (rule folded_twice [OF s])
  have "(- int s2 - 1) mod 65536 = 65535 - int s2 mod 65536" by (rule complement_mod)
  then have "(- int s2 - 1) mod 2 ^ 16 = 65535 - int (s2 mod 2 ^ 16)" by (simp add: of_nat_mod)
  then have c: "nat ((- int s2 - 1) mod 2 ^ 16) = 65535 - ones_sum (word_sum bs)" unfolding m by simp
  have swap: "(a * 2 ^ 8) mod 2 ^ 16 = (a mod 256) * 256" for a :: nat
    using mod_mult_mult2 [of a 256 256] by simp
  show ?thesis
    unfolding checksum_def Let_def sum s2_def [symmetric] c swap htons_def by simp
qed

lemma word_sum_append: "even (length a) \<Longrightarrow> word_sum (a @ b) = word_sum a + word_sum b"
  by (induction a rule: word_sum.induct) simp_all

lemma word_sum_le_bytes: "v < 65536 \<Longrightarrow> word_sum (le_bytes 2 v) = v"
proof -
  assume v: "v < 65536"
  obtain b0 b1 where b: "le_bytes 2 v = [b0, b1]" by (simp add: numeral_2_eq_2)
  then show ?thesis using v le_val_le_bytes [of v 2] by simp
qed

lemma htons_twice: "v < 65536 \<Longrightarrow> htons (htons v) = v"
  by (simp add: htons_def)

text \<open>Adding the complement of a sum gives the sum of all ones.\<close>

lemma ones_sum_complement: "0 < s \<Longrightarrow> ones_sum (s + (65535 - ones_sum s)) = 65535"
proof -
  assume s: "0 < s"
  define k where "k = (s - 1) div 65535"
  have "s - 1 = 65535 * k + (s - 1) mod 65535" by (simp add: k_def)
  then have "s + (65535 - ones_sum s) = 65535 * (k + 1)"
    using s by (simp add: ones_sum_def)
  moreover have "(65535 * (k + 1) - 1) mod 65535 = (65534 :: nat)"
  proof -
    have "65535 * (k + 1) - 1 = 65534 + 65535 * k" by simp
    then show ?thesis by (simp only: mod_mult_self2) simp
  qed
  ultimately show ?thesis by (simp add: ones_sum_def)
qed

text \<open>
  A receiver accepts every echo request: the words of the packet, its checksum included, add up to all ones.
\<close>

theorem echo_request_valid:
  assumes "packet_id < 65536"
  shows "\<exists>packet. create_packet packet_id = Inr packet \<and> length packet = 200 \<and> ones_sum (word_sum packet) = 65535"
proof -
  let ?data = "replicate 192 (81 :: byte)"
  let ?packet = "\<lambda>c. ([8, 0] @ le_bytes 2 c @ le_bytes 2 packet_id @ le_bytes 2 1) @ ?data"
  have sum: "word_sum (?packet c) = 8 + c + packet_id + 1 + word_sum ?data" if "c < 65536" for c
    using that assms word_sum_le_bytes [of c] word_sum_le_bytes [of packet_id] word_sum_le_bytes [of 1]
    by (simp only: append_assoc) (simp add: word_sum_append del: replicate_Suc One_nat_def)
  let ?s = "word_sum (?packet 0)"
  have c: "htons (checksum (?packet 0)) = 65535 - ones_sum ?s"
    using checksum_eq [of "?packet 0"] by (simp add: htons_twice)
  have "word_sum (?packet (65535 - ones_sum ?s)) = ?s + (65535 - ones_sum ?s)" using sum [of 0] sum [of "65535 - ones_sum ?s"] by simp
  moreover have "0 < ?s" using sum [of 0] by simp
  ultimately have "ones_sum (word_sum (?packet (65535 - ones_sum ?s))) = 65535" by (simp only: ones_sum_complement)
  moreover have "create_packet packet_id = Inr (?packet (65535 - ones_sum ?s))"
    using assms c by (simp add: create_packet_def icmp_header_def Let_def)
  ultimately show ?thesis by (intro exI [of _ "?packet (65535 - ones_sum ?s)"]) simp
qed

theorem echo_request_valid_witness:
  "\<exists>packet. create_packet 4711 = Inr packet \<and> length packet = 200 \<and> ones_sum (word_sum packet) = 65535"
  by (rule echo_request_valid) simp

end
