(* ===== verification/VirtualMachine.thy ===== *)
theory VirtualMachine
  imports VirtualControl Ping
begin

text \<open>
  Virtual machines, \<^verbatim>\<open>machine/virtual.py\<close> with what they inherit from \<^verbatim>\<open>machine/__init__.py\<close>: the description from which
  libvirt makes a domain, the addresses of new machines, power control, profiles and the reverting of the disk.  The
  files of the host, the class attribute that counts addresses and the commands that are run are fields of the state.
\<close>

section \<open>Descriptions\<close>

definition unlines :: "string list \<Rightarrow> string" where
  "unlines ls = concat (map (\<lambda>l. l @ [newline]) ls)"

definition TEMPLATE_XEN :: string where
  "TEMPLATE_XEN = unlines [
    ''<domain type='xen'>'',
    ''  <name>%%VMNAME%%</name>'',
    ''    <uuid></uuid>'',
    ''  <memory>%%MEM_SIZE%%</memory>'',
    ''  <currentMemory>%%MEM_SIZE%%</currentMemory>'',
    ''  <vcpu>%%CPU_COUNT%%</vcpu>'',
    ''  <os>'',
    ''    <type>hvm</type>'',
    ''    <loader>/usr/lib/xen-default/boot/hvmloader</loader>'',
    ''    <boot dev='hd'/>'',
    ''  </os>'',
    ''  <features>'',
    ''    <acpi/>'',
    ''    <apic/>'',
    ''    <pae/>'',
    ''  </features>'',
    ''  <clock offset='localtime'>'',
    ''    <timer name='hpet' present='no'/>'',
    ''  </clock>'',
    ''  <on_poweroff>destroy</on_poweroff>'',
    ''  <on_reboot>restart</on_reboot>'',
    ''  <on_crash>restart</on_crash>'',
    ''  <devices>'',
    ''    <emulator>/usr/lib/xen-default/bin/qemu-dm</emulator>'',
    ''    <disk type='file' device='disk'>'',
    ''      <driver name='tap' type='qcow2'/>'',
    ''      <source file='%%DISKIMG%%'/>'',
    ''      <target dev='xvda' bus='xen'/>'',
    ''    </disk>'',
    ''    <interface type='network'>'',
    ''      <mac address='%%MACADDR%%'/>'',
    ''      <source network='network-lophi'/>'',
    ''      <filterref filter='isolated-lophi'>'',
    ''        <parameter name='GATEWAY_MAC' value='aa:bb:cc:dd:ee:ff'/>'',
    ''      </filterref>'',
    ''    </interface>'',
    ''    <serial type='pty'>'',
    ''      <target port='0'/>'',
    ''    </serial>'',
    ''    <console type='pty'>'',
    ''      <target type='serial' port='0'/>'',
    ''    </console>'',
    ''    <input type='tablet' bus='usb'/>'',
    ''    <input type='mouse' bus='ps2'/>'',
    ''    <graphics type='vnc' port='-1' autoport='yes' keymap='en-us'/>'',
    ''    <sound model='es1370'/>'',
    ''  </devices>'',
    ''</domain>'']"

definition TEMPLATE_KVM :: string where
  "TEMPLATE_KVM = unlines [
    ''<domain type='kvm'>'',
    ''  <name>%%VMNAME%%</name>'',
    ''  <uuid></uuid>'',
    ''  <memory>%%MEM_SIZE%%</memory>'',
    ''  <currentMemory>%%MEM_SIZE%%</currentMemory>'',
    ''  <vcpu>%%CPU_COUNT%%</vcpu>'',
    ''  <os>'',
    ''    <type arch='x86_64' machine='pc-i440fx-trusty'>hvm</type>'',
    ''    <boot dev='hd'/>'',
    ''  </os>'',
    ''  <features>'',
    ''    <acpi/>'',
    ''    <apic/>'',
    ''    <pae/>'',
    ''  </features>'',
    ''  <clock offset='localtime'/>'',
    ''  <on_poweroff>destroy</on_poweroff>'',
    ''  <on_reboot>restart</on_reboot>'',
    ''  <on_crash>restart</on_crash>'',
    ''  <devices>'',
    ''    <emulator>/usr/bin/kvm-spice</emulator>'',
    ''    <disk type='file' device='disk'>'',
    ''      <driver name='qemu' type='qcow2'/>'',
    ''      <source file='%%DISKIMG%%'/>'',
    ''      <target dev='hda' bus='ide'/>'',
    ''      <address type='drive' controller='0' bus='0' unit='0'/>'',
    ''    </disk>'',
    ''    <disk type='file' device='cdrom'>'',
    ''      <driver name='qemu' type='raw'/>'',
    ''      <target dev='hdc' bus='ide'/>'',
    ''      <readonly/>'',
    ''      <address type='drive' controller='0' bus='1' unit='0'/>'',
    ''    </disk>'',
    ''    <controller type='ide' index='0'>'',
    ''      <address type='pci' domain='0x0000' bus='0x00' slot='0x01' function='0x1'/>'',
    ''    </controller>'',
    ''    <interface type='network'>'',
    ''      <mac address='%%MACADDR%%'/>'',
    ''      <source network='network-lophi'/>'',
    ''      <address type='pci' domain='0x0000' bus='0x00' slot='0x03' function='0x0'/>'',
    ''      <filterref filter='isolated-lophi'>'',
    ''        <parameter name='GATEWAY_MAC' value='aa:bb:cc:dd:ee:ff'/>'',
    ''      </filterref>'',
    ''    </interface>'',
    ''    <serial type='pty'>'',
    ''      <target port='0'/>'',
    ''    </serial>'',
    ''    <console type='pty'>'',
    ''      <target type='serial' port='0'/>'',
    ''    </console>'',
    ''    <input type='tablet' bus='usb'/>'',
    ''    <input type='mouse' bus='ps2'/>'',
    ''    <graphics type='vnc' port='-1' autoport='yes'/>'',
    ''    <sound model='ich6'>'',
    ''      <address type='pci' domain='0x0000' bus='0x00' slot='0x04' function='0x0'/>'',
    ''    </sound>'',
    ''    <video>'',
    ''      <model type='vga' vram='9216' heads='1'/>'',
    ''      <address type='pci' domain='0x0000' bus='0x00' slot='0x02' function='0x0'/>'',
    ''    </video>'',
    ''    <memballoon model='virtio'>'',
    ''      <address type='pci' domain='0x0000' bus='0x00' slot='0x05' function='0x0'/>'',
    ''    </memballoon>'',
    ''  </devices>'',
    ''</domain>'']"

definition VIRSH_TEMPLATE :: "mtype \<Rightarrow> string res" where
  "VIRSH_TEMPLATE t = (case t of XEN \<Rightarrow> Inr TEMPLATE_XEN | KVM \<Rightarrow> Inr TEMPLATE_KVM | PHYSICAL \<Rightarrow> Inl KeyError)"

text \<open>The placeholders of the templates.\<close>

definition marker :: "string \<Rightarrow> string" where
  "marker n = ''%%'' @ n @ ''%%''"

definition generate_new_xen_xml :: "string \<Rightarrow> string \<Rightarrow> string \<Rightarrow> string \<Rightarrow> nat \<Rightarrow> nat \<Rightarrow> string" where
  "generate_new_xen_xml template name_of disk_img mac_addr memory_size cpu_count =
     (let tmp = template;
          tmp = replace_all (marker ''VMNAME'') name_of tmp;
          tmp = replace_all (marker ''DISKIMG'') disk_img tmp;
          tmp = replace_all (marker ''MACADDR'') mac_addr tmp;
          tmp = replace_all (marker ''MEM_SIZE'') (nat_str memory_size) tmp;
          tmp = replace_all (marker ''CPU_COUNT'') (nat_str cpu_count) tmp
      in tmp)"

section \<open>Addresses\<close>

definition FIRST_MAC :: nat where "FIRST_MAC = 18090670686208"

definition mac_text :: "nat \<Rightarrow> string" where
  "mac_text n = (let mac = hex_str n in join_with CHR '':'' (map (\<lambda>x. slice (x * 2) (x * 2 + 2) mac) [0..<6]))"

section \<open>State\<close>

datatype machine_state = OFF | STARTED | SNAPSHOTTING | RESTORING | RESUMING | PAUSED_STATE | UNKNOWN

datatype disk_state = REVERTED | DIRTY | UNKNOWN_DISK

record 'd vm = "'d vctl" +
  vm_type :: mtype
  mac_addr :: string
  vm_disk :: string
  disk_base :: "string option"
  vm_config :: string
  profile :: "string option"
  images :: "(string \<rightharpoonup> string) option"
  control_sensor :: bool
  memory_sensor :: bool
  disk_sensor :: "string option"
  network_sensor :: "string option"
  MACHINE_STATE_OF :: machine_state
  DISK_STATE_OF :: disk_state
  MAC_ADDR :: nat
  files :: "string \<rightharpoonup> string"
  commands :: "string list list"

type_synonym ('d, 'a) vmethod = "('d vm, 'a) blocking"

definition VM_DIR :: string where "VM_DIR = ''/opt/lophi/vms''"
definition IMAGE_DIR :: string where "IMAGE_DIR = ''/opt/lophi/disk_images''"

definition get_new_mac :: "('d, string) vmethod" where
  "get_new_mac = bindB (getB MAC_ADDR) (\<lambda>n. thenB (setB (\<lambda>s. s\<lparr>MAC_ADDR := n + 1\<rparr>)) (returnB (mac_text n)))"

section \<open>The configuration file\<close>

text \<open>The memory size and the number of processors of the machine are not passed on.\<close>

definition config_create :: "('d, unit) vmethod" where
  "config_create s =
     (case VIRSH_TEMPLATE (vm_type s) of
        Inl e \<Rightarrow> Some (Inl e, s)
      | Inr template \<Rightarrow>
          Some (Inr (), s\<lparr>files := (files s)(vm_config s \<mapsto>
            generate_new_xen_xml template (vm_name s) (vm_disk s) (mac_addr s) 1048576 1)\<rparr>))"

definition config_read :: "('d, string) vmethod" where
  "config_read =
     bindB (getB (\<lambda>s. files s (vm_config s))) (\<lambda>content.
       thenB (whenB (content = None) config_create)
        (bindB (getB (\<lambda>s. files s (vm_config s))) (\<lambda>content.
           case content of None \<Rightarrow> raiseB IOError | Some c \<Rightarrow> returnB c)))"

text \<open>\<^verbatim>\<open>lophi_init\<close>: the message for a missing sensor is formatted with an argument it has no place for.\<close>

definition lophi_init :: "('d, unit) vmethod" where
  "lophi_init = bindB (getB control_sensor) (\<lambda>c. if c then config_create else raiseB TypeError)"

section \<open>Disks\<close>

definition disk_create_cow :: "string \<Rightarrow> ('d, unit) vmethod" where
  "disk_create_cow base_filename =
     setB (\<lambda>s. s\<lparr>disk_base := Some base_filename,
       commands := commands s @ [[''qemu-img'', ''create'', ''-b'' @ base_filename, ''-fqcow2'', vm_disk s]]\<rparr>)"

definition vm_disk_revert :: "('d, bool) vmethod" where
  "vm_disk_revert =
     bindB (getB disk_base) (\<lambda>b.
       case b of None \<Rightarrow> returnB False | Some base \<Rightarrow> thenB (disk_create_cow base) (returnB True))"

definition vm_set_volatility_profile :: "string \<Rightarrow> ('d, bool) vmethod" where
  "vm_set_volatility_profile profile_name =
     thenB (setB (\<lambda>s. s\<lparr>profile := Some profile_name\<rparr>))
      (bindB (getB control_sensor) (\<lambda>c.
         if \<not> c then raiseB TypeError
         else bindB (getB images) (\<lambda>m.
           case m of
             None \<Rightarrow> returnB False
           | Some im \<Rightarrow>
               (case im (lower profile_name) of
                  None \<Rightarrow> returnB False
                | Some base_filename \<Rightarrow>
                    thenB (setB (\<lambda>s. s\<lparr>disk_base := Some (path_join IMAGE_DIR base_filename)\<rparr>)) (returnB True)))))"

definition vm_disk_get_filename :: "('d, 'e) libvirt_scheme \<Rightarrow> ('d, string option) vmethod" where
  "vm_disk_get_filename lv = bindB (getB control_sensor) (\<lambda>c. if c then disk_get_filename lv else returnB None)"

section \<open>Construction\<close>

definition vm_init ::
  "('d, 'e) libvirt_scheme \<Rightarrow> string \<Rightarrow> mtype \<Rightarrow> string option \<Rightarrow> bool \<Rightarrow> string option \<Rightarrow> ('d, unit) vmethod" where
  "vm_init lv name_of type_of static_mac force_new profile_name =
     bindB (case static_mac of None \<Rightarrow> get_new_mac | Some m \<Rightarrow> returnB m) (\<lambda>mac.
     thenB (setB (\<lambda>s. s\<lparr>vm_type := type_of, vm_name := name_of, mac_addr := mac,
              vm_disk := path_join VM_DIR (name_of @ ''.qcow2''), disk_base := None,
              vm_config := path_join VM_DIR (name_of @ ''.xml''), profile := profile_name, images := None,
              control_sensor := False, memory_sensor := False, disk_sensor := None, network_sensor := None,
              MACHINE_STATE_OF := UNKNOWN, DISK_STATE_OF := UNKNOWN_DISK\<rparr>))
     (thenB (init_sensor lv name_of (Some type_of) True False)
     (thenB (setB (\<lambda>s. s\<lparr>control_sensor := True\<rparr>))
     (bindB (get_state lv) (\<lambda>state.
      thenB (whenB (force_new \<and> state = None) lophi_init)
     (bindB (vm_disk_get_filename lv) (\<lambda>disk.
      thenB (setB (\<lambda>s. s\<lparr>disk_sensor := Some (case disk of None \<Rightarrow> vm_disk s | Some d \<Rightarrow> d), memory_sensor := True\<rparr>))
     (bindB (network_get_interface lv) (\<lambda>net_iface.
      setB (\<lambda>s. s\<lparr>network_sensor := (case net_iface of None \<Rightarrow> network_sensor s | Some i \<Rightarrow> Some i)\<rparr>))))))))))"

section \<open>Power and machine control\<close>

text \<open>What an operation gives if the machine has no control sensor.\<close>

definition with_control :: "'a \<Rightarrow> ('d, 'a) vmethod \<Rightarrow> ('d, 'a) vmethod" where
  "with_control none m = bindB (getB control_sensor) (\<lambda>c. if c then m else returnB none)"

definition set_state :: "machine_state \<Rightarrow> ('d, unit) vmethod" where
  "set_state x = setB (\<lambda>s. s\<lparr>MACHINE_STATE_OF := x\<rparr>)"

definition set_dirty :: "('d, unit) vmethod" where
  "set_dirty = setB (\<lambda>s. s\<lparr>DISK_STATE_OF := DIRTY\<rparr>)"

definition vm_machine_create :: "('d, 'e) libvirt_scheme \<Rightarrow> bool \<Rightarrow> ('d, unit) vmethod" where
  "vm_machine_create lv paused =
     with_control ()
      (bindB config_read (\<lambda>xml_config.
         thenB (machine_create lv xml_config paused)
          (bindB (network_get_interface lv) (\<lambda>net_iface.
             setB (\<lambda>s. s\<lparr>network_sensor := (case net_iface of None \<Rightarrow> network_sensor s | Some i \<Rightarrow> Some i)\<rparr>)))))"

definition vm_power_on :: "('d, 'e) libvirt_scheme \<Rightarrow> ('d, unit) vmethod" where
  "vm_power_on lv =
     with_control ()
      (bindB (power_on lv) (\<lambda>ok. thenB (whenB (\<not> ok) (vm_machine_create lv False)) (set_state STARTED)))"

definition vm_power_status :: "('d, 'e) libvirt_scheme \<Rightarrow> ('d, string option) vmethod" where
  "vm_power_status lv = with_control None (power_status lv)"

text \<open>
  \<^verbatim>\<open>power_off\<close> of the class \<^verbatim>\<open>Machine\<close>: the sensor returns \<^verbatim>\<open>None\<close>, so that the loop that would wait is not entered.
  The result \<open>None\<close> is that \<^verbatim>\<open>None\<close>.
\<close>

definition vm_power_off :: "('d, 'e) libvirt_scheme \<Rightarrow> ('d, bool option) vmethod" where
  "vm_power_off lv =
     with_control None
      (bindB (vm_power_status lv) (\<lambda>st.
         if st = Some ''ON'' then thenB (power_off lv) (returnB None) else returnB (Some True)))"

definition vm_power_shutdown :: "('d, 'e) libvirt_scheme \<Rightarrow> ('d, unit) vmethod" where
  "vm_power_shutdown lv = with_control () (power_shutdown lv)"

definition vm_power_reset :: "('d, 'e) libvirt_scheme \<Rightarrow> ('d, unit) vmethod" where
  "vm_power_reset lv = with_control () (power_reset lv)"

definition vm_power_reboot :: "('d, 'e) libvirt_scheme \<Rightarrow> ('d, unit) vmethod" where
  "vm_power_reboot lv = with_control () (power_reboot lv)"

definition vm_machine_pause :: "('d, 'e) libvirt_scheme \<Rightarrow> ('d, unit) vmethod" where
  "vm_machine_pause lv = with_control () (thenB (machine_pause lv) (set_state PAUSED_STATE))"

definition vm_machine_resume :: "('d, 'e) libvirt_scheme \<Rightarrow> ('d, unit) vmethod" where
  "vm_machine_resume lv =
     with_control () (thenB (set_state RESUMING) (thenB (machine_resume lv) (thenB (set_state STARTED) set_dirty)))"

definition vm_machine_snapshot :: "('d, 'e) libvirt_scheme \<Rightarrow> ('d, bool option) vmethod" where
  "vm_machine_snapshot lv =
     with_control None
      (thenB (set_state SNAPSHOTTING) (bindB (machine_snapshot lv) (\<lambda>rtn. thenB (set_state OFF) (returnB rtn))))"

definition vm_machine_snapshot_restore :: "('d, 'e) libvirt_scheme \<Rightarrow> ('d, bool option) vmethod" where
  "vm_machine_snapshot_restore lv = with_control None (bindB (machine_snapshot_restore lv) (\<lambda>b. returnB (Some b)))"

definition vm_has_lophi_snapshot :: "('d, 'e) libvirt_scheme \<Rightarrow> ('d, bool option) vmethod" where
  "vm_has_lophi_snapshot lv = with_control None (bindB (has_lophi_snapshot lv) (\<lambda>b. returnB (Some b)))"

definition vm_memory_get_size :: "('d, 'e) libvirt_scheme \<Rightarrow> ('d, int option) vmethod" where
  "vm_memory_get_size lv = bindB (getB memory_sensor) (\<lambda>m. if m then memory_get_size lv else returnB None)"

definition vm_network_get_interface :: "('d, 'e) libvirt_scheme \<Rightarrow> ('d, string option) vmethod" where
  "vm_network_get_interface lv = bindB (getB control_sensor) (\<lambda>c. if c then network_get_interface lv else raiseB AttributeError)"

definition vm_screenshot :: "('d, 'e) libvirt_scheme \<Rightarrow> string \<Rightarrow> ('d, string option) vmethod" where
  "vm_screenshot lv filename = bindB (getB control_sensor) (\<lambda>c. if c then screenshot lv filename else raiseB AttributeError)"

text \<open>The configuration of a machine has no \<^verbatim>\<open>disk_snapshot\<close> and no \<^verbatim>\<open>disk_orig\<close>.\<close>

definition vm_machine_save :: "('d, unit) vmethod" where
  "vm_machine_save = with_control () (thenB (set_state SNAPSHOTTING) (raiseB AttributeError))"

definition vm_machine_restore :: "('d, unit) vmethod" where
  "vm_machine_restore = with_control () (raiseB AttributeError)"

definition vm_disk_backup :: "('d, unit) vmethod" where
  "vm_disk_backup = raiseB AttributeError"

text \<open>\<^verbatim>\<open>machine_reset\<close> of the class \<^verbatim>\<open>Machine\<close>, which goes to the sensor directly.\<close>

definition vm_machine_reset :: "('d, 'e) libvirt_scheme \<Rightarrow> ('d, bool option) vmethod" where
  "vm_machine_reset lv =
     with_control None
      (bindB (power_status lv) (\<lambda>st.
         thenB (whenB (st \<noteq> Some ''OFF'') (power_off lv)) (bindB vm_disk_revert (\<lambda>b. returnB (Some b)))))"

text \<open>\<^verbatim>\<open>VirtualMachineCreator.run\<close> stops at its second message.\<close>

definition creator_run :: "('d, unit) vmethod" where
  "creator_run = thenB config_create (raiseB AttributeError)"

section \<open>The network\<close>

text \<open>The lines over which a file is iterated.\<close>

definition file_lines :: "string \<Rightarrow> string list" where
  "file_lines content = (let ls = split_on newline content in if last ls = [] then butlast ls else ls)"

fun lease_loop :: "string \<Rightarrow> string list \<Rightarrow> string option res" where
  "lease_loop mac [] = Inr None"
| "lease_loop mac (line # ls) =
     (let columns = words line in
      if length columns < 3 then Inl IndexError
      else if columns ! 1 = mac then Inr (Some (columns ! 2)) else lease_loop mac ls)"

fun infix_of :: "string \<Rightarrow> string \<Rightarrow> bool" where
  "infix_of p [] \<longleftrightarrow> p = []"
| "infix_of p (c # cs) \<longleftrightarrow> starts_with p (c # cs) \<or> infix_of p cs"

fun arp_loop :: "string \<Rightarrow> string list \<Rightarrow> string option" where
  "arp_loop mac [] = None"
| "arp_loop mac (line # ls) =
     (let columns = words line in
      if length columns > 3 \<and> infix_of mac (columns ! 3) then Some (butlast (drop 1 (columns ! 1))) else arp_loop mac ls)"

definition LEASES :: string where "LEASES = ''/var/lib/libvirt/dnsmasq/default.leases''"

definition vm_network_get_ip :: "string \<Rightarrow> 'd vm \<Rightarrow> string option res" where
  "vm_network_get_ip arp_output s =
     (case files s LEASES of
        None \<Rightarrow> Inr None
      | Some leases \<Rightarrow>
          bindE (lease_loop (mac_addr s) (file_lines leases)) (\<lambda>ip.
            case ip of Some a \<Rightarrow> Inr (Some a) | None \<Rightarrow> Inr (arp_loop (mac_addr s) (split_on newline arp_output))))"

definition vm_network_get_status :: "string \<Rightarrow> (string \<Rightarrow> int option res) \<Rightarrow> 'd vm \<Rightarrow> bool res" where
  "vm_network_get_status arp_output echo s =
     bindE (vm_network_get_ip arp_output s) (\<lambda>ip. network_get_status ip echo)"

end
