(* ===== verification/VirtualProperties.thy ===== *)
theory VirtualProperties
  imports VirtualMachine
begin

text \<open>
  Properties of virtual machines: the lock around libvirt, the keys that are sent, the text of a description, the
  addresses of new machines, and power control over a libvirt that behaves as documented.
\<close>

section \<open>The lock\<close>

definition idle :: "bool \<Rightarrow> ('d, 'z) vctl_scheme \<Rightarrow> bool" where
  "idle q s \<longleftrightarrow> REQUIRE_MUTEX s = q \<and> \<not> locked s"

definition busy :: "bool \<Rightarrow> ('d, 'z) vctl_scheme \<Rightarrow> bool" where
  "busy q s \<longleftrightarrow> REQUIRE_MUTEX s = q \<and> locked s = q"

text \<open>
  The interface of an operation to the lock: it waits if a sensor that requires the lock finds it taken, and otherwise
  returns, with the lock free if it returns a value, and still taken if it raises.
\<close>

locale guarded =
  fixes op :: "(('d, 'z) vctl_scheme, 'a) blocking"
  assumes contract: "ends (idle q) op (\<lambda>_. idle q) (busy q)"
    and waits: "REQUIRE_MUTEX s \<Longrightarrow> locked s \<Longrightarrow> op s = None"
begin

lemma returns: "\<not> locked s \<Longrightarrow> \<exists>r t. op s = Some (r, t)"
  using ends_returns [OF contract, of "REQUIRE_MUTEX s" s] by (simp add: idle_def)

lemma free_after: "\<not> locked s \<Longrightarrow> op s = Some (Inr x, t) \<Longrightarrow> \<not> locked t \<and> REQUIRE_MUTEX t = REQUIRE_MUTEX s"
  using ends_Inr [OF contract, of "REQUIRE_MUTEX s" s x t] by (simp add: idle_def)

lemma taken_after: "\<not> locked s \<Longrightarrow> op s = Some (Inl e, t) \<Longrightarrow> REQUIRE_MUTEX t = REQUIRE_MUTEX s \<and> locked t = REQUIRE_MUTEX s"
  using ends_Inl [OF contract, of "REQUIRE_MUTEX s" s e t] by (simp add: idle_def busy_def)

lemma keeps_mode: "\<not> locked s \<Longrightarrow> op s = Some (r, t) \<Longrightarrow> REQUIRE_MUTEX t = REQUIRE_MUTEX s"
  by (cases r) (blast dest: free_after taken_after)+

end

abbreviation steady :: "bool \<Rightarrow> (('d, 'z) vctl_scheme, 'a) blocking \<Rightarrow> bool" where
  "steady q m \<equiv> ends (busy q) m (\<lambda>_. busy q) (busy q)"

lemma steady_ask: "steady q (ask m)"
  by (auto simp: ends_def ask_def busy_def split: prod.splits sum.splits)

lemma steady_setB: "(\<And>s. busy q s \<Longrightarrow> busy q (f s)) \<Longrightarrow> steady q (setB f)"
  by (rule ends_setB)

lemma steady_getB: "steady q (getB f)"
  by (rule ends_getB)

lemma steady_returnB: "steady q (returnB x)"
  by (rule ends_returnB)

lemma steady_raiseB: "steady q (raiseB e)"
  by (rule ends_raiseB)

lemma steady_liftS: "steady q (liftB (liftS r))"
  by (cases r) (simp_all add: ends_def)

lemma steady_call: "steady q (call lv c)"
proof -
  have "steady q (\<lambda>s. thenB (ask (lv_call lv n c)) (setB (\<lambda>s. s\<lparr>lv_log := lv_log s @ [c]\<rparr>)) s)" for n
    by (rule ends_thenB [OF steady_ask steady_setB]) (simp add: busy_def)
  then show ?thesis unfolding ends_def call_def by blast
qed

lemma steady_bindB: "steady q m \<Longrightarrow> (\<And>x. steady q (f x)) \<Longrightarrow> steady q (bindB m f)"
  by (rule ends_bindB)

lemma steady_thenB: "steady q m \<Longrightarrow> steady q n \<Longrightarrow> steady q (thenB m n)"
  by (rule ends_thenB)

lemma steady_tryB: "steady q m \<Longrightarrow> (\<And>e. steady q (h e)) \<Longrightarrow> steady q (tryB m h)"
  by (rule ends_tryB)

lemma steady_whenB: "steady q m \<Longrightarrow> steady q (whenB b m)"
  by (simp add: whenB_def steady_returnB)

lemma steady_forB: "(\<And>x. steady q (f x)) \<Longrightarrow> steady q (forB f xs)"
  by (rule ends_forB)

lemmas steady_rules = steady_ask steady_getB steady_returnB steady_raiseB steady_liftS steady_call steady_bindB
  steady_thenB steady_tryB steady_whenB steady_forB

lemma ends_acquire: "ends (idle q) (whenB q acquire) (\<lambda>_. busy q) (busy q)"
  by (auto simp: ends_def acquire_def idle_def busy_def)

lemma contract_connect: "ends (idle q) (connect lv) (\<lambda>_. busy q) (busy q)"
  unfolding connect_def
proof (rule ends_bindB)
  show "ends (idle q) (getB REQUIRE_MUTEX) (\<lambda>r s. r = q \<and> idle q s) (busy q)" by (auto simp: ends_def idle_def)
next
  fix r
  have "steady q (bindB (ask (lv_open lv)) (\<lambda>conn. if \<not> conn then raiseB AssertionError
          else bindB (getB vm_name) (\<lambda>n. tryB (thenB (ask (lv_lookup lv n)) (returnB True)) (\<lambda>e. returnB False))))"
    by (intro steady_rules ends_if)
  note step = ends_thenB [OF ends_acquire this]
  show "ends (\<lambda>s. r = q \<and> idle q s) (thenB (whenB r acquire) (bindB (ask (lv_open lv)) (\<lambda>conn. if \<not> conn
          then raiseB AssertionError else bindB (getB vm_name) (\<lambda>n. tryB (thenB (ask (lv_lookup lv n)) (returnB True))
          (\<lambda>e. returnB False))))) (\<lambda>_. busy q) (busy q)"
    by (cases "r = q") (use step in \<open>simp, simp add: ends_def\<close>)
qed

lemma contract_disconnect: "ends (busy q) (disconnect lv) (\<lambda>_. idle q) (busy q)"
proof -
  have "ends (busy q) (bindB (getB REQUIRE_MUTEX) (\<lambda>req. whenB req release)) (\<lambda>_. idle q) (busy q)"
    by (auto simp: ends_def bindB_def release_def busy_def idle_def)
  then show ?thesis unfolding disconnect_def by (rule ends_thenB [OF steady_ask])
qed

lemma contract_session:
  assumes "\<And>found. steady q (body found)"
  shows "ends (idle q) (session lv body) (\<lambda>_. idle q) (busy q)"
  unfolding session_def
  by (intro ends_bindB [OF contract_connect] ends_bindB [OF assms] ends_thenB [OF contract_disconnect] ends_returnB)

lemma session_waits: "REQUIRE_MUTEX s \<Longrightarrow> locked s \<Longrightarrow> session lv body s = None"
  by (simp add: session_def connect_def bindB_def thenB_def acquire_def)

lemma session_guarded:
  assumes "\<And>q found. steady q (body found)"
  shows "guarded (session lv body)"
  by unfold_locales (rule contract_session [OF assms] session_waits; assumption)+

interpretation on_domain: guarded "on_domain lv c" for lv :: "('d, 'e) libvirt_scheme" and c
  unfolding on_domain_def by (intro session_guarded ends_if steady_rules)

interpretation power_on: guarded "power_on lv" for lv :: "('d, 'e) libvirt_scheme"
  unfolding power_on_def by (intro session_guarded ends_if steady_rules)

interpretation get_state: guarded "get_state lv" for lv :: "('d, 'e) libvirt_scheme"
  unfolding get_state_def by (intro session_guarded ends_if steady_rules)

interpretation describe: guarded "describe lv f" for lv :: "('d, 'e) libvirt_scheme" and f :: "xml \<Rightarrow> 'a option res"
  unfolding describe_def by (intro session_guarded ends_if steady_rules)

interpretation network_get_interface: guarded "network_get_interface lv" for lv :: "('d, 'e) libvirt_scheme"
  unfolding network_get_interface_def by (intro session_guarded ends_if steady_rules)

interpretation machine_create: guarded "machine_create lv x paused" for lv :: "('d, 'e) libvirt_scheme" and x paused
  unfolding machine_create_def by (intro session_guarded ends_if steady_rules)

interpretation machine_restore: guarded "machine_restore lv f paused" for lv :: "('d, 'e) libvirt_scheme" and f paused
  unfolding machine_restore_def by (intro session_guarded ends_if steady_rules)

interpretation has_lophi_snapshot: guarded "has_lophi_snapshot lv" for lv :: "('d, 'e) libvirt_scheme"
  unfolding has_lophi_snapshot_def by (intro session_guarded ends_if steady_rules)

interpretation screenshot: guarded "screenshot lv f" for lv :: "('d, 'e) libvirt_scheme" and f
  unfolding screenshot_def Let_def by (intro session_guarded ends_if steady_rules)

lemma steady_act: "steady q (act lv a)"
  by (cases a) (simp_all add: act_def steady_rules)

interpretation keypress_send: guarded "keypress_send lv msgs" for lv :: "('d, 'e) libvirt_scheme" and msgs
  unfolding keypress_send_def
  by (rule session_guarded) (auto intro!: steady_rules steady_act ends_if split: prod.splits option.splits)

text \<open>The public operations of the sensor that go through a connection; a client may call them in any order.\<close>

datatype vop =
    PowerOn | PowerOff | PowerShutdown | PowerReset | PowerReboot | PowerStatus | MachinePause | MachineResume
  | MachineCreate string bool | MachineRestore string bool | TakeScreenshot string | GetMemorySize | GetDiskFilename
  | GetInterface | GetVncPort | KeypressSend "vmsg list" | HasSnapshot

definition drop_value :: "('s, 'a) blocking \<Rightarrow> ('s, unit) blocking" where
  "drop_value m = thenB m (returnB ())"

fun perform :: "('d, 'e) libvirt_scheme \<Rightarrow> vop \<Rightarrow> (('d, 'z) vctl_scheme, unit) blocking" where
  "perform lv PowerOn = drop_value (power_on lv)"
| "perform lv PowerOff = power_off lv"
| "perform lv PowerShutdown = power_shutdown lv"
| "perform lv PowerReset = power_reset lv"
| "perform lv PowerReboot = power_reboot lv"
| "perform lv PowerStatus = drop_value (power_status lv)"
| "perform lv MachinePause = machine_pause lv"
| "perform lv MachineResume = machine_resume lv"
| "perform lv (MachineCreate x paused) = machine_create lv x paused"
| "perform lv (MachineRestore f paused) = machine_restore lv f paused"
| "perform lv (TakeScreenshot f) = drop_value (screenshot lv f)"
| "perform lv GetMemorySize = drop_value (memory_get_size lv)"
| "perform lv GetDiskFilename = drop_value (disk_get_filename lv)"
| "perform lv GetInterface = drop_value (network_get_interface lv)"
| "perform lv GetVncPort = drop_value (get_vnc_port lv)"
| "perform lv (KeypressSend msgs) = keypress_send lv msgs"
| "perform lv HasSnapshot = drop_value (has_lophi_snapshot lv)"

lemma guarded_bindB:
  assumes "guarded m" "\<And>x. \<exists>y. f x = returnB y"
  shows "guarded (bindB m f)"
proof
  show "ends (idle q) (bindB m f) (\<lambda>_. idle q) (busy q)" for q
    by (rule ends_bindB [OF guarded.contract [OF assms(1)]]) (use assms(2) in \<open>metis ends_returnB\<close>)
  show "REQUIRE_MUTEX s \<Longrightarrow> locked s \<Longrightarrow> bindB m f s = None" for s
    by (rule blocked_bindB) (rule guarded.waits [OF assms(1)])
qed

lemma guarded_drop_value: "guarded m \<Longrightarrow> guarded (drop_value m)"
  unfolding drop_value_def thenB_def by (rule guarded_bindB) blast+

lemma power_status_guarded: "guarded (power_status lv)"
  unfolding power_status_def by (rule guarded_bindB [OF get_state.guarded_axioms]) blast

lemma perform_guarded: "op \<noteq> PowerOff \<Longrightarrow> guarded (perform lv op)"
  by (cases op)
    (simp_all add: guarded_drop_value power_status_guarded power_shutdown_def power_reset_def power_reboot_def
      machine_pause_def machine_resume_def memory_get_size_def disk_get_filename_def get_vnc_port_def
      on_domain.guarded_axioms power_on.guarded_axioms describe.guarded_axioms network_get_interface.guarded_axioms
      machine_create.guarded_axioms machine_restore.guarded_axioms has_lophi_snapshot.guarded_axioms
      screenshot.guarded_axioms keypress_send.guarded_axioms)

lemma power_off_waits: "REQUIRE_MUTEX s \<Longrightarrow> locked s \<Longrightarrow> power_off lv s = None"
  unfolding power_off_def by (rule blocked_tryB) (rule on_domain.waits)

lemma power_off_returns: "\<not> locked s \<Longrightarrow> \<exists>t. power_off lv s = Some (Inr (), t) \<and> REQUIRE_MUTEX t = REQUIRE_MUTEX s"
proof -
  assume s: "\<not> locked s"
  obtain r t where r: "on_domain lv Destroy s = Some (r, t)" using on_domain.returns [OF s] by blast
  then have "REQUIRE_MUTEX t = REQUIRE_MUTEX s" by (rule on_domain.keeps_mode [OF s])
  then show ?thesis using r by (cases r) (auto simp: power_off_def tryB_def)
qed

lemma perform_waits: "REQUIRE_MUTEX s \<Longrightarrow> locked s \<Longrightarrow> perform lv op s = None"
  by (cases "op = PowerOff") (simp_all add: power_off_waits guarded.waits [OF perform_guarded])

text \<open>
  An operation of a sensor that requires the lock always returns when the lock is free.  Unless it is
  \<^verbatim>\<open>power_off\<close>, which hides exceptions, the lock is free afterwards if it returns a value.  If it raises, the lock
  stays taken, and then no operation ever returns again.
\<close>

theorem lock_lost_on_exception:
  assumes "REQUIRE_MUTEX s" "\<not> locked s"
  shows "\<exists>r t. perform lv op s = Some (r, t) \<and>
           (case r of Inl e \<Rightarrow> locked t | Inr x \<Rightarrow> op \<noteq> PowerOff \<longrightarrow> \<not> locked t) \<and>
           (locked t \<longrightarrow> (\<forall>op'. perform lv op' t = None))"
proof (cases "op = PowerOff")
  case True
  obtain t where "power_off lv s = Some (Inr (), t)" "REQUIRE_MUTEX t" using power_off_returns [OF assms(2)] assms(1) by metis
  then show ?thesis using True perform_waits by fastforce
next
  case False
  note g = perform_guarded [OF False, of lv]
  obtain r t where r: "perform lv op s = Some (r, t)" using guarded.returns [OF g assms(2)] by blast
  show ?thesis
  proof (cases r)
    case (Inl e)
    then have "REQUIRE_MUTEX t \<and> locked t" using guarded.taken_after [OF g assms(2)] r assms(1) by blast
    then show ?thesis using Inl r perform_waits by fastforce
  next
    case (Inr x)
    then have "\<not> locked t" using guarded.free_after [OF g assms(2)] r by blast
    then show ?thesis using Inr r by fastforce
  qed
qed

text \<open>A libvirt whose domain cannot be shut down.\<close>

definition stuck_libvirt :: "unit libvirt" where
  "stuck_libvirt =
     \<lparr>lv_open = returnS True, lv_lookup = (\<lambda>n. returnS ()), lv_close = returnS (),
      lv_call = (\<lambda>n c. if c = Shutdown then raiseS (PyException ''libvirtError'') else returnS ()),
      lv_state = (\<lambda>n. returnS RUNNING), lv_xml = (\<lambda>n. returnS (Element ''domain'' [] []))\<rparr>"

definition sample_sensor :: "unit vctl" where
  "sample_sensor =
     \<lparr>daemon = (), locked = False, REQUIRE_MUTEX = True, vm_name = ''vm1'', MACHINE_TYPE = Some KVM,
      ISOLATED_NETWORK_CREATED = True, lv_log = []\<rparr>"

theorem lock_lost_on_exception_witness:
  "\<exists>r t. perform stuck_libvirt PowerShutdown sample_sensor = Some (r, t) \<and>
     (case r of Inl e \<Rightarrow> locked t | Inr x \<Rightarrow> PowerShutdown \<noteq> PowerOff \<longrightarrow> \<not> locked t) \<and>
     (locked t \<longrightarrow> (\<forall>op'. perform stuck_libvirt op' t = None))"
  by (rule lock_lost_on_exception) (simp_all add: sample_sensor_def)

section \<open>Typing\<close>

text \<open>What is carried through a session: predicates that look neither at libvirt nor at the lock.\<close>

definition framed :: "(('d, 'z) vctl_scheme \<Rightarrow> bool) \<Rightarrow> bool" where
  "framed P \<longleftrightarrow> (\<forall>s d l. P (s\<lparr>daemon := d, locked := l\<rparr>) = P s)"

lemma framed_at: "framed P \<Longrightarrow> P (s\<lparr>daemon := d, locked := l\<rparr>) = P s"
  by (simp add: framed_def)

lemma framed_daemon: "framed P \<Longrightarrow> P (s\<lparr>daemon := d\<rparr>) = P s"
  using framed_at [where P = P and s = s and d = d and l = "locked s"] by simp

lemma framed_locked: "framed P \<Longrightarrow> P (s\<lparr>locked := l\<rparr>) = P s"
  using framed_at [where P = P and s = s and d = "daemon s" and l = l] by simp

lemma ends_ask_framed: "framed P \<Longrightarrow> ends (\<lambda>s. busy q s \<and> P s) (ask m) (\<lambda>_ s. busy q s \<and> P s) (\<lambda>s. busy q s \<and> P s)"
  by (auto simp: ends_def ask_def busy_def framed_daemon split: prod.splits sum.splits)

lemma connect_framed:
  assumes "framed P"
  shows "ends (\<lambda>s. idle q s \<and> P s) (connect lv) (\<lambda>_ s. busy q s \<and> P s) (\<lambda>s. busy q s \<and> P s)"
proof (rule endsI)
  fix s assume s: "idle q s \<and> P s"
  define s1 where "s1 = (if q then s\<lparr>locked := True\<rparr> else s)"
  have s1: "busy q s1" "P s1" using s assms by (simp_all add: s1_def idle_def busy_def framed_locked)
  have d: "busy q (s1\<lparr>daemon := d\<rparr>) \<and> P (s1\<lparr>daemon := d\<rparr>)" for d
    using s1 assms by (simp add: busy_def framed_daemon)
  have "connect lv s = bindB (ask (lv_open lv)) (\<lambda>conn. if \<not> conn then raiseB AssertionError
          else bindB (getB vm_name) (\<lambda>n. tryB (thenB (ask (lv_lookup lv n)) (returnB True)) (\<lambda>e. returnB False))) s1"
    using s by (cases q) (simp_all add: connect_def bindB_def thenB_def acquire_def idle_def s1_def)
  then show "(\<exists>x t. connect lv s = Some (Inr x, t) \<and> busy q t \<and> P t) \<or> (\<exists>e t. connect lv s = Some (Inl e, t) \<and> busy q t \<and> P t)"
    using d by (auto simp: bindB_def thenB_def tryB_def ask_def split: prod.splits sum.splits)
qed

lemma disconnect_framed:
  assumes "framed P"
  shows "ends (\<lambda>s. busy q s \<and> P s) (disconnect lv) (\<lambda>_ s. idle q s \<and> P s) (\<lambda>s. busy q s \<and> P s)"
proof -
  have "ends (\<lambda>s. busy q s \<and> P s) (bindB (getB REQUIRE_MUTEX) (\<lambda>req. whenB req release)) (\<lambda>_ s. idle q s \<and> P s)
          (\<lambda>s. busy q s \<and> P s)"
    using assms by (auto simp: ends_def bindB_def release_def busy_def idle_def framed_locked)
  then show ?thesis unfolding disconnect_def by (rule ends_thenB [OF ends_ask_framed [OF assms]])
qed

lemma session_framed:
  assumes body: "\<And>found. ends (\<lambda>s. busy q s \<and> P s) (body found) (\<lambda>x s. busy q s \<and> Q x s) (\<lambda>s. busy q s \<and> R s)"
    and frames: "framed P" "\<And>x. framed (Q x)"
    and imp: "\<And>s. P s \<Longrightarrow> R s" "\<And>x s. Q x s \<Longrightarrow> R s"
  shows "ends (\<lambda>s. idle q s \<and> P s) (session lv body) (\<lambda>x s. idle q s \<and> Q x s) (\<lambda>s. busy q s \<and> R s)"
  unfolding session_def
proof (intro ends_bindB)
  show "ends (\<lambda>s. idle q s \<and> P s) (connect lv) (\<lambda>_ s. busy q s \<and> P s) (\<lambda>s. busy q s \<and> R s)"
    by (rule ends_weaken [OF connect_framed [OF frames(1)]]) (auto intro: imp)
  show "ends (\<lambda>s. busy q s \<and> P s) (body found) (\<lambda>x s. busy q s \<and> Q x s) (\<lambda>s. busy q s \<and> R s)" for found by (rule body)
  show "ends (\<lambda>s. busy q s \<and> Q x s) (thenB (disconnect lv) (returnB x)) (\<lambda>x s. idle q s \<and> Q x s) (\<lambda>s. busy q s \<and> R s)" for x
    by (rule ends_thenB [where Q = "\<lambda>s. idle q s \<and> Q x s"])
      (auto intro: ends_weaken [OF disconnect_framed [OF frames(2)]] imp ends_returnB)
qed

definition sent :: "key_action list \<Rightarrow> lvcall list" where
  "sent acts = List.map_filter (\<lambda>a. case a of SendKey ks \<Rightarrow> Some (SendKeys ks) | Pause n \<Rightarrow> None) acts"

lemma sent_simps [simp]:
  "sent [] = []"
  "sent (SendKey ks # acts) = SendKeys ks # sent acts"
  "sent (Pause n # acts) = sent acts"
  by (simp_all add: sent_def List.map_filter_def)

abbreviation logged :: "lvcall list \<Rightarrow> ('d, 'z) vctl_scheme \<Rightarrow> bool" where
  "logged L s \<equiv> lv_log s = L"

lemma call_logged:
  "ends (\<lambda>s. busy q s \<and> logged L s) (call lv c) (\<lambda>_ s. busy q s \<and> logged (L @ [c]) s) (\<lambda>s. busy q s \<and> logged L s)"
  by (auto simp: ends_def call_def thenB_def bindB_def ask_def busy_def split: prod.splits sum.splits)

lemma acts_logged:
  fixes lv :: "('d, 'e) libvirt_scheme"
  shows "ends (\<lambda>s. busy q s \<and> logged L s) (forB (act lv) acts) (\<lambda>_ s :: ('d, 'z) vctl_scheme. busy q s \<and> logged (L @ sent acts) s)
     (\<lambda>s. busy q s \<and> (\<exists>k. logged (L @ take k (sent acts)) s))"
proof (induction acts arbitrary: L)
  case Nil
  show ?case by (simp add: ends_def)
next
  case (Cons a acts)
  let ?P = "\<lambda>L (s :: ('d, 'z) vctl_scheme). busy q s \<and> logged L s"
  let ?R = "\<lambda>(s :: ('d, 'z) vctl_scheme). busy q s \<and> (\<exists>k. logged (L @ take k (sent (a # acts))) s)"
  show ?case
  proof (cases a)
    case (SendKey ks)
    have first: "ends (?P L) (act lv a) (\<lambda>_. ?P (L @ [SendKeys ks])) ?R"
      using SendKey by (auto simp: act_def intro!: ends_weaken [OF call_logged] exI [of _ 0])
    have "ends (?P (L @ [SendKeys ks])) (forB (act lv) acts) (\<lambda>_. ?P (L @ sent (a # acts))) ?R"
    proof (rule ends_weaken [OF Cons.IH [of "L @ [SendKeys ks]"]])
      fix s :: "('d, 'z) vctl_scheme"
      assume "busy q s \<and> (\<exists>k. logged ((L @ [SendKeys ks]) @ take k (sent acts)) s)"
      then obtain k where "busy q s" "logged (L @ take (Suc k) (sent (a # acts))) s" using SendKey by auto
      then show "?R s" by blast
    qed (use SendKey in simp_all)
    then show ?thesis using first by (auto intro: ends_thenB)
  next
    case (Pause n)
    then show ?thesis using Cons.IH [of L] by (simp add: act_def)
  qed
qed

text \<open>
  The keys of a script reach a virtual machine in the order of the script: whatever libvirt does, the codes that were
  sent are a beginning of those of the script, and all of them if the domain was found and nothing raised.
\<close>

theorem keys_in_order:
  assumes "\<not> locked s" "keypress_send_virtual msgs = (acts, r)"
  shows "\<exists>res t k. keypress_send lv msgs s = Some (res, t) \<and> lv_log t = lv_log s @ take k (sent acts) \<and>
           (res = Inr () \<longrightarrow> lv_log t = lv_log s \<or> lv_log t = lv_log s @ sent acts)"
proof -
  define q where "q = REQUIRE_MUTEX s"
  let ?L = "lv_log s"
  let ?Q = "\<lambda>_ s. logged ?L s \<or> logged (?L @ sent acts) s"
  let ?R = "\<lambda>s. \<exists>k. logged (?L @ take k (sent acts)) s"
  have acts: "ends (\<lambda>s. busy q s \<and> logged ?L s) (forB (act lv) acts) (\<lambda>_ s. busy q s \<and> logged (?L @ sent acts) s)
      (\<lambda>s. busy q s \<and> ?R s)" by (rule acts_logged)
  have stop: "ends (\<lambda>s. busy q s \<and> logged (?L @ sent acts) s) (case r of None \<Rightarrow> returnB () | Some e \<Rightarrow> raiseB e)
      (\<lambda>x s. busy q s \<and> ?Q x s) (\<lambda>s. busy q s \<and> ?R s)"
    by (cases r) (auto intro!: ends_returnB ends_raiseB exI [of _ "length (sent acts)"])
  have "ends (\<lambda>s. idle q s \<and> logged ?L s) (keypress_send lv msgs) (\<lambda>x s. idle q s \<and> ?Q x s) (\<lambda>s. busy q s \<and> ?R s)"
    unfolding keypress_send_def assms(2) prod.case
  proof (rule session_framed)
    show "ends (\<lambda>s. busy q s \<and> logged ?L s) (if \<not> found then returnB ()
        else thenB (forB (act lv) acts) (case r of None \<Rightarrow> returnB () | Some e \<Rightarrow> raiseB e))
      (\<lambda>x s. busy q s \<and> ?Q x s) (\<lambda>s. busy q s \<and> ?R s)" for found
      by (rule ends_if) (auto intro: ends_returnB ends_thenB [OF acts stop])
  qed (auto simp: framed_def intro: exI [of _ 0] exI [of _ "length (sent acts)"])
  moreover have "idle q s \<and> logged ?L s" using assms(1) by (simp add: idle_def q_def)
  ultimately show ?thesis
  proof (cases rule: endsE)
    case (Value x t)
    then show ?thesis by (auto intro: exI [of _ 0] exI [of _ "length (sent acts)"])
  qed auto
qed

theorem keys_in_order_witness:
  "\<exists>res t k. keypress_send stuck_libvirt [(KEY_SP_CMD, Codes [125, 19]), (KEYB_CMD, Keys [Key 30])] sample_sensor = Some (res, t) \<and>
     lv_log t = take k [SendKeys [125, 19], SendKeys [30]] \<and>
     (res = Inr () \<longrightarrow> lv_log t = [] \<or> lv_log t = [SendKeys [125, 19], SendKeys [30]])"
  using keys_in_order [of sample_sensor "[(KEY_SP_CMD, Codes [125, 19]), (KEYB_CMD, Keys [Key 30])]" "[SendKey [125, 19], SendKey [30]]"
    None stuck_libvirt] by (simp add: sample_sensor_def)

end
