(* ===== verification/VirtualConfig.thy ===== *)
theory VirtualConfig
  imports VirtualMachine
begin

text \<open>
  The description from which libvirt makes a virtual machine, and the hardware addresses of new machines.  Replacing
  the placeholders one after the other gives what filling them in all at once gives, and different machines of a
  process get different addresses.
\<close>

section \<open>Filling in a template\<close>

abbreviation percent :: char where
  "percent \<equiv> CHR 0x25"

text \<open>
  A template cut at its placeholders: a text without percent signs, and then for each placeholder its name and the text
  behind it.
\<close>

type_synonym cut = "string \<times> (string \<times> string) list"

definition glue :: "(string \<Rightarrow> string) \<Rightarrow> cut \<Rightarrow> string" where
  "glue f c = fst c @ concat (map (\<lambda>(n, l). f n @ l) (snd c))"

fun holes :: "string list \<Rightarrow> (string \<times> string) list" where
  "holes (a # n # b # l # rest) = (n, l) # holes rest"
| "holes _ = []"

definition cut_of :: "string \<Rightarrow> cut" where
  "cut_of template = (case split_on percent template of l # rest \<Rightarrow> (l, holes rest) | [] \<Rightarrow> ([], []))"

text \<open>The characters of the names of placeholders, none of which follows a placeholder.\<close>

definition name_char :: "char \<Rightarrow> bool" where
  "name_char c \<longleftrightarrow> isupper c \<or> c = CHR ''_''"

definition proper :: "cut \<Rightarrow> bool" where
  "proper c \<longleftrightarrow> percent \<notin> set (fst c) \<and>
     list_all (\<lambda>(n, l). n \<noteq> [] \<and> list_all name_char n \<and> l \<noteq> [] \<and> \<not> name_char (hd l) \<and> percent \<notin> set l) (snd c)"

text \<open>Filling in all placeholders at once.\<close>

definition fill :: "(string \<Rightarrow> string) \<Rightarrow> string \<Rightarrow> string" where
  "fill values template = glue values (cut_of template)"

lemma percent_not_name: "list_all name_char n \<Longrightarrow> percent \<notin> set n"
  by (auto simp: list_all_iff name_char_def isupper_def)

lemma starts_with_Cons [simp]:
  "starts_with [] s"
  "starts_with (x # p) (c # s) \<longleftrightarrow> x = c \<and> starts_with p s"
  "\<not> starts_with (x # p) []"
  by (auto simp: starts_with_def)

lemma starts_with_append [simp]: "starts_with p (p @ s)"
  by (simp add: starts_with_def)

lemma replace_step:
  "\<not> starts_with old (c # s) \<Longrightarrow> replace_all old new (c # s) = c # replace_all old new s"
  by (subst replace_all.simps) simp

lemma replace_hit: "old \<noteq> [] \<Longrightarrow> replace_all old new (old @ s) = new @ replace_all old new s"
  by (cases old) (subst replace_all.simps, simp)+

lemma replace_plain: "percent \<notin> set l \<Longrightarrow> replace_all (percent # p) new (l @ s) = l @ replace_all (percent # p) new s"
  by (induction l) (auto simp: replace_step)

text \<open>A name, its closing percent signs and what follows determine the name.\<close>

lemma starts_with_name:
  assumes "percent \<notin> set a" "percent \<notin> set b"
  shows "starts_with (a @ percent # p) (b @ percent # s) \<longleftrightarrow> a = b \<and> starts_with p s"
  using assms
proof (induction a arbitrary: b)
  case Nil
  then show ?case by (cases b) auto
next
  case (Cons x a)
  then show ?case by (cases b) auto
qed

lemma no_name_behind:
  assumes "list_all name_char n" "l \<noteq> []" "\<not> name_char (hd l)" "n \<noteq> []"
  shows "\<not> starts_with (n @ p) (l @ s)"
  using assms by (cases n; cases l) auto

lemma marker_Cons: "marker n = percent # percent # n @ [percent, percent]"
  by (simp add: marker_def)

lemma marker_not_Nil: "marker n \<noteq> []"
  by (simp add: marker_def)

text \<open>Another placeholder is left as it is.\<close>

lemma replace_other:
  assumes n: "list_all name_char n" "n \<noteq> []" and m: "list_all name_char m" "m \<noteq> n"
    and l: "l \<noteq> []" "\<not> name_char (hd l)" "percent \<notin> set l"
  shows "replace_all (marker n) new (marker m @ l @ s) = marker m @ replace_all (marker n) new (l @ s)"
proof -
  let ?r = "replace_all (marker n) new"
  have pn: "percent \<notin> set n" and pm: "percent \<notin> set m" using n m percent_not_name by auto
  obtain c n' where c: "n = c # n'" "c \<noteq> percent" using n pn by (cases n) auto
  obtain d l' where d: "l = d # l'" "d \<noteq> percent" using l by (cases l) auto
  have last: "?r (percent # l @ s) = percent # ?r (l @ s)"
    by (rule replace_step) (use d in \<open>simp add: marker_Cons\<close>)
  have last2: "?r (percent # percent # l @ s) = percent # percent # ?r (l @ s)"
  proof -
    have "\<not> starts_with (marker n) (percent # percent # l @ s)"
      using no_name_behind [OF n(1) l(1,2) n(2)] by (simp add: marker_Cons)
    then show ?thesis by (simp add: replace_step last)
  qed
  have mid: "?r (m @ percent # percent # l @ s) = m @ percent # percent # ?r (l @ s)"
    using replace_plain [OF pm, of "percent # n @ [percent, percent]" new] last2 by (simp add: marker_Cons)
  have second: "?r (percent # m @ percent # percent # l @ s) = percent # m @ percent # percent # ?r (l @ s)"
  proof -
    have "\<not> starts_with (marker n) (percent # m @ percent # percent # l @ s)"
    proof (cases m)
      case Nil
      then show ?thesis using no_name_behind [OF n(1) l(1,2) n(2)] c by (simp add: marker_Cons)
    next
      case (Cons x m')
      then show ?thesis using pm by (simp add: marker_Cons)
    qed
    then show ?thesis by (simp add: replace_step mid)
  qed
  have "\<not> starts_with (marker n) (percent # percent # m @ percent # percent # l @ s)"
    using starts_with_name [OF pn pm] m(2) by (auto simp: marker_Cons)
  then have "?r (percent # percent # m @ percent # percent # l @ s) = percent # percent # m @ percent # percent # ?r (l @ s)"
    by (simp add: replace_step second)
  then show ?thesis unfolding marker_Cons [of m] by simp
qed

text \<open>One replacement in a text where some placeholders may have been replaced already by texts without percent signs.\<close>

lemma replace_glue:
  assumes "proper c" "list_all name_char n" "n \<noteq> []"
    and f: "\<And>m. f m = marker m \<or> percent \<notin> set (f m)" "f n = marker n"
  shows "replace_all (marker n) new (glue f c) = glue (f(n := new)) c"
proof -
  have one: "replace_all (marker n) new (f m @ l @ s) = (f(n := new)) m @ l @ replace_all (marker n) new s"
    if "m \<noteq> []" "list_all name_char m" "l \<noteq> []" "\<not> name_char (hd l)" "percent \<notin> set l" for m l s
  proof -
    have l: "replace_all (marker n) new (l @ s) = l @ replace_all (marker n) new s"
      using replace_plain [OF that(5)] by (simp add: marker_Cons)
    consider "m = n" | "m \<noteq> n" "f m = marker m" | "m \<noteq> n" "percent \<notin> set (f m)" using f(1) by blast
    then show ?thesis
    proof cases
      case 1
      then show ?thesis using f(2) l replace_hit [of "marker n" new "l @ s"] by (simp add: marker_not_Nil)
    next
      case 2
      then show ?thesis using replace_other [OF assms(2,3) that(2) _ that(3-5)] l by simp
    next
      case 3
      then show ?thesis using replace_plain [of "f m"] l by (simp add: marker_Cons)
    qed
  qed
  have rest: "replace_all (marker n) new (concat (map (\<lambda>(m, l). f m @ l) hs)) = concat (map (\<lambda>(m, l). (f(n := new)) m @ l) hs)"
    if "list_all (\<lambda>(m, l). m \<noteq> [] \<and> list_all name_char m \<and> l \<noteq> [] \<and> \<not> name_char (hd l) \<and> percent \<notin> set l) hs" for hs
    using that
  proof (induction hs)
    case Nil
    show ?case by (subst replace_all.simps) simp
  next
    case (Cons h hs)
    then show ?case using one [of "fst h" "snd h"] by (cases h) simp
  qed
  show ?thesis using assms(1) rest [of "snd c"] replace_plain [of "fst c"]
    by (simp add: glue_def proper_def marker_Cons)
qed

text \<open>The value of each placeholder in the description of a machine.\<close>

definition xml_values :: "string \<Rightarrow> string \<Rightarrow> string \<Rightarrow> nat \<Rightarrow> nat \<Rightarrow> string \<Rightarrow> string" where
  "xml_values name_of disk_img mac memory_size cpu_count n =
     (if n = ''VMNAME'' then name_of else if n = ''DISKIMG'' then disk_img else if n = ''MACADDR'' then mac
      else if n = ''MEM_SIZE'' then nat_str memory_size else if n = ''CPU_COUNT'' then nat_str cpu_count else marker n)"

lemma percent_nat_str: "percent \<notin> set (nat_str k)"
  using isdigit_nat_str [of k] by (auto simp: isdigit_def list_all_iff is_digit_def)

lemma generate_glue:
  assumes "proper c" "percent \<notin> set name_of" "percent \<notin> set disk_img" "percent \<notin> set mac"
  shows "generate_new_xen_xml (glue marker c) name_of disk_img mac memory_size cpu_count =
           glue (xml_values name_of disk_img mac memory_size cpu_count) c"
proof -
  have names: "list_all name_char ''VMNAME''" "list_all name_char ''DISKIMG''" "list_all name_char ''MACADDR''"
    "list_all name_char ''MEM_SIZE''" "list_all name_char ''CPU_COUNT''"
    by (simp_all add: name_char_def isupper_def)
  have "xml_values name_of disk_img mac memory_size cpu_count =
    marker(''VMNAME'' := name_of, ''DISKIMG'' := disk_img, ''MACADDR'' := mac, ''MEM_SIZE'' := nat_str memory_size,
      ''CPU_COUNT'' := nat_str cpu_count)"
    by (rule ext) (simp add: xml_values_def)
  then show ?thesis
    using assms names percent_nat_str by (simp add: generate_new_xen_xml_def Let_def replace_glue)
qed

section \<open>The templates\<close>

text \<open>Cutting a text at its placeholders is the inverse of putting it together.\<close>

lemma split_glue:
  "percent \<notin> set l0 \<Longrightarrow> list_all (\<lambda>(n, l). list_all name_char n \<and> percent \<notin> set l) hs \<Longrightarrow>
   \<exists>rest. split_on percent (glue marker (l0, hs)) = l0 # rest \<and> holes rest = hs"
proof (induction hs arbitrary: l0)
  case Nil
  then show ?case by (simp add: glue_def split_on_plain)
next
  case (Cons h hs)
  obtain n l where h: "h = (n, l)" by (cases h)
  then have n: "percent \<notin> set n" and l: "percent \<notin> set l" using Cons.prems percent_not_name by auto
  obtain rest where "split_on percent (glue marker (l, hs)) = l # rest" "holes rest = hs" using Cons.IH [OF l] Cons.prems by auto
  moreover have "glue marker (l0, h # hs) = l0 @ percent # [] @ percent # n @ percent # [] @ percent # glue marker (l, hs)"
    by (simp add: glue_def h marker_Cons)
  ultimately show ?case using Cons.prems(1) n h by (simp add: split_on_first)
qed

lemma cut_of_glue: "proper c \<Longrightarrow> cut_of (glue marker c) = c"
proof -
  assume c: "proper c"
  have "list_all (\<lambda>(n, l). list_all name_char n \<and> percent \<notin> set l) (snd c)"
    using c by (auto simp: proper_def list_all_iff)
  then obtain rest where "split_on percent (glue marker (fst c, snd c)) = fst c # rest" "holes rest = snd c"
    using split_glue [of "fst c" "snd c"] c by (auto simp: proper_def)
  then show ?thesis by (simp add: cut_of_def)
qed

definition is_template :: "string \<Rightarrow> bool" where
  "is_template s \<longleftrightarrow> (\<exists>c. proper c \<and> s = glue marker c)"

lemma is_template_append: "is_template a \<Longrightarrow> is_template b \<Longrightarrow> is_template (a @ b)"
proof -
  assume "is_template a" "is_template b"
  then obtain l0 hs l1 hs1 where a: "proper (l0, hs)" "a = glue marker (l0, hs)" and b: "proper (l1, hs1)" "b = glue marker (l1, hs1)"
    unfolding is_template_def by (metis prod.collapse)
  show ?thesis
  proof (cases hs rule: rev_cases)
    case Nil
    have "proper (l0 @ l1, hs1) \<and> a @ b = glue marker (l0 @ l1, hs1)" using Nil a b by (simp add: proper_def glue_def)
    then show ?thesis unfolding is_template_def by blast
  next
    case (snoc hs' h)
    obtain n l where h: "h = (n, l)" by (cases h)
    have "proper (l0, hs' @ (n, l @ l1) # hs1) \<and> a @ b = glue marker (l0, hs' @ (n, l @ l1) # hs1)"
      using snoc h a b by (auto simp: proper_def glue_def)
    then show ?thesis unfolding is_template_def by blast
  qed
qed

text \<open>A line that is fit for a template has at most one placeholder.\<close>

fun template_parts :: "string list \<Rightarrow> bool" where
  "template_parts [a] \<longleftrightarrow> True"
| "template_parts [a, b, n, c, p] \<longleftrightarrow>
     b = [] \<and> c = [] \<and> n \<noteq> [] \<and> list_all name_char n \<and> (case p of [] \<Rightarrow> False | x # _ \<Rightarrow> \<not> name_char x)"
| "template_parts _ \<longleftrightarrow> False"

definition template_line :: "string \<Rightarrow> bool" where
  "template_line l \<longleftrightarrow> template_parts (split_on percent l)"

lemma split_on_parts: "x \<in> set (split_on c s) \<Longrightarrow> c \<notin> set x"
  by (induction s arbitrary: x) (auto split: list.splits if_splits)

lemma template_line_end: "template_line l \<Longrightarrow> is_template (l @ [newline])"
proof -
  assume l: "template_line l"
  have join: "join_with percent (split_on percent l) = l" by (rule join_split)
  from l consider a where "split_on percent l = [a]"
    | a n x p where "split_on percent l = [a, [], n, [], x # p]" "n \<noteq> []" "list_all name_char n" "\<not> name_char x"
    unfolding template_line_def by (cases "split_on percent l" rule: template_parts.cases) (auto split: list.splits)
  then show ?thesis
  proof cases
    case (1 a)
    then have "proper (a @ [newline], []) \<and> l @ [newline] = glue marker (a @ [newline], [])"
      using join split_on_parts [of a percent l] by (simp add: proper_def glue_def)
    then show ?thesis unfolding is_template_def by blast
  next
    case (2 a n x p)
    then have "proper (a, [(n, x # p @ [newline])]) \<and> l @ [newline] = glue marker (a, [(n, x # p @ [newline])])"
      using join split_on_parts [of a percent l] split_on_parts [of "x # p" percent l]
      by (auto simp: proper_def glue_def marker_Cons)
    then show ?thesis unfolding is_template_def by blast
  qed
qed

lemma is_template_unlines: "list_all template_line ls \<Longrightarrow> is_template (unlines ls)"
proof (induction ls)
  case Nil
  have "proper ([], []) \<and> [] = glue marker ([], [])" by (simp add: proper_def glue_def)
  then show ?case unfolding is_template_def unlines_def by auto
next
  case (Cons l ls)
  then show ?case using is_template_append [OF template_line_end] by (simp add: unlines_def)
qed

lemma VIRSH_TEMPLATE_is_template: "VIRSH_TEMPLATE t = Inr template \<Longrightarrow> is_template template"
proof -
  have "is_template TEMPLATE_KVM" unfolding TEMPLATE_KVM_def by (rule is_template_unlines) code_simp
  moreover have "is_template TEMPLATE_XEN" unfolding TEMPLATE_XEN_def by (rule is_template_unlines) code_simp
  ultimately show "VIRSH_TEMPLATE t = Inr template \<Longrightarrow> ?thesis" by (cases t) (auto simp: VIRSH_TEMPLATE_def)
qed

text \<open>
  The description of a new machine is its template with every placeholder filled in at once, whatever the name, the
  disk and the address are, as long as they have no percent sign: no value is taken for a placeholder, and none is
  left out.
\<close>

theorem description_filled_in:
  assumes "VIRSH_TEMPLATE t = Inr template"
    and "CHR 0x25 \<notin> set name_of" "CHR 0x25 \<notin> set disk_img" "CHR 0x25 \<notin> set mac"
  shows "generate_new_xen_xml template name_of disk_img mac memory_size cpu_count =
           fill (xml_values name_of disk_img mac memory_size cpu_count) template"
proof -
  obtain c where "proper c" "template = glue marker c"
    using VIRSH_TEMPLATE_is_template [OF assms(1)] unfolding is_template_def by blast
  then show ?thesis using generate_glue assms(2-4) by (simp add: fill_def cut_of_glue)
qed

theorem description_filled_in_witness:
  "generate_new_xen_xml TEMPLATE_KVM ''vm1'' ''/opt/lophi/vms/vm1.qcow2'' ''10:74:10:00:00:00'' 1048576 1 =
     fill (xml_values ''vm1'' ''/opt/lophi/vms/vm1.qcow2'' ''10:74:10:00:00:00'' 1048576 1) TEMPLATE_KVM"
  by (rule description_filled_in [of KVM]) (simp_all add: VIRSH_TEMPLATE_def)

section \<open>Addresses\<close>

lemma low_hex_inj: "a < 16 \<Longrightarrow> b < 16 \<Longrightarrow> low_hex a = low_hex b \<Longrightarrow> a = b"
  by (auto simp: low_hex_def digit_char_def split: if_splits dest: char_of_eq_iff [THEN iffD1])

lemma hex_str_not_Nil: "hex_str n \<noteq> []"
  by (subst hex_str.simps) simp

lemma hex_str_inj: "hex_str a = hex_str b \<Longrightarrow> a = b"
proof (induction a arbitrary: b rule: hex_str.induct)
  case (1 a)
  show ?case
  proof (cases "a < 16"; cases "b < 16")
    assume "a < 16" "b < 16"
    then show ?thesis using 1 low_hex_inj by (simp add: hex_str.simps [of a] hex_str.simps [of b])
  next
    assume "\<not> a < 16" "\<not> b < 16"
    then have "hex_str (a div 16) = hex_str (b div 16)" "low_hex (a mod 16) = low_hex (b mod 16)"
      using 1(2) by (simp_all add: hex_str.simps [of a] hex_str.simps [of b])
    then have "a div 16 = b div 16" "a mod 16 = b mod 16" using 1(1) \<open>\<not> a < 16\<close> low_hex_inj [of "a mod 16" "b mod 16"] by simp_all
    then show ?thesis by (metis div_mult_mod_eq)
  qed (use 1(2) hex_str_not_Nil hex_str_not_Nil [symmetric] in \<open>simp_all add: hex_str.simps [of a] hex_str.simps [of b]\<close>)
qed

lemma length_hex_str: "16 ^ k \<le> n \<Longrightarrow> n < 16 ^ Suc k \<Longrightarrow> length (hex_str n) = Suc k"
proof (induction k arbitrary: n)
  case 0
  then show ?case by (simp add: hex_str.simps)
next
  case (Suc k)
  have "16 ^ k \<le> n div 16" "n div 16 < 16 ^ Suc k" using Suc.prems by (simp_all add: div_less_iff_less_mult less_eq_div_iff_mult_less_eq mult.commute)
  moreover have "\<not> n < 16" using Suc.prems by (metis le_less_trans not_less one_le_numeral one_le_power power_Suc mult_le_cancel1 mult.right_neutral)
  ultimately show ?case using Suc.IH by (simp add: hex_str.simps [of n])
qed

text \<open>Without its colons the address is the number again.\<close>

lemma mac_text_digits:
  assumes "length m = 12"
  shows "concat (map (\<lambda>x. slice (x * 2) (x * 2 + 2) m) [0..<6]) = m"
proof -
  obtain a b c d e f g h i j k l where "m = [a, b, c, d, e, f, g, h, i, j, k, l]"
    using assms by (auto simp: length_Suc_conv numeral_eq_Suc)
  then show ?thesis by (simp add: slice_def upt_rec)
qed

lemma mac_parts:
  assumes "16 ^ 11 \<le> n" "n < 16 ^ 12"
  defines "parts \<equiv> map (\<lambda>x. slice (x * 2) (x * 2 + 2) (hex_str n)) [0..<6]"
  shows "split_on CHR '':'' (mac_text n) = parts" and "list_all (\<lambda>p. length p = 2) parts" and "concat parts = hex_str n"
proof -
  have len: "length (hex_str n) = 12" using length_hex_str [of 11 n] assms by simp
  then show c: "concat parts = hex_str n" unfolding parts_def by (rule mac_text_digits)
  show "list_all (\<lambda>p. length p = 2) parts" using len by (auto simp: parts_def list_all_iff slice_def)
  have "CHR '':'' \<notin> set (hex_str n)"
  proof (induction n rule: hex_str.induct)
    case (1 n)
    have "CHR '':'' \<noteq> low_hex d" if "d < 16" for d
    proof
      assume "CHR '':'' = low_hex d"
      then have "low_hex d = CHR '':''" by (rule sym)
      then have "(of_char (low_hex d) :: nat) = 58" by simp
      then show False using that by (simp add: low_hex_def digit_char_def split: if_splits)
    qed
    then show ?case using 1 by (subst hex_str.simps) simp
  qed
  then have "\<forall>p \<in> set parts. CHR '':'' \<notin> set p" using c by (metis UN_I set_concat)
  then show "split_on CHR '':'' (mac_text n) = parts"
    unfolding mac_text_def Let_def parts_def [symmetric] by (intro split_join) (simp_all add: parts_def upt_rec)
qed

lemma mac_text_inj:
  assumes "16 ^ 11 \<le> n" "n < 16 ^ 12" "16 ^ 11 \<le> m" "m < 16 ^ 12" "mac_text n = mac_text m"
  shows "n = m"
  using mac_parts [OF assms(1,2)] mac_parts [OF assms(3,4)] assms(5) by (metis hex_str_inj)

text \<open>The addresses of the machines that a process makes one after the other.\<close>

fun get_macs :: "nat \<Rightarrow> ('d, string list) vmethod" where
  "get_macs 0 = returnB []"
| "get_macs (Suc k) = bindB get_new_mac (\<lambda>m. bindB (get_macs k) (\<lambda>ms. returnB (m # ms)))"

lemma get_macs_eq: "get_macs k s = Some (Inr (map mac_text [MAC_ADDR s..<MAC_ADDR s + k]), s\<lparr>MAC_ADDR := MAC_ADDR s + k\<rparr>)"
proof (induction k arbitrary: s)
  case 0
  show ?case by simp
next
  case (Suc k)
  have "get_new_mac s = Some (Inr (mac_text (MAC_ADDR s)), s\<lparr>MAC_ADDR := MAC_ADDR s + 1\<rparr>)"
    by (simp add: get_new_mac_def bindB_def thenB_def)
  then show ?case by (simp add: bindB_def Suc upt_conv_Cons del: upt_Suc)
qed

text \<open>
  C28. The machines that one process makes have different hardware addresses, each of six pairs of digits, as long as there
  are no more than the numbers that are left.
\<close>

theorem addresses_distinct:
  assumes "MAC_ADDR s = FIRST_MAC" "k \<le> 2 ^ 48 - FIRST_MAC"
  shows "\<exists>macs t. get_macs k s = Some (Inr macs, t) \<and> length macs = k \<and> distinct macs \<and>
           list_all (\<lambda>m. length (split_on CHR '':'' m) = 6 \<and> list_all (\<lambda>p. length p = 2) (split_on CHR '':'' m)) macs"
proof -
  let ?ns = "[FIRST_MAC..<FIRST_MAC + k]"
  have range: "16 ^ 11 \<le> n \<and> n < 16 ^ 12" if "n \<in> set ?ns" for n
    using that assms(2) by (auto simp: FIRST_MAC_def)
  have "distinct (map mac_text ?ns)"
    unfolding distinct_map inj_on_def using range mac_text_inj by (metis distinct_upt)
  moreover have "list_all (\<lambda>m. length (split_on CHR '':'' m) = 6 \<and> list_all (\<lambda>p. length p = 2) (split_on CHR '':'' m)) (map mac_text ?ns)"
    unfolding list_all_iff using range mac_parts(1,2) by (auto simp: list_all_iff)
  ultimately show ?thesis using get_macs_eq [of k s] assms(1) by simp
qed

text \<open>A machine, for examples.\<close>

definition sample_vm :: "'d \<Rightarrow> 'd vm" where
  "sample_vm d =
     \<lparr>daemon = d, locked = False, REQUIRE_MUTEX = True, vm_name = ''vm1'', MACHINE_TYPE = Some KVM,
      ISOLATED_NETWORK_CREATED = True, lv_log = [], vm_type = KVM, mac_addr = ''10:74:10:00:00:00'',
      vm_disk = ''/opt/lophi/vms/vm1.qcow2'', disk_base = None, vm_config = ''/opt/lophi/vms/vm1.xml'', profile = None,
      images = Some [''winxpsp3x86'' \<mapsto> ''xp.qcow2''], control_sensor = True, memory_sensor = True, disk_sensor = None,
      network_sensor = None, MACHINE_STATE_OF = UNKNOWN, DISK_STATE_OF = UNKNOWN_DISK, MAC_ADDR = FIRST_MAC,
      files = (\<lambda>f. None), commands = []\<rparr>"

theorem addresses_distinct_witness:
  "\<exists>macs t. get_macs 3 (sample_vm ()) = Some (Inr macs, t) \<and> length macs = 3 \<and> distinct macs \<and>
     list_all (\<lambda>m. length (split_on CHR '':'' m) = 6 \<and> list_all (\<lambda>p. length p = 2) (split_on CHR '':'' m)) macs"
  by (rule addresses_distinct) (simp_all add: sample_vm_def FIRST_MAC_def)

end
