(* ===== verification/VirtualPower.thy ===== *)
theory VirtualPower
  imports VirtualProperties VirtualConfig
begin

text \<open>
  Power control and resetting of virtual machines over a libvirt that behaves as documented, with the description that
  the machine writes for itself.
\<close>

section \<open>Libvirt as documented\<close>

text \<open>The name that a description gives to its domain.\<close>

fun behind :: "string \<Rightarrow> string \<Rightarrow> string option" where
  "behind p [] = None"
| "behind p (c # cs) = (if starts_with p (c # cs) then Some (drop (length p) (c # cs)) else behind p cs)"

definition xml_name :: "string \<Rightarrow> string option" where
  "xml_name x = map_option (takeWhile (\<lambda>c. c \<noteq> CHR ''<'')) (behind ''<name>'' x)"

text \<open>
  \<open>doms\<close> gives the states of the domains that libvirt knows.  A domain that is not shut off cannot be started again, one
  that is shut off cannot be destroyed, and a destroyed one may vanish.
\<close>

definition reads :: "('d \<Rightarrow> string \<rightharpoonup> dom_state) \<Rightarrow> ('d, 'a) pymethod \<Rightarrow> bool" where
  "reads doms m \<longleftrightarrow> (\<forall>d. doms (snd (m d)) = doms d)"

definition documented :: "('d, 'e) libvirt_scheme \<Rightarrow> ('d \<Rightarrow> string \<rightharpoonup> dom_state) \<Rightarrow> bool" where
  "documented lv doms \<longleftrightarrow>
     (\<forall>d. fst (lv_open lv d) = Inr True) \<and> reads doms (lv_open lv) \<and>
     (\<forall>d. fst (lv_close lv d) = Inr ()) \<and> reads doms (lv_close lv) \<and>
     (\<forall>n d. fst (lv_lookup lv n d) = Inr () \<longleftrightarrow> doms d n \<noteq> None) \<and> (\<forall>n. reads doms (lv_lookup lv n)) \<and>
     (\<forall>n d st. doms d n = Some st \<longrightarrow> fst (lv_state lv n d) = Inr st) \<and> (\<forall>n. reads doms (lv_state lv n)) \<and>
     (\<forall>n. reads doms (lv_xml lv n)) \<and>
     (\<forall>n d. doms d n = Some SHUTOFF \<longrightarrow>
        fst (lv_call lv n Create d) = Inr () \<and> doms (snd (lv_call lv n Create d)) = (doms d)(n \<mapsto> RUNNING)) \<and>
     (\<forall>n d st. doms d n = Some st \<and> st \<noteq> SHUTOFF \<longrightarrow> doms (snd (lv_call lv n Create d)) = doms d) \<and>
     (\<forall>n d st. doms d n = Some st \<and> st \<noteq> SHUTOFF \<longrightarrow>
        fst (lv_call lv n Destroy d) = Inr () \<and>
        (\<exists>r \<in> {None, Some SHUTOFF}. doms (snd (lv_call lv n Destroy d)) = (doms d)(n := r))) \<and>
     (\<forall>n d. doms d n = Some SHUTOFF \<longrightarrow> doms (snd (lv_call lv n Destroy d)) = doms d) \<and>
     (\<forall>n d x k p. xml_name x = Some k \<and> doms d k = None \<longrightarrow>
        fst (lv_call lv n (CreateXML x p) d) = Inr () \<and>
        doms (snd (lv_call lv n (CreateXML x p) d)) = (doms d)(k \<mapsto> (if p then PAUSED else RUNNING)))"

text \<open>A libvirt that does no more than that, for the witnesses.\<close>

definition plain_libvirt :: "(string \<rightharpoonup> dom_state) libvirt" where
  "plain_libvirt =
     \<lparr>lv_open = returnS True, lv_lookup = (\<lambda>n d. (if d n = None then Inl (PyException ''libvirtError'') else Inr (), d)),
      lv_close = returnS (),
      lv_call = (\<lambda>n c d.
        case c of
          Create \<Rightarrow> if d n = Some SHUTOFF then (Inr (), d(n \<mapsto> RUNNING)) else (Inl (PyException ''libvirtError''), d)
        | Destroy \<Rightarrow> if d n \<noteq> None \<and> d n \<noteq> Some SHUTOFF then (Inr (), d(n \<mapsto> SHUTOFF)) else (Inl (PyException ''libvirtError''), d)
        | CreateXML x p \<Rightarrow>
            (case xml_name x of
               None \<Rightarrow> (Inl (PyException ''libvirtError''), d)
             | Some k \<Rightarrow> if d k = None then (Inr (), d(k \<mapsto> (if p then PAUSED else RUNNING))) else (Inl (PyException ''libvirtError''), d))
        | _ \<Rightarrow> (Inl (PyException ''libvirtError''), d)),
      lv_state = (\<lambda>n d. (case d n of None \<Rightarrow> Inl (PyException ''libvirtError'') | Some st \<Rightarrow> Inr st, d)),
      lv_xml = (\<lambda>n. returnS (Element ''domain'' [] []))\<rparr>"

lemma plain_documented: "documented plain_libvirt (\<lambda>d. d)"
  by (auto simp: documented_def plain_libvirt_def reads_def)

section \<open>Sessions\<close>

text \<open>Nothing but libvirt, the lock and the list of calls changes.\<close>

definition same :: "('d, 'z) vctl_scheme \<Rightarrow> ('d, 'z) vctl_scheme \<Rightarrow> bool" where
  "same s0 s \<longleftrightarrow> s\<lparr>daemon := daemon s0, locked := locked s0, lv_log := lv_log s0\<rparr> = s0"

lemma same_refl [simp]: "same s s"
  by (simp add: same_def)

lemma same_update:
  "same s0 s \<Longrightarrow> same s0 (s\<lparr>daemon := d\<rparr>)"
  "same s0 s \<Longrightarrow> same s0 (s\<lparr>locked := l\<rparr>)"
  "same s0 s \<Longrightarrow> same s0 (s\<lparr>lv_log := c\<rparr>)"
  by (simp_all add: same_def)

lemma same_field:
  assumes "same s0 s" "\<And>s d l c. f (s\<lparr>daemon := d, locked := l, lv_log := c\<rparr>) = f s"
  shows "f s = f s0"
  using assms unfolding same_def by metis

lemma same_fields:
  assumes "same s0 s"
  shows "vm_name s = vm_name s0" "REQUIRE_MUTEX s = REQUIRE_MUTEX s0" "MACHINE_TYPE s = MACHINE_TYPE s0"
  by (rule same_field [OF assms], simp)+

lemma ends_ask:
  assumes "\<And>s. P s \<Longrightarrow> \<exists>x d. m (daemon s) = (Inr x, d) \<and> Q x (s\<lparr>daemon := d\<rparr>)"
  shows "ends P (ask m) Q R"
  using assms by (fastforce simp: ends_def ask_def)

lemma ends_tryB_ask:
  assumes "\<And>s r d. P s \<Longrightarrow> m (daemon s) = (r, d) \<Longrightarrow> Q () (s\<lparr>daemon := d\<rparr>)"
  shows "ends P (tryB (ask m) (\<lambda>e. returnB ())) Q R"
  using assms by (auto simp: ends_def tryB_def ask_def split: prod.splits sum.splits)

text \<open>A session with a documented libvirt: the body runs with the domain found if there is one, and nothing raises.\<close>

abbreviation (input) at :: "('d \<Rightarrow> string \<rightharpoonup> dom_state) \<Rightarrow> ('d, 'z) vctl_scheme \<Rightarrow> (string \<rightharpoonup> dom_state) \<Rightarrow> ('d, 'z) vctl_scheme \<Rightarrow> bool" where
  "at doms s0 D s \<equiv> same s0 s \<and> doms (daemon s) = D"

lemma connect_documented:
  assumes lv: "documented lv doms"
  shows "ends (\<lambda>s. idle q s \<and> at doms s0 D s) (connect lv)
           (\<lambda>found s. found = (D (vm_name s0) \<noteq> None) \<and> busy q s \<and> at doms s0 D s) (\<lambda>_. False)"
proof (rule endsI, rule disjI1)
  fix s assume s: "idle q s \<and> at doms s0 D s"
  define s1 where "s1 = (if q then s\<lparr>locked := True\<rparr> else s)"
  obtain d1 where d1: "lv_open lv (daemon s) = (Inr True, d1)" "doms d1 = doms (daemon s)"
    using lv unfolding documented_def reads_def by (metis prod.collapse)
  obtain r d2 where d2: "lv_lookup lv (vm_name s) d1 = (r, d2)" "doms d2 = doms d1" "r = Inr () \<longleftrightarrow> doms d1 (vm_name s) \<noteq> None"
    using lv unfolding documented_def reads_def by (metis prod.collapse fst_conv)
  have n: "vm_name s = vm_name s0" using s same_fields by blast
  have "connect lv s = Some (Inr (D (vm_name s0) \<noteq> None), s1\<lparr>daemon := d2\<rparr>)"
  proof (cases r)
    case (Inl e)
    then show ?thesis using s d1 d2 n
      by (auto simp: connect_def bindB_def thenB_def tryB_def ask_def acquire_def idle_def s1_def)
  next
    case (Inr u)
    then show ?thesis using s d1 d2 n
      by (auto simp: connect_def bindB_def thenB_def tryB_def ask_def acquire_def idle_def s1_def)
  qed
  moreover have "busy q (s1\<lparr>daemon := d2\<rparr>) \<and> at doms s0 D (s1\<lparr>daemon := d2\<rparr>)"
    using s d1 d2 by (simp add: busy_def idle_def s1_def same_update)
  ultimately show "\<exists>x t. connect lv s = Some (Inr x, t) \<and> x = (D (vm_name s0) \<noteq> None) \<and> busy q t \<and> at doms s0 D t" by blast
qed

lemma disconnect_documented:
  assumes lv: "documented lv doms"
  shows "ends (\<lambda>s. busy q s \<and> same s0 s \<and> Q (doms (daemon s))) (disconnect lv)
           (\<lambda>_ s. idle q s \<and> same s0 s \<and> Q (doms (daemon s))) (\<lambda>_. False)"
proof (rule endsI, rule disjI1)
  fix s assume s: "busy q s \<and> same s0 s \<and> Q (doms (daemon s))"
  obtain d1 where d1: "lv_close lv (daemon s) = (Inr (), d1)" "doms d1 = doms (daemon s)"
    using lv unfolding documented_def reads_def by (metis prod.collapse)
  then show "\<exists>x t. disconnect lv s = Some (Inr x, t) \<and> idle q t \<and> same s0 t \<and> Q (doms (daemon t))"
    using s by (auto simp: disconnect_def bindB_def thenB_def ask_def release_def busy_def idle_def same_update)
qed

lemma session_documented:
  assumes lv: "documented lv doms"
    and body: "ends (\<lambda>s. busy q s \<and> at doms s0 D s) (body (D (vm_name s0) \<noteq> None))
                 (\<lambda>x s. busy q s \<and> same s0 s \<and> Q x (doms (daemon s))) (\<lambda>_. False)"
  shows "ends (\<lambda>s. idle q s \<and> at doms s0 D s) (session lv body) (\<lambda>x s. idle q s \<and> same s0 s \<and> Q x (doms (daemon s))) (\<lambda>_. False)"
  unfolding session_def
proof (rule ends_bindB [OF connect_documented [OF lv]], rule ends_bindB)
  show "ends (\<lambda>s. found = (D (vm_name s0) \<noteq> None) \<and> busy q s \<and> at doms s0 D s) (body found)
     (\<lambda>x s. busy q s \<and> same s0 s \<and> Q x (doms (daemon s))) (\<lambda>_. False)" for found
    by (rule ends_pure) (use body in simp)
  show "ends (\<lambda>s. busy q s \<and> same s0 s \<and> Q x (doms (daemon s))) (thenB (disconnect lv) (returnB x))
     (\<lambda>x s. idle q s \<and> same s0 s \<and> Q x (doms (daemon s))) (\<lambda>_. False)" for x
    by (rule ends_thenB [OF disconnect_documented [OF lv, where Q = "Q x"]]) (auto intro: ends_returnB)
qed

section \<open>The sensor\<close>

abbreviation live :: "dom_state option set" where
  "live \<equiv> {Some RUNNING, Some BLOCKED, Some PAUSED}"

lemma power_on_documented:
  assumes lv: "documented lv doms" and D: "D (vm_name s0) \<in> insert None (insert (Some SHUTOFF) live)"
  shows "ends (\<lambda>s. idle q s \<and> at doms s0 D s) (power_on lv)
           (\<lambda>ok s. idle q s \<and> same s0 s \<and>
              (if ok then \<exists>st \<in> live. doms (daemon s) = D(vm_name s0 := st)
               else D (vm_name s0) = None \<and> doms (daemon s) = D)) (\<lambda>_. False)"
  unfolding power_on_def
proof (rule session_documented [OF lv], rule endsI, rule disjI1)
  fix s assume s: "busy q s \<and> at doms s0 D s"
  let ?n = "vm_name s0"
  have n: "vm_name s = ?n" using s same_fields by blast
  let ?body = "if D ?n \<noteq> None then thenB (tryB (call lv Create) (\<lambda>e. returnB ())) (returnB True) else returnB False"
  show "\<exists>x t. ?body s = Some (Inr x, t) \<and> busy q t \<and> same s0 t \<and>
      (if x then \<exists>st \<in> live. doms (daemon t) = D(?n := st) else D ?n = None \<and> doms (daemon t) = D)"
  proof (cases "D ?n")
    case None
    then show ?thesis using s by (intro exI [of _ False] exI [of _ s]) simp
  next
    case (Some st)
    obtain r d where r: "lv_call lv ?n Create (daemon s) = (r, d)" by fastforce
    have "\<exists>st' \<in> live. doms d = D(?n := st')"
    proof (cases "st = SHUTOFF")
      case True
      then have "doms d = D(?n \<mapsto> RUNNING)" using lv s r Some unfolding documented_def by (metis snd_conv)
      then show ?thesis by blast
    next
      case False
      then have "doms d = D" using lv s r Some unfolding documented_def by (metis snd_conv)
      then show ?thesis using Some False D by (intro bexI [of _ "Some st"]) auto
    qed
    then show ?thesis
      using Some s r n by (cases r) (auto simp: thenB_def bindB_def tryB_def call_def ask_def busy_def same_update)
  qed
qed

lemma power_status_documented:
  assumes lv: "documented lv doms"
  shows "ends (\<lambda>s. idle q s \<and> at doms s0 D s) (power_status lv)
           (\<lambda>x s. x = status_of (D (vm_name s0)) \<and> idle q s \<and> at doms s0 D s) (\<lambda>_. False)"
proof -
  have "ends (\<lambda>s. idle q s \<and> at doms s0 D s) (get_state lv)
      (\<lambda>x s. idle q s \<and> same s0 s \<and> (x = D (vm_name s0) \<and> doms (daemon s) = D)) (\<lambda>_. False)"
    unfolding get_state_def
  proof (rule session_documented [OF lv], rule endsI, rule disjI1)
    fix s assume s: "busy q s \<and> at doms s0 D s"
    let ?n = "vm_name s0"
    have n: "vm_name s = ?n" using s same_fields by blast
    show "\<exists>x t. (if D ?n \<noteq> None then bindB (getB vm_name) (\<lambda>n. bindB (ask (lv_state lv n)) (\<lambda>st. returnB (Some st)))
        else returnB None) s = Some (Inr x, t) \<and> busy q t \<and> same s0 t \<and> (x = D ?n \<and> doms (daemon t) = D)"
    proof (cases "D ?n")
      case (Some st)
      obtain d where "lv_state lv ?n (daemon s) = (Inr st, d)" "doms d = D"
        using lv s Some unfolding documented_def reads_def by (metis prod.collapse)
      then show ?thesis using Some s n by (auto simp: bindB_def ask_def busy_def same_update)
    qed (use s in simp)
  qed
  then show ?thesis unfolding power_status_def
    by (rule ends_bindB) (auto intro!: ends_returnB)
qed

lemma power_off_documented:
  assumes lv: "documented lv doms"
  shows "ends (\<lambda>s. idle q s \<and> at doms s0 D s) (power_off lv)
           (\<lambda>_ s. same s0 s \<and> (\<exists>r \<in> {None, Some SHUTOFF}. doms (daemon s) = D(vm_name s0 := r))) (\<lambda>_. False)"
proof -
  let ?n = "vm_name s0"
  let ?Q = "\<lambda>s. same s0 s \<and> (\<exists>r \<in> {None, Some SHUTOFF}. doms (daemon s) = D(?n := r))"
  have conn: "ends (\<lambda>s. idle q s \<and> at doms s0 D s) (connect lv)
     (\<lambda>found s. found = (D ?n \<noteq> None) \<and> busy q s \<and> at doms s0 D s) ?Q"
    by (rule ends_weaken [OF connect_documented [OF lv]]) auto
  have body: "ends (\<lambda>s. busy q s \<and> at doms s0 D s) (if D ?n \<noteq> None then call lv Destroy else returnB ())
     (\<lambda>_ s. busy q s \<and> ?Q s) ?Q"
  proof (rule endsI)
    fix s assume s: "busy q s \<and> at doms s0 D s"
    have n: "vm_name s = ?n" using s same_fields by blast
    show "(\<exists>x t. (if D ?n \<noteq> None then call lv Destroy else returnB ()) s = Some (Inr x, t) \<and> busy q t \<and> ?Q t) \<or>
          (\<exists>e t. (if D ?n \<noteq> None then call lv Destroy else returnB ()) s = Some (Inl e, t) \<and> ?Q t)"
    proof (cases "D ?n")
      case None
      then have "\<exists>r \<in> {None, Some SHUTOFF}. doms (daemon s) = D(?n := r)" using s by (intro bexI [of _ None]) auto
      then show ?thesis using s None by simp
    next
      case (Some st)
      obtain r d where r: "lv_call lv ?n Destroy (daemon s) = (r, d)" by fastforce
      have "\<exists>x \<in> {None, Some SHUTOFF}. doms d = D(?n := x)"
      proof (cases "st = SHUTOFF")
        case True
        then have "doms d = D" using lv s r Some unfolding documented_def by (metis snd_conv)
        then show ?thesis using Some True by (intro bexI [of _ "Some SHUTOFF"]) auto
      next
        case False
        then show ?thesis using lv s r Some unfolding documented_def by (metis snd_conv)
      qed
      then show ?thesis using Some s r n
        by (cases r) (auto simp: call_def thenB_def bindB_def ask_def busy_def same_update)
    qed
  qed
  have close: "ends (\<lambda>s. busy q s \<and> ?Q s) (thenB (disconnect lv) (returnB x)) (\<lambda>_. ?Q) ?Q" for x :: unit
    by (rule ends_weaken [OF ends_thenB [OF disconnect_documented [OF lv, where Q = "\<lambda>E. \<exists>r \<in> {None, Some SHUTOFF}. E = D(?n := r)"] ends_returnB]])
      auto
  have "ends (\<lambda>s. idle q s \<and> at doms s0 D s) (on_domain lv Destroy) (\<lambda>_. ?Q) ?Q"
    unfolding on_domain_def session_def
    by (rule ends_bindB [OF conn], rule ends_pure) (use ends_bindB [OF body close] in simp)
  then show ?thesis unfolding power_off_def by (rule ends_tryB) (rule ends_returnB)
qed

lemma documented_CreateXML:
  assumes "documented lv doms" "xml_name x = Some k" "doms d k = None"
  shows "\<exists>d'. lv_call lv n (CreateXML x p) d = (Inr (), d') \<and> doms d' = (doms d)(k \<mapsto> (if p then PAUSED else RUNNING))"
proof -
  have "fst (lv_call lv n (CreateXML x p) d) = Inr () \<and>
      doms (snd (lv_call lv n (CreateXML x p) d)) = (doms d)(k \<mapsto> (if p then PAUSED else RUNNING))"
    using assms unfolding documented_def by blast
  then show ?thesis by (cases "lv_call lv n (CreateXML x p) d") auto
qed

lemma machine_create_documented:
  assumes lv: "documented lv doms" and D: "D (vm_name s0) = None" "xml_name x = Some (vm_name s0)"
  shows "ends (\<lambda>s. idle q s \<and> at doms s0 D s) (machine_create lv x False)
           (\<lambda>_ s. idle q s \<and> same s0 s \<and> doms (daemon s) = D(vm_name s0 \<mapsto> RUNNING)) (\<lambda>_. False)"
  unfolding machine_create_def
proof (rule session_documented [OF lv], rule endsI, rule disjI1)
  fix s assume s: "busy q s \<and> at doms s0 D s"
  let ?n = "vm_name s0"
  have n: "vm_name s = ?n" using s same_fields by blast
  obtain d where "lv_call lv ?n (CreateXML x False) (daemon s) = (Inr (), d)" "doms d = D(?n \<mapsto> RUNNING)"
    using documented_CreateXML [OF lv D(2), of "daemon s" ?n False] s D(1) by auto
  then show "\<exists>y t. (if D ?n \<noteq> None then returnB ()
      else if False then bindB (getB MACHINE_TYPE) (\<lambda>t. if t = Some KVM then call lv (CreateXML x True)
             else thenB (call lv (CreateXML x False)) (call lv Suspend))
      else call lv (CreateXML x False)) s = Some (Inr y, t) \<and> busy q t \<and> same s0 t \<and> doms (daemon t) = D(?n \<mapsto> RUNNING)"
    using D s n by (auto simp: call_def thenB_def bindB_def ask_def busy_def same_update)
qed

lemma interface_documented:
  assumes lv: "documented lv doms"
  shows "ends (\<lambda>s. idle q s \<and> at doms s0 D s) (network_get_interface lv)
           (\<lambda>_ s. idle q s \<and> same s0 s \<and> doms (daemon s) = D) (\<lambda>_. False)"
  unfolding network_get_interface_def
proof (rule session_documented [OF lv], rule endsI, rule disjI1)
  fix s assume s: "busy q s \<and> at doms s0 D s"
  obtain r d where "lv_xml lv (vm_name s) (daemon s) = (r, d)" "doms d = D"
    using lv s unfolding documented_def reads_def by (metis prod.collapse)
  then show "\<exists>y t. (if \<not> D (vm_name s0) \<noteq> None then returnB None
      else tryB (bindB (getB vm_name) (\<lambda>n. bindB (ask (lv_xml lv n)) (\<lambda>root.
                    bindB (liftB (liftS (xml_interface root))) (\<lambda>dev. returnB (Some dev)))))
              (\<lambda>e. returnB None)) s = Some (Inr y, t) \<and> busy q t \<and> same s0 t \<and> doms (daemon t) = D"
    using s by (auto simp: tryB_def bindB_def ask_def busy_def same_update split: sum.splits)
qed

section \<open>The description names the machine\<close>

definition head_text :: "string \<Rightarrow> string" where
  "head_text k = ''<domain type='' @ [CHR 0x27] @ k @ [CHR 0x27] @ ''>'' @ [newline] @ ''  <name>''"

lemma template_head:
  assumes "VIRSH_TEMPLATE t = Inr template"
  shows "\<exists>a rest. template = a @ marker ''VMNAME'' @ ''</name>'' @ rest \<and> percent \<notin> set a \<and> (\<forall>x. behind ''<name>'' (a @ x) = Some x)"
proof -
  have kvm: "\<exists>rest. TEMPLATE_KVM = head_text ''kvm'' @ marker ''VMNAME'' @ ''</name>'' @ rest"
    unfolding TEMPLATE_KVM_def unlines_def marker_def head_text_def list.map concat.simps append_Cons append_Nil
    by (rule exI) (rule refl)
  have xen: "\<exists>rest. TEMPLATE_XEN = head_text ''xen'' @ marker ''VMNAME'' @ ''</name>'' @ rest"
    unfolding TEMPLATE_XEN_def unlines_def marker_def head_text_def list.map concat.simps append_Cons append_Nil
    by (rule exI) (rule refl)
  have heads: "percent \<notin> set (head_text k) \<and> (\<forall>x. behind ''<name>'' (head_text k @ x) = Some x)" if "k = ''kvm'' \<or> k = ''xen''" for k
    using that by (auto simp: head_text_def)
  have "template = TEMPLATE_KVM \<or> template = TEMPLATE_XEN" using assms by (cases t) (simp_all add: VIRSH_TEMPLATE_def)
  then show ?thesis using kvm xen heads by blast
qed

lemma split_on_prefix: "c \<notin> set p \<Longrightarrow> split_on c s = y # ys \<Longrightarrow> split_on c (p @ s) = (p @ y) # ys"
  by (induction p) auto

lemma description_names_machine:
  assumes t: "VIRSH_TEMPLATE t = Inr template"
    and plain: "percent \<notin> set name_of" "percent \<notin> set disk_img" "percent \<notin> set mac" "CHR ''<'' \<notin> set name_of"
  shows "xml_name (generate_new_xen_xml template name_of disk_img mac memory_size cpu_count) = Some name_of"
proof -
  obtain a rest where a: "template = a @ marker ''VMNAME'' @ ''</name>'' @ rest" "percent \<notin> set a" "\<And>x. behind ''<name>'' (a @ x) = Some x"
    using template_head [OF t] by blast
  let ?v = "xml_values name_of disk_img mac memory_size cpu_count"
  obtain c where c: "proper c" "template = glue marker c"
    using VIRSH_TEMPLATE_is_template [OF t] unfolding is_template_def by blast
  obtain y ys where "split_on percent rest = y # ys" by (cases "split_on percent rest") auto
  then have split: "split_on percent (''</name>'' @ rest) = (''</name>'' @ y) # ys" by (rule split_on_prefix [rotated]) simp
  have "split_on percent template = a # [] # ''VMNAME'' # [] # (''</name>'' @ y) # ys"
  proof -
    have "split_on percent (''VMNAME'' @ percent # percent # ''</name>'' @ rest) = ''VMNAME'' # [] # (''</name>'' @ y) # ys"
      using split_on_first [of percent "''VMNAME''" "percent # ''</name>'' @ rest"] split by simp
    then show ?thesis
      using split_on_first [OF a(2), of "percent # ''VMNAME'' @ percent # percent # ''</name>'' @ rest"] by (simp add: a(1) marker_Cons)
  qed
  then have "c = (a, (''VMNAME'', ''</name>'' @ y) # holes ys)" using cut_of_glue [OF c(1)] c(2) by (simp add: cut_of_def)
  then have "generate_new_xen_xml template name_of disk_img mac memory_size cpu_count =
      a @ name_of @ ''</name>'' @ y @ concat (map (\<lambda>(n, l). ?v n @ l) (holes ys))"
    using generate_glue [OF c(1) plain(1-3)] c(2) by (simp add: glue_def xml_values_def)
  then show ?thesis using a(3) plain(4) by (simp add: xml_name_def takeWhile_append)
qed

section \<open>Machines\<close>

text \<open>The texts from which a description is made can be put into the template.\<close>

definition plain_config :: "'d vm \<Rightarrow> bool" where
  "plain_config s \<longleftrightarrow> vm_type s \<noteq> PHYSICAL \<and> percent \<notin> set (vm_name s) \<and> percent \<notin> set (vm_disk s) \<and>
     percent \<notin> set (mac_addr s) \<and> CHR ''<'' \<notin> set (vm_name s)"

lemma same_vm:
  assumes "same s0 s"
  shows "control_sensor s = control_sensor s0" "files s = files s0" "vm_config s = vm_config s0" "plain_config s = plain_config s0"
    "disk_base s = disk_base s0" "commands s = commands s0" "vm_disk s = vm_disk s0"
  by (rule same_field [OF assms], simp add: plain_config_def)+

lemma config_read_names:
  assumes "plain_config s" "\<And>c. files s (vm_config s) = Some c \<Longrightarrow> xml_name c = Some (vm_name s)"
  shows "\<exists>c f. config_read s = Some (Inr c, s\<lparr>files := f\<rparr>) \<and> xml_name c = Some (vm_name s)"
proof (cases "files s (vm_config s)")
  case (Some c)
  then show ?thesis using assms(2) by (auto simp: config_read_def bindB_def thenB_def intro!: exI [of _ "files s"])
next
  case None
  obtain template where t: "VIRSH_TEMPLATE (vm_type s) = Inr template"
    using assms(1) by (cases "vm_type s") (simp_all add: plain_config_def VIRSH_TEMPLATE_def)
  let ?c = "generate_new_xen_xml template (vm_name s) (vm_disk s) (mac_addr s) 1048576 1"
  have "xml_name ?c = Some (vm_name s)"
    using description_names_machine [OF t] assms(1) by (simp add: plain_config_def)
  moreover have "config_read s = Some (Inr ?c, s\<lparr>files := (files s)(vm_config s \<mapsto> ?c)\<rparr>)"
    using None t by (simp add: config_read_def config_create_def bindB_def thenB_def)
  ultimately show ?thesis by blast
qed

lemma machine_create_runs:
  assumes lv: "documented lv doms" and s: "\<not> locked s" "control_sensor s" "plain_config s" "doms (daemon s) (vm_name s) = None"
    and c: "\<And>c. files s (vm_config s) = Some c \<Longrightarrow> xml_name c = Some (vm_name s)"
  shows "\<exists>t. vm_machine_create lv False s = Some (Inr (), t) \<and> \<not> locked t \<and> control_sensor t \<and> vm_name t = vm_name s \<and>
           doms (daemon t) = (doms (daemon s))(vm_name s \<mapsto> RUNNING)"
proof -
  let ?D = "doms (daemon s)"
  obtain x f where x: "config_read s = Some (Inr x, s\<lparr>files := f\<rparr>)" "xml_name x = Some (vm_name s)"
    using config_read_names [OF s(3) c] by blast
  define s1 where "s1 = s\<lparr>files := f\<rparr>"
  have s1: "idle (REQUIRE_MUTEX s) s1 \<and> at doms s1 ?D s1" using s(1) by (simp add: s1_def idle_def)
  have create: "ends (\<lambda>s'. idle (REQUIRE_MUTEX s) s' \<and> at doms s1 ?D s') (machine_create lv x False)
      (\<lambda>_ s'. idle (REQUIRE_MUTEX s) s' \<and> at doms s1 (?D(vm_name s1 \<mapsto> RUNNING)) s') (\<lambda>_. False)"
    by (rule machine_create_documented [OF lv]) (use s(4) x(2) in \<open>simp_all add: s1_def\<close>)
  from ends_thenB [OF create interface_documented [OF lv]] s1
  obtain i t where t: "thenB (machine_create lv x False) (network_get_interface lv) s1 = Some (Inr i, t)"
    "idle (REQUIRE_MUTEX s) t" "same s1 t" "doms (daemon t) = ?D(vm_name s1 \<mapsto> RUNNING)"
    by (rule endsE) blast+
  then obtain s2 where s2: "machine_create lv x False s1 = Some (Inr (), s2)" "network_get_interface lv s2 = Some (Inr i, t)"
    by (auto simp: thenB_def bindB_def split: option.splits prod.splits sum.splits)
  have "control_sensor t" "vm_name t = vm_name s" using same_vm(1) [OF t(3)] same_fields(1) [OF t(3)] s(2) by (simp_all add: s1_def)
  then show ?thesis
    using s(2) x(1) s2 t(2,4) by (simp add: vm_machine_create_def with_control_def bindB_def thenB_def s1_def [symmetric] idle_def)
      (simp add: s1_def)
qed





end
