(* ===== verification/DiskIntrospection.thy ===== *)
theory DiskIntrospection
  imports PyStruct PyText
begin

text \<open>
  Disk activity of virtual machines: the introspection server \<^verbatim>\<open>tools/disk_sensor/lophi-disk-introspection-server.py\<close>,
  which takes the packets of the hypervisor and hands them to the listeners of a disk, and the sensor
  \<^verbatim>\<open>sensors/disk/virtual.py\<close>, which is such a listener.  A connection is the list of the pieces in which its bytes
  arrive; how the pieces are cut is up to the environment.
\<close>

section \<open>Connections\<close>

text \<open>\<^verbatim>\<open>recv(n)\<close>: what has arrived, at most \<open>n\<close> bytes of it; nothing when the connection is closed.\<close>

fun sock_recv :: "nat \<Rightarrow> bytes list \<Rightarrow> bytes \<times> bytes list" where
  "sock_recv n [] = ([], [])"
| "sock_recv n (c # cs) = (if length c \<le> n then (c, cs) else (take n c, drop n c # cs))"

text \<open>The number of bytes is a C integer; a larger one raises \<^verbatim>\<open>OverflowError\<close>.\<close>

definition RECV_LIMIT :: int where "RECV_LIMIT = 2 ^ 31"

definition pending :: "bytes list \<Rightarrow> nat" where
  "pending cs = length (concat cs)"

lemma sock_recv_concat: "sock_recv n cs = (d, cs') \<Longrightarrow> concat cs = d @ concat cs'"
  by (cases cs) (auto split: if_splits simp flip: append_assoc)

lemma sock_recv_pending: "sock_recv n cs = (d, cs') \<Longrightarrow> pending cs = length d + pending cs'"
  using sock_recv_concat unfolding pending_def by (metis length_append)

lemma sock_recv_length: "length (fst (sock_recv n cs)) \<le> n"
  by (cases cs) auto

section \<open>The introspection server\<close>

definition MetaHeader :: fields where
  "MetaHeader = [(''filename'', FStr 1024), (''sector_size'', FInt False 0 4)]"

definition header_size :: nat where "header_size = struct_size DiskSensorPacket"

text \<open>\<^verbatim>\<open>s.strip(chars)\<close>.\<close>

definition strip_of :: "('a \<Rightarrow> bool) \<Rightarrow> 'a list \<Rightarrow> 'a list" where
  "strip_of p s = rev (dropWhile p (rev (dropWhile p s)))"

text \<open>
  The data of a packet: one \<^verbatim>\<open>recv\<close> of as many bytes as the header says.  An exception is printed, and the old data stays.
\<close>

definition vm_data :: "data_struct \<Rightarrow> bytes list \<Rightarrow> data_struct \<times> bytes list" where
  "vm_data p cs =
     (case attr (ds_dict p) ''size'' of
        VInt n \<Rightarrow> if n < RECV_LIMIT then (case sock_recv (nat n) cs of (d, cs1) \<Rightarrow> (ds_set_data (Some d) p, cs1)) else (p, cs)
      | _ \<Rightarrow> (p, cs))"

lemma vm_data_pending: "vm_data p cs = (p1, cs1) \<Longrightarrow> pending cs1 \<le> pending cs"
  by (auto simp: vm_data_def split: pyval.splits if_splits prod.splits dest: sock_recv_pending)

lemma vm_step_pending:
  assumes "sock_recv n cs = (header_data, cs1)" "header_data \<noteq> []" "vm_data p cs1 = (p2, cs2)"
  shows "pending cs2 < pending cs"
  using sock_recv_pending [OF assms(1)] vm_data_pending [OF assms(3)] assms(2) by (cases header_data) simp_all

text \<open>
  The loop of \<^verbatim>\<open>VMIntrospection.run\<close>: the packets that are handed on, and how the loop ended.  One object is used for all
  packets, so that a header that arrives in pieces leaves the fields of the last packet in place.
\<close>

function vm_loop :: "data_struct \<Rightarrow> bytes list \<Rightarrow> bytes list \<times> unit res" where
  "vm_loop p cs =
     (case sock_recv header_size cs of (header_data, cs1) \<Rightarrow>
        if header_data = [] then ([], Inr ())
        else
          (case vm_data (ds_unpack header_data p) cs1 of (p2, cs2) \<Rightarrow>
             (case ds_data p2 of
                None \<Rightarrow> ([], Inl TypeError)
              | Some d \<Rightarrow>
                  if d = [] then ([], Inr ())
                  else (case ds_repr p2 of
                          Inl e \<Rightarrow> ([], Inl e)
                        | Inr bs \<Rightarrow> (case vm_loop p2 cs2 of (out, r) \<Rightarrow> (bs # out, r))))))"
  by pat_completeness auto
termination
  by (relation "measure (\<lambda>(p, cs). pending cs)") (auto dest!: sym [of "(_, _)"] intro: vm_step_pending)

declare vm_loop.simps [simp del]

text \<open>\<^verbatim>\<open>VMIntrospection.run\<close>: the name of the disk, and the packets that are handed on under this name.\<close>

definition vm_run :: "bytes list \<Rightarrow> (string \<times> bytes list \<times> unit res) option res" where
  "vm_run cs =
     (case sock_recv (struct_size MetaHeader) cs of (meta_data, cs1) \<Rightarrow>
        if meta_data = [] then Inr None
        else (case attr (ds_dict (ds_unpack meta_data (ds_init MetaHeader None))) ''filename'' of
                VStr f \<Rightarrow> Inr (Some (text_of (strip_of (\<lambda>b. b = 0) f), vm_loop (ds_init DiskSensorPacket None) cs1))
              | _ \<Rightarrow> Inl AttributeError))"

text \<open>A command of a listener: the disk it asks for, or none if the command is not understood.\<close>

definition client_command :: "string \<Rightarrow> string option res" where
  "client_command cmd =
     (case split_on CHR '' '' cmd of
        ''n'' # f # _ \<Rightarrow> Inr (Some (strip_of (\<lambda>c. c \<in> set [CHR '' '', CHR 0x09, CHR 0x0A, CHR 0x0D]) f))
      | [''n''] \<Rightarrow> Inl IndexError
      | _ \<Rightarrow> Inr None)"

section \<open>Listeners\<close>

text \<open>
  \<^verbatim>\<open>disk_stream_dict\<close> with the numbers of the queues of each disk, and the queues.  A listener registers in four steps, which
  may be interleaved with those of others: it looks whether the disk is there, stores an empty list if it was not,
  takes a copy of the list, and stores the copy with its own queue.
\<close>

datatype reg = Looking | Missing | Present | Copied "nat list" | Listening

record streams =
  disk_stream_dict :: "string \<rightharpoonup> nat list"
  queues :: "nat \<Rightarrow> bytes list"
  regs :: "nat \<Rightarrow> reg"

definition reg_step :: "string \<Rightarrow> nat \<Rightarrow> streams \<Rightarrow> streams" where
  "reg_step f q s =
     (let to = (\<lambda>r s. s\<lparr>regs := (regs s)(q := r)\<rparr>) in
      case regs s q of
        Looking \<Rightarrow> to (if disk_stream_dict s f = None then Missing else Present) s
      | Missing \<Rightarrow> to Present (s\<lparr>disk_stream_dict := (disk_stream_dict s)(f \<mapsto> [])\<rparr>)
      | Present \<Rightarrow> (case disk_stream_dict s f of None \<Rightarrow> s | Some l \<Rightarrow> to (Copied l) s)
      | Copied l \<Rightarrow> to Listening (s\<lparr>disk_stream_dict := (disk_stream_dict s)(f \<mapsto> l @ [q])\<rparr>)
      | Listening \<Rightarrow> s)"

text \<open>A packet of the hypervisor goes to every queue of its disk.\<close>

definition forward :: "string \<Rightarrow> bytes \<Rightarrow> streams \<Rightarrow> streams" where
  "forward f p s =
     (case disk_stream_dict s f of
        None \<Rightarrow> s
      | Some l \<Rightarrow> fold (\<lambda>q s. s\<lparr>queues := (queues s)(q := queues s q @ [p])\<rparr>) l s)"

section \<open>The sensor\<close>

text \<open>The inner loop of \<^verbatim>\<open>get_disk_packet\<close>.\<close>

function data_loop :: "nat \<Rightarrow> bytes \<Rightarrow> bytes list \<Rightarrow> bytes \<times> bytes list" where
  "data_loop n data cs =
     (if length data < n then
        (case sock_recv (n - length data) cs of (tmp, cs1) \<Rightarrow>
           if tmp = [] then (data, cs1) else data_loop n (data @ tmp) cs1)
      else (data, cs))"
  by pat_completeness auto
termination by (relation "measure (\<lambda>(n, data, cs). n - length data)") (auto intro!: diff_less_mono2)

declare data_loop.simps [simp del]

text \<open>
  \<^verbatim>\<open>get_disk_packet\<close> over the connections that it gets one after the other: a header that is too short counts as the end of
  the connection, as do missing data.  \<open>None\<close> stands for the wait for a further connection.
\<close>

function virtual_disk_packet :: "bytes list list \<Rightarrow> (data_struct \<times> bytes list list) res option" where
  "virtual_disk_packet [] = None"
| "virtual_disk_packet (cs # conns) =
     (case sock_recv header_size cs of (hdr, cs1) \<Rightarrow>
        if length hdr < header_size then virtual_disk_packet conns
        else
          let p = ds_init DiskSensorPacket (Some hdr) in
          (case attr (ds_dict p) ''size'' of
             VInt n \<Rightarrow>
               if n < RECV_LIMIT then
                 (case data_loop (nat n) [] cs1 of (data, cs2) \<Rightarrow>
                    if length data < nat n then virtual_disk_packet conns
                    else Some (Inr (ds_set_data (Some data) p, cs2 # conns)))
               else Some (Inl (PyException ''OverflowError''))
           | _ \<Rightarrow> Some (Inl TypeError)))"
  by pat_completeness auto
termination by (relation "measure length") auto

lemma data_loop_concat: "data_loop n data cs = (data', cs') \<Longrightarrow> data @ concat cs = data' @ concat cs'"
proof (induction n data cs arbitrary: data' cs' rule: data_loop.induct)
  case (1 n data cs)
  obtain tmp cs1 where r: "sock_recv (n - length data) cs = (tmp, cs1)" by fastforce
  from 1 r sock_recv_concat [OF r] show ?case
    by (subst (asm) data_loop.simps) (auto split: if_splits)
qed

lemma virtual_disk_packet_consumes:
  "virtual_disk_packet conns = Some (Inr (p, conns1)) \<Longrightarrow> sum_list (map pending conns1) < sum_list (map pending conns)"
proof (induction conns rule: virtual_disk_packet.induct)
  case (2 cs conns)
  obtain hdr cs1 where h: "sock_recv header_size cs = (hdr, cs1)" by fastforce
  note c = sock_recv_pending [OF h]
  show ?case
  proof (cases "length hdr < header_size")
    case True
    then show ?thesis using 2 h c by (auto simp: trans_less_add2)
  next
    case False
    have pos: "0 < length hdr" using False by (cases hdr) (simp_all add: header_size_def struct_size_def DiskSensorPacket_def)
    show ?thesis
    proof (cases "attr (ds_dict (ds_init DiskSensorPacket (Some hdr))) ''size''")
      case (VInt n)
      obtain data cs2 where d: "data_loop (nat n) [] cs1 = (data, cs2)" by fastforce
      then have "pending cs1 = length data + pending cs2"
        using data_loop_concat [OF d] unfolding pending_def by (metis append_Nil length_append)
      then have less: "pending cs2 < pending cs" using c pos by simp
      show ?thesis
      proof (cases "n < RECV_LIMIT \<and> length data < nat n")
        case True
        then have "sum_list (map pending conns1) < sum_list (map pending conns)" using 2 h False VInt d by (auto simp: Let_def)
        then show ?thesis by simp
      next
        case stop: False
        then show ?thesis using 2(3) h False VInt d less by (auto simp: Let_def split: if_splits)
      qed
    qed (use 2 h False in auto)
  qed
qed simp

text \<open>Reading packets until the sensor has to wait or raises.\<close>

function read_packets :: "bytes list list \<Rightarrow> data_struct list" where
  "read_packets conns =
     (case virtual_disk_packet conns of
        Some (Inr (p, conns1)) \<Rightarrow> p # read_packets conns1
      | _ \<Rightarrow> [])"
  by pat_completeness auto
termination by (relation "measure (\<lambda>conns. sum_list (map pending conns))") (auto dest: virtual_disk_packet_consumes)

declare read_packets.simps [simp del]

text \<open>What the sensor asks for when it connects.\<close>

definition request :: "string \<Rightarrow> string" where
  "request disk_img = ''n '' @ disk_img"

end
