(* ===== verification/DiskIntrospectionProperties.thy ===== *)
theory DiskIntrospectionProperties
  imports DiskIntrospection
begin

text \<open>
  From the hypervisor through the introspection server to the sensor of a virtual disk: packets arrive complete and in order as
  long as no header is torn apart on the way to the sensor, and every packet reaches the server in two pieces.
\<close>

section \<open>Pieces of a connection\<close>

fun drop_bytes :: "nat \<Rightarrow> bytes list \<Rightarrow> bytes list" where
  "drop_bytes n [] = []"
| "drop_bytes n (c # cs) =
     (if n = 0 then c # cs else if n < length c then drop n c # cs else drop_bytes (n - length c) cs)"

lemma drop_bytes_0 [simp]: "drop_bytes 0 cs = cs"
  by (cases cs) simp_all

lemma drop_bytes_concat: "concat (drop_bytes n cs) = drop n (concat cs)"
  by (induction n cs rule: drop_bytes.induct) auto

lemma drop_bytes_no_Nil: "[] \<notin> set cs \<Longrightarrow> [] \<notin> set (drop_bytes n cs)"
  by (induction n cs rule: drop_bytes.induct) auto

lemma drop_bytes_add: "drop_bytes b (drop_bytes a cs) = drop_bytes (a + b) cs"
  by (induction a cs rule: drop_bytes.induct) (auto simp: add.commute)

lemma sock_recv_drop:
  assumes "[] \<notin> set cs" "0 < n"
  shows "sock_recv n cs = (take n (hd (cs @ [[]])), drop_bytes (length (take n (hd (cs @ [[]])))) cs)"
  using assms by (cases cs) auto

lemma data_loop_take:
  assumes "[] \<notin> set cs" "n - length data \<le> pending cs"
  shows "data_loop n data cs = (data @ take (n - length data) (concat cs), drop_bytes (n - length data) cs)"
  using assms
proof (induction n data cs rule: data_loop.induct)
  case (1 n data cs)
  show ?case
  proof (cases "length data < n")
    case False
    then show ?thesis by (simp add: data_loop.simps)
  next
    case True
    then obtain c cs0 where cs: "cs = c # cs0" using 1 by (cases cs) (auto simp: pending_def)
    define k where "k = n - length data"
    let ?t = "take k c"
    have c: "c \<noteq> []" "0 < k" using 1 cs True by (auto simp: k_def)
    have r: "sock_recv k cs = (?t, drop_bytes (length ?t) cs)" using sock_recv_drop [of cs k] 1 cs c by simp
    have t: "?t \<noteq> []" "length ?t \<le> k" using c by auto
    have rest: "n - length (data @ ?t) = k - length ?t" by (simp add: k_def)
    have take: "take k (concat cs) = ?t @ take (k - length ?t) (concat (drop_bytes (length ?t) cs))"
      using cs by (simp add: drop_bytes_concat take_drop)
    have "data_loop n (data @ ?t) (drop_bytes (length ?t) cs) =
        ((data @ ?t) @ take (n - length (data @ ?t)) (concat (drop_bytes (length ?t) cs)),
         drop_bytes (n - length (data @ ?t)) (drop_bytes (length ?t) cs))"
    proof (rule 1(1) [OF True])
      show "(?t, drop_bytes (length ?t) cs) = sock_recv (n - length data) cs" using r by (simp add: k_def)
      show "[] \<notin> set (drop_bytes (length ?t) cs)" using 1(2) by (rule drop_bytes_no_Nil)
      show "n - length (data @ ?t) \<le> pending (drop_bytes (length ?t) cs)"
        using 1(3) rest by (simp add: pending_def drop_bytes_concat k_def)
    qed (use t in simp_all)
    then have "data_loop n (data @ ?t) (drop_bytes (length ?t) cs) =
        ((data @ ?t) @ take (k - length ?t) (concat (drop_bytes (length ?t) cs)), drop_bytes (k - length ?t) (drop_bytes (length ?t) cs))"
      unfolding rest .
    then show ?thesis
      using True r t take by (subst data_loop.simps) (simp add: k_def [symmetric] drop_bytes_add)
  qed
qed

section \<open>Packets on the wire\<close>

text \<open>A packet: its header, whose last four bytes give the length of the data, and its data.\<close>

type_synonym wire_packet = "bytes \<times> bytes"

fun proper_packet :: "wire_packet \<Rightarrow> bool" where
  "proper_packet (h, d) \<longleftrightarrow> length h = header_size \<and> le_val (drop 16 h) = length d \<and> d \<noteq> [] \<and> length d < 2 ^ 31"

fun wire_struct :: "wire_packet \<Rightarrow> data_struct" where
  "wire_struct (h, d) = ds_set_data (Some d) (ds_init DiskSensorPacket (Some h))"

fun wire :: "wire_packet \<Rightarrow> bytes" where
  "wire (h, d) = h @ d"

text \<open>Each header lies in one piece of the connection.\<close>

fun headers_whole :: "wire_packet list \<Rightarrow> bytes list \<Rightarrow> bool" where
  "headers_whole [] cs \<longleftrightarrow> True"
| "headers_whole (p # ps) cs \<longleftrightarrow>
     cs \<noteq> [] \<and> header_size \<le> length (hd cs) \<and> headers_whole ps (drop_bytes (length (wire p)) cs)"

lemma header_size_eq: "header_size = 20"
  by (simp add: header_size_def struct_size_def DiskSensorPacket_def)

lemma size_field:
  assumes "length h = header_size" "ds_struct p = DiskSensorPacket"
  shows "attr (ds_dict (ds_unpack h p)) ''size'' = VInt (int (le_val (drop 16 h)))"
    and "ds_raw (ds_unpack h p) = Some h" and "ds_struct (ds_unpack h p) = DiskSensorPacket"
  using assms
  by (simp_all add: ds_unpack_def header_size_def [symmetric] Let_def)
    (simp add: DiskSensorPacket_def header_size_eq attr_def int_val_def numeral_eq_Suc take_drop)

lemma get_first:
  assumes p: "proper_packet p" and cs: "[] \<notin> set cs" "cs \<noteq> []" "header_size \<le> length (hd cs)"
    and c: "concat cs = wire p @ rest"
  shows "virtual_disk_packet (cs # conns) = Some (Inr (wire_struct p, drop_bytes (length (wire p)) cs # conns))"
proof -
  obtain h d where pd: "p = (h, d)" by (cases p)
  have h: "length h = header_size" "le_val (drop 16 h) = length d" "length d < 2 ^ 31" using p pd by auto
  have hd: "take header_size (hd cs) = h"
  proof -
    have "take header_size (concat cs) = take header_size (hd cs)" using cs by (cases cs) auto
    then show ?thesis using c pd h(1) by simp
  qed
  have r: "sock_recv header_size cs = (h, drop_bytes header_size cs)"
    using sock_recv_drop [OF cs(1), of header_size] cs hd h(1) by (cases cs) (simp_all add: header_size_eq)
  have "concat (drop_bytes header_size cs) = d @ rest" using c pd h(1) by (simp add: drop_bytes_concat)
  then have d: "data_loop (length d) [] (drop_bytes header_size cs) = (d, drop_bytes (length d) (drop_bytes header_size cs))"
    using data_loop_take [OF drop_bytes_no_Nil [OF cs(1)], of "length d" "[]" header_size] by (simp add: pending_def)
  have "attr (ds_dict (ds_init DiskSensorPacket (Some h))) ''size'' = VInt (int (length d))"
    using size_field(1) [OF h(1), of "ds_blank DiskSensorPacket"] h(2) by (simp add: ds_init_def ds_blank_def)
  then show ?thesis using r d h pd by (simp add: RECV_LIMIT_def Let_def drop_bytes_add)
qed

text \<open>The sensor puts packets together however their data is cut into pieces.\<close>

lemma read_packets_whole:
  assumes "\<forall>p \<in> set ps. proper_packet p" "[] \<notin> set cs" "concat cs = concat (map wire ps)" "headers_whole ps cs"
  shows "read_packets [cs] = map wire_struct ps"
  using assms
proof (induction ps arbitrary: cs)
  case Nil
  then have "cs = []" by (cases cs) auto
  then show ?case by (simp add: read_packets.simps header_size_eq)
next
  case (Cons p ps)
  let ?cs = "drop_bytes (length (wire p)) cs"
  have "virtual_disk_packet [cs] = Some (Inr (wire_struct p, [?cs]))"
    using Cons.prems by (intro get_first [of p cs "concat (map wire ps)"]) auto
  moreover have "read_packets [?cs] = map wire_struct ps"
    using Cons.prems by (intro Cons.IH) (auto simp: drop_bytes_no_Nil drop_bytes_concat)
  ultimately show ?case by (subst read_packets.simps) simp
qed

section \<open>The server\<close>

text \<open>The pieces in which the hypervisor's packets have to reach the server: the header and the data.\<close>

definition vm_pieces :: "wire_packet list \<Rightarrow> bytes list" where
  "vm_pieces ps = concat (map (\<lambda>(h, d). [h, d]) ps)"

lemma vm_loop_packets:
  assumes "\<forall>p \<in> set ps. proper_packet p" "ds_struct s = DiskSensorPacket"
  shows "vm_loop s (vm_pieces ps) = (map wire ps, Inr ())"
  using assms
proof (induction ps arbitrary: s)
  case Nil
  show ?case by (simp add: vm_pieces_def vm_loop.simps)
next
  case (Cons p ps)
  obtain h d where p: "p = (h, d)" by (cases p)
  have h: "length h = header_size" "le_val (drop 16 h) = length d" "d \<noteq> []" "length d < 2 ^ 31" using Cons.prems p by auto
  let ?s = "ds_set_data (Some d) (ds_unpack h s)"
  have "vm_data (ds_unpack h s) (d # vm_pieces ps) = (?s, vm_pieces ps)"
    using h size_field(1) [OF h(1) Cons.prems(2)] by (simp add: vm_data_def RECV_LIMIT_def)
  moreover have "vm_loop ?s (vm_pieces ps) = (map wire ps, Inr ())"
    using Cons size_field(3) [OF h(1) Cons.prems(2)] by (intro Cons.IH) (simp_all add: ds_set_data_def)
  moreover have "ds_repr ?s = Inr (h @ d)"
    using size_field(2) [OF h(1) Cons.prems(2)] by (simp add: ds_repr_def ds_set_data_def)
  moreover have "vm_pieces (p # ps) = h # d # vm_pieces ps" by (simp add: vm_pieces_def p)
  moreover have "h \<noteq> []" using h(1) by (auto simp: header_size_eq)
  ultimately show ?case using h p by (subst vm_loop.simps) (simp add: ds_set_data_def)
qed

definition meta_piece :: "string \<Rightarrow> bytes \<Rightarrow> bytes" where
  "meta_piece f sector_size = ascii f @ replicate (1024 - length f) 0 @ sector_size"

lemma strip_zeros: "0 \<notin> set bs \<Longrightarrow> strip_of (\<lambda>b. b = 0) (bs @ replicate n 0) = bs"
proof -
  assume bs: "0 \<notin> set bs"
  have "dropWhile (\<lambda>b. b = 0) (rev bs) = rev bs" using bs by (cases bs rule: rev_cases) auto
  then have r: "dropWhile (\<lambda>b. b = 0) (replicate n 0 @ rev bs) = rev bs" by (induction n) auto
  show ?thesis
  proof (cases bs)
    case Nil
    have "dropWhile (\<lambda>b. b = 0) (replicate n (0 :: 'a)) = []" by (induction n) auto
    then show ?thesis using Nil by (simp add: strip_of_def)
  next
    case (Cons b bs')
    then have "dropWhile (\<lambda>b. b = 0) (bs @ replicate n 0) = bs @ replicate n 0" using bs by simp
    then show ?thesis using r by (simp add: strip_of_def)
  qed
qed

lemma vm_run_packets:
  assumes "\<forall>p \<in> set ps. proper_packet p" "length f \<le> 1024" "0 \<notin> set (ascii f)" "length sector_size = 4"
  shows "vm_run (meta_piece f sector_size # vm_pieces ps) = Inr (Some (f, map wire ps, Inr ()))"
proof -
  let ?m = "meta_piece f sector_size"
  have len: "struct_size MetaHeader = 1028" "length ?m = 1028"
    using assms by (simp_all add: struct_size_def MetaHeader_def meta_piece_def)
  have "attr (ds_dict (ds_unpack ?m (ds_init MetaHeader None))) ''filename'' = VStr (take 1024 ?m)"
    using len by (simp add: ds_unpack_def ds_init_def ds_blank_def Let_def attr_def)
      (simp add: MetaHeader_def)
  moreover have "take 1024 ?m = ascii f @ replicate (1024 - length f) 0"
    using assms(2) by (simp add: meta_piece_def)
  moreover have "vm_loop (ds_init DiskSensorPacket None) (vm_pieces ps) = (map wire ps, Inr ())"
    using assms(1) by (rule vm_loop_packets) (simp add: ds_init_def ds_blank_def)
  moreover have "?m \<noteq> []" using len(2) by auto
  ultimately show ?thesis using len assms(3) by (simp add: vm_run_def strip_zeros)
qed

lemma forward_keeps [simp]: "disk_stream_dict (forward f p s) = disk_stream_dict s"
proof -
  have "disk_stream_dict (fold (\<lambda>q s. s\<lparr>queues := (queues s)(q := queues s q @ [p])\<rparr>) l s) = disk_stream_dict s" for l
    by (induction l arbitrary: s) auto
  then show ?thesis by (simp add: forward_def split: option.splits)
qed

lemma forward_queue:
  assumes "disk_stream_dict s f = Some l"
  shows "queues (forward f p s) q = queues s q @ replicate (count_list l q) p"
proof -
  have "queues (fold (\<lambda>q s. s\<lparr>queues := (queues s)(q := queues s q @ [p])\<rparr>) l s) q = queues s q @ replicate (count_list l q) p"
    by (induction l arbitrary: s) (auto simp: replicate_append_same)
  then show ?thesis using assms by (simp add: forward_def)
qed

lemma forward_all:
  assumes "disk_stream_dict s f = Some l" "count_list l q = 1"
  shows "queues (fold (forward f) ps s) q = queues s q @ ps"
  using assms by (induction ps arbitrary: s) (simp_all add: forward_queue)


definition sample_packet :: wire_packet where
  "sample_packet = ([100, 0, 0, 0, 0, 0, 0, 0, 1, 0, 0, 0, 0, 0, 0, 0, 3, 0, 0, 0], [7, 8, 9])"

definition sample_streams :: streams where
  "sample_streams = \<lparr>disk_stream_dict = [''vm1.qcow2'' \<mapsto> [4, 5]], queues = (\<lambda>q. []), regs = (\<lambda>q. Listening)\<rparr>"


text \<open>A header that arrives in two pieces: the sensor gives the connection up, with all that it still holds.\<close>

lemma torn_header_gives_up:
  assumes "c \<noteq> []" "length c < header_size"
  shows "virtual_disk_packet ((c # cs) # conns) = virtual_disk_packet conns"
  using assms by simp

text \<open>Data that reaches the server in pieces: the packet is handed on with the first piece, shorter than its header says.\<close>

lemma short_data_handed_on:
  assumes "length h = header_size" "le_val (drop 16 h) = n" "0 < length d" "length d < n" "n < 2 ^ 31" "ds_struct s = DiskSensorPacket"
  shows "\<exists>out r. vm_loop s (h # d # cs) = ((h @ d) # out, r)"
proof -
  let ?s = "ds_set_data (Some d) (ds_unpack h s)"
  have "vm_data (ds_unpack h s) (d # cs) = (?s, cs)"
    using assms size_field(1) [OF assms(1,6)] by (simp add: vm_data_def RECV_LIMIT_def)
  moreover have "ds_repr ?s = Inr (h @ d)"
    using size_field(2) [OF assms(1,6)] by (simp add: ds_repr_def ds_set_data_def)
  moreover have "h \<noteq> []" using assms(1) by (auto simp: header_size_eq)
  ultimately show ?thesis using assms by (subst vm_loop.simps) (auto simp: ds_set_data_def split: prod.splits)
qed

section \<open>Registration\<close>

definition register :: "string \<Rightarrow> nat \<Rightarrow> streams \<Rightarrow> streams" where
  "register f q s = reg_step f q (reg_step f q (reg_step f q (reg_step f q s)))"

lemma reg_step_at:
  "regs s q = Looking \<Longrightarrow> disk_stream_dict s f = None \<Longrightarrow> reg_step f q s = s\<lparr>regs := (regs s)(q := Missing)\<rparr>"
  "regs s q = Looking \<Longrightarrow> disk_stream_dict s f = Some l \<Longrightarrow> reg_step f q s = s\<lparr>regs := (regs s)(q := Present)\<rparr>"
  "regs s q = Missing \<Longrightarrow> reg_step f q s = s\<lparr>disk_stream_dict := (disk_stream_dict s)(f \<mapsto> []), regs := (regs s)(q := Present)\<rparr>"
  "regs s q = Present \<Longrightarrow> disk_stream_dict s f = Some l \<Longrightarrow> reg_step f q s = s\<lparr>regs := (regs s)(q := Copied l)\<rparr>"
  "regs s q = Copied l \<Longrightarrow> reg_step f q s = s\<lparr>disk_stream_dict := (disk_stream_dict s)(f \<mapsto> l @ [q]), regs := (regs s)(q := Listening)\<rparr>"
  "regs s q = Listening \<Longrightarrow> reg_step f q s = s"
  by (simp_all add: reg_step_def Let_def)

lemma register_alone:
  "regs s q = Looking \<Longrightarrow> disk_stream_dict s f = Some l \<Longrightarrow>
   register f q s = s\<lparr>disk_stream_dict := (disk_stream_dict s)(f \<mapsto> l @ [q]), regs := (regs s)(q := Listening)\<rparr>"
  by (simp add: register_def reg_step_at)

lemma register_first:
  "regs s q = Looking \<Longrightarrow> disk_stream_dict s f = None \<Longrightarrow>
   register f q s = s\<lparr>disk_stream_dict := (disk_stream_dict s)(f \<mapsto> [q]), regs := (regs s)(q := Listening)\<rparr>"
  by (simp add: register_def reg_step_at)

text \<open>
  Listeners that register one after the other are all served: whatever disks there were, each of them is in the list of its disk
  once, behind those that were there before.
\<close>

theorem listeners_registered:
  assumes "distinct qs" "\<forall>q \<in> set qs. regs s q = Looking"
  shows "disk_stream_dict (fold (register f) qs s) f =
           (if qs = [] then disk_stream_dict s f
            else Some ((case disk_stream_dict s f of None \<Rightarrow> [] | Some l \<Rightarrow> l) @ qs))"
  using assms
proof (induction qs arbitrary: s)
  case (Cons q qs)
  let ?s = "register f q s"
  have s: "disk_stream_dict ?s f = Some ((case disk_stream_dict s f of None \<Rightarrow> [] | Some l \<Rightarrow> l) @ [q])"
    "\<forall>q' \<in> set qs. regs ?s q' = Looking"
    using Cons.prems by (cases "disk_stream_dict s f"; auto simp: register_first register_alone)+
  then show ?case using Cons.IH [of ?s] Cons.prems(1) by simp
qed simp

theorem listeners_registered_witness:
  "disk_stream_dict (fold (register ''vm1.qcow2'') [7, 8] (sample_streams\<lparr>regs := (\<lambda>q. Looking)\<rparr>)) ''vm1.qcow2'' = Some [4, 5, 7, 8]"
  using listeners_registered [of "[7, 8]" "sample_streams\<lparr>regs := (\<lambda>q. Looking)\<rparr>" "''vm1.qcow2''"]
  by (simp add: sample_streams_def)

text \<open>
  Listeners that register at the same time: two listeners of a disk may take turns such that both wait for packets, but
  only one of them is in the list, and the other one never gets any.
\<close>

theorem listener_lost_in_race:
  "\<exists>schedule. let s = fold (reg_step f) schedule \<lparr>disk_stream_dict = Map.empty, queues = (\<lambda>q. []), regs = (\<lambda>q. Looking)\<rparr> in
     regs s 1 = Listening \<and> regs s 2 = Listening \<and>
     (\<forall>ps. queues (fold (forward f) ps s) 2 = ps \<and> queues (fold (forward f) ps s) 1 = [])"
proof -
  let ?s0 = "\<lparr>disk_stream_dict = Map.empty, queues = (\<lambda>q. []), regs = (\<lambda>q. Looking)\<rparr>"
  let ?s = "fold (reg_step f) [1, 2, 1, 2, 1, 2, 1, 2] ?s0"
  have s: "regs ?s 1 = Listening" "regs ?s 2 = Listening" "disk_stream_dict ?s f = Some [2]" "queues ?s q = []" for q
    by (simp_all add: reg_step_at)
  have none: "queues (fold (forward f) ps s') q = queues s' q" if "disk_stream_dict s' f = Some l" "count_list l q = 0" for ps s' l q
    using that by (induction ps arbitrary: s') (simp_all add: forward_queue)
  show ?thesis
  proof (intro exI [of _ "[1, 2, 1, 2, 1, 2, 1, 2]"], unfold Let_def, intro conjI allI)
    fix ps
    show "queues (fold (forward f) ps ?s) 2 = ps" using forward_all [OF s(3), of 2 ps] s(4) [of 2] by simp
    show "queues (fold (forward f) ps ?s) 1 = []" using none [OF s(3), of 1 ps] s(4) [of 1] by simp
  qed (rule s)+
qed

end
