(* ===== verification/VolatilityRender.thy ===== *)
theory VolatilityRender
  imports DiskEngine Keyboard "HOL-Library.AList"
begin

text \<open>
  The renderers of \<^verbatim>\<open>memory/volatility_extensions.py\<close>: what Volatility finds in the memory of a machine as rows, as nested
  dictionaries of windows, or as pictures.  The objects of Volatility are records of what the renderers read of them; an
  attribute whose text the code asks for may raise.  A dictionary is the list of its entries.
\<close>

section \<open>Processes\<close>

record task =
  obj_offset :: nat
  ImageFileName :: "string res"
  UniqueProcessId :: "string res"
  InheritedFromUniqueProcessId :: "string res"
  ActiveThreads :: "string res"
  HandleCount :: "string res"
  CreateTime :: "string res"

text \<open>\<^verbatim>\<open>hex(n)\<close>, where a number beyond the machine integers is printed as a long one.\<close>

definition py_hex :: "nat \<Rightarrow> string" where
  "py_hex n = ''0x'' @ hex_str n @ (if n < 2 ^ 63 then [] else ''L'')"

definition PSLIST_HEADER :: "string list" where
  "PSLIST_HEADER = [''Offset(V)'', ''Name'', ''Pid'', ''PPid'', ''Thds'', ''Hnds'', ''Time'']"

definition task_row :: "task \<Rightarrow> string list res" where
  "task_row t =
     mapE id [Inr (py_hex (obj_offset t)), ImageFileName t, UniqueProcessId t, InheritedFromUniqueProcessId t,
              ActiveThreads t, HandleCount t, CreateTime t]"

text \<open>A process with an attribute that has no text is left out.\<close>

fun render_pslist :: "task list \<Rightarrow> string list list" where
  "render_pslist [] = []"
| "render_pslist (t # ts) = (case task_row t of Inl e \<Rightarrow> render_pslist ts | Inr row \<Rightarrow> row # render_pslist ts)"

section \<open>System calls\<close>

text \<open>A module of the kernel; Volatility takes an object for true if its address is valid.\<close>

record kmodule =
  DllBase :: int
  SizeOfImage :: int
  BaseDllName :: string
  valid :: bool

definition find_module :: "(int \<rightharpoonup> kmodule) \<Rightarrow> int list \<Rightarrow> int \<Rightarrow> kmodule option res" where
  "find_module modlist mod_addrs addr =
     (let pos = int (bisect mod_addrs addr) - 1 in
      if pos = -1 then Inr None
      else case modlist (mod_addrs ! nat pos) of
        None \<Rightarrow> Inl KeyError
      | Some m \<Rightarrow> if addr \<ge> DllBase m \<and> addr < DllBase m + SizeOfImage m then Inr (Some m) else Inr None)"

text \<open>One table: its number, address and length, the address space it is read from, and the modules.\<close>

record ssdt =
  ssdt_idx :: nat
  ssdt_table :: nat
  ssdt_n :: nat
  is_valid_address :: "nat \<Rightarrow> bool"
  unsigned_long :: "nat \<Rightarrow> nat option"
  ssdt_mods :: "int \<rightharpoonup> kmodule"
  mod_addrs :: "int list"

definition SSDT_HEADER :: "string list" where
  "SSDT_HEADER = [''SSDT Index'', ''Table'', ''Entry Count'', ''Entry Index'', ''Address'', ''Name'', ''Owner Module'']"

definition hex6 :: "nat \<Rightarrow> string" where
  "hex6 n = replicate (6 - length (hex_str n)) CHR ''0'' @ hex_str n"

definition syscall_name :: "string list list \<Rightarrow> nat \<Rightarrow> nat \<Rightarrow> string" where
  "syscall_name syscalls idx i =
     (if idx < length syscalls \<and> i < length (syscalls ! idx) then syscalls ! idx ! i else ''Unknown'')"

definition ssdt_row :: "string list list \<Rightarrow> ssdt \<Rightarrow> nat \<Rightarrow> string list res" where
  "ssdt_row syscalls t i =
     (case unsigned_long t (ssdt_table t + i * 4) of
        None \<Rightarrow> Inl TypeError
      | Some syscall_addr \<Rightarrow>
          bindE (find_module (ssdt_mods t) (mod_addrs t) (int syscall_addr)) (\<lambda>syscall_mod.
            Inr [nat_str (ssdt_idx t), nat_str (ssdt_table t), nat_str (ssdt_n t),
                 hex6 (ssdt_idx t * 0x1000 + i), hex_str syscall_addr, syscall_name syscalls (ssdt_idx t) i,
                 (case syscall_mod of
                    None \<Rightarrow> ''UNKNOWN''
                  | Some m \<Rightarrow> if valid m then BaseDllName m else ''UNKNOWN'')]))"

text \<open>For a table that is not resident the code subscripts the type \<^verbatim>\<open>str\<close>, which raises.\<close>

definition render_ssdt :: "string list list \<Rightarrow> ssdt list \<Rightarrow> string list list res" where
  "render_ssdt syscalls tables =
     bindE (mapE (\<lambda>t. if is_valid_address t (ssdt_table t) then mapE (ssdt_row syscalls t) [0..<ssdt_n t]
                      else Inl TypeError) tables)
       (\<lambda>rows. Inr (concat rows))"

section \<open>Windows\<close>

record wnd =
  windowhandle :: int
  windowhandle_addr :: int
  w_name :: string
  classatom :: int
  superclassatom :: int
  pti :: int
  tid :: int
  tid_addr :: int
  ppi :: int
  w_process :: string
  pid :: int
  visible :: bool
  w_left :: int
  w_top :: int
  w_bottom :: int
  w_right :: int
  style_flags :: string
  exstyle_flags :: string
  windows_proc :: int

record window_dict = wnd +
  w_class :: "string option"
  w_superclass :: "string option"

text \<open>The atoms of a table by their number, as \<^verbatim>\<open>find_atom\<close> gives them; a table may belong to a window station.\<close>

type_synonym atom_table = "int \<rightharpoonup> string"

record desktop =
  dt_name :: string
  dt_windows :: "wnd list"

record winsta =
  dwSessionId :: int
  ws_name :: string
  desktops :: "desktop list"
  AtomTable :: atom_table

fun find_atom :: "atom_table list \<Rightarrow> int \<Rightarrow> string option" where
  "find_atom [] atom_id = None"
| "find_atom (table # ts) atom_id = (case table atom_id of None \<Rightarrow> find_atom ts atom_id | Some n \<Rightarrow> Some n)"

definition translate_atom :: "atom_table \<Rightarrow> winsta \<Rightarrow> (atom_table \<times> string option) list \<Rightarrow> int \<Rightarrow> string option" where
  "translate_atom DEFAULT_ATOMS ws atom_tables atom_id =
     (case DEFAULT_ATOMS atom_id of
        Some n \<Rightarrow> Some n
      | None \<Rightarrow> find_atom (map fst (filter (\<lambda>(table, window_station). window_station = None) atom_tables) @ [AtomTable ws]) atom_id)"

definition window_dict_of :: "atom_table \<Rightarrow> winsta \<Rightarrow> (atom_table \<times> string option) list \<Rightarrow> wnd \<Rightarrow> window_dict" where
  "window_dict_of DEFAULT_ATOMS ws atom_tables w =
     wnd.extend w (window_dict.fields (translate_atom DEFAULT_ATOMS ws atom_tables (classatom w))
                                      (translate_atom DEFAULT_ATOMS ws atom_tables (superclassatom w)))"

text \<open>An entry of a dictionary of dictionaries or of lists, empty when it was not there.\<close>

definition entry :: "('k \<times> 'v list) list \<Rightarrow> 'k \<Rightarrow> 'v list" where
  "entry d k = (case map_of d k of None \<Rightarrow> [] | Some v \<Rightarrow> v)"

definition modify :: "'k \<Rightarrow> ('v list \<Rightarrow> 'v list) \<Rightarrow> ('k \<times> 'v list) list \<Rightarrow> ('k \<times> 'v list) list" where
  "modify k f d = AList.update k (f (entry d k)) d"

type_synonym windows = "(int \<times> (string \<times> (string \<times> window_dict list) list) list) list"

definition add_desktop ::
  "atom_table \<Rightarrow> winsta \<Rightarrow> (atom_table \<times> string option) list \<Rightarrow> desktop \<Rightarrow> windows \<Rightarrow> windows" where
  "add_desktop DEFAULT_ATOMS ws atom_tables dt =
     modify (dwSessionId ws) (modify (ws_name ws) (modify (dt_name dt)
       (\<lambda>l. l @ map (window_dict_of DEFAULT_ATOMS ws atom_tables) (dt_windows dt))))"

definition render_windows :: "atom_table \<Rightarrow> (winsta \<times> (atom_table \<times> string option) list) list \<Rightarrow> windows" where
  "render_windows DEFAULT_ATOMS data =
     fold (\<lambda>(ws, atom_tables). fold (add_desktop DEFAULT_ATOMS ws atom_tables) (desktops ws)) data []"

section \<open>Screenshots\<close>

text \<open>Rectangles as left, top, right and bottom; a picture is its size and what was drawn on it.\<close>

type_synonym rect = "int \<times> int \<times> int \<times> int"

datatype drawing = Rectangle rect | Label int int string

record picture =
  pic_size :: "int \<times> int"
  drawings :: "drawing list"

record screen_window =
  rcWindow :: rect
  rcClient :: rect
  strName :: string

record screen =
  sc_session :: nat
  sc_name :: string
  PhysicalAddress :: nat
  spwnd :: "screen_window option"
  visible_windows :: "screen_window list"

record screen_station =
  st_name :: string
  screens :: "screen list"

fun split_crlf :: "string \<Rightarrow> string list" where
  "split_crlf [] = [[]]"
| "split_crlf [c] = [[c]]"
| "split_crlf (c # d # s) =
     (if c = CHR 0x0D \<and> d = CHR 0x0A then [] # split_crlf s
      else (case split_crlf (d # s) of [] \<Rightarrow> [[c]] | l # ls \<Rightarrow> (c # l) # ls))"

text \<open>Lines below each other; the height of a line is up to the imaging library.\<close>

fun draw_text :: "(string \<Rightarrow> int) \<Rightarrow> int \<Rightarrow> int \<Rightarrow> string list \<Rightarrow> drawing list" where
  "draw_text height x y [] = []"
| "draw_text height x y (line # ls) = Label x y line # draw_text height x (y + height line) ls"

definition draw_window :: "(string \<Rightarrow> int) \<Rightarrow> screen_window \<Rightarrow> drawing list" where
  "draw_window height w =
     Rectangle (rcWindow w) # Rectangle (rcClient w) #
     (case rcWindow w of (x, y, x2, y2) \<Rightarrow> draw_text height (x + 2) y (split_crlf (strName w)))"

definition draw_screen :: "(string \<Rightarrow> int) \<Rightarrow> screen \<Rightarrow> screen_window \<Rightarrow> picture" where
  "draw_screen height sc w =
     (case rcWindow w of (x, y, x2, y2) \<Rightarrow>
        \<lparr>pic_size = (x2 + 1, y2 + 1), drawings = concat (map (draw_window height) (visible_windows sc))\<rparr>)"

definition session_name :: "screen_station \<Rightarrow> screen \<Rightarrow> string" where
  "session_name st sc = ''session_'' @ nat_str (sc_session sc) @ ''.'' @ st_name st @ ''.'' @ sc_name sc"

text \<open>The desktops of one station: the first with a window that was not met before is drawn, and ends the loop.\<close>

fun shoot_station ::
  "(string \<Rightarrow> int) \<Rightarrow> screen_station \<Rightarrow> screen list \<Rightarrow> nat list \<Rightarrow> (string \<times> picture) list \<times> nat list" where
  "shoot_station height st [] seen = ([], seen)"
| "shoot_station height st (sc # scs) seen =
     (if PhysicalAddress sc \<in> set seen then shoot_station height st scs seen
      else case spwnd sc of
        None \<Rightarrow> shoot_station height st scs (seen @ [PhysicalAddress sc])
      | Some w \<Rightarrow> ([(session_name st sc, draw_screen height sc w)], seen @ [PhysicalAddress sc]))"

text \<open>The flag \<^verbatim>\<open>found\<close>, which would end the loop over the stations, is never set.\<close>

fun shoot :: "(string \<Rightarrow> int) \<Rightarrow> screen_station list \<Rightarrow> nat list \<Rightarrow> (string \<times> picture) list" where
  "shoot height [] seen = []"
| "shoot height (st # sts) seen =
     (case shoot_station height st (screens st) seen of (shots, seen1) \<Rightarrow> shots @ shoot height sts seen1)"

definition render_screenshot :: "bool \<Rightarrow> (string \<Rightarrow> int) \<Rightarrow> screen_station list \<Rightarrow> (string list \<times> picture list) option" where
  "render_screenshot pil_installed height data =
     (if \<not> pil_installed then None
      else (let shots = shoot height data [] in Some (map fst shots, map snd shots)))"

end
