(* ===== verification/VolatilityWrapper.thy ===== *)
theory VolatilityWrapper
  imports VolatilityRender PyState
begin

text \<open>
  The wrapper of \<^verbatim>\<open>memory/volatility_extensions.py\<close> around Volatility: \<^verbatim>\<open>execute_plugin\<close> runs a plugin over an address space
  and renders what it finds.  Volatility is the argument \<open>V\<close>: its calls are methods on a world that the wrapper
  does not look into, so that two runs of a plugin may find different things.
\<close>

section \<open>Volatility\<close>

text \<open>What \<^verbatim>\<open>calculate\<close> gives: data that one of our renderers takes, or data only the plugin itself can print.\<close>

datatype 'o vdata =
    Tasks "task list"
  | Tables "ssdt list"
  | Stations "(winsta \<times> (atom_table \<times> string option) list) list"
  | Screens "screen_station list"
  | OtherData 'o

text \<open>
  \<^verbatim>\<open>load_as\<close> makes the address space, and sees the value that the option \<^verbatim>\<open>LOPHI_CACHE\<close> of the configuration has then.
\<close>

record ('w, 'o) volatility =
  PLUGIN_COMMANDS :: "string list"
  new_command :: "string \<Rightarrow> ('w, unit) pymethod"
  load_as :: "bool \<Rightarrow> ('w, unit) pymethod"
  calculate :: "string \<Rightarrow> ('w, 'o vdata) pymethod"
  render_text :: "string \<Rightarrow> 'o vdata \<Rightarrow> ('w, string) pymethod"
  syscalls :: "string list list"
  DEFAULT_ATOMS :: atom_table
  pil_installed :: bool
  text_height :: "string \<Rightarrow> int"

section \<open>Output\<close>

datatype pdata = Rows "string list list" | Windows windows | Pictures "picture list"

record plugin_dict =
  HEADER :: "string list option"
  DATA :: pdata
  MODULE :: string
  URI :: string
  PROFILE :: string

datatype plugin_output = OFalse | OText string | ODict plugin_dict

text \<open>
  \<^verbatim>\<open>_render_data\<close>: header and data, or nothing for a module without a renderer.  Objects of another plugin do not have
  the attributes that a renderer reads.
\<close>

definition MODULE_MAP :: "string list" where
  "MODULE_MAP = [''pslist'', ''ssdt'', ''windows'', ''screenshot'']"

definition render_data :: "('w, 'o, 'z) volatility_scheme \<Rightarrow> string \<Rightarrow> 'o vdata \<Rightarrow> (string list option \<times> pdata) option res" where
  "render_data V plugin data =
     (if plugin = ''pslist'' then
        (case data of Tasks ts \<Rightarrow> Inr (Some (Some PSLIST_HEADER, Rows (render_pslist ts))) | _ \<Rightarrow> Inl AttributeError)
      else if plugin = ''ssdt'' then
        (case data of
           Tables ts \<Rightarrow> bindE (render_ssdt (syscalls V) ts) (\<lambda>rows. Inr (Some (Some SSDT_HEADER, Rows rows)))
         | _ \<Rightarrow> Inl AttributeError)
      else if plugin = ''windows'' then
        (case data of Stations sts \<Rightarrow> Inr (Some (None, Windows (render_windows (DEFAULT_ATOMS V) sts))) | _ \<Rightarrow> Inl AttributeError)
      else if plugin = ''screenshot'' then
        (case data of
           Screens sts \<Rightarrow>
             Inr (map_option (\<lambda>(h, p). (Some h, Pictures p)) (render_screenshot (pil_installed V) (text_height V) sts))
         | _ \<Rightarrow> if pil_installed V then Inl AttributeError else Inr None)
      else Inr None)"

section \<open>The wrapper\<close>

record 'w wrapper =
  uri :: string
  profile :: string
  command_objs :: "string list"
  addr_space :: bool
  LOPHI_CACHE :: bool
  vol_world :: 'w

definition wrapper_init :: "string \<Rightarrow> string \<Rightarrow> 'w \<Rightarrow> 'w wrapper" where
  "wrapper_init u p w =
     \<lparr>uri = u, profile = p, command_objs = [], addr_space = False, LOPHI_CACHE = False, vol_world = w\<rparr>"

definition onW :: "('w, 'a) pymethod \<Rightarrow> ('w wrapper, 'a) pymethod" where
  "onW m s = (case m (vol_world s) of (r, w) \<Rightarrow> (r, s\<lparr>vol_world := w\<rparr>))"

text \<open>The command object of a plugin and the address space are made once.\<close>

definition init_module :: "('w, 'o, 'z) volatility_scheme \<Rightarrow> string \<Rightarrow> ('w wrapper, unit) pymethod" where
  "init_module V plugin =
     bindS (getS command_objs) (\<lambda>cs.
       whenS (plugin \<notin> set cs)
         (thenS (onW (new_command V plugin)) (setS (\<lambda>s. s\<lparr>command_objs := command_objs s @ [plugin]\<rparr>))))"

definition init_addr_space :: "('w, 'o, 'z) volatility_scheme \<Rightarrow> ('w wrapper, unit) pymethod" where
  "init_addr_space V =
     bindS (getS (\<lambda>s. (addr_space s, LOPHI_CACHE s))) (\<lambda>(a, c).
       whenS (\<not> a) (thenS (onW (load_as V c)) (setS (\<lambda>s. s\<lparr>addr_space := True\<rparr>))))"

definition execute_plugin :: "('w, 'o, 'z) volatility_scheme \<Rightarrow> string \<Rightarrow> ('w wrapper, plugin_output) pymethod" where
  "execute_plugin V plugin =
     (if plugin \<notin> set (PLUGIN_COMMANDS V) then returnS OFalse
      else
        thenS (init_module V plugin)
        (thenS (init_addr_space V)
        (thenS (setS (\<lambda>s. s\<lparr>LOPHI_CACHE := True\<rparr>))
        (bindS (onW (calculate V plugin)) (\<lambda>data.
         thenS (setS (\<lambda>s. s\<lparr>LOPHI_CACHE := False\<rparr>))
        (bindS (liftS (render_data V plugin data)) (\<lambda>output.
           case output of
             Some (h, d) \<Rightarrow>
               bindS (getS (\<lambda>s. (uri s, profile s))) (\<lambda>(u, p).
                 returnS (ODict \<lparr>HEADER = h, DATA = d, MODULE = plugin, URI = u, PROFILE = p\<rparr>))
           | None \<Rightarrow> bindS (onW (render_text V plugin data)) (\<lambda>t. returnS (OText t)))))))))"

section \<open>The screenshot of a physical machine\<close>

text \<open>
  \<^verbatim>\<open>screenshot\<close> of \<^verbatim>\<open>machine/physical.py\<close>: the picture that is saved, the first one with the name of the default desktop.  An output
  that is no dictionary cannot be subscripted.
\<close>

definition contains :: "string \<Rightarrow> string \<Rightarrow> bool" where
  "contains part s = list_ex (\<lambda>i. take (length part) (drop i s) = part) [0..<Suc (length s)]"

fun default_desktop :: "string \<Rightarrow> string list \<Rightarrow> picture list \<Rightarrow> picture option res" where
  "default_desktop nm [] pics = Inr None"
| "default_desktop nm (session # ss) pics =
     (if session = nm then (case pics of [] \<Rightarrow> Inl IndexError | p # _ \<Rightarrow> Inr (Some p))
      else default_desktop nm ss (tl pics))"

definition machine_screenshot :: "('w, 'o, 'z) volatility_scheme \<Rightarrow> ('w wrapper, picture option) pymethod" where
  "machine_screenshot V =
     bindS (execute_plugin V ''screenshot'') (\<lambda>screenshots.
     bindS (getS profile) (\<lambda>vol_profile.
       case screenshots of
         ODict d \<Rightarrow>
           (case (HEADER d, DATA d) of
              (Some names, Pictures pics) \<Rightarrow>
                liftS (default_desktop (if contains ''Win7'' vol_profile then ''session_1.WinSta0.Default''
                                        else ''session_0.WinSta0.Default'') names pics)
            | _ \<Rightarrow> raiseS KeyError)
       | _ \<Rightarrow> raiseS TypeError))"

section \<open>Facts about the wrapper\<close>

lemma onW_at: "m (vol_world s) = (r, w) \<Longrightarrow> onW m s = (r, s\<lparr>vol_world := w\<rparr>)"
  by (simp add: onW_def)

lemma onW_fields [simp]:
  "command_objs (snd (onW m s)) = command_objs s" "addr_space (snd (onW m s)) = addr_space s"
  "LOPHI_CACHE (snd (onW m s)) = LOPHI_CACHE s" "uri (snd (onW m s)) = uri s" "profile (snd (onW m s)) = profile s"
  by (simp_all add: onW_def split: prod.split)

text \<open>Only a renderer gives a dictionary.\<close>

lemma render_data_map:
  "render_data V plugin data = Inr (Some x) \<Longrightarrow> plugin \<in> set MODULE_MAP"
  by (auto simp: render_data_def MODULE_MAP_def split: if_splits)

lemma render_data_None:
  "render_data V plugin data = Inr None \<Longrightarrow> plugin \<notin> set MODULE_MAP \<or> plugin = ''screenshot'' \<and> \<not> pil_installed V"
  by (cases data)
    (auto simp: render_data_def MODULE_MAP_def render_screenshot_def Let_def bindE_def split: if_splits sum.splits)

text \<open>The three kinds of output.\<close>

lemma execute_plugin_cases:
  assumes "execute_plugin V plugin s = (Inr out, s')"
  obtains (unknown) "plugin \<notin> set (PLUGIN_COMMANDS V)" "out = OFalse" "s' = s"
    | (rendered) data h d u p where "render_data V plugin data = Inr (Some (h, d))"
        "out = ODict \<lparr>HEADER = h, DATA = d, MODULE = plugin, URI = u, PROFILE = p\<rparr>"
    | (printed) data t where "render_data V plugin data = Inr None" "out = OText t"
proof (cases "plugin \<in> set (PLUGIN_COMMANDS V)")
  case False
  then show ?thesis using assms unknown by (simp add: execute_plugin_def)
next
  case True
  then obtain data r s1 s2 where "render_data V plugin data = Inr r"
    "(case r of
        Some (h, d) \<Rightarrow> bindS (getS (\<lambda>s. (uri s, profile s))) (\<lambda>(u, p).
          returnS (ODict \<lparr>HEADER = h, DATA = d, MODULE = plugin, URI = u, PROFILE = p\<rparr>))
      | None \<Rightarrow> bindS (onW (render_text V plugin data)) (\<lambda>t. returnS (OText t))) s1 = (Inr out, s2)"
    using assms by (auto simp: execute_plugin_def bindS_Inr_iff thenS_Inr_iff)
  then show ?thesis using rendered printed by (cases r) (auto simp: bindS_Inr_iff)
qed

lemma execute_plugin_dict:
  "execute_plugin V plugin s = (Inr (ODict d), s') \<Longrightarrow> plugin \<in> set MODULE_MAP \<and> MODULE d = plugin"
  by (erule execute_plugin_cases) (auto dest: render_data_map)

lemma execute_plugin_text:
  "execute_plugin V plugin s = (Inr (OText t), s') \<Longrightarrow> plugin \<notin> set MODULE_MAP \<or> plugin = ''screenshot'' \<and> \<not> pil_installed V"
  by (erule execute_plugin_cases) (auto dest: render_data_None)

text \<open>A plugin whose command and whose address space Volatility makes without an exception.\<close>

definition ready :: "('w, 'o, 'z) volatility_scheme \<Rightarrow> string \<Rightarrow> bool" where
  "ready V p \<longleftrightarrow>
     p \<in> set (PLUGIN_COMMANDS V) \<and> (\<forall>w. \<exists>w'. new_command V p w = (Inr (), w')) \<and> (\<forall>c w. \<exists>w'. load_as V c w = (Inr (), w'))"

lemma execute_ready:
  assumes "ready V p"
  shows "\<exists>w1. \<forall>data w2 h d. calculate V p w1 = (Inr data, w2) \<longrightarrow> render_data V p data = Inr (Some (h, d)) \<longrightarrow>
    (\<exists>s'. execute_plugin V p s = (Inr (ODict \<lparr>HEADER = h, DATA = d, MODULE = p, URI = uri s, PROFILE = profile s\<rparr>), s') \<and>
       uri s' = uri s \<and> profile s' = profile s \<and> \<not> LOPHI_CACHE s' \<and> addr_space s' \<and> vol_world s' = w2)"
proof -
  note r = assms [unfolded ready_def]
  have m: "\<exists>s'. init_module V p s = (Inr (), s') \<and> uri s' = uri s \<and> profile s' = profile s" for s
  proof -
    obtain w where "new_command V p (vol_world s) = (Inr (), w)" using r by blast
    then have "onW (new_command V p) s = (Inr (), s\<lparr>vol_world := w\<rparr>)" by (rule onW_at)
    then show ?thesis by (simp add: init_module_def thenS_Inr)
  qed
  have a: "\<exists>s'. init_addr_space V s = (Inr (), s') \<and> uri s' = uri s \<and> profile s' = profile s \<and> addr_space s'" for s
  proof -
    obtain w where "load_as V (LOPHI_CACHE s) (vol_world s) = (Inr (), w)" using r by blast
    then have "onW (load_as V (LOPHI_CACHE s)) s = (Inr (), s\<lparr>vol_world := w\<rparr>)" by (rule onW_at)
    then show ?thesis by (simp add: init_addr_space_def thenS_Inr)
  qed
  obtain s1 where s1: "init_module V p s = (Inr (), s1)" "uri s1 = uri s" "profile s1 = profile s" using m by blast
  obtain s2 where s2: "init_addr_space V s1 = (Inr (), s2)" "uri s2 = uri s1" "profile s2 = profile s1" "addr_space s2" using a by blast
  show ?thesis
  proof (intro exI [of _ "vol_world s2"] allI impI)
    fix data w2 h d
    assume c: "calculate V p (vol_world s2) = (Inr data, w2)" "render_data V p data = Inr (Some (h, d))"
    have "onW (calculate V p) (s2\<lparr>LOPHI_CACHE := True\<rparr>) = (Inr data, s2\<lparr>LOPHI_CACHE := True, vol_world := w2\<rparr>)"
      using c(1) by (simp add: onW_def)
    then show "\<exists>s'. execute_plugin V p s = (Inr (ODict \<lparr>HEADER = h, DATA = d, MODULE = p, URI = uri s, PROFILE = profile s\<rparr>), s') \<and>
       uri s' = uri s \<and> profile s' = profile s \<and> \<not> LOPHI_CACHE s' \<and> addr_space s' \<and> vol_world s' = w2"
      using r s1 s2 c(2) by (simp add: execute_plugin_def thenS_Inr bindS_Inr)
  qed
qed

end
