(* ===== verification/MemoryEngine.thy ===== *)
theory MemoryEngine
  imports VolatilityWrapper
begin

text \<open>
  The engine that polls the memory of a machine, \<^verbatim>\<open>VolatilityEngine\<close> of \<^verbatim>\<open>lophi_semanticgap/memory/__init__.py\<close>, and the class of the
  automation code that starts, pauses and stops it through a queue of commands (\<^verbatim>\<open>lophi_automation/analysis/__init__.py\<close>).
\<close>

section \<open>Commands\<close>

text \<open>What is reported of one run of a plugin.\<close>

record report = plugin_dict +
  SENSOR :: string
  MACHINE :: string

record 'w mem_engine =
  sensor_name :: string
  machine_name :: string
  volatility_profile :: string
  plugins :: "string list"
  PAUSED :: bool
  reported :: "report list"
  vol :: "'w wrapper"

definition CMD_PAUSE :: string where "CMD_PAUSE = ''pause''"
definition CMD_UNPAUSE :: string where "CMD_UNPAUSE = ''resume''"
definition CMD_STOP :: string where "CMD_STOP = ''stop''"
definition CMD_KILL :: string where "CMD_KILL = ''kill''"

text \<open>
  What is done with the command that the queue gave, if it gave one, and whether the loop ends.  All exceptions are dropped:
  a missing argument, a module that is not there, and the misspelt \<^verbatim>\<open>logger.deubg\<close>, which raises before the flag is reset.
\<close>

definition engine_command :: "string option \<Rightarrow> 'w mem_engine \<Rightarrow> bool \<times> 'w mem_engine" where
  "engine_command cmd s =
     (case cmd of
        None \<Rightarrow> (False, s)
      | Some c \<Rightarrow>
          let ws = split_on CHR '' '' c; key = hd ws in
          if key = ''addmodule'' then
            (False, case tl ws of [] \<Rightarrow> s | a # _ \<Rightarrow> s\<lparr>plugins := plugins s @ [a]\<rparr>)
          else if key = ''delmodule'' then
            (False, case tl ws of [] \<Rightarrow> s | a # _ \<Rightarrow> s\<lparr>plugins := remove1 a (plugins s)\<rparr>)
          else if key = CMD_PAUSE then (False, s\<lparr>PAUSED := True\<rparr>)
          else if key = CMD_UNPAUSE then (False, s)
          else if key = CMD_KILL \<or> key = CMD_STOP then (True, s)
          else (False, s))"

section \<open>Polling\<close>

definition onVol :: "('w wrapper, 'a) pymethod \<Rightarrow> ('w mem_engine, 'a) pymethod" where
  "onVol m s = (case m (vol s) of (r, v) \<Rightarrow> (r, s\<lparr>vol := v\<rparr>))"

definition report_of :: "'w mem_engine \<Rightarrow> string \<Rightarrow> plugin_dict \<Rightarrow> report" where
  "report_of s plugin d =
     \<lparr>HEADER = HEADER d, DATA = DATA d, MODULE = plugin, URI = URI d, PROFILE = volatility_profile s,
      SENSOR = sensor_name s, MACHINE = machine_name s\<rparr>"

text \<open>An entry can be assigned in a dictionary, but not in a text and not in \<^verbatim>\<open>False\<close>.\<close>

definition poll_one :: "('w, 'o, 'z) volatility_scheme \<Rightarrow> string \<Rightarrow> ('w mem_engine, unit) pymethod" where
  "poll_one V plugin =
     bindS (onVol (execute_plugin V plugin)) (\<lambda>output.
       case output of
         ODict d \<Rightarrow> setS (\<lambda>s. s\<lparr>reported := reported s @ [report_of s plugin d]\<rparr>)
       | _ \<Rightarrow> raiseS TypeError)"

definition poll_all :: "('w, 'o, 'z) volatility_scheme \<Rightarrow> ('w mem_engine, unit) pymethod" where
  "poll_all V = bindS (getS plugins) (forS (poll_one V))"

datatype engine_end = Polling | Ended | Raised py_error

text \<open>The loop of \<^verbatim>\<open>run\<close>, over what the queue gives at each turn; it is \<open>Polling\<close> if it goes on after them.\<close>

fun engine_loop :: "('w, 'o, 'z) volatility_scheme \<Rightarrow> string option list \<Rightarrow> 'w mem_engine \<Rightarrow> engine_end \<times> 'w mem_engine" where
  "engine_loop V [] s = (Polling, s)"
| "engine_loop V (cmd # cmds) s =
     (case engine_command cmd s of
        (True, s1) \<Rightarrow> (Ended, s1)
      | (False, s1) \<Rightarrow>
          if PAUSED s1 then engine_loop V cmds s1
          else (case poll_all V s1 of
                  (Inl e, s2) \<Rightarrow> (Raised e, s2)
                | (Inr _, s2) \<Rightarrow> engine_loop V cmds s2))"

definition mem_engine_run :: "('w, 'o, 'z) volatility_scheme \<Rightarrow> string option list \<Rightarrow> 'w mem_engine \<Rightarrow> engine_end \<times> 'w mem_engine" where
  "mem_engine_run V cmds s = (if plugins s = [] then (Ended, s) else engine_loop V cmds s)"

section \<open>The class that starts the engine\<close>

definition MODULES_DICTIONARY :: "(string \<times> string list) list" where
  "MODULES_DICTIONARY =
     [(''WinXPSP2x86'', [''pslist'', ''connections'', ''modules'', ''sockets'', ''getsids'']),
      (''WinXPSP3x86'', [''pslist'', ''connections'', ''modules'', ''sockets'', ''getsids'']),
      (''xpsp0amd64'', [''pslist'', ''modules'', ''getsids'']),
      (''Win7SP1x64'', [''pslist'', ''netscan'']),
      (''Win7SP1x86'', [''pslist'', ''netscan'']),
      (''Win7SP0x86'', [''pslist'', ''netscan'']),
      (''Win7SP0amd64'', [''pslist'', ''netscan'']),
      (''LinuxUbuntu_1104_x86'', [''linps'', ''linmodules'', ''linux_netstat'']),
      (''CentOS5'', [''linux_task_list_ps''])]"

text \<open>The plugins of an analysis; without any the constructor returns a value, which raises.\<close>

definition engine_plugins :: "string list option \<Rightarrow> string \<Rightarrow> string list res" where
  "engine_plugins chosen prof =
     (case chosen of
        Some ps \<Rightarrow> Inr ps
      | None \<Rightarrow> (case map_of MODULES_DICTIONARY prof of Some ps \<Rightarrow> Inr ps | None \<Rightarrow> Inl TypeError))"

text \<open>
  The engine and its queue, used by the class and polled by the process.  \<^verbatim>\<open>stop\<close> forgets the process after five seconds.
\<close>

record 'w mem_session =
  started :: bool
  command_queue :: "string list"
  engine_end :: engine_end
  eng :: "'w mem_engine"

definition put_command :: "string \<Rightarrow> 'w mem_session \<Rightarrow> 'w mem_session" where
  "put_command c s = (if started s then s\<lparr>command_queue := command_queue s @ [c]\<rparr> else s)"

datatype session_event = Pause | Resume | Stop | Turn

definition engine_turn :: "('w, 'o, 'z) volatility_scheme \<Rightarrow> 'w mem_session \<Rightarrow> 'w mem_session" where
  "engine_turn V s =
     (if engine_end s \<noteq> Polling then s
      else let cmd = (case command_queue s of [] \<Rightarrow> None | c # _ \<Rightarrow> Some c);
               (en, e) = engine_loop V [cmd] (eng s)
           in s\<lparr>command_queue := tl (command_queue s), engine_end := en, eng := e\<rparr>)"

fun session_step :: "('w, 'o, 'z) volatility_scheme \<Rightarrow> session_event \<Rightarrow> 'w mem_session \<Rightarrow> 'w mem_session" where
  "session_step V Pause s = put_command CMD_PAUSE s"
| "session_step V Resume s = put_command CMD_UNPAUSE s"
| "session_step V Stop s = (put_command CMD_STOP s)\<lparr>started := False\<rparr>"
| "session_step V Turn s = engine_turn V s"

section \<open>Properties\<close>

lemma engine_loop_append:
  "engine_loop V (cs @ ds) s =
     (case engine_loop V cs s of (Polling, s1) \<Rightarrow> engine_loop V ds s1 | r \<Rightarrow> r)"
  by (induction cs arbitrary: s) (auto split: prod.splits bool.splits sum.splits)

lemma forS_raises: "x \<in> set xs \<Longrightarrow> (\<And>s. \<exists>e s'. f x s = (Inl e, s')) \<Longrightarrow> \<exists>e s'. forS f xs s = (Inl e, s')"
proof (induction xs arbitrary: s)
  case (Cons y ys)
  show ?case
  proof (cases "f y s")
    case (Pair r s1)
    show ?thesis
    proof (cases r)
      case (Inr u)
      then have "y \<noteq> x" using Pair Cons.prems(2) [of s] by auto
      then show ?thesis using Cons Pair Inr by (simp add: thenS_Inr)
    qed (use Pair in \<open>simp add: thenS_Inl\<close>)
  qed
qed simp

lemma poll_one_raises:
  assumes "plugin \<notin> set MODULE_MAP"
  shows "\<exists>e s'. poll_one V plugin s = (Inl e, s')"
proof (cases "onVol (execute_plugin V plugin) s")
  case (Pair r s1)
  show ?thesis
  proof (cases r)
    case (Inr out)
    then have "execute_plugin V plugin (vol s) = (Inr out, vol s1)" using Pair by (auto simp: onVol_def split: prod.splits)
    then have "out \<noteq> ODict d" for d using assms execute_plugin_dict by blast
    then show ?thesis using Pair Inr by (cases out) (auto simp: poll_one_def bindS_Inr)
  qed (use Pair in \<open>simp add: poll_one_def bindS_Inl\<close>)
qed

lemma default_plugins_printed:
  assumes "map_of MODULES_DICTIONARY prof = Some ps"
  shows "\<exists>p \<in> set ps. p \<notin> set MODULE_MAP"
proof -
  have "list_all (\<lambda>(_, ps). list_ex (\<lambda>p. p \<notin> set MODULE_MAP) ps) MODULES_DICTIONARY" by code_simp
  then show ?thesis using map_of_SomeD [OF assms] by (auto simp: list_all_iff list_ex_iff)
qed

text \<open>
  No profile has default plugins with which the memory engine works: whatever Volatility finds, the first turn that is not
  paused ends the engine with an exception, because one of the plugins prints text and the engine adds entries to it.
\<close>

theorem default_plugins_end_engine:
  assumes "engine_plugins None prof = Inr ps" "plugins s = ps" "\<not> PAUSED s"
  shows "\<exists>e s'. mem_engine_run V (None # cmds) s = (Raised e, s')"
proof -
  have "map_of MODULES_DICTIONARY prof = Some ps" using assms(1) by (simp add: engine_plugins_def split: option.splits)
  then obtain p where p: "p \<in> set ps" "p \<notin> set MODULE_MAP" using default_plugins_printed by blast
  then obtain e s' where "poll_all V s = (Inl e, s')"
    using forS_raises [where f = "poll_one V", OF p(1) poll_one_raises [OF p(2)], of s] assms(2) by (auto simp: poll_all_def)
  then show ?thesis using assms p by (auto simp: mem_engine_run_def engine_command_def)
qed

text \<open>A paused engine whose queue has no command to stop.\<close>

definition asleep :: "'w mem_session \<Rightarrow> bool" where
  "asleep s \<longleftrightarrow> PAUSED (eng s) \<and> engine_end s = Polling \<and> set (command_queue s) \<subseteq> {CMD_PAUSE, CMD_UNPAUSE}"

lemma asleep_command:
  assumes "PAUSED s" "cmd \<in> {None, Some CMD_PAUSE, Some CMD_UNPAUSE}"
  shows "engine_loop V [cmd] s = (Polling, s)"
proof -
  have "s\<lparr>PAUSED := True\<rparr> = s" using assms(1) by simp
  then show ?thesis using assms
    by (auto simp: engine_command_def CMD_PAUSE_def CMD_UNPAUSE_def CMD_KILL_def CMD_STOP_def)
qed

lemma asleep_step:
  assumes "asleep s" "ev \<noteq> Stop"
  shows "asleep (session_step V ev s) \<and> eng (session_step V ev s) = eng s"
proof (cases ev)
  case Turn
  let ?cmd = "case command_queue s of [] \<Rightarrow> None | c # _ \<Rightarrow> Some c"
  have "?cmd \<in> {None, Some CMD_PAUSE, Some CMD_UNPAUSE}"
    using assms(1) by (auto simp: asleep_def split: list.splits)
  then have "engine_loop V [?cmd] (eng s) = (Polling, eng s)" using assms(1) by (intro asleep_command) (simp_all add: asleep_def)
  moreover have "set (tl (command_queue s)) \<subseteq> set (command_queue s)" by (cases "command_queue s") auto
  ultimately show ?thesis using assms(1) Turn by (auto simp: asleep_def engine_turn_def Let_def)
qed (use assms in \<open>auto simp: asleep_def put_command_def\<close>)

text \<open>
  A paused memory engine is never resumed: in any sequence of turns of the engine and of calls to pause and to resume it, it
  runs no plugin and reports nothing.
\<close>

theorem paused_engine_never_resumes:
  assumes "asleep s" "Stop \<notin> set evs"
  shows "reported (eng (fold (session_step V) evs s)) = reported (eng s) \<and> PAUSED (eng (fold (session_step V) evs s))"
proof -
  have "asleep (fold (session_step V) evs s) \<and> eng (fold (session_step V) evs s) = eng s"
    using assms
  proof (induction evs arbitrary: s)
    case (Cons ev evs)
    then show ?case using asleep_step [of s ev V] by auto
  qed simp
  then show ?thesis using assms(1) by (simp add: asleep_def)
qed

text \<open>Plugins that Volatility runs without an exception, with data for their renderer.\<close>

definition runs :: "('w, 'o, 'z) volatility_scheme \<Rightarrow> string \<Rightarrow> bool" where
  "runs V p \<longleftrightarrow> ready V p \<and> (\<forall>w. \<exists>data w' out. calculate V p w = (Inr data, w') \<and> render_data V p data = Inr (Some out))"

lemma runs_execute: "runs V p \<Longrightarrow> \<exists>d s'. execute_plugin V p s = (Inr (ODict d), s')"
  using execute_ready [of V p s] unfolding runs_def by (metis surj_pair)

lemma poll_ok:
  assumes "\<forall>p \<in> set ps. runs V p"
  shows "\<exists>s'. forS (poll_one V) ps s = (Inr (), s') \<and> plugins s' = plugins s \<and> PAUSED s' = PAUSED s \<and>
           map MODULE (reported s') = map MODULE (reported s) @ ps"
  using assms
proof (induction ps arbitrary: s)
  case (Cons p ps)
  obtain d v where "execute_plugin V p (vol s) = (Inr (ODict d), v)" using Cons.prems runs_execute [of V p "vol s"] by auto
  then have "poll_one V p s = (Inr (), s\<lparr>vol := v, reported := reported s @ [report_of s p d]\<rparr>)" (is "_ = (_, ?s)")
    by (simp add: poll_one_def onVol_def bindS_Inr report_of_def)
  moreover obtain s' where "forS (poll_one V) ps ?s = (Inr (), s')" "plugins s' = plugins s" "PAUSED s' = PAUSED s"
    "map MODULE (reported s') = map MODULE (reported s) @ p # ps"
    using Cons.IH [of ?s] Cons.prems by (auto simp: report_of_def)
  ultimately show ?case by (simp add: thenS_Inr)
qed simp


section \<open>Witnesses\<close>

text \<open>A Volatility that finds no processes and no windows; its world counts the calculations.\<close>

definition demo_volatility :: "(nat, unit) volatility" where
  "demo_volatility =
     \<lparr>PLUGIN_COMMANDS = [''pslist'', ''windows'', ''netscan''], new_command = (\<lambda>p. returnS ()), load_as = (\<lambda>c. returnS ()),
      calculate = (\<lambda>p w. (Inr (if p = ''pslist'' then Tasks [] else if p = ''windows'' then Stations [] else OtherData ()), Suc w)),
      render_text = (\<lambda>p d. returnS ''''), syscalls = [], DEFAULT_ATOMS = Map.empty, pil_installed = True, text_height = (\<lambda>l. 11)\<rparr>"

definition demo_engine :: "string list \<Rightarrow> nat mem_engine" where
  "demo_engine ps =
     \<lparr>sensor_name = ''memory'', machine_name = ''vm1'', volatility_profile = ''Win7SP1x64'', plugins = ps, PAUSED = False,
      reported = [], vol = wrapper_init ''vmi://vm1'' ''Win7SP1x64'' 0\<rparr>"

theorem default_plugins_end_engine_witness:
  "\<exists>e s'. mem_engine_run demo_volatility [None] (demo_engine [''pslist'', ''netscan'']) = (Raised e, s')"
  by (rule default_plugins_end_engine [of "''Win7SP1x64''"])
    (simp_all add: demo_engine_def engine_plugins_def MODULES_DICTIONARY_def)

theorem paused_engine_never_resumes_witness:
  "reported (eng (fold (session_step demo_volatility) [Turn, Resume, Turn, Turn]
     \<lparr>started = True, command_queue = [], engine_end = Polling, eng = (demo_engine [''pslist''])\<lparr>PAUSED := True\<rparr>\<rparr>)) = [] \<and>
   PAUSED (eng (fold (session_step demo_volatility) [Turn, Resume, Turn, Turn]
     \<lparr>started = True, command_queue = [], engine_end = Polling, eng = (demo_engine [''pslist''])\<lparr>PAUSED := True\<rparr>\<rparr>))"
  using paused_engine_never_resumes [of "\<lparr>started = True, command_queue = [], engine_end = Polling,
      eng = (demo_engine [''pslist''])\<lparr>PAUSED := True\<rparr>\<rparr>" "[Turn, Resume, Turn, Turn]" demo_volatility]
  by (simp add: asleep_def demo_engine_def)

lemma demo_plugin_runs: "runs demo_volatility ''pslist''" "runs demo_volatility ''windows''"
  by (simp_all add: runs_def ready_def demo_volatility_def render_data_def)


end
