(* ===== verification/ButtonClicker.thy ===== *)
theory ButtonClicker
  imports MemoryEngine ControlProperties "HOL-Library.Multiset"
begin

text \<open>
  \<^verbatim>\<open>ButtonClicker\<close> of \<^verbatim>\<open>memory/volatility_extensions.py\<close>: finds the buttons on the screen of a machine by looking into its memory, and
  clicks those that are wanted through the control sensor.
\<close>

section \<open>Buttons\<close>

record button =
  b_name :: string
  b_process :: string
  b_visible :: bool
  b_top :: int
  b_left :: int

definition bad_button_names :: "string list" where
  "bad_button_names = [''save'', ''reject'', ''print'', ''decline'', ''back'', ''cancel'', ''exit'', ''close'']"

definition is_bad_button :: "string \<Rightarrow> bool" where
  "is_bad_button nm = list_ex (\<lambda>b. contains (lower b) (lower nm)) bad_button_names"

definition is_button :: "window_dict \<Rightarrow> bool" where
  "is_button w \<longleftrightarrow> superclassatom w = 0xc017 \<or> classatom w = 0xc061 \<or> w_class w = Some ''Button'' \<or> w_superclass w = Some ''Button''"

definition button_of :: "window_dict \<Rightarrow> button" where
  "button_of w = \<lparr>b_name = w_name w, b_process = w_process w, b_visible = visible w, b_top = w_top w, b_left = w_left w\<rparr>"

definition all_windows :: "windows \<Rightarrow> window_dict list" where
  "all_windows d = concat (map (\<lambda>(session, ctxs). concat (map (\<lambda>(ctx, dts). concat (map snd dts)) ctxs)) d)"

section \<open>Clicking\<close>

text \<open>
  The state: the buttons of the last look, none of them before the first (the code has an empty dictionary there), the wrapper
  and the control sensor, whose \<^verbatim>\<open>mouse_click\<close> is the argument \<open>click\<close>.
\<close>

record ('w, 'c) clicker =
  buttons_prev :: "button list option"
  c_vol :: "'w wrapper"
  control_sensor :: 'c

definition clicker_init :: "'w wrapper \<Rightarrow> 'c \<Rightarrow> ('w, 'c) clicker" where
  "clicker_init v c = \<lparr>buttons_prev = None, c_vol = v, control_sensor = c\<rparr>"

definition get_buttons :: "('w, 'o, 'z) volatility_scheme \<Rightarrow> (('w, 'c) clicker, button list) pymethod" where
  "get_buttons V s =
     (case execute_plugin V ''windows'' (c_vol s) of
        (Inl e, v) \<Rightarrow> (Inl e, s\<lparr>c_vol := v\<rparr>)
      | (Inr out, v) \<Rightarrow>
          (case out of
             ODict d \<Rightarrow>
               (case DATA d of
                  Windows ws \<Rightarrow> (Inr (map button_of (filter is_button (all_windows ws))), s\<lparr>c_vol := v\<rparr>)
                | _ \<Rightarrow> (Inl TypeError, s\<lparr>c_vol := v\<rparr>))
           | _ \<Rightarrow> (Inl TypeError, s\<lparr>c_vol := v\<rparr>)))"

definition update_buttons :: "('w, 'o, 'z) volatility_scheme \<Rightarrow> (('w, 'c) clicker, unit) pymethod" where
  "update_buttons V = bindS (get_buttons V) (\<lambda>bs. setS (\<lambda>s. s\<lparr>buttons_prev := Some bs\<rparr>))"

text \<open>Whether a button is known: to look a dictionary up in a dictionary raises, since it has no hash value.\<close>

definition known :: "button \<Rightarrow> button list option \<Rightarrow> bool res" where
  "known b prev = (case prev of None \<Rightarrow> Inl TypeError | Some bs \<Rightarrow> Inr (b \<in> set bs))"

definition click_button ::
  "(int \<Rightarrow> int \<Rightarrow> ('c, unit) pymethod) \<Rightarrow> string option \<Rightarrow> bool \<Rightarrow> button \<Rightarrow> button list \<Rightarrow> (('w, 'c) clicker, button list) pymethod" where
  "click_button click process new_only b clicked =
     (if process \<noteq> None \<and> process \<noteq> Some (b_process b) then returnS clicked
      else bindS (bindS (getS buttons_prev) (\<lambda>prev. if new_only then liftS (known b prev) else returnS False)) (\<lambda>old.
        if old then returnS clicked
        else if is_bad_button (b_name b) then returnS clicked
        else thenS (\<lambda>s. case click (b_left b) (b_top b) (control_sensor s) of (r, c) \<Rightarrow> (r, s\<lparr>control_sensor := c\<rparr>))
               (returnS (clicked @ [b]))))"

definition click_buttons ::
  "('w, 'o, 'z) volatility_scheme \<Rightarrow> (int \<Rightarrow> int \<Rightarrow> ('c, unit) pymethod) \<Rightarrow> string option \<Rightarrow> bool \<Rightarrow> (('w, 'c) clicker, button list) pymethod" where
  "click_buttons V click process new_only =
     bindS (get_buttons V) (\<lambda>buttons.
     bindS (foldS (click_button click process new_only) buttons []) (\<lambda>clicked.
       thenS (setS (\<lambda>s. s\<lparr>buttons_prev := Some buttons\<rparr>)) (returnS clicked)))"

section \<open>What is clicked\<close>

definition wanted :: "string option \<Rightarrow> bool \<Rightarrow> button list \<Rightarrow> button \<Rightarrow> bool" where
  "wanted process new_only prev b \<longleftrightarrow>
     (process = None \<or> process = Some (b_process b)) \<and> (new_only \<longrightarrow> b \<notin> set prev) \<and> \<not> is_bad_button (b_name b)"

definition click_all :: "(int \<Rightarrow> int \<Rightarrow> ('c, unit) pymethod) \<Rightarrow> button list \<Rightarrow> 'c \<Rightarrow> 'c" where
  "click_all click bs c = fold (\<lambda>b c. snd (click (b_left b) (b_top b) c)) bs c"

lemma click_loop:
  assumes "\<And>x y c. fst (click x y c) = Inr ()" "new_only \<Longrightarrow> buttons_prev s = Some prev"
  shows "foldS (click_button click process new_only) bs clicked s =
     (Inr (clicked @ filter (wanted process new_only prev) bs),
      s\<lparr>control_sensor := click_all click (filter (wanted process new_only prev) bs) (control_sensor s)\<rparr>)"
  using assms(2)
proof (induction bs arbitrary: clicked s)
  case (Cons b bs)
  let ?s = "s\<lparr>control_sensor := snd (click (b_left b) (b_top b) (control_sensor s))\<rparr>"
  have step: "click_button click process new_only b clicked s =
      (if wanted process new_only prev b then (Inr (clicked @ [b]), ?s) else (Inr clicked, s))"
  proof (cases "click (b_left b) (b_top b) (control_sensor s)")
    case (Pair r c)
    then have "r = Inr ()" using assms(1) [of "b_left b" "b_top b" "control_sensor s"] by simp
    with Pair show ?thesis using Cons.prems
      by (auto simp: click_button_def wanted_def known_def bindS_def thenS_def)
  qed
  show ?case
  proof (cases "wanted process new_only prev b")
    case True
    then show ?thesis using step Cons.IH [of ?s "clicked @ [b]"] Cons.prems by (simp add: bindS_Inr click_all_def)
  next
    case False
    then show ?thesis using step Cons by (simp add: bindS_Inr)
  qed
qed (simp add: click_all_def)

lemma get_buttons_state: "get_buttons V s = (r, s') \<Longrightarrow> buttons_prev s' = buttons_prev s \<and> control_sensor s' = control_sensor s"
  by (auto simp: get_buttons_def split: prod.splits sum.splits plugin_output.splits pdata.splits)

text \<open>
  C31. Clicking the new buttons: behind a look at the screen, exactly the buttons of the next look are clicked that belong to the
  process, were not there before and have no word of the list in their name, each once, at its own corner and in the order of the
  windows; and looking again at an unchanged screen clicks nothing.
\<close>

theorem new_buttons_clicked:
  assumes click: "\<And>x y c. fst (click x y c) = Inr ()"
    and looks: "get_buttons V s = (Inr bs0, s0)" "update_buttons V s = (Inr (), s1)" "get_buttons V s1 = (Inr bs1, s2)"
  shows "\<exists>s3. click_buttons V click process True s1 = (Inr (filter (wanted process True bs0) bs1), s3) \<and>
           control_sensor s3 = click_all click (filter (wanted process True bs0) bs1) (control_sensor s) \<and>
           (\<forall>s4. get_buttons V s3 = (Inr bs1, s4) \<longrightarrow> fst (click_buttons V click process True s3) = Inr [])"
proof -
  let ?bs = "filter (wanted process True bs0) bs1"
  let ?s3 = "s2\<lparr>control_sensor := click_all click ?bs (control_sensor s2), buttons_prev := Some bs1\<rparr>"
  have "s1 = s0\<lparr>buttons_prev := Some bs0\<rparr>" using looks(1,2) by (simp add: update_buttons_def bindS_Inr)
  then have s2: "buttons_prev s2 = Some bs0" "control_sensor s2 = control_sensor s"
    using get_buttons_state [OF looks(1)] get_buttons_state [OF looks(3)] by simp_all
  then have "foldS (click_button click process True) bs1 [] s2 = (Inr ?bs, s2\<lparr>control_sensor := click_all click ?bs (control_sensor s2)\<rparr>)"
    using click_loop [of click True s2 bs0 process bs1 "[]"] click by simp
  then have "click_buttons V click process True s1 = (Inr ?bs, ?s3)"
    using looks(3) by (simp add: click_buttons_def bindS_Inr)
  moreover have "fst (click_buttons V click process True ?s3) = Inr []" if "get_buttons V ?s3 = (Inr bs1, s4)" for s4
  proof -
    have "filter (wanted process True bs1) bs1 = []" by (simp add: filter_empty_conv wanted_def)
    then have "foldS (click_button click process True) bs1 [] s4 = (Inr [], s4\<lparr>control_sensor := click_all click [] (control_sensor s4)\<rparr>)"
      using click_loop [of click True s4 bs1 process bs1 "[]"] click get_buttons_state [OF that] by simp
    then show ?thesis using that by (simp add: click_buttons_def bindS_Inr)
  qed
  ultimately show ?thesis using s2(2) by (intro exI [of _ ?s3]) simp
qed

text \<open>Without a look before, the first button of the process raises.\<close>

lemma click_before_look_raises:
  assumes "get_buttons V s = (Inr (b # bs), s1)" "buttons_prev s = None" "process = None \<or> process = Some (b_process b)"
  shows "fst (click_buttons V click process True s) = Inl TypeError"
proof -
  have "buttons_prev s1 = None" using get_buttons_state [OF assms(1)] assms(2) by simp
  then have "click_button click process True b [] s1 = (Inl TypeError, s1)"
    using assms(3) by (auto simp: click_button_def known_def bindS_def)
  then show ?thesis using assms(1) by (simp add: click_buttons_def bindS_Inr bindS_Inl)
qed

section \<open>From the memory to the buttons\<close>

lemma entry_modify: "entry (modify k f d) k' = (if k' = k then f (entry d k) else entry d k')"
  by (simp add: entry_def modify_def update_conv')

text \<open>
  The windows of a desktop are found under the names of its session, window station and desktop, with those of other
  desktops of the same names.
\<close>

definition same_desktop :: "int \<Rightarrow> string \<Rightarrow> string \<Rightarrow> winsta \<Rightarrow> desktop \<Rightarrow> bool" where
  "same_desktop n w d ws dt \<longleftrightarrow> dwSessionId ws = n \<and> ws_name ws = w \<and> dt_name dt = d"

lemma add_desktop_entry:
  "entry (entry (entry (add_desktop D ws at dt out) n) w) d =
     entry (entry (entry out n) w) d @ (if same_desktop n w d ws dt then map (window_dict_of D ws at) (dt_windows dt) else [])"
  by (auto simp: add_desktop_def entry_modify same_desktop_def)

lemma add_desktops_entry:
  "entry (entry (entry (fold (add_desktop D ws at) dts out) n) w) d =
     entry (entry (entry out n) w) d @ concat (map (\<lambda>dt. map (window_dict_of D ws at) (dt_windows dt)) (filter (same_desktop n w d ws) dts))"
  by (induction dts arbitrary: out) (auto simp: add_desktop_entry)

lemma render_windows_entry:
  "entry (entry (entry (render_windows D data) n) w) d =
     concat (map (\<lambda>(ws, at). concat (map (\<lambda>dt. map (window_dict_of D ws at) (dt_windows dt)) (filter (same_desktop n w d ws) (desktops ws)))) data)"
proof -
  have "entry (entry (entry (fold (\<lambda>(ws, at). fold (add_desktop D ws at) (desktops ws)) data out) n) w) d =
      entry (entry (entry out n) w) d @
      concat (map (\<lambda>(ws, at). concat (map (\<lambda>dt. map (window_dict_of D ws at) (dt_windows dt)) (filter (same_desktop n w d ws) (desktops ws)))) data)" for out
    by (induction data arbitrary: out) (auto simp: add_desktops_entry)
  then show ?thesis by (simp add: render_windows_def entry_def)
qed

text \<open>No window is lost or listed twice.\<close>

lemma sum_modify:
  fixes h :: "'v list \<Rightarrow> 'a multiset"
  assumes "\<And>l. h (f l) = h l + X" "h [] = {#}"
  shows "(\<Sum>p \<leftarrow> modify k f d. h (snd p)) = (\<Sum>p \<leftarrow> d. h (snd p)) + X"
proof (induction d)
  case Nil
  then show ?case using assms by (simp add: modify_def entry_def)
next
  case (Cons p d)
  then show ?case using assms by (cases p) (auto simp: modify_def entry_def)
qed

lemma mset_all_windows: "mset (all_windows d) = (\<Sum>p \<leftarrow> d. (\<Sum>q \<leftarrow> snd p. (\<Sum>r \<leftarrow> snd q. mset (snd r))))"
  by (simp add: all_windows_def mset_concat comp_def case_prod_beta)

lemma add_desktop_windows:
  "mset (all_windows (add_desktop D ws at dt out)) = mset (all_windows out) + mset (map (window_dict_of D ws at) (dt_windows dt))"
  unfolding mset_all_windows add_desktop_def
  by (intro sum_modify) (simp_all add: sum_modify)

lemma all_windows_rendered:
  "mset (all_windows (render_windows D data)) =
     mset (concat (map (\<lambda>(ws, at). concat (map (\<lambda>dt. map (window_dict_of D ws at) (dt_windows dt)) (desktops ws))) data))"
proof -
  have st: "mset (all_windows (fold (add_desktop D ws at) dts out)) =
      mset (all_windows out) + mset (concat (map (\<lambda>dt. map (window_dict_of D ws at) (dt_windows dt)) dts))" for ws at dts out
    by (induction dts arbitrary: out) (simp_all add: add_desktop_windows)
  have "mset (all_windows (fold (\<lambda>(ws, at). fold (add_desktop D ws at) (desktops ws)) data out)) = mset (all_windows out) +
      mset (concat (map (\<lambda>(ws, at). concat (map (\<lambda>dt. map (window_dict_of D ws at) (dt_windows dt)) (desktops ws))) data))" for out
    by (induction data arbitrary: out) (auto simp: st)
  then show ?thesis by (simp add: render_windows_def all_windows_def)
qed

text \<open>
  The buttons that are found are those of the machine: if Volatility finds these window stations, then each window of
  each of their desktops that is a button, by its atoms or by the name of its class, gives one button with its name, process and corner,
  and there are no others.
\<close>

theorem all_buttons_found:
  assumes "ready V ''windows''" "\<And>w. \<exists>w'. calculate V ''windows'' w = (Inr (Stations data), w')"
  shows "\<exists>bs s'. get_buttons V s = (Inr bs, s') \<and>
    mset bs = mset (map button_of (filter is_button
      (concat (map (\<lambda>(ws, at). concat (map (\<lambda>dt. map (window_dict_of (DEFAULT_ATOMS V) ws at) (dt_windows dt)) (desktops ws))) data))))"
proof -
  let ?ws = "render_windows (DEFAULT_ATOMS V) data"
  obtain w1 where w1: "\<And>d w2 h out. calculate V ''windows'' w1 = (Inr d, w2) \<Longrightarrow> render_data V ''windows'' d = Inr (Some (h, out)) \<Longrightarrow>
    \<exists>s'. execute_plugin V ''windows'' (c_vol s) =
      (Inr (ODict \<lparr>HEADER = h, DATA = out, MODULE = ''windows'', URI = uri (c_vol s), PROFILE = profile (c_vol s)\<rparr>), s')"
    using execute_ready [OF assms(1), of "c_vol s"] by blast
  obtain w2 where "calculate V ''windows'' w1 = (Inr (Stations data), w2)" using assms(2) by blast
  moreover have "render_data V ''windows'' (Stations data) = Inr (Some (None, Windows ?ws))" by (simp add: render_data_def)
  ultimately obtain v where "execute_plugin V ''windows'' (c_vol s) =
      (Inr (ODict \<lparr>HEADER = None, DATA = Windows ?ws, MODULE = ''windows'', URI = uri (c_vol s), PROFILE = profile (c_vol s)\<rparr>), v)"
    using w1 by blast
  then have "get_buttons V s = (Inr (map button_of (filter is_button (all_windows ?ws))), s\<lparr>c_vol := v\<rparr>)"
    by (simp add: get_buttons_def)
  then show ?thesis by (auto simp: mset_map mset_filter all_windows_rendered)
qed

section \<open>Witnesses\<close>

definition demo_wnd :: "string \<Rightarrow> int \<Rightarrow> int \<Rightarrow> wnd" where
  "demo_wnd nm x y =
     \<lparr>windowhandle = 1, windowhandle_addr = 2, w_name = nm, classatom = 0xc061, superclassatom = 0, pti = 3, tid = 4, tid_addr = 5,
      ppi = 6, w_process = ''setup.exe'', pid = 7, visible = True, w_left = x, w_top = y, w_bottom = y + 20, w_right = x + 60,
      style_flags = [], exstyle_flags = [], windows_proc = 8\<rparr>"

definition demo_stations :: "wnd list \<Rightarrow> (winsta \<times> (atom_table \<times> string option) list) list" where
  "demo_stations ws =
     [(\<lparr>dwSessionId = 0, ws_name = ''WinSta0'', desktops = [\<lparr>dt_name = ''Default'', dt_windows = ws\<rparr>], AtomTable = Map.empty\<rparr>, [])]"

text \<open>Two windows turn up between the first look and the second.\<close>

definition installer :: "(nat, unit) volatility" where
  "installer =
     \<lparr>PLUGIN_COMMANDS = [''windows''], new_command = (\<lambda>p. returnS ()), load_as = (\<lambda>c. returnS ()),
      calculate = (\<lambda>p w. (Inr (Stations (demo_stations
        (if w = 0 then [demo_wnd ''OK'' 10 20] else [demo_wnd ''OK'' 10 20, demo_wnd ''Next'' 30 40, demo_wnd ''Cancel'' 90 40]))), Suc w)),
      render_text = (\<lambda>p d. returnS ''''), syscalls = [], DEFAULT_ATOMS = Map.empty, pil_installed = True, text_height = (\<lambda>l. 11)\<rparr>"

definition log_click :: "int \<Rightarrow> int \<Rightarrow> ((int \<times> int) list, unit) pymethod" where
  "log_click x y = setS (\<lambda>c. c @ [(x, y)])"

definition demo_button :: "string \<Rightarrow> int \<Rightarrow> int \<Rightarrow> button" where
  "demo_button nm x y = \<lparr>b_name = nm, b_process = ''setup.exe'', b_visible = True, b_top = y, b_left = x\<rparr>"

lemma demo_wnd_button [simp]:
  "is_button (window_dict_of D ws at (demo_wnd nm x y))"
  "button_of (window_dict_of D ws at (demo_wnd nm x y)) = demo_button nm x y"
  by (simp_all add: is_button_def button_of_def window_dict_of_def demo_wnd_def demo_button_def wnd.extend_def)

lemma demo_stations_windows:
  "all_windows (render_windows D (demo_stations ws)) = map (window_dict_of D (fst (hd (demo_stations ws))) []) ws"
  by (simp add: render_windows_def demo_stations_def add_desktop_def modify_def entry_def all_windows_def)

lemma installer_execute:
  "\<exists>d v'. execute_plugin installer ''windows'' v = (Inr (ODict d), v') \<and> vol_world v' = Suc (vol_world v) \<and>
     DATA d = Windows (render_windows Map.empty (demo_stations
       (if vol_world v = 0 then [demo_wnd ''OK'' 10 20] else [demo_wnd ''OK'' 10 20, demo_wnd ''Next'' 30 40, demo_wnd ''Cancel'' 90 40])))"
  by (simp add: execute_plugin_def init_module_def init_addr_space_def installer_def onW_def thenS_def bindS_def render_data_def)

lemma installer_look:
  "\<exists>s'. get_buttons installer s =
     (Inr (if vol_world (c_vol s) = 0 then [demo_button ''OK'' 10 20]
           else [demo_button ''OK'' 10 20, demo_button ''Next'' 30 40, demo_button ''Cancel'' 90 40]), s') \<and>
     vol_world (c_vol s') = Suc (vol_world (c_vol s))"
proof -
  obtain d v' where "execute_plugin installer ''windows'' (c_vol s) = (Inr (ODict d), v')" "vol_world v' = Suc (vol_world (c_vol s))"
    "DATA d = Windows (render_windows Map.empty (demo_stations
       (if vol_world (c_vol s) = 0 then [demo_wnd ''OK'' 10 20] else [demo_wnd ''OK'' 10 20, demo_wnd ''Next'' 30 40, demo_wnd ''Cancel'' 90 40])))"
    using installer_execute [of "c_vol s"] by blast
  then show ?thesis by (simp add: get_buttons_def demo_stations_windows)
qed

theorem new_buttons_clicked_witness:
  "\<exists>s1 s3. update_buttons installer (clicker_init (wrapper_init [] [] 0) []) = (Inr (), s1) \<and>
    click_buttons installer log_click (Some ''setup.exe'') True s1 = (Inr [demo_button ''Next'' 30 40], s3) \<and>
    control_sensor s3 = [(30, 40)]"
proof -
  let ?s = "clicker_init (wrapper_init [] [] (0 :: nat)) ([] :: (int \<times> int) list)"
  have w: "filter (wanted (Some ''setup.exe'') True [demo_button ''OK'' 10 20])
      [demo_button ''OK'' 10 20, demo_button ''Next'' 30 40, demo_button ''Cancel'' 90 40] = [demo_button ''Next'' 30 40]"
    by code_simp
  obtain s0 where look: "get_buttons installer ?s = (Inr [demo_button ''OK'' 10 20], s0)" "vol_world (c_vol s0) = 1"
    using installer_look [of ?s] by (auto simp: clicker_init_def wrapper_init_def)
  let ?s1 = "s0\<lparr>buttons_prev := Some [demo_button ''OK'' 10 20]\<rparr>"
  have upd: "update_buttons installer ?s = (Inr (), ?s1)" using look(1) by (simp add: update_buttons_def bindS_Inr)
  obtain s2 where look1: "get_buttons installer ?s1 =
      (Inr [demo_button ''OK'' 10 20, demo_button ''Next'' 30 40, demo_button ''Cancel'' 90 40], s2)"
    using installer_look [of ?s1] look(2) by auto
  have click: "fst (log_click x y c) = Inr ()" for x y c by (simp add: log_click_def)
  have "\<exists>s3. click_buttons installer log_click (Some ''setup.exe'') True ?s1 = (Inr [demo_button ''Next'' 30 40], s3) \<and>
      control_sensor s3 = click_all log_click [demo_button ''Next'' 30 40] (control_sensor ?s)"
    using new_buttons_clicked [where click = log_click and process = "Some ''setup.exe''", OF click look(1) upd look1] unfolding w by blast
  moreover have "click_all log_click [demo_button ''Next'' 30 40] (control_sensor ?s) = [(30, 40)]"
    by (simp add: click_all_def log_click_def demo_button_def clicker_init_def)
  ultimately show ?thesis using upd by auto
qed

text \<open>A screen that does not change.\<close>

definition still :: "(unit, unit) volatility" where
  "still =
     \<lparr>PLUGIN_COMMANDS = [''windows''], new_command = (\<lambda>p. returnS ()), load_as = (\<lambda>c. returnS ()),
      calculate = (\<lambda>p. returnS (Stations (demo_stations [demo_wnd ''OK'' 10 20]))), render_text = (\<lambda>p d. returnS ''''),
      syscalls = [], DEFAULT_ATOMS = Map.empty, pil_installed = True, text_height = (\<lambda>l. 11)\<rparr>"

theorem all_buttons_found_witness:
  "\<exists>bs s'. get_buttons still (clicker_init (wrapper_init [] [] ()) ()) = (Inr bs, s') \<and> mset bs = {#demo_button ''OK'' 10 20#}"
proof -
  have st: "ready still ''windows''" "\<exists>w'. calculate still ''windows'' w = (Inr (Stations (demo_stations [demo_wnd ''OK'' 10 20])), w')" for w
    by (simp_all add: ready_def still_def)
  have "map button_of (filter is_button (concat (map (\<lambda>(ws, at). concat (map (\<lambda>dt. map (window_dict_of D ws at) (dt_windows dt))
      (desktops ws))) (demo_stations [demo_wnd ''OK'' 10 20])))) = [demo_button ''OK'' 10 20]" for D
    by (simp add: demo_stations_def)
  with all_buttons_found [OF st, of "clicker_init (wrapper_init [] [] ()) ()"] show ?thesis by simp
qed

end
