(* ===== verification/AddressSpace.thy ===== *)
theory AddressSpace
  imports MemoryPhysical MemoryVirtual PyText
begin

text \<open>
  The address space through which Volatility reads a machine, \<^verbatim>\<open>volatility/lophiaddressspace.py\<close>: it makes a memory sensor out of
  the location of the configuration, and hands reads on to it.
\<close>

section \<open>Sizes of memory\<close>

definition ends_with :: "string \<Rightarrow> string \<Rightarrow> bool" where
  "ends_with s suffix \<longleftrightarrow> length suffix \<le> length s \<and> drop (length s - length suffix) s = suffix"

text \<open>\<^verbatim>\<open>parse_byte_amount\<close>: a letter b at the end takes the character before it away too.\<close>

definition parse_byte_amount :: "string \<Rightarrow> int res" where
  "parse_byte_amount spec_string =
     (let normalized = strip (lower spec_string);
          multiplier = (if ends_with normalized ''kb'' \<or> ends_with normalized ''k'' then 1024
                        else if ends_with normalized ''mb'' \<or> ends_with normalized ''m'' then 1024 * 1024
                        else if ends_with normalized ''gb'' \<or> ends_with normalized ''g'' then 1024 * 1024 * 1024
                        else 1)
      in if normalized = [] then Inl IndexError
         else bindE (py_int (if last normalized = CHR ''b'' then take (length normalized - 2) normalized
                             else if \<not> is_digit (last normalized) then butlast normalized
                             else normalized))
                (\<lambda>n. Inr (n * multiplier)))"

section \<open>The address space\<close>

text \<open>
  \<^verbatim>\<open>get_vcpureg\<close> of the virtual sensor: the exit code of the monitor command and the text that it printed; the value is the first
  run of hexadecimal digits behind the name of the register.
\<close>

fun search_register :: "string \<Rightarrow> string \<Rightarrow> string option" where
  "search_register pat [] = None"
| "search_register pat (c # s) =
     (let digits = takeWhile (\<lambda>d. hex_val d \<noteq> None) (drop (length pat) (c # s)) in
      if starts_with pat (c # s) \<and> digits \<noteq> [] then Some digits else search_register pat s)"

definition get_vcpureg :: "string \<Rightarrow> int \<times> string res \<Rightarrow> nat res" where
  "get_vcpureg register regs =
     (if fst regs \<noteq> 0 then Inr 0
      else bindE (snd regs) (\<lambda>reg_data.
        case search_register (upper register @ ''='') reg_data of
          None \<Rightarrow> Inr 0
        | Some digits \<Rightarrow> Inr (foldl (\<lambda>v d. 16 * v + the (hex_val d)) 0 digits)))"

datatype location = PhysicalAt string | VirtualAt string

record 's address_space =
  as_location :: location
  as_dtb :: "nat option"
  as_size :: int
  as_address :: nat
  client :: "'s mem_sensor"

text \<open>
  The constructor: the kind of sensor and the time-out of its cache.  A string is no exception, so that raising one is a
  \<^verbatim>\<open>TypeError\<close>; without a size of memory the process exits.
\<close>

definition as_sensor :: "bool \<Rightarrow> string \<Rightarrow> (location \<times> int) res" where
  "as_sensor lophi_cache loc =
     (let cache_timeout = (if lophi_cache then 1 else 0) in
      if starts_with ''lophi://'' loc then Inr (PhysicalAt (drop 8 loc), cache_timeout)
      else if starts_with ''vmi://'' loc then Inr (VirtualAt (drop 6 loc), cache_timeout)
      else Inl TypeError)"

text \<open>The sensor that is made: what the two constructors have in common, with the ranges of each.\<close>

definition new_sensor :: "region list \<Rightarrow> int \<Rightarrow> 's \<Rightarrow> 's mem_sensor" where
  "new_sensor bad timeout d =
     \<lparr>BAD_MEM_REGIONS = bad, CACHE_TIMEOUT = timeout, cache = Map.empty, cache_timeouts = Map.empty, device = d\<rparr>"

definition get_cr3 :: "location \<Rightarrow> int \<times> string res \<Rightarrow> nat option res" where
  "get_cr3 l regs = (case l of VirtualAt _ \<Rightarrow> bindE (get_vcpureg ''cr3'' regs) (\<lambda>r. Inr (Some r)) | PhysicalAt _ \<Rightarrow> Inr None)"

definition as_init :: "bool \<Rightarrow> string \<Rightarrow> string option \<Rightarrow> int \<times> string res \<Rightarrow> 's \<Rightarrow> 's address_space res" where
  "as_init lophi_cache loc RAM_SIZE regs d =
     bindE (as_sensor lophi_cache loc) (\<lambda>(l, timeout).
     bindE (get_cr3 l regs) (\<lambda>dtb.
       case RAM_SIZE of
         None \<Rightarrow> Inl (PyException ''SystemExit'')
       | Some spec \<Rightarrow>
           bindE (parse_byte_amount spec) (\<lambda>n.
             Inr \<lparr>as_location = l, as_dtb = dtb, as_size = n, as_address = 0,
                  client = new_sensor (case l of PhysicalAt _ \<Rightarrow> physical_bad_regions | VirtualAt _ \<Rightarrow> virtual_bad_regions) timeout d\<rparr>)))"

definition as_read :: "'s sensor_read \<Rightarrow> int \<Rightarrow> nat \<Rightarrow> nat \<Rightarrow> 's address_space \<Rightarrow> ('s address_space \<times> bytes option) res" where
  "as_read rfs now addr len s = bindE (read rfs now addr len (client s)) (\<lambda>(c, r). Inr (s\<lparr>client := c\<rparr>, r))"

definition fread :: "'s sensor_read \<Rightarrow> int \<Rightarrow> nat \<Rightarrow> 's address_space \<Rightarrow> ('s address_space \<times> bytes option) res" where
  "fread rfs now len s =
     bindE (as_read rfs now (as_address s) len s) (\<lambda>(s1, r). Inr (s1\<lparr>as_address := as_address s1 + len\<rparr>, r))"

definition read_long :: "'s sensor_read \<Rightarrow> int \<Rightarrow> nat \<Rightarrow> 's address_space \<Rightarrow> ('s address_space \<times> nat) res" where
  "read_long rfs now addr s =
     bindE (as_read rfs now addr 4 s) (\<lambda>(s1, r).
       case r of
         None \<Rightarrow> Inl TypeError
       | Some bs \<Rightarrow> if length bs = 4 then Inr (s1, le_val bs) else Inl StructError)"

text \<open>There is no attribute \<^verbatim>\<open>vmi\<close> to write with.\<close>

definition as_write :: "nat \<Rightarrow> bytes \<Rightarrow> 's address_space \<Rightarrow> bool res" where
  "as_write addr data s = Inl AttributeError"

definition as_valid_address :: "int option \<Rightarrow> 's address_space \<Rightarrow> bool" where
  "as_valid_address addr s = (case addr of None \<Rightarrow> False | Some a \<Rightarrow> a < as_size s)"

definition get_available_addresses :: "'s address_space \<Rightarrow> (int \<times> int) list" where
  "get_available_addresses s = [(0, as_size s - 1)]"

definition intervals :: "int \<Rightarrow> int \<Rightarrow> (int \<times> int) list" where
  "intervals a b = [(a, b)]"

section \<open>Properties\<close>

lemma lower_digits: "isdigit s \<Longrightarrow> lower s = s"
  by (induction s) (auto simp: isdigit_def lower_def lower_char_def is_digit_def)

lemma strip_no_space:
  assumes "\<forall>c \<in> set s. \<not> is_space c"
  shows "strip s = s"
proof -
  have "dropWhile is_space s = s" "dropWhile is_space (rev s) = rev s"
    using assms by (cases s; simp) (cases s rule: rev_cases; simp add: assms)
  then show ?thesis by (simp add: strip_def)
qed

lemma ends_with_rev: "ends_with s t \<longleftrightarrow> take (length t) (rev s) = rev t"
  unfolding ends_with_def by (metis append_take_drop_id length_append length_drop length_rev length_take min_def nat_le_linear
      rev_rev_ident rev_take rev_drop diff_diff_cancel drop_all order_refl take_all_iff)

text \<open>The units that are understood.\<close>

definition UNITS :: "(string \<times> int) list" where
  "UNITS = [([], 1), (''k'', 1024), (''kb'', 1024), (''K'', 1024), (''KB'', 1024), (''M'', 1048576), (''MB'', 1048576),
     (''m'', 1048576), (''mb'', 1048576), (''G'', 1073741824), (''GB'', 1073741824), (''g'', 1073741824), (''gb'', 1073741824)]"

text \<open>
  A number with one of the units is its number of bytes; but of a number with the letter b alone the last digit is lost.
\<close>

lemma nat_str_last: "\<exists>cs c. nat_str n = cs @ [c] \<and> is_digit c"
proof -
  have "nat_str n \<noteq> []" "\<forall>c \<in> set (nat_str n). is_digit c" using isdigit_nat_str [of n] by (auto simp: isdigit_def list_all_iff)
  then show ?thesis by (metis append_butlast_last_id last_in_set)
qed

lemma parse_suffix:
  assumes "\<forall>c \<in> set (lower u). \<not> is_space c"
  shows "strip (lower (nat_str n @ u)) = nat_str n @ lower u"
proof -
  have "lower (nat_str n @ u) = nat_str n @ lower u"
    using lower_digits [OF isdigit_nat_str [of n]] by (simp add: lower_def)
  moreover have "\<forall>c \<in> set (nat_str n). \<not> is_space c" using isdigit_nat_str [of n] by (auto simp: isdigit_def list_all_iff digit_not_space)
  ultimately show ?thesis using assms strip_no_space [of "nat_str n @ lower u"] by auto
qed

lemma parse_tail:
  "strip (lower spec) = r @ [CHR ''k''] \<Longrightarrow> parse_byte_amount spec = bindE (py_int r) (\<lambda>n. Inr (n * 1024))"
  "strip (lower spec) = r @ [CHR ''m''] \<Longrightarrow> parse_byte_amount spec = bindE (py_int r) (\<lambda>n. Inr (n * 1048576))"
  "strip (lower spec) = r @ [CHR ''g''] \<Longrightarrow> parse_byte_amount spec = bindE (py_int r) (\<lambda>n. Inr (n * 1073741824))"
  "strip (lower spec) = r @ [CHR ''k'', CHR ''b''] \<Longrightarrow> parse_byte_amount spec = bindE (py_int r) (\<lambda>n. Inr (n * 1024))"
  "strip (lower spec) = r @ [CHR ''m'', CHR ''b''] \<Longrightarrow> parse_byte_amount spec = bindE (py_int r) (\<lambda>n. Inr (n * 1048576))"
  "strip (lower spec) = r @ [CHR ''g'', CHR ''b''] \<Longrightarrow> parse_byte_amount spec = bindE (py_int r) (\<lambda>n. Inr (n * 1073741824))"
  "strip (lower spec) = r @ [c] \<Longrightarrow> is_digit c \<Longrightarrow> parse_byte_amount spec = py_int (r @ [c])"
proof -
  have last: "\<not> is_digit CHR ''k''" "\<not> is_digit CHR ''m''" "\<not> is_digit CHR ''g''" by code_simp+
  show "strip (lower spec) = r @ [CHR ''k''] \<Longrightarrow> parse_byte_amount spec = bindE (py_int r) (\<lambda>n. Inr (n * 1024))"
    "strip (lower spec) = r @ [CHR ''m''] \<Longrightarrow> parse_byte_amount spec = bindE (py_int r) (\<lambda>n. Inr (n * 1048576))"
    "strip (lower spec) = r @ [CHR ''g''] \<Longrightarrow> parse_byte_amount spec = bindE (py_int r) (\<lambda>n. Inr (n * 1073741824))"
    "strip (lower spec) = r @ [CHR ''k'', CHR ''b''] \<Longrightarrow> parse_byte_amount spec = bindE (py_int r) (\<lambda>n. Inr (n * 1024))"
    "strip (lower spec) = r @ [CHR ''m'', CHR ''b''] \<Longrightarrow> parse_byte_amount spec = bindE (py_int r) (\<lambda>n. Inr (n * 1048576))"
    "strip (lower spec) = r @ [CHR ''g'', CHR ''b''] \<Longrightarrow> parse_byte_amount spec = bindE (py_int r) (\<lambda>n. Inr (n * 1073741824))"
    by (simp_all add: parse_byte_amount_def Let_def ends_with_rev last)
  assume c: "strip (lower spec) = r @ [c]" "is_digit c"
  have "c \<noteq> CHR ''k''" "c \<noteq> CHR ''m''" "c \<noteq> CHR ''g''" "c \<noteq> CHR ''b''" using c(2) by (auto simp: is_digit_def)
  then show "parse_byte_amount spec = py_int (r @ [c])"
    using c by (cases "py_int (r @ [c])") (simp_all add: parse_byte_amount_def Let_def ends_with_rev)
qed

lemma parse_units:
  shows "lower u = [] \<Longrightarrow> parse_byte_amount (nat_str n @ u) = Inr (int n)"
    and "lower u \<in> {''k'', ''kb''} \<Longrightarrow> parse_byte_amount (nat_str n @ u) = Inr (int n * 1024)"
    and "lower u \<in> {''m'', ''mb''} \<Longrightarrow> parse_byte_amount (nat_str n @ u) = Inr (int n * 1048576)"
    and "lower u \<in> {''g'', ''gb''} \<Longrightarrow> parse_byte_amount (nat_str n @ u) = Inr (int n * 1073741824)"
proof -
  have sp: "\<not> is_space CHR ''k''" "\<not> is_space CHR ''m''" "\<not> is_space CHR ''g''" "\<not> is_space CHR ''b''" by code_simp+
  obtain cs c where c: "nat_str n = cs @ [c]" "is_digit c" using nat_str_last by blast
  note i = py_int_nat_str [of n] and e = parse_suffix [of u n]
  show "parse_byte_amount (nat_str n @ u) = Inr (int n)" if "lower u = []"
    using parse_tail(7) [of "nat_str n @ u" cs c] e i that c by simp
  show "parse_byte_amount (nat_str n @ u) = Inr (int n * 1024)" if "lower u \<in> {''k'', ''kb''}"
    using parse_tail(1,4) [of "nat_str n @ u" "nat_str n"] e i that by (elim insertE) (simp_all add: sp)
  show "parse_byte_amount (nat_str n @ u) = Inr (int n * 1048576)" if "lower u \<in> {''m'', ''mb''}"
    using parse_tail(2,5) [of "nat_str n @ u" "nat_str n"] e i that by (elim insertE) (simp_all add: sp)
  show "parse_byte_amount (nat_str n @ u) = Inr (int n * 1073741824)" if "lower u \<in> {''g'', ''gb''}"
    using parse_tail(3,6) [of "nat_str n @ u" "nat_str n"] e i that by (elim insertE) (simp_all add: sp)
qed

definition plain_units :: "(string \<times> int) list" where
  "plain_units = [([], 1), (''k'', 1024), (''kb'', 1024), (''m'', 1048576), (''mb'', 1048576), (''g'', 1073741824), (''gb'', 1073741824)]"

lemma byte_amount_units:
  assumes "(u, m) \<in> set UNITS"
  shows "parse_byte_amount (nat_str n @ u) = Inr (int n * m)"
proof -
  have "list_all (\<lambda>(u, m). (lower u, m) \<in> set plain_units) UNITS" by code_simp
  then have "(lower u, m) \<in> set plain_units" using assms unfolding list_all_iff by blast
  then consider "lower u = []" "m = 1" | "lower u \<in> {''k'', ''kb''}" "m = 1024" | "lower u \<in> {''m'', ''mb''}" "m = 1048576"
    | "lower u \<in> {''g'', ''gb''}" "m = 1073741824"
    unfolding plain_units_def by (simp only: set_simps insert_iff prod.inject empty_iff) blast
  then show ?thesis by cases (simp_all only: parse_units [of u n] mult_1_right)
qed

lemma byte_amount_b:
  assumes "10 \<le> n"
  shows "parse_byte_amount (nat_str n @ ''b'') = Inr (int (n div 10))"
proof -
  have l: "lower ''b'' = ''b''" by (simp add: lower_def lower_char_def)
  have e: "strip (lower (nat_str n @ ''b'')) = nat_str n @ ''b''"
    using parse_suffix [of "''b''" n] unfolding l by (simp add: is_space_def)
  have n: "nat_str n = nat_str (n div 10) @ [digit_char (n mod 10)]" using assms by (subst nat_str.simps) simp
  obtain cs c where c: "nat_str n = cs @ [c]" "is_digit c" using nat_str_last by blast
  then have ne: "c \<noteq> CHR ''k''" "c \<noteq> CHR ''m''" "c \<noteq> CHR ''g''" by (auto simp: is_digit_def)
  have "cs = nat_str (n div 10)" using c(1) n by simp
  then show ?thesis using e py_int_nat_str [of "n div 10"] by (simp add: parse_byte_amount_def Let_def ends_with_rev c(1) ne)
qed

section \<open>Reading on\<close>

fun freads :: "'s sensor_read \<Rightarrow> int \<Rightarrow> nat list \<Rightarrow> 's address_space \<Rightarrow> ('s address_space \<times> bytes option list) res" where
  "freads rfs now [] s = Inr (s, [])"
| "freads rfs now (n # ns) s =
     bindE (fread rfs now n s) (\<lambda>(s1, r). bindE (freads rfs now ns s1) (\<lambda>(s2, rs). Inr (s2, r # rs)))"

context memory_device
begin

lemma freads_ok:
  assumes "sensor_ok ok mem (client s)" "separated (BAD_MEM_REGIONS (client s))" "\<forall>n \<in> set ns. 0 < n"
    and "as_address s + sum_list ns + CACHE_CHUNK \<le> top"
  shows "\<exists>s' ds. freads rfs now ns s = Inr (s', map Some ds) \<and> map length ds = ns \<and>
    concat ds = map (masked (BAD_MEM_REGIONS (client s)) mem) [as_address s..<as_address s + sum_list ns]"
  using assms
proof (induction ns arbitrary: s)
  case (Cons n ns)
  let ?a = "as_address s" and ?m = "masked (BAD_MEM_REGIONS (client s)) mem"
  obtain c where c: "read rfs now ?a n (client s) = Inr (c, Some (map ?m [?a..<?a + n]))" "sensor_ok ok mem c"
    "BAD_MEM_REGIONS c = BAD_MEM_REGIONS (client s)"
    using read_ok [of "client s" n ?a now] Cons.prems by auto
  let ?s = "s\<lparr>client := c, as_address := ?a + n\<rparr>"
  have f: "fread rfs now n s = Inr (?s, Some (map ?m [?a..<?a + n]))" using c(1) by (simp add: fread_def as_read_def)
  have "\<exists>s' ds. freads rfs now ns ?s = Inr (s', map Some ds) \<and> map length ds = ns \<and>
      concat ds = map (masked (BAD_MEM_REGIONS (client ?s)) mem) [as_address ?s..<as_address ?s + sum_list ns]"
    using Cons.prems c by (intro Cons.IH) auto
  then obtain s' ds where ds: "freads rfs now ns ?s = Inr (s', map Some ds)" "map length ds = ns"
    "concat ds = map ?m [?a + n..<?a + n + sum_list ns]"
    using c(3) by auto
  have "[?a..<?a + n] @ [?a + n..<?a + n + sum_list ns] = [?a..<?a + (n + sum_list ns)]"
    by (metis add.assoc le_add1 upt_add_eq_append)
  then have "concat (map ?m [?a..<?a + n] # ds) = map ?m [?a..<?a + sum_list (n # ns)]"
    using ds(3) by (simp flip: map_append)
  then show ?case using f ds by (intro exI [of _ s'] exI [of _ "map ?m [?a..<?a + n] # ds"]) simp
qed simp

end



end
