(* ===== verification/VolatilityProperties.thy ===== *)
theory VolatilityProperties
  imports VolatilityWrapper AddressSpace
begin

text \<open>
  Properties of the wrapper around Volatility: the search for the module of a system call, the option for the cache of the memory
  sensor, and the screenshots.
\<close>

section \<open>The module of a system call\<close>

definition inside :: "int \<Rightarrow> kmodule \<Rightarrow> bool" where
  "inside addr m \<longleftrightarrow> DllBase m \<le> addr \<and> addr < DllBase m + SizeOfImage m"

text \<open>Modules by their addresses, none of which reaches into the next.\<close>

fun apart :: "kmodule list \<Rightarrow> bool" where
  "apart [] \<longleftrightarrow> True"
| "apart (m # ms) \<longleftrightarrow> (\<forall>m' \<in> set ms. DllBase m < DllBase m' \<and> DllBase m + SizeOfImage m \<le> DllBase m') \<and> apart ms"

lemma apart_sorted: "apart ms \<Longrightarrow> sorted (map DllBase ms) \<and> distinct (map DllBase ms)"
  by (induction ms) (auto simp: less_imp_le)

lemma apart_nth:
  "apart ms \<Longrightarrow> i < j \<Longrightarrow> j < length ms \<Longrightarrow> DllBase (ms ! i) < DllBase (ms ! j) \<and> DllBase (ms ! i) + SizeOfImage (ms ! i) \<le> DllBase (ms ! j)"
proof (induction ms arbitrary: i j)
  case (Cons m ms)
  then show ?case by (cases i; cases j) auto
qed simp

lemma find_nth:
  assumes "i < length ms" "P (ms ! i)" "\<And>j. j < length ms \<Longrightarrow> P (ms ! j) \<Longrightarrow> j = i"
  shows "List.find P ms = Some (ms ! i)"
proof -
  have "\<not> P (ms ! j)" if "j < i" for j using assms(3) [of j] assms(1) that by auto
  then show ?thesis using assms(1,2) unfolding find_Some_iff by blast
qed

lemma find_no_nth: "(\<And>i. i < length ms \<Longrightarrow> \<not> P (ms ! i)) \<Longrightarrow> List.find P ms = None"
  unfolding find_None_iff in_set_conv_nth by blast

text \<open>
  C32. The binary search for the module of an address finds what a search through all modules finds, for modules that are sorted
  and do not overlap.
\<close>

theorem find_module_is_search:
  assumes "apart ms"
  shows "find_module (map_of (map (\<lambda>m. (DllBase m, m)) ms)) (map DllBase ms) addr = Inr (List.find (inside addr) ms)"
proof -
  let ?a = "map DllBase ms" and ?k = "bisect (map DllBase ms) addr"
  have b: "?k \<le> length ms" "\<And>i. i < length ms \<Longrightarrow> i < ?k \<longleftrightarrow> DllBase (ms ! i) \<le> addr"
    using bisect_spec [of ?a addr] apart_sorted [OF assms] by auto
  show ?thesis
  proof (cases ?k)
    case 0
    then have "\<not> inside addr (ms ! i)" if "i < length ms" for i using b(2) [OF that] by (simp add: inside_def)
    then have "List.find (inside addr) ms = None" by (rule find_no_nth)
    then show ?thesis using 0 by (simp add: find_module_def)
  next
    case (Suc n)
    then have n: "n < length ms" "DllBase (ms ! n) \<le> addr" using b(1) b(2) [of n] by auto
    have m: "map_of (map (\<lambda>m. (DllBase m, m)) ms) (DllBase (ms ! n)) = Some (ms ! n)"
    proof (rule map_of_is_SomeI)
      show "distinct (map fst (map (\<lambda>m. (DllBase m, m)) ms))" using apart_sorted [OF assms] by (simp add: comp_def)
      show "(DllBase (ms ! n), ms ! n) \<in> set (map (\<lambda>m. (DllBase m, m)) ms)" using n(1) by simp
    qed
    have other: "j = n" if "j < length ms" "inside addr (ms ! j)" for j
    proof (rule ccontr)
      assume "j \<noteq> n"
      then consider "j < n" | "n < j" by linarith
      then show False
      proof cases
        case 1
        then show False using apart_nth [OF assms 1 n(1)] that(2) n(2) by (simp add: inside_def)
      next
        case 2
        then show False using b(2) [OF that(1)] Suc that(2) by (simp add: inside_def)
      qed
    qed
    have "List.find (inside addr) ms = (if inside addr (ms ! n) then Some (ms ! n) else None)"
    proof (cases "inside addr (ms ! n)")
      case True
      then have "List.find (inside addr) ms = Some (ms ! n)" using n(1) other by (intro find_nth)
      then show ?thesis using True by simp
    next
      case False
      then have "\<not> inside addr (ms ! i)" if "i < length ms" for i using other [OF that] by blast
      then have "List.find (inside addr) ms = None" by (rule find_no_nth)
      then show ?thesis using False by simp
    qed
    then show ?thesis using m Suc n by (simp add: find_module_def inside_def)
  qed
qed

definition demo_module :: "int \<Rightarrow> string \<Rightarrow> kmodule" where
  "demo_module a nm = \<lparr>DllBase = a, SizeOfImage = 100, BaseDllName = nm, valid = True\<rparr>"

theorem find_module_is_search_witness:
  "find_module (map_of (map (\<lambda>m. (DllBase m, m)) [demo_module 1000 ''nt'', demo_module 2000 ''hal''])) [1000, 2000] 2005 =
     Inr (Some (demo_module 2000 ''hal''))"
  using find_module_is_search [of "[demo_module 1000 ''nt'', demo_module 2000 ''hal'']" 2005]
  by (simp add: demo_module_def inside_def)

text \<open>A table that is not in memory makes the plugin raise instead of giving a row for it.\<close>

lemma ssdt_not_resident: "\<not> is_valid_address t (ssdt_table t) \<Longrightarrow> t \<in> set ts \<Longrightarrow> \<exists>e. render_ssdt calls ts = Inl e"
proof (induction ts)
  case (Cons a ts)
  then show ?case
    by (cases "a = t") (auto simp: render_ssdt_def bindE_def split: sum.splits)
qed simp

section \<open>The option for the cache\<close>

definition cache_later :: "'w wrapper \<Rightarrow> bool" where
  "cache_later s \<longleftrightarrow> addr_space s \<or> \<not> LOPHI_CACHE s"

lemma onW_cases:
  obtains r w where "onW m s = (r, s\<lparr>vol_world := w\<rparr>)"
  by (cases "m (vol_world s)") (auto simp: onW_def)

lemma init_module_cache:
  assumes "cache_later s" "init_module V p s = (r, s1)"
  shows "cache_later s1"
proof (cases "p \<in> set (command_objs s)")
  case True
  then show ?thesis using assms by (simp add: init_module_def)
next
  case False
  then show ?thesis using assms by (cases r; cases rule: onW_cases [of "new_command V p" s])
      (auto simp: init_module_def thenS_def bindS_def cache_later_def split: sum.splits)
qed

lemma init_addr_space_cache:
  assumes "cache_later s" "init_addr_space V s = (r, s1)"
  shows "init_addr_space (V\<lparr>load_as := (\<lambda>c. load_as V False)\<rparr>) s = (r, s1)" "cache_later s1" "\<And>x. r = Inr x \<Longrightarrow> addr_space s1"
proof -
  show "init_addr_space (V\<lparr>load_as := (\<lambda>c. load_as V False)\<rparr>) s = (r, s1)"
    using assms by (auto simp: cache_later_def init_addr_space_def)
  have "cache_later s1 \<and> (\<forall>x. r = Inr x \<longrightarrow> addr_space s1)"
  proof (cases "addr_space s")
    case True
    then show ?thesis using assms by (simp add: init_addr_space_def)
  next
    case False
    then show ?thesis using assms by (cases rule: onW_cases [of "load_as V (LOPHI_CACHE s)" s])
      (auto simp: init_addr_space_def thenS_def bindS_def cache_later_def split: sum.splits)
  qed
  then show "cache_later s1" "\<And>x. r = Inr x \<Longrightarrow> addr_space s1" by auto
qed

text \<open>What is left when command and address space are there; it does not look at \<^verbatim>\<open>load_as\<close>.\<close>

definition run_command :: "('w, 'o, 'z) volatility_scheme \<Rightarrow> string \<Rightarrow> ('w wrapper, plugin_output) pymethod" where
  "run_command V plugin =
     thenS (setS (\<lambda>s. s\<lparr>LOPHI_CACHE := True\<rparr>))
     (bindS (onW (calculate V plugin)) (\<lambda>data.
      thenS (setS (\<lambda>s. s\<lparr>LOPHI_CACHE := False\<rparr>))
     (bindS (liftS (render_data V plugin data)) (\<lambda>output.
        case output of
          Some (h, d) \<Rightarrow>
            bindS (getS (\<lambda>s. (uri s, profile s))) (\<lambda>(u, p).
              returnS (ODict \<lparr>HEADER = h, DATA = d, MODULE = plugin, URI = u, PROFILE = p\<rparr>))
        | None \<Rightarrow> bindS (onW (render_text V plugin data)) (\<lambda>t. returnS (OText t))))))"

lemma execute_plugin_run:
  "execute_plugin V plugin =
     (if plugin \<notin> set (PLUGIN_COMMANDS V) then returnS OFalse
      else thenS (init_module V plugin) (thenS (init_addr_space V) (run_command V plugin)))"
  by (simp add: execute_plugin_def run_command_def)

lemma keeps_onW: "keeps addr_space (onW m)"
  by (simp add: keeps_def)

lemma run_command_keeps: "keeps addr_space (run_command V plugin)"
  unfolding run_command_def
  by (intro keeps_thenS keeps_setS keeps_bindS keeps_onW) (auto intro!: keeps_intros keeps_onW split: option.split)

lemma render_data_ignores: "render_data (V\<lparr>load_as := f\<rparr>) plugin data = render_data V plugin data"
  by (cases data) (simp_all add: render_data_def)

lemma load_as_ignored:
  "init_module (V\<lparr>load_as := f\<rparr>) plugin = init_module V plugin" "run_command (V\<lparr>load_as := f\<rparr>) plugin = run_command V plugin"
  by (simp_all add: init_module_def run_command_def render_data_ignores cong: option.case_cong)

lemma execute_plugin_cache:
  assumes "cache_later s"
  shows "execute_plugin (V\<lparr>load_as := (\<lambda>c. load_as V False)\<rparr>) p s = execute_plugin V p s" (is "execute_plugin ?V p s = _")
    and "cache_later (snd (execute_plugin V p s))"
proof -
  obtain r1 s1 where 1: "init_module V p s = (r1, s1)" by fastforce
  obtain r2 s2 where 2: "init_addr_space V s1 = (r2, s2)" by fastforce
  note m = init_module_cache [OF assms 1] and a = init_addr_space_cache [OF init_module_cache [OF assms 1] 2]
  show "execute_plugin ?V p s = execute_plugin V p s"
    using 1 2 a(1) by (cases r1; cases r2) (simp_all add: execute_plugin_run load_as_ignored thenS_def bindS_def)
  show "cache_later (snd (execute_plugin V p s))"
    using 1 2 m a(2,3) assms keepsD [OF run_command_keeps, of s2 V p]
    by (cases r1; cases r2) (auto simp: execute_plugin_run thenS_def bindS_def cache_later_def)
qed

text \<open>
  The cache of the memory sensor is never on: whatever plugins run, and whether they raise or not, everything is as if the address
  space had been made with the option off, although each plugin switches it on before it reads the memory.
\<close>

theorem cache_never_on:
  "fold (\<lambda>p s. snd (execute_plugin V p s)) ps (wrapper_init u pr w) =
   fold (\<lambda>p s. snd (execute_plugin (V\<lparr>load_as := (\<lambda>c. load_as V False)\<rparr>) p s)) ps (wrapper_init u pr w)"
proof -
  have "fold (\<lambda>p s. snd (execute_plugin V p s)) ps s =
      fold (\<lambda>p s. snd (execute_plugin (V\<lparr>load_as := (\<lambda>c. load_as V False)\<rparr>) p s)) ps s" if "cache_later s" for s
    using that by (induction ps arbitrary: s) (simp_all add: execute_plugin_cache)
  moreover have "cache_later (wrapper_init u pr w)" by (simp add: cache_later_def wrapper_init_def)
  ultimately show ?thesis by blast
qed

text \<open>With the option off the sensor of the address space has no cache.\<close>

lemma as_init_uncached: "as_init False loc ram regs d = Inr s \<Longrightarrow> CACHE_TIMEOUT (client s) = 0"
  by (auto simp: as_init_def as_sensor_def new_sensor_def res_simps Let_def split: if_splits option.splits)

section \<open>Screenshots\<close>

lemma shoot_station_one: "shoot_station h st scs seen = (shots, seen') \<Longrightarrow> length shots \<le> 1"
  by (induction h st scs seen arbitrary: shots seen' rule: shoot_station.induct) (auto split: if_splits option.splits)

text \<open>Each station gives a picture, not only the first with a desktop.\<close>

lemma shoot_length: "length (shoot h sts seen) \<le> length sts"
proof (induction sts arbitrary: seen)
  case (Cons st sts)
  obtain shots seen1 where s: "shoot_station h st (screens st) seen = (shots, seen1)" by fastforce
  then show ?case using Cons [of seen1] shoot_station_one [OF s] by simp
qed simp

end
