(* ===== verification/MemoryDiff.thy ===== *)
theory MemoryDiff
  imports VolatilityWrapper FilterProperties
begin

text \<open>
  The differential analysis of memory, \<^verbatim>\<open>lophi-analysis/analysis/memory/memory_analysis.py\<close>: the same plugins run over an image that was
  taken before a sample ran and over one taken after it, and what they find is compared.  Through the filter of \<^verbatim>\<open>AnalysisFilter\<close>
  what runs without a sample show too is removed.
\<close>

section \<open>Differences of dictionaries\<close>

definition dict_keys :: "('k \<times> 'v) list \<Rightarrow> 'k set" where
  "dict_keys d = set (map fst d)"

definition added :: "('k \<times> 'v) list \<Rightarrow> ('k \<times> 'v) list \<Rightarrow> 'k set" where
  "added d1 d2 = dict_keys d2 - dict_keys d1 \<inter> dict_keys d2"

definition removed :: "('k \<times> 'v) list \<Rightarrow> ('k \<times> 'v) list \<Rightarrow> 'k set" where
  "removed d1 d2 = dict_keys d1 - dict_keys d1 \<inter> dict_keys d2"

definition changed_keys :: "('k \<times> 'v) list \<Rightarrow> ('k \<times> 'v) list \<Rightarrow> 'k set" where
  "changed_keys d1 d2 = Set.filter (\<lambda>k. map_of d2 k \<noteq> map_of d1 k) (dict_keys d1 \<inter> dict_keys d2)"

definition unchanged_keys :: "('k \<times> 'v) list \<Rightarrow> ('k \<times> 'v) list \<Rightarrow> 'k set" where
  "unchanged_keys d1 d2 = Set.filter (\<lambda>k. map_of d2 k = map_of d1 k) (dict_keys d1 \<inter> dict_keys d2)"

section \<open>Running the plugins\<close>

definition PLUGINS_TO_USE :: "string list" where
  "PLUGINS_TO_USE = [''modscan'', ''psscan'', ''envars'', ''ssdt'', ''netscan'', ''ldrmodules'', ''driverirp'', ''psxview'']"

text \<open>A plugin that raises has no entry in the result.\<close>

fun analyze_sample :: "('w, 'o, 'z) volatility_scheme \<Rightarrow> string list \<Rightarrow> 'w wrapper \<Rightarrow> (string \<times> plugin_output) list \<times> 'w wrapper" where
  "analyze_sample V [] s = ([], s)"
| "analyze_sample V (p # ps) s =
     (case execute_plugin V p s of
        (Inl e, s1) \<Rightarrow> analyze_sample V ps s1
      | (Inr out, s1) \<Rightarrow> (case analyze_sample V ps s1 of (ret, s2) \<Rightarrow> ((p, out) # ret, s2)))"

section \<open>Comparing their output\<close>

text \<open>\<^verbatim>\<open>splitlines\<close>: a line ends with a line feed, a carriage return, or both.\<close>

definition line_end :: "char \<Rightarrow> bool" where
  "line_end c \<longleftrightarrow> c = CHR 0x0A \<or> c = CHR 0x0D"

fun next_line :: "string \<Rightarrow> string" where
  "next_line [] = []"
| "next_line (c # s) = (if c = CHR 0x0D \<and> take 1 s = [CHR 0x0A] then drop 1 s else s)"

function splitlines :: "string \<Rightarrow> string list" where
  "splitlines s =
     (if s = [] then []
      else takeWhile (\<lambda>c. \<not> line_end c) s # splitlines (next_line (dropWhile (\<lambda>c. \<not> line_end c) s)))"
  by pat_completeness auto
termination
proof (relation "measure length")
  fix s :: string
  assume "s \<noteq> []"
  have "length (next_line t) < Suc (length t - 1)" for t by (cases t) auto
  moreover have "length (next_line (dropWhile (\<lambda>c. \<not> line_end c) s)) \<le> length (dropWhile (\<lambda>c. \<not> line_end c) s) - 1"
    using calculation [of "dropWhile (\<lambda>c. \<not> line_end c) s"] by simp
  moreover have "length (dropWhile (\<lambda>c. \<not> line_end c) s) \<le> length s" by (rule length_dropWhile_le)
  ultimately show "(next_line (dropWhile (\<lambda>c. \<not> line_end c) s), s) \<in> measure length" using \<open>s \<noteq> []\<close> by (cases s) auto
qed simp

declare splitlines.simps [simp del]

fun nonempty_output :: "plugin_output \<Rightarrow> bool" where
  "nonempty_output OFalse = False"
| "nonempty_output (OText t) = (t \<noteq> [])"
| "nonempty_output (ODict d) = True"

text \<open>
  The result for a plugin.  The entries of a dictionary are the rows of its data; data of another shape, which no plugin
  of the list has, is left open.
\<close>

datatype diff_result = Message string | Entries "(string \<times> mentry list) list" | Uncompared

definition line_diff :: "mentry list \<Rightarrow> mentry list \<Rightarrow> diff_result" where
  "line_diff output1 output2 =
     (let output_set1 = set output1; output_set2 = set output2; intersect = output_set1 \<inter> output_set2 in
      Entries [(''Removed Entries'', filter (\<lambda>line. line \<in> output_set1 - intersect) output1),
               (''Added Entries'', filter (\<lambda>line. line \<in> output_set2 - intersect) output2)])"

definition MSG_RUNNING :: string where
  "MSG_RUNNING = ''Error running this plugin on one or both memory images.''"

definition MSG_PROCESSING :: string where
  "MSG_PROCESSING = ''Error processing output for this plugin on one or both memory images.''"

definition MSG_DIRTY :: "string \<Rightarrow> string" where
  "MSG_DIRTY plugin = ''Error: Dirty memory image did not have analysis for plugin '' @ plugin"

definition diff_outputs :: "plugin_output \<Rightarrow> plugin_output \<Rightarrow> diff_result" where
  "diff_outputs output1 output2 =
     (if nonempty_output output1 \<and> nonempty_output output2 then
        if output1 = output2 then Entries []
        else (case (output1, output2) of
                (ODict d1, ODict d2) \<Rightarrow>
                  (case (DATA d1, DATA d2) of
                     (Rows r1, Rows r2) \<Rightarrow> line_diff (map EList r1) (map EList r2)
                   | _ \<Rightarrow> Uncompared)
              | (OText t1, OText t2) \<Rightarrow> line_diff (map EStr (splitlines t1)) (map EStr (splitlines t2))
              | _ \<Rightarrow> Message MSG_PROCESSING)
      else Message MSG_RUNNING)"

definition diff_volatility_output ::
  "(string \<times> plugin_output) list \<Rightarrow> (string \<times> plugin_output) list \<Rightarrow> (string \<times> diff_result) list" where
  "diff_volatility_output output_dict1 output_dict2 =
     map (\<lambda>(plugin, output1).
       (plugin,
        case map_of output_dict2 plugin of
          None \<Rightarrow> Message (MSG_DIRTY plugin)
        | Some output2 \<Rightarrow> diff_outputs output1 output2)) output_dict1"

text \<open>\<^verbatim>\<open>run\<close>: two processes, each with its own instance of Volatility.\<close>

definition memory_run ::
  "('w, 'o, 'z) volatility_scheme \<Rightarrow> string \<Rightarrow> string \<Rightarrow> string \<Rightarrow> 'w \<Rightarrow> 'w \<Rightarrow> (string \<times> diff_result) list" where
  "memory_run V clean_url dirty_url prof clean dirty =
     diff_volatility_output
       (fst (analyze_sample V PLUGINS_TO_USE (wrapper_init (''file://'' @ clean_url) prof clean)))
       (fst (analyze_sample V PLUGINS_TO_USE (wrapper_init (''file://'' @ dirty_url) prof dirty)))"

text \<open>What the filter gets: a message counts as a failed plugin.\<close>

fun filter_input :: "diff_result \<Rightarrow> presult" where
  "filter_input (Entries d) = PDict d"
| "filter_input (Message m) = PError"
| "filter_input Uncompared = PError"

section \<open>What a difference shows\<close>

lemma line_diff_eq:
  "line_diff xs ys =
     Entries [(''Removed Entries'', filter (\<lambda>x. x \<notin> set ys) xs), (''Added Entries'', filter (\<lambda>y. y \<notin> set xs) ys)]"
proof -
  have "filter (\<lambda>x. x \<in> set xs - set xs \<inter> set ys) xs = filter (\<lambda>x. x \<notin> set ys) xs"
    "filter (\<lambda>x. x \<in> set ys - set xs \<inter> set ys) ys = filter (\<lambda>y. y \<notin> set xs) ys"
    by (auto intro: filter_cong)
  then show ?thesis unfolding line_diff_def Let_def by simp
qed

lemma dict_diff_partition:
  "dict_keys d1 \<union> dict_keys d2 = added d1 d2 \<union> removed d1 d2 \<union> changed_keys d1 d2 \<union> unchanged_keys d1 d2"
  "removed d1 d2 = added d2 d1" "added d1 d2 \<inter> removed d1 d2 = {}" "changed_keys d1 d2 \<inter> unchanged_keys d1 d2 = {}"
  by (auto simp: added_def removed_def changed_keys_def unchanged_keys_def)

lemma analyze_sample_Cons:
  "execute_plugin V p s = (Inl e, s1) \<Longrightarrow> fst (analyze_sample V (p # ps) s) = fst (analyze_sample V ps s1)"
  "execute_plugin V p s = (Inr out, s1) \<Longrightarrow> fst (analyze_sample V (p # ps) s) = (p, out) # fst (analyze_sample V ps s1)"
  by (simp_all split: prod.split)

lemma analyze_sample_fst: "fst ` set (fst (analyze_sample V ps s)) \<subseteq> set ps"
proof (induction ps arbitrary: s)
  case (Cons p ps)
  obtain r s1 where "execute_plugin V p s = (r, s1)" by fastforce
  then show ?case using Cons [of s1] by (cases r) (auto simp: analyze_sample_Cons simp del: analyze_sample.simps)
qed simp

lemma analyze_sample_distinct: "distinct ps \<Longrightarrow> distinct (map fst (fst (analyze_sample V ps s)))"
proof (induction ps arbitrary: s)
  case (Cons p ps)
  obtain r s1 where "execute_plugin V p s = (r, s1)" by fastforce
  then show ?case using Cons.IH [of s1] Cons.prems analyze_sample_fst [of V ps s1] by (cases r) (auto simp: analyze_sample_Cons simp del: analyze_sample.simps)
qed simp

lemma map_of_map_apsnd: "map_of (map (apsnd f) xs) k = map_option f (map_of xs k)"
  by (induction xs) auto

text \<open>The plugins of the list give text or rows.\<close>

lemma compared:
  assumes "p \<in> set PLUGINS_TO_USE" "(p, out) \<in> set (fst (analyze_sample V ps s))"
  shows "out \<noteq> ODict d \<or> (\<exists>rows. DATA d = Rows rows)"
  using assms
proof (induction ps arbitrary: s)
  case (Cons q ps)
  obtain r s1 where e: "execute_plugin V q s = (r, s1)" by fastforce
  show ?case
  proof (cases "r = Inr out \<and> p = q")
    case True
    have "''windows'' \<notin> set PLUGINS_TO_USE" "''screenshot'' \<notin> set PLUGINS_TO_USE" by code_simp+
    then have q: "q \<noteq> ''windows''" "q \<noteq> ''screenshot''" using True Cons.prems(1) by auto
    from e True have "execute_plugin V q s = (Inr out, s1)" by simp
    then show ?thesis
    proof (cases rule: execute_plugin_cases)
      case (rendered data h dd u pr)
      then show ?thesis using q
        by (cases data) (auto simp: render_data_def bindE_def split: if_splits sum.splits)
    qed simp_all
  next
    case False
    then have "(p, out) \<in> set (fst (analyze_sample V ps s1))"
      using Cons.prems(2) e by (cases r) (auto split: prod.splits)
    then show ?thesis using Cons by blast
  qed
qed simp

text \<open>A plugin that failed on the image from before the sample is not in the result, whatever it found afterwards.\<close>

lemma clean_failure_hides_plugin:
  "p \<notin> fst ` set (fst (analyze_sample V PLUGINS_TO_USE (wrapper_init (''file://'' @ clean_url) prof clean))) \<Longrightarrow>
   p \<notin> fst ` set (memory_run V clean_url dirty_url prof clean dirty)"
  by (force simp: memory_run_def diff_volatility_output_def)

text \<open>Lines in another order, or more often, are no difference.\<close>

lemma reordered_lines:
  "set (splitlines t1) = set (splitlines t2) \<Longrightarrow> t1 \<noteq> t2 \<Longrightarrow> t1 \<noteq> [] \<Longrightarrow> t2 \<noteq> [] \<Longrightarrow>
   diff_outputs (OText t1) (OText t2) = Entries [(''Removed Entries'', []), (''Added Entries'', [])]"
  by (auto simp: diff_outputs_def line_diff_eq filter_empty_conv)

section \<open>The same memory\<close>

fun set_uri :: "string \<Rightarrow> plugin_output \<Rightarrow> plugin_output" where
  "set_uri u (ODict d) = ODict (d\<lparr>URI := u\<rparr>)"
| "set_uri u x = x"

text \<open>Methods that do the same whatever the location of the image is.\<close>

definition uri_blind :: "string \<Rightarrow> ('w wrapper, 'a) pymethod \<Rightarrow> bool" where
  "uri_blind u m \<longleftrightarrow> (\<forall>s. m (s\<lparr>uri := u\<rparr>) = (fst (m s), (snd (m s))\<lparr>uri := u\<rparr>))"

definition mapS :: "('a \<Rightarrow> 'b) \<Rightarrow> ('s, 'a) pymethod \<Rightarrow> ('s, 'b) pymethod" where
  "mapS f m = bindS m (\<lambda>x. returnS (f x))"

lemma mapS_bindS: "mapS f (bindS m k) = bindS m (\<lambda>x. mapS f (k x))" "mapS f (thenS m n) = thenS m (mapS f n)"
  by (auto simp: mapS_def thenS_def bindS_def fun_eq_iff split: prod.splits sum.splits)

lemma mapS_returnS: "mapS f (returnS x) = returnS (f x)"
  by (rule ext) (simp add: mapS_def)

lemma blind_bindS: "uri_blind u m \<Longrightarrow> (\<And>x. uri_blind u (k x)) \<Longrightarrow> uri_blind u (bindS m k)"
  by (simp add: uri_blind_def bindS_def split: prod.split sum.split)

lemma blind_thenS: "uri_blind u m \<Longrightarrow> uri_blind u n \<Longrightarrow> uri_blind u (thenS m n)"
  unfolding thenS_def by (rule blind_bindS)

lemma blind_basic:
  "uri_blind u (returnS x)" "uri_blind u (liftS r)" "uri_blind u (onW m)"
  "(\<And>s. f (s\<lparr>uri := u\<rparr>) = f s) \<Longrightarrow> uri_blind u (getS f)"
  "(\<And>s. g (s\<lparr>uri := u\<rparr>) = (g s)\<lparr>uri := u\<rparr>) \<Longrightarrow> uri_blind u (setS g)"
  by (simp_all add: uri_blind_def onW_def split: prod.split)

lemma blind_whenS: "uri_blind u m \<Longrightarrow> uri_blind u (whenS b m)"
  by (simp add: uri_blind_def)

lemmas blind_intros = blind_bindS blind_thenS blind_basic blind_whenS

lemma execute_plugin_blind: "uri_blind u (mapS (set_uri []) (execute_plugin V p))"
proof -
  have out: "uri_blind u (mapS (set_uri []) (case res of
      Some (h, d) \<Rightarrow> bindS (getS (\<lambda>s. (uri s, profile s))) (\<lambda>(u, pr).
        returnS (ODict \<lparr>HEADER = h, DATA = d, MODULE = p, URI = u, PROFILE = pr\<rparr>))
    | None \<Rightarrow> bindS (onW (render_text V p data)) (\<lambda>t. returnS (OText t))))" for res data
  proof (cases res)
    case None
    then show ?thesis by (simp only: option.case mapS_bindS mapS_returnS) (intro blind_intros)
  next
    case (Some x)
    then show ?thesis by (cases x) (simp add: uri_blind_def mapS_def bindS_def)
  qed
  have "uri_blind u (init_module V p)" "uri_blind u (init_addr_space V)"
    unfolding init_module_def init_addr_space_def by (auto intro!: blind_intros)
  then show ?thesis
    unfolding execute_plugin_def if_distrib [of "mapS (set_uri [])"] if_distrib [of "uri_blind u"] mapS_bindS mapS_returnS
    by (auto intro!: blind_intros out simp del: returnS_at)
qed

lemma execute_plugin_uri:
  assumes "execute_plugin V p s = (r, s1)"
  shows "\<exists>r'. execute_plugin V p (s\<lparr>uri := u\<rparr>) = (r', s1\<lparr>uri := u\<rparr>) \<and>
    map_sum id (set_uri []) r' = map_sum id (set_uri []) r"
proof -
  have m: "mapS (set_uri []) m t = (map_sum id (set_uri []) (fst (m t)), snd (m t))" for m and t :: "'a wrapper"
    by (cases "m t"; cases "fst (m t)") (auto simp: mapS_def bindS_def)
  have "mapS (set_uri []) (execute_plugin V p) (s\<lparr>uri := u\<rparr>) =
      (fst (mapS (set_uri []) (execute_plugin V p) s), (snd (mapS (set_uri []) (execute_plugin V p) s))\<lparr>uri := u\<rparr>)"
    using execute_plugin_blind [of u V p] by (simp add: uri_blind_def)
  then show ?thesis using assms unfolding m by (cases "execute_plugin V p (s\<lparr>uri := u\<rparr>)") auto
qed

lemma analyze_sample_uri:
  "map (apsnd (set_uri [])) (fst (analyze_sample V ps (s\<lparr>uri := u\<rparr>))) = map (apsnd (set_uri [])) (fst (analyze_sample V ps s))"
proof (induction ps arbitrary: s)
  case (Cons p ps)
  obtain r s1 where e: "execute_plugin V p s = (r, s1)" by fastforce
  obtain r' where e': "execute_plugin V p (s\<lparr>uri := u\<rparr>) = (r', s1\<lparr>uri := u\<rparr>)" "map_sum id (set_uri []) r' = map_sum id (set_uri []) r"
    using execute_plugin_uri [OF e] by blast
  show ?case using e e' Cons [of s1] by (cases r; cases r') (auto split: prod.splits)
qed simp

definition no_entries :: "diff_result \<Rightarrow> bool" where
  "no_entries r = (case r of Message m \<Rightarrow> m = MSG_RUNNING | Entries es \<Rightarrow> list_all (\<lambda>(c, l). l = []) es | Uncompared \<Rightarrow> False)"

lemma diff_outputs_same:
  assumes "set_uri [] o1 = set_uri [] o2" "\<And>d. o1 \<noteq> ODict d \<or> (\<exists>rows. DATA d = Rows rows)"
  shows "no_entries (diff_outputs o1 o2)"
proof (cases o1)
  case (ODict d1)
  then obtain d2 where d2: "o2 = ODict d2" "d1\<lparr>URI := []\<rparr> = d2\<lparr>URI := []\<rparr>" using assms(1) by (cases o2) auto
  obtain rows where "DATA d1 = Rows rows" using assms(2) [of d1] ODict by auto
  moreover have "DATA d2 = DATA d1" using d2(2) by (metis plugin_dict.select_convs(2) plugin_dict.surjective plugin_dict.update_convs(4))
  ultimately show ?thesis using ODict d2(1) by (auto simp: diff_outputs_def line_diff_eq no_entries_def filter_empty_conv)
next
  case OFalse
  then show ?thesis using assms(1) by (cases o2) (auto simp: diff_outputs_def no_entries_def)
next
  case (OText t)
  then show ?thesis using assms(1) by (cases o2) (auto simp: diff_outputs_def no_entries_def)
qed

text \<open>
  Two images of the same memory show no difference: whatever Volatility finds, no plugin reports an entry, although the
  outputs that are dictionaries differ in the location of the image.
\<close>

theorem same_memory_no_difference:
  "list_all (\<lambda>(p, r). no_entries r) (memory_run V clean_url dirty_url prof w w)"
proof -
  let ?s1 = "wrapper_init (''file://'' @ clean_url) prof w" and ?s2 = "wrapper_init (''file://'' @ dirty_url) prof w"
  let ?o1 = "fst (analyze_sample V PLUGINS_TO_USE ?s1)" and ?o2 = "fst (analyze_sample V PLUGINS_TO_USE ?s2)"
  have "?s2 = ?s1\<lparr>uri := ''file://'' @ dirty_url\<rparr>" by (simp add: wrapper_init_def)
  then have eq: "map (apsnd (set_uri [])) ?o2 = map (apsnd (set_uri [])) ?o1" using analyze_sample_uri by metis
  have "no_entries (case map_of ?o2 p of None \<Rightarrow> Message (MSG_DIRTY p) | Some out2 \<Rightarrow> diff_outputs out1 out2)"
    if "(p, out1) \<in> set ?o1" for p out1
  proof -
    have p: "p \<in> set PLUGINS_TO_USE" using analyze_sample_fst that by force
    have dist: "distinct (map fst ?o1)" by (rule analyze_sample_distinct) code_simp
    have m: "map_option (set_uri []) (map_of ?o2 p) = map_option (set_uri []) (map_of ?o1 p)"
      using eq by (metis map_of_map_apsnd)
    moreover have "map_of ?o1 p = Some out1" using dist that by simp
    ultimately obtain out2 where "map_of ?o2 p = Some out2" "set_uri [] out1 = set_uri [] out2" by auto
    then show ?thesis using diff_outputs_same compared [OF p that] by simp
  qed
  then show ?thesis by (auto simp: memory_run_def diff_volatility_output_def list_all_iff)
qed

section \<open>Through the filter\<close>

definition filter_category :: "string list \<Rightarrow> string \<Rightarrow> categories \<Rightarrow> string \<times> mentry list \<Rightarrow> (string \<times> mentry list) res" where
  "filter_category tcp_states plugin cats = (\<lambda>(category, entries).
     case map_of cats category of
       None \<Rightarrow> Inr (category, entries)
     | Some flt \<Rightarrow> bindE (apply_category tcp_states plugin flt entries) (\<lambda>es. Inr (category, es)))"

lemma apply_plugin_PDict:
  "map_of (m_occurrences f) plugin = Some cats \<Longrightarrow>
   apply_plugin tcp_states f (plugin, PDict d) = bindE (mapE (filter_category tcp_states plugin cats) d) (\<lambda>d1. Inr (plugin, PDict d1))"
  by (simp only: apply_plugin_def filter_category_def fst_conv snd_conv option.case prod.case presult.case)

lemma apply_category_lines:
  assumes "plugin \<notin> set SPECIAL_PLUGINS" "set es \<subseteq> range EStr"
  shows "apply_category tcp_states plugin flt es = Inr (filter (\<lambda>e. plain_entry e \<notin> fst ` set flt) (remdups es))"
proof -
  have "list_all (\<lambda>e. case e of EStr s \<Rightarrow> True | EList l \<Rightarrow> False) es" using assms(2) by (auto simp: list_all_iff split: mentry.splits)
  then show ?thesis using assms(1) by (simp add: apply_category_def as_set_def)
qed


text \<open>
  But the rows of the plugin \<^verbatim>\<open>ssdt\<close> are lists, of which no set can be made: a new row makes the filter raise, and nothing of the whole
  result is filtered.
\<close>

lemma mapE_raises: "x \<in> set xs \<Longrightarrow> f x = Inl e \<Longrightarrow> \<exists>e. mapE f xs = Inl e"
  by (induction xs) (auto simp: bindE_def split: sum.splits)

lemma new_row_breaks_filter:
  assumes "(''ssdt'', Entries [(''Removed Entries'', rs), (''Added Entries'', EList row # as)]) \<in> set results"
    and "map_of (m_occurrences f) ''ssdt'' = Some cats" "map_of cats ''Added Entries'' = Some flt"
  shows "\<exists>e. mem_apply_filter tcp_states f (map (apsnd filter_input) results) = Inl e"
proof -
  define d where "d = [(''Removed Entries'', rs), (''Added Entries'', EList row # as)]"
  have "filter_category tcp_states ''ssdt'' cats (''Added Entries'', EList row # as) = Inl TypeError"
    using assms(3) by (simp add: filter_category_def apply_category_def as_set_def)
  then obtain e where "mapE (filter_category tcp_states ''ssdt'' cats) d = Inl e"
    using mapE_raises [of "(''Added Entries'', EList row # as)" d "filter_category tcp_states ''ssdt'' cats"] by (auto simp: d_def)
  then have "apply_plugin tcp_states f (''ssdt'', PDict d) = Inl e" by (simp add: apply_plugin_PDict [OF assms(2)])
  moreover have "(''ssdt'', PDict d) \<in> set (map (apsnd filter_input) results)" using assms(1) by (force simp: d_def)
  ultimately show ?thesis unfolding mem_apply_filter_def by (intro mapE_raises)
qed

section \<open>Witnesses\<close>


end
