(* ===== verification/DiskDiff.thy ===== *)
theory DiskDiff
  imports Capture DiskEngine FilterProperties SataReconstructor
begin

text \<open>
  The differential analysis of disks, \<^verbatim>\<open>lophi-analysis/analysis/disk/disk_analysis.py\<close>: a capture of disk activity is replayed through the
  semantic engine, the operations on files are counted, and the counts of two captures are compared.  The engine, \<^verbatim>\<open>get_access\<close> of
  \<^verbatim>\<open>SemanticEngineDisk\<close>, is the argument \<open>access\<close>, a method on its tables.
\<close>

section \<open>Replaying\<close>

text \<open>The records of a capture up to its end or up to an exception of the reader.\<close>

function records :: "bytes \<Rightarrow> nat \<Rightarrow> captured list \<times> py_error option" where
  "records file pos =
     (case CaptureReader_next file pos of
        Inl StopIteration \<Rightarrow> ([], None)
      | Inl e \<Rightarrow> ([], Some e)
      | Inr (c, pos1) \<Rightarrow> (case records file pos1 of (cs, e) \<Rightarrow> (c # cs, e)))"
  by pat_completeness auto
termination
  by (relation "measure (\<lambda>(file, pos). length file - pos)") (auto dest: CaptureReader_next_moves)

declare records.simps [simp del]

datatype machine_kind = Physical | Virtual

text \<open>What a packet hands to the engine: sector, number of sectors, operation and data.\<close>

type_synonym access_args = "pyval \<times> pyval \<times> pyval \<times> bytes option"
type_synonym 'v access = "access_args \<Rightarrow> ('v, fs_operation list option) pymethod"

definition virtual_args :: "data_struct \<Rightarrow> access_args" where
  "virtual_args p = (attr (ds_dict p) ''sector'', attr (ds_dict p) ''num_sectors'', attr (ds_dict p) ''disk_operation'', ds_data p)"

definition physical_args :: "disk_sensor_packet \<Rightarrow> access_args" where
  "physical_args p = (VInt (int (d_sector p)), VInt (int (d_num_sectors p)), VInt (int (d_disk_operation p)), Some (d_data p))"

record 'v replay_state =
  sata_reconstructor :: recon
  semantic_engine :: 'v
  output_log :: "fs_operation list"

text \<open>One packet at the engine; an exception or an access outside of the disk is logged only.\<close>

definition replay_access :: "'v access \<Rightarrow> access_args \<Rightarrow> 'v replay_state \<Rightarrow> 'v replay_state" where
  "replay_access access a s =
     (case access a (semantic_engine s) of
        (Inl e, v) \<Rightarrow> s\<lparr>semantic_engine := v\<rparr>
      | (Inr None, v) \<Rightarrow> s\<lparr>semantic_engine := v\<rparr>
      | (Inr (Some ops), v) \<Rightarrow> s\<lparr>semantic_engine := v, output_log := output_log s @ ops\<rparr>)"

text \<open>
  One record.  The frame of a physical machine is decoded first, which may raise; a packet too small for a header gives \<^verbatim>\<open>None\<close>, which
  cannot be taken apart into a pair.
\<close>

definition replay_record :: "globals \<Rightarrow> machine_kind \<Rightarrow> 'v access \<Rightarrow> bytes \<Rightarrow> 'v replay_state \<Rightarrow> 'v replay_state res" where
  "replay_record g kind access data s =
     (case kind of
        Virtual \<Rightarrow> Inr (replay_access access (virtual_args (ds_init DiskSensorPacket (Some data))) s)
      | Physical \<Rightarrow>
          bindE (extract_sata_data g data) (\<lambda>r.
            case r of
              None \<Rightarrow> Inl TypeError
            | Some (hdr, None) \<Rightarrow> Inr s
            | Some (hdr, Some d) \<Rightarrow>
                bindE (process_packet (sata_reconstructor s) \<lparr>p_header = hdr, p_data = d\<rparr>) (\<lambda>(r1, out).
                  Inr (fold (replay_access access) (map physical_args (case out of None \<Rightarrow> [] | Some l \<Rightarrow> l))
                        (s\<lparr>sata_reconstructor := r1\<rparr>)))))"

fun replay_records :: "globals \<Rightarrow> machine_kind \<Rightarrow> 'v access \<Rightarrow> captured list \<Rightarrow> 'v replay_state \<Rightarrow> 'v replay_state res" where
  "replay_records g kind access [] s = Inr s"
| "replay_records g kind access ((ts, data) # cs) s =
     bindE (replay_record g kind access data s) (replay_records g kind access cs)"

text \<open>Counting what was done to which file.\<close>

type_synonym activity = "string \<times> string \<times> inode_ref"

definition activity_of :: "fs_operation \<Rightarrow> activity" where
  "activity_of fo = (op_type fo, op_filename fo, op_inode fo)"

definition DEFAULT_SECTOR_SIZE :: nat where "DEFAULT_SECTOR_SIZE = 512"

definition replay :: "globals \<Rightarrow> machine_kind \<Rightarrow> 'v access \<Rightarrow> 'v \<Rightarrow> bytes \<Rightarrow> (activity \<times> int) list res" where
  "replay g kind access v file =
     (case records file 0 of (cs, e) \<Rightarrow>
        bindE (replay_records g kind access cs
                 \<lparr>sata_reconstructor = recon_init DEFAULT_SECTOR_SIZE, semantic_engine = v, output_log = []\<rparr>) (\<lambda>s.
          case e of Some err \<Rightarrow> Inl err | None \<Rightarrow> Inr (fold bump (map activity_of (output_log s)) [])))"

definition fs_activity_diff ::
  "('k \<times> int) list \<Rightarrow> ('k \<times> int) list \<Rightarrow> ('k \<times> int) list \<times> ('k \<times> int) list" where
  "fs_activity_diff fs_dict1 fs_dict2 =
     (filter (\<lambda>(k, n). k \<notin> set (map fst fs_dict2)) fs_dict1, filter (\<lambda>(k, n). k \<notin> set (map fst fs_dict1)) fs_dict2)"

section \<open>Properties\<close>

lemma records_nonempty:
  assumes "CaptureReader_next file 0 = Inr (c, pos1)"
  shows "\<exists>cs e. records file 0 = (c # cs, e)"
  using assms by (subst records.simps) (auto split: prod.split)


text \<open>The operations of the engine for one packet after the other.\<close>

fun engine_ops :: "'v access \<Rightarrow> access_args list \<Rightarrow> 'v \<Rightarrow> fs_operation list" where
  "engine_ops access [] v = []"
| "engine_ops access (a # as) v =
     (case access a v of
        (Inr (Some ops), v1) \<Rightarrow> ops @ engine_ops access as v1
      | (_, v1) \<Rightarrow> engine_ops access as v1)"

definition capture_args :: "captured list \<Rightarrow> access_args list" where
  "capture_args cs = map (\<lambda>(ts, data). virtual_args (ds_init DiskSensorPacket (Some data))) cs"

lemma replay_virtual:
  "\<exists>s'. replay_records g Virtual access cs s = Inr s' \<and> output_log s' = output_log s @ engine_ops access (capture_args cs) (semantic_engine s)"
proof (induction cs arbitrary: s)
  case Nil
  then show ?case by (simp add: capture_args_def)
next
  case (Cons c cs)
  obtain ts data where c: "c = (ts, data)" by (cases c)
  let ?a = "virtual_args (ds_init DiskSensorPacket (Some data))"
  obtain s' where s': "replay_records g Virtual access cs (replay_access access ?a s) = Inr s'"
    "output_log s' = output_log (replay_access access ?a s) @ engine_ops access (capture_args cs) (semantic_engine (replay_access access ?a s))"
    using Cons by blast
  have "output_log (replay_access access ?a s) @ engine_ops access (capture_args cs) (semantic_engine (replay_access access ?a s)) =
      output_log s @ engine_ops access (?a # capture_args cs) (semantic_engine s)"
    by (auto simp: replay_access_def split: prod.splits sum.splits option.splits)
  then show ?case using s' c by (auto simp: replay_record_def capture_args_def)
qed

lemma records_read_all: "read_all bs pos = Inr cs \<Longrightarrow> records bs pos = (cs, None)"
proof (induction bs pos arbitrary: cs rule: read_all.induct)
  case (1 bs pos)
  show ?case
  proof (cases "CaptureReader_next bs pos")
    case (Inl e)
    then show ?thesis using 1(2) by (cases e) (auto simp: read_all.simps [of bs pos] records.simps [of bs pos])
  next
    case (Inr cp)
    obtain c pos1 where cp: "cp = (c, pos1)" by (cases cp)
    then obtain cs1 where "read_all bs pos1 = Inr cs1" "cs = c # cs1"
      using 1(2) Inr by (auto simp: read_all.simps [of bs pos] res_simps)
    then show ?thesis using 1(1) [OF Inr cp [symmetric]] Inr cp by (simp add: records.simps [of bs pos])
  qed
qed

lemma replay_counts:
  assumes "read_all file 0 = Inr cs"
  shows "replay g Virtual access v file = Inr (fold bump (map activity_of (engine_ops access (capture_args cs) v)) [])"
  using records_read_all [OF assms]
    replay_virtual [of g access cs "\<lparr>sata_reconstructor = recon_init DEFAULT_SECTOR_SIZE, semantic_engine = v, output_log = []\<rparr>"]
  by (auto simp: replay_def)

lemma counted: "(k, n) \<in> set (fold bump xs []) \<longleftrightarrow> k \<in> set xs \<and> n = int (count_list xs k)"
proof -
  have "distinct (map fst (fold bump xs []))" by (rule distinct_fold) simp
  then have "(k, n) \<in> set (fold bump xs []) \<longleftrightarrow> map_of (fold bump xs []) k = Some n" by simp
  then show ?thesis by (auto simp: map_of_fold)
qed

lemma fst_counted: "fst ` set (fold bump xs []) = set xs"
proof
  show "fst ` set (fold bump xs []) \<subseteq> set xs" by (auto simp: counted)
  show "set xs \<subseteq> fst ` set (fold bump xs [])"
  proof
    fix k assume "k \<in> set xs"
    then have "(k, int (count_list xs k)) \<in> set (fold bump xs [])" by (simp add: counted)
    then show "k \<in> fst ` set (fold bump xs [])" by (metis fst_conv image_eqI)
  qed
qed


section \<open>Witnesses\<close>


text \<open>An engine that reports each access as a write of a file of the number of the first byte of its data.\<close>

definition demo_access :: "unit access" where
  "demo_access a =
     (case a of (s, n, opr, data) \<Rightarrow>
        returnS (Some [fs_op 1 ''WRITE'' ''[CONTENT WRITE]'' (Inode (case data of Some (b # bs) \<Rightarrow> uint b | _ \<Rightarrow> 0)) ''/a'' [] []]))"


end
