(* ===== verification/CaptureEngines.thy ===== *)
theory CaptureEngines
  imports DiskDiff DiskIntrospectionProperties MemoryEngine
begin

text \<open>
  The processes that listen to the sensors of a machine while an analysis runs, and the classes of the automation code that start,
  pause and stop them: \<^verbatim>\<open>DiskEngine\<close> and \<^verbatim>\<open>DcapEngine\<close> of \<^verbatim>\<open>lophi_semanticgap/disk/__init__.py\<close>, \<^verbatim>\<open>NetworkCapture\<close> of
  \<^verbatim>\<open>lophi/sensors/network/__init__.py\<close> with \<^verbatim>\<open>PcapWriter\<close> of \<^verbatim>\<open>lophi/capture/network.py\<close>, and
  \<^verbatim>\<open>lophi_automation/analysis/__init__.py\<close>.  Each process polls its queue of commands without waiting and then reads its sensor.
  The turns of a process are the list of what the queue gave; what the sensor returns or raises, one read after the other, is a
  list too, and a process that has to wait for the sensor is \<open>Polling\<close>.
\<close>

section \<open>Capturing\<close>

text \<open>The commands of both capture processes: whether the loop ends, and whether the process is paused then.\<close>

definition capture_command :: "string option \<Rightarrow> bool \<Rightarrow> bool \<times> bool" where
  "capture_command cmd paused =
     (case cmd of
        None \<Rightarrow> (False, paused)
      | Some c \<Rightarrow>
          let key = hd (split_on CHR '' '' c) in
          if key = CMD_PAUSE then (False, True)
          else if key = CMD_UNPAUSE then (False, False)
          else (key = CMD_KILL \<or> key = CMD_STOP, paused))"

text \<open>\<^verbatim>\<open>DcapEngine.run\<close>: what it puts on its output queue.\<close>

fun dcap_loop :: "string option list \<Rightarrow> 'p option res list \<Rightarrow> bool \<Rightarrow> 'p list \<Rightarrow> engine_end \<times> 'p list" where
  "dcap_loop [] reads paused out = (Polling, out)"
| "dcap_loop (cmd # cmds) reads paused out =
     (case capture_command cmd paused of
        (True, p) \<Rightarrow> (Ended, out)
      | (False, p) \<Rightarrow>
          if p then dcap_loop cmds reads True out
          else (case reads of
                  [] \<Rightarrow> (Polling, out)
                | Inl e # _ \<Rightarrow> (Raised e, out)
                | Inr None # rs \<Rightarrow> dcap_loop cmds rs False out
                | Inr (Some x) # rs \<Rightarrow> dcap_loop cmds rs False (out @ [x])))"

definition dcap_run :: "string option list \<Rightarrow> 'p option res list \<Rightarrow> engine_end \<times> 'p list" where
  "dcap_run cmds reads = dcap_loop cmds reads False []"

text \<open>
  \<^verbatim>\<open>NetworkCapture.run\<close>.  A paused process calls \<^verbatim>\<open>time.sleep\<close>, but the module does not import \<^verbatim>\<open>time\<close>; a machine without a
  network sensor gives no data, which ends the loop.
\<close>

type_synonym net_packet = "int \<times> bytes"

fun network_loop :: "string option list \<Rightarrow> net_packet option res list \<Rightarrow> bool \<Rightarrow> net_packet list \<Rightarrow> engine_end \<times> net_packet list" where
  "network_loop [] reads paused out = (Polling, out)"
| "network_loop (cmd # cmds) reads paused out =
     (case capture_command cmd paused of
        (True, p) \<Rightarrow> (Ended, out)
      | (False, p) \<Rightarrow>
          if p then (Raised NameError, out)
          else (case reads of
                  [] \<Rightarrow> (Polling, out)
                | Inl e # _ \<Rightarrow> (Raised e, out)
                | Inr None # _ \<Rightarrow> (Ended, out)
                | Inr (Some x) # rs \<Rightarrow> network_loop cmds rs False (out @ [x])))"

definition network_run :: "string option list \<Rightarrow> net_packet option res list \<Rightarrow> engine_end \<times> net_packet list" where
  "network_run cmds reads = network_loop cmds reads False []"

text \<open>\<^verbatim>\<open>Machine.network_read\<close>, for a machine with or without a network sensor.\<close>

definition network_read :: "bool \<Rightarrow> net_packet option res \<Rightarrow> net_packet option res" where
  "network_read has_network r = (if has_network then r else Inr None)"

text \<open>
  \<^verbatim>\<open>PcapWriter.run\<close> over what comes out of its queue, \<open>None\<close> for a queue that was closed.  \<open>writepkt\<close> is the method of dpkt on the file;
  what it raises ends the writer.
\<close>

fun pcap_loop :: "(net_packet \<Rightarrow> ('f, unit) pymethod) \<Rightarrow> net_packet option list \<Rightarrow> ('f, unit) pymethod" where
  "pcap_loop writepkt [] = returnS ()"
| "pcap_loop writepkt (None # qs) = returnS ()"
| "pcap_loop writepkt (Some p # qs) = thenS (writepkt p) (pcap_loop writepkt qs)"

section \<open>The disk engine\<close>

text \<open>
  Which image the engine starts from: the scan of a physical machine, which has to exist; the image of a virtual machine, or its base
  image if it is a \<^verbatim>\<open>qcow2\<close> file.
\<close>

definition check_disk_scan :: "(string \<Rightarrow> bool) \<Rightarrow> string option \<Rightarrow> bool" where
  "check_disk_scan exists disk_scan = (case disk_scan of None \<Rightarrow> False | Some f \<Rightarrow> exists f)"

definition ends_with :: "string \<Rightarrow> string \<Rightarrow> bool" where
  "ends_with s suf \<longleftrightarrow> length suf \<le> length s \<and> drop (length s - length suf) s = suf"

definition disk_image :: "(string \<Rightarrow> bool) \<Rightarrow> machine_kind \<Rightarrow> string option \<Rightarrow> string option \<Rightarrow> string \<Rightarrow> string option" where
  "disk_image exists kind disk_scan image_name disk_base =
     (case kind of
        Physical \<Rightarrow> if check_disk_scan exists disk_scan then disk_scan else None
      | Virtual \<Rightarrow> (case image_name of
                     None \<Rightarrow> None
                   | Some f \<Rightarrow> Some (if ends_with f ''qcow2'' then disk_base else f)))"

definition working_disk_img :: "string \<Rightarrow> string \<Rightarrow> string \<Rightarrow> string" where
  "working_disk_img DIR_ROOT DIR_TMP nm = path_join (path_join DIR_ROOT DIR_TMP) (nm @ ''-disk.img.tmp'')"

record 'v live =
  live_paused :: bool
  linked :: bool
  live_recon :: recon
  live_engine :: 'v
  live_reports :: "row list list"

text \<open>A command; the sensor is disconnected and connected with it, and what that raises is dropped.\<close>

definition disk_command :: "string option \<Rightarrow> 'v live \<Rightarrow> bool \<times> 'v live" where
  "disk_command cmd s =
     (case cmd of
        None \<Rightarrow> (False, s)
      | Some c \<Rightarrow>
          let key = hd (split_on CHR '' '' c) in
          if key = CMD_PAUSE then (False, s\<lparr>live_paused := True, linked := False\<rparr>)
          else if key = CMD_UNPAUSE then (False, s\<lparr>live_paused := False, linked := True\<rparr>)
          else if key = CMD_KILL \<or> key = CMD_STOP then (True, s\<lparr>linked := False\<rparr>)
          else (False, s))"

text \<open>One packet at the semantic engine, with the time \<open>now\<close>; what raises is logged only.\<close>

definition live_access ::
  "'v access \<Rightarrow> (int \<Rightarrow> string) \<Rightarrow> (string list \<Rightarrow> string list) \<Rightarrow> int \<Rightarrow> access_args \<Rightarrow> 'v live \<Rightarrow> 'v live" where
  "live_access access strftime key_order now a s =
     (case access a (live_engine s) of
        (Inl e, v) \<Rightarrow> s\<lparr>live_engine := v\<rparr>
      | (Inr ops, v) \<Rightarrow>
          s\<lparr>live_engine := v,
            live_reports := live_reports s @
              (case parse_actions strftime key_order now ops of None \<Rightarrow> [] | Some rows \<Rightarrow> [rows])\<rparr>)"

text \<open>
  What a read gave.  The frame of a physical machine is decoded from its bytes; a frame of an unknown kind has no type to look up.
\<close>

definition live_packet ::
  "globals \<Rightarrow> machine_kind \<Rightarrow> 'v access \<Rightarrow> (int \<Rightarrow> string) \<Rightarrow> (string list \<Rightarrow> string list) \<Rightarrow> int \<Rightarrow> data_struct \<Rightarrow> 'v live \<Rightarrow> 'v live res" where
  "live_packet g kind access strftime key_order now p s =
     (case kind of
        Virtual \<Rightarrow> Inr (live_access access strftime key_order now (virtual_args p) s)
      | Physical \<Rightarrow>
          bindE (ds_repr p) (\<lambda>bs.
          bindE (extract_sata_data g bs) (\<lambda>r.
            case r of
              None \<Rightarrow> Inl TypeError
            | Some (hdr, None) \<Rightarrow> Inl KeyError
            | Some (hdr, Some d) \<Rightarrow>
                bindE (process_packet (live_recon s) \<lparr>p_header = hdr, p_data = d\<rparr>) (\<lambda>(r1, out).
                  Inr (fold (live_access access strftime key_order now) (map physical_args (case out of None \<Rightarrow> [] | Some l \<Rightarrow> l))
                        (s\<lparr>live_recon := r1\<rparr>))))))"

text \<open>\<^verbatim>\<open>DiskEngine.run\<close> from its loop on.  A read that raises ends the loop; reading connects to the sensor.\<close>

fun live_loop ::
  "globals \<Rightarrow> machine_kind \<Rightarrow> 'v access \<Rightarrow> (int \<Rightarrow> string) \<Rightarrow> (string list \<Rightarrow> string list) \<Rightarrow>
   (string option \<times> int) list \<Rightarrow> data_struct option res list \<Rightarrow> 'v live \<Rightarrow> engine_end \<times> 'v live" where
  "live_loop g kind access strftime key_order [] reads s = (Polling, s)"
| "live_loop g kind access strftime key_order ((cmd, now) # turns) reads s =
     (case disk_command cmd s of
        (True, s1) \<Rightarrow> (Ended, s1)
      | (False, s1) \<Rightarrow>
          if live_paused s1 then live_loop g kind access strftime key_order turns reads s1
          else (case reads of
                  [] \<Rightarrow> (Polling, s1\<lparr>linked := True\<rparr>)
                | Inl e # _ \<Rightarrow> (Ended, s1\<lparr>linked := True\<rparr>)
                | Inr None # rs \<Rightarrow> live_loop g kind access strftime key_order turns rs (s1\<lparr>linked := True\<rparr>)
                | Inr (Some p) # rs \<Rightarrow>
                    (case live_packet g kind access strftime key_order now p (s1\<lparr>linked := True\<rparr>) of
                       Inl e \<Rightarrow> (Raised e, s1\<lparr>linked := True\<rparr>)
                     | Inr s2 \<Rightarrow> live_loop g kind access strftime key_order turns rs s2)))"

definition live_init :: "'v \<Rightarrow> 'v live" where
  "live_init v = \<lparr>live_paused = False, linked = True, live_recon = recon_init DEFAULT_SECTOR_SIZE, live_engine = v, live_reports = []\<rparr>"

section \<open>The classes that start the processes\<close>

text \<open>
  An object of one of the classes: whether its constructor ran to its end, whether \<^verbatim>\<open>analysis_engine\<close> is a process, and the queue of
  the process if \<^verbatim>\<open>start\<close> made one.  \<open>sensor_linked\<close> is the disk sensor of the machine in the process of the object.
\<close>

record engine_object =
  constructed :: bool
  has_process :: bool
  commands :: "string list option"
  sensor_linked :: bool

definition blank_object :: engine_object where
  "blank_object = \<lparr>constructed = True, has_process = False, commands = None, sensor_linked = False\<rparr>"

text \<open>The constructor returns early, without an exception, if the machine has no disk sensor.\<close>

definition disk_analysis_init :: "bool \<Rightarrow> engine_object" where
  "disk_analysis_init has_disk = blank_object\<lparr>constructed := has_disk\<rparr>"

definition engine_attribute :: "(engine_object, unit) pymethod" where
  "engine_attribute s = (if constructed s then returnS () s else raiseS AttributeError s)"

definition disk_analysis_start :: "(engine_object, unit) pymethod" where
  "disk_analysis_start =
     thenS (setS (\<lambda>s. s\<lparr>commands := Some []\<rparr>))
    (thenS engine_attribute
    (setS (\<lambda>s. s\<lparr>sensor_linked := True, has_process := True\<rparr>)))"

text \<open>The capture engine does the same, and prints what is raised.\<close>

definition disk_capture_start :: "(engine_object, unit) pymethod" where
  "disk_capture_start = tryS disk_analysis_start (\<lambda>e. returnS ())"

definition disk_analysis_stop :: "(engine_object, unit) pymethod" where
  "disk_analysis_stop =
     thenS engine_attribute
    (thenS (setS (\<lambda>s. s\<lparr>sensor_linked := False\<rparr>))
    (\<lambda>s. if has_process s then setS (\<lambda>s. s\<lparr>has_process := False, commands := None\<rparr>) s else raiseS AttributeError s))"

definition network_capture_start :: "(engine_object, unit) pymethod" where
  "network_capture_start = setS (\<lambda>s. s\<lparr>commands := Some [], has_process := True\<rparr>)"

definition network_capture_stop :: "(engine_object, unit) pymethod" where
  "network_capture_stop s =
     (if has_process s then setS (\<lambda>s. s\<lparr>has_process := False, commands := None\<rparr>) s else raiseS AttributeError s)"

text \<open>\<^verbatim>\<open>AnalysisEngine.pause\<close> and \<^verbatim>\<open>resume\<close>, and \<^verbatim>\<open>stop\<close> of the classes that do not have their own.\<close>

definition engine_put :: "string \<Rightarrow> (engine_object, unit) pymethod" where
  "engine_put c =
     thenS engine_attribute (setS (\<lambda>s. if has_process s then s\<lparr>commands := map_option (\<lambda>q. q @ [c]) (commands s)\<rparr> else s))"

definition engine_pause :: "(engine_object, unit) pymethod" where "engine_pause = engine_put CMD_PAUSE"
definition engine_resume :: "(engine_object, unit) pymethod" where "engine_resume = engine_put CMD_UNPAUSE"

definition engine_stop :: "(engine_object, unit) pymethod" where
  "engine_stop = thenS (engine_put CMD_STOP) (setS (\<lambda>s. s\<lparr>has_process := False\<rparr>))"

section \<open>Properties\<close>

text \<open>In how many turns a capture process reads its sensor, until it is stopped.\<close>

fun reading_turns :: "string option list \<Rightarrow> bool \<Rightarrow> nat" where
  "reading_turns [] paused = 0"
| "reading_turns (cmd # cmds) paused =
     (case capture_command cmd paused of
        (True, _) \<Rightarrow> 0
      | (False, p) \<Rightarrow> (if p then 0 else 1) + reading_turns cmds p)"

lemma dcap_loop_takes: "snd (dcap_loop cmds (map (Inr \<circ> Some) ps) paused out) = out @ take (reading_turns cmds paused) ps"
proof (induction cmds arbitrary: ps paused out)
  case (Cons cmd cmds)
  then show ?case using Cons.IH [of ps True out] by (cases ps) (auto split: prod.splits bool.splits)
qed simp

lemma network_loop_turns:
  "network_loop (replicate (length ps) None @ cmds) (map (Inr \<circ> Some) ps @ reads) False out = network_loop cmds reads False (out @ ps)"
  by (induction ps arbitrary: out) (simp_all add: capture_command_def)

lemma wire_struct_init:
  assumes "proper_packet p"
  shows "ds_init DiskSensorPacket (Some (wire p)) = wire_struct p" and "ds_repr (wire_struct p) = Inr (wire p)"
    and "ds_len (wire_struct p) = length (wire p)"
proof -
  obtain h d where p: "p = (h, d)" by (cases p)
  have h: "length h = struct_size DiskSensorPacket" "d \<noteq> []" using assms p by (simp_all add: header_size_def)
  show "ds_init DiskSensorPacket (Some (wire p)) = wire_struct p" "ds_repr (wire_struct p) = Inr (wire p)"
    "ds_len (wire_struct p) = length (wire p)"
    using h by (auto simp: p ds_init_def ds_unpack_def ds_blank_def ds_set_data_def ds_repr_def ds_len_def Let_def)
qed

text \<open>Writing packets of a disk and reading the capture.\<close>

lemma wire_capture:
  assumes "\<forall>p \<in> set ps. proper_packet p" "length ts = length ps"
  shows "CaptureWriter_run (zip ts (map (StructPacket \<circ> wire_struct) ps)) = Inr (capture (zip ts (map wire ps)))"
    and "read_all (capture (zip ts (map wire ps))) 0 = Inr (zip ts (map wire ps))"
    and "capture_args (zip ts (map wire ps)) = map (virtual_args \<circ> wire_struct) ps"
proof -
  have small: "small (t, wire p)" if "proper_packet p" for t p
    using that by (cases p) (auto simp: small_def header_size_eq)
  have "list_all2 (\<lambda>(t, p) c. fst c = t \<and> packet_repr p = Inr (snd c) \<and> packet_len p = length (snd c) \<and> small c)
      (zip ts (map (StructPacket \<circ> wire_struct) ps)) (zip ts (map wire ps))"
    using assms(2,1) by (induction ts ps rule: list_induct2) (simp_all add: wire_struct_init small)
  from writer_loop_capture [OF header_ok_init this, of "[]"]
  show "CaptureWriter_run (zip ts (map (StructPacket \<circ> wire_struct) ps)) = Inr (capture (zip ts (map wire ps)))"
    by (simp add: CaptureWriter_run_def)
  have "list_all small (zip ts (map wire ps))"
    using assms(2,1) by (induction ts ps rule: list_induct2) (simp_all add: small)
  then show "read_all (capture (zip ts (map wire ps))) 0 = Inr (zip ts (map wire ps))"
    using read_all_capture [of "zip ts (map wire ps)" "[]"] by simp
  show "capture_args (zip ts (map wire ps)) = map (virtual_args \<circ> wire_struct) ps"
    using assms(2,1) by (induction ts ps rule: list_induct2) (simp_all add: capture_args_def wire_struct_init)
qed

text \<open>
  C37. What is captured of a virtual disk can be replayed: whatever commands the capture process gets, the file that the writer makes of
  its output replays to the activities of exactly those packets that were read while the process was not paused, in
  order and each with its own header and data, however the packets were cut on their way from the introspection server.
\<close>

theorem captured_activity_replayed:
  assumes "\<forall>p \<in> set ps. proper_packet p" "[] \<notin> set cs" "concat cs = concat (map wire ps)" "headers_whole ps cs"
    and "length ts = min (reading_turns cmds False) (length ps)"
  shows "\<exists>file. CaptureWriter_run (zip ts (map StructPacket (snd (dcap_run cmds (map (Inr \<circ> Some) (read_packets [cs])))))) = Inr file \<and>
    replay g Virtual access v file =
      Inr (fold bump (map activity_of (engine_ops access
        (map (virtual_args \<circ> wire_struct) (take (reading_turns cmds False) ps)) v)) [])"
proof -
  let ?ps = "take (reading_turns cmds False) ps"
  have proper: "\<forall>p \<in> set ?ps. proper_packet p" using assms(1) by (meson in_set_takeD)
  have len: "length ts = length ?ps" using assms(5) by (simp add: min.commute)
  have "snd (dcap_run cmds (map (Inr \<circ> Some) (read_packets [cs]))) = map wire_struct ?ps"
    using read_packets_whole [OF assms(1-4)] dcap_loop_takes [of cmds "map wire_struct ps" False "[]"]
    by (simp add: dcap_run_def take_map)
  then show ?thesis
    using wire_capture [OF proper len] replay_counts [of "capture (zip ts (map wire ?ps))" "zip ts (map wire ?ps)" g access v]
    by (simp add: comp_def)
qed

text \<open>
  Pausing a network capture ends it: the packets read before the command are all that is ever put out, whatever commands follow and
  whatever the network would deliver.
\<close>

theorem network_pause_ends_capture:
  "network_run (replicate (length ps) None @ Some CMD_PAUSE # cmds) (map (Inr \<circ> Some) ps @ reads) = (Raised NameError, ps)"
  by (simp add: network_run_def network_loop_turns) (simp add: capture_command_def CMD_PAUSE_def)

text \<open>A capture of a disk is only suspended by the same commands and goes on with the next packet.\<close>

theorem dcap_resumes:
  "dcap_run (replicate (length ps) None @ Some CMD_PAUSE # replicate n None @ Some CMD_UNPAUSE # replicate (length qs) None @ [Some CMD_STOP])
     (map (Inr \<circ> Some) (ps @ q # qs)) = (Ended, ps @ q # qs)"
proof -
  have run: "dcap_loop (replicate (length xs) None @ cs) (map (Inr \<circ> Some) (xs @ ys)) False out =
      dcap_loop cs (map (Inr \<circ> Some) ys) False (out @ xs)" for xs ys :: "'a list" and cs out
    by (induction xs arbitrary: out) (simp_all add: capture_command_def)
  have asleep: "dcap_loop (replicate n None @ cs) rs True out = dcap_loop cs rs True out" for cs out and rs :: "'a option res list"
    by (induction n) (simp_all add: capture_command_def)
  have "dcap_loop (Some CMD_UNPAUSE # replicate (length qs) None @ [Some CMD_STOP]) (map (Inr \<circ> Some) (q # qs)) True ps =
      dcap_loop [Some CMD_STOP] [] False (ps @ q # qs)"
    using run [of qs "[Some CMD_STOP]" "[]" "ps @ [q]"]
    by (simp add: capture_command_def CMD_PAUSE_def CMD_UNPAUSE_def CMD_KILL_def CMD_STOP_def)
  moreover have "dcap_loop [Some CMD_STOP] [] False (ps @ q # qs) = (Ended, ps @ q # qs)"
    by (simp add: capture_command_def CMD_PAUSE_def CMD_UNPAUSE_def CMD_KILL_def CMD_STOP_def)
  ultimately show ?thesis
    using run [of ps "Some CMD_PAUSE # replicate n None @ Some CMD_UNPAUSE # replicate (length qs) None @ [Some CMD_STOP]" "q # qs" "[]"]
    by (simp add: dcap_run_def asleep) (simp add: asleep capture_command_def CMD_PAUSE_def)
qed

section \<open>The live engine and the replayed capture\<close>

lemma join_actions_from:
  "a \<in> set (join_actions ops cur n acts) \<Longrightarrow> a \<in> set acts \<or> (\<exists>o1 \<in> insert cur (set ops). op_type a = op_type o1 \<and> op_filename a = op_filename o1)"
  by (induction ops cur n acts rule: join_actions.induct) (fastforce split: if_splits)+

lemma aggregate_from: "a \<in> set (aggregate ops) \<Longrightarrow> \<exists>o1 \<in> set ops. op_type a = op_type o1 \<and> op_filename a = op_filename o1"
  by (cases ops) (auto simp: aggregate_def dest: join_actions_from)

lemma change_rows_text: "(t, ty, fn, sec, txt) \<in> set (change_rows strftime key_order now a sd) \<Longrightarrow> txt \<noteq> []"
  by (auto simp: change_rows_def split: option.splits)

text \<open>A report about operations of a list.\<close>

definition rows_from :: "fs_operation list \<Rightarrow> row list \<Rightarrow> bool" where
  "rows_from ops rows \<longleftrightarrow>
     (\<forall>(t, ty, fn, sec, txt) \<in> set rows. txt = [] \<longrightarrow> (\<exists>o1 \<in> set ops. ty = op_type o1 \<and> fn = Some (op_filename o1)))"

lemma parse_actions_from:
  assumes "parse_actions strftime key_order now (Some ops) = Some rows" "set ops \<subseteq> set all"
  shows "rows_from all rows"
proof -
  have "rows = concat (map (action_rows strftime key_order now) (aggregate ops))"
    using assms(1) by (simp add: parse_actions_def split: if_splits)
  then show ?thesis using assms(2)
    by (fastforce simp: rows_from_def action_rows_def dest: aggregate_from change_rows_text)
qed

lemma rows_from_mono: "rows_from ops rows \<Longrightarrow> set ops \<subseteq> set all \<Longrightarrow> rows_from all rows"
  by (fastforce simp: rows_from_def)

lemma disk_command_agrees:
  "fst (disk_command cmd s) = fst (capture_command cmd (live_paused s))"
  "live_paused (snd (disk_command cmd s)) = snd (capture_command cmd (live_paused s))"
  "live_engine (snd (disk_command cmd s)) = live_engine s" "live_reports (snd (disk_command cmd s)) = live_reports s"
  by (auto simp: disk_command_def capture_command_def Let_def split: option.split)

lemma live_access_reports:
  assumes "rows \<in> set (live_reports (live_access access strftime key_order now a s))"
  shows "rows \<in> set (live_reports s) \<or> rows_from (engine_ops access (a # as) (live_engine s)) rows"
  using assms
  by (auto simp: live_access_def parse_actions_def split: prod.splits sum.splits option.splits if_splits
      intro!: parse_actions_from [where ops = "_ :: fs_operation list"])

lemma engine_ops_Cons:
  "set (engine_ops access as (live_engine (live_access access strftime key_order now a s))) \<subseteq> set (engine_ops access (a # as) (live_engine s))"
  by (auto simp: live_access_def split: prod.splits sum.splits option.splits)

lemma live_access_paused [simp]: "live_paused (live_access access strftime key_order now a s) = live_paused s"
  by (simp add: live_access_def split: prod.splits sum.splits)

lemma live_loop_reports:
  assumes "rows \<in> set (live_reports (snd (live_loop g Virtual access strftime key_order turns (map (Inr \<circ> Some) ps) s)))"
  shows "rows \<in> set (live_reports s) \<or>
    rows_from (engine_ops access (map virtual_args (take (reading_turns (map fst turns) (live_paused s)) ps)) (live_engine s)) rows"
  using assms
proof (induction turns arbitrary: ps s)
  case (Cons turn turns)
  obtain cmd now where turn: "turn = (cmd, now)" by (cases turn)
  obtain stop s1 where c: "disk_command cmd s = (stop, s1)" by (cases "disk_command cmd s")
  have cc: "capture_command cmd (live_paused s) = (stop, live_paused s1)"
    using disk_command_agrees(1,2) [of cmd s] c by (simp add: prod_eq_iff)
  have s1: "live_engine s1 = live_engine s" "live_reports s1 = live_reports s"
    using disk_command_agrees(3,4) [of cmd s] c by simp_all
  consider "stop" | "\<not> stop" "live_paused s1" | "\<not> stop" "\<not> live_paused s1" by blast
  then show ?case
  proof cases
    case 3
    show ?thesis
    proof (cases ps)
      case (Cons p qs)
      let ?s = "live_access access strftime key_order now (virtual_args p) (s1\<lparr>linked := True\<rparr>)"
      let ?as = "map virtual_args (take (reading_turns (map fst turns) (live_paused s1)) qs)"
      have all: "map virtual_args (take (reading_turns (map fst (turn # turns)) (live_paused s)) ps) = virtual_args p # ?as"
        using Cons 3 cc turn by simp
      have "rows \<in> set (live_reports (snd (live_loop g Virtual access strftime key_order turns (map (Inr \<circ> Some) qs) ?s)))"
        using Cons.prems Cons 3 c turn by (simp add: live_packet_def comp_def)
      from Cons.IH [OF this] have "rows \<in> set (live_reports ?s) \<or> rows_from (engine_ops access ?as (live_engine ?s)) rows" by simp
      then show ?thesis
        using live_access_reports [of rows access strftime key_order now "virtual_args p" "s1\<lparr>linked := True\<rparr>" ?as]
          rows_from_mono [OF _ engine_ops_Cons [of access ?as strftime key_order now "virtual_args p" "s1\<lparr>linked := True\<rparr>"]] s1
        unfolding all by auto
    qed (use Cons.prems 3 c turn s1 in auto)
  next
    case 2
    then show ?thesis using Cons.prems Cons.IH [of ps s1] c cc turn s1 by simp
  qed (use Cons c cc turn s1 in auto)
qed simp

lemma live_init_simps [simp]: "live_paused (live_init v) = False" "live_engine (live_init v) = v" "live_reports (live_init v) = []"
  by (simp_all add: live_init_def)

text \<open>
  C38. The replay of a capture misses nothing that an engine would have reported while the machine ran: with the same packets of a virtual disk
  and the same commands, whatever operation on whatever file stands in a row of the live report is an activity of the replayed capture.
\<close>

theorem live_report_in_replay:
  assumes "\<forall>p \<in> set ps. proper_packet p" "[] \<notin> set cs" "concat cs = concat (map wire ps)" "headers_whole ps cs"
    and "length ts = min (reading_turns (map fst turns) False) (length ps)"
    and "rows \<in> set (live_reports (snd (live_loop g Virtual access strftime key_order turns
           (map (Inr \<circ> Some) (read_packets [cs])) (live_init v))))" and "(t, ty, fn, sec, []) \<in> set rows"
  shows "\<exists>file d f inode. CaptureWriter_run (zip ts (map StructPacket (snd (dcap_run (map fst turns)
      (map (Inr \<circ> Some) (read_packets [cs])))))) = Inr file \<and>
    replay g Virtual access v file = Inr d \<and> fn = Some f \<and> (ty, f, inode) \<in> fst ` set d"
proof -
  let ?k = "reading_turns (map fst turns) False"
  let ?ops = "engine_ops access (map virtual_args (take ?k (map wire_struct ps))) v"
  have r: "read_packets [cs] = map wire_struct ps" using read_packets_whole [OF assms(1-4)] .
  have "rows_from ?ops rows"
    using live_loop_reports [OF assms(6)] by (simp add: r)
  then obtain o1 where o1: "o1 \<in> set ?ops" "ty = op_type o1" "fn = Some (op_filename o1)"
    using assms(7) by (fastforce simp: rows_from_def)
  let ?ps = "take ?k ps"
  have proper: "\<forall>p \<in> set ?ps. proper_packet p" using assms(1) by (meson in_set_takeD)
  have len: "length ts = length ?ps" using assms(5) by (simp add: min.commute)
  have out: "snd (dcap_run (map fst turns) (map (Inr \<circ> Some) (read_packets [cs]))) = map wire_struct ?ps"
    using dcap_loop_takes [of "map fst turns" "map wire_struct ps" False "[]"] by (simp add: r dcap_run_def take_map)
  have "replay g Virtual access v (capture (zip ts (map wire ?ps))) = Inr (fold bump (map activity_of ?ops) [])"
    using replay_counts [OF wire_capture(2) [OF proper len], of g access v]
    by (simp add: wire_capture(3) [OF proper len] take_map comp_def)
  moreover have "(ty, op_filename o1, op_inode o1) \<in> fst ` set (fold bump (map activity_of ?ops) [])"
    using o1 by (auto simp: fst_counted activity_of_def)
  ultimately show ?thesis using o1(3) wire_capture(1) [OF proper len] unfolding out
    by (intro exI [of _ "capture (zip ts (map wire ?ps))"] exI [of _ "fold bump (map activity_of ?ops) []"] exI [of _ "op_filename o1"]
        exI [of _ "op_inode o1"]) (simp add: comp_def)
qed

text \<open>
  The engine of a physical machine ends with its first frame, whatever that is: as the modules stand no frame can be decoded, and this
  is not caught.
\<close>

theorem physical_engine_ends:
  assumes "\<not> live_paused s"
  shows "\<exists>e s'. live_loop module_globals Physical access strftime key_order ((None, now) # turns) (Inr (Some p) # reads) s = (Raised e, s')"
proof -
  have "\<exists>e. live_packet module_globals Physical access strftime key_order now p s1 = Inl e" for s1 :: "'a live"
    by (auto simp: live_packet_def extract_sata_data_def module_globals_def name_def extract_header_def unpack_net_def
        Let_def bindE_def split: option.splits sum.splits)
  then obtain e where "live_packet module_globals Physical access strftime key_order now p (s\<lparr>linked := True\<rparr>) = Inl e" by blast
  then show ?thesis using assms by (simp add: disk_command_def)
qed

text \<open>
  A disk engine that was constructed for a machine with a disk sensor gets the commands to pause and to resume it in the order of the calls,
  and can be stopped once.  Stopping it again raises, as does starting an engine of a machine without a disk sensor.
\<close>

lemma engine_put_started:
  assumes "constructed s" "has_process s" "commands s = Some q"
  shows "forS engine_put cs s = (Inr (), s\<lparr>commands := Some (q @ cs)\<rparr>)"
  using assms
proof (induction cs arbitrary: s q)
  case (Cons c cs)
  have "engine_put c s = (Inr (), s\<lparr>commands := Some (q @ [c])\<rparr>)"
    using Cons.prems by (simp add: engine_put_def engine_attribute_def thenS_Inr)
  then show ?case using Cons.IH [of "s\<lparr>commands := Some (q @ [c])\<rparr>" "q @ [c]"] Cons.prems by (simp add: thenS_Inr)
qed (metis engine_object.surjective engine_object.update_convs(3) forS.simps(1) returnS_at append_Nil2)

theorem disk_engine_life:
  "\<exists>s1 s2. thenS disk_analysis_start (forS engine_put cs) (disk_analysis_init True) = (Inr (), s1) \<and>
     has_process s1 \<and> commands s1 = Some cs \<and>
     disk_analysis_stop s1 = (Inr (), s2) \<and> \<not> has_process s2 \<and> \<not> sensor_linked s2 \<and> fst (disk_analysis_stop s2) = Inl AttributeError \<and>
     fst (disk_analysis_start (disk_analysis_init False)) = Inl AttributeError"
proof -
  let ?s = "blank_object\<lparr>commands := Some [], sensor_linked := True, has_process := True\<rparr>"
  have "disk_analysis_start (disk_analysis_init True) = (Inr (), ?s)"
    by (simp add: disk_analysis_start_def disk_analysis_init_def engine_attribute_def blank_object_def thenS_Inr)
  moreover have "forS engine_put cs ?s = (Inr (), ?s\<lparr>commands := Some ([] @ cs)\<rparr>)"
    by (rule engine_put_started) (simp_all add: blank_object_def)
  ultimately have "thenS disk_analysis_start (forS engine_put cs) (disk_analysis_init True) = (Inr (), ?s\<lparr>commands := Some cs\<rparr>)"
    by (simp add: thenS_Inr)
  moreover have "fst (disk_analysis_start (disk_analysis_init False)) = Inl AttributeError"
    by (simp add: disk_analysis_start_def disk_analysis_init_def engine_attribute_def blank_object_def thenS_def bindS_def)
  moreover have "disk_analysis_stop (?s\<lparr>commands := Some cs\<rparr>) = (Inr (), blank_object)"
    by (simp add: disk_analysis_stop_def engine_attribute_def blank_object_def thenS_def bindS_def)
  moreover have "fst (disk_analysis_stop blank_object) = Inl AttributeError"
    by (simp add: disk_analysis_stop_def engine_attribute_def blank_object_def thenS_def bindS_def)
  ultimately show ?thesis
    by (intro exI [of _ "?s\<lparr>commands := Some cs\<rparr>"] exI [of _ blank_object]) (simp add: blank_object_def)
qed

section \<open>Witnesses\<close>

text \<open>Two packets, the second cut behind its header.\<close>

definition demo_pieces :: "bytes list" where
  "demo_pieces = [fst sample_packet @ [7], [8, 9] @ fst sample_packet, [7, 8, 9]]"

lemma demo_pieces_ok:
  "\<forall>p \<in> set [sample_packet, sample_packet]. proper_packet p" "[] \<notin> set demo_pieces"
  "concat demo_pieces = concat (map wire [sample_packet, sample_packet])" "headers_whole [sample_packet, sample_packet] demo_pieces"
  by (simp_all add: demo_pieces_def sample_packet_def header_size_eq)

theorem captured_activity_replayed_witness:
  "\<exists>file. CaptureWriter_run (zip [5] (map StructPacket (snd (dcap_run [None, Some CMD_PAUSE]
       (map (Inr \<circ> Some) (read_packets [demo_pieces])))))) = Inr file \<and>
     replay module_globals Virtual demo_access () file =
       Inr (fold bump (map activity_of (engine_ops demo_access (map (virtual_args \<circ> wire_struct) [sample_packet]) ())) [])"
proof -
  have k: "reading_turns [None, Some CMD_PAUSE] False = 1" by code_simp
  have "length [5 :: 32 word] = min (reading_turns [None, Some CMD_PAUSE] False) (length [sample_packet, sample_packet])"
    unfolding k by simp
  from captured_activity_replayed [OF demo_pieces_ok this, of module_globals demo_access "()", unfolded k]
  show ?thesis by simp
qed

theorem physical_engine_ends_witness:
  "\<exists>e s'. live_loop module_globals Physical demo_access int_str id [(None, 0)] [Inr (Some (wire_struct sample_packet))] (live_init ()) = (Raised e, s')"
  by (rule physical_engine_ends) simp

lemma demo_live:
  "[(1, ''[CONTENT WRITE]'', Some ''/a'', 1, [])] \<in> set (live_reports (snd (live_loop module_globals Virtual demo_access int_str id
      [(None, 1), (None, 2)] (map (Inr \<circ> Some) (read_packets [demo_pieces])) (live_init ()))))"
  unfolding read_packets_whole [OF demo_pieces_ok]
  by (simp add: disk_command_def live_packet_def live_access_def demo_access_def virtual_args_def sample_packet_def ds_set_data_def live_init_def
      parse_actions_def aggregate_def action_rows_def fs_op_def)

theorem live_report_in_replay_witness:
  "\<exists>file d f inode. CaptureWriter_run (zip [5, 6] (map StructPacket (snd (dcap_run (map fst [(None, 1), (None, 2 :: int)])
       (map (Inr \<circ> Some) (read_packets [demo_pieces])))))) = Inr file \<and>
     replay module_globals Virtual demo_access () file = Inr d \<and> Some ''/a'' = Some f \<and> (''[CONTENT WRITE]'', f, inode) \<in> fst ` set d"
proof (rule live_report_in_replay [OF demo_pieces_ok _ demo_live])
  have "reading_turns (map fst [(None, 1), (None, 2 :: int)]) False = 2" by code_simp
  then show "length [5, 6 :: 32 word] = min (reading_turns (map fst [(None, 1), (None, 2 :: int)]) False) (length [sample_packet, sample_packet])"
    by simp
  show "(1, ''[CONTENT WRITE]'', Some ''/a'', 1, []) \<in> set [(1, ''[CONTENT WRITE]'', Some ''/a'', 1, [])]" by simp
qed

end
