(* ===== verification/GenericVolume.thy ===== *)
theory GenericVolume
  imports DiskEngine PyState PyText "HOL-Library.AList"
begin

text \<open>
  The reconstruction of \<^verbatim>\<open>disk/filesystems/__init__.py\<close> for volumes of any kind that the Sleuthkit can read, \<^verbatim>\<open>SemanticEngineVolumePyTSK\<close>, and
  the disk of such volumes, which the differential analysis of disks uses.  The files of a volume are a tree that the Sleuthkit lists; a
  table gives the file of each block.
\<close>

section \<open>Scanning a volume\<close>

text \<open>
  A file object of the Sleuthkit: its identity, its name, the number of its meta data if it has any, and address and length of the runs of
  all its attributes.  An entry of a directory that is a directory itself has entries.
\<close>

record gen_file =
  f_id :: nat
  f_name :: string
  f_meta :: "int option"
  f_runs :: "(int \<times> int) list"

datatype gen_entry = DirEntry gen_file bool "gen_entry list"

datatype run_error =
    DatarunOutOfBounds string int int
  | DatarunCollision string int string int int

record gen_volume =
  g_BLOCK_COUNT :: int
  g_BLOCK_SIZE :: int
  g_SECTOR_SIZE :: int
  g_VOLUME_OFFSET :: int
  fs_block_to_file :: "int \<rightharpoonup> gen_file"
  fs_file_to_path :: "nat \<rightharpoonup> string"
  g_error_log :: "run_error list"

text \<open>
  One turn of the loop of \<^verbatim>\<open>_add_run\<close>.  The bounds are tested in every turn; a block that another file has goes to the new one if either
  is a special file, if either has no meta data, or if both have the same; an empty name has no first character.
\<close>

definition log_error :: "run_error \<Rightarrow> (gen_volume, unit) pymethod" where
  "log_error e = setS (\<lambda>v. v\<lparr>g_error_log := g_error_log v @ [e]\<rparr>)"

definition own_block :: "gen_file \<Rightarrow> int \<Rightarrow> (gen_volume, unit) pymethod" where
  "own_block f b = setS (\<lambda>v. v\<lparr>fs_block_to_file := (fs_block_to_file v)(b \<mapsto> f)\<rparr>)"

definition gen_add_block :: "gen_file \<Rightarrow> int \<Rightarrow> int \<Rightarrow> int \<Rightarrow> (gen_volume, unit) pymethod" where
  "gen_add_block f block_addr len i v =
     (if len < 0 \<or> len > g_BLOCK_COUNT v \<or> block_addr < 0 \<or> block_addr + len > g_BLOCK_COUNT v then
        log_error (DatarunOutOfBounds (f_name f) len block_addr) v
      else case fs_block_to_file v (block_addr + i) of
          None \<Rightarrow> own_block f (block_addr + i) v
        | Some f2 \<Rightarrow>
            if f_name f = [] then raiseS IndexError v
            else if hd (f_name f) = CHR ''$'' then own_block f (block_addr + i) v
            else if f_name f2 = [] then raiseS IndexError v
            else if hd (f_name f2) = CHR ''$'' then own_block f (block_addr + i) v
            else case (f_meta f, f_meta f2) of
                (Some inode1, Some inode2) \<Rightarrow>
                  if inode1 \<noteq> inode2 then
                    log_error (DatarunCollision (f_name f) inode1 (f_name f2) inode2 (block_addr + i)) v
                  else own_block f (block_addr + i) v
              | _ \<Rightarrow> own_block f (block_addr + i) v)"

definition gen_add_run :: "gen_file \<Rightarrow> int \<Rightarrow> int \<Rightarrow> (gen_volume, unit) pymethod" where
  "gen_add_run f block_addr len = forS (gen_add_block f block_addr len) [0..len - 1]"

text \<open>\<^verbatim>\<open>_add_file\<close>: runs at address 0 are holes, except those of the boot record.\<close>

definition gen_add_file :: "gen_file \<Rightarrow> string \<Rightarrow> (gen_volume, unit) pymethod" where
  "gen_add_file f path =
     thenS (setS (\<lambda>v. v\<lparr>fs_file_to_path := (fs_file_to_path v)(f_id f \<mapsto> path)\<rparr>))
       (forS (\<lambda>(addr, len). if addr \<noteq> 0 \<or> f_name f = ''$Boot'' then gen_add_run f addr len else returnS ()) (f_runs f))"

fun scan_file_system :: "string \<Rightarrow> gen_entry list \<Rightarrow> (gen_volume, unit) pymethod" where
  "scan_file_system path [] = returnS ()"
| "scan_file_system path (DirEntry f is_dir entries # directory) =
     (if f_name f = ''.'' \<or> f_name f = ''..'' then scan_file_system path directory
      else let abs_filename = path_join path (f_name f) in
        thenS (gen_add_file f abs_filename)
       (thenS (if is_dir \<and> f_meta f \<noteq> None then scan_file_system abs_filename entries else returnS ())
              (scan_file_system path directory)))"

section \<open>Accesses\<close>

definition gen_sector_to_block :: "gen_volume \<Rightarrow> int \<Rightarrow> int" where
  "gen_sector_to_block v sector = (sector - g_VOLUME_OFFSET v) * g_SECTOR_SIZE v div g_BLOCK_SIZE v"

definition gen_lookup_block :: "gen_volume \<Rightarrow> int \<Rightarrow> gen_file option" where
  "gen_lookup_block v b = fs_block_to_file v b"

text \<open>The files seen so far, each once, and the blocks of each path.\<close>

record walked =
  w_files :: "gen_file list"
  w_blocks :: "(string \<times> int list) list"

definition note_block :: "gen_volume \<Rightarrow> int \<Rightarrow> walked \<Rightarrow> walked res" where
  "note_block v fs_block w =
     (case gen_lookup_block v fs_block of
        None \<Rightarrow> Inr w
      | Some f \<Rightarrow>
          let w1 = (if f_id f \<in> f_id ` set (w_files w) then w else w\<lparr>w_files := w_files w @ [f]\<rparr>) in
          case fs_file_to_path v (f_id f) of
            None \<Rightarrow> Inl KeyError
          | Some path \<Rightarrow>
              Inr (w1\<lparr>w_blocks :=
                case map_of (w_blocks w1) path of
                  Some bs \<Rightarrow> AList.update path (bs @ [fs_block]) (w_blocks w1)
                | None \<Rightarrow> w_blocks w1 @ [(path, [fs_block])]\<rparr>))"

text \<open>The next sector that is in another block, or the end.\<close>

function skip_block :: "gen_volume \<Rightarrow> int \<Rightarrow> int \<Rightarrow> int \<Rightarrow> int \<Rightarrow> int" where
  "skip_block v sector sector_count fs_block i =
     (if fs_block = gen_sector_to_block v (sector + i) \<and> i < sector_count then skip_block v sector sector_count fs_block (i + 1) else i)"
  by pat_completeness auto
termination by (relation "measure (\<lambda>(v, sector, sector_count, fs_block, i). nat (sector_count - i))") auto

declare skip_block.simps [simp del]

text \<open>The loop over the sectors; if blocks are smaller than sectors its step is 0 and it does not end.\<close>

partial_function (option) walk :: "gen_volume \<Rightarrow> int \<Rightarrow> int \<Rightarrow> int \<Rightarrow> bool \<Rightarrow> walked \<Rightarrow> walked res option" where
  "walk v sector sector_count i first w =
     (if i < sector_count then
        let fs_block = gen_sector_to_block v (sector + i) in
        (case note_block v fs_block w of
           Inl e \<Rightarrow> Some (Inl e)
         | Inr w1 \<Rightarrow>
             walk v sector sector_count
               (if first then skip_block v sector sector_count fs_block (i + 1) else i + g_BLOCK_SIZE v div g_SECTOR_SIZE v) False w1)
      else Some (Inr w))"

declare walk.simps [code]

type_synonym gen_output = "(string \<times> int list \<times> string \<times> bytes) list"

definition UPDATE_FILES :: "string list" where "UPDATE_FILES = [''$MFT'']"

text \<open>
  The entries get the operation and the data.  A write to the master file table opens it again, which may raise, and starts over; what was
  opened is not used, so that the second walk finds what the first one found.
\<close>

definition gen_output_of :: "nat \<Rightarrow> bytes \<Rightarrow> walked \<Rightarrow> gen_output" where
  "gen_output_of direction data w =
     map (\<lambda>(path, bs). (path, bs, if direction = 0 then ''READ'' else ''WRITE'', data)) (w_blocks w)"

definition gen_access :: "(string \<Rightarrow> unit res) \<Rightarrow> int \<Rightarrow> int \<Rightarrow> nat \<Rightarrow> bytes \<Rightarrow> gen_volume \<Rightarrow> gen_output res option" where
  "gen_access reopen sector sector_count direction data v =
     (case walk v sector sector_count 0 True \<lparr>w_files = [], w_blocks = []\<rparr> of
        None \<Rightarrow> None
      | Some (Inl e) \<Rightarrow> Some (Inl e)
      | Some (Inr w) \<Rightarrow>
          (case filter (\<lambda>f. direction \<noteq> 0 \<and> f_name f \<in> set UPDATE_FILES) (w_files w) of
             [] \<Rightarrow> Some (Inr (gen_output_of direction data w))
           | f # _ \<Rightarrow>
               (case fs_file_to_path v (f_id f) of
                  None \<Rightarrow> Some (Inl KeyError)
                | Some path \<Rightarrow>
                    (case reopen path of
                       Inl e \<Rightarrow> Some (Inl e)
                     | Inr _ \<Rightarrow> Some (Inr (gen_output_of direction data w))))))"

section \<open>Disks\<close>

text \<open>
  The disk: a volume with the description of NTFS has its own engine, here the argument \<open>ntfs\<close>; one that the Sleuthkit cannot open has
  none, and an access to it is reported as such.
\<close>

datatype 'n gen_engine = NonFilesystem | GenericEngine gen_volume | NtfsEngine 'n

record 'n gen_disk_volume =
  gv_start :: int
  gv_desc :: string
  gv_engine :: "'n gen_engine"

datatype access_result =
    NoAccess
  | NonFsOp string int bytes
  | Operations "fs_operation list option"
  | FileDict gen_output

definition gen_volume_init :: "int \<Rightarrow> int \<Rightarrow> int \<Rightarrow> int \<Rightarrow> gen_entry list \<Rightarrow> gen_volume res" where
  "gen_volume_init bcount bsize ssize start root =
     (case scan_file_system [] root
        \<lparr>g_BLOCK_COUNT = bcount, g_BLOCK_SIZE = bsize, g_SECTOR_SIZE = ssize, g_VOLUME_OFFSET = start,
         fs_block_to_file = Map.empty, fs_file_to_path = Map.empty, g_error_log = []\<rparr> of
       (Inl e, v) \<Rightarrow> Inl e
     | (Inr _, v) \<Rightarrow> Inr v)"

text \<open>\<open>fs\<close> is what the Sleuthkit finds in the volume: block count, block size and the root directory, or nothing.\<close>

definition gen_add_volume ::
  "(int \<Rightarrow> 'n option res) \<Rightarrow> int \<Rightarrow> int \<times> string \<Rightarrow> (int \<times> int \<times> gen_entry list) option \<Rightarrow> 'n gen_disk_volume res" where
  "gen_add_volume ntfs_init ssize vol fs =
     (case vol of (start, desc) \<Rightarrow>
        if desc = ''NTFS (0x07)'' then
          bindE (ntfs_init start) (\<lambda>n. Inr \<lparr>gv_start = start, gv_desc = desc,
            gv_engine = (case n of None \<Rightarrow> NonFilesystem | Some e \<Rightarrow> NtfsEngine e)\<rparr>)
        else (case fs of
            None \<Rightarrow> Inr \<lparr>gv_start = start, gv_desc = desc, gv_engine = NonFilesystem\<rparr>
          | Some (bcount, bsize, root) \<Rightarrow>
              bindE (gen_volume_init bcount bsize ssize start root) (\<lambda>v.
                Inr \<lparr>gv_start = start, gv_desc = desc, gv_engine = GenericEngine v\<rparr>)))"

definition gen_get_volume :: "'n gen_disk_volume list \<Rightarrow> int \<Rightarrow> nat option res" where
  "gen_get_volume VOLUMES sector =
     (let idx = bisect (map gv_start VOLUMES) sector in
      if length VOLUMES < idx then Inr None
      else if idx = 0 then (if VOLUMES = [] then Inl IndexError else Inr (Some (length VOLUMES - 1)))
      else Inr (Some (idx - 1)))"

definition gen_disk_access ::
  "(string \<Rightarrow> unit res) \<Rightarrow> (int \<Rightarrow> int \<Rightarrow> nat \<Rightarrow> bytes \<Rightarrow> ('n, fs_operation list option) pymethod) \<Rightarrow>
   int \<Rightarrow> int \<Rightarrow> nat \<Rightarrow> bytes \<Rightarrow> 'n gen_disk_volume list \<Rightarrow> (access_result res \<times> 'n gen_disk_volume list) option" where
  "gen_disk_access reopen ntfs sector sector_count direction data VOLUMES =
     (case gen_get_volume VOLUMES sector of
        Inl e \<Rightarrow> Some (Inl e, VOLUMES)
      | Inr None \<Rightarrow> Some (Inr NoAccess, VOLUMES)
      | Inr (Some i) \<Rightarrow>
          (case gv_engine (VOLUMES ! i) of
             NonFilesystem \<Rightarrow>
               Some (Inr (NonFsOp (if direction = DIRECTION_WRITE then ''WRITE'' else ''READ'') sector data), VOLUMES)
           | GenericEngine v \<Rightarrow>
               map_option (\<lambda>r. (map_sum id FileDict r, VOLUMES)) (gen_access reopen sector sector_count direction data v)
           | NtfsEngine n \<Rightarrow>
               (case ntfs sector sector_count direction data n of
                  (r, n1) \<Rightarrow> Some (map_sum id Operations r, VOLUMES[i := (VOLUMES ! i)\<lparr>gv_engine := NtfsEngine n1\<rparr>]))))"

section \<open>Scanned volumes\<close>

text \<open>Every block that has a file lies in the volume, and its file has a path.\<close>

definition vol_ok :: "int \<Rightarrow> gen_volume \<Rightarrow> bool" where
  "vol_ok n v \<longleftrightarrow> g_BLOCK_COUNT v = n \<and>
     (\<forall>b f. fs_block_to_file v b = Some f \<longrightarrow> 0 \<le> b \<and> b < n \<and> fs_file_to_path v (f_id f) \<noteq> None)"

definition has_path :: "gen_file \<Rightarrow> gen_volume \<Rightarrow> bool" where
  "has_path f v \<longleftrightarrow> fs_file_to_path v (f_id f) \<noteq> None"

lemma own_block_ok: "0 \<le> b \<Longrightarrow> b < n \<Longrightarrow> keeps (\<lambda>v. vol_ok n v \<and> has_path f v) (own_block f b)"
  unfolding own_block_def by (rule keeps_setS) (auto simp: vol_ok_def has_path_def split: if_splits)

lemma log_error_ok: "keeps (\<lambda>v. vol_ok n v \<and> has_path f v) (log_error e)"
  unfolding log_error_def by (rule keeps_setS) (auto simp: vol_ok_def has_path_def)

lemma gen_add_block_ok:
  assumes "0 \<le> i" "i < len"
  shows "keeps (\<lambda>v. vol_ok n v \<and> has_path f v) (gen_add_block f block_addr len i)"
proof
  fix v
  assume v: "vol_ok n v \<and> has_path f v"
  have own: "vol_ok n (snd (own_block f (block_addr + i) v)) \<and> has_path f (snd (own_block f (block_addr + i) v))"
    if "0 \<le> block_addr" "block_addr + len \<le> n" using keepsD [OF own_block_ok v] that assms by simp
  have log: "vol_ok n (snd (log_error e v)) \<and> has_path f (snd (log_error e v))" for e
    using keepsD [OF log_error_ok v] by simp
  have "g_BLOCK_COUNT v = n" using v by (simp add: vol_ok_def)
  with own log v show "vol_ok n (snd (gen_add_block f block_addr len i v)) \<and> has_path f (snd (gen_add_block f block_addr len i v))"
    unfolding gen_add_block_def by (simp split: option.split)
qed

lemma gen_add_file_ok: "keeps (vol_ok n) (gen_add_file f path)"
proof
  fix v
  assume "vol_ok n v"
  then have set: "vol_ok n w \<and> has_path f w" if "w = v\<lparr>fs_file_to_path := (fs_file_to_path v)(f_id f \<mapsto> path)\<rparr>" for w
    using that by (auto simp: vol_ok_def has_path_def)
  have "keeps (\<lambda>v. vol_ok n v \<and> has_path f v)
      (forS (\<lambda>(addr, len). if addr \<noteq> 0 \<or> f_name f = ''$Boot'' then gen_add_run f addr len else returnS ()) (f_runs f))"
    by (rule keeps_forS) (auto simp: gen_add_run_def split: prod.splits intro!: keeps_intros gen_add_block_ok)
  from keepsD [OF this set [OF refl]] show "vol_ok n (snd (gen_add_file f path v))"
    by (simp add: gen_add_file_def)
qed

lemma scan_keeps:
  assumes "\<And>f p. keeps P (gen_add_file f p)"
  shows "keeps P (scan_file_system path directory)"
proof (induction path directory rule: scan_file_system.induct)
  case (2 path f is_dir entries directory)
  then show ?case using assms by (auto simp: Let_def keeps_pure intro!: keeps_thenS)
qed (simp add: keeps_def)

lemma gen_init_ok:
  assumes "gen_volume_init n bsize ssize start root = Inr v"
  shows "vol_ok n v"
proof -
  let ?v = "\<lparr>g_BLOCK_COUNT = n, g_BLOCK_SIZE = bsize, g_SECTOR_SIZE = ssize, g_VOLUME_OFFSET = start,
         fs_block_to_file = Map.empty, fs_file_to_path = Map.empty, g_error_log = []\<rparr>"
  have "vol_ok n (snd (scan_file_system [] root ?v))" using keepsD [OF scan_keeps, OF gen_add_file_ok, of n ?v] by (simp add: vol_ok_def)
  then show ?thesis using assms by (simp add: gen_volume_init_def split: prod.splits sum.splits)
qed

text \<open>Scanning keeps the geometry of the volume.\<close>

definition gen_geometry :: "int \<Rightarrow> int \<Rightarrow> int \<Rightarrow> gen_volume \<Rightarrow> bool" where
  "gen_geometry bsize ssize start v \<longleftrightarrow> g_BLOCK_SIZE v = bsize \<and> g_SECTOR_SIZE v = ssize \<and> g_VOLUME_OFFSET v = start"

lemma gen_add_block_geometry: "keeps (gen_geometry a b c) (gen_add_block f addr len i)"
  by (auto simp: keeps_def gen_add_block_def gen_geometry_def own_block_def log_error_def split: option.splits)

lemma gen_add_file_geometry: "keeps (gen_geometry a b c) (gen_add_file f path)"
  unfolding gen_add_file_def gen_add_run_def
  by (rule keeps_thenS) (auto simp: gen_geometry_def intro!: keeps_setS keeps_forS keeps_pure gen_add_block_geometry split: prod.splits)

lemma gen_init_geometry:
  assumes "gen_volume_init n bsize ssize start root = Inr v"
  shows "gen_geometry bsize ssize start v"
proof -
  let ?v = "\<lparr>g_BLOCK_COUNT = n, g_BLOCK_SIZE = bsize, g_SECTOR_SIZE = ssize, g_VOLUME_OFFSET = start,
         fs_block_to_file = Map.empty, fs_file_to_path = Map.empty, g_error_log = []\<rparr>"
  have "gen_geometry bsize ssize start (snd (scan_file_system [] root ?v))"
    using keepsD [OF scan_keeps, OF gen_add_file_geometry, of bsize ssize start ?v] by (simp add: gen_geometry_def)
  then show ?thesis using assms by (simp add: gen_volume_init_def split: prod.splits sum.splits)
qed

section \<open>Walking over an access\<close>

fun note_blocks :: "gen_volume \<Rightarrow> int list \<Rightarrow> walked \<Rightarrow> walked res" where
  "note_blocks v [] w = Inr w"
| "note_blocks v (b # bs) w = bindE (note_block v b w) (note_blocks v bs)"

lemma gen_block_div:
  assumes "0 < g_SECTOR_SIZE v" "g_BLOCK_SIZE v = k * g_SECTOR_SIZE v"
  shows "gen_sector_to_block v s = (s - g_VOLUME_OFFSET v) div k"
  using assms by (simp add: gen_sector_to_block_def)

lemma div_less_mult:
  assumes "0 < k" "x < q * k"
  shows "x div k < (q :: int)"
proof (rule ccontr)
  assume "\<not> x div k < q"
  then have "q * k \<le> x div k * k" using assms(1) by (intro mult_right_mono) auto
  then show False using assms minus_mod_eq_div_mult [of x k] pos_mod_sign [of k x] by linarith
qed

lemma mult_le_div: "0 < k \<Longrightarrow> q * k \<le> x \<Longrightarrow> (q :: int) \<le> x div k"
  using zdiv_mono1 [of "q * k" x k] by simp

lemma skip_block_next:
  assumes "0 < g_SECTOR_SIZE v" "g_BLOCK_SIZE v = k * g_SECTOR_SIZE v" "0 < k"
    and "b * k \<le> sector + i - g_VOLUME_OFFSET v" "sector + i - g_VOLUME_OFFSET v \<le> (b + 1) * k" "i \<le> sector_count"
  shows "skip_block v sector sector_count b i = min sector_count ((b + 1) * k + g_VOLUME_OFFSET v - sector)"
  using assms
proof (induction v sector sector_count b i rule: skip_block.induct)
  case (1 v sector sector_count b i)
  let ?x = "sector + i - g_VOLUME_OFFSET v"
  have blk: "gen_sector_to_block v (sector + i) = ?x div k" by (rule gen_block_div) fact+
  show ?case
  proof (cases "?x < (b + 1) * k \<and> i < sector_count")
    case True
    then have "?x div k = b" using 1(4,5) by (simp add: int_div_pos_eq [of _ k b "?x - b * k"] algebra_simps)
    then show ?thesis using 1 True blk by (subst skip_block.simps) (simp add: algebra_simps)
  next
    case False
    have "\<not> (b = ?x div k \<and> i < sector_count)"
    proof
      assume a: "b = ?x div k \<and> i < sector_count"
      then have "?x = (b + 1) * k" using False 1(6) by simp
      then have "?x div k = b + 1" using 1(4) by (metis nonzero_mult_div_cancel_right less_irrefl)
      then show False using a by simp
    qed
    then have "skip_block v sector sector_count b i = i" unfolding blk [symmetric] by (subst skip_block.simps) (simp only: if_False)
    then show ?thesis using False 1(6,7) by (auto simp: min_def)
  qed
qed

lemma walk_aligned:
  assumes "0 < g_SECTOR_SIZE v" "g_BLOCK_SIZE v = k * g_SECTOR_SIZE v" "0 < k" "k dvd sector + i - g_VOLUME_OFFSET v"
  shows "walk v sector sector_count i False w =
    Some (note_blocks v [gen_sector_to_block v (sector + i)..gen_sector_to_block v (sector + sector_count - 1)] w)"
  using assms(4)
proof (induction "nat (sector_count - i)" arbitrary: i w rule: less_induct)
  case less
  note blk = gen_block_div [OF assms(1,2)]
  obtain q where q: "sector + i - g_VOLUME_OFFSET v = k * q" using less.prems by (auto simp: dvd_def)
  have b: "gen_sector_to_block v (sector + i) = q" using q assms(3) by (simp add: blk)
  show ?case
  proof (cases "i < sector_count")
    case False
    have "(sector + sector_count - 1 - g_VOLUME_OFFSET v) div k < q"
      using False q assms(3) by (intro div_less_mult) (simp_all add: mult.commute)
    then show ?thesis using False b by (subst walk.simps) (simp add: blk [of "sector + sector_count - 1"])
  next
    case True
    have "q \<le> (sector + sector_count - 1 - g_VOLUME_OFFSET v) div k"
      using True q assms(3) by (intro mult_le_div) (simp_all add: mult.commute)
    then have up: "[q..gen_sector_to_block v (sector + sector_count - 1)] = q # [q + 1..gen_sector_to_block v (sector + sector_count - 1)]"
      by (simp add: blk upto_rec1)
    have step: "g_BLOCK_SIZE v div g_SECTOR_SIZE v = k" using assms(1,2) by simp
    have q1: "sector + (i + k) - g_VOLUME_OFFSET v = k * (q + 1)" using q by (simp add: algebra_simps)
    then have b1: "gen_sector_to_block v (sector + (i + k)) = q + 1" using assms(3) by (simp add: blk)
    have "walk v sector sector_count (i + k) False w1 = Some (note_blocks v [q + 1..gen_sector_to_block v (sector + sector_count - 1)] w1)" for w1
      using less.hyps [of "i + k" w1] True assms(3) q1 unfolding b1 by simp
    then show ?thesis using True by (subst walk.simps) (simp add: b up step Let_def bindE_def split: sum.split)
  qed
qed

lemma walk_exact:
  assumes "0 < g_SECTOR_SIZE v" "g_BLOCK_SIZE v = k * g_SECTOR_SIZE v" "0 < k" "0 < sector_count"
  shows "walk v sector sector_count 0 True w =
    Some (note_blocks v [gen_sector_to_block v sector..gen_sector_to_block v (sector + sector_count - 1)] w)"
proof -
  note blk = gen_block_div [OF assms(1,2)]
  define x where "x = sector - g_VOLUME_OFFSET v"
  define b where "b = x div k"
  define e where "e = gen_sector_to_block v (sector + sector_count - 1)"
  have bx: "b * k \<le> x" "x < (b + 1) * k"
    unfolding b_def using assms(3) by (simp_all add: algebra_simps pos_mod_bound minus_mod_eq_mult_div [symmetric])
  let ?j = "(b + 1) * k + g_VOLUME_OFFSET v - sector"
  have skip: "skip_block v sector sector_count b (0 + 1) = min sector_count ?j"
    using assms bx by (intro skip_block_next) (auto simp: x_def)
  have e: "e = (x + sector_count - 1) div k" by (simp add: e_def blk x_def algebra_simps)
  have be: "b \<le> e" unfolding e b_def using assms(3,4) by (intro zdiv_mono1) auto
  have up: "[b..e] = b # [b + 1..e]" using be by (simp add: upto_rec1)
  have rest: "walk v sector sector_count (min sector_count ?j) False w1 = Some (note_blocks v [b + 1..e] w1)" for w1
  proof (cases "?j < sector_count")
    case True
    have "sector + ?j - g_VOLUME_OFFSET v = k * (b + 1)" by (simp add: algebra_simps)
    then have "walk v sector sector_count ?j False w1 = Some (note_blocks v [gen_sector_to_block v (sector + ?j)..e] w1)"
      "gen_sector_to_block v (sector + ?j) = b + 1"
      using walk_aligned [OF assms(1-3), of sector ?j sector_count w1] assms(3) by (simp_all add: e_def blk)
    then show ?thesis using True by (simp add: min_def)
  next
    case False
    then have "e < b + 1" unfolding e using assms(3) by (intro div_less_mult) (simp_all add: x_def)
    then show ?thesis using False by (subst walk.simps) (simp add: min_def)
  qed
  have first: "gen_sector_to_block v (sector + 0) = b" by (simp add: blk x_def b_def)
  show ?thesis
    unfolding e_def [symmetric] using assms(4) skip rest first up
    by (subst walk.simps) (simp add: Let_def bindE_def split: sum.split)
qed

section \<open>What an access reports\<close>

definition block_path :: "gen_volume \<Rightarrow> int \<Rightarrow> string option" where
  "block_path v b = (case fs_block_to_file v b of None \<Rightarrow> None | Some f \<Rightarrow> fs_file_to_path v (f_id f))"

text \<open>The blocks noted for the paths so far are those of a list, in its order.\<close>

definition noted :: "gen_volume \<Rightarrow> int list \<Rightarrow> walked \<Rightarrow> bool" where
  "noted v bs w \<longleftrightarrow> distinct (map fst (w_blocks w)) \<and>
     (\<forall>path. map_of (w_blocks w) path =
        (let l = filter (\<lambda>b. block_path v b = Some path) bs in if l = [] then None else Some l)) \<and>
     (\<forall>f \<in> set (w_files w). fs_file_to_path v (f_id f) \<noteq> None)"

lemma note_block_noted:
  assumes "vol_ok n v" "noted v bs w"
  shows "\<exists>w'. note_block v b w = Inr w' \<and> noted v (bs @ [b]) w'"
proof (cases "fs_block_to_file v b")
  case None
  then have "block_path v b = None" by (simp add: block_path_def)
  then show ?thesis using None assms(2) by (simp add: note_block_def gen_lookup_block_def noted_def)
next
  case (Some f)
  then obtain path where path: "fs_file_to_path v (f_id f) = Some path" using assms(1) unfolding vol_ok_def by blast
  then have b: "block_path v b = Some path" using Some by (simp add: block_path_def)
  let ?w1 = "if f_id f \<in> f_id ` set (w_files w) then w else w\<lparr>w_files := w_files w @ [f]\<rparr>"
  have w1: "w_blocks ?w1 = w_blocks w" "\<forall>g \<in> set (w_files ?w1). fs_file_to_path v (f_id g) \<noteq> None"
    using assms(2) path by (auto simp: noted_def)
  define l where "l = filter (\<lambda>b. block_path v b = Some path) bs"
  have old: "map_of (w_blocks w) path = (if l = [] then None else Some l)" using assms(2) by (simp add: noted_def l_def Let_def)
  let ?new = "case map_of (w_blocks w) path of Some bs \<Rightarrow> AList.update path (bs @ [b]) (w_blocks w) | None \<Rightarrow> w_blocks w @ [(path, [b])]"
  have keys: "map_of (w_blocks w) path = None \<Longrightarrow> path \<notin> fst ` set (w_blocks w)" by (simp add: map_of_eq_None_iff)
  have new: "map_of ?new = (map_of (w_blocks w))(path \<mapsto> l @ [b])" "distinct (map fst ?new)"
    using old keys assms(2) unfolding noted_def
    by (auto simp: update_conv' map_add_def fun_eq_iff distinct_update split: option.split if_splits)
  have "note_block v b w = Inr (?w1\<lparr>w_blocks := ?new\<rparr>)"
    using Some path by (cases "f_id f \<in> f_id ` set (w_files w)") (simp_all add: note_block_def gen_lookup_block_def Let_def split: option.split)
  moreover have "noted v (bs @ [b]) (?w1\<lparr>w_blocks := ?new\<rparr>)"
    unfolding noted_def using new w1(2) assms(2) b by (auto simp: noted_def Let_def l_def)
  ultimately show ?thesis by blast
qed

lemma note_blocks_noted:
  assumes "vol_ok n v" "noted v as w"
  shows "\<exists>w'. note_blocks v bs w = Inr w' \<and> noted v (as @ bs) w'"
  using assms(2)
proof (induction bs arbitrary: as w)
  case (Cons b bs)
  obtain w1 where w1: "note_block v b w = Inr w1" "noted v (as @ [b]) w1" using note_block_noted [OF assms(1) Cons.prems] by blast
  from Cons.IH [OF w1(2)] w1(1) show ?case by simp
qed simp

text \<open>
  C39. An access to a volume that was scanned without an exception, with blocks of whole sectors, is reported for exactly the files that own
  a block it touches: each path once, with all its blocks in order, and with the operation and its data.  The walk skips from block to
  block, but misses none.
\<close>

theorem generic_access_exact:
  assumes "gen_volume_init n bsize ssize start root = Inr v" "0 < ssize" "bsize = k * ssize" "0 < k" "0 < sector_count"
    and "\<And>path. reopen path = Inr ()"
  shows "\<exists>out. gen_access reopen sector sector_count direction data v = Some (Inr out) \<and> distinct (map fst out) \<and>
    (\<forall>path bs opr d. (path, bs, opr, d) \<in> set out \<longleftrightarrow>
       bs \<noteq> [] \<and> bs = filter (\<lambda>b. block_path v b = Some path)
         [(sector - start) div k..(sector + sector_count - 1 - start) div k] \<and>
       opr = (if direction = 0 then ''READ'' else ''WRITE'') \<and> d = data)"
proof -
  have g: "g_BLOCK_SIZE v = k * g_SECTOR_SIZE v" "0 < g_SECTOR_SIZE v" "g_VOLUME_OFFSET v = start"
    using gen_init_geometry [OF assms(1)] assms(2,3) by (simp_all add: gen_geometry_def)
  let ?bs = "[(sector - start) div k..(sector + sector_count - 1 - start) div k]"
  have ok: "vol_ok n v" using assms(1) by (rule gen_init_ok)
  have "noted v [] \<lparr>w_files = [], w_blocks = []\<rparr>" by (simp add: noted_def)
  from note_blocks_noted [OF ok this, of ?bs] obtain w where w: "note_blocks v ?bs \<lparr>w_files = [], w_blocks = []\<rparr> = Inr w" "noted v ?bs w"
    by auto
  have walk: "walk v sector sector_count 0 True \<lparr>w_files = [], w_blocks = []\<rparr> = Some (Inr w)"
    using walk_exact [OF g(2,1) assms(4,5)] w(1) by (simp add: gen_block_div [OF g(2,1)] g(3))
  have res: "gen_access reopen sector sector_count direction data v = Some (Inr (gen_output_of direction data w))"
  proof (cases "filter (\<lambda>f. direction \<noteq> 0 \<and> f_name f \<in> set UPDATE_FILES) (w_files w)")
    case Nil
    then show ?thesis by (simp add: gen_access_def walk)
  next
    case (Cons f fs)
    then have "f \<in> set (w_files w)" by (metis filter_is_subset list.set_intros(1) subsetD)
    then obtain path where "fs_file_to_path v (f_id f) = Some path" using w(2) unfolding noted_def by blast
    then show ?thesis using Cons assms(6) by (simp add: gen_access_def walk)
  qed
  have "(path, bs) \<in> set (w_blocks w) \<longleftrightarrow> bs \<noteq> [] \<and> bs = filter (\<lambda>b. block_path v b = Some path) ?bs" for path bs
  proof -
    have "distinct (map fst (w_blocks w))" using w(2) by (simp add: noted_def)
    then have "(path, bs) \<in> set (w_blocks w) \<longleftrightarrow> map_of (w_blocks w) path = Some bs" by simp
    then show ?thesis using w(2) by (auto simp: noted_def Let_def)
  qed
  then have "(path, bs, opr, d) \<in> set (gen_output_of direction data w) \<longleftrightarrow>
      bs \<noteq> [] \<and> bs = filter (\<lambda>b. block_path v b = Some path) ?bs \<and> opr = (if direction = 0 then ''READ'' else ''WRITE'') \<and> d = data"
    for path bs opr d unfolding gen_output_of_def by auto
  moreover have "map fst (gen_output_of direction data w) = map fst (w_blocks w)" by (simp add: gen_output_of_def case_prod_beta comp_def)
  moreover have "distinct (map fst (w_blocks w))" using w(2) by (simp add: noted_def)
  ultimately show ?thesis using res by (intro exI [of _ "gen_output_of direction data w"]) simp
qed

text \<open>
  If blocks are smaller than sectors, no access to more than one sector ever returns.
\<close>

theorem small_blocks_never_return:
  assumes "0 < g_BLOCK_SIZE v" "g_BLOCK_SIZE v < g_SECTOR_SIZE v" "1 < sector_count" "vol_ok n v"
  shows "gen_access reopen sector sector_count direction data v = None"
proof -
  have step: "g_BLOCK_SIZE v div g_SECTOR_SIZE v = 0" using assms(1,2) by simp
  have never: "walk v sector sector_count i False w = None" if i: "i < sector_count" and w: "noted v bs w" for i w bs
  proof (rule ccontr)
    assume "walk v sector sector_count i False w \<noteq> None"
    then obtain r where r: "walk v sector sector_count i False w = Some r" by blast
    have "\<not> (v = v \<and> \<not> False \<and> i < sector_count \<and> (\<exists>bs. noted v bs w))"
    proof (rule walk.raw_induct [where P = "\<lambda>u sec cnt i first w r. \<not> (u = v \<and> \<not> first \<and> i < cnt \<and> (\<exists>bs. noted v bs w))", OF _ r])
      fix walk u sec cnt i first w r
      assume IH: "\<And>u sec cnt i first w r. walk u sec cnt i first w = Some r \<Longrightarrow> \<not> (u = v \<and> \<not> first \<and> i < cnt \<and> (\<exists>bs. noted v bs w))"
        and r: "(if i < cnt then let fs_block = gen_sector_to_block u (sec + i)
           in case note_block u fs_block w of Inl e \<Rightarrow> Some (Inl e)
              | Inr w1 \<Rightarrow> walk u sec cnt (if first then skip_block u sec cnt fs_block (i + 1) else i + g_BLOCK_SIZE u div g_SECTOR_SIZE u) False w1
         else Some (Inr w)) = Some r"
      show "\<not> (u = v \<and> \<not> first \<and> i < cnt \<and> (\<exists>bs. noted v bs w))"
      proof
        assume a: "u = v \<and> \<not> first \<and> i < cnt \<and> (\<exists>bs. noted v bs w)"
        then obtain bs w1 where w1: "note_block v (gen_sector_to_block v (sec + i)) w = Inr w1" "noted v bs w1"
          using note_block_noted [OF assms(4)] by blast
        then have "walk v sec cnt i False w1 = Some r" using r a step by (simp add: Let_def)
        then show False using IH w1(2) a by blast
      qed
    qed
    then show False using i w by blast
  qed
  have empty: "noted v [] \<lparr>w_files = [], w_blocks = []\<rparr>" by (simp add: noted_def)
  obtain w1 where w1: "note_block v (gen_sector_to_block v sector) \<lparr>w_files = [], w_blocks = []\<rparr> = Inr w1"
    "noted v ([] @ [gen_sector_to_block v sector]) w1" using note_block_noted [OF assms(4) empty] by blast
  have "gen_sector_to_block v sector < gen_sector_to_block v (sector + 1)"
  proof -
    let ?x = "(sector - g_VOLUME_OFFSET v) * g_SECTOR_SIZE v"
    have "?x div g_BLOCK_SIZE v + 1 \<le> (?x + g_SECTOR_SIZE v) div g_BLOCK_SIZE v"
      using zdiv_mono1 [of "?x + g_BLOCK_SIZE v" "?x + g_SECTOR_SIZE v" "g_BLOCK_SIZE v"] assms(1,2) by (simp add: div_add_self2)
    then show ?thesis by (simp add: gen_sector_to_block_def algebra_simps)
  qed
  then have "skip_block v sector sector_count (gen_sector_to_block v sector) 1 = 1" by (subst skip_block.simps) simp
  then have "walk v sector sector_count 0 True \<lparr>w_files = [], w_blocks = []\<rparr> = None"
    using w1 assms(3) never [OF assms(3)] by (subst walk.simps) (simp add: Let_def)
  then show ?thesis by (simp add: gen_access_def)
qed

section \<open>Witnesses\<close>

text \<open>A volume from sector 63 on, with blocks of two sectors: a directory with a file of two runs, and a special file.\<close>

definition demo_root :: "gen_entry list" where
  "demo_root =
     [DirEntry \<lparr>f_id = 0, f_name = ''.'', f_meta = Some 5, f_runs = []\<rparr> True [],
      DirEntry \<lparr>f_id = 1, f_name = ''$MFT'', f_meta = Some 0, f_runs = [(2, 1)]\<rparr> False [],
      DirEntry \<lparr>f_id = 2, f_name = ''d'', f_meta = Some 7, f_runs = []\<rparr> True
        [DirEntry \<lparr>f_id = 3, f_name = ''a'', f_meta = Some 8, f_runs = [(0, 9), (3, 1), (5, 1)]\<rparr> False []]]"

definition demo_gen :: gen_volume where
  "demo_gen = snd (scan_file_system [] demo_root
     \<lparr>g_BLOCK_COUNT = 8, g_BLOCK_SIZE = 1024, g_SECTOR_SIZE = 512, g_VOLUME_OFFSET = 63,
      fs_block_to_file = Map.empty, fs_file_to_path = Map.empty, g_error_log = []\<rparr>)"

lemma demo_gen_init: "gen_volume_init 8 1024 512 63 demo_root = Inr demo_gen"
  by (simp add: demo_gen_def demo_root_def gen_volume_init_def gen_add_file_def gen_add_run_def gen_add_block_def own_block_def
      thenS_def bindS_def path_join_def upto_rec1 Let_def)

theorem generic_access_exact_witness:
  "\<exists>out. gen_access (\<lambda>p. Inr ()) 68 7 1 [9] demo_gen = Some (Inr out) \<and> (''d/a'', [3, 5], ''WRITE'', [9]) \<in> set out"
proof -
  have b: "block_path demo_gen 2 = Some ''$MFT''" "block_path demo_gen 3 = Some ''d/a''" "block_path demo_gen 4 = None"
    "block_path demo_gen 5 = Some ''d/a''"
    by (simp_all add: block_path_def demo_gen_def demo_root_def gen_add_file_def gen_add_run_def gen_add_block_def own_block_def
      thenS_def bindS_def path_join_def upto_rec1 Let_def)
  obtain out where out: "gen_access (\<lambda>p. Inr ()) 68 7 1 [9] demo_gen = Some (Inr out)"
    "\<And>path bs opr d. (path, bs, opr, d) \<in> set out \<longleftrightarrow> bs \<noteq> [] \<and> bs = filter (\<lambda>b. block_path demo_gen b = Some path)
         [(68 - 63) div 2..(68 + 7 - 1 - 63) div 2] \<and> opr = (if (1 :: nat) = 0 then ''READ'' else ''WRITE'') \<and> d = [9]"
    using generic_access_exact [OF demo_gen_init, of 2 7 "\<lambda>p. Inr ()" 68 1 "[9]"] by (auto simp del: filter_eq_Cons_iff)
  have "[(68 - 63) div 2..(68 + 7 - 1 - 63) div 2] = [2, 3, 4, 5 :: int]" by (simp add: upto_rec1)
  with out b show ?thesis by simp
qed

theorem small_blocks_never_return_witness:
  "gen_access (\<lambda>p. Inr ()) 100 2 0 [] (demo_gen\<lparr>g_BLOCK_SIZE := 256\<rparr>) = None"
proof (rule small_blocks_never_return [of _ _ 8])
  have "vol_ok 8 demo_gen" using demo_gen_init by (rule gen_init_ok)
  then show "vol_ok 8 (demo_gen\<lparr>g_BLOCK_SIZE := 256\<rparr>)" by (simp add: vol_ok_def)
  show "g_BLOCK_SIZE (demo_gen\<lparr>g_BLOCK_SIZE := 256\<rparr>) < g_SECTOR_SIZE (demo_gen\<lparr>g_BLOCK_SIZE := 256\<rparr>)"
    using gen_init_geometry [OF demo_gen_init] by (simp add: gen_geometry_def)
qed simp_all

end
