(* ===== verification/MftSession.thy ===== *)
theory MftSession
  imports PyState PyText
begin

text \<open>
  The reader of a whole master file table, \<^verbatim>\<open>MftSession\<close> of \<^verbatim>\<open>disk/filesystems/ntfs/__init__.py\<close>: records are parsed one after the
  other by the library analyzemft, here the argument \<open>parse\<close>, get a name and a parent, and from these the path of each file is put
  together.  Paths are found by following the parents, with a limit on the depth of calls.
\<close>

section \<open>Records\<close>

record fn_attr =
  fn_par_ref :: int
  fn_name :: string
  fn_nspace :: int

text \<open>An attribute has a type, a name and what else the parser put in.\<close>

type_synonym mft_attr = "int \<times> string \<times> bytes"

text \<open>The dictionary of a record; \<open>par_ref\<close> and \<open>rec_name\<close> are entries that it may lack.\<close>

record mft_record =
  fn :: "fn_attr list"
  attributes :: "mft_attr list"
  attribute_list :: "(int \<times> int \<times> string) list option"
  filename :: string
  par_ref :: "int option"
  rec_name :: "string option"

record mft_session =
  MFT_RAW :: bytes
  mft :: "int \<rightharpoonup> mft_record"

text \<open>
  Which name a record gets: of several names only the first and the last are looked at, the later of them that is a name of Windows
  wins, and if there is none the last name is taken.
\<close>

definition choose_name :: "fn_attr list \<Rightarrow> string" where
  "choose_name names =
     (let windows = filter (\<lambda>a. fn_nspace a = 1 \<or> fn_nspace a = 3) [hd names, last names] in
      if windows = [] then fn_name (last names) else fn_name (last windows))"

definition name_record :: "mft_record \<Rightarrow> mft_record" where
  "name_record r =
     (case fn r of
        [] \<Rightarrow> r
      | [a] \<Rightarrow> r\<lparr>par_ref := Some (fn_par_ref a), rec_name := Some (fn_name a)\<rparr>
      | a # _ \<Rightarrow> r\<lparr>par_ref := Some (fn_par_ref a), rec_name := Some (choose_name (fn r))\<rparr>)"

section \<open>Paths\<close>

definition set_filename :: "int \<Rightarrow> string \<Rightarrow> (mft_session, string) pymethod" where
  "set_filename seqnum f s =
     (Inr f, s\<lparr>mft := (mft s)(seqnum := map_option (\<lambda>r. r\<lparr>filename := f\<rparr>) (mft s seqnum))\<rparr>)"

fun get_folder_path :: "nat \<Rightarrow> int \<Rightarrow> (mft_session, string) pymethod" where
  "get_folder_path 0 seqnum s = raiseS RuntimeError s"
| "get_folder_path (Suc depth) seqnum s =
     (case mft s seqnum of
        None \<Rightarrow> returnS ''Orphan'' s
      | Some r \<Rightarrow>
          if filename r \<noteq> [] then returnS (filename r) s
          else case par_ref r of
              None \<Rightarrow> set_filename seqnum ''NoFNRecord'' s
            | Some p \<Rightarrow>
                if p = 5 then
                  (case rec_name r of
                     None \<Rightarrow> set_filename seqnum ''NoFNRecord'' s
                   | Some n \<Rightarrow> set_filename seqnum (''/'' @ n) s)
                else if p = seqnum then
                  (case rec_name r of
                     None \<Rightarrow> raiseS KeyError s
                   | Some n \<Rightarrow> set_filename seqnum (''ORPHAN/'' @ n) s)
                else
                  bindS (get_folder_path depth p) (\<lambda>parentpath.
                    case rec_name r of
                      None \<Rightarrow> raiseS KeyError
                    | Some n \<Rightarrow> set_filename seqnum (parentpath @ ''/'' @ n)) s)"

text \<open>The loop over all records, in the order of the dictionary; the branch for a record without a name compares and assigns nothing.\<close>

definition gen_filepath :: "nat \<Rightarrow> int \<Rightarrow> (mft_session, unit) pymethod" where
  "gen_filepath depth i s =
     (case mft s i of
        None \<Rightarrow> raiseS KeyError s
      | Some r \<Rightarrow>
          if filename r = [] \<and> fn r \<noteq> [] then bindS (get_folder_path depth i) (\<lambda>_. returnS ()) s else returnS () s)"

definition gen_filepaths :: "nat \<Rightarrow> (int set \<Rightarrow> int list) \<Rightarrow> (mft_session, unit) pymethod" where
  "gen_filepaths depth order s = forS (gen_filepath depth) (order (dom (mft s))) s"

section \<open>Updating records\<close>

definition record_slice :: "int \<Rightarrow> bytes \<Rightarrow> bytes" where
  "record_slice no raw = slice (nat (no * 1024)) (nat ((no + 1) * 1024)) raw"

text \<open>
  The attributes that an attribute list names in other records are appended; each of these records is put into the table as it was parsed,
  without a name.
\<close>

definition process_child :: "(bytes \<Rightarrow> mft_record res) \<Rightarrow> int \<Rightarrow> int \<times> int \<times> string \<Rightarrow> (mft_session, unit) pymethod" where
  "process_child parse record_no e =
     (case e of (no, ty, nm) \<Rightarrow>
        if no = record_no then returnS ()
        else bindS (getS (\<lambda>s. parse (record_slice no (MFT_RAW s)))) (\<lambda>r. bindS (liftS r) (\<lambda>other.
          setS (\<lambda>s. let m = (mft s)(no \<mapsto> other) in
            s\<lparr>mft := m(record_no := map_option (\<lambda>r. r\<lparr>attributes := attributes r @
                filter (\<lambda>(t, n, d). t = ty \<and> n = nm) (attributes other)\<rparr>) (m record_no))\<rparr>))))"

definition process_children :: "(bytes \<Rightarrow> mft_record res) \<Rightarrow> int \<Rightarrow> (mft_session, unit) pymethod" where
  "process_children parse record_no s =
     (case mft s record_no of
        None \<Rightarrow> raiseS KeyError s
      | Some r \<Rightarrow> (case attribute_list r of None \<Rightarrow> returnS () s | Some es \<Rightarrow> forS (process_child parse record_no) es s))"

definition replace_raw :: "int \<Rightarrow> bytes option \<Rightarrow> (mft_session, unit) pymethod" where
  "replace_raw record_no raw_record =
     (case raw_record of
        None \<Rightarrow> returnS ()
      | Some raw \<Rightarrow>
          if raw = [] then returnS ()
          else if length raw \<noteq> 1024 then raiseS AssertionError
          else setS (\<lambda>s. s\<lparr>MFT_RAW := take (nat (record_no * 1024)) (MFT_RAW s) @ raw @ drop (nat ((record_no + 1) * 1024)) (MFT_RAW s)\<rparr>))"

definition update_record ::
  "(bytes \<Rightarrow> mft_record res) \<Rightarrow> nat \<Rightarrow> (int set \<Rightarrow> int list) \<Rightarrow> int \<Rightarrow> bytes option \<Rightarrow> (mft_session, unit) pymethod" where
  "update_record parse depth order record_no raw_record =
     thenS (replace_raw record_no raw_record)
    (bindS (getS (\<lambda>s. parse (record_slice record_no (MFT_RAW s)))) (\<lambda>r. bindS (liftS r) (\<lambda>record.
     thenS (setS (\<lambda>s. s\<lparr>mft := (mft s)(record_no \<mapsto> name_record record)\<rparr>))
    (thenS (process_children parse record_no)
           (gen_filepaths depth order)))))"

definition process_mft_file :: "(bytes \<Rightarrow> mft_record res) \<Rightarrow> nat \<Rightarrow> (int set \<Rightarrow> int list) \<Rightarrow> (mft_session, unit) pymethod" where
  "process_mft_file parse depth order s =
     thenS (forS (\<lambda>i. update_record parse depth order i None) [0..int (length (MFT_RAW s) div 1024) - 1]) (gen_filepaths depth order) s"

section \<open>Properties\<close>

text \<open>The names from the root to a record, following the parents.\<close>

inductive chain :: "(int \<rightharpoonup> mft_record) \<Rightarrow> int \<Rightarrow> string list \<Rightarrow> bool" for m where
  chain_root: "m i = Some r \<Longrightarrow> par_ref r = Some 5 \<Longrightarrow> rec_name r = Some n \<Longrightarrow> chain m i [n]"
| chain_step: "m i = Some r \<Longrightarrow> par_ref r = Some p \<Longrightarrow> p \<noteq> 5 \<Longrightarrow> p \<noteq> i \<Longrightarrow> rec_name r = Some n \<Longrightarrow> chain m p ns \<Longrightarrow> chain m i (ns @ [n])"

inductive_cases chainE: "chain m i ns"

definition path_of :: "string list \<Rightarrow> string" where
  "path_of ns = concat (map (\<lambda>n. CHR ''/'' # n) ns)"

lemma path_of_simps [simp]: "path_of [n] = ''/'' @ n" "path_of (ns @ [n]) = path_of ns @ ''/'' @ n"
  by (simp_all add: path_of_def)

lemma chain_nonempty: "chain m i ns \<Longrightarrow> path_of ns \<noteq> []"
  by (erule chainE) simp_all

lemma chain_unique: "chain m i ns \<Longrightarrow> chain m i ns' \<Longrightarrow> ns' = ns"
proof (induction arbitrary: ns' rule: chain.induct)
  case (chain_root i r n)
  from chain_root.prems show ?case by (cases rule: chain.cases) (use chain_root.hyps in simp_all)
next
  case step: (chain_step i r p n ns)
  from step.prems show ?case
  proof (cases rule: chain.cases)
    case (chain_step r' p' n' ms)
    then have "p' = p" "n' = n" using step.hyps by simp_all
    then show ?thesis using chain_step step.IH [of ms] by simp
  qed (use step.hyps in simp)
qed

definition skeleton :: "(int \<rightharpoonup> mft_record) \<Rightarrow> int \<rightharpoonup> (fn_attr list \<times> int option \<times> string option)" where
  "skeleton m i = map_option (\<lambda>r. (fn r, par_ref r, rec_name r)) (m i)"

lemma skeleton_Some: "skeleton m = skeleton m' \<Longrightarrow> m i = Some r \<Longrightarrow>
    \<exists>r'. m' i = Some r' \<and> fn r' = fn r \<and> par_ref r' = par_ref r \<and> rec_name r' = rec_name r"
  by (drule fun_cong [of _ _ i]) (auto simp: skeleton_def dest!: sym [of "Some _"])

lemma chain_skeleton: "chain m i ns \<Longrightarrow> skeleton m = skeleton m' \<Longrightarrow> chain m' i ns"
proof (induction rule: chain.induct)
  case (chain_root i r n)
  then show ?case using skeleton_Some [of m m' i r] by (auto intro: chain.chain_root)
next
  case (chain_step i r p n ns)
  then show ?case using skeleton_Some [of m m' i r] by (auto intro: chain.chain_step)
qed

text \<open>Names found so far are right.\<close>

definition consistent :: "(int \<rightharpoonup> mft_record) \<Rightarrow> bool" where
  "consistent m \<longleftrightarrow> (\<forall>i r ns. m i = Some r \<longrightarrow> chain m i ns \<longrightarrow> filename r = [] \<or> filename r = path_of ns)"

lemma set_filename_chain:
  assumes "chain (mft s) i ns" "consistent (mft s)"
  shows "\<exists>s' r. set_filename i (path_of ns) s = (Inr (path_of ns), s') \<and> skeleton (mft s') = skeleton (mft s) \<and> consistent (mft s') \<and>
    mft s' i = Some r \<and> filename r = path_of ns \<and> (\<forall>j. j \<noteq> i \<longrightarrow> mft s' j = mft s j)"
proof -
  obtain r where r: "mft s i = Some r" using assms(1) by (auto elim: chainE)
  let ?m = "(mft s)(i := Some (r\<lparr>filename := path_of ns\<rparr>))"
  have sk: "skeleton ?m = skeleton (mft s)" using r by (auto simp: skeleton_def fun_eq_iff)
  have "consistent ?m"
    unfolding consistent_def
  proof (intro allI impI)
    fix j q ms
    assume j: "?m j = Some q" "chain ?m j ms"
    then have c: "chain (mft s) j ms" using chain_skeleton sk by blast
    show "filename q = [] \<or> filename q = path_of ms"
      using j(1) c chain_unique [OF assms(1)] assms(2) by (auto simp: consistent_def split: if_splits)
  qed
  then show ?thesis using r sk by (auto simp: set_filename_def)
qed

lemma folder_path:
  assumes "chain (mft s) i ns" "length ns \<le> depth" "consistent (mft s)"
  shows "\<exists>s' r. get_folder_path depth i s = (Inr (path_of ns), s') \<and> skeleton (mft s') = skeleton (mft s) \<and> consistent (mft s') \<and>
    mft s' i = Some r \<and> filename r = path_of ns \<and> (\<forall>j q. mft s j = Some q \<longrightarrow> filename q \<noteq> [] \<longrightarrow> mft s' j = mft s j)"
  using assms
proof (induction depth i s arbitrary: ns rule: get_folder_path.induct)
  case (1 seqnum s)
  then show ?case by (auto elim: chainE)
next
  case (2 depth i s)
  note set = set_filename_chain [OF 2(2,4)]
  from 2(2) obtain r where r: "mft s i = Some r" by (auto elim: chainE)
  show ?case
  proof (cases "filename r = []")
    case False
    then have "filename r = path_of ns" using 2(2,4) r by (auto simp: consistent_def)
    then show ?thesis using 2(4) r False by simp
  next
    case True
    from 2(2) show ?thesis
    proof (cases rule: chain.cases)
      case (chain_root q n)
      then show ?thesis using set r True by (auto simp del: path_of_simps) (auto simp: set_filename_def)
    next
      case (chain_step q p n ms)
      have q: "q = r" using chain_step r by simp
      have "length ms \<le> depth" using 2(3) chain_step by simp
      then obtain s1 where s1: "get_folder_path depth p s = (Inr (path_of ms), s1)" "skeleton (mft s1) = skeleton (mft s)" "consistent (mft s1)"
        "\<forall>j q. mft s j = Some q \<longrightarrow> filename q \<noteq> [] \<longrightarrow> mft s1 j = mft s j"
        using 2(1) [OF r _ _ _ _ chain_step(7)] True chain_step q 2(4) by blast
      have "chain (mft s1) i ns" using chain_skeleton [OF 2(2)] s1(2) by simp
      from set_filename_chain [OF this s1(3)] obtain s2 q2 where s2:
        "set_filename i (path_of ns) s1 = (Inr (path_of ns), s2)" "skeleton (mft s2) = skeleton (mft s)" "consistent (mft s2)"
        "mft s2 i = Some q2" "filename q2 = path_of ns" "\<forall>j. j \<noteq> i \<longrightarrow> mft s2 j = mft s1 j" using s1(2) by auto
      have "get_folder_path (Suc depth) i s = set_filename i (path_of ns) s1"
        using r True chain_step q s1(1) by (simp add: bindS_Inr)
      then show ?thesis using s2 s1(4) r True by (auto; metis option.inject)
    qed
  qed
qed

lemma gen_filepath_step:
  assumes "skeleton (mft s1) = skeleton (mft s)" "consistent (mft s1)" "mft s i = Some r0"
    and "fn r0 \<noteq> [] \<Longrightarrow> \<exists>ns. chain (mft s) i ns \<and> length ns \<le> depth"
  shows "\<exists>s2. gen_filepath depth i s1 = (Inr (), s2) \<and> skeleton (mft s2) = skeleton (mft s) \<and> consistent (mft s2) \<and>
      (\<forall>j q. mft s1 j = Some q \<longrightarrow> filename q \<noteq> [] \<longrightarrow> mft s2 j = mft s1 j) \<and>
      (\<forall>ns. fn r0 \<noteq> [] \<longrightarrow> chain (mft s) i ns \<longrightarrow> (\<exists>r'. mft s2 i = Some r' \<and> filename r' = path_of ns))"
proof -
  obtain r where r: "mft s1 i = Some r" "fn r = fn r0" using skeleton_Some [OF assms(1) [symmetric] assms(3)] by auto
  show ?thesis
  proof (cases "filename r = [] \<and> fn r0 \<noteq> []")
    case True
    then obtain ns where ns: "chain (mft s) i ns" "length ns \<le> depth" using assms(4) by blast
    have "chain (mft s1) i ns" using chain_skeleton [OF ns(1)] assms(1) by simp
    from folder_path [OF this ns(2) assms(2)] obtain s2 q where s2: "get_folder_path depth i s1 = (Inr (path_of ns), s2)"
      "skeleton (mft s2) = skeleton (mft s)" "consistent (mft s2)" "mft s2 i = Some q" "filename q = path_of ns"
      "\<forall>j q. mft s1 j = Some q \<longrightarrow> filename q \<noteq> [] \<longrightarrow> mft s2 j = mft s1 j" using assms(1) by auto
    have "gen_filepath depth i s1 = (Inr (), s2)" using True r s2(1) by (simp add: gen_filepath_def bindS_Inr)
    moreover have "path_of ms = path_of ns" if "chain (mft s) i ms" for ms using chain_unique [OF ns(1) that] by simp
    ultimately show ?thesis using s2 by auto
  next
    case False
    have "filename r = path_of ns" if "fn r0 \<noteq> []" "chain (mft s) i ns" for ns
      using False that assms(2) r chain_skeleton [OF that(2) assms(1) [symmetric]] unfolding consistent_def by blast
    then show ?thesis using False r assms(1,2) by (auto simp: gen_filepath_def)
  qed
qed


text \<open>Two records that are each other's parent: no depth of calls is enough.\<close>

theorem parent_cycle_raises:
  assumes "mft s i = Some r" "mft s j = Some q" "i \<noteq> j" "i \<noteq> 5" "j \<noteq> 5"
    and "par_ref r = Some j" "par_ref q = Some i" "filename r = []" "filename q = []"
  shows "get_folder_path depth i s = (Inl RuntimeError, s) \<and> get_folder_path depth j s = (Inl RuntimeError, s)"
proof (induction depth)
  case (Suc depth)
  then show ?case using assms by (simp add: bindS_Inl)
qed simp

text \<open>
  A record that is read before its parent is an orphan for good: its path is fixed without the parent, and no later run over the table
  changes it.
\<close>

theorem early_child_orphaned:
  assumes "mft s i = Some r" "filename r = []" "fn r \<noteq> []" "par_ref r = Some p" "p \<noteq> 5" "p \<noteq> i" "mft s p = None" "rec_name r = Some n"
    and "1 < depth"
  shows "\<exists>s' r'. gen_filepath depth i s = (Inr (), s') \<and> mft s' i = Some r' \<and> filename r' = ''Orphan/'' @ n \<and>
    (\<forall>m. gen_filepath depth' i (s'\<lparr>mft := m(i \<mapsto> r')\<rparr>) = (Inr (), s'\<lparr>mft := m(i \<mapsto> r')\<rparr>))"
proof -
  obtain d where "depth = Suc (Suc d)" using less_imp_Suc_add [OF assms(9)] by auto
  then show ?thesis using assms
    by (intro exI [of _ "s\<lparr>mft := (mft s)(i \<mapsto> r\<lparr>filename := ''Orphan/'' @ n\<rparr>)\<rparr>"] exI [of _ "r\<lparr>filename := ''Orphan/'' @ n\<rparr>"])
      (simp add: gen_filepath_def bindS_Inr set_filename_def)
qed

section \<open>Witnesses\<close>

definition demo_record :: "int \<Rightarrow> string \<Rightarrow> mft_record" where
  "demo_record p n = \<lparr>fn = [\<lparr>fn_par_ref = p, fn_name = n, fn_nspace = 1\<rparr>], attributes = [], attribute_list = None, filename = [],
     par_ref = Some p, rec_name = Some n\<rparr>"

definition demo_session :: mft_session where
  "demo_session = \<lparr>MFT_RAW = [], mft = [7 \<mapsto> demo_record 9 ''a'', 9 \<mapsto> demo_record 5 ''d'']\<rparr>"

lemma demo_chain: "chain (mft demo_session) 9 [''d'']" "chain (mft demo_session) 7 [''d'', ''a'']"
proof -
  show d: "chain (mft demo_session) 9 [''d'']" by (rule chain_root [where r = "demo_record 5 ''d''"]) (simp_all add: demo_session_def demo_record_def)
  have "chain (mft demo_session) 7 ([''d''] @ [''a''])"
    by (rule chain_step [where r = "demo_record 9 ''a''", OF _ _ _ _ _ d]) (simp_all add: demo_session_def demo_record_def)
  then show "chain (mft demo_session) 7 [''d'', ''a'']" by simp
qed


theorem parent_cycle_raises_witness:
  "get_folder_path 1000 7 \<lparr>MFT_RAW = [], mft = [7 \<mapsto> demo_record 9 ''a'', 9 \<mapsto> demo_record 7 ''d'']\<rparr> =
     (Inl RuntimeError, \<lparr>MFT_RAW = [], mft = [7 \<mapsto> demo_record 9 ''a'', 9 \<mapsto> demo_record 7 ''d'']\<rparr>)"
  using parent_cycle_raises [of "\<lparr>MFT_RAW = [], mft = [7 \<mapsto> demo_record 9 ''a'', 9 \<mapsto> demo_record 7 ''d'']\<rparr>" 7 "demo_record 9 ''a''" 9
      "demo_record 7 ''d''" 1000]
  by (simp add: demo_record_def del: get_folder_path.simps)

theorem early_child_orphaned_witness:
  "\<exists>s' r'. gen_filepath 1000 7 \<lparr>MFT_RAW = [], mft = [7 \<mapsto> demo_record 9 ''a'']\<rparr> = (Inr (), s') \<and> mft s' 7 = Some r' \<and>
     filename r' = ''Orphan/a''"
  using early_child_orphaned [of "\<lparr>MFT_RAW = [], mft = [7 \<mapsto> demo_record 9 ''a'']\<rparr>" 7 "demo_record 9 ''a''" 9 "''a''" 1000 0]
  by (auto simp: demo_record_def simp del: get_folder_path.simps)

end
