(* ===== verification/Spec2Isabelle.thy ===== *)
theory Spec2Isabelle
  imports DiskPipeline DiskSensor MemoryPhysical MemoryVirtual DhcpProperties DhcpText Capture PxeProperties BootChain
    KeyboardProperties MachineProperties MachineMemory FilterProperties AutomationProperties VirtualPower
    DiskIntrospectionProperties MemoryEngine ButtonClicker VolatilityProperties MemoryDiff DiskDiff
    CaptureEngines GenericVolume MftSession
begin

text \<open>
  A verification library for LO-PHI, the low-observable physical host instrumentation of MIT Lincoln
  Laboratory: the Python code that turns the raw signals of disk and memory sensors into operations with a
  meaning, drives the machines under observation, boots them from the network, and schedules the analyses.

  \<^bold>\<open>The program.\<close>  Sensors tap the SATA bus and the memory of a machine (\<^verbatim>\<open>src/python-lophi/lophi/sensors\<close>).
  The physical disk sensor sends every SATA frame in a UDP packet; the sensor class puts the frames back into
  order, the semantic gap code (\<^verbatim>\<open>src/python-lophi-semanticgap/lophi_semanticgap/disk\<close>) decodes them, a
  state machine rebuilds reads and writes of sectors out of interleaved queued commands, and the reconstruction of
  the file system turns these into operations on files.  The disk of a virtual machine is watched by the hypervisor, and
  an introspection server hands its activity to the sensors that ask for it (\<^verbatim>\<open>src/tools/disk_sensor\<close>).  The memory sensors
  answer reads over UDP (an FPGA card) or a UNIX socket (a hypervisor), behind a class that leaves bad address ranges out
  and caches what it read; Volatility reads through an address space on top of them, polled by an engine
  (\<^verbatim>\<open>lophi_semanticgap/memory\<close>, \<^verbatim>\<open>src/python-lophi-volatility\<close>).  Captures of raw packets are written to files and
  read back, also while they grow.  A control sensor, an Arduino or libvirt, presses keys and power buttons; a machine
  object (\<^verbatim>\<open>lophi/machine\<close>) uses the sensors, restores the disk of a physical machine by booting it from the network once,
  and makes a virtual machine from a description.  The boot services are an access-control
  server, a DHCP server, a TFTP server, an older PXE server and a name server (\<^verbatim>\<open>src/lophi-net-services/lophinet\<close>).
  The automation code (\<^verbatim>\<open>src/lophi-automation\<close>) takes analyses from a master to controllers, where a scheduler for each
  type of machine hands machines to analyses, which start and stop the engines.  Afterwards the captures are replayed and
  compared, and filters remove from the results what runs without a sample show too (\<^verbatim>\<open>src/lophi-analysis\<close>).

  \<^bold>\<open>The theories.\<close>
  \<^item> \<^verbatim>\<open>Prelude\<close>: Python's exceptions as values (\<open>py_error\<close>, \<open>res\<close>, \<open>bindE\<close>), slices, bytes, and the
    fixed-width integer encodings with their interface \<open>byte_codec\<close>.  \<^verbatim>\<open>PyText\<close>: numbers, splitting, joining and paths.
    \<^verbatim>\<open>PyState\<close>: methods that change an object and may raise, with the rules that carry an invariant through them.
    \<^verbatim>\<open>PyBlock\<close>: methods that may also wait forever.
  \<^item> \<^verbatim>\<open>SataFrames\<close> (\<^verbatim>\<open>disk/sata.py\<close>): the header of each frame type.  \<^verbatim>\<open>SataReconstructor\<close>
    (\<^verbatim>\<open>disk/sata_reconstructor.py\<close>): the state as a record, one definition per handler, the dispatch; every handler is an
    instance of the interface \<open>frame_handler\<close>.  \<^verbatim>\<open>SataReordering\<close> is the specification by tags and the refinement,
    \<^verbatim>\<open>SataProperties\<close> has the properties.
  \<^item> \<^verbatim>\<open>NtfsVolume\<close>, \<^verbatim>\<open>NtfsAccess\<close>, \<^verbatim>\<open>NtfsLemmas\<close>, \<^verbatim>\<open>NtfsProperties\<close> (\<^verbatim>\<open>disk/filesystem_reconstructor.py\<close>): the tables of a volume,
    its master file table, reads and writes.  \<^verbatim>\<open>FsImage\<close> (\<^verbatim>\<open>disk/filesystems\<close>): the two kinds of images; \<^verbatim>\<open>GenericVolume\<close>:
    volumes of any kind; \<^verbatim>\<open>MftSession\<close> (\<^verbatim>\<open>disk/filesystems/ntfs\<close>): the paths of a whole master file table.  \<^verbatim>\<open>DiskEngine\<close>
    (\<^verbatim>\<open>disk/__init__.py\<close>): the joining of operations and the choice of a volume; \<^verbatim>\<open>DiskPipeline\<close>: from frames to report rows.
  \<^item> \<^verbatim>\<open>PyStruct\<close> (\<^verbatim>\<open>lophi/data.py\<close>): C-style structures, over the interface \<open>field_format\<close>.  \<^verbatim>\<open>DiskSensor\<close>
    (\<^verbatim>\<open>sensors/disk/physical.py\<close>): the reordering of frames over the interface \<open>min_queue\<close>, and the commands to the card.
    \<^verbatim>\<open>DiskIntrospection\<close>, \<^verbatim>\<open>DiskIntrospectionProperties\<close> (\<^verbatim>\<open>lophi-disk-introspection-server.py\<close>, \<^verbatim>\<open>sensors/disk/virtual.py\<close>): the
    server, its listeners and the sensor of virtual disks.
  \<^item> \<^verbatim>\<open>MemorySensor\<close> (\<^verbatim>\<open>sensors/memory/__init__.py\<close>): bad regions and cache over the interface \<open>memory_device\<close>, which
    \<^verbatim>\<open>MemoryPhysical\<close> and \<^verbatim>\<open>MemoryVirtual\<close> provide, the first through the interface \<open>reliable_card\<close> of the FPGA card;
    \<^verbatim>\<open>MachineMemory\<close>: reads and dumps of a machine; \<^verbatim>\<open>AddressSpace\<close> (\<^verbatim>\<open>lophiaddressspace.py\<close>): the reads of Volatility.
  \<^item> \<^verbatim>\<open>VolatilityRender\<close>, \<^verbatim>\<open>VolatilityWrapper\<close>, \<^verbatim>\<open>ButtonClicker\<close>, \<^verbatim>\<open>VolatilityProperties\<close> (\<^verbatim>\<open>memory/volatility_extensions.py\<close>): what
    is made of the results of Volatility; \<^verbatim>\<open>MemoryEngine\<close> (\<^verbatim>\<open>memory/__init__.py\<close>): the polling engine.
  \<^item> \<^verbatim>\<open>Capture\<close> (\<^verbatim>\<open>lophi/capture/__init__.py\<close>): the writer and the three ways of reading.  \<^verbatim>\<open>CaptureEngines\<close> (\<^verbatim>\<open>disk/__init__.py\<close>,
    \<^verbatim>\<open>sensors/network\<close>, \<^verbatim>\<open>lophi_automation/analysis\<close>): the processes that listen to disks and networks, and their commands.
  \<^item> \<^verbatim>\<open>DhcpConstants\<close>, \<^verbatim>\<open>DhcpPacket\<close>, \<^verbatim>\<open>DhcpTypes\<close>, \<^verbatim>\<open>DhcpText\<close> (\<^verbatim>\<open>dhcplib/*.py\<close>): tables, packets, address types and
    textual options; \<^verbatim>\<open>DhcpProperties\<close> computes over the interface \<open>option_store\<close>.  \<^verbatim>\<open>Dhcpd\<close>, \<^verbatim>\<open>DhcpdProperties\<close>
    (\<^verbatim>\<open>proxydhcpd/dhcpd.py\<close>): the handlers of the server.
  \<^item> \<^verbatim>\<open>Tftp\<close>, \<^verbatim>\<open>TftpProperties\<close> (\<^verbatim>\<open>pybootd/tftpd.py\<close>), \<^verbatim>\<open>Pxe\<close>, \<^verbatim>\<open>PxeProperties\<close> (\<^verbatim>\<open>pybootd/pxed.py\<close>), \<^verbatim>\<open>NetServices\<close>
    (\<^verbatim>\<open>pxeserver.py\<close>, \<^verbatim>\<open>aclserver.py\<close>, \<^verbatim>\<open>dns.py\<close>), and \<^verbatim>\<open>BootChain\<close>: from a permission to the boot menu.
  \<^item> \<^verbatim>\<open>Keyboard\<close>, \<^verbatim>\<open>KeyboardProperties\<close> (\<^verbatim>\<open>lophi/actuation\<close>): key codes and scripts.  \<^verbatim>\<open>Control\<close>, \<^verbatim>\<open>ControlProperties\<close>
    (\<^verbatim>\<open>sensors/control/physical.py\<close>) and \<^verbatim>\<open>VirtualControl\<close> (\<^verbatim>\<open>sensors/control/virtual.py\<close>): the control sensors.  \<^verbatim>\<open>Machine\<close>,
    \<^verbatim>\<open>MachineProperties\<close> (\<^verbatim>\<open>machine/*.py\<close>): power and the restoring of the disk; \<^verbatim>\<open>VirtualMachine\<close>, \<^verbatim>\<open>VirtualProperties\<close>,
    \<^verbatim>\<open>VirtualConfig\<close>, \<^verbatim>\<open>VirtualPower\<close> (\<^verbatim>\<open>machine/virtual.py\<close>): virtual machines over a libvirt that is an argument.  \<^verbatim>\<open>Ping\<close>
    (\<^verbatim>\<open>network/ping.py\<close>): echo requests.
  \<^item> \<^verbatim>\<open>AnalysisFilter\<close>, \<^verbatim>\<open>FilterProperties\<close> (\<^verbatim>\<open>analysis_filter.py\<close>): the noise filters.  \<^verbatim>\<open>MemoryDiff\<close>, \<^verbatim>\<open>DiskDiff\<close>
    (\<^verbatim>\<open>memory_analysis.py\<close>, \<^verbatim>\<open>disk_analysis.py\<close>): the comparison of memory images and of disk captures.
  \<^item> \<^verbatim>\<open>Scheduler\<close>, \<^verbatim>\<open>SchedulerProperties\<close> (\<^verbatim>\<open>controller.py\<close>, \<^verbatim>\<open>analysis_scripts.py\<close>): schedulers and analyses as processes whose
    turns interleave.  \<^verbatim>\<open>Automation\<close>, \<^verbatim>\<open>AutomationProperties\<close> (\<^verbatim>\<open>controller.py\<close>, \<^verbatim>\<open>master.py\<close>): messages and commands.
  \<^item> This theory: two theorems about a whole memory sensor, from the class down to the wire.

  \<^bold>\<open>What is shown.\<close>
  C1 to C3 are about the SATA state machine: on streams of queued commands without gaps it refines the
  specification by tags, however the transfers interleave; its states stay well formed; the situations in which
  a frame raises are exactly the listed ones.  C4 is the round trip of structures.  C5 and C6: the disk sensor loses and
  invents nothing, delivers in order unless it counts a drop, and delivers a whole burst that the network mixed up.
  C7, C8, C20 and C33: reads, dumps and the reads of Volatility return the memory with zeros in the bad regions, with and
  without cache.  C9: the wire format of DHCP converts without loss.  C10: a reader that
  follows a growing capture returns each record once.  C11 to C13 are about files: which file owns a sector, that
  both kinds of images agree, and that queued reads of files are reported with
  their paths.  C14 and C15 are about TFTP: what a client holds is a beginning of the file, and it gets all of it.
  C16 and C17 are about booting: a permitted machine gets its image, and addresses are never shared.  C18, C19 and
  C26 to C28 are about driving machines: scripts are typed, the wait for a restored machine ends, a virtual machine is
  switched on and reset as promised, and machines get different addresses.  C21: the disk filter removes exactly what it
  should.  C22 to C25 are about scheduling: no two analyses at once on a machine, each machine at one place, analyses get
  a machine and give it back.  C29: the activity of a virtual disk reaches each listener.  C30 to C32 are about Volatility: the engine
  reports each turn, new buttons are clicked, and the search for a module is right.  C34 to C36 are about comparing
  runs: the lines and activities that are new are exactly those reported, but no capture of a physical machine can be replayed.
  C37 and C38 lead from the sensor of a virtual disk through a capture process, the capture file and its replay to the
  report: nothing that was read is lost, and the live engine reports nothing else.  C39: the walk over the blocks of a volume misses
  no file.  C40: the paths of a master file table are those of its tree.
  Further theorems of the component theories without a number state errors that the code makes on
  particular inputs, such as options that hang the boot server, blocks that cannot be sent, a memory engine that is never resumed or
  a network capture that a pause ends.

  \<^bold>\<open>Conventions, bounds and fuel.\<close>  Numbers that Python does not bound are \<open>nat\<close> or \<open>int\<close>; bytes are 8-bit words;
  16-bit sequence and transaction numbers have their modulus written out.  Blocking on the network is the end of
  a list of arrivals, blocking on a queue or a lock is \<open>None\<close>.  The retry loop of the physical memory sensor has fuel: one
  turn is enough for a card that answers, one more than the number of retries for a card that is silent, and for
  a card whose answers are refused no fuel is enough.  The depth of calls in \<^verbatim>\<open>MftSession\<close> is the limit of Python's recursion: as
  many levels as the tree has are enough.  Loops that wait for a device, the loop of the PXE
  server over padding, and the walk over the blocks of an access are partial functions whose value is \<open>None\<close> if they do not end; that
  they end is proved as such (C19, C39).  All other loops are total functions with a measure.  Code outside the repository is
  an argument: the card, the hypervisor with libvirt, the Arduino and the clock, the Sleuthkit and analyzemft, Volatility, dpkt, the
  import of a script, the text of a command, with what the code relies on as hypotheses, and with instances that satisfy them.

  \<^bold>\<open>What is not modelled.\<close>  Sockets, processes, queues and the file system beyond what is described; log messages,
  except where building one raises; user interfaces, databases, protocol buffers and message queues of the
  automation code, which hand data on without changing it; the bindings to Volatility, libvirt and the Sleuthkit; the VNC client;
  the sniffer of the network engine, which prints what dpkt decodes; the text forms and files of DHCP packets, which no server uses;
  the older class for NTFS volumes in \<^verbatim>\<open>disk/filesystems\<close>, which \<^verbatim>\<open>filesystem_reconstructor.py\<close> replaces; the scripts of
  single analyses such as \<^verbatim>\<open>malware.py\<close>, which are sequences of calls to the modelled machine; command lines, examples and
  measurement scripts; the C code in QEMU.
\<close>

section \<open>Reading memory through a whole sensor\<close>

text \<open>
  The memory of a virtual machine is read exactly, except for its first page, which reads as zeros:
  this is what the class, the cache and the protocol with the hypervisor compute together, for every
  address and length, whether the cache is on or not.
\<close>

theorem virtual_machine_memory:
  assumes "sensor_ok (\<lambda>s. pieces s = []) mem s" and "BAD_MEM_REGIONS s = virtual_bad_regions"
    and "0 < n" and "a + n + 7680 \<le> 2 ^ 64 - 1"
  shows "\<exists>s'. read (virtual_read (memory_vm mem)) now a n s =
      Inr (s', Some (map (\<lambda>i. if i < 4096 then 0 else mem i) [a..<a + n]))"
proof -
  have "masked virtual_bad_regions mem = (\<lambda>i. if i < 4096 then 0 else mem i)"
    by (auto simp: masked_def bad_at_def virtual_bad_regions_def)
  moreover have "separated (BAD_MEM_REGIONS s)" by (simp add: assms(2) virtual_bad_regions_def)
  ultimately show ?thesis
    using virtual.read_ok [OF assms(1) _ assms(3,4), of now] assms(2) by auto
qed

text \<open>
  The ranges of the physical sensor are not sorted, which the class assumes: a read that spans the second
  and the last of them returns nothing, although the card answers every request.
\<close>

theorem physical_regions_unsorted:
  assumes "sock (device s) = []" and "BAD_MEM_REGIONS s = physical_bad_regions" and "CACHE_TIMEOUT s \<le> 0"
    and "0x100000 \<le> a" and "a < 0x3ff00000" and "0x80000000 < a + n" and "a + n \<le> 0xdbf00000"
  shows "\<exists>s'. read (physical_read (memory_card mem) 1 5) now a n s = Inr (s', None)"
proof -
  have first: "\<exists>d'. physical_read (memory_card mem) 1 5 a (0x7fe00000 - a) (device s) =
      Inr (d', Some (map mem [a..<a + (0x7fe00000 - a)])) \<and> sock d' = []"
    using assms by (intro memory_card.device.device_read) auto
  then obtain d1 where d1: "physical_read (memory_card mem) 1 5 a (0x7fe00000 - a) (device s) =
      Inr (d1, Some (map mem [a..<a + (0x7fe00000 - a)]))" "sock d1 = []" by blast
  have "\<exists>d'. read_from_sensor (memory_card mem) 1 False 5 0x80000000 0 d1 = Some (d', Inr [])"
    using memory_card.read_from_sensor_ok [of "0x80000000" 0 d1 mem False] d1(2) by auto
  then obtain d2 where d2: "physical_read (memory_card mem) 1 5 0x80000000 0 d1 = Inr (d2, Some [])"
    by (auto simp: physical_read_def)
  have plan: "plan_reads a n physical_bad_regions [] None =
      Some ([(a, 0x7fe00000), (0x80000000, 0x3ff00000)], Some (0x3ff00000, 0x40000000))"
    using assms(4-7) by (simp add: physical_bad_regions_def)
  have reads: "run_reads (physical_read (memory_card mem) 1 5) now
      [(a, 0x7fe00000), (0x80000000, 0x3ff00000), (0x40000000, a + n)] None [] s =
      Inr (s\<lparr>device := d2\<rparr>, None)"
    using assms(3,5) d1(1) d2 by (simp add: read_cached_def Let_def del: upt_rec_numeral)
  show ?thesis
    using assms(2,6) reads by (simp add: read_def plan Let_def index_at_def)
qed

section \<open>Witnesses\<close>

theorem virtual_machine_memory_witness:
  "\<exists>s'. read (virtual_read (memory_vm (\<lambda>_. 7))) 0 4094 4
       \<lparr>BAD_MEM_REGIONS = virtual_bad_regions, CACHE_TIMEOUT = 0, cache = Map.empty,
        cache_timeouts = Map.empty, device = fresh_vm\<rparr> = Inr (s', Some [0, 0, 7, 7])"
proof -
  have "[4094..<4094 + 4] = [4094, 4095, 4096, 4097 :: nat]" by (simp add: upt_rec)
  with virtual_machine_memory [of "\<lambda>_. 7" "\<lparr>BAD_MEM_REGIONS = virtual_bad_regions, CACHE_TIMEOUT = 0,
      cache = Map.empty, cache_timeouts = Map.empty, device = fresh_vm\<rparr>" 4 4094 0]
  show ?thesis by (simp add: sensor_ok_def fresh_vm_def)
qed

theorem physical_regions_unsorted_witness:
  "\<exists>s'. read (physical_read (memory_card (\<lambda>_. 7)) 1 5) 0 0x3fe00000 0x41000000 (fresh_sensor physical_bad_regions 0) =
     Inr (s', None)"
  by (rule physical_regions_unsorted) (simp_all add: fresh_sensor_def fresh_card_def)

end
